(* ===== verification/Prelude.thy ===== *)
theory Prelude
  imports Main "HOL-Library.Word" "HOL-Library.Multiset"
begin

unbundle bit_operations_syntax

text \<open>
  Machine types and the facts that every component shares: sums over indexed lists,
  first and last matches of a counting loop, little-endian byte codecs for the C structs
  that travel over netlink, and the theorem collections the components extend.
\<close>

type_synonym u8 = "8 word"
type_synonym u16 = "16 word"
type_synonym u32 = "32 word"
type_synonym u64 = "64 word"

named_theorems pfab_simps \<open>definitions unfolded when a scheduler operation is evaluated\<close>
named_theorems nl_simps \<open>alignment macros and message accessors\<close>
named_theorems cstr_simps \<open>C string scanning and formatting\<close>

section \<open>Lists indexed by a counter\<close>

lemma sum_list_map_update:
  fixes f :: "'a \<Rightarrow> nat"
  assumes "i < length xs"
  shows "sum_list (map f (xs[i := y])) + f (xs ! i) = sum_list (map f xs) + f y"
  using assms
proof (induction xs arbitrary: i)
  case (Cons x xs)
  then show ?case by (cases i) auto
qed simp

lemma sum_list_update_Suc:
  fixes f :: "'a \<Rightarrow> nat"
  assumes "i < length xs" "f y = Suc (f (xs ! i))"
  shows "sum_list (map f (xs[i := y])) = Suc (sum_list (map f xs))"
  using sum_list_map_update [OF assms(1), of f y] assms(2) by simp

lemma sum_list_update_pred:
  fixes f :: "'a \<Rightarrow> nat"
  assumes "i < length xs" "f (xs ! i) = Suc (f y)"
  shows "Suc (sum_list (map f (xs[i := y]))) = sum_list (map f xs)"
  using sum_list_map_update [OF assms(1), of f y] assms(2) by simp

lemma find_upt_Some_iff:
  "List.find P [0..<n] = Some j \<longleftrightarrow> j < n \<and> P j \<and> (\<forall>k<j. \<not> P k)"
  by (auto simp: find_Some_iff)

lemma find_rev_upt_Some_iff:
  "List.find P (rev [0..<n]) = Some j \<longleftrightarrow> j < n \<and> P j \<and> (\<forall>k. j < k \<and> k < n \<longrightarrow> \<not> P k)"
proof (induction n)
  case (Suc n)
  have "List.find P (rev [0..<Suc n]) = (if P n then Some n else List.find P (rev [0..<n]))"
    by simp
  with Suc show ?case by (auto simp: less_Suc_eq)
qed simp

lemma find_rev_upt_None_iff:
  "List.find P (rev [0..<n]) = None \<longleftrightarrow> (\<forall>k<n. \<not> P k)"
  by (auto simp: find_None_iff)

lemma find_upt_None_iff:
  "List.find P [0..<n] = None \<longleftrightarrow> (\<forall>k<n. \<not> P k)"
  by (auto simp: find_None_iff)

section \<open>Words\<close>

lemma and_push_bit_1_iff_bit:
  "((w::'a::len word) AND push_bit j 1 \<noteq> 0) = bit w j"
  by (simp add: bit_iff_and_push_bit_not_eq_0)

lemma word_eq_0_iff_bits: "((w::'a::len word) = 0) = (\<forall>j. \<not> bit w j)"
  using bit_imp_le_length by (auto simp: bit_eq_iff)

lemma unat_Suc_no_wrap:
  "unat (w::'a::len word) < 2 ^ LENGTH('a) - 1 \<Longrightarrow> unat (w + 1) = Suc (unat w)"
  by (simp add: unat_word_ariths)

lemma unat_pred:
  "w \<noteq> 0 \<Longrightarrow> unat (w - 1 :: 'a::len word) = unat w - 1"
  by (simp add: unat_minus_one)

lemma word_less_plus_1: "(w::'a::len word) \<noteq> - 1 \<Longrightarrow> w < w + 1"
proof -
  assume "w \<noteq> - 1"
  then have "1 + w \<noteq> 0" by (metis add.commute add_eq_0_iff)
  then have "unat (w + 1) = Suc (unat w)" by (metis add.commute unatSuc)
  then show ?thesis by (simp add: word_less_nat_alt)
qed

lemma Suc_unat_less: "(w::'a::len word) \<noteq> - 1 \<Longrightarrow> Suc (unat w) < 2 ^ LENGTH('a)"
  using word_less_plus_1 [of w] unsigned_less [of "w + 1"]
  by (metis Suc_leI le_less_trans word_less_nat_alt)

lemma sint_eq_uint_small:
  assumes "(w::u32) < 2 ^ 31" shows "sint w = uint w"
proof -
  have "signed_take_bit 31 (uint w) = uint w"
    using assms by (intro signed_take_bit_int_eq_self) (simp_all add: word_less_def order_trans [OF _ uint_nonnegative])
  then show ?thesis by (simp add: sint_uint)
qed

lemma sint_small_nonneg: "(w::u32) < 2 ^ 31 \<Longrightarrow> \<not> sint w < 0"
  by (simp add: sint_eq_uint_small)

section \<open>Little-endian bytes\<close>

text \<open>
  The layout of an unsigned C integer of \<open>n\<close> bytes in memory on the little-endian
  machines the module is built for.
\<close>

definition le_bytes :: "nat \<Rightarrow> 'a::len word \<Rightarrow> u8 list" where
  "le_bytes n w = map (\<lambda>i. ucast (drop_bit (8 * i) w)) [0..<n]"

fun of_le_bytes :: "u8 list \<Rightarrow> 'a::len word" where
  "of_le_bytes [] = 0"
| "of_le_bytes (b # bs) = ucast b OR push_bit 8 (of_le_bytes bs)"

lemma length_le_bytes [simp]: "length (le_bytes n w) = n"
  by (simp add: le_bytes_def)

lemma le_bytes_Suc: "le_bytes (Suc n) w = ucast w # le_bytes n (drop_bit 8 w)"
proof -
  have "[0..<Suc n] = 0 # map Suc [0..<n]"
    by (simp add: map_Suc_upt upt_conv_Cons)
  then show ?thesis
    by (simp add: le_bytes_def comp_def ac_simps)
qed

lemma bit_of_le_bytes:
  "bit (of_le_bytes bs :: 'a::len word) k \<longleftrightarrow>
     k < LENGTH('a) \<and> k div 8 < length bs \<and> bit (bs ! (k div 8)) (k mod 8)"
proof (induction bs arbitrary: k)
  case (Cons b bs)
  show ?case
  proof (cases "k < 8")
    case True
    then show ?thesis by (auto simp: bit_simps)
  next
    case False
    then obtain m where m: "k = 8 + m" using le_Suc_ex not_less by blast
    then have "\<not> bit b k" using bit_imp_le_length [of b k] by auto
    moreover have "k div 8 = Suc (m div 8)" "k mod 8 = m mod 8" using m by auto
    ultimately show ?thesis using Cons [of m] m
      by (auto simp: bit_simps)
  qed
qed simp

lemma bit_le_bytes_nth:
  "i < n \<Longrightarrow> bit (le_bytes n w ! i) j \<longleftrightarrow> j < 8 \<and> bit w (8 * i + j)"
  by (simp add: le_bytes_def bit_simps)

lemma of_le_bytes_le_bytes:
  fixes w :: "'a::len word"
  assumes "LENGTH('a) \<le> 8 * n"
  shows "of_le_bytes (le_bytes n w) = w"
proof (rule bit_eqI)
  fix k
  assume "possible_bit TYPE('a word) k"
  then have k: "k < LENGTH('a)" by simp
  with assms have "k div 8 < n" by auto
  with k show "bit (of_le_bytes (le_bytes n w) :: 'a word) k = bit w k"
    by (simp add: bit_of_le_bytes bit_le_bytes_nth)
qed

lemma of_le_bytes_le_bytes_4 [simp]: "of_le_bytes (le_bytes 4 (w::u32)) = w"
  by (rule of_le_bytes_le_bytes) simp

lemma of_le_bytes_le_bytes_2 [simp]: "of_le_bytes (le_bytes 2 (w::u16)) = w"
  by (rule of_le_bytes_le_bytes) simp

lemma of_le_bytes_le_bytes_8 [simp]: "of_le_bytes (le_bytes 8 (w::u64)) = w"
  by (rule of_le_bytes_le_bytes) simp

lemma of_le_bytes_le_bytes_1 [simp]: "of_le_bytes (le_bytes 1 (w::u8)) = w"
  by (rule of_le_bytes_le_bytes) simp

lemma le_bytes_of_le_bytes:
  assumes "8 * length bs \<le> LENGTH('a::len)"
  shows "le_bytes (length bs) (of_le_bytes bs :: 'a word) = bs"
proof (rule nth_equalityI)
  fix i assume "i < length (le_bytes (length bs) (of_le_bytes bs :: 'a word))"
  then have i: "i < length bs" by simp
  show "le_bytes (length bs) (of_le_bytes bs :: 'a word) ! i = bs ! i"
  proof (rule bit_eqI)
    fix j assume "possible_bit TYPE(8 word) j"
    then have j: "j < 8" by simp
    with i assms have "8 * i + j < LENGTH('a)" by linarith
    with i j show "bit (le_bytes (length bs) (of_le_bytes bs :: 'a word) ! i) j = bit (bs ! i) j"
      by (simp add: bit_le_bytes_nth bit_of_le_bytes)
  qed
qed simp

lemma bytes_4_exhaust:
  assumes "length bs = 4" obtains w :: u32 where "bs = le_bytes 4 w"
proof
  show "bs = le_bytes 4 (of_le_bytes bs :: u32)"
    using le_bytes_of_le_bytes [of bs, where 'a = 32] assms by simp
qed

lemma of_nat_eq_iff_bounded:
  assumes "m < 2 ^ LENGTH('a::len)" "n < 2 ^ LENGTH('a)"
  shows "(of_nat m :: 'a word) = of_nat n \<longleftrightarrow> m = n"
  using assms by (metis mod_less unat_of_nat)

lemma unat_of_nat_eq: "n < 2 ^ LENGTH('a::len) \<Longrightarrow> unat (of_nat n :: 'a word) = n"
  by (simp add: unat_of_nat)

lemma ucast_up_down:
  "LENGTH('a::len) \<le> LENGTH('b::len) \<Longrightarrow> ucast (ucast (x :: 'a word) :: 'b word) = x"
  by (rule bit_word_eqI) (simp add: bit_simps)

end
