(* ===== verification/Kernel_API.thy ===== *)
theory Kernel_API
  imports Prelude
begin

text \<open>
  The part of the Linux kernel that the pFabric module calls and that is not part of the
  repository: socket buffers, the fields of \<^verbatim>\<open>struct Qdisc\<close> that the module touches,
  the packet-list helpers of \<^verbatim>\<open>net/sch_generic.h\<close> and \<^verbatim>\<open>linux/skbuff.h\<close>, and the
  procfs calls. The helpers are parameters, collected in the records \<open>kernel\<close> and
  \<open>proc_api\<close>; what the module relies on is stated in the locales \<open>kernel_qdisc\<close> and
  \<open>procfs\<close>. A packet list is an abstract type \<open>'q\<close>, observed through \<open>contents\<close>.
\<close>

record sk_buff =
  skb_id :: nat         \<comment> \<open>the identity of the buffer (its address)\<close>
  skb_len :: u32
  skb_pkt_len :: u32    \<comment> \<open>\<^verbatim>\<open>qdisc_pkt_len\<close>: the length the qdisc layer accounts\<close>
  skb_priority :: u32
  skb_tos :: u8         \<comment> \<open>\<^verbatim>\<open>ip_hdr(skb)->tos\<close>\<close>

record Qdisc =
  q_qlen :: u32
  qstats_backlog :: u32
  qstats_drops :: u32
  dev_name :: string    \<comment> \<open>\<^verbatim>\<open>qdisc_dev(sch)->name\<close>\<close>

definition NET_XMIT_SUCCESS :: int where "NET_XMIT_SUCCESS = 0"
definition NET_XMIT_DROP :: int where "NET_XMIT_DROP = 1"
definition NET_XMIT_CN :: int where "NET_XMIT_CN = 2"
definition EINVAL :: int where "EINVAL = 22"

text \<open>\<^verbatim>\<open>BUG_ON\<close> stops the machine: a run that reaches it has no state to continue with.\<close>

datatype 'a kresult = Done 'a | BUG

record 'q kernel =
  k_skb_queue_head_init :: "'q"
  k_qdisc_enqueue_tail :: "sk_buff \<Rightarrow> Qdisc \<Rightarrow> 'q \<Rightarrow> Qdisc \<times> 'q"
  k_qdisc_dequeue_head :: "Qdisc \<Rightarrow> 'q \<Rightarrow> sk_buff option \<times> Qdisc \<times> 'q"
  k_qdisc_queue_drop_head :: "Qdisc \<Rightarrow> 'q \<Rightarrow> u32 \<times> Qdisc \<times> 'q"
  k_qdisc_drop :: "sk_buff \<Rightarrow> Qdisc \<Rightarrow> int \<times> Qdisc"
  k_skb_queue_empty :: "'q \<Rightarrow> bool"
  k_skb_peek :: "'q \<Rightarrow> sk_buff option"
  k_qdisc_reset_queue :: "Qdisc \<Rightarrow> 'q \<Rightarrow> Qdisc \<times> 'q"
  k_skb_queue_purge :: "'q \<Rightarrow> 'q"

definition head_opt :: "'a list \<Rightarrow> 'a option" where
  "head_opt xs = (case xs of [] \<Rightarrow> None | x # _ \<Rightarrow> Some x)"

lemma head_opt_simps [simp]: "head_opt [] = None" "head_opt (x # xs) = Some x"
  by (simp_all add: head_opt_def)

lemma head_opt_eq_None [simp]: "head_opt xs = None \<longleftrightarrow> xs = []"
  by (cases xs) simp_all

lemma head_opt_eq_Some [simp]: "head_opt xs = Some x \<longleftrightarrow> (\<exists>ys. xs = x # ys)"
  by (cases xs) auto

text \<open>
  The contract of the packet-list helpers. A helper that moves one packet leaves the queue
  length counter of the discipline alone (the discipline updates it itself), keeps the
  drop counter unless it is the one that counts drops, and accounts the backlog.
\<close>

locale kernel_qdisc =
  fixes K :: "'q kernel" and contents :: "'q \<Rightarrow> sk_buff list"
  assumes contents_init: "contents (k_skb_queue_head_init K) = []"
    and contents_enqueue:
      "contents (snd (k_qdisc_enqueue_tail K skb d q)) = contents q @ [skb]"
    and qlen_enqueue: "q_qlen (fst (k_qdisc_enqueue_tail K skb d q)) = q_qlen d"
    and drops_enqueue: "qstats_drops (fst (k_qdisc_enqueue_tail K skb d q)) = qstats_drops d"
    and backlog_enqueue:
      "qstats_backlog (fst (k_qdisc_enqueue_tail K skb d q)) = qstats_backlog d + skb_pkt_len skb"
    and fst_dequeue: "fst (k_qdisc_dequeue_head K d q) = head_opt (contents q)"
    and contents_dequeue: "contents (snd (snd (k_qdisc_dequeue_head K d q))) = tl (contents q)"
    and qlen_dequeue: "q_qlen (fst (snd (k_qdisc_dequeue_head K d q))) = q_qlen d"
    and drops_dequeue: "qstats_drops (fst (snd (k_qdisc_dequeue_head K d q))) = qstats_drops d"
    and backlog_dequeue:
      "qstats_backlog (fst (snd (k_qdisc_dequeue_head K d q))) =
       qstats_backlog d - (case contents q of [] \<Rightarrow> 0 | skb # _ \<Rightarrow> skb_pkt_len skb)"
    and len_drop_head:
      "fst (k_qdisc_queue_drop_head K d q) =
       (case contents q of [] \<Rightarrow> 0 | skb # _ \<Rightarrow> skb_pkt_len skb)"
    and contents_drop_head:
      "contents (snd (snd (k_qdisc_queue_drop_head K d q))) = tl (contents q)"
    and qlen_drop_head: "q_qlen (fst (snd (k_qdisc_queue_drop_head K d q))) = q_qlen d"
    and drops_drop_head: "qstats_drops (fst (snd (k_qdisc_queue_drop_head K d q))) = qstats_drops d"
    and backlog_drop_head:
      "qstats_backlog (fst (snd (k_qdisc_queue_drop_head K d q))) =
       qstats_backlog d - (case contents q of [] \<Rightarrow> 0 | skb # _ \<Rightarrow> skb_pkt_len skb)"
    and rc_drop: "fst (k_qdisc_drop K skb d) = NET_XMIT_DROP"
    and qlen_drop: "q_qlen (snd (k_qdisc_drop K skb d)) = q_qlen d"
    and drops_drop: "qstats_drops (snd (k_qdisc_drop K skb d)) = qstats_drops d + 1"
    and backlog_drop: "qstats_backlog (snd (k_qdisc_drop K skb d)) = qstats_backlog d"
    and queue_empty_iff: "k_skb_queue_empty K q \<longleftrightarrow> contents q = []"
    and peek_eq: "k_skb_peek K q = head_opt (contents q)"
    and contents_reset: "contents (snd (k_qdisc_reset_queue K d q)) = []"
    and contents_purge: "contents (k_skb_queue_purge K q) = []"
begin

lemmas contents_laws = contents_init contents_enqueue fst_dequeue contents_dequeue
  contents_drop_head queue_empty_iff peek_eq contents_reset contents_purge

lemmas account_laws = qlen_enqueue drops_enqueue backlog_enqueue qlen_dequeue drops_dequeue backlog_dequeue
  len_drop_head qlen_drop_head drops_drop_head backlog_drop_head
  rc_drop qlen_drop drops_drop backlog_drop

lemmas kernel_laws = contents_laws account_laws

end

text \<open>
  The helpers on plain lists: the documented behaviour of the kernel's doubly linked
  packet lists, oldest packet first.
\<close>

definition list_kernel :: "sk_buff list kernel" where
  "list_kernel = \<lparr>
     k_skb_queue_head_init = [],
     k_qdisc_enqueue_tail = (\<lambda>skb d q.
       (d\<lparr>qstats_backlog := qstats_backlog d + skb_pkt_len skb\<rparr>, q @ [skb])),
     k_qdisc_dequeue_head = (\<lambda>d q. case q of
         [] \<Rightarrow> (None, d, [])
       | skb # r \<Rightarrow> (Some skb, d\<lparr>qstats_backlog := qstats_backlog d - skb_pkt_len skb\<rparr>, r)),
     k_qdisc_queue_drop_head = (\<lambda>d q. case q of
         [] \<Rightarrow> (0, d, [])
       | skb # r \<Rightarrow> (skb_pkt_len skb, d\<lparr>qstats_backlog := qstats_backlog d - skb_pkt_len skb\<rparr>, r)),
     k_qdisc_drop = (\<lambda>skb d. (NET_XMIT_DROP, d\<lparr>qstats_drops := qstats_drops d + 1\<rparr>)),
     k_skb_queue_empty = (\<lambda>q. case q of [] \<Rightarrow> True | _ # _ \<Rightarrow> False),
     k_skb_peek = head_opt,
     k_qdisc_reset_queue = (\<lambda>d q. (d, [])),
     k_skb_queue_purge = (\<lambda>q. []) \<rparr>"

interpretation list_kernel: kernel_qdisc list_kernel id
  by unfold_locales (simp_all add: list_kernel_def split: list.splits)

section \<open>The proc filesystem\<close>

text \<open>
  \<^verbatim>\<open>create_proc_entry\<close> returns a null pointer when it cannot make the entry;
  \<^verbatim>\<open>remove_proc_entry\<close> of a name that does not exist only warns.
\<close>

record 'p proc_api =
  p_create_proc_entry :: "string \<Rightarrow> 'p \<Rightarrow> bool \<times> 'p"
  p_remove_proc_entry :: "string \<Rightarrow> 'p \<Rightarrow> 'p"

locale procfs =
  fixes P :: "'p proc_api" and entries :: "'p \<Rightarrow> string set"
  assumes create_ok:
      "fst (p_create_proc_entry P n p) \<Longrightarrow> entries (snd (p_create_proc_entry P n p)) = insert n (entries p)"
    and create_fails:
      "\<not> fst (p_create_proc_entry P n p) \<Longrightarrow> entries (snd (p_create_proc_entry P n p)) = entries p"
    and entries_remove: "entries (p_remove_proc_entry P n p) = entries p - {n}"

text \<open>A proc filesystem that refuses the names of a given list.\<close>

definition list_procfs :: "string list \<Rightarrow> string list proc_api" where
  "list_procfs refused = \<lparr>
     p_create_proc_entry = (\<lambda>n p. if n \<in> set refused then (False, p) else (True, n # p)),
     p_remove_proc_entry = (\<lambda>n p. removeAll n p) \<rparr>"

interpretation list_procfs: procfs "list_procfs refused" set
  by unfold_locales (auto simp: list_procfs_def split: if_splits)

end
