(* ===== verification/Pfab_Data.thy ===== *)
theory Pfab_Data
  imports Kernel_API
begin

unbundle bit_operations_syntax

text \<open>
  The data of the queueing discipline (\<^verbatim>\<open>src/kernel/sch_pfab.h\<close>) and the bitmap of occupied
  bands (\<^verbatim>\<open>src/kernel/sch_pfab.c\<close>). Band 0 has the highest priority. The locale
  \<open>band_index\<close> is the interface the scheduler uses: which bands are marked, the first
  marked band and the last one.
\<close>

section \<open>Structures of sch\_pfab.h\<close>

definition BITS_IN_BYTE :: nat where "BITS_IN_BYTE = 8"
definition BANDS_IN_BITMAP :: nat where "BANDS_IN_BITMAP = 4 * BITS_IN_BYTE"
definition NUM_BANDS :: nat where "NUM_BANDS = 32"
definition BITMAP_SIZE :: nat where "BITMAP_SIZE = NUM_BANDS div BANDS_IN_BITMAP"
definition DEFAULT_LIMIT :: u32 where "DEFAULT_LIMIT = 150"

lemma BANDS_IN_BITMAP_eq [simp]: "BANDS_IN_BITMAP = 32"
  by (simp add: BANDS_IN_BITMAP_def BITS_IN_BYTE_def)

lemma NUM_BANDS_eq [simp]: "NUM_BANDS = 32"
  by (simp add: NUM_BANDS_def)

lemma BITMAP_SIZE_eq [simp]: "BITMAP_SIZE = 1"
  by (simp add: BITMAP_SIZE_def)

record tc_stats =
  ts_bytes :: u64
  ts_packets :: u32
  ts_drops :: u32
  ts_overlimits :: u32
  ts_bps :: u32
  ts_pps :: u32
  ts_qlen :: u32
  ts_backlog :: u32

record pfab_stat_data =
  ps_limit :: u32
  ps_disable_dequeue :: int
  ps_bitmap :: "u32 list"
  ps_tc_stats :: tc_stats
  ps_per_band :: "u32 list"
  ps_non_ip :: u32
  ps_illegal_prio :: u32

record tc_pfabric_qopt =
  qo_limit :: u32
  qo_disable_dequeue :: int

record 'q pfab_sched_data =
  pd_limit :: u32
  pd_bitmap :: "u32 list"
  pd_queues :: "'q list"
  pd_disable_dequeue :: int

text \<open>The discipline together with its private area and the module's global statistics.\<close>

record 'q pfab =
  sch :: Qdisc
  pfab_data :: "'q pfab_sched_data"
  pfab_stats :: pfab_stat_data

section \<open>The bitmap of occupied bands\<close>

definition BAND_TO_BIT_AND_BMAP :: "nat \<Rightarrow> nat \<times> nat" where
  "BAND_TO_BIT_AND_BMAP band = (band mod BANDS_IN_BITMAP, band div BANDS_IN_BITMAP)"

text \<open>The counting loops of the two searches, over the words still to be looked at.\<close>

fun bitmap_high_loop :: "(nat \<times> u32) list \<Rightarrow> int" where
  "bitmap_high_loop [] = -1"
| "bitmap_high_loop ((i, w) # r) =
     (if w = 0 then bitmap_high_loop r
      else case List.find (\<lambda>j. w AND push_bit j 1 \<noteq> 0) [0..<BANDS_IN_BITMAP] of
             Some j \<Rightarrow> int (i * BANDS_IN_BITMAP + j)
           | None \<Rightarrow> bitmap_high_loop r)"

fun bitmap_low_loop :: "(nat \<times> u32) list \<Rightarrow> int" where
  "bitmap_low_loop [] = -1"
| "bitmap_low_loop ((i, w) # r) =
     (if w = 0 then bitmap_low_loop r
      else case List.find (\<lambda>j. w AND push_bit j 1 \<noteq> 0) (rev [0..<BANDS_IN_BITMAP]) of
             Some j \<Rightarrow> int (i * BANDS_IN_BITMAP + j)
           | None \<Rightarrow> bitmap_low_loop r)"

definition bitmap_high_prio :: "'q pfab_sched_data \<Rightarrow> int" where
  "bitmap_high_prio d = bitmap_high_loop (List.enumerate 0 (pd_bitmap d))"

definition bitmap_low_prio :: "'q pfab_sched_data \<Rightarrow> int" where
  "bitmap_low_prio d = bitmap_low_loop (rev (List.enumerate 0 (pd_bitmap d)))"

definition bitmap_add_band :: "'q pfab \<Rightarrow> nat \<Rightarrow> 'q pfab" where
  "bitmap_add_band s band =
     (let (b, m) = BAND_TO_BIT_AND_BMAP band;
          w = pd_bitmap (pfab_data s) ! m OR push_bit b 1
      in s\<lparr>pfab_data := (pfab_data s)\<lparr>pd_bitmap := (pd_bitmap (pfab_data s))[m := w]\<rparr>,
           pfab_stats := (pfab_stats s)\<lparr>ps_bitmap := (ps_bitmap (pfab_stats s))[m := w]\<rparr>\<rparr>)"

definition bitmap_remove_band :: "'q pfab \<Rightarrow> nat \<Rightarrow> 'q pfab" where
  "bitmap_remove_band s band =
     (let (b, m) = BAND_TO_BIT_AND_BMAP band;
          w = pd_bitmap (pfab_data s) ! m AND NOT (push_bit b 1)
      in s\<lparr>pfab_data := (pfab_data s)\<lparr>pd_bitmap := (pd_bitmap (pfab_data s))[m := w]\<rparr>,
           pfab_stats := (pfab_stats s)\<lparr>ps_bitmap := (ps_bitmap (pfab_stats s))[m := w]\<rparr>\<rparr>)"

section \<open>The interface of the bitmap\<close>

text \<open>Band \<open>b\<close> is marked as occupied.\<close>

definition band_set :: "u32 list \<Rightarrow> nat \<Rightarrow> bool" where
  "band_set bm b \<longleftrightarrow> b div 32 < length bm \<and> bit (bm ! (b div 32)) (b mod 32)"

definition bitmap_wf :: "u32 list \<Rightarrow> bool" where
  "bitmap_wf bm \<longleftrightarrow> length bm = BITMAP_SIZE"

locale band_index =
  fixes invar :: "'m \<Rightarrow> bool" and marked :: "'m \<Rightarrow> nat \<Rightarrow> bool"
    and first :: "'m \<Rightarrow> int" and final :: "'m \<Rightarrow> int"
    and add :: "'m \<Rightarrow> nat \<Rightarrow> 'm" and remove :: "'m \<Rightarrow> nat \<Rightarrow> 'm" and size :: nat
  assumes marked_bound: "invar m \<Longrightarrow> marked m b \<Longrightarrow> b < size"
    and first_none: "invar m \<Longrightarrow> first m < 0 \<longleftrightarrow> (\<forall>b. \<not> marked m b)"
    and first_marked: "invar m \<Longrightarrow> 0 \<le> first m \<Longrightarrow> marked m (nat (first m))"
    and first_least: "invar m \<Longrightarrow> marked m b \<Longrightarrow> first m \<le> int b"
    and final_none: "invar m \<Longrightarrow> final m < 0 \<longleftrightarrow> (\<forall>b. \<not> marked m b)"
    and final_marked: "invar m \<Longrightarrow> 0 \<le> final m \<Longrightarrow> marked m (nat (final m))"
    and final_greatest: "invar m \<Longrightarrow> marked m b \<Longrightarrow> int b \<le> final m"
    and marked_add: "invar m \<Longrightarrow> b < size \<Longrightarrow> marked (add m b) c \<longleftrightarrow> c = b \<or> marked m c"
    and marked_remove: "invar m \<Longrightarrow> b < size \<Longrightarrow> marked (remove m b) c \<longleftrightarrow> c \<noteq> b \<and> marked m c"
    and invar_add: "invar m \<Longrightarrow> b < size \<Longrightarrow> invar (add m b)"
    and invar_remove: "invar m \<Longrightarrow> b < size \<Longrightarrow> invar (remove m b)"
begin

lemma first_nonneg: "invar m \<Longrightarrow> marked m b \<Longrightarrow> 0 \<le> first m"
  using first_none by force

lemma final_nonneg: "invar m \<Longrightarrow> marked m b \<Longrightarrow> 0 \<le> final m"
  using final_none by force

lemma first_bound: "invar m \<Longrightarrow> first m < int size"
proof (cases "0 \<le> first m")
  case True
  assume i: "invar m"
  show ?thesis using marked_bound [OF i first_marked [OF i True]] True by simp
next
  case False
  then show ?thesis by simp
qed

lemma final_bound: "invar m \<Longrightarrow> final m < int size"
proof (cases "0 \<le> final m")
  case True
  assume i: "invar m"
  show ?thesis using marked_bound [OF i final_marked [OF i True]] True by simp
next
  case False
  then show ?thesis by simp
qed

lemma first_eqI: "invar m \<Longrightarrow> marked m b \<Longrightarrow> (\<And>c. marked m c \<Longrightarrow> b \<le> c) \<Longrightarrow> first m = int b"
  using first_least [of m b] first_marked [of m] first_nonneg [of m b] by force

lemma final_eqI: "invar m \<Longrightarrow> marked m b \<Longrightarrow> (\<And>c. marked m c \<Longrightarrow> c \<le> b) \<Longrightarrow> final m = int b"
  using final_greatest [of m b] final_marked [of m] final_nonneg [of m b] by force

lemma first_le_final: "invar m \<Longrightarrow> 0 \<le> first m \<Longrightarrow> first m \<le> final m"
  using final_greatest [OF _ first_marked] by fastforce

text \<open>A band enters the set between the extremes: a scheduler need not rescan.\<close>

lemma final_add:
  "invar m \<Longrightarrow> b < size \<Longrightarrow> final (add m b) = max (int b) (final m)"
proof -
  assume i: "invar m" and b: "b < size"
  show ?thesis
  proof (cases "final m \<le> int b")
    case True
    have "final (add m b) = int b"
      by (rule final_eqI [OF invar_add [OF i b]])
         (use True final_greatest [OF i] in \<open>auto simp: marked_add i b\<close>, fastforce)
    with True show ?thesis by simp
  next
    case False
    then have "marked m (nat (final m))" using final_marked [OF i] by simp
    then have "final (add m b) = int (nat (final m))"
      using False final_greatest [OF i]
      by (intro final_eqI [OF invar_add [OF i b]]) (auto simp: marked_add i b, fastforce)
    with False show ?thesis by simp
  qed
qed

lemma first_add:
  "invar m \<Longrightarrow> b < size \<Longrightarrow>
     first (add m b) = (if first m < 0 then int b else min (int b) (first m))"
proof -
  assume i: "invar m" and b: "b < size"
  have least: "\<And>c. marked m c \<Longrightarrow> first m \<le> int c" using first_least [OF i] .
  show ?thesis
  proof (cases "first m < 0 \<or> int b \<le> first m")
    case True
    have "first (add m b) = int b"
      by (rule first_eqI [OF invar_add [OF i b]])
         (use True least first_none [OF i] in \<open>auto simp: marked_add i b, force\<close>)
    with True show ?thesis by auto
  next
    case False
    then have "marked m (nat (first m))" using first_marked [OF i] by simp
    then have "first (add m b) = int (nat (first m))"
      using False least
      by (intro first_eqI [OF invar_add [OF i b]]) (auto simp: marked_add i b, force)
    with False show ?thesis by simp
  qed
qed

end

section \<open>The bitmap implements the interface\<close>

definition sched_bitmap_wf :: "'q pfab \<Rightarrow> bool" where
  "sched_bitmap_wf s \<longleftrightarrow> bitmap_wf (pd_bitmap (pfab_data s))"

definition sched_marked :: "'q pfab \<Rightarrow> nat \<Rightarrow> bool" where
  "sched_marked s b \<longleftrightarrow> band_set (pd_bitmap (pfab_data s)) b"

abbreviation sched_high :: "'q pfab \<Rightarrow> int" where
  "sched_high s \<equiv> bitmap_high_prio (pfab_data s)"

abbreviation sched_low :: "'q pfab \<Rightarrow> int" where
  "sched_low s \<equiv> bitmap_low_prio (pfab_data s)"

lemma bitmap_wf_cases:
  assumes "bitmap_wf bm"
  obtains w where "bm = [w]" "\<And>b. band_set bm b \<longleftrightarrow> b < 32 \<and> bit w b"
proof -
  from assms obtain w where w: "bm = [w]"
    by (auto simp: bitmap_wf_def length_Suc_conv)
  moreover have "band_set bm b \<longleftrightarrow> b < 32 \<and> bit w b" for b
    by (auto simp: band_set_def w)
  ultimately show thesis using that by blast
qed

lemma bit32_bound: "bit (w::u32) j \<Longrightarrow> j < 32"
  using bit_imp_le_length by fastforce

lemma and_push_bit_fun: "(\<lambda>j. (w::u32) AND push_bit j 1 \<noteq> 0) = bit w"
  by (rule ext) (rule and_push_bit_1_iff_bit)

lemma high_loop_word:
  "bitmap_high_loop [(0, w)] =
     (case List.find (bit w) [0..<32] of Some j \<Rightarrow> int j | None \<Rightarrow> -1)"
  unfolding bitmap_high_loop.simps BANDS_IN_BITMAP_eq and_push_bit_fun
  by (cases "w = 0") (simp_all add: find_upt_None_iff [THEN iffD2] del: upt.simps split: option.split)

lemma low_loop_word:
  "bitmap_low_loop [(0, w)] =
     (case List.find (bit w) (rev [0..<32]) of Some j \<Rightarrow> int j | None \<Rightarrow> -1)"
  unfolding bitmap_low_loop.simps BANDS_IN_BITMAP_eq and_push_bit_fun
  by (cases "w = 0") (simp_all add: find_rev_upt_None_iff [THEN iffD2] del: upt.simps split: option.split)

text \<open>The two searches, characterised by the bits of the word they scan.\<close>

lemma high_loop_cases:
  obtains (none) "bitmap_high_loop [(0, w)] = -1" "\<And>j. j < 32 \<Longrightarrow> \<not> bit w j"
  | (some) j where "bitmap_high_loop [(0, w)] = int j" "j < 32" "bit w j"
      "\<And>k. k < j \<Longrightarrow> \<not> bit w k"
proof (cases "List.find (bit w) [0..<32]")
  case None
  then have "bitmap_high_loop [(0, w)] = -1"
    by (simp add: high_loop_word del: bitmap_high_loop.simps)
  with None show thesis by (intro none) (simp_all only: find_upt_None_iff not_False_eq_True)
next
  case (Some j)
  then have "bitmap_high_loop [(0, w)] = int j"
    by (simp add: high_loop_word del: bitmap_high_loop.simps)
  with Some show thesis by (intro some [of j]) (simp_all only: find_upt_Some_iff not_False_eq_True)
qed

lemma low_loop_cases:
  obtains (none) "bitmap_low_loop [(0, w)] = -1" "\<And>j. j < 32 \<Longrightarrow> \<not> bit w j"
  | (some) j where "bitmap_low_loop [(0, w)] = int j" "j < 32" "bit w j"
      "\<And>k. j < k \<Longrightarrow> k < 32 \<Longrightarrow> \<not> bit w k"
proof (cases "List.find (bit w) (rev [0..<32])")
  case None
  then have "bitmap_low_loop [(0, w)] = -1"
    by (simp add: low_loop_word del: bitmap_low_loop.simps)
  with None show thesis by (intro none) (simp_all only: find_rev_upt_None_iff not_False_eq_True)
next
  case (Some j)
  then have "bitmap_low_loop [(0, w)] = int j"
    by (simp add: low_loop_word del: bitmap_low_loop.simps)
  with Some show thesis by (intro some [of j]) (simp_all only: find_rev_upt_Some_iff not_False_eq_True)
qed

text \<open>A search that finds nothing returns -1 and no other negative number.\<close>

lemma search_ge:
  "- 1 \<le> bitmap_high_prio d" "- 1 \<le> bitmap_low_prio d"
proof -
  have "- 1 \<le> bitmap_high_loop xs" for xs
    by (induction xs rule: bitmap_high_loop.induct) (auto split: option.split)
  moreover have "- 1 \<le> bitmap_low_loop xs" for xs
    by (induction xs rule: bitmap_low_loop.induct) (auto split: option.split)
  ultimately show "- 1 \<le> bitmap_high_prio d" "- 1 \<le> bitmap_low_prio d"
    by (simp_all only: bitmap_high_prio_def bitmap_low_prio_def)
qed

interpretation bitmap: band_index sched_bitmap_wf sched_marked sched_high sched_low
  bitmap_add_band bitmap_remove_band NUM_BANDS
proof unfold_locales
  fix s :: "'q pfab" and b c :: nat
  assume wf: "sched_bitmap_wf s"
  then obtain w where bm: "pd_bitmap (pfab_data s) = [w]"
      and set: "\<And>b. sched_marked s b \<longleftrightarrow> b < 32 \<and> bit w b"
    by (auto simp: sched_bitmap_wf_def sched_marked_def elim: bitmap_wf_cases)
  have high: "sched_high s = bitmap_high_loop [(0, w)]"
    by (simp add: bitmap_high_prio_def bm del: bitmap_high_loop.simps)
  have low: "sched_low s = bitmap_low_loop [(0, w)]"
    by (simp add: bitmap_low_prio_def bm del: bitmap_low_loop.simps)
  show "sched_marked s b \<Longrightarrow> b < NUM_BANDS" by (simp add: set)
  show "sched_high s < 0 \<longleftrightarrow> (\<forall>b. \<not> sched_marked s b)"
    unfolding high set by (cases w rule: high_loop_cases) auto
  show "0 \<le> sched_high s \<Longrightarrow> sched_marked s (nat (sched_high s))"
    unfolding high set by (cases w rule: high_loop_cases) auto
  show "sched_marked s b \<Longrightarrow> sched_high s \<le> int b"
    unfolding high set by (cases w rule: high_loop_cases) (auto simp: not_less [symmetric])
  show "sched_low s < 0 \<longleftrightarrow> (\<forall>b. \<not> sched_marked s b)"
    unfolding low set by (cases w rule: low_loop_cases) auto
  show "0 \<le> sched_low s \<Longrightarrow> sched_marked s (nat (sched_low s))"
    unfolding low set by (cases w rule: low_loop_cases) auto
  show "sched_marked s b \<Longrightarrow> int b \<le> sched_low s"
    unfolding low set by (cases w rule: low_loop_cases) (auto simp: not_less [symmetric])
  assume b: "b < NUM_BANDS"
  have add: "pd_bitmap (pfab_data (bitmap_add_band s b)) = [w OR push_bit b 1]"
    using b by (simp add: bitmap_add_band_def BAND_TO_BIT_AND_BMAP_def bm Let_def)
  have rem: "pd_bitmap (pfab_data (bitmap_remove_band s b)) = [w AND NOT (push_bit b 1)]"
    using b by (simp add: bitmap_remove_band_def BAND_TO_BIT_AND_BMAP_def bm Let_def)
  show "sched_marked (bitmap_add_band s b) c \<longleftrightarrow> c = b \<or> sched_marked s c"
    using b by (auto simp: sched_marked_def band_set_def add bm bit_simps)
  show "sched_marked (bitmap_remove_band s b) c \<longleftrightarrow> c \<noteq> b \<and> sched_marked s c"
    using b by (auto simp: sched_marked_def band_set_def rem bm bit_simps)
  show "sched_bitmap_wf (bitmap_add_band s b)"
    by (simp add: sched_bitmap_wf_def bitmap_wf_def add)
  show "sched_bitmap_wf (bitmap_remove_band s b)"
    by (simp add: sched_bitmap_wf_def bitmap_wf_def rem)
qed

end
