(* ===== verification/CFormat.thy ===== *)
theory CFormat
  imports Prelude
begin

text \<open>
  The parts of the C library's formatted output that the sources use: \<^verbatim>\<open>%u\<close>, \<^verbatim>\<open>%d\<close>,
  \<^verbatim>\<open>%x\<close>, zero-padded \<^verbatim>\<open>%0Nx\<close>, and the truncation of \<^verbatim>\<open>snprintf\<close>. A C string is the
  list of its characters before the terminating zero.
\<close>

definition newline :: char where "newline = CHR 0x0A"
definition tab :: char where "tab = CHR 0x09"

section \<open>Digits\<close>

definition digit_char :: "nat \<Rightarrow> char" where
  "digit_char d = (if d < 10 then char_of (48 + d) else char_of (87 + d))"

text \<open>The value of an alphanumeric character as a digit; 36 for every other character.\<close>

definition digit_val :: "char \<Rightarrow> nat" where
  "digit_val c =
     (let n = of_char c in
      if 48 \<le> n \<and> n \<le> (57::nat) then n - 48
      else if 97 \<le> n \<and> n \<le> 122 then n - 87
      else if 65 \<le> n \<and> n \<le> 90 then n - 55
      else 36)"

fun fmt_base :: "nat \<Rightarrow> nat \<Rightarrow> string" where
  "fmt_base b n = (if b < 2 \<or> n < b then [digit_char n]
                   else fmt_base b (n div b) @ [digit_char (n mod b)])"

declare fmt_base.simps [simp del]

definition fmt_nat :: "nat \<Rightarrow> string" where "fmt_nat n = fmt_base 10 n"
definition fmt_u :: "'a::len word \<Rightarrow> string" where "fmt_u w = fmt_base 10 (unat w)"
definition fmt_x :: "'a::len word \<Rightarrow> string" where "fmt_x w = fmt_base 16 (unat w)"
definition fmt_d :: "int \<Rightarrow> string" where
  "fmt_d i = (if i < 0 then ''-'' @ fmt_base 10 (nat (- i)) else fmt_base 10 (nat i))"

definition fmt_0x :: "nat \<Rightarrow> 'a::len word \<Rightarrow> string" where
  "fmt_0x width w = replicate (width - length (fmt_x w)) (CHR ''0'') @ fmt_x w"

text \<open>\<^verbatim>\<open>snprintf(buf, len, ...)\<close>: at most \<open>len - 1\<close> characters are stored before the zero.\<close>

definition snprintf :: "nat \<Rightarrow> string \<Rightarrow> string" where
  "snprintf len text = take (len - 1) text"

section \<open>Reading back what was printed\<close>

fun digits_val :: "nat \<Rightarrow> nat \<Rightarrow> string \<Rightarrow> nat" where
  "digits_val b acc [] = acc"
| "digits_val b acc (c # cs) = digits_val b (acc * b + digit_val c) cs"

lemma digits_val_append: "digits_val b acc (xs @ ys) = digits_val b (digits_val b acc xs) ys"
  by (induction xs arbitrary: acc) simp_all

lemma of_char_char_of: "(n::nat) < 256 \<Longrightarrow> of_char (char_of n :: char) = n"
  by simp

lemma char_eq_nat: "c = d \<longleftrightarrow> (of_char c :: nat) = of_char d"
  by simp

lemma digit_val_digit_char [simp]: "d < 36 \<Longrightarrow> digit_val (digit_char d) = d"
  by (simp add: digit_val_def digit_char_def Let_def)

lemma fmt_base_ne [simp]: "fmt_base b n \<noteq> []"
  by (subst fmt_base.simps) simp

lemma fmt_u_ne [simp]: "fmt_u v \<noteq> []"
  by (simp add: fmt_u_def)

lemma fmt_base_small: "n < b \<Longrightarrow> fmt_base b n = [digit_char n]"
  by (subst fmt_base.simps) simp

lemma digits_val_fmt_base:
  "2 \<le> b \<Longrightarrow> b \<le> 36 \<Longrightarrow> digits_val b 0 (fmt_base b n) = n"
proof (induction b n rule: fmt_base.induct)
  case (1 b n)
  show ?case
  proof (cases "n < b")
    case True
    with "1.prems" show ?thesis by (simp add: fmt_base_small)
  next
    case False
    with 1 have "digits_val b 0 (fmt_base b (n div b)) = n div b" by simp
    moreover have "n mod b < 36"
      using "1.prems" mod_less_divisor [of b n] by linarith
    ultimately show ?thesis using False "1.prems"
      by (subst fmt_base.simps) (simp add: digits_val_append)
  qed
qed

lemma fmt_base_digits:
  "2 \<le> b \<Longrightarrow> b \<le> 36 \<Longrightarrow> c \<in> set (fmt_base b n) \<Longrightarrow> \<exists>d<b. c = digit_char d"
proof (induction b n rule: fmt_base.induct)
  case (1 b n)
  show ?case
  proof (cases "n < b")
    case True
    with "1.prems" show ?thesis by (auto simp: fmt_base_small)
  next
    case False
    with "1.prems" have "c \<in> set (fmt_base b (n div b)) \<or> c = digit_char (n mod b)"
      by (subst (asm) fmt_base.simps) auto
    moreover have "n mod b < b" "\<not> (b < 2 \<or> n < b)" using "1.prems" False by simp_all
    ultimately show ?thesis using "1.IH" "1.prems" by blast
  qed
qed

lemma digit_char_eq_iff: "d < 16 \<Longrightarrow> e < 16 \<Longrightarrow> digit_char d = digit_char e \<longleftrightarrow> d = e"
proof
  assume "d < 16" "e < 16" "digit_char d = digit_char e"
  then have "digit_val (digit_char d) = digit_val (digit_char e)" by (simp only:)
  with \<open>d < 16\<close> \<open>e < 16\<close> show "d = e" by simp
qed simp

lemma length_fmt_base:
  "n < b ^ k \<Longrightarrow> 0 < k \<Longrightarrow> 2 \<le> b \<Longrightarrow> length (fmt_base b n) \<le> k"
proof (induction b n arbitrary: k rule: fmt_base.induct)
  case (1 b n)
  show ?case
  proof (cases "n < b")
    case True
    with 1(3) show ?thesis by (simp add: fmt_base_small)
  next
    case False
    obtain j where k: "k = Suc j" using 1(3) by (cases k) simp_all
    have "0 < j" using 1(2) False k by (cases j) simp_all
    have "n div b < b ^ j" using 1(2,4) k by (simp add: div_less_iff_less_mult mult.commute)
    with 1(1) [of j] False 1(4) k \<open>0 < j\<close> have "length (fmt_base b (n div b)) \<le> j" by simp
    with False 1(4) k show ?thesis by (subst fmt_base.simps) simp
  qed
qed

end
