(* ===== verification/Pfab_Stats.thy ===== *)
theory Pfab_Stats
  imports Pfab_Data CFormat
begin

text \<open>
  The proc files of the module (\<^verbatim>\<open>src/kernel/stats.c\<close>): the sequence-file iterator, the two
  reports, and the creation and removal of the two entries of a device. Procfs itself is the
  parameter \<open>P\<close>; the file's own two pointers are the flags of \<open>proc_state\<close>.
\<close>

section \<open>Sequence file\<close>

text \<open>
  The iterator walks over one element, the static counter. The state is the file position
  and the counter; \<open>seq_start\<close> tells whether there is an element to show.
\<close>

definition pfab_stats_proc_seq_start :: "int \<Rightarrow> bool \<times> int" where
  "pfab_stats_proc_seq_start pos = (if pos = 0 then (True, pos) else (False, 0))"

definition pfab_stats_proc_seq_next :: "u64 \<Rightarrow> bool \<times> u64" where
  "pfab_stats_proc_seq_next counter = (False, counter + 1)"

definition pfab_stats_proc_seq_show :: "pfab_stat_data \<Rightarrow> string" where
  "pfab_stats_proc_seq_show st =
     ''limit: '' @ fmt_u (ps_limit st) @ [newline] @
     ''disable_dequeue: '' @ fmt_d (ps_disable_dequeue st) @ [newline] @
     ''dropped:'' @ fmt_u (ts_drops (ps_tc_stats st)) @ [newline] @
     ''packets:'' @ fmt_u (ts_packets (ps_tc_stats st)) @ [newline] @
     ''bytes:'' @ fmt_u (ts_bytes (ps_tc_stats st)) @ [newline] @
     ''Non-IP packets: '' @ fmt_u (ps_non_ip st) @ [newline] @
     ''illegal priority occurances: '' @ fmt_u (ps_illegal_prio st) @ [newline] @
     ''bitmap:'' @ [newline] @
     concat (map (\<lambda>w. fmt_0x 8 w @ [newline]) (ps_bitmap st)) @
     ''Packet distribution across bands:'' @ [newline] @
     concat (map (\<lambda>(i, c). ''Band '' @ fmt_nat i @ '': '' @ fmt_u c @ [newline])
                 (List.enumerate 0 (ps_per_band st)))"

definition pfab_csvstats_proc_seq_show :: "pfab_stat_data \<Rightarrow> string" where
  "pfab_csvstats_proc_seq_show st =
     ''limit,'' @ [tab] @ ''dropped,'' @ [tab] @ ''enqueues,'' @ [tab] @ ''dequeues,'' @ [tab] @
     ''non-ip packets,'' @ [tab] @ ''illegal priority'' @ [newline] @
     fmt_u (ps_limit st) @ '','' @ [tab] @
     fmt_u (ts_drops (ps_tc_stats st)) @ '','' @ [tab, tab] @
     fmt_u (ts_packets (ps_tc_stats st)) @ '','' @ [tab, tab] @
     fmt_u (ts_bytes (ps_tc_stats st)) @ '','' @ [tab, tab] @
     fmt_u (ps_non_ip st) @ [tab, tab] @
     fmt_u (ps_illegal_prio st) @ [newline] @
     ''bitmap'' @ [newline] @
     concat (map (\<lambda>w. fmt_0x 8 w @ [newline]) (ps_bitmap st))"

section \<open>Creating and removing the entries\<close>

record 'p proc_state =
  proc_fs :: 'p
  stats_proc :: bool      \<comment> \<open>\<^verbatim>\<open>pfab_stats_proc\<close> is not null\<close>
  csvstats_proc :: bool   \<comment> \<open>\<^verbatim>\<open>pfab_csvstats_proc\<close> is not null\<close>

definition MAX_PROC_NAME_LEN :: nat where "MAX_PROC_NAME_LEN = 255"

definition stats_proc_name :: "string \<Rightarrow> string" where
  "stats_proc_name suffix = snprintf MAX_PROC_NAME_LEN (''pfabric_stats_'' @ suffix)"

definition csvstats_proc_name :: "string \<Rightarrow> string" where
  "csvstats_proc_name suffix = snprintf MAX_PROC_NAME_LEN (''pfabric_stats_csv_'' @ suffix)"

definition pfab_stats_init :: "'p proc_api \<Rightarrow> string \<Rightarrow> 'p proc_state \<Rightarrow> int \<times> 'p proc_state" where
  "pfab_stats_init P suffix p =
     (let (ok, fs) = p_create_proc_entry P (stats_proc_name suffix) (proc_fs p);
          p1 = p\<lparr>proc_fs := fs, stats_proc := ok\<rparr>
      in if \<not> ok then (1, p1)
         else let (ok2, fs2) = p_create_proc_entry P (csvstats_proc_name suffix) (proc_fs p1);
                  p2 = p1\<lparr>proc_fs := fs2, csvstats_proc := ok2\<rparr>
              in if \<not> ok2
                 then (1, p2\<lparr>proc_fs := p_remove_proc_entry P (csvstats_proc_name suffix) (proc_fs p2)\<rparr>)
                 else (0, p2))"

definition pfab_stats_exit :: "'p proc_api \<Rightarrow> string \<Rightarrow> 'p proc_state \<Rightarrow> 'p proc_state" where
  "pfab_stats_exit P suffix p =
     p\<lparr>proc_fs := p_remove_proc_entry P (csvstats_proc_name suffix)
                   (p_remove_proc_entry P (stats_proc_name suffix) (proc_fs p))\<rparr>"

end
