(* ===== verification/Sch_Pfab.thy ===== *)
theory Sch_Pfab
  imports Pfab_Data Pfab_Stats
begin

unbundle bit_operations_syntax

text \<open>
  The operations of the pFabric queueing discipline (\<^verbatim>\<open>src/kernel/sch_pfab.c\<close>), in the order
  of the source. Each takes the kernel helpers \<open>K\<close> it calls as a parameter and passes the
  discipline, its private data and the global statistics as one record \<open>'q pfab\<close>.
\<close>

section \<open>Queues and priorities\<close>

definition band2list :: "'q pfab_sched_data \<Rightarrow> nat \<Rightarrow> 'q" where
  "band2list d band = pd_queues d ! band"

text \<open>A store through the pointer that \<open>band2list\<close> returns.\<close>

definition set_band_list :: "nat \<Rightarrow> 'q \<Rightarrow> 'q pfab_sched_data \<Rightarrow> 'q pfab_sched_data" where
  "set_band_list band q d = d\<lparr>pd_queues := (pd_queues d)[band := q]\<rparr>"

definition ETH_HEADER_LEN :: u32 where "ETH_HEADER_LEN = 14"
definition IP_HEADER_LEN :: u32 where "IP_HEADER_LEN = 20"

definition get_skb_priority :: "sk_buff \<Rightarrow> int" where
  "get_skb_priority skb =
     (if skb_len skb < ETH_HEADER_LEN + IP_HEADER_LEN then -1 else uint (skb_tos skb))"

section \<open>Dropping\<close>

definition pfab_drop :: "'q kernel \<Rightarrow> 'q pfab \<Rightarrow> u32 \<times> 'q pfab" where
  "pfab_drop K s =
     (let band = bitmap_low_prio (pfab_data s)
      in if band < 0 then (-1, s)
         else let (len, d, q) = k_qdisc_queue_drop_head K (sch s) (band2list (pfab_data s) (nat band));
                  st = ps_tc_stats (pfab_stats s)
              in (len,
                  s\<lparr>sch := d\<lparr>q_qlen := q_qlen d - 1, qstats_drops := qstats_drops d + 1\<rparr>,
                    pfab_data := set_band_list (nat band) q (pfab_data s),
                    pfab_stats := (pfab_stats s)\<lparr>ps_tc_stats := st\<lparr>ts_drops := ts_drops st + 1\<rparr>\<rparr>\<rparr>))"

text \<open>\<^verbatim>\<open>return qdisc_drop(skb, sch)\<close>\<close>

definition drop_arriving :: "'q kernel \<Rightarrow> sk_buff \<Rightarrow> 'q pfab \<Rightarrow> int \<times> 'q pfab" where
  "drop_arriving K skb s =
     (let (rc, d) = k_qdisc_drop K skb (sch s) in (rc, s\<lparr>sch := d\<rparr>))"

section \<open>Enqueue\<close>

text \<open>Lines 148-156: the band of the packet and the counters of the classification.\<close>

definition classify_skb :: "sk_buff \<Rightarrow> 'q pfab \<Rightarrow> sk_buff \<times> 'q pfab" where
  "classify_skb skb s =
     (let band = get_skb_priority skb
      in if band < 0
         then (skb\<lparr>skb_priority := 0\<rparr>,
               s\<lparr>pfab_stats := (pfab_stats s)\<lparr>ps_non_ip := ps_non_ip (pfab_stats s) + 1\<rparr>\<rparr>)
         else (skb\<lparr>skb_priority := word_of_int band\<rparr>, s))"

text \<open>Line 165: one more packet seen for its band.\<close>

definition count_band :: "nat \<Rightarrow> 'q pfab \<Rightarrow> 'q pfab" where
  "count_band b s =
     s\<lparr>pfab_stats := (pfab_stats s)\<lparr>ps_per_band :=
         (ps_per_band (pfab_stats s))[b := ps_per_band (pfab_stats s) ! b + 1]\<rparr>\<rparr>"

text \<open>Lines 171-180: is the buffer full of packets that are at least as urgent?\<close>

definition outranked :: "sk_buff \<Rightarrow> 'q pfab \<Rightarrow> bool" where
  "outranked skb s \<longleftrightarrow>
     q_qlen (sch s) \<ge> pd_limit (pfab_data s) \<and>
     (let band = bitmap_low_prio (pfab_data s)
      in 0 \<le> band \<and> word_of_int band \<le> skb_priority skb)"

text \<open>Lines 183-190: append the packet to its band and account for it.\<close>

definition insert_skb :: "'q kernel \<Rightarrow> sk_buff \<Rightarrow> 'q pfab \<Rightarrow> 'q pfab" where
  "insert_skb K skb s =
     (let band = unat (skb_priority skb);
          s1 = bitmap_add_band s band;
          d1 = (sch s1)\<lparr>q_qlen := q_qlen (sch s1) + 1\<rparr>;
          st = ps_tc_stats (pfab_stats s1);
          st' = st\<lparr>ts_bytes := ts_bytes st + ucast (skb_len skb), ts_packets := ts_packets st + 1\<rparr>;
          (d2, q) = k_qdisc_enqueue_tail K skb d1 (band2list (pfab_data s1) band)
      in s1\<lparr>sch := d2, pfab_data := set_band_list band q (pfab_data s1),
            pfab_stats := (pfab_stats s1)\<lparr>ps_tc_stats := st'\<rparr>\<rparr>)"

definition pfab_enqueue :: "'q kernel \<Rightarrow> sk_buff \<Rightarrow> 'q pfab \<Rightarrow> int \<times> 'q pfab" where
  "pfab_enqueue K skb0 s0 =
     (let (skb, s1) = classify_skb skb0 s0
      in if skb_priority skb \<ge> of_nat NUM_BANDS
         then drop_arriving K skb
                (s1\<lparr>pfab_stats := (pfab_stats s1)\<lparr>ps_illegal_prio := ps_illegal_prio (pfab_stats s1) + 1\<rparr>\<rparr>)
         else
           let s2 = count_band (unat (skb_priority skb)) s1
           in if outranked skb s2 then drop_arriving K skb s2
              else
                let s3 = insert_skb K skb s2
                in if q_qlen (sch s3) > pd_limit (pfab_data s3)
                   then let (len, s4) = pfab_drop K s3
                        in if sint len < 0 then (NET_XMIT_SUCCESS, s4) else (NET_XMIT_CN, s4)
                   else (NET_XMIT_SUCCESS, s3))"

section \<open>Dequeue and peek\<close>

definition pfab_dequeue :: "'q kernel \<Rightarrow> 'q pfab \<Rightarrow> (sk_buff option \<times> 'q pfab) kresult" where
  "pfab_dequeue K s =
     (if pd_disable_dequeue (pfab_data s) \<noteq> 0 then Done (None, s)
      else let band = bitmap_high_prio (pfab_data s)
           in if band \<ge> int NUM_BANDS then BUG
              else if band < 0 then Done (None, s)
              else let (r, d, q) = k_qdisc_dequeue_head K (sch s) (band2list (pfab_data s) (nat band));
                       s1 = s\<lparr>sch := d, pfab_data := set_band_list (nat band) q (pfab_data s)\<rparr>
                   in case r of
                        None \<Rightarrow> Done (None, s1)
                      | Some skb \<Rightarrow>
                          let s2 = s1\<lparr>sch := (sch s1)\<lparr>q_qlen := q_qlen (sch s1) - 1\<rparr>\<rparr>;
                              s3 = (if k_skb_queue_empty K q then bitmap_remove_band s2 (nat band) else s2)
                          in Done (Some skb, s3))"

definition pfab_peek :: "'q kernel \<Rightarrow> 'q pfab \<Rightarrow> sk_buff option" where
  "pfab_peek K s =
     (let band = bitmap_high_prio (pfab_data s)
      in if band < 0 then None else k_skb_peek K (band2list (pfab_data s) (nat band)))"

section \<open>Configuration\<close>

text \<open>
  A netlink attribute is its payload, as \<^verbatim>\<open>nla_data\<close> and \<^verbatim>\<open>nla_len\<close> present it. The option
  structure is read from it in the machine's byte order.
\<close>

definition sizeof_qopt :: nat where "sizeof_qopt = 8"

definition read_qopt :: "u8 list \<Rightarrow> tc_pfabric_qopt" where
  "read_qopt bs = \<lparr>qo_limit = of_le_bytes (take 4 bs),
                   qo_disable_dequeue = sint (of_le_bytes (take 4 (drop 4 bs)) :: u32)\<rparr>"

definition pfab_change :: "u8 list option \<Rightarrow> 'q pfab \<Rightarrow> int \<times> 'q pfab" where
  "pfab_change opt s =
     (case opt of
        None \<Rightarrow> (- EINVAL, s)
      | Some bs \<Rightarrow>
          if length bs < sizeof_qopt then (- EINVAL, s)
          else let qopt = read_qopt bs
               in (0, s\<lparr>pfab_data := (pfab_data s)\<lparr>pd_limit := qo_limit qopt,
                                                 pd_disable_dequeue := qo_disable_dequeue qopt\<rparr>,
                        pfab_stats := (pfab_stats s)\<lparr>ps_limit := qo_limit qopt,
                                                 ps_disable_dequeue := qo_disable_dequeue qopt\<rparr>\<rparr>))"

definition zero_tc_stats :: tc_stats where
  "zero_tc_stats = \<lparr>ts_bytes = 0, ts_packets = 0, ts_drops = 0, ts_overlimits = 0,
                    ts_bps = 0, ts_pps = 0, ts_qlen = 0, ts_backlog = 0\<rparr>"

text \<open>\<^verbatim>\<open>memset(&pfab_stats, 0, sizeof(pfab_stats))\<close> followed by the two default fields.\<close>

definition fresh_stats :: pfab_stat_data where
  "fresh_stats = \<lparr>ps_limit = DEFAULT_LIMIT, ps_disable_dequeue = 0,
                  ps_bitmap = replicate BITMAP_SIZE 0, ps_tc_stats = zero_tc_stats,
                  ps_per_band = replicate NUM_BANDS 0, ps_non_ip = 0, ps_illegal_prio = 0\<rparr>"

definition fresh_sched_data :: "'q kernel \<Rightarrow> 'q pfab_sched_data" where
  "fresh_sched_data K = \<lparr>pd_limit = DEFAULT_LIMIT, pd_bitmap = replicate BITMAP_SIZE 0,
                         pd_queues = replicate NUM_BANDS (k_skb_queue_head_init K),
                         pd_disable_dequeue = 0\<rparr>"

definition pfab_init ::
  "'q kernel \<Rightarrow> 'p proc_api \<Rightarrow> u8 list option \<Rightarrow> Qdisc \<Rightarrow> 'p proc_state \<Rightarrow> int \<times> 'q pfab \<times> 'p proc_state"
where
  "pfab_init K P opt d p =
     (let s0 = \<lparr>sch = d, pfab_data = fresh_sched_data K, pfab_stats = fresh_stats\<rparr>;
          (retval, s1) = (case opt of None \<Rightarrow> (0, s0) | Some _ \<Rightarrow> pfab_change opt s0)
      in if retval < 0 then (retval, s1, p)
         else let (ret, p1) = pfab_stats_init P (dev_name d) p in (ret, s1, p1))"

fun reset_bands :: "'q kernel \<Rightarrow> Qdisc \<Rightarrow> 'q list \<Rightarrow> Qdisc \<times> 'q list" where
  "reset_bands K d [] = (d, [])"
| "reset_bands K d (q # qs) =
     (let (d1, q1) = k_qdisc_reset_queue K d q; (d2, qs2) = reset_bands K d1 qs in (d2, q1 # qs2))"

definition pfab_reset :: "'q kernel \<Rightarrow> 'q pfab \<Rightarrow> 'q pfab" where
  "pfab_reset K s =
     (let (d, qs) = reset_bands K (sch s) (pd_queues (pfab_data s))
      in s\<lparr>sch := d\<lparr>qstats_backlog := 0, q_qlen := 0\<rparr>,
           pfab_data := (pfab_data s)\<lparr>pd_queues := qs\<rparr>,
           pfab_stats := fresh_stats\<rparr>)"

definition pfab_destroy ::
  "'q kernel \<Rightarrow> 'p proc_api \<Rightarrow> 'q pfab \<Rightarrow> 'p proc_state \<Rightarrow> 'q pfab \<times> 'p proc_state" where
  "pfab_destroy K P s p =
     (s\<lparr>pfab_data := (pfab_data s)\<lparr>pd_queues := map (k_skb_queue_purge K) (pd_queues (pfab_data s))\<rparr>\<rparr>,
      pfab_stats_exit P (dev_name (sch s)) p)"

end
