(* ===== verification/Bands.thy ===== *)
theory Bands
  imports Prelude
begin

text \<open>
  The abstract specification of a strict-priority packet buffer and its representation as an
  array of first-in first-out bands. The buffer is a list in service order: smaller keys
  first, equal keys in order of arrival. An array of lists in which band \<open>b\<close> holds the
  elements of key \<open>b\<close> represents the buffer as its concatenation.
\<close>

section \<open>The abstract buffer\<close>

text \<open>Arrival: behind every element that is at least as urgent.\<close>

definition prio_insert :: "('a \<Rightarrow> nat) \<Rightarrow> 'a \<Rightarrow> 'a list \<Rightarrow> 'a list" where
  "prio_insert key x xs =
     takeWhile (\<lambda>y. key y \<le> key x) xs @ x # dropWhile (\<lambda>y. key y \<le> key x) xs"

text \<open>Eviction: the oldest of the least urgent elements leaves.\<close>

definition worst_key :: "('a \<Rightarrow> nat) \<Rightarrow> 'a list \<Rightarrow> nat" where
  "worst_key key xs = Max (set (map key xs))"

definition prio_victim :: "('a \<Rightarrow> nat) \<Rightarrow> 'a list \<Rightarrow> 'a" where
  "prio_victim key xs = hd (dropWhile (\<lambda>y. key y < worst_key key xs) xs)"

definition prio_evict :: "('a \<Rightarrow> nat) \<Rightarrow> 'a list \<Rightarrow> 'a list" where
  "prio_evict key xs =
     takeWhile (\<lambda>y. key y < worst_key key xs) xs @
     tl (dropWhile (\<lambda>y. key y < worst_key key xs) xs)"

lemma mset_prio_insert: "mset (prio_insert key x xs) = add_mset x (mset xs)"
proof -
  have "mset (takeWhile P xs) + mset (dropWhile P xs) = mset xs" for P
    by (metis mset_append takeWhile_dropWhile_id)
  then show ?thesis by (simp add: prio_insert_def)
qed

lemma length_prio_insert [simp]: "length (prio_insert key x xs) = Suc (length xs)"
  using arg_cong [OF mset_prio_insert, of size key x xs] by simp

lemma set_prio_insert [simp]: "set (prio_insert key x xs) = insert x (set xs)"
  using arg_cong [OF mset_prio_insert, of set_mset key x xs] by simp

lemma worst_key_attained:
  "xs \<noteq> [] \<Longrightarrow> \<exists>x\<in>set xs. key x = worst_key key xs"
  unfolding worst_key_def using Max_in [of "set (map key xs)"]
  by (auto simp: image_iff)

lemma worst_key_ge: "x \<in> set xs \<Longrightarrow> key x \<le> worst_key key xs"
  by (simp add: worst_key_def)

lemma worst_key_insert:
  "xs \<noteq> [] \<Longrightarrow> worst_key key (prio_insert key x xs) = max (key x) (worst_key key xs)"
  by (simp add: worst_key_def)

lemma dropWhile_worst_ne:
  assumes "xs \<noteq> []" shows "dropWhile (\<lambda>y. key y < worst_key key xs) xs \<noteq> []"
  using worst_key_attained [OF assms, of key]
  by (metis dropWhile_eq_Nil_conv less_irrefl)

lemma prio_evict_split:
  assumes "xs \<noteq> []"
  shows "\<exists>ys zs. xs = ys @ prio_victim key xs # zs \<and> prio_evict key xs = ys @ zs"
proof (intro exI conjI)
  let ?P = "\<lambda>y. key y < worst_key key xs"
  show "xs = takeWhile ?P xs @ prio_victim key xs # tl (dropWhile ?P xs)"
    using dropWhile_worst_ne [OF assms, of key] by (simp add: prio_victim_def)
qed (simp add: prio_evict_def)

lemma prio_victim_worst:
  assumes "xs \<noteq> []" "x \<in> set xs" shows "key x \<le> key (prio_victim key xs)"
proof -
  let ?P = "\<lambda>y. key y < worst_key key xs"
  have "\<not> ?P (prio_victim key xs)"
    unfolding prio_victim_def using dropWhile_worst_ne [OF assms(1)] hd_dropWhile by blast
  with worst_key_ge [OF assms(2)] show ?thesis by (metis leI le_trans)
qed

lemma prio_victim_in: "xs \<noteq> [] \<Longrightarrow> prio_victim key xs \<in> set xs"
  using prio_evict_split [of xs key] by (metis in_set_conv_decomp)

lemma prio_victim_key:
  assumes "xs \<noteq> []" shows "key (prio_victim key xs) = worst_key key xs"
proof (rule antisym)
  from prio_victim_in [OF assms] show "key (prio_victim key xs) \<le> worst_key key xs" by (rule worst_key_ge)
  show "worst_key key xs \<le> key (prio_victim key xs)"
    using worst_key_attained [OF assms, of key] prio_victim_worst [OF assms] by metis
qed

lemma mset_prio_evict:
  assumes "xs \<noteq> []"
  shows "add_mset (prio_victim key xs) (mset (prio_evict key xs)) = mset xs"
proof -
  obtain ys zs where "xs = ys @ prio_victim key xs # zs" "prio_evict key xs = ys @ zs"
    using prio_evict_split [OF assms] by blast
  then have "mset xs = mset (ys @ prio_victim key xs # zs)"
      "mset (prio_evict key xs) = mset (ys @ zs)" by simp_all
  then show ?thesis by simp
qed

lemma length_prio_evict:
  "xs \<noteq> [] \<Longrightarrow> Suc (length (prio_evict key xs)) = length xs"
  using arg_cong [OF mset_prio_evict, of xs size key] by simp

section \<open>Arrays of bands\<close>

definition banded :: "('a \<Rightarrow> nat) \<Rightarrow> 'a list list \<Rightarrow> bool" where
  "banded key bs \<longleftrightarrow> (\<forall>b<length bs. \<forall>x\<in>set (bs ! b). key x = b)"

lemma bandedD: "banded key bs \<Longrightarrow> b < length bs \<Longrightarrow> x \<in> set (bs ! b) \<Longrightarrow> key x = b"
  by (simp add: banded_def)

lemma concat_split_at:
  "b < length bs \<Longrightarrow> concat bs = concat (take b bs) @ bs ! b @ concat (drop (Suc b) bs)"
  by (metis append.assoc concat.simps(2) concat_append id_take_nth_drop)

lemma concat_update:
  "b < length bs \<Longrightarrow> concat (bs[b := ys]) = concat (take b bs) @ ys @ concat (drop (Suc b) bs)"
  by (simp add: upd_conv_take_nth_drop)

lemma in_concat_take:
  "banded key bs \<Longrightarrow> x \<in> set (concat (take b bs)) \<Longrightarrow> key x < b"
  by (auto simp: banded_def in_set_conv_nth [of _ "take b bs"])

lemma in_concat_drop:
  assumes "banded key bs" "x \<in> set (concat (drop b bs))" shows "b \<le> key x"
proof -
  from assms(2) obtain i where "i < length (drop b bs)" "x \<in> set (drop b bs ! i)"
    by (auto simp: in_set_conv_nth [of _ "drop b bs"])
  then have "b + i < length bs" "x \<in> set (bs ! (b + i))" by auto
  with assms(1) have "key x = b + i" by (rule bandedD)
  then show ?thesis by simp
qed

lemma banded_tail_bounds:
  "banded key bs \<Longrightarrow> b < length bs \<Longrightarrow> x \<in> set (concat (take (Suc b) bs)) \<Longrightarrow> key x \<le> b"
  using in_concat_take [of key bs x "Suc b"] by simp

lemma concat_append_band:
  assumes "banded key bs" "key x < length bs"
  shows "concat (bs[key x := bs ! key x @ [x]]) = prio_insert key x (concat bs)"
proof -
  let ?b = "key x"
  let ?L = "concat (take (Suc ?b) bs)" and ?R = "concat (drop (Suc ?b) bs)"
  have split: "concat bs = ?L @ ?R"
    by (metis append_take_drop_id concat_append)
  have L: "\<And>y. y \<in> set ?L \<Longrightarrow> key y \<le> ?b"
    using banded_tail_bounds [OF assms] .
  have R: "\<And>y. y \<in> set ?R \<Longrightarrow> \<not> key y \<le> ?b"
    using in_concat_drop [OF assms(1), of _ "Suc ?b"] by fastforce
  have "takeWhile (\<lambda>y. key y \<le> ?b) (concat bs) = ?L"
    unfolding split using L R
    by (metis (no_types, lifting) append_Nil2 takeWhile_append2 takeWhile_eq_Nil_iff hd_in_set)
  moreover have "dropWhile (\<lambda>y. key y \<le> ?b) (concat bs) = ?R"
    using calculation unfolding split
    by (metis append_eq_append_conv takeWhile_dropWhile_id)
  moreover have "?L = concat (take ?b bs) @ bs ! ?b"
    using assms(2) by (simp add: take_Suc_conv_app_nth)
  ultimately show ?thesis
    using assms(2) by (simp add: concat_update prio_insert_def)
qed

lemma banded_append:
  "banded key bs \<Longrightarrow> b < length bs \<Longrightarrow> key x = b \<Longrightarrow> banded key (bs[b := bs ! b @ [x]])"
  by (auto simp: banded_def nth_list_update)

lemma in_set_tlD: "x \<in> set (tl xs) \<Longrightarrow> x \<in> set xs"
  by (cases xs) simp_all

lemma banded_tl: "banded key bs \<Longrightarrow> banded key (bs[b := tl (bs ! b)])"
  by (cases "b < length bs") (auto simp: banded_def nth_list_update dest!: in_set_tlD split: if_splits)

lemma nth_update_tl_ne:
  "bs[l := tl (bs ! l)] ! b \<noteq> [] \<Longrightarrow> b < length bs \<Longrightarrow> bs ! b \<noteq> []"
  by (cases "b = l") auto

lemma concat_first_band:
  assumes "b < length bs" "\<And>c. c < b \<Longrightarrow> bs ! c = []" "bs ! b = x # xs"
  shows "concat bs = x # concat (bs[b := xs])"
proof -
  have "concat (take b bs) = []"
    using assms(1,2) by (auto simp: in_set_conv_nth)
  then show ?thesis using assms
    by (simp only: concat_split_at [OF assms(1)] concat_update append_Nil append_Cons)
qed

lemma concat_evict_band:
  assumes "banded key bs" "b < length bs" "bs ! b \<noteq> []"
    and later: "\<And>c. b < c \<Longrightarrow> c < length bs \<Longrightarrow> bs ! c = []"
  shows "concat (bs[b := tl (bs ! b)]) = prio_evict key (concat bs)"
    and "prio_victim key (concat bs) = hd (bs ! b)"
proof -
  let ?L = "concat (take b bs)" and ?M = "bs ! b"
  have R: "concat (drop (Suc b) bs) = []"
    using later assms(2) by (auto simp: in_set_conv_nth)
  have split: "concat bs = ?L @ ?M"
    using concat_split_at [OF assms(2)] R by simp
  have keyM: "\<And>x. x \<in> set ?M \<Longrightarrow> key x = b" using bandedD [OF assms(1,2)] .
  have keyL: "\<And>x. x \<in> set ?L \<Longrightarrow> key x < b" using in_concat_take [OF assms(1)] .
  have worst: "worst_key key (concat bs) = b"
    unfolding worst_key_def
  proof (rule Max_eqI)
    show "\<And>y. y \<in> set (map key (concat bs)) \<Longrightarrow> y \<le> b"
      using keyL keyM unfolding split by fastforce
    show "b \<in> set (map key (concat bs))"
      using keyM assms(3) unfolding split by (force simp: image_iff dest: hd_in_set)
  qed simp
  obtain m M where M: "?M = m # M" using assms(3) by (cases ?M) auto
  with keyM have m: "key m = b" by simp
  have "takeWhile (\<lambda>y. key y < b) (concat bs) = ?L" "dropWhile (\<lambda>y. key y < b) (concat bs) = ?M"
    unfolding split M using keyL m
    by (simp_all add: takeWhile_append2 [of ?L] dropWhile_append2 [of ?L] del: set_concat)
  then show "concat (bs[b := tl (bs ! b)]) = prio_evict key (concat bs)"
    and "prio_victim key (concat bs) = hd (bs ! b)"
    using assms(2) R by (simp_all add: concat_update prio_evict_def prio_victim_def worst)
qed

lemma sorted_concat_banded:
  assumes "banded key bs" shows "sorted (map key (concat bs))"
  using assms
proof (induction bs rule: rev_induct)
  case (snoc b bs)
  have "banded key bs"
    using snoc.prems by (fastforce simp: banded_def nth_append)
  moreover have "\<forall>x\<in>set b. key x = length bs"
    using bandedD [OF snoc.prems, of "length bs"] by simp
  moreover have "\<forall>x\<in>set (concat bs). key x < length bs"
    using in_concat_take [OF snoc.prems, of _ "length bs"] by simp
  moreover have "sorted (map key b)"
    using calculation(2) by (auto simp: sorted_iff_nth_mono)
  ultimately show ?case using snoc.IH
    by (auto simp: sorted_append) (metis UN_I less_imp_le)
qed simp

lemma length_concat_bands: "length (concat bs) = sum_list (map length bs)"
  by (simp add: length_concat)

section \<open>Emptying a buffer\<close>

text \<open>Take the next element until there is none, at most \<open>n\<close> times.\<close>

fun drain_with :: "('s \<Rightarrow> ('a \<times> 's) option) \<Rightarrow> nat \<Rightarrow> 's \<Rightarrow> 'a list" where
  "drain_with next_of 0 s = []"
| "drain_with next_of (Suc n) s =
     (case next_of s of None \<Rightarrow> [] | Some (x, s') \<Rightarrow> x # drain_with next_of n s')"

text \<open>The contract of a buffer that serves its contents in the abstract order.\<close>

locale priority_buffer =
  fixes invar :: "'s \<Rightarrow> bool" and abs :: "'s \<Rightarrow> 'a list" and key :: "'a \<Rightarrow> nat"
    and next_of :: "'s \<Rightarrow> ('a \<times> 's) option"
  assumes abs_sorted: "invar s \<Longrightarrow> sorted (map key (abs s))"
    and next_None: "invar s \<Longrightarrow> next_of s = None \<Longrightarrow> abs s = []"
    and next_Some: "invar s \<Longrightarrow> next_of s = Some (x, s') \<Longrightarrow> abs s = x # abs s'"
    and next_invar: "invar s \<Longrightarrow> next_of s = Some (x, s') \<Longrightarrow> invar s'"
begin

lemma next_is_most_urgent:
  "invar s \<Longrightarrow> next_of s = Some (x, s') \<Longrightarrow> y \<in> set (abs s) \<Longrightarrow> key x \<le> key y"
  using abs_sorted [of s] next_Some [of s x s'] by auto

lemma drain_complete: "invar s \<Longrightarrow> length (abs s) \<le> n \<Longrightarrow> drain_with next_of n s = abs s"
proof (induction n arbitrary: s)
  case (Suc n)
  show ?case
  proof (cases "next_of s")
    case None
    with Suc.prems show ?thesis using next_None by simp
  next
    case (Some r)
    then obtain x s' where r: "next_of s = Some (x, s')" by (cases r) auto
    with Suc.prems have "abs s = x # abs s'" "invar s'" using next_Some next_invar by blast+
    with Suc r show ?thesis by simp
  qed
qed simp

lemma drain_sorted: "invar s \<Longrightarrow> length (abs s) \<le> n \<Longrightarrow> sorted (map key (drain_with next_of n s))"
  by (simp add: drain_complete abs_sorted)

end

end
