(* ===== verification/Pfab_Inv.thy ===== *)
theory Pfab_Inv
  imports Sch_Pfab Bands
begin

unbundle bit_operations_syntax

text \<open>
  What the scheduler holds and what every operation does to it. \<open>buffered\<close> is the abstract
  buffer of a state, in service order. \<open>pfab_wf\<close> is the invariant that every operation
  keeps; \<open>pfab_exact\<close> adds that the bitmap marks no empty band and that the length counter
  is the number of packets, which an eviction can break.
\<close>

section \<open>Views of the state\<close>

abbreviation prio :: "sk_buff \<Rightarrow> nat" where
  "prio skb \<equiv> unat (skb_priority skb)"

definition bands :: "('q \<Rightarrow> sk_buff list) \<Rightarrow> 'q pfab \<Rightarrow> sk_buff list list" where
  "bands contents s = map contents (pd_queues (pfab_data s))"

definition buffered :: "('q \<Rightarrow> sk_buff list) \<Rightarrow> 'q pfab \<Rightarrow> sk_buff list" where
  "buffered contents s = concat (bands contents s)"

definition pfab_shape :: "'q pfab \<Rightarrow> bool" where
  "pfab_shape s \<longleftrightarrow> sched_bitmap_wf s \<and> length (pd_queues (pfab_data s)) = NUM_BANDS"

definition pfab_wf :: "('q \<Rightarrow> sk_buff list) \<Rightarrow> 'q pfab \<Rightarrow> bool" where
  "pfab_wf contents s \<longleftrightarrow>
     pfab_shape s \<and> banded prio (bands contents s) \<and>
     (\<forall>b<NUM_BANDS. bands contents s ! b \<noteq> [] \<longrightarrow> sched_marked s b)"

definition no_stale_band :: "('q \<Rightarrow> sk_buff list) \<Rightarrow> 'q pfab \<Rightarrow> bool" where
  "no_stale_band contents s \<longleftrightarrow> (\<forall>b<NUM_BANDS. sched_marked s b \<longrightarrow> bands contents s ! b \<noteq> [])"

definition pfab_exact :: "('q \<Rightarrow> sk_buff list) \<Rightarrow> 'q pfab \<Rightarrow> bool" where
  "pfab_exact contents s \<longleftrightarrow>
     pfab_wf contents s \<and> no_stale_band contents s \<and>
     unat (q_qlen (sch s)) = length (buffered contents s)"

lemma length_bands: "length (bands contents s) = length (pd_queues (pfab_data s))"
  by (simp add: bands_def)

lemma pfab_wfD:
  assumes "pfab_wf contents s"
  shows "pfab_shape s" "banded prio (bands contents s)"
    "\<And>b. b < 32 \<Longrightarrow> bands contents s ! b \<noteq> [] \<Longrightarrow> sched_marked s b"
    "sched_bitmap_wf s" "length (pd_queues (pfab_data s)) = 32" "length (bands contents s) = 32"
  using assms by (auto simp: pfab_wf_def pfab_shape_def length_bands)

lemma pfab_exactD:
  assumes "pfab_exact contents s"
  shows "pfab_wf contents s" "\<And>b. sched_marked s b \<Longrightarrow> b < 32 \<and> bands contents s ! b \<noteq> []"
    "unat (q_qlen (sch s)) = length (buffered contents s)"
  using assms pfab_wfD(4) [of contents s] bitmap.marked_bound [of s]
  by (auto simp: pfab_exact_def no_stale_band_def)

lemma buffered_in_band:
  assumes "pfab_wf contents s" "x \<in> set (buffered contents s)"
  shows "prio x < 32 \<and> x \<in> set (bands contents s ! prio x)"
proof -
  from assms(2) obtain b where b: "b < length (bands contents s)" "x \<in> set (bands contents s ! b)"
    by (auto simp: buffered_def in_set_conv_nth [of _ "bands contents s"])
  with pfab_wfD(2) [OF assms(1)] have "prio x = b" by (auto dest: bandedD)
  with b pfab_wfD(6) [OF assms(1)] show ?thesis by simp
qed

lemma buffered_marked:
  "pfab_wf contents s \<Longrightarrow> x \<in> set (buffered contents s) \<Longrightarrow> sched_marked s (prio x)"
  using buffered_in_band pfab_wfD(3) by force

section \<open>What an operation leaves alone\<close>

lemma add_band_frame [simp]:
  "sch (bitmap_add_band s b) = sch s"
  "pd_queues (pfab_data (bitmap_add_band s b)) = pd_queues (pfab_data s)"
  "pd_limit (pfab_data (bitmap_add_band s b)) = pd_limit (pfab_data s)"
  "pd_disable_dequeue (pfab_data (bitmap_add_band s b)) = pd_disable_dequeue (pfab_data s)"
  "ps_tc_stats (pfab_stats (bitmap_add_band s b)) = ps_tc_stats (pfab_stats s)"
  by (simp_all add: bitmap_add_band_def BAND_TO_BIT_AND_BMAP_def Let_def)

lemma remove_band_frame [simp]:
  "sch (bitmap_remove_band s b) = sch s"
  "pd_queues (pfab_data (bitmap_remove_band s b)) = pd_queues (pfab_data s)"
  "pd_limit (pfab_data (bitmap_remove_band s b)) = pd_limit (pfab_data s)"
  "pd_disable_dequeue (pfab_data (bitmap_remove_band s b)) = pd_disable_dequeue (pfab_data s)"
  by (simp_all add: bitmap_remove_band_def BAND_TO_BIT_AND_BMAP_def Let_def)

text \<open>The views read the queues and the bitmap only.\<close>

lemma views_cong:
  assumes "pd_bitmap (pfab_data s) = pd_bitmap (pfab_data t)"
  shows "sched_marked s = sched_marked t" "sched_bitmap_wf s = sched_bitmap_wf t"
    "sched_low s = sched_low t" "sched_high s = sched_high t"
  using assms
  by (auto simp: sched_marked_def sched_bitmap_wf_def bitmap_low_prio_def bitmap_high_prio_def fun_eq_iff)

lemma bands_cong:
  "pd_queues (pfab_data s) = pd_queues (pfab_data t) \<Longrightarrow> bands contents s = bands contents t"
  by (simp add: bands_def)

lemma pfab_wf_cong:
  assumes "pd_queues (pfab_data s) = pd_queues (pfab_data t)"
    "pd_bitmap (pfab_data s) = pd_bitmap (pfab_data t)"
  shows "pfab_wf contents s = pfab_wf contents t"
  using views_cong [OF assms(2)] bands_cong [OF assms(1)] assms(1)
  by (simp add: pfab_wf_def pfab_shape_def)

lemma pfab_exact_cong:
  assumes "pd_queues (pfab_data s) = pd_queues (pfab_data t)"
    "pd_bitmap (pfab_data s) = pd_bitmap (pfab_data t)" "q_qlen (sch s) = q_qlen (sch t)"
  shows "pfab_exact contents s = pfab_exact contents t"
  using views_cong [OF assms(2)] bands_cong [OF assms(1)] pfab_wf_cong [OF assms(1,2)] assms(3)
  by (simp add: pfab_exact_def no_stale_band_def buffered_def)

lemma classify_frame [simp]:
  "sch (snd (classify_skb skb s)) = sch s"
  "pfab_data (snd (classify_skb skb s)) = pfab_data s"
  by (simp_all add: classify_skb_def Let_def)

text \<open>The packet as the scheduler stores it: its priority is its band.\<close>

definition classified :: "sk_buff \<Rightarrow> sk_buff" where
  "classified skb = skb\<lparr>skb_priority :=
     (if get_skb_priority skb < 0 then 0 else word_of_int (get_skb_priority skb))\<rparr>"

lemma fst_classify [simp]: "fst (classify_skb skb s) = classified skb"
  by (simp add: classify_skb_def Let_def classified_def)

lemma classified_fields [simp]:
  "skb_id (classified skb) = skb_id skb" "skb_len (classified skb) = skb_len skb"
  "skb_pkt_len (classified skb) = skb_pkt_len skb"
  by (simp_all add: classified_def)

lemma count_band_frame [simp]:
  "sch (count_band b s) = sch s" "pfab_data (count_band b s) = pfab_data s"
  by (simp_all add: count_band_def)

section \<open>The effect of the operations on the views\<close>

context kernel_qdisc
begin

abbreviation "bands_of \<equiv> bands contents"
abbreviation "buf \<equiv> buffered contents"

lemma bands_set_list:
  "map contents ((pd_queues d)[b := q]) = (map contents (pd_queues d))[b := contents q]"
  by (simp add: map_update)

lemma insert_skb_effect:
  assumes "pfab_shape s" "prio skb < 32"
  shows "bands_of (insert_skb K skb s) = (bands_of s)[prio skb := bands_of s ! prio skb @ [skb]]"
    and "q_qlen (sch (insert_skb K skb s)) = q_qlen (sch s) + 1"
    and "qstats_drops (sch (insert_skb K skb s)) = qstats_drops (sch s)"
    and "qstats_backlog (sch (insert_skb K skb s)) = qstats_backlog (sch s) + skb_pkt_len skb"
    and "pd_limit (pfab_data (insert_skb K skb s)) = pd_limit (pfab_data s)"
    and "pd_disable_dequeue (pfab_data (insert_skb K skb s)) = pd_disable_dequeue (pfab_data s)"
    and "pfab_shape (insert_skb K skb s)"
    and "\<And>c. sched_marked (insert_skb K skb s) c \<longleftrightarrow> c = prio skb \<or> sched_marked s c"
proof -
  define s1 where "s1 = bitmap_add_band s (prio skb)"
  define r where "r = k_qdisc_enqueue_tail K skb ((sch s1)\<lparr>q_qlen := q_qlen (sch s1) + 1\<rparr>)
                        (band2list (pfab_data s1) (prio skb))"
  have ins: "sch (insert_skb K skb s) = fst r"
      "pfab_data (insert_skb K skb s) = set_band_list (prio skb) (snd r) (pfab_data s1)"
    by (simp_all add: insert_skb_def Let_def s1_def r_def split: prod.splits)
  have wf: "sched_bitmap_wf s" "length (pd_queues (pfab_data s)) = 32"
    using assms(1) by (simp_all add: pfab_shape_def)
  show "q_qlen (sch (insert_skb K skb s)) = q_qlen (sch s) + 1"
    "qstats_drops (sch (insert_skb K skb s)) = qstats_drops (sch s)"
    "qstats_backlog (sch (insert_skb K skb s)) = qstats_backlog (sch s) + skb_pkt_len skb"
    by (simp_all add: ins r_def kernel_laws s1_def)
  show "pd_limit (pfab_data (insert_skb K skb s)) = pd_limit (pfab_data s)"
    "pd_disable_dequeue (pfab_data (insert_skb K skb s)) = pd_disable_dequeue (pfab_data s)"
    by (simp_all add: ins set_band_list_def s1_def)
  show "bands_of (insert_skb K skb s) = (bands_of s)[prio skb := bands_of s ! prio skb @ [skb]]"
    using wf(2) assms(2)
    by (simp add: bands_def ins set_band_list_def map_update r_def kernel_laws band2list_def s1_def)
  have bm: "pd_bitmap (pfab_data (insert_skb K skb s)) = pd_bitmap (pfab_data s1)"
    by (simp add: ins set_band_list_def)
  show "pfab_shape (insert_skb K skb s)"
    using bitmap.invar_add [OF wf(1), of "prio skb"] assms(2) wf(2) views_cong(2) [OF bm]
    by (simp add: pfab_shape_def ins set_band_list_def s1_def)
  show "\<And>c. sched_marked (insert_skb K skb s) c \<longleftrightarrow> c = prio skb \<or> sched_marked s c"
    using bitmap.marked_add [OF wf(1), of "prio skb"] assms(2) views_cong(1) [OF bm]
    by (simp add: s1_def)
qed

lemma pfab_drop_effect:
  assumes "pfab_shape s" "0 \<le> sched_low s"
  defines "l \<equiv> nat (sched_low s)"
  shows "bands_of (snd (pfab_drop K s)) = (bands_of s)[l := tl (bands_of s ! l)]"
    and "fst (pfab_drop K s) = (case bands_of s ! l of [] \<Rightarrow> 0 | x # _ \<Rightarrow> skb_pkt_len x)"
    and "q_qlen (sch (snd (pfab_drop K s))) = q_qlen (sch s) - 1"
    and "qstats_drops (sch (snd (pfab_drop K s))) = qstats_drops (sch s) + 1"
    and "qstats_backlog (sch (snd (pfab_drop K s))) =
         qstats_backlog (sch s) - (case bands_of s ! l of [] \<Rightarrow> 0 | x # _ \<Rightarrow> skb_pkt_len x)"
    and "pd_limit (pfab_data (snd (pfab_drop K s))) = pd_limit (pfab_data s)"
    and "pd_disable_dequeue (pfab_data (snd (pfab_drop K s))) = pd_disable_dequeue (pfab_data s)"
    and "pd_bitmap (pfab_data (snd (pfab_drop K s))) = pd_bitmap (pfab_data s)"
    and "pfab_shape (snd (pfab_drop K s))"
proof -
  define r where "r = k_qdisc_queue_drop_head K (sch s) (band2list (pfab_data s) l)"
  have "l < 32"
    using assms(1,2) bitmap.final_bound [of s] by (simp add: pfab_shape_def l_def)
  then have q: "contents (band2list (pfab_data s) l) = bands_of s ! l"
    using assms(1) by (simp add: band2list_def bands_def pfab_shape_def)
  have drop: "fst (pfab_drop K s) = fst r"
    "sch (snd (pfab_drop K s)) = (fst (snd r))\<lparr>q_qlen := q_qlen (fst (snd r)) - 1,
         qstats_drops := qstats_drops (fst (snd r)) + 1\<rparr>"
    "pfab_data (snd (pfab_drop K s)) = set_band_list l (snd (snd r)) (pfab_data s)"
    using assms(2) by (simp_all add: pfab_drop_def Let_def r_def l_def split: prod.splits)
  show "fst (pfab_drop K s) = (case bands_of s ! l of [] \<Rightarrow> 0 | x # _ \<Rightarrow> skb_pkt_len x)"
    "q_qlen (sch (snd (pfab_drop K s))) = q_qlen (sch s) - 1"
    "qstats_drops (sch (snd (pfab_drop K s))) = qstats_drops (sch s) + 1"
    "qstats_backlog (sch (snd (pfab_drop K s))) =
       qstats_backlog (sch s) - (case bands_of s ! l of [] \<Rightarrow> 0 | x # _ \<Rightarrow> skb_pkt_len x)"
    by (simp_all add: drop r_def kernel_laws q)
  show bm: "pd_bitmap (pfab_data (snd (pfab_drop K s))) = pd_bitmap (pfab_data s)"
    "pd_limit (pfab_data (snd (pfab_drop K s))) = pd_limit (pfab_data s)"
    "pd_disable_dequeue (pfab_data (snd (pfab_drop K s))) = pd_disable_dequeue (pfab_data s)"
    by (simp_all add: drop set_band_list_def)
  show "bands_of (snd (pfab_drop K s)) = (bands_of s)[l := tl (bands_of s ! l)]"
    using q by (simp add: bands_def drop set_band_list_def map_update r_def kernel_laws)
  show "pfab_shape (snd (pfab_drop K s))"
    using assms(1) views_cong(2) [OF bm(1)] by (simp add: pfab_shape_def drop set_band_list_def)
qed

text \<open>Dequeue from the most urgent marked band: an empty band is a stale mark.\<close>

lemma pfab_dequeue_idle:
  assumes "pd_disable_dequeue (pfab_data s) \<noteq> 0 \<or> sched_high s < 0" "pfab_shape s"
  shows "pfab_dequeue K s = Done (None, s)"
  using assms bitmap.first_bound [of s] by (auto simp: pfab_dequeue_def Let_def pfab_shape_def)

lemma pfab_dequeue_empty_band:
  assumes "pfab_shape s" "pd_disable_dequeue (pfab_data s) = 0" "0 \<le> sched_high s"
    "bands_of s ! nat (sched_high s) = []"
  obtains s' where "pfab_dequeue K s = Done (None, s')" "bands_of s' = bands_of s"
    "pd_bitmap (pfab_data s') = pd_bitmap (pfab_data s)" "pfab_shape s'"
    "pd_disable_dequeue (pfab_data s') = 0" "pd_limit (pfab_data s') = pd_limit (pfab_data s)"
    "q_qlen (sch s') = q_qlen (sch s)" "qstats_backlog (sch s') = qstats_backlog (sch s)"
proof -
  define b where "b = nat (sched_high s)"
  have high: "sched_high s = int b" using assms(3) by (simp add: b_def)
  have b: "b < 32" using assms(1) bitmap.first_bound [of s] high by (simp add: pfab_shape_def)
  have q: "contents (band2list (pfab_data s) b) = []"
    using b assms(1,4) by (simp add: band2list_def bands_def pfab_shape_def high)
  obtain d q' where r: "k_qdisc_dequeue_head K (sch s) (band2list (pfab_data s) b) = (None, d, q')"
    using fst_dequeue [of "sch s" "band2list (pfab_data s) b"] q by (metis head_opt_simps(1) prod.collapse)
  have q': "contents q' = []"
    using contents_dequeue [of "sch s" "band2list (pfab_data s) b"] q r by simp
  have d: "q_qlen d = q_qlen (sch s)" "qstats_backlog d = qstats_backlog (sch s)"
    using qlen_dequeue [of "sch s" "band2list (pfab_data s) b"]
      backlog_dequeue [of "sch s" "band2list (pfab_data s) b"] r q by simp_all
  define s' where "s' = s\<lparr>sch := d, pfab_data := set_band_list b q' (pfab_data s)\<rparr>"
  show thesis
  proof (rule that [of s'])
    show "pfab_dequeue K s = Done (None, s')"
      using assms(2) b r by (simp add: pfab_dequeue_def Let_def high s'_def)
    have "(bands_of s)[b := []] = bands_of s"
      using assms(4) by (metis high list_update_id nat_int)
    then show "bands_of s' = bands_of s"
      using q' by (simp add: bands_def s'_def set_band_list_def map_update)
    show bm: "pd_bitmap (pfab_data s') = pd_bitmap (pfab_data s)"
      by (simp add: s'_def set_band_list_def)
    show "pfab_shape s'"
      using assms(1) views_cong(2) [OF bm] by (simp add: pfab_shape_def s'_def set_band_list_def)
  qed (use assms(2) d in \<open>simp_all add: s'_def set_band_list_def\<close>)
qed

lemma pfab_dequeue_serves:
  assumes "pfab_shape s" "pd_disable_dequeue (pfab_data s) = 0" "0 \<le> sched_high s"
    "bands_of s ! nat (sched_high s) = skb # rest"
  defines "b \<equiv> nat (sched_high s)"
  obtains s' where "pfab_dequeue K s = Done (Some skb, s')" "bands_of s' = (bands_of s)[b := rest]"
    "\<And>c. sched_marked s' c \<longleftrightarrow> sched_marked s c \<and> (c \<noteq> b \<or> rest \<noteq> [])" "pfab_shape s'"
    "pd_disable_dequeue (pfab_data s') = 0" "pd_limit (pfab_data s') = pd_limit (pfab_data s)"
    "q_qlen (sch s') = q_qlen (sch s) - 1"
    "qstats_backlog (sch s') = qstats_backlog (sch s) - skb_pkt_len skb"
proof -
  have high: "sched_high s = int b" using assms(3) by (simp add: b_def)
  have wf: "sched_bitmap_wf s" "length (pd_queues (pfab_data s)) = 32"
    using assms(1) by (simp_all add: pfab_shape_def)
  have b: "b < 32" using wf bitmap.first_bound [of s] high by simp
  have q: "contents (band2list (pfab_data s) b) = skb # rest"
    using b wf assms(4) by (simp add: band2list_def bands_def high)
  obtain d q' where r: "k_qdisc_dequeue_head K (sch s) (band2list (pfab_data s) b) = (Some skb, d, q')"
    using fst_dequeue [of "sch s" "band2list (pfab_data s) b"] q by (metis head_opt_simps(2) prod.collapse)
  have q': "contents q' = rest"
    using contents_dequeue [of "sch s" "band2list (pfab_data s) b"] q r by simp
  have d: "q_qlen d = q_qlen (sch s)" "qstats_backlog d = qstats_backlog (sch s) - skb_pkt_len skb"
    using qlen_dequeue [of "sch s" "band2list (pfab_data s) b"] backlog_dequeue [of "sch s" "band2list (pfab_data s) b"] r q
    by simp_all
  define s2 where "s2 = s\<lparr>sch := d, pfab_data := set_band_list b q' (pfab_data s)\<rparr>
                         \<lparr>sch := d\<lparr>q_qlen := q_qlen d - 1\<rparr>\<rparr>"
  have bm2: "pd_bitmap (pfab_data s2) = pd_bitmap (pfab_data s)"
    by (simp add: s2_def set_band_list_def)
  note v2 = views_cong [OF bm2]
  define s' where "s' = (if rest = [] then bitmap_remove_band s2 b else s2)"
  show thesis
  proof (rule that [of s'])
    show "pfab_dequeue K s = Done (Some skb, s')"
      using assms(2) b r q'
      by (simp add: pfab_dequeue_def Let_def high s'_def s2_def queue_empty_iff)
    show "bands_of s' = (bands_of s)[b := rest]"
      by (simp add: bands_def s'_def s2_def set_band_list_def map_update q')
    show "\<And>c. sched_marked s' c \<longleftrightarrow> sched_marked s c \<and> (c \<noteq> b \<or> rest \<noteq> [])"
      using bitmap.marked_remove [of s2 b] b wf(1) by (auto simp: s'_def v2)
    show "pfab_shape s'"
      using bitmap.invar_remove [of s2 b] b wf
      by (simp add: pfab_shape_def s'_def v2) (simp add: s2_def set_band_list_def)
  qed (use assms(2) d in \<open>simp_all add: s'_def s2_def set_band_list_def\<close>)
qed

text \<open>Every returning call is one of the three.\<close>

lemma pfab_dequeue_doneE:
  assumes "pfab_shape s" "pfab_dequeue K s = Done (r, s')"
  obtains (idle) "r = None" "s' = s" "pd_disable_dequeue (pfab_data s) \<noteq> 0 \<or> sched_high s < 0"
  | (stale) "r = None" "bands_of s' = bands_of s" "pd_bitmap (pfab_data s') = pd_bitmap (pfab_data s)"
      "pfab_shape s'" "pd_disable_dequeue (pfab_data s') = 0" "0 \<le> sched_high s"
      "bands_of s ! nat (sched_high s) = []" "q_qlen (sch s') = q_qlen (sch s)"
      "qstats_backlog (sch s') = qstats_backlog (sch s)"
  | (served) skb rest where "r = Some skb" "0 \<le> sched_high s"
      "bands_of s ! nat (sched_high s) = skb # rest"
      "bands_of s' = (bands_of s)[nat (sched_high s) := rest]"
      "\<And>c. sched_marked s' c \<longleftrightarrow> sched_marked s c \<and> (c \<noteq> nat (sched_high s) \<or> rest \<noteq> [])"
      "pfab_shape s'" "pd_disable_dequeue (pfab_data s') = 0"
      "q_qlen (sch s') = q_qlen (sch s) - 1"
      "qstats_backlog (sch s') = qstats_backlog (sch s) - skb_pkt_len skb"
proof -
  consider (i) "pd_disable_dequeue (pfab_data s) \<noteq> 0 \<or> sched_high s < 0"
    | (e) "pd_disable_dequeue (pfab_data s) = 0" "0 \<le> sched_high s"
        "bands_of s ! nat (sched_high s) = []"
    | (v) skb rest where "pd_disable_dequeue (pfab_data s) = 0" "0 \<le> sched_high s"
        "bands_of s ! nat (sched_high s) = skb # rest"
    by (metis linorder_not_less list.exhaust)
  then show thesis
  proof cases
    case i
    then show thesis using pfab_dequeue_idle [OF i assms(1)] assms(2) idle by simp
  next
    case e
    show thesis
      by (rule pfab_dequeue_empty_band [OF assms(1) e]) (use assms(2) e stale in simp)
  next
    case v
    show thesis
      by (rule pfab_dequeue_serves [OF assms(1) v]) (use assms(2) v served in simp)
  qed
qed

section \<open>Weak invariant: every operation keeps it\<close>

lemma insert_skb_wf:
  assumes "pfab_wf contents s" "prio skb < 32"
  shows "pfab_wf contents (insert_skb K skb s)"
proof -
  note shape = pfab_wfD(1) [OF assms(1)]
  note eff = insert_skb_effect [OF shape assms(2)]
  have "banded prio (bands_of (insert_skb K skb s))"
    unfolding eff(1) using pfab_wfD(2,6) [OF assms(1)] assms(2) by (intro banded_append) simp_all
  then show ?thesis
    using eff(7,8) pfab_wfD(3,6) [OF assms(1)] assms(2)
    by (auto simp: pfab_wf_def eff(1) nth_list_update)
qed

lemma pfab_drop_wf:
  assumes "pfab_wf contents s" shows "pfab_wf contents (snd (pfab_drop K s))"
proof (cases "0 \<le> sched_low s")
  case False
  then show ?thesis using assms by (simp add: pfab_drop_def Let_def)
next
  case True
  note shape = pfab_wfD(1) [OF assms(1)]
  note eff = pfab_drop_effect [OF shape True]
  have "banded prio (bands_of (snd (pfab_drop K s)))"
    unfolding eff(1) by (rule banded_tl [OF pfab_wfD(2) [OF assms]])
  then show ?thesis
    using eff(9) views_cong(1) [OF eff(8)] pfab_wfD(3,6) [OF assms(1)]
    by (auto simp: pfab_wf_def eff(1) dest: nth_update_tl_ne)
qed

lemma drop_arriving_frame:
  "pfab_data (snd (drop_arriving K skb s)) = pfab_data s"
  "pfab_stats (snd (drop_arriving K skb s)) = pfab_stats s"
  "fst (drop_arriving K skb s) = NET_XMIT_DROP"
  "q_qlen (sch (snd (drop_arriving K skb s))) = q_qlen (sch s)"
  "qstats_drops (sch (snd (drop_arriving K skb s))) = qstats_drops (sch s) + 1"
  "qstats_backlog (sch (snd (drop_arriving K skb s))) = qstats_backlog (sch s)"
  using rc_drop [of skb "sch s"] qlen_drop [of skb "sch s"] drops_drop [of skb "sch s"]
    backlog_drop [of skb "sch s"]
  by (simp_all add: drop_arriving_def case_prod_beta)

lemma pfab_dequeue_wf:
  assumes "pfab_wf contents s" "pfab_dequeue K s = Done (r, s')"
  shows "pfab_wf contents s'"
proof (cases rule: pfab_dequeue_doneE [OF pfab_wfD(1) [OF assms(1)] assms(2), case_names idle stale served])
  case stale
  then show ?thesis using assms(1) views_cong(1) [of s' s] by (simp add: pfab_wf_def)
next
  case (served skb rest)
  have "banded prio (bands_of s')"
    using banded_tl [OF pfab_wfD(2) [OF assms(1)], of "nat (sched_high s)"] served(3)
    by (simp add: served(4))
  moreover have "bands_of s ! b \<noteq> [] \<and> (b = nat (sched_high s) \<longrightarrow> rest \<noteq> [])"
    if "b < 32" "bands_of s' ! b \<noteq> []" for b
    using that served(3) pfab_wfD(6) [OF assms(1)] nth_update_tl_ne [of "bands_of s" "nat (sched_high s)" b]
    by (auto simp: served(4))
  ultimately show ?thesis
    using served(5,6) pfab_wfD(3) [OF assms(1)] by (auto simp: pfab_wf_def)
qed (use assms(1) in simp)

text \<open>The packet and the state that the tail of the enqueue works on.\<close>

lemma pfab_enqueue_unfold:
  fixes skb s
  defines "p \<equiv> classified skb" and "s1 \<equiv> snd (classify_skb skb s)"
  defines "s2 \<equiv> count_band (prio p) s1"
  shows "pfab_enqueue K skb s =
    (if 32 \<le> prio p
     then drop_arriving K p (s1\<lparr>pfab_stats := (pfab_stats s1)
            \<lparr>ps_illegal_prio := ps_illegal_prio (pfab_stats s1) + 1\<rparr>\<rparr>)
     else if outranked p s2 then drop_arriving K p s2
     else if q_qlen (sch (insert_skb K p s2)) > pd_limit (pfab_data (insert_skb K p s2))
     then (if sint (fst (pfab_drop K (insert_skb K p s2))) < 0
           then NET_XMIT_SUCCESS else NET_XMIT_CN,
           snd (pfab_drop K (insert_skb K p s2)))
     else (NET_XMIT_SUCCESS, insert_skb K p s2))"
proof -
  have "of_nat 32 \<le> skb_priority x \<longleftrightarrow> 32 \<le> prio x" for x
    by (simp add: word_le_nat_alt)
  then show ?thesis
    by (simp add: pfab_enqueue_def Let_def case_prod_beta p_def s1_def s2_def)
qed

text \<open>The four ways through an enqueue.\<close>

lemma pfab_enqueue_cases:
  fixes skb s
  defines "p \<equiv> classified skb"
  obtains (illegal) t where "32 \<le> prio p" "pfab_enqueue K skb s = drop_arriving K p t"
      "pfab_data t = pfab_data s" "sch t = sch s"
  | (outranked) t where "prio p < 32" "outranked p t" "pfab_enqueue K skb s = drop_arriving K p t"
      "pfab_data t = pfab_data s" "sch t = sch s"
  | (stored) t where "prio p < 32" "\<not> outranked p t"
      "q_qlen (sch (insert_skb K p t)) \<le> pd_limit (pfab_data (insert_skb K p t))"
      "pfab_enqueue K skb s = (NET_XMIT_SUCCESS, insert_skb K p t)"
      "pfab_data t = pfab_data s" "sch t = sch s"
  | (evicting) t where "prio p < 32" "\<not> outranked p t"
      "q_qlen (sch (insert_skb K p t)) > pd_limit (pfab_data (insert_skb K p t))"
      "pfab_enqueue K skb s =
         (if sint (fst (pfab_drop K (insert_skb K p t))) < 0 then NET_XMIT_SUCCESS else NET_XMIT_CN,
          snd (pfab_drop K (insert_skb K p t)))"
      "pfab_data t = pfab_data s" "sch t = sch s"
proof -
  define t where "t = count_band (prio p) (snd (classify_skb skb s))"
  have t: "pfab_data t = pfab_data s" "sch t = sch s" by (simp_all add: t_def)
  note u = pfab_enqueue_unfold [of skb s, folded p_def, folded t_def]
  show thesis
  proof (cases "32 \<le> prio p")
    case True
    define t' where "t' = (snd (classify_skb skb s))\<lparr>pfab_stats := (pfab_stats (snd (classify_skb skb s)))
            \<lparr>ps_illegal_prio := ps_illegal_prio (pfab_stats (snd (classify_skb skb s))) + 1\<rparr>\<rparr>"
    show thesis using u True by (intro illegal [of t']) (simp_all add: t'_def)
  next
    case False
    then show thesis
      using u t outranked [of t] stored [of t] evicting [of t] by (auto simp: not_le split: if_splits)
  qed
qed

lemma pfab_enqueue_wf:
  assumes "pfab_wf contents s" shows "pfab_wf contents (snd (pfab_enqueue K skb s))"
proof -
  have wf: "pfab_wf contents t" if "pfab_data t = pfab_data s" for t
    using assms pfab_wf_cong [of t s contents] that by simp
  show ?thesis
    by (cases rule: pfab_enqueue_cases [of skb s])
       (auto simp: drop_arriving_frame intro: wf insert_skb_wf pfab_drop_wf)
qed

lemma pfab_change_wf: "pfab_wf contents s \<Longrightarrow> pfab_wf contents (snd (pfab_change opt s))"
  using pfab_wf_cong [of "snd (pfab_change opt s)" s contents]
  by (auto simp: pfab_change_def Let_def split: option.splits)

lemma reset_bands_contents:
  "map contents (snd (reset_bands K d qs)) = replicate (length qs) []"
  using contents_reset
  by (induction qs arbitrary: d) (auto simp: Let_def case_prod_beta)

lemma reset_bands_length: "length (snd (reset_bands K d qs)) = length qs"
  using arg_cong [OF reset_bands_contents, of length d qs] by simp

lemma pfab_reset_effect:
  "bands_of (pfab_reset K s) = replicate (length (pd_queues (pfab_data s))) []"
  "pd_bitmap (pfab_data (pfab_reset K s)) = pd_bitmap (pfab_data s)"
  "pd_limit (pfab_data (pfab_reset K s)) = pd_limit (pfab_data s)"
  "pd_disable_dequeue (pfab_data (pfab_reset K s)) = pd_disable_dequeue (pfab_data s)"
  "q_qlen (sch (pfab_reset K s)) = 0" "qstats_backlog (sch (pfab_reset K s)) = 0"
  "length (pd_queues (pfab_data (pfab_reset K s))) = length (pd_queues (pfab_data s))"
  by (simp_all add: pfab_reset_def Let_def case_prod_beta bands_def reset_bands_contents
      reset_bands_length)

lemma pfab_reset_wf: "pfab_wf contents s \<Longrightarrow> pfab_wf contents (pfab_reset K s)"
  using pfab_wfD(5) [of contents s]
  by (auto simp: pfab_wf_def pfab_shape_def pfab_reset_effect banded_def
      views_cong(2) [OF pfab_reset_effect(2)])

lemma fresh_exact:
  assumes "q_qlen d = 0"
  shows "pfab_exact contents \<lparr>sch = d, pfab_data = fresh_sched_data K, pfab_stats = st\<rparr>"
proof -
  have "\<not> sched_marked \<lparr>sch = d, pfab_data = fresh_sched_data K, pfab_stats = st\<rparr> b" for b
    by (auto simp: sched_marked_def band_set_def fresh_sched_data_def)
  then show ?thesis using assms
    by (simp add: pfab_exact_def pfab_wf_def pfab_shape_def sched_bitmap_wf_def bitmap_wf_def
        no_stale_band_def bands_def buffered_def banded_def fresh_sched_data_def kernel_laws)
qed

end

end
