(* ===== verification/Pfab_Refine.thy ===== *)
theory Pfab_Refine
  imports Pfab_Inv
begin

unbundle bit_operations_syntax

text \<open>
  The contract of the scheduler on the abstract buffer and the proofs that the operations
  implement it: enqueue and dequeue refine \<open>spec_enqueue\<close> and the head of the service
  order in every exact state; the states that break exactness are characterised, and what
  the scheduler does there is stated as it is.
\<close>

section \<open>The abstract operations\<close>

text \<open>
  A packet for an unknown band is refused. A full buffer refuses a packet that is not more
  urgent than its least urgent one; otherwise the packet enters, and an overfull buffer gives
  up the oldest of its least urgent packets.
\<close>

definition spec_enqueue :: "nat \<Rightarrow> sk_buff \<Rightarrow> sk_buff list \<Rightarrow> int \<times> sk_buff list" where
  "spec_enqueue lim skb xs =
     (if NUM_BANDS \<le> prio skb then (NET_XMIT_DROP, xs)
      else if lim \<le> length xs \<and> xs \<noteq> [] \<and> worst_key prio xs \<le> prio skb then (NET_XMIT_DROP, xs)
      else let ys = prio_insert prio skb xs
           in if lim < length ys then (NET_XMIT_CN, prio_evict prio ys) else (NET_XMIT_SUCCESS, ys))"

text \<open>The next packet to serve, as a partial function of the state.\<close>

definition dequeue_next :: "'q kernel \<Rightarrow> 'q pfab \<Rightarrow> (sk_buff \<times> 'q pfab) option" where
  "dequeue_next K s =
     (case pfab_dequeue K s of Done (Some skb, s') \<Rightarrow> Some (skb, s') | _ \<Rightarrow> None)"

definition serving :: "('q \<Rightarrow> sk_buff list) \<Rightarrow> 'q pfab \<Rightarrow> bool" where
  "serving contents s \<longleftrightarrow> pfab_exact contents s \<and> pd_disable_dequeue (pfab_data s) = 0"

section \<open>Extremes of the buffer\<close>

lemma wf_high_le:
  assumes "pfab_wf contents s" "x \<in> set (buffered contents s)"
  shows "sched_high s \<le> int (prio x)" "0 \<le> sched_high s"
  using bitmap.first_least [OF pfab_wfD(4) [OF assms(1)] buffered_marked [OF assms]]
    bitmap.first_nonneg [OF pfab_wfD(4) [OF assms(1)] buffered_marked [OF assms]] by auto

lemma wf_low_ge:
  assumes "pfab_wf contents s" "x \<in> set (buffered contents s)"
  shows "int (prio x) \<le> sched_low s"
  by (rule bitmap.final_greatest [OF pfab_wfD(4) [OF assms(1)] buffered_marked [OF assms]])

lemma bands_outside:
  assumes "pfab_wf contents s"
  shows "b < 32 \<Longrightarrow> int b < sched_high s \<Longrightarrow> bands contents s ! b = []"
    and "b < 32 \<Longrightarrow> sched_low s < int b \<Longrightarrow> bands contents s ! b = []"
  using pfab_wfD(3) [OF assms] bitmap.first_least [OF pfab_wfD(4) [OF assms]]
    bitmap.final_greatest [OF pfab_wfD(4) [OF assms]] by force+

lemma marked_buffered:
  assumes "pfab_wf contents s" "b < 32" "bands contents s ! b \<noteq> []"
  shows "hd (bands contents s ! b) \<in> set (buffered contents s)" "prio (hd (bands contents s ! b)) = b"
proof -
  have b: "b < length (bands contents s)" using pfab_wfD(6) [OF assms(1)] assms(2) by simp
  then show "hd (bands contents s ! b) \<in> set (buffered contents s)"
    using assms(3) by (auto simp: buffered_def intro: bexI [of _ "bands contents s ! b"])
  show "prio (hd (bands contents s ! b)) = b"
    using bandedD [OF pfab_wfD(2) [OF assms(1)] b] assms(3) by simp
qed

text \<open>Without stale marks the last marked band is the band of the least urgent packet.\<close>

lemma low_is_worst:
  assumes "pfab_wf contents s" "no_stale_band contents s" "buffered contents s \<noteq> []"
  shows "sched_low s = int (worst_key prio (buffered contents s))"
proof (rule bitmap.final_eqI [OF pfab_wfD(4) [OF assms(1)]])
  obtain x where "x \<in> set (buffered contents s)" "prio x = worst_key prio (buffered contents s)"
    using worst_key_attained [OF assms(3)] by metis
  then show "sched_marked s (worst_key prio (buffered contents s))"
    using buffered_marked [OF assms(1)] by metis
next
  fix c assume c: "sched_marked s c"
  then have "c < 32" using bitmap.marked_bound [OF pfab_wfD(4) [OF assms(1)]] by simp
  then have "bands contents s ! c \<noteq> []" using assms(2) c by (simp add: no_stale_band_def)
  from marked_buffered [OF assms(1) \<open>c < 32\<close> this]
  show "c \<le> worst_key prio (buffered contents s)" using worst_key_ge by metis
qed

lemma no_marks_empty:
  assumes "pfab_wf contents s" "no_stale_band contents s"
  shows "sched_low s < 0 \<longleftrightarrow> buffered contents s = []" "sched_high s < 0 \<longleftrightarrow> buffered contents s = []"
proof -
  have *: "(\<forall>b. \<not> sched_marked s b) \<longleftrightarrow> buffered contents s = []"
  proof
    assume "\<forall>b. \<not> sched_marked s b"
    then show "buffered contents s = []"
      using buffered_marked [OF assms(1)] by (metis list.set_intros(1) neq_Nil_conv)
  next
    assume e: "buffered contents s = []"
    show "\<forall>b. \<not> sched_marked s b"
    proof (rule allI, rule notI)
      fix b assume m: "sched_marked s b"
      then have b: "b < 32" using bitmap.marked_bound [OF pfab_wfD(4) [OF assms(1)]] by simp
      then have "bands contents s ! b \<noteq> []" using assms(2) m by (simp add: no_stale_band_def)
      from marked_buffered(1) [OF assms(1) b this] e show False by simp
    qed
  qed
  show "sched_low s < 0 \<longleftrightarrow> buffered contents s = []" "sched_high s < 0 \<longleftrightarrow> buffered contents s = []"
    using * bitmap.final_none [OF pfab_wfD(4) [OF assms(1)]]
      bitmap.first_none [OF pfab_wfD(4) [OF assms(1)]] by simp_all
qed

section \<open>Dequeue\<close>

text \<open>
  A packet is served when dequeuing is enabled and the most urgent marked band holds one; a packet in another band waits.
\<close>

definition head_ready :: "('q \<Rightarrow> sk_buff list) \<Rightarrow> 'q pfab \<Rightarrow> bool" where
  "head_ready contents s \<longleftrightarrow> pd_disable_dequeue (pfab_data s) = 0 \<and>
     (\<exists>b<NUM_BANDS. sched_marked s b \<and> (\<forall>c<b. \<not> sched_marked s c) \<and> bands contents s ! b \<noteq> [])"

context kernel_qdisc
begin

lemma dequeue_no_BUG:
  assumes "pfab_wf contents s" shows "pfab_dequeue K s \<noteq> BUG"
  using bitmap.first_bound [OF pfab_wfD(4) [OF assms]]
  by (auto simp: pfab_dequeue_def Let_def split: prod.splits option.splits)

lemma dequeue_takes_head:
  assumes "pfab_wf contents s" "pfab_dequeue K s = Done (Some skb, s')"
  shows "buf s = skb # buf s'"
proof (cases rule: pfab_dequeue_doneE [OF pfab_wfD(1) [OF assms(1)] assms(2), case_names idle stale served])
  case (served x rest)
  let ?b = "nat (sched_high s)"
  have b: "?b < length (bands_of s)"
    using bitmap.first_bound [OF pfab_wfD(4) [OF assms(1)]] pfab_wfD(6) [OF assms(1)] served(2) by simp
  have "\<And>c. c < ?b \<Longrightarrow> bands_of s ! c = []"
    using bands_outside(1) [OF assms(1)] b pfab_wfD(6) [OF assms(1)] by simp
  from concat_first_band [OF b this served(3)] served(1,4) show ?thesis by (simp add: buffered_def)
qed simp_all

lemma dequeue_outcome:
  assumes wf: "pfab_wf contents s"
  shows "\<exists>s'. pfab_dequeue K s = Done (if head_ready contents s then head_opt (buf s) else None, s') \<and>
    buf s' = (if head_ready contents s then tl (buf s) else buf s)"
proof -
  note bm = pfab_wfD(4) [OF wf]
  obtain r s' where d: "pfab_dequeue K s = Done (r, s')" using dequeue_no_BUG [OF wf] by (cases "pfab_dequeue K s") auto
  have high: "sched_high s = int b" if "sched_marked s b" "\<forall>c<b. \<not> sched_marked s c" for b
    using that by (intro bitmap.first_eqI [OF bm]) (auto simp: not_less [symmetric])
  have ready: "head_ready contents s \<longleftrightarrow>
      pd_disable_dequeue (pfab_data s) = 0 \<and> 0 \<le> sched_high s \<and> bands_of s ! nat (sched_high s) \<noteq> []"
  proof
    assume r: "pd_disable_dequeue (pfab_data s) = 0 \<and> 0 \<le> sched_high s \<and> bands_of s ! nat (sched_high s) \<noteq> []"
    let ?b = "nat (sched_high s)"
    have "sched_marked s ?b" "?b < NUM_BANDS" using bitmap.first_marked [OF bm] bitmap.first_bound [OF bm] r by simp_all
    moreover have "\<not> sched_marked s c" if "c < ?b" for c using bitmap.first_least [OF bm, of c] that by auto
    ultimately show "head_ready contents s" using r unfolding head_ready_def by blast
  qed (use high in \<open>auto simp: head_ready_def\<close>)
  show ?thesis
  proof (cases rule: pfab_dequeue_doneE [OF pfab_wfD(1) [OF wf] d, case_names idle stale served])
    case (served x rest)
    then show ?thesis
      using d dequeue_takes_head [OF wf, of x s'] ready pfab_dequeue_idle [OF _ pfab_wfD(1) [OF wf]] by auto
  qed (use d ready in \<open>auto simp: buffered_def\<close>)
qed

lemma dequeue_exact:
  assumes "serving contents s"
  obtains s' where "pfab_dequeue K s = Done (head_opt (buf s), s')" "buf s' = tl (buf s)"
    "serving contents s'"
proof -
  have ex: "pfab_exact contents s" and en: "pd_disable_dequeue (pfab_data s) = 0"
    using assms by (simp_all add: serving_def)
  note wf = pfab_exactD(1) [OF ex] and shape = pfab_wfD(1) [OF pfab_exactD(1) [OF ex]]
  have ns: "no_stale_band contents s" using ex by (simp add: pfab_exact_def)
  show thesis
  proof (cases "buf s = []")
    case True
    then have "pfab_dequeue K s = Done (None, s)"
      using no_marks_empty(2) [OF wf ns] shape by (intro pfab_dequeue_idle) auto
    with True assms show thesis by (intro that [of s]) simp_all
  next
    case False
    then have high: "0 \<le> sched_high s" using no_marks_empty(2) [OF wf ns] by simp
    let ?b = "nat (sched_high s)"
    have m: "sched_marked s ?b" by (rule bitmap.first_marked [OF pfab_wfD(4) [OF wf] high])
    then obtain x rest where xr: "bands_of s ! ?b = x # rest"
      using pfab_exactD(2) [OF ex m] by (cases "bands_of s ! ?b") auto
    from pfab_dequeue_serves [OF shape en high xr] obtain t where
      t: "pfab_dequeue K s = Done (Some x, t)" "bands_of t = (bands_of s)[?b := rest]"
      "\<And>c. sched_marked t c \<longleftrightarrow> sched_marked s c \<and> (c \<noteq> ?b \<or> rest \<noteq> [])"
      "pd_disable_dequeue (pfab_data t) = 0" "q_qlen (sch t) = q_qlen (sch s) - 1" by metis
    have buf: "buf s = x # buf t" by (rule dequeue_takes_head [OF wf t(1)])
    have wt: "pfab_wf contents t" by (rule pfab_dequeue_wf [OF wf t(1)])
    have "bands_of t ! c \<noteq> []" if "c < 32" "sched_marked t c" for c
      using that ns t(3) [of c] pfab_wfD(6) [OF wf]
      by (cases "c = ?b") (simp_all add: no_stale_band_def t(2))
    then have "no_stale_band contents t" by (simp add: no_stale_band_def)
    moreover have "unat (q_qlen (sch t)) = length (buf t)"
      using pfab_exactD(3) [OF ex] buf unat_pred [of "q_qlen (sch s)"] t(5)
      by (metis diff_Suc_1 length_Cons nat.distinct(1) unat_0)
    ultimately show thesis
      using t buf wt by (intro that [of t]) (simp_all add: serving_def pfab_exact_def)
  qed
qed

lemma dequeue_next_exact:
  assumes "serving contents s"
  shows "dequeue_next K s = None \<Longrightarrow> buf s = []"
    and "dequeue_next K s = Some (x, s') \<Longrightarrow> buf s = x # buf s'"
    and "dequeue_next K s = Some (x, s') \<Longrightarrow> serving contents s'"
  by (rule dequeue_exact [OF assms]; cases "buf s"; simp add: dequeue_next_def)+

end

sublocale kernel_qdisc \<subseteq> service: priority_buffer "serving contents" "buffered contents" prio "dequeue_next K"
proof
  fix s :: "'q pfab" and x s'
  assume s: "serving contents s"
  then have "pfab_wf contents s" by (simp add: serving_def pfab_exact_def)
  then show "sorted (map prio (buffered contents s))"
    unfolding buffered_def by (rule sorted_concat_banded [OF pfab_wfD(2)])
  show "dequeue_next K s = None \<Longrightarrow> buffered contents s = []"
    "dequeue_next K s = Some (x, s') \<Longrightarrow> buffered contents s = x # buffered contents s'"
    "dequeue_next K s = Some (x, s') \<Longrightarrow> serving contents s'"
    using dequeue_next_exact [OF s] by blast+
qed

section \<open>Enqueue\<close>

lemma exact_congD:
  assumes "pfab_exact contents s" "pfab_data t = pfab_data s" "sch t = sch s"
  shows "pfab_exact contents t" "buffered contents t = buffered contents s"
  using assms pfab_exact_cong [of t s contents] bands_cong [of t s contents]
  by (simp_all add: buffered_def)

lemma outranked_exact:
  assumes "pfab_exact contents s"
  shows "outranked skb s \<longleftrightarrow>
     unat (pd_limit (pfab_data s)) \<le> length (buffered contents s) \<and> buffered contents s \<noteq> [] \<and>
     worst_key prio (buffered contents s) \<le> prio skb"
proof (cases "buffered contents s = []")
  case True
  then have "sched_low s < 0"
    using no_marks_empty(1) assms by (auto simp: pfab_exact_def)
  with True show ?thesis by (simp add: outranked_def Let_def)
next
  case False
  have wf: "pfab_wf contents s" and ns: "no_stale_band contents s"
    using assms by (simp_all add: pfab_exact_def)
  let ?w = "worst_key prio (buffered contents s)"
  have low: "sched_low s = int ?w" by (rule low_is_worst [OF wf ns False])
  have "?w < 32" using bitmap.final_bound [OF pfab_wfD(4) [OF wf]] low by simp
  then have "word_of_int (int ?w) \<le> skb_priority skb \<longleftrightarrow> ?w \<le> prio skb"
    by (simp add: word_le_nat_alt unat_of_nat)
  with False show ?thesis
    by (simp add: outranked_def Let_def low word_le_nat_alt [of "pd_limit _"] pfab_exactD(3) [OF assms])
qed

context kernel_qdisc
begin

lemma drain_serving:
  assumes "serving contents s" "length (buf s) \<le> n"
  shows "drain_with (dequeue_next K) n s = buf s" "sorted (map prio (drain_with (dequeue_next K) n s))"
  using service.drain_complete [OF assms] service.drain_sorted [OF assms] by simp_all

text \<open>Insertion keeps exactness as long as the counter does not wrap.\<close>

lemma insert_skb_exact:
  assumes "pfab_exact contents s" "prio skb < 32" "Suc (length (buf s)) < 2 ^ 32"
  shows "pfab_exact contents (insert_skb K skb s)"
    and "buf (insert_skb K skb s) = prio_insert prio skb (buf s)"
    and "unat (q_qlen (sch (insert_skb K skb s))) = Suc (length (buf s))"
proof -
  note wf = pfab_exactD(1) [OF assms(1)]
  note eff = insert_skb_effect [OF pfab_wfD(1) [OF wf] assms(2)]
  have len: "length (bands_of s) = 32" by (rule pfab_wfD(6) [OF wf])
  show buf: "buf (insert_skb K skb s) = prio_insert prio skb (buf s)"
    using concat_append_band [OF pfab_wfD(2) [OF wf], of skb] assms(2) len
    by (simp add: buffered_def eff(1))
  show q: "unat (q_qlen (sch (insert_skb K skb s))) = Suc (length (buf s))"
    using pfab_exactD(3) [OF assms(1)] assms(3) by (simp add: eff(2) unat_Suc_no_wrap)
  have "no_stale_band contents (insert_skb K skb s)"
    using assms(1,2) len
    by (auto simp: no_stale_band_def pfab_exact_def eff(1,8) nth_list_update)
  then show "pfab_exact contents (insert_skb K skb s)"
    using insert_skb_wf [OF wf assms(2)] buf q by (simp add: pfab_exact_def)
qed

text \<open>
  Eviction from a state without stale marks takes the abstract victim; it leaves a stale mark
  exactly when the victim was the last packet of its band.
\<close>

lemma pfab_drop_exact:
  assumes "pfab_exact contents s" "buf s \<noteq> []"
  shows "buf (snd (pfab_drop K s)) = prio_evict prio (buf s)"
    and "fst (pfab_drop K s) = skb_pkt_len (prio_victim prio (buf s))"
    and "unat (q_qlen (sch (snd (pfab_drop K s)))) = length (prio_evict prio (buf s))"
    and "no_stale_band contents (snd (pfab_drop K s)) \<longleftrightarrow>
         (\<exists>x\<in>set (prio_evict prio (buf s)). prio x = prio (prio_victim prio (buf s)))"
proof -
  have wf: "pfab_wf contents s" and ns: "no_stale_band contents s"
    using assms(1) by (simp_all add: pfab_exact_def)
  define l where "l = worst_key prio (buf s)"
  have low: "sched_low s = int l" unfolding l_def by (rule low_is_worst [OF wf ns assms(2)])
  have l: "l < 32" using bitmap.final_bound [OF pfab_wfD(4) [OF wf]] low by simp
  have "sched_marked s l" using bitmap.final_marked [OF pfab_wfD(4) [OF wf]] low by simp
  then have ne: "bands_of s ! l \<noteq> []" using ns l by (simp add: no_stale_band_def)
  have len: "length (bands_of s) = 32" by (rule pfab_wfD(6) [OF wf])
  have shape: "pfab_shape s" "0 \<le> sched_low s" using pfab_wfD(1) [OF wf] low by simp_all
  note eff = pfab_drop_effect [OF shape, unfolded low nat_int]
  have "bands_of s ! c = []" if "l < c" "c < length (bands_of s)" for c
    using bands_outside(2) [OF wf, of c] that low len by simp
  note ev = concat_evict_band [OF pfab_wfD(2) [OF wf] _ ne this, unfolded len, OF l]
  show buf: "buf (snd (pfab_drop K s)) = prio_evict prio (buf s)"
    using ev(1) by (simp add: buffered_def eff(1))
  have victim: "prio_victim prio (buf s) = hd (bands_of s ! l)"
    using ev(2) by (simp add: buffered_def)
  then show "fst (pfab_drop K s) = skb_pkt_len (prio_victim prio (buf s))"
    using ne by (simp add: eff(2) split: list.splits)
  have "q_qlen (sch s) \<noteq> 0" using pfab_exactD(3) [OF assms(1)] assms(2) by auto
  then show "unat (q_qlen (sch (snd (pfab_drop K s)))) = length (prio_evict prio (buf s))"
    using unat_pred [of "q_qlen (sch s)"] pfab_exactD(3) [OF assms(1)]
      length_prio_evict [OF assms(2), of prio] by (simp add: eff(3))
  have wf': "pfab_wf contents (snd (pfab_drop K s))" by (rule pfab_drop_wf [OF wf])
  have pv: "prio (prio_victim prio (buf s)) = l"
    using victim marked_buffered(2) [OF wf l ne] by simp
  have bl: "bands_of (snd (pfab_drop K s)) ! l = tl (bands_of s ! l)"
    using l len by (simp add: eff(1))
  have mk: "sched_marked (snd (pfab_drop K s)) = sched_marked s" by (rule views_cong(1) [OF eff(8)])
  have "no_stale_band contents (snd (pfab_drop K s)) \<longleftrightarrow> tl (bands_of s ! l) \<noteq> []"
    using ns l len \<open>sched_marked s l\<close> by (auto simp: no_stale_band_def mk eff(1) nth_list_update)
  also have "\<dots> \<longleftrightarrow> (\<exists>x\<in>set (buf (snd (pfab_drop K s))). prio x = l)"
    using buffered_in_band [OF wf'] marked_buffered [OF wf' l] bl by force
  finally show "no_stale_band contents (snd (pfab_drop K s)) \<longleftrightarrow>
         (\<exists>x\<in>set (prio_evict prio (buf s)). prio x = prio (prio_victim prio (buf s)))"
    by (simp add: buf pv)
qed

lemma drop_arriving_buf: "buf (snd (drop_arriving K skb s)) = buf s"
  by (simp add: buffered_def bands_def drop_arriving_frame)

lemma enqueue_refines:
  fixes skb s
  defines "p \<equiv> classified skb" and "lim \<equiv> unat (pd_limit (pfab_data s))"
  assumes ex: "pfab_exact contents s" and room: "Suc (length (buf s)) < 2 ^ 32"
    and lens: "\<And>x. x \<in> insert p (set (buf s)) \<Longrightarrow> skb_pkt_len x < 2 ^ 31"
  shows "(fst (pfab_enqueue K skb s), buf (snd (pfab_enqueue K skb s))) = spec_enqueue lim p (buf s)"
proof (cases rule: pfab_enqueue_cases [of skb s, folded p_def, case_names illegal outranked stored evicting])
  case (illegal t)
  then show ?thesis
    using exact_congD(2) [OF ex illegal(3,4)]
    by (simp add: spec_enqueue_def drop_arriving_frame(3) drop_arriving_buf)
next
  case (outranked t)
  note t = exact_congD [OF ex outranked(4,5)]
  show ?thesis
    using outranked outranked_exact [OF t(1), of p] t(2)
    by (simp add: spec_enqueue_def drop_arriving_frame(3) drop_arriving_buf lim_def)
next
  case (stored t)
  note t = exact_congD [OF ex stored(5,6)]
  note ins = insert_skb_exact [OF t(1) stored(1), unfolded t(2), OF room]
  have "pd_limit (pfab_data (insert_skb K p t)) = pd_limit (pfab_data s)"
    using insert_skb_effect(5) [OF pfab_wfD(1) [OF pfab_exactD(1) [OF t(1)]] stored(1)] stored(5) by simp
  then have "Suc (length (buf s)) \<le> lim"
    using stored(3) ins(3) by (simp add: word_le_nat_alt lim_def)
  then show ?thesis
    using stored outranked_exact [OF t(1), of p] t(2) ins
    by (auto simp: spec_enqueue_def Let_def lim_def)
next
  case (evicting t)
  note t = exact_congD [OF ex evicting(5,6)]
  note ins = insert_skb_exact [OF t(1) evicting(1), unfolded t(2), OF room]
  have ne: "buf (insert_skb K p t) \<noteq> []" using ins(2) by (simp add: prio_insert_def)
  note ev = pfab_drop_exact [OF ins(1) ne]
  have "pd_limit (pfab_data (insert_skb K p t)) = pd_limit (pfab_data s)"
    using insert_skb_effect(5) [OF pfab_wfD(1) [OF pfab_exactD(1) [OF t(1)]] evicting(1)] evicting(5) by simp
  then have over: "lim < Suc (length (buf s))"
    using evicting(3) ins(3) by (simp add: word_less_nat_alt lim_def)
  have "prio_victim prio (prio_insert prio p (buf s)) \<in> set (prio_insert prio p (buf s))"
    using prio_victim_in [OF ne] ins(2) by simp
  then have "skb_pkt_len (prio_victim prio (prio_insert prio p (buf s))) < 2 ^ 31"
    using lens by simp
  then have "\<not> sint (skb_pkt_len (prio_victim prio (prio_insert prio p (buf s)))) < 0"
    by (rule sint_small_nonneg)
  then show ?thesis
    using evicting outranked_exact [OF t(1), of p] t(2) ins ev over
    by (auto simp: spec_enqueue_def Let_def lim_def)
qed

end

end
