(* ===== verification/Pfab_Steps.thy ===== *)
theory Pfab_Steps
  imports Pfab_Refine
begin

unbundle bit_operations_syntax

text \<open>
  The discipline as a state machine: the kernel calls the operations of the table
  \<^verbatim>\<open>pfab_qdisc_ops\<close> in any order. Reachable states, the invariants that hold in all of them,
  and the long-run behaviour of a state with a stale mark.
\<close>

section \<open>Calls and reachable states\<close>

datatype pfab_call =
    Enqueue sk_buff int
  | Dequeue "sk_buff option"
  | Change "u8 list option" int
  | Reset

inductive pfab_step :: "'q kernel \<Rightarrow> 'q pfab \<Rightarrow> pfab_call \<Rightarrow> 'q pfab \<Rightarrow> bool" for K where
  enqueue: "pfab_enqueue K skb s = (rc, s') \<Longrightarrow> pfab_step K s (Enqueue skb rc) s'"
| dequeue: "pfab_dequeue K s = Done (r, s') \<Longrightarrow> pfab_step K s (Dequeue r) s'"
| change: "pfab_change opt s = (rc, s') \<Longrightarrow> pfab_step K s (Change opt rc) s'"
| reset: "pfab_step K s Reset (pfab_reset K s)"

inductive_cases pfab_step_enqueueE: "pfab_step K s (Enqueue skb rc) t"
inductive_cases pfab_step_dequeueE: "pfab_step K s (Dequeue r) t"
inductive_simps pfab_step_simps:
  "pfab_step K s (Enqueue skb rc) t" "pfab_step K s (Dequeue r) t"
  "pfab_step K s (Change opt rc) t" "pfab_step K s Reset t"

inductive pfab_reachable :: "'q kernel \<Rightarrow> 'p proc_api \<Rightarrow> 'q pfab \<Rightarrow> bool" for K P where
  created: "q_qlen d = 0 \<Longrightarrow> qstats_backlog d = 0 \<Longrightarrow> pfab_init K P opt d p = (0, s, p') \<Longrightarrow>
    pfab_reachable K P s"
| called: "pfab_reachable K P s \<Longrightarrow> pfab_step K s call s' \<Longrightarrow> pfab_reachable K P s'"

text \<open>The bytes that the discipline reports as its backlog.\<close>

definition backlog_ok :: "('q \<Rightarrow> sk_buff list) \<Rightarrow> 'q pfab \<Rightarrow> bool" where
  "backlog_ok contents s \<longleftrightarrow>
     qstats_backlog (sch s) = sum_list (map skb_pkt_len (buffered contents s))"

fun enqueue_all :: "'q kernel \<Rightarrow> sk_buff list \<Rightarrow> 'q pfab \<Rightarrow> 'q pfab" where
  "enqueue_all K [] s = s"
| "enqueue_all K (skb # skbs) s = enqueue_all K skbs (snd (pfab_enqueue K skb s))"

text \<open>
  A full buffer whose last marked band is empty: the situation after an eviction that took
  the last packet of the least urgent band.
\<close>

definition stale_full :: "('q \<Rightarrow> sk_buff list) \<Rightarrow> nat \<Rightarrow> 'q pfab \<Rightarrow> bool" where
  "stale_full contents b s \<longleftrightarrow>
     pfab_wf contents s \<and> b < NUM_BANDS \<and> sched_low s = int b \<and> bands contents s ! b = [] \<and>
     q_qlen (sch s) = pd_limit (pfab_data s) \<and> pd_limit (pfab_data s) \<noteq> - 1"

text \<open>A scheduler that serves and whose first marked band is empty.\<close>

definition stale_head :: "('q \<Rightarrow> sk_buff list) \<Rightarrow> nat \<Rightarrow> 'q pfab \<Rightarrow> bool" where
  "stale_head contents b s \<longleftrightarrow>
     pfab_wf contents s \<and> b < NUM_BANDS \<and> sched_high s = int b \<and> bands contents s ! b = [] \<and>
     pd_disable_dequeue (pfab_data s) = 0"

text \<open>Packets less urgent than band \<open>b\<close> arrive, and the device asks for packets.\<close>

inductive starving_run :: "'q kernel \<Rightarrow> nat \<Rightarrow> 'q pfab \<Rightarrow> 'q pfab \<Rightarrow> bool" for K b where
  start: "starving_run K b s s"
| arrive: "starving_run K b s t \<Longrightarrow> pfab_step K t (Enqueue skb rc) u \<Longrightarrow>
    b < prio (classified skb) \<Longrightarrow> starving_run K b s u"
| ask: "starving_run K b s t \<Longrightarrow> pfab_step K t (Dequeue r) u \<Longrightarrow> starving_run K b s u"

section \<open>Frame of the operations on the backlog\<close>

lemma sum_concat_update:
  fixes f :: "'a \<Rightarrow> 'b::comm_ring"
  assumes "b < length bs"
  shows "sum_list (map f (concat (bs[b := ys]))) =
         sum_list (map f (concat bs)) - sum_list (map f (bs ! b)) + sum_list (map f ys)"
  using assms by (simp add: concat_update concat_split_at [OF assms])

lemma sum_concat_tl:
  fixes f :: "'a \<Rightarrow> 'b::comm_ring"
  assumes "b < length bs"
  shows "sum_list (map f (concat (bs[b := tl (bs ! b)]))) =
         sum_list (map f (concat bs)) - (case bs ! b of [] \<Rightarrow> 0 | x # _ \<Rightarrow> f x)"
  unfolding sum_concat_update [OF assms] by (cases "bs ! b") simp_all

lemma backlog_cong:
  "bands contents s = bands contents t \<Longrightarrow> qstats_backlog (sch s) = qstats_backlog (sch t) \<Longrightarrow>
   backlog_ok contents s = backlog_ok contents t"
  by (simp add: backlog_ok_def buffered_def)

context kernel_qdisc
begin

lemma insert_skb_backlog:
  assumes "pfab_wf contents s" "prio skb < 32" "backlog_ok contents s"
  shows "backlog_ok contents (insert_skb K skb s)"
proof -
  note eff = insert_skb_effect [OF pfab_wfD(1) [OF assms(1)] assms(2)]
  show ?thesis
    using assms(2,3) sum_concat_update [of "prio skb" "bands_of s" skb_pkt_len "bands_of s ! prio skb @ [skb]"]
      pfab_wfD(6) [OF assms(1)]
    by (simp add: backlog_ok_def buffered_def eff(1,4))
qed

lemma pfab_drop_backlog:
  assumes "pfab_wf contents s" "backlog_ok contents s"
  shows "backlog_ok contents (snd (pfab_drop K s))"
proof (cases "0 \<le> sched_low s")
  case True
  note eff = pfab_drop_effect [OF pfab_wfD(1) [OF assms(1)] True]
  have "nat (sched_low s) < length (bands_of s)"
    using bitmap.final_bound [OF pfab_wfD(4) [OF assms(1)]] pfab_wfD(6) [OF assms(1)] True by simp
  from sum_concat_tl [OF this, of skb_pkt_len] assms(2) show ?thesis
    by (simp add: backlog_ok_def buffered_def eff(1,5))
qed (use assms in \<open>simp add: pfab_drop_def\<close>)

lemma pfab_enqueue_backlog:
  assumes "pfab_wf contents s" "backlog_ok contents s"
  shows "backlog_ok contents (snd (pfab_enqueue K skb s))"
proof -
  have t: "pfab_wf contents t" "backlog_ok contents t" if "pfab_data t = pfab_data s" "sch t = sch s" for t
    using assms that pfab_wf_cong [of t s contents] backlog_cong [of contents t s] bands_cong [of t s contents]
    by simp_all
  have d: "backlog_ok contents (snd (drop_arriving K p t))" if "backlog_ok contents t" for p t
    using that drop_arriving_buf [of p t] by (simp add: backlog_ok_def drop_arriving_frame)
  show ?thesis
    by (cases rule: pfab_enqueue_cases [of skb s])
       (simp_all add: t d insert_skb_backlog pfab_drop_backlog insert_skb_wf)
qed

lemma pfab_dequeue_backlog:
  assumes "pfab_wf contents s" "backlog_ok contents s" "pfab_dequeue K s = Done (r, s')"
  shows "backlog_ok contents s'"
proof (cases rule: pfab_dequeue_doneE [OF pfab_wfD(1) [OF assms(1)] assms(3), case_names idle stale served])
  case stale
  then show ?thesis using assms(2) by (simp add: backlog_ok_def buffered_def)
next
  case (served skb rest)
  with assms dequeue_takes_head [OF assms(1), of skb s'] show ?thesis
    by (simp add: backlog_ok_def)
qed (use assms(2) in simp)

section \<open>Invariants of the reachable states\<close>

lemma pfab_step_wf:
  "pfab_step K s call s' \<Longrightarrow> pfab_wf contents s \<Longrightarrow> pfab_wf contents s'"
proof (induction rule: pfab_step.induct)
  case (enqueue skb s rc s')
  then show ?case using pfab_enqueue_wf [of s skb] by simp
next
  case (change opt s rc s')
  then show ?case using pfab_change_wf [of s opt] by simp
qed (auto intro: pfab_dequeue_wf pfab_reset_wf)

lemma pfab_change_data:
  "pd_queues (pfab_data (snd (pfab_change opt s))) = pd_queues (pfab_data s)"
  "sch (snd (pfab_change opt s)) = sch s"
  "pd_bitmap (pfab_data (snd (pfab_change opt s))) = pd_bitmap (pfab_data s)"
  by (simp_all add: pfab_change_def Let_def split: option.splits)

lemma pfab_step_backlog:
  "pfab_step K s call s' \<Longrightarrow> pfab_wf contents s \<Longrightarrow> backlog_ok contents s \<Longrightarrow> backlog_ok contents s'"
proof (induction rule: pfab_step.induct)
  case (enqueue skb s rc s')
  then show ?case using pfab_enqueue_backlog [of s skb] by simp
next
  case (dequeue s r s')
  then show ?case using pfab_dequeue_backlog by blast
next
  case (change opt s rc s')
  then show ?case
    using pfab_change_data [of opt s] backlog_cong [of contents s' s] bands_cong [of s' s contents] by simp
next
  case (reset s)
  then show ?case by (simp add: backlog_ok_def buffered_def pfab_reset_effect)
qed

lemma pfab_init_created:
  assumes "pfab_init K P opt d p = (rc, s, p')"
  shows "sch s = d" "pd_queues (pfab_data s) = replicate NUM_BANDS (k_skb_queue_head_init K)"
    "pd_bitmap (pfab_data s) = replicate BITMAP_SIZE 0"
proof -
  let ?f = "\<lparr>sch = d, pfab_data = fresh_sched_data K, pfab_stats = fresh_stats\<rparr>"
  have "s = (case opt of None \<Rightarrow> ?f | Some _ \<Rightarrow> snd (pfab_change opt ?f))"
    using assms by (auto simp: pfab_init_def Let_def case_prod_beta split: option.splits if_splits)
  then show "sch s = d" "pd_queues (pfab_data s) = replicate NUM_BANDS (k_skb_queue_head_init K)"
    "pd_bitmap (pfab_data s) = replicate BITMAP_SIZE 0"
    by (cases opt; simp add: pfab_change_data fresh_sched_data_def)+
qed

lemma pfab_init_exact:
  assumes "pfab_init K P opt d p = (rc, s, p')" "q_qlen d = 0"
  shows "pfab_exact contents s" "buf s = []"
proof -
  let ?f = "\<lparr>sch = d, pfab_data = fresh_sched_data K, pfab_stats = fresh_stats\<rparr>"
  show "pfab_exact contents s"
    using pfab_init_created [OF assms(1)] fresh_exact [OF assms(2)] pfab_exact_cong [of s ?f contents]
    by (simp add: fresh_sched_data_def)
  show "buf s = []"
    using pfab_init_created(2) [OF assms(1)] by (simp add: buffered_def bands_def kernel_laws)
qed

lemma reachable_inv:
  "pfab_reachable K P s \<Longrightarrow> pfab_wf contents s \<and> backlog_ok contents s"
proof (induction rule: pfab_reachable.induct)
  case (created d opt p s p')
  note e = pfab_init_exact [OF created(3,1)]
  have "backlog_ok contents s"
    using e(2) created(2) pfab_init_created(1) [OF created(3)] by (simp add: backlog_ok_def)
  with e show ?case by (simp add: pfab_exact_def)
next
  case (called s call s')
  then show ?case using pfab_step_wf pfab_step_backlog by blast
qed

section \<open>Stale marks\<close>

lemma stale_full_step:
  assumes "stale_full contents b s" "prio (classified skb) < b"
  shows "stale_full contents b (snd (pfab_enqueue K skb s))"
    and "fst (pfab_enqueue K skb s) = NET_XMIT_CN"
    and "length (buf (snd (pfab_enqueue K skb s))) = Suc (length (buf s))"
    and "pd_limit (pfab_data (snd (pfab_enqueue K skb s))) = pd_limit (pfab_data s)"
    and "q_qlen (sch (snd (pfab_enqueue K skb s))) = q_qlen (sch s)"
proof -
  define p where "p = classified skb"
  have st: "pfab_wf contents s" "b < 32" "sched_low s = int b" "bands_of s ! b = []"
    "q_qlen (sch s) = pd_limit (pfab_data s)" "pd_limit (pfab_data s) \<noteq> - 1"
    using assms(1) by (simp_all add: stale_full_def)
  have p: "prio p < b" "prio p < 32" using assms(2) st(2) by (simp_all add: p_def)
  define t where "t = count_band (prio p) (snd (classify_skb skb s))"
  have t: "pfab_data t = pfab_data s" "sch t = sch s" by (simp_all add: t_def)
  have wft: "pfab_wf contents t" "bands_of t = bands_of s"
    using st(1) pfab_wf_cong [of t s contents] bands_cong [of t s contents] t by simp_all
  let ?i = "insert_skb K p t"
  note eff = insert_skb_effect [OF pfab_wfD(1) [OF wft(1)] p(2), unfolded wft(2) t]
  have nout: "\<not> outranked p t"
    using p(1) st(2) by (simp add: outranked_def Let_def t st(3) word_le_nat_alt unat_of_nat)
  have "pd_limit (pfab_data s) < pd_limit (pfab_data s) + 1"
    using st(6) by (rule word_less_plus_1)
  then have over: "pd_limit (pfab_data ?i) < q_qlen (sch ?i)"
    by (simp add: eff(2,5) st(5))
  have wfi: "pfab_wf contents ?i" by (rule insert_skb_wf [OF wft(1) p(2)])
  have lowi: "sched_low ?i = int b"
  proof (rule bitmap.final_eqI [OF pfab_wfD(4) [OF wfi]])
    have "sched_marked s b"
      using bitmap.final_marked [OF pfab_wfD(4) [OF st(1)]] st(3) by simp
    then show "sched_marked ?i b" using views_cong(1) [of t s] t by (simp add: eff(8))
    fix c assume "sched_marked ?i c"
    then show "c \<le> b"
      using bitmap.final_greatest [OF pfab_wfD(4) [OF st(1)], of c] st(3) p(1) views_cong(1) [of t s] t
      by (auto simp: eff(8))
  qed
  have bi: "bands_of ?i ! b = []" using p(1) st(4) by (simp add: eff(1))
  note dr = pfab_drop_effect [OF eff(7), unfolded lowi nat_int bi, simplified]
  have same: "bands_of (snd (pfab_drop K ?i)) = bands_of ?i"
    using dr(1) bi by (metis list.sel(2) list_update_id)
  have enq: "pfab_enqueue K skb s = (NET_XMIT_CN, snd (pfab_drop K ?i))"
    using pfab_enqueue_unfold [of skb s, folded p_def, folded t_def] p(2) nout over dr(2) by simp
  then show "fst (pfab_enqueue K skb s) = NET_XMIT_CN" by simp
  have len: "length (buf ?i) = Suc (length (buf s))"
    using concat_append_band [OF pfab_wfD(2) [OF st(1)], of p] p(2) pfab_wfD(6) [OF st(1)]
    by (simp add: buffered_def eff(1))
  then show "length (buf (snd (pfab_enqueue K skb s))) = Suc (length (buf s))"
    by (simp add: enq buffered_def same)
  show lim: "pd_limit (pfab_data (snd (pfab_enqueue K skb s))) = pd_limit (pfab_data s)"
    "q_qlen (sch (snd (pfab_enqueue K skb s))) = q_qlen (sch s)"
    by (simp_all add: enq dr eff)
  show "stale_full contents b (snd (pfab_enqueue K skb s))"
    using pfab_drop_wf [OF wfi] st(2,5,6) views_cong(3) [OF dr(8)] lowi same bi lim
    by (simp add: stale_full_def enq)
qed

lemma stale_full_run:
  assumes "stale_full contents b s" "\<And>skb. skb \<in> set skbs \<Longrightarrow> prio (classified skb) < b"
  shows "length (buf (enqueue_all K skbs s)) = length (buf s) + length skbs \<and>
    q_qlen (sch (enqueue_all K skbs s)) = q_qlen (sch s) \<and>
    pd_limit (pfab_data (enqueue_all K skbs s)) = pd_limit (pfab_data s)"
  using assms
proof (induction skbs arbitrary: s)
  case (Cons skb skbs)
  note st = stale_full_step [OF Cons.prems(1) Cons.prems(2) [of skb], simplified]
  show ?case
    using Cons.IH [OF st(1)] Cons.prems(2) st(3-5) by simp
qed simp

lemma stale_head_cong:
  assumes "pfab_data t = pfab_data s" shows "stale_head contents b t = stale_head contents b s"
  using assms views_cong(4) [of t s] pfab_wf_cong [of t s contents] bands_cong [of t s contents]
  by (simp add: stale_head_def)

lemma stale_head_insert:
  assumes "stale_head contents b s" "b < prio p" "prio p < 32"
  shows "stale_head contents b (insert_skb K p s)"
proof -
  have st: "pfab_wf contents s" "b < 32" "sched_high s = int b" "bands_of s ! b = []"
    "pd_disable_dequeue (pfab_data s) = 0" using assms(1) by (simp_all add: stale_head_def)
  note eff = insert_skb_effect [OF pfab_wfD(1) [OF st(1)] assms(3)]
  have wf: "pfab_wf contents (insert_skb K p s)" by (rule insert_skb_wf [OF st(1) assms(3)])
  have "sched_high (insert_skb K p s) = int b"
  proof (rule bitmap.first_eqI [OF pfab_wfD(4) [OF wf]])
    show "sched_marked (insert_skb K p s) b"
      using bitmap.first_marked [OF pfab_wfD(4) [OF st(1)]] st(3) by (simp add: eff(8))
    fix c assume "sched_marked (insert_skb K p s) c"
    then show "b \<le> c"
      using bitmap.first_least [OF pfab_wfD(4) [OF st(1)], of c] st(3) assms(2) by (auto simp: eff(8))
  qed
  then show ?thesis using st wf assms(2) by (simp add: stale_head_def eff)
qed

lemma stale_head_drop:
  assumes "stale_head contents b s" shows "stale_head contents b (snd (pfab_drop K s))"
proof (cases "0 \<le> sched_low s")
  case True
  have st: "pfab_wf contents s" "b < 32" "sched_high s = int b" "bands_of s ! b = []"
    "pd_disable_dequeue (pfab_data s) = 0" using assms(1) by (simp_all add: stale_head_def)
  note eff = pfab_drop_effect [OF pfab_wfD(1) [OF st(1)] True]
  have "bands_of (snd (pfab_drop K s)) ! b = []"
    using st(2,4) pfab_wfD(6) [OF st(1)] nth_update_tl_ne [of "bands_of s" "nat (sched_low s)" b]
    by (auto simp: eff(1))
  then show ?thesis
    using pfab_drop_wf [OF st(1)] st views_cong(4) [OF eff(8)] by (simp add: stale_head_def eff(7))
qed (use assms in \<open>simp add: pfab_drop_def\<close>)

lemma stale_head_enqueue:
  assumes "stale_head contents b s" "b < prio (classified skb)"
  shows "stale_head contents b (snd (pfab_enqueue K skb s))"
proof (cases rule: pfab_enqueue_cases [of skb s, case_names illegal outranked stored evicting])
  case (illegal t)
  then show ?thesis
    using assms stale_head_cong [of "snd (drop_arriving K (classified skb) t)" s b]
    by (simp add: drop_arriving_frame)
next
  case (outranked t)
  then show ?thesis
    using assms stale_head_cong [of "snd (drop_arriving K (classified skb) t)" s b]
    by (simp add: drop_arriving_frame)
next
  case (stored t)
  then show ?thesis using assms stale_head_cong [of t s b] by (simp add: stale_head_insert)
next
  case (evicting t)
  then show ?thesis
    using assms stale_head_cong [of t s b] by (simp add: stale_head_insert stale_head_drop)
qed

lemma stale_head_dequeue:
  assumes "stale_head contents b s" "pfab_dequeue K s = Done (r, s')"
  shows "r = None" "stale_head contents b s'"
proof -
  have st: "pfab_wf contents s" "b < 32" "sched_high s = int b" "bands_of s ! b = []"
    "pd_disable_dequeue (pfab_data s) = 0" using assms(1) by (simp_all add: stale_head_def)
  have "r = None \<and> stale_head contents b s'"
  proof (cases rule: pfab_dequeue_doneE [OF pfab_wfD(1) [OF st(1)] assms(2), case_names idle stale served])
    case stale
    then show ?thesis
      using st views_cong(4) [OF stale(3)] pfab_dequeue_wf [OF st(1) assms(2)] by (simp add: stale_head_def)
  qed (use st in simp_all)
  then show "r = None" "stale_head contents b s'" by simp_all
qed

lemma starving_run_stale:
  "starving_run K b s t \<Longrightarrow> stale_head contents b s \<Longrightarrow> stale_head contents b t"
proof (induction rule: starving_run.induct)
  case (arrive s t skb rc u)
  then show ?case using stale_head_enqueue [of b t skb] by (auto elim: pfab_step_enqueueE)
next
  case (ask s t r u)
  then show ?case using stale_head_dequeue by (auto elim: pfab_step_dequeueE)
qed

text \<open>
  How such states arise: a full buffer with a single least urgent packet gives that packet up
  for a more urgent arrival.
\<close>

lemma evict_last_of_band:
  fixes skb s
  defines "p \<equiv> classified skb" and "w \<equiv> worst_key prio (buf s)"
  assumes ex: "pfab_exact contents s" and full: "length (buf s) = unat (pd_limit (pfab_data s))"
    and ne: "buf s \<noteq> []" and max: "pd_limit (pfab_data s) \<noteq> - 1"
    and urgent: "prio p < w" and single: "length (filter (\<lambda>x. prio x = w) (buf s)) = 1"
  shows "stale_full contents w (snd (pfab_enqueue K skb s))"
    and "length (buf (snd (pfab_enqueue K skb s))) = length (buf s)"
    and "pd_limit (pfab_data (snd (pfab_enqueue K skb s))) = pd_limit (pfab_data s)"
proof -
  have wf: "pfab_wf contents s" and ns: "no_stale_band contents s"
    using ex by (simp_all add: pfab_exact_def)
  have low: "sched_low s = int w" unfolding w_def by (rule low_is_worst [OF wf ns ne])
  have w: "w < 32" using bitmap.final_bound [OF pfab_wfD(4) [OF wf]] low by simp
  then have p32: "prio p < 32" using urgent by simp
  define t where "t = count_band (prio p) (snd (classify_skb skb s))"
  have td: "pfab_data t = pfab_data s" "sch t = sch s" by (simp_all add: t_def)
  note t = exact_congD [OF ex td]
  have room: "Suc (length (buf s)) < 2 ^ 32"
    using Suc_unat_less [OF max] full by simp
  let ?i = "insert_skb K p t" and ?ys = "prio_insert prio p (buf s)"
  note ins = insert_skb_exact [OF t(1) p32, unfolded t(2), OF room]
  have ne': "buf ?i \<noteq> []" using ins(2) by (simp add: prio_insert_def)
  note ev = pfab_drop_exact [OF ins(1) ne', unfolded ins(2)]
  have wys: "worst_key prio ?ys = w" using worst_key_insert [OF ne] urgent by (simp add: w_def)
  have lim: "pd_limit (pfab_data ?i) = pd_limit (pfab_data s)"
    using insert_skb_effect(5) [OF pfab_wfD(1) [OF pfab_exactD(1) [OF t(1)]] p32] td by simp
  have "outranked p t \<longleftrightarrow> False"
    using outranked_exact [OF t(1), of p] t(2) urgent by (simp add: w_def)
  moreover have "q_qlen (sch ?i) > pd_limit (pfab_data ?i)"
    using ins(3) full by (simp add: word_less_nat_alt lim)
  ultimately have enq: "snd (pfab_enqueue K skb s) = snd (pfab_drop K ?i)"
    using pfab_enqueue_unfold [of skb s, folded p_def, folded t_def] p32 by simp
  have lowi: "sched_low ?i = int w"
    using low_is_worst [OF pfab_exactD(1) [OF ins(1)] _ ne'] ins(1,2) wys by (simp add: pfab_exact_def)
  note dr = pfab_drop_effect [OF pfab_wfD(1) [OF pfab_exactD(1) [OF ins(1)]], unfolded lowi, simplified]
  have len: "length (prio_evict prio ?ys) = length (buf s)"
    using length_prio_evict [of ?ys prio] ne' ins(2) by simp
  have wf': "pfab_wf contents (snd (pfab_drop K ?i))" by (rule pfab_drop_wf [OF pfab_exactD(1) [OF ins(1)]])
  have "filter (\<lambda>x. prio x = w) (prio_evict prio ?ys) = []"
  proof -
    let ?P = "\<lambda>x. prio x = w"
    have sz: "size (filter_mset ?P (mset xs)) = length (filter ?P xs)" for xs
      by (simp add: mset_filter [symmetric] del: mset_filter)
    have v: "prio (prio_victim prio ?ys) = w" using prio_victim_key [of ?ys prio] ne' ins(2) wys by simp
    have "add_mset (prio_victim prio ?ys) (mset (prio_evict prio ?ys)) = add_mset p (mset (buf s))"
      using mset_prio_evict [of ?ys prio] ne' ins(2) by (simp add: mset_prio_insert)
    from arg_cong [OF this, of "\<lambda>m. size (filter_mset ?P m)"]
    have "Suc (length (filter ?P (prio_evict prio ?ys))) = length (filter ?P (buf s))"
      using v urgent by (simp add: sz del: mset_filter)
    with single show ?thesis by simp
  qed
  then have none: "x \<in> set (buf (snd (pfab_drop K ?i))) \<Longrightarrow> prio x \<noteq> w" for x
    by (auto simp: ev(1) filter_empty_conv)
  then have "bands_of (snd (pfab_drop K ?i)) ! w = []"
    using marked_buffered [OF wf' w] by blast
  moreover have "q_qlen (sch (snd (pfab_drop K ?i))) = pd_limit (pfab_data s)"
    using ev(3) len full by (simp add: word_unat_eq_iff)
  ultimately show "stale_full contents w (snd (pfab_enqueue K skb s))"
    using wf' w max views_cong(3) [OF dr(8)] lowi dr(6) lim by (simp add: stale_full_def enq)
  show "length (buf (snd (pfab_enqueue K skb s))) = length (buf s)" by (simp add: enq ev(1) len)
  show "pd_limit (pfab_data (snd (pfab_enqueue K skb s))) = pd_limit (pfab_data s)"
    by (simp add: enq dr(6) lim)
qed

text \<open>Exactness after an enqueue: it is lost exactly when the victim was alone in its band.\<close>

lemma enqueue_exact_iff:
  fixes skb s
  defines "p \<equiv> classified skb" and "s' \<equiv> snd (pfab_enqueue K skb s)"
  assumes ex: "pfab_exact contents s" and room: "Suc (length (buf s)) < 2 ^ 32"
    and lens: "\<And>x. x \<in> insert p (set (buf s)) \<Longrightarrow> skb_pkt_len x < 2 ^ 31"
  shows "pfab_exact contents s' \<longleftrightarrow>
    (fst (pfab_enqueue K skb s) = NET_XMIT_CN \<longrightarrow>
     (\<exists>x\<in>set (buf s'). prio x = prio (prio_victim prio (prio_insert prio p (buf s)))))"
proof (cases rule: pfab_enqueue_cases [of skb s, folded p_def, case_names illegal outranked stored evicting])
  case (illegal t)
  then show ?thesis
    using ex pfab_exact_cong [of s' s contents]
    by (simp add: s'_def drop_arriving_frame NET_XMIT_DROP_def NET_XMIT_CN_def)
next
  case (outranked t)
  then show ?thesis
    using ex pfab_exact_cong [of s' s contents]
    by (simp add: s'_def drop_arriving_frame NET_XMIT_DROP_def NET_XMIT_CN_def)
next
  case (stored t)
  note t = exact_congD [OF ex stored(5,6)]
  show ?thesis
    using stored(4) insert_skb_exact(1) [OF t(1) stored(1), unfolded t(2), OF room]
    by (simp add: s'_def NET_XMIT_SUCCESS_def NET_XMIT_CN_def)
next
  case (evicting t)
  note t = exact_congD [OF ex evicting(5,6)]
  note ins = insert_skb_exact [OF t(1) evicting(1), unfolded t(2), OF room]
  let ?ys = "prio_insert prio p (buf s)"
  have ne: "buf (insert_skb K p t) \<noteq> []" using ins(2) by (simp add: prio_insert_def)
  note ev = pfab_drop_exact [OF ins(1) ne, unfolded ins(2)]
  have "prio_victim prio ?ys \<in> set ?ys"
    using prio_victim_in [of ?ys prio] ne ins(2) by simp
  then have "fst (pfab_enqueue K skb s) = NET_XMIT_CN"
    using evicting(4) ev(2) sint_small_nonneg lens by simp
  moreover have "s' = snd (pfab_drop K (insert_skb K p t))" by (simp add: s'_def evicting(4))
  moreover have "pfab_wf contents s'"
    unfolding s'_def by (rule pfab_enqueue_wf [OF pfab_exactD(1) [OF ex]])
  ultimately show ?thesis using ev by (simp add: pfab_exact_def)
qed

text \<open>Below its limit the discipline takes every packet of a legal band.\<close>

lemma enqueue_below_limit:
  fixes skb s
  defines "p \<equiv> classified skb" and "s' \<equiv> snd (pfab_enqueue K skb s)"
  assumes ex: "pfab_exact contents s" and p: "prio p < 32"
    and below: "length (buf s) < unat (pd_limit (pfab_data s))"
  shows "fst (pfab_enqueue K skb s) = NET_XMIT_SUCCESS" "pfab_exact contents s'"
    "buf s' = prio_insert prio p (buf s)" "pd_limit (pfab_data s') = pd_limit (pfab_data s)"
    "pd_disable_dequeue (pfab_data s') = pd_disable_dequeue (pfab_data s)"
proof -
  define t where "t = count_band (prio p) (snd (classify_skb skb s))"
  have td: "pfab_data t = pfab_data s" "sch t = sch s" by (simp_all add: t_def)
  note t = exact_congD [OF ex td]
  have room: "Suc (length (buf s)) < 2 ^ 32"
    using below unsigned_less [of "pd_limit (pfab_data s)", where ?'a = nat] by simp
  note ins = insert_skb_exact [OF t(1) p, unfolded t(2), OF room]
  note eff = insert_skb_effect [OF pfab_wfD(1) [OF pfab_exactD(1) [OF t(1)]] p]
  have "\<not> outranked p t" using outranked_exact [OF t(1)] t(2) td below by simp
  moreover have "\<not> pd_limit (pfab_data (insert_skb K p t)) < q_qlen (sch (insert_skb K p t))"
    using ins(3) below by (simp add: eff(5) td word_less_nat_alt)
  ultimately have enq: "pfab_enqueue K skb s = (NET_XMIT_SUCCESS, insert_skb K p t)"
    using pfab_enqueue_unfold [of skb s, folded p_def, folded t_def] p by simp
  then show "fst (pfab_enqueue K skb s) = NET_XMIT_SUCCESS" by simp
  show "pfab_exact contents s'" "buf s' = prio_insert prio p (buf s)"
    "pd_limit (pfab_data s') = pd_limit (pfab_data s)"
    "pd_disable_dequeue (pfab_data s') = pd_disable_dequeue (pfab_data s)"
    by (simp_all add: s'_def enq ins eff td)
qed

lemma enqueue_all_below:
  assumes "pfab_exact contents s" "\<And>skb. skb \<in> set skbs \<Longrightarrow> prio (classified skb) < 32"
    "length (buf s) + length skbs \<le> unat (pd_limit (pfab_data s))"
  shows "pfab_exact contents (enqueue_all K skbs s) \<and>
    buf (enqueue_all K skbs s) = fold (\<lambda>skb. prio_insert prio (classified skb)) skbs (buf s) \<and>
    pd_limit (pfab_data (enqueue_all K skbs s)) = pd_limit (pfab_data s) \<and>
    pd_disable_dequeue (pfab_data (enqueue_all K skbs s)) = pd_disable_dequeue (pfab_data s)"
  using assms
proof (induction skbs arbitrary: s)
  case (Cons skb skbs)
  have p: "prio (classified skb) < 32" "length (buf s) < unat (pd_limit (pfab_data s))"
    using Cons.prems by simp_all
  note e = enqueue_below_limit [OF Cons.prems(1) p]
  show ?case using Cons.IH [OF e(2)] Cons.prems(2,3) by (simp add: e)
qed simp

end

end
