(* ===== verification/Pfab_Tests.thy ===== *)
theory Pfab_Tests
  imports Sch_Pfab
begin

text \<open>
  The module's own test program (\<^verbatim>\<open>src/kernel/pfabric_tests.c\<close>) and the module entry points of
  \<^verbatim>\<open>src/kernel/sch_pfab.c\<close>. The kernel's allocator is the parameter \<open>A\<close>: the number of the
  request decides whether it succeeds. Each test passes the discipline and the number of
  requests made so far.
\<close>

record 'q test_state =
  t_sch :: "'q pfab"
  t_allocs :: nat

definition TEST_SKB_LEN :: u32 where "TEST_SKB_LEN = ETH_HEADER_LEN + IP_HEADER_LEN"

definition alloc_ip_skb :: "(nat \<Rightarrow> bool) \<Rightarrow> u8 \<Rightarrow> 'q test_state \<Rightarrow> sk_buff option \<times> 'q test_state" where
  "alloc_ip_skb A priority t =
     (if A (t_allocs t)
      then Some \<lparr>skb_id = t_allocs t, skb_len = TEST_SKB_LEN, skb_pkt_len = 0,
                 skb_priority = 0, skb_tos = priority\<rparr>
      else None, t\<lparr>t_allocs := t_allocs t + 1\<rparr>)"

definition disable_dequeue :: "int \<Rightarrow> 'q test_state \<Rightarrow> 'q test_state" where
  "disable_dequeue status t =
     t\<lparr>t_sch := (t_sch t)\<lparr>pfab_data := (pfab_data (t_sch t))\<lparr>pd_disable_dequeue := status\<rparr>\<rparr>\<rparr>"

definition set_limit :: "u32 \<Rightarrow> 'q test_state \<Rightarrow> 'q test_state" where
  "set_limit limit t =
     t\<lparr>t_sch := (t_sch t)\<lparr>pfab_data := (pfab_data (t_sch t))\<lparr>pd_limit := limit\<rparr>\<rparr>\<rparr>"

text \<open>The calls through the operations table.\<close>

definition test_enqueue :: "'q kernel \<Rightarrow> sk_buff \<Rightarrow> 'q test_state \<Rightarrow> int \<times> 'q test_state" where
  "test_enqueue K skb t = (let (rc, s) = pfab_enqueue K skb (t_sch t) in (rc, t\<lparr>t_sch := s\<rparr>))"

definition test_dequeue :: "'q kernel \<Rightarrow> 'q test_state \<Rightarrow> (sk_buff option \<times> 'q test_state) kresult" where
  "test_dequeue K t =
     (case pfab_dequeue K (t_sch t) of BUG \<Rightarrow> BUG | Done (r, s) \<Rightarrow> Done (r, t\<lparr>t_sch := s\<rparr>))"

definition enqueue_dequeue_test ::
  "'q kernel \<Rightarrow> (nat \<Rightarrow> bool) \<Rightarrow> 'q test_state \<Rightarrow> (int \<times> 'q test_state) kresult" where
  "enqueue_dequeue_test K A t0 =
     (case alloc_ip_skb A 0 t0 of
        (None, t1) \<Rightarrow> Done (-1, t1)
      | (Some skb, t1) \<Rightarrow>
          let (retval, t2) = test_enqueue K skb t1
          in if retval \<noteq> NET_XMIT_SUCCESS then Done (retval, t2)
             else case test_dequeue K (disable_dequeue 1 t2) of
                    BUG \<Rightarrow> BUG
                  | Done (Some _, t3) \<Rightarrow> Done (-3, t3)
                  | Done (None, t3) \<Rightarrow>
                      (case test_dequeue K (disable_dequeue 0 t3) of
                         BUG \<Rightarrow> BUG
                       | Done (None, t4) \<Rightarrow> Done (-2, t4)
                       | Done (Some _, t4) \<Rightarrow> Done (retval, t4)))"

text \<open>One step of \<^verbatim>\<open>drop_test\<close>: enqueue a packet and insist on a return code.\<close>

definition expect_enqueue ::
  "'q kernel \<Rightarrow> (nat \<Rightarrow> bool) \<Rightarrow> u8 \<Rightarrow> int \<Rightarrow> 'q test_state \<Rightarrow>
   ('q test_state \<Rightarrow> (int \<times> 'q test_state) kresult) \<Rightarrow> (int \<times> 'q test_state) kresult" where
  "expect_enqueue K A priority expected t0 k =
     (case alloc_ip_skb A priority t0 of
        (None, t1) \<Rightarrow> Done (-1, t1)
      | (Some skb, t1) \<Rightarrow>
          let (retval, t2) = test_enqueue K skb t1
          in if retval \<noteq> expected then Done (retval, t2) else k t2)"

definition drop_test :: "'q kernel \<Rightarrow> (nat \<Rightarrow> bool) \<Rightarrow> 'q test_state \<Rightarrow> (int \<times> 'q test_state) kresult" where
  "drop_test K A t0 =
     expect_enqueue K A 0 NET_XMIT_CN (disable_dequeue 1 (set_limit 0 t0)) (\<lambda>t1.
     expect_enqueue K A 1 NET_XMIT_SUCCESS (set_limit 1 t1) (\<lambda>t2.
     expect_enqueue K A 2 NET_XMIT_DROP t2 (\<lambda>t3.
     expect_enqueue K A 0 NET_XMIT_CN t3 (\<lambda>t4.
     case test_dequeue K (disable_dequeue 0 t4) of
       BUG \<Rightarrow> BUG
     | Done (None, t5) \<Rightarrow> Done (-2, t5)
     | Done (Some _, t5) \<Rightarrow> Done (0, t5)))))"

text \<open>
  \<^verbatim>\<open>setup\<close> asks the kernel for a device, one of its queues and a discipline; the parameter
  \<open>E\<close> says what the kernel answers. \<^verbatim>\<open>qdisc_create_dflt\<close> initialises the discipline without
  options and gives it up when the initialisation returns an error.
\<close>

record test_env =
  e_netdev :: "Qdisc option"   \<comment> \<open>a new discipline on the device named \<^verbatim>\<open>lo\<close>\<close>
  e_tx_queue :: bool

definition setup_tests ::
  "'q kernel \<Rightarrow> 'p proc_api \<Rightarrow> test_env \<Rightarrow> 'p proc_state \<Rightarrow> int \<times> 'q pfab option \<times> 'p proc_state" where
  "setup_tests K P E p =
     (case e_netdev E of
        None \<Rightarrow> (-1, None, p)
      | Some d \<Rightarrow>
          if \<not> e_tx_queue E then (-2, None, p)
          else let (rc, s, p1) = pfab_init K P None d p
               in if rc \<noteq> 0 then (-3, None, p1) else (0, Some s, p1))"

text \<open>
  \<^verbatim>\<open>teardown\<close> hands the discipline to the \<^verbatim>\<open>qdisc_destroy\<close> of the kernel, which calls the operations \<^verbatim>\<open>reset\<close> and
  \<^verbatim>\<open>destroy\<close> of the table.
\<close>

definition teardown ::
  "'q kernel \<Rightarrow> 'p proc_api \<Rightarrow> 'q pfab \<Rightarrow> 'p proc_state \<Rightarrow> 'q pfab \<times> 'p proc_state" where
  "teardown K P s p = pfab_destroy K P (pfab_reset K s) p"

definition run_tests ::
  "'q kernel \<Rightarrow> 'p proc_api \<Rightarrow> (nat \<Rightarrow> bool) \<Rightarrow> test_env \<Rightarrow> 'p proc_state \<Rightarrow>
   (int \<times> 'q pfab option \<times> 'p proc_state) kresult" where
  "run_tests K P A E p =
     (case setup_tests K P E p of
        (retval, None, p1) \<Rightarrow> Done (retval, None, p1)
      | (_, Some s, p1) \<Rightarrow>
          let finish = (\<lambda>rc t. let (s', p2) = teardown K P (t_sch t) p1 in Done (rc, Some s', p2))
          in case enqueue_dequeue_test K A \<lparr>t_sch = s, t_allocs = 0\<rparr> of
               BUG \<Rightarrow> BUG
             | Done (retval, t1) \<Rightarrow>
                 if retval < 0 then finish retval t1
                 else case drop_test K A t1 of
                        BUG \<Rightarrow> BUG
                      | Done (retval2, t2) \<Rightarrow> finish retval2 t2)"

section \<open>Loading and unloading the module\<close>

text \<open>
  \<^verbatim>\<open>register_qdisc\<close> is the kernel's; it returns a negative code when the identifier is
  taken. In the test build (\<open>tests = Some rc\<close>) the module runs its tests and refuses to stay.
\<close>

definition QDISC_ID :: string where "QDISC_ID = ''pfabric''"

definition pfab_module_init ::
  "(string \<Rightarrow> 'r \<Rightarrow> int \<times> 'r) \<Rightarrow> int option \<Rightarrow> 'r \<Rightarrow> int \<times> 'r" where
  "pfab_module_init register_qdisc tests r =
     (case tests of
        Some _ \<Rightarrow> (-1, r)
      | None \<Rightarrow> let (retval, r1) = register_qdisc QDISC_ID r
                in if retval < 0 then (retval, r1) else (0, r1))"

definition pfab_module_exit :: "(string \<Rightarrow> 'r \<Rightarrow> 'r) \<Rightarrow> 'r \<Rightarrow> 'r" where
  "pfab_module_exit unregister_qdisc r = unregister_qdisc QDISC_ID r"

end
