(* ===== verification/Pfab_Props.thy ===== *)
theory Pfab_Props
  imports Pfab_Steps Pfab_Tests
begin

text \<open>
  The properties of the queueing discipline, stated over its operations for any kernel helpers
  that satisfy the contract \<open>kernel_qdisc\<close>, with witnesses on the list instance.
\<close>

section \<open>Concrete states for the witnesses\<close>

text \<open>A packet of 100 bytes in a band, and a buffer made by enqueueing packets of given bands.\<close>

definition packet :: "nat \<Rightarrow> u8 \<Rightarrow> sk_buff" where
  "packet i tos = \<lparr>skb_id = i, skb_len = 100, skb_pkt_len = 114, skb_priority = 0, skb_tos = tos\<rparr>"

definition device :: Qdisc where
  "device = \<lparr>q_qlen = 0, qstats_backlog = 0, qstats_drops = 0, dev_name = ''eth0''\<rparr>"

definition small :: "u32 \<Rightarrow> sk_buff list pfab" where
  "small lim = \<lparr>sch = device, pfab_data = (fresh_sched_data list_kernel)\<lparr>pd_limit := lim\<rparr>,
                pfab_stats = fresh_stats\<rparr>"

definition filled :: "u32 \<Rightarrow> u8 list \<Rightarrow> sk_buff list pfab" where
  "filled lim toss = enqueue_all list_kernel (map2 packet [0..<length toss] toss) (small lim)"

lemma prio_packet: "tos < 32 \<Longrightarrow> prio (classified (packet i tos)) = unat tos"
  by (simp add: classified_def packet_def get_skb_priority_def ETH_HEADER_LEN_def IP_HEADER_LEN_def
      unsigned_ucast_eq take_bit_nat_eq_self word_less_nat_alt)

lemma small_exact: "pfab_exact id (small lim)"
  using list_kernel.fresh_exact [of device fresh_stats]
    pfab_exact_cong [of "small lim"
      "\<lparr>sch = device, pfab_data = fresh_sched_data list_kernel, pfab_stats = fresh_stats\<rparr>" id]
  by (simp add: small_def device_def)

lemma small_limit: "pd_limit (pfab_data (small lim)) = lim"
  by (simp add: small_def)

lemma small_buffered: "buffered id (small lim) = []"
  by (simp add: small_def buffered_def bands_def fresh_sched_data_def list_kernel_def)

lemma filled_exact:
  assumes "length toss \<le> unat lim" "list_all (\<lambda>t. t < 32) toss"
  shows "pfab_exact id (filled lim toss)"
    "buffered id (filled lim toss) =
       fold (\<lambda>skb. prio_insert prio (classified skb)) (map2 packet [0..<length toss] toss) []"
    "pd_limit (pfab_data (filled lim toss)) = lim"
    "pd_disable_dequeue (pfab_data (filled lim toss)) = 0"
proof -
  have p: "prio (classified skb) < 32" if sk: "skb \<in> set (map2 packet [0..<length toss] toss)" for skb
  proof -
    obtain i t where "skb = packet i t" "t \<in> set toss" using sk by (auto elim!: in_set_zipE)
    then show ?thesis using assms(2) by (simp add: prio_packet list_all_iff word_less_nat_alt)
  qed
  have l: "length (buffered id (small lim)) + length (map2 packet [0..<length toss] toss)
      \<le> unat (pd_limit (pfab_data (small lim)))"
    using assms(1) by (simp add: small_buffered, simp add: small_def)
  show "pfab_exact id (filled lim toss)"
    "buffered id (filled lim toss) =
       fold (\<lambda>skb. prio_insert prio (classified skb)) (map2 packet [0..<length toss] toss) []"
    "pd_limit (pfab_data (filled lim toss)) = lim"
    "pd_disable_dequeue (pfab_data (filled lim toss)) = 0"
    using list_kernel.enqueue_all_below [OF small_exact p l]
    by (simp_all add: filled_def small_buffered, simp_all add: small_def fresh_sched_data_def)
qed

text \<open>The buffer that most witnesses start from: limit two, one packet of band 1, one of band 5.\<close>

abbreviation demo :: "sk_buff list pfab" where "demo \<equiv> filled 2 [1, 5]"

lemma demo_exact:
  "pfab_exact id demo" "buffered id demo = [classified (packet 0 1), classified (packet 1 5)]"
  "pd_limit (pfab_data demo) = 2" "pd_disable_dequeue (pfab_data demo) = 0"
  by (simp_all add: filled_exact prio_insert_def prio_packet)

lemma packet_fields [simp]: "skb_id (packet i t) = i" "skb_pkt_len (packet i t) = 114"
  by (simp_all add: packet_def)

lemmas list_axioms = list_kernel.kernel_qdisc_axioms

section \<open>Enqueue and dequeue\<close>

text \<open>
  C1: In every state whose bitmap and length counter are exact, \<open>pfab_enqueue\<close> does what the
  specification of a strict-priority buffer with eviction says: the packet is classified by
  its TOS byte, refused when its band is illegal or when the full buffer holds nothing less
  urgent, and otherwise inserted behind the packets that are at least as urgent, the oldest
  least urgent packet leaving when the limit is exceeded; the return code says which happened.
\<close>

theorem enqueue_implements_spec:
  assumes "kernel_qdisc K contents" "pfab_exact contents s"
    "Suc (length (buffered contents s)) < 2 ^ 32"
    "\<forall>x\<in>insert (classified skb) (set (buffered contents s)). skb_pkt_len x < 2 ^ 31"
  shows "(fst (pfab_enqueue K skb s), buffered contents (snd (pfab_enqueue K skb s))) =
         spec_enqueue (unat (pd_limit (pfab_data s))) (classified skb) (buffered contents s)"
  using kernel_qdisc.enqueue_refines [OF assms(1-3)] assms(4) by blast

theorem enqueue_implements_spec_witness:
  "fst (pfab_enqueue list_kernel (packet 7 0) demo) = NET_XMIT_CN \<and>
   map skb_id (buffered id (snd (pfab_enqueue list_kernel (packet 7 0) demo))) = [7, 0]"
  using enqueue_implements_spec [OF list_axioms demo_exact(1), of "packet 7 0"]
  by (simp add: demo_exact spec_enqueue_def prio_packet prio_insert_def prio_evict_def worst_key_def)

text \<open>
  C2: From an exact state with dequeueing enabled, calling \<open>pfab_dequeue\<close> until it returns
  nothing hands out every packet of the buffer exactly once, in order of priority and in order
  of arrival within a priority.
\<close>

theorem drain_in_priority_order:
  assumes "kernel_qdisc K contents" "serving contents s" "length (buffered contents s) \<le> n"
  shows "drain_with (dequeue_next K) n s = buffered contents s \<and>
         sorted (map prio (drain_with (dequeue_next K) n s))"
  using kernel_qdisc.drain_serving [OF assms] by blast

theorem drain_in_priority_order_witness:
  "map skb_id (drain_with (dequeue_next list_kernel) 3 (filled 3 [5, 1, 5])) = [1, 0, 2]"
  using drain_in_priority_order [OF list_axioms, of "filled 3 [5, 1, 5]" 3]
  by (simp add: serving_def filled_exact prio_insert_def prio_packet)

text \<open>
  C3: In every state that the kernel can bring the discipline to, by any sequence of enqueue,
  dequeue, change and reset calls after a successful initialisation, \<open>pfab_dequeue\<close> does not
  reach its \<open>BUG_ON\<close>. It serves a packet exactly when dequeuing is enabled and the most urgent marked band
  is not empty; the packet is then the oldest one of the most urgent priority in the buffer, and the rest of the buffer
  stays as it is. Otherwise, also when packets wait behind a marked empty band, it returns nothing and the buffer stays as it is.
\<close>

theorem reachable_dequeue_strict_priority:
  assumes "kernel_qdisc K contents" "pfab_reachable K P s"
  shows "\<exists>s'. pfab_dequeue K s =
      Done (if head_ready contents s then Some (hd (buffered contents s)) else None, s') \<and>
    buffered contents s = (if head_ready contents s then [hd (buffered contents s)] else []) @ buffered contents s' \<and>
    (\<forall>x\<in>set (buffered contents s). prio (hd (buffered contents s)) \<le> prio x)"
proof -
  have wf: "pfab_wf contents s" using kernel_qdisc.reachable_inv [OF assms] by simp
  have srt: "sorted (map prio (buffered contents s))"
    unfolding buffered_def by (rule sorted_concat_banded [OF pfab_wfD(2) [OF wf]])
  have "buffered contents s \<noteq> []" if "head_ready contents s"
    using that pfab_wfD(6) [OF wf] by (force simp: head_ready_def buffered_def)
  then show ?thesis
    using kernel_qdisc.dequeue_outcome [OF assms(1) wf] srt by (cases "buffered contents s") auto
qed

text \<open>A state of the kernel's making, for the witnesses.\<close>

definition no_procs :: "string list proc_state" where
  "no_procs = \<lparr>proc_fs = [], stats_proc = False, csvstats_proc = False\<rparr>"

definition started :: "sk_buff list pfab" where
  "started = fst (snd (pfab_init list_kernel (list_procfs []) None device no_procs))"

lemma started_reachable: "pfab_reachable list_kernel (list_procfs []) started"
proof (rule pfab_reachable.created)
  show "pfab_init list_kernel (list_procfs []) None device no_procs =
    (0, started, snd (snd (pfab_init list_kernel (list_procfs []) None device no_procs)))"
    by (simp add: started_def pfab_init_def pfab_stats_init_def list_procfs_def Let_def)
qed (simp_all add: device_def)

lemma enqueue_all_reachable:
  "pfab_reachable K P s \<Longrightarrow> pfab_reachable K P (enqueue_all K skbs s)"
proof (induction skbs arbitrary: s)
  case (Cons skb skbs)
  have "pfab_step K s (Enqueue skb (fst (pfab_enqueue K skb s))) (snd (pfab_enqueue K skb s))"
    by (rule pfab_step.enqueue) simp
  then show ?case using Cons by (simp add: pfab_reachable.called)
qed simp

theorem reachable_dequeue_strict_priority_witness:
  "\<exists>s'. pfab_dequeue list_kernel (enqueue_all list_kernel [packet 0 5, packet 1 1] started) = Done (Some (classified (packet 1 1)), s')"
proof -
  let ?s = "enqueue_all list_kernel [packet 0 5, packet 1 1] started"
  have "head_ready id ?s" "hd (buffered id ?s) = classified (packet 1 1)" by code_simp+
  then show ?thesis
    using reachable_dequeue_strict_priority [OF list_axioms enqueue_all_reachable [OF started_reachable, of "[packet 0 5, packet 1 1]"]]
    by auto
qed

text \<open>
  C4: In every reachable state the backlog that the discipline reports is the number of bytes
  of the packets that it holds (modulo the width of the counter), every held packet is in the
  queue of its own band and that band is marked in the bitmap.
\<close>

theorem reachable_accounting:
  assumes "kernel_qdisc K contents" "pfab_reachable K P s"
  shows "qstats_backlog (sch s) = sum_list (map skb_pkt_len (buffered contents s)) \<and>
    (\<forall>x\<in>set (buffered contents s).
       prio x < NUM_BANDS \<and> x \<in> set (bands contents s ! prio x) \<and> sched_marked s (prio x))"
  using kernel_qdisc.reachable_inv [OF assms] buffered_in_band [of contents s] buffered_marked [of contents s]
  by (simp add: backlog_ok_def)

theorem reachable_accounting_witness:
  "qstats_backlog (sch (enqueue_all list_kernel [packet 0 5] started)) =
   sum_list (map skb_pkt_len (buffered id (enqueue_all list_kernel [packet 0 5] started)))"
  using reachable_accounting
    [OF list_axioms enqueue_all_reachable [OF started_reachable, of "[packet 0 5]"]] by simp

section \<open>The bitmap of occupied bands\<close>

text \<open>
  C5: The two searches over the bitmap find the extremes of the set of marked bands:
  \<open>bitmap_high_prio\<close> the smallest marked band, \<open>bitmap_low_prio\<close> the largest, and both -1
  exactly when no band is marked; marking and unmarking a band change that band alone and keep
  the copy in the statistics equal.
\<close>

theorem bitmap_tracks_bands:
  assumes "length (pd_bitmap (pfab_data s)) = BITMAP_SIZE" "b < NUM_BANDS"
    "ps_bitmap (pfab_stats s) = pd_bitmap (pfab_data s)"
  shows "bitmap_high_prio (pfab_data s) =
      (if \<forall>c. \<not> sched_marked s c then -1 else int (LEAST c. sched_marked s c)) \<and>
    bitmap_low_prio (pfab_data s) =
      (if \<forall>c. \<not> sched_marked s c then -1 else int (GREATEST c. sched_marked s c)) \<and>
    (\<forall>c. sched_marked (bitmap_add_band s b) c \<longleftrightarrow> c = b \<or> sched_marked s c) \<and>
    (\<forall>c. sched_marked (bitmap_remove_band s b) c \<longleftrightarrow> c \<noteq> b \<and> sched_marked s c) \<and>
    ps_bitmap (pfab_stats (bitmap_add_band s b)) = pd_bitmap (pfab_data (bitmap_add_band s b)) \<and>
    ps_bitmap (pfab_stats (bitmap_remove_band s b)) = pd_bitmap (pfab_data (bitmap_remove_band s b))"
proof -
  have wf: "sched_bitmap_wf s" using assms(1) by (simp add: sched_bitmap_wf_def bitmap_wf_def)
  have high: "bitmap_high_prio (pfab_data s) = int (LEAST c. sched_marked s c)"
    and low: "bitmap_low_prio (pfab_data s) = int (GREATEST c. sched_marked s c)"
    if m: "sched_marked s c" for c
  proof -
    show "bitmap_high_prio (pfab_data s) = int (LEAST c. sched_marked s c)"
      by (rule bitmap.first_eqI [OF wf LeastI [of "sched_marked s" c, OF m] Least_le])
    show "bitmap_low_prio (pfab_data s) = int (GREATEST c. sched_marked s c)"
      using bitmap.marked_bound [OF wf] GreatestI_nat [of "sched_marked s" c 32, OF m]
        Greatest_le_nat [of "sched_marked s" _ 32]
      by (intro bitmap.final_eqI [OF wf]) (simp_all add: less_imp_le)
  qed
  have none: "bitmap_high_prio (pfab_data s) = -1" "bitmap_low_prio (pfab_data s) = -1"
    if "\<forall>c. \<not> sched_marked s c"
    using that bitmap.first_none [OF wf] bitmap.final_none [OF wf] search_ge [of "pfab_data s"] by auto
  show ?thesis
    using high low none bitmap.marked_add [OF wf] bitmap.marked_remove [OF wf] assms(2,3)
    by (auto simp: bitmap_add_band_def bitmap_remove_band_def Let_def BAND_TO_BIT_AND_BMAP_def)
qed

theorem bitmap_tracks_bands_witness:
  "\<forall>c. sched_marked (bitmap_add_band started 7) c \<longleftrightarrow> c = 7 \<or> sched_marked started c"
  using bitmap_tracks_bands [of started 7]
  by (simp add: started_def pfab_init_def fresh_sched_data_def fresh_stats_def pfab_stats_init_def
      list_procfs_def Let_def)

section \<open>Eviction and the stale mark\<close>

text \<open>
  C7: An enqueue keeps the bitmap and the counters exact unless it evicts the last packet of
  its band: \<open>pfab_drop\<close> does not clear the band's bit, so exactness is lost precisely when the
  return code is \<open>NET_XMIT_CN\<close> and no packet of the victim's band is left.
\<close>

theorem exactness_lost_iff:
  assumes "kernel_qdisc K contents" "pfab_exact contents s"
    "Suc (length (buffered contents s)) < 2 ^ 32"
    "\<forall>x\<in>insert (classified skb) (set (buffered contents s)). skb_pkt_len x < 2 ^ 31"
  shows "pfab_exact contents (snd (pfab_enqueue K skb s)) \<longleftrightarrow>
    (fst (pfab_enqueue K skb s) = NET_XMIT_CN \<longrightarrow>
     (\<exists>x\<in>set (buffered contents (snd (pfab_enqueue K skb s))).
        prio x = prio (prio_victim prio (prio_insert prio (classified skb) (buffered contents s)))))"
  using kernel_qdisc.enqueue_exact_iff [OF assms(1-3)] assms(4) by blast

theorem exactness_lost_iff_witness:
  "\<not> pfab_exact id (snd (pfab_enqueue list_kernel (packet 7 0) demo))"
proof -
  have "fst (pfab_enqueue list_kernel (packet 7 0) demo) = NET_XMIT_CN"
    "map skb_priority (buffered id (snd (pfab_enqueue list_kernel (packet 7 0) demo))) = [0, 1]"
    by code_simp+
  note ev = this
  have "prio x \<noteq> 5" if "x \<in> set (buffered id (snd (pfab_enqueue list_kernel (packet 7 0) demo)))" for x
  proof -
    from that have "skb_priority x \<in>
        set (map skb_priority (buffered id (snd (pfab_enqueue list_kernel (packet 7 0) demo))))" by simp
    then show ?thesis unfolding ev(2) by auto
  qed
  then show ?thesis
    using exactness_lost_iff [OF list_axioms demo_exact(1), of "packet 7 0"] demo_exact(2) ev(1)
    by (simp add: prio_insert_def prio_packet prio_victim_def worst_key_def)
qed

text \<open>
  C8: The buffer limit is not enforced. When a full buffer holds a single packet of its least
  urgent band, the first more urgent arrival evicts it and leaves a stale mark, and from then
  on every further arrival that is more urgent than that band is added although the buffer is
  full: after \<open>n\<close> arrivals the discipline holds \<open>limit + n - 1\<close> packets while its length
  counter still says \<open>limit\<close>.
\<close>

theorem limit_not_enforced:
  assumes "kernel_qdisc K contents" "pfab_exact contents s" "buffered contents s \<noteq> []"
    "length (buffered contents s) = unat (pd_limit (pfab_data s))" "pd_limit (pfab_data s) \<noteq> - 1"
    "length (filter (\<lambda>x. prio x = worst_key prio (buffered contents s)) (buffered contents s)) = 1"
    "skbs \<noteq> []" "\<forall>skb\<in>set skbs. prio (classified skb) < worst_key prio (buffered contents s)"
  shows "length (buffered contents (enqueue_all K skbs s)) =
           unat (pd_limit (pfab_data s)) + (length skbs - 1) \<and>
         q_qlen (sch (enqueue_all K skbs s)) = pd_limit (pfab_data (enqueue_all K skbs s)) \<and>
         pd_limit (pfab_data (enqueue_all K skbs s)) = pd_limit (pfab_data s)"
proof (cases skbs)
  case (Cons skb rest)
  then have urgent: "prio (classified skb) < worst_key prio (buffered contents s)" using assms(8) by simp
  note first = kernel_qdisc.evict_last_of_band [OF assms(1,2,4,3,5) urgent assms(6)]
  have "\<And>x. x \<in> set rest \<Longrightarrow> prio (classified x) < worst_key prio (buffered contents s)"
    using Cons assms(8) by simp
  from kernel_qdisc.stale_full_run [OF assms(1) first(1) this] first(1)
  show ?thesis by (simp add: Cons first assms(4) stale_full_def)
qed (use assms(7) in simp)

theorem limit_not_enforced_witness:
  "length (buffered id (enqueue_all list_kernel [packet 7 0, packet 8 0, packet 9 0] demo)) = 4 \<and>
   q_qlen (sch (enqueue_all list_kernel [packet 7 0, packet 8 0, packet 9 0] demo)) = 2"
  using limit_not_enforced [OF list_axioms demo_exact(1), of "[packet 7 0, packet 8 0, packet 9 0]"]
  by (simp add: demo_exact prio_packet worst_key_def)

text \<open>
  C9: A stale mark starves traffic. Once the most urgent marked band \<open>b\<close> is empty, and as long
  as the packets that arrive are less urgent than \<open>b\<close>, every \<open>pfab_dequeue\<close> returns no packet,
  whatever the buffer holds.
\<close>

theorem stale_mark_starves:
  assumes "kernel_qdisc K contents" "stale_head contents b s" "starving_run K b s t"
  shows "\<exists>u. pfab_dequeue K t = Done (None, u) \<and> buffered contents u = buffered contents t"
proof -
  note st = kernel_qdisc.starving_run_stale [OF assms(1,3,2)]
  have wf: "pfab_wf contents t" using st by (simp add: stale_head_def)
  obtain r u where d: "pfab_dequeue K t = Done (r, u)"
    using kernel_qdisc.dequeue_no_BUG [OF assms(1) wf] by (cases "pfab_dequeue K t") auto
  have "bands contents u = bands contents t"
    using kernel_qdisc.stale_head_dequeue(1) [OF assms(1) st d]
    by (cases rule: kernel_qdisc.pfab_dequeue_doneE [OF assms(1) pfab_wfD(1) [OF wf] d]) simp_all
  then show ?thesis
    using d kernel_qdisc.stale_head_dequeue(1) [OF assms(1) st d] by (simp add: buffered_def)
qed

text \<open>
  A buffer of limit 1 with a packet of band 5 takes a packet of band 0, serves it, and has the
  mark of band 5 left; a packet of band 7 is then stuck.
\<close>

definition stuck :: "sk_buff list pfab" where
  "stuck = (case pfab_dequeue list_kernel (snd (pfab_enqueue list_kernel (packet 1 0) (filled 1 [5]))) of
              Done (_, s) \<Rightarrow> s | BUG \<Rightarrow> small 1)"

lemma stuck_stale: "stale_head id 5 stuck"
proof -
  let ?s = "snd (pfab_enqueue list_kernel (packet 1 0) (filled 1 [5]))"
  have wf: "pfab_wf id ?s"
    by (intro list_kernel.pfab_enqueue_wf pfab_exactD(1) filled_exact(1)) simp_all
  obtain r u where "pfab_dequeue list_kernel ?s = Done (r, u)"
    using list_kernel.dequeue_no_BUG [OF wf] by (cases "pfab_dequeue list_kernel ?s") auto
  then have "pfab_wf id stuck" using list_kernel.pfab_dequeue_wf [OF wf] by (simp add: stuck_def)
  moreover have "sched_high stuck = 5" "bands id stuck ! 5 = []"
    "pd_disable_dequeue (pfab_data stuck) = 0" by code_simp+
  ultimately show ?thesis by (simp add: stale_head_def)
qed

theorem stale_mark_starves_witness:
  "\<exists>u. pfab_dequeue list_kernel (snd (pfab_enqueue list_kernel (packet 2 7) stuck)) = Done (None, u) \<and>
       buffered id u = buffered id (snd (pfab_enqueue list_kernel (packet 2 7) stuck))"
proof -
  have "pfab_step list_kernel stuck (Enqueue (packet 2 7) (fst (pfab_enqueue list_kernel (packet 2 7) stuck)))
      (snd (pfab_enqueue list_kernel (packet 2 7) stuck))"
    by (rule pfab_step.enqueue) simp
  then have "starving_run list_kernel 5 stuck (snd (pfab_enqueue list_kernel (packet 2 7) stuck))"
    by (rule starving_run.arrive [OF starving_run.start]) (simp add: prio_packet)
  from stale_mark_starves [OF list_axioms stuck_stale this] show ?thesis .
qed

text \<open>
  C10: \<open>pfab_reset\<close> empties every queue and zeroes the counters, but it keeps the bitmap as it
  was: afterwards the bitmap is exact only if no band was marked before, and every mark that
  was there is now stale.
\<close>

theorem reset_keeps_marks:
  assumes "kernel_qdisc K contents" "pfab_wf contents s"
  shows "buffered contents (pfab_reset K s) = [] \<and> q_qlen (sch (pfab_reset K s)) = 0 \<and>
    qstats_backlog (sch (pfab_reset K s)) = 0 \<and>
    (\<forall>b. sched_marked (pfab_reset K s) b \<longleftrightarrow> sched_marked s b) \<and>
    (pfab_exact contents (pfab_reset K s) \<longleftrightarrow> (\<forall>b. \<not> sched_marked s b))"
proof -
  note eff = kernel_qdisc.pfab_reset_effect [OF assms(1), of s]
  have e: "buffered contents (pfab_reset K s) = []" by (simp add: buffered_def eff(1))
  have m: "sched_marked (pfab_reset K s) = sched_marked s" by (rule views_cong(1) [OF eff(2)])
  have "pfab_exact contents (pfab_reset K s) \<longleftrightarrow> no_stale_band contents (pfab_reset K s)"
    using kernel_qdisc.pfab_reset_wf [OF assms] by (simp add: pfab_exact_def e eff(5))
  also have "\<dots> \<longleftrightarrow> (\<forall>b. \<not> sched_marked s b)"
    using bitmap.marked_bound [OF pfab_wfD(4) [OF assms(2)]] pfab_wfD(5) [OF assms(2)]
    by (auto simp: no_stale_band_def m eff(1))
  finally show ?thesis using e eff(5,6) m by simp
qed

theorem reset_keeps_marks_witness:
  "buffered id (pfab_reset list_kernel demo) = [] \<and> sched_marked (pfab_reset list_kernel demo) 5"
  using reset_keeps_marks [OF list_axioms pfab_exactD(1) [OF demo_exact(1)]]
    buffered_marked [OF pfab_exactD(1) [OF demo_exact(1)], of "classified (packet 1 5)"]
  by (simp add: demo_exact prio_packet)

section \<open>Configuration, statistics and tests\<close>

text \<open>
  C11: \<open>pfab_change\<close> accepts exactly the attributes that start with an encoded option structure
  (four bytes of limit and four bytes of the dequeue switch, least significant byte first). It
  then installs these two values in the discipline and in the statistics and leaves the
  queues, the bitmap and the counters alone; any other attribute gives \<open>-EINVAL\<close> and changes
  nothing.
\<close>

theorem change_decodes_options:
  "pfab_change opt s = (rc, s') \<Longrightarrow>
   (rc = 0 \<and> (\<exists>limit (dis :: u32) rest. opt = Some (le_bytes 4 limit @ le_bytes 4 dis @ rest) \<and>
        pd_limit (pfab_data s') = limit \<and> ps_limit (pfab_stats s') = limit \<and>
        pd_disable_dequeue (pfab_data s') = sint dis \<and> ps_disable_dequeue (pfab_stats s') = sint dis \<and>
        pd_queues (pfab_data s') = pd_queues (pfab_data s) \<and>
        pd_bitmap (pfab_data s') = pd_bitmap (pfab_data s) \<and> sch s' = sch s)) \<or>
   (rc = - EINVAL \<and> s' = s \<and> (\<forall>bs. opt = Some bs \<longrightarrow> length bs < 8))"
proof -
  assume c: "pfab_change opt s = (rc, s')"
  show ?thesis
  proof (cases "\<exists>bs. opt = Some bs \<and> 8 \<le> length bs")
    case True
    then obtain bs where bs: "opt = Some bs" "8 \<le> length bs" by blast
    obtain limit :: u32 where l: "take 4 bs = le_bytes 4 limit"
      using bytes_4_exhaust [of "take 4 bs"] bs(2) by auto
    obtain dis :: u32 where d: "take 4 (drop 4 bs) = le_bytes 4 dis"
      using bytes_4_exhaust [of "take 4 (drop 4 bs)"] bs(2) by auto
    have "bs = take 4 bs @ take 4 (drop 4 bs) @ drop 4 (drop 4 bs)" by (metis append_take_drop_id)
    then have "opt = Some (le_bytes 4 limit @ le_bytes 4 dis @ drop 8 bs)" using bs(1) l d by simp
    then show ?thesis using c
      by (intro disjI1 conjI exI [of _ limit] exI [of _ dis] exI [of _ "drop 8 bs"])
         (auto simp: pfab_change_def sizeof_qopt_def read_qopt_def Let_def)
  next
    case False
    then show ?thesis using c by (auto simp: pfab_change_def sizeof_qopt_def split: option.splits)
  qed
qed

theorem change_decodes_options_witness:
  "pd_limit (pfab_data (snd (pfab_change (Some [44, 1, 0, 0, 0, 0, 0, 0]) started))) = 300"
proof -
  let ?bs = "[44, 1, 0, 0, 0, 0, 0, 0] :: u8 list"
  obtain limit dis :: u32 and rest where
    l: "?bs = le_bytes 4 limit @ le_bytes 4 dis @ rest" "pd_limit (pfab_data (snd (pfab_change (Some ?bs) started))) = limit"
    using change_decodes_options [of "Some ?bs" started, OF prod.collapse [symmetric]] by auto
  from arg_cong [OF l(1), of "take 4"] have "le_bytes 4 limit = [44, 1, 0, 0]" by simp
  then have "limit = of_le_bytes [44, 1, 0, 0]" by (metis of_le_bytes_le_bytes_4)
  then show ?thesis using l(2) by (simp)
qed

text \<open>What the proc files show is what the discipline uses.\<close>

definition stats_mirror :: "'q pfab \<Rightarrow> bool" where
  "stats_mirror s \<longleftrightarrow>
     ps_limit (pfab_stats s) = pd_limit (pfab_data s) \<and>
     ps_disable_dequeue (pfab_stats s) = pd_disable_dequeue (pfab_data s) \<and>
     ps_bitmap (pfab_stats s) = pd_bitmap (pfab_data s)"

lemma mirror_ops:
  assumes "stats_mirror s"
  shows "stats_mirror (insert_skb K skb s)" "stats_mirror (snd (pfab_drop K s))"
    "stats_mirror (snd (drop_arriving K skb s))" "stats_mirror (bitmap_remove_band s b)"
    "stats_mirror (count_band b s)" "stats_mirror (snd (classify_skb skb s))"
    "stats_mirror (s\<lparr>sch := d\<rparr>)" "stats_mirror (s\<lparr>pfab_data := set_band_list b q (pfab_data s)\<rparr>)"
    "stats_mirror (s\<lparr>pfab_stats := (pfab_stats s)\<lparr>ps_illegal_prio := n\<rparr>\<rparr>)"
  using assms
  by (simp_all add: stats_mirror_def insert_skb_def pfab_drop_def drop_arriving_def bitmap_add_band_def
      bitmap_remove_band_def set_band_list_def count_band_def classify_skb_def Let_def case_prod_beta)

lemma mirror_enqueue: "stats_mirror s \<Longrightarrow> stats_mirror (snd (pfab_enqueue K skb s))"
  by (simp add: pfab_enqueue_def Let_def case_prod_beta mirror_ops)

lemma mirror_dequeue:
  assumes "stats_mirror s" "pfab_dequeue K s = Done (r, s')" shows "stats_mirror s'"
proof -
  have "stats_mirror (s\<lparr>sch := d, pfab_data := set_band_list b q (pfab_data s)\<rparr>)" for d b q
    using assms(1) by (simp add: stats_mirror_def set_band_list_def)
  then show ?thesis using assms
    by (auto simp: pfab_dequeue_def Let_def mirror_ops split: if_splits option.splits prod.splits)
qed

text \<open>
  C12: The limit, the dequeue switch and the bitmap that the proc files report are those the
  discipline works with, and every call keeps it so, except a reset, which reports the
  default limit, the switch off and an empty bitmap whatever the discipline keeps using.
\<close>

theorem stats_mirror_step:
  assumes "pfab_step K s call s'" "stats_mirror s"
  shows "stats_mirror s' \<longleftrightarrow>
    (call = Reset \<longrightarrow> pd_limit (pfab_data s) = DEFAULT_LIMIT \<and>
       pd_disable_dequeue (pfab_data s) = 0 \<and> pd_bitmap (pfab_data s) = replicate BITMAP_SIZE 0)"
  using assms
proof cases
  case (enqueue skb rc)
  then show ?thesis using mirror_enqueue [OF assms(2), of K skb] by simp
next
  case (dequeue r)
  then show ?thesis using mirror_dequeue [OF assms(2)] by simp
next
  case (change opt rc)
  have "stats_mirror (snd (pfab_change opt s))"
    using assms(2) by (simp add: stats_mirror_def pfab_change_def Let_def split: option.split)
  with change show ?thesis by simp
next
  case reset
  then show ?thesis
    by (auto simp: stats_mirror_def pfab_reset_def fresh_stats_def Let_def case_prod_beta)
qed

theorem stats_mirror_step_witness:
  "\<not> stats_mirror (pfab_reset list_kernel (small 20 \<lparr>pfab_stats := fresh_stats\<lparr>ps_limit := 20\<rparr>\<rparr>))"
proof -
  let ?s = "small 20 \<lparr>pfab_stats := fresh_stats\<lparr>ps_limit := 20\<rparr>\<rparr>"
  have "stats_mirror ?s" by (simp add: stats_mirror_def small_def fresh_sched_data_def fresh_stats_def)
  from stats_mirror_step [OF pfab_step.reset this, of list_kernel] show ?thesis
    by (simp add: small_def DEFAULT_LIMIT_def)
qed

text \<open>
  \<open>pfab_stats_init\<close> creates both proc entries or reports 1, never a negative code. When the
  second entry cannot be created, the first one stays behind: the code removes the name that it
  has just failed to create. \<open>pfab_stats_exit\<close> undoes a complete initialisation on a system
  that has neither entry.
\<close>

theorem stats_init_entries:
  assumes "procfs P entries" "stats_proc_name dev \<noteq> csvstats_proc_name dev"
    "stats_proc_name dev \<notin> entries (proc_fs p)" "csvstats_proc_name dev \<notin> entries (proc_fs p)"
    "pfab_stats_init P dev p = (rc, p')"
  shows "(rc = 0 \<and> entries (proc_fs p') =
            {stats_proc_name dev, csvstats_proc_name dev} \<union> entries (proc_fs p) \<and>
          entries (proc_fs (pfab_stats_exit P dev p')) = entries (proc_fs p)) \<or>
         (rc = 1 \<and> \<not> stats_proc p' \<and> entries (proc_fs p') = entries (proc_fs p)) \<or>
         (rc = 1 \<and> stats_proc p' \<and> entries (proc_fs p') = insert (stats_proc_name dev) (entries (proc_fs p)))"
proof -
  let ?n = "stats_proc_name dev" and ?c = "csvstats_proc_name dev"
  obtain ok fs where 1: "p_create_proc_entry P ?n (proc_fs p) = (ok, fs)" by fastforce
  obtain ok2 fs2 where 2: "p_create_proc_entry P ?c fs = (ok2, fs2)" by fastforce
  note laws = procfs.create_ok [OF assms(1), of ?n "proc_fs p", unfolded 1]
    procfs.create_fails [OF assms(1), of ?n "proc_fs p", unfolded 1]
    procfs.create_ok [OF assms(1), of ?c fs, unfolded 2]
    procfs.create_fails [OF assms(1), of ?c fs, unfolded 2]
  show ?thesis
    using assms(2-5) laws 1 2 procfs.entries_remove [OF assms(1)]
    by (cases ok; cases ok2) (auto simp: pfab_stats_init_def pfab_stats_exit_def Let_def)
qed

theorem stats_init_entries_witness:
  "fst (pfab_stats_init (list_procfs [csvstats_proc_name ''eth0'']) ''eth0'' no_procs) = 1 \<and>
   set (proc_fs (snd (pfab_stats_init (list_procfs [csvstats_proc_name ''eth0'']) ''eth0'' no_procs))) =
     {stats_proc_name ''eth0''}"
proof -
  let ?P = "list_procfs [csvstats_proc_name ''eth0'']"
  have ne: "stats_proc_name ''eth0'' \<noteq> csvstats_proc_name ''eth0''"
    by (simp add: stats_proc_name_def csvstats_proc_name_def snprintf_def MAX_PROC_NAME_LEN_def)
  then have "fst (pfab_stats_init ?P ''eth0'' no_procs) = 1"
    "stats_proc (snd (pfab_stats_init ?P ''eth0'' no_procs))"
    by (simp_all add: pfab_stats_init_def list_procfs_def no_procs_def)
  then show ?thesis
    using stats_init_entries [OF list_procfs.procfs_axioms ne, of no_procs "[csvstats_proc_name ''eth0'']",
        OF _ _ prod.collapse [symmetric]]
    by (simp add: no_procs_def)
qed

text \<open>
  The module's test program passes on the model of the kernel's list helpers, removes its
  proc entries again, and yet ends with a band marked as occupied in an empty buffer: the
  tests do not see the stale mark.
\<close>

theorem unit_tests_pass_with_stale_mark:
  "\<exists>s p. run_tests list_kernel (list_procfs []) (\<lambda>_. True) \<lparr>e_netdev = Some device, e_tx_queue = True\<rparr> no_procs
           = Done (0, Some s, p) \<and>
         buffered id s = [] \<and> sched_marked s 1 \<and> proc_fs p = []"
proof -
  let ?r = "run_tests list_kernel (list_procfs []) (\<lambda>_. True) \<lparr>e_netdev = Some device, e_tx_queue = True\<rparr> no_procs"
  have "case ?r of Done (rc, Some s, p) \<Rightarrow> rc = 0 \<and> buffered id s = [] \<and> sched_marked s 1 \<and> proc_fs p = [] | _ \<Rightarrow> False"
    by code_simp
  then show ?thesis by (auto split: kresult.splits option.splits)
qed

text \<open>
  C13: Below its limit the discipline loses nothing: from an exact state, a sequence of packets
  of legal bands that fits under the limit is accepted packet by packet with
  \<open>NET_XMIT_SUCCESS\<close>, the state stays exact, and the buffer is the old one with the packets
  inserted by priority.
\<close>

theorem accepts_below_limit:
  assumes "kernel_qdisc K contents" "pfab_exact contents s" "\<forall>skb\<in>set skbs. prio (classified skb) < NUM_BANDS"
    "length (buffered contents s) + length skbs \<le> unat (pd_limit (pfab_data s))"
  shows "(\<forall>i<length skbs. fst (pfab_enqueue K (skbs ! i) (enqueue_all K (take i skbs) s)) = NET_XMIT_SUCCESS) \<and>
    pfab_exact contents (enqueue_all K skbs s) \<and>
    buffered contents (enqueue_all K skbs s) = fold (\<lambda>skb. prio_insert prio (classified skb)) skbs (buffered contents s)"
proof -
  have m: "length (fold (\<lambda>skb. prio_insert prio (classified skb)) xs ys) = length xs + length ys" for xs ys
    by (induction xs arbitrary: ys) (simp_all add: length_prio_insert)
  have below: "pfab_exact contents (enqueue_all K (take i skbs) s) \<and>
    buffered contents (enqueue_all K (take i skbs) s) =
       fold (\<lambda>skb. prio_insert prio (classified skb)) (take i skbs) (buffered contents s) \<and>
    pd_limit (pfab_data (enqueue_all K (take i skbs) s)) = pd_limit (pfab_data s)" for i
  proof -
    have "prio (classified x) < 32" if "x \<in> set (take i skbs)" for x using that assms(3) by (auto dest: in_set_takeD)
    moreover have "length (buffered contents s) + length (take i skbs) \<le> unat (pd_limit (pfab_data s))" using assms(4) by simp
    ultimately show ?thesis using kernel_qdisc.enqueue_all_below [OF assms(1,2)] by blast
  qed
  have "fst (pfab_enqueue K (skbs ! i) (enqueue_all K (take i skbs) s)) = NET_XMIT_SUCCESS" if "i < length skbs" for i
    using that below [of i] assms(3,4) by (intro kernel_qdisc.enqueue_below_limit(1) [OF assms(1)]) (auto simp: m)
  then show ?thesis using below [of "length skbs"] by simp
qed

theorem accepts_below_limit_witness:
  "fst (pfab_enqueue list_kernel (packet 4 0) (enqueue_all list_kernel [packet 3 9] (small 5))) = NET_XMIT_SUCCESS \<and>
   map skb_id (buffered id (enqueue_all list_kernel [packet 3 9, packet 4 0] (small 5))) = [4, 3]"
proof -
  have "2 \<le> unat (pd_limit (pfab_data (small 5)))" by (simp add: small_limit)
  then have *: "\<forall>i<length [packet 3 9, packet 4 0].
      fst (pfab_enqueue list_kernel ([packet 3 9, packet 4 0] ! i) (enqueue_all list_kernel (take i [packet 3 9, packet 4 0]) (small 5))) = NET_XMIT_SUCCESS"
    "buffered id (enqueue_all list_kernel [packet 3 9, packet 4 0] (small 5)) =
      fold (\<lambda>skb. prio_insert prio (classified skb)) [packet 3 9, packet 4 0] []"
    using accepts_below_limit [OF list_axioms small_exact, of "[packet 3 9, packet 4 0]" 5]
    by (simp_all add: prio_packet small_buffered)
  have "map skb_id (fold (\<lambda>skb. prio_insert prio (classified skb)) [packet 3 9, packet 4 0] []) = [4, 3]"
    by (simp add: prio_insert_def prio_packet)
  then show ?thesis using *(1) [rule_format, of 1] *(2) by simp
qed

end
