(* ===== verification/CStr.thy ===== *)
theory CStr
  imports CFormat
begin

text \<open>
  The string functions of the C library that the iproute2 sources use: \<^verbatim>\<open>strtol\<close> and its
  unsigned relatives on a machine with 64-bit \<^verbatim>\<open>long\<close>, \<^verbatim>\<open>strcasecmp\<close>, \<^verbatim>\<open>strchr\<close> and
  \<^verbatim>\<open>strtok\<close>. A string is the list of its characters before the terminating zero; a pointer
  into it is the list that remains from there on.
\<close>

section \<open>Numbers\<close>

definition isspace :: "char \<Rightarrow> bool" where
  "isspace c \<longleftrightarrow> c \<in> {CHR '' '', CHR 0x09, CHR 0x0A, CHR 0x0B, CHR 0x0C, CHR 0x0D}"

text \<open>The longest run of digits of a base, with its value.\<close>

fun scan_digits :: "nat \<Rightarrow> nat \<Rightarrow> string \<Rightarrow> nat \<times> string" where
  "scan_digits b acc [] = (acc, [])"
| "scan_digits b acc (c # cs) =
     (if digit_val c < b then scan_digits b (acc * b + digit_val c) cs else (acc, c # cs))"

fun starts_digit :: "nat \<Rightarrow> string \<Rightarrow> bool" where
  "starts_digit b [] = False"
| "starts_digit b (c # cs) = (digit_val c < b)"

fun scan_sign :: "string \<Rightarrow> bool \<times> string" where
  "scan_sign [] = (False, [])"
| "scan_sign (c # cs) =
     (if c = CHR ''-'' then (True, cs) else if c = CHR ''+'' then (False, cs) else (False, c # cs))"

text \<open>
  The base of a number and where its digits start: base 0 looks at the prefix, and the prefix
  \<^verbatim>\<open>0x\<close> counts only in front of a hexadecimal digit.
\<close>

definition scan_base :: "nat \<Rightarrow> string \<Rightarrow> nat \<times> string" where
  "scan_base base s =
     (case s of
        a # x # r \<Rightarrow>
          if (base = 0 \<or> base = 16) \<and> a = CHR ''0'' \<and> (x = CHR ''x'' \<or> x = CHR ''X'') \<and> starts_digit 16 r
          then (16, r)
          else if base = 0 then (if a = CHR ''0'' then 8 else 10, s) else (base, s)
      | a # _ \<Rightarrow> if base = 0 then (if a = CHR ''0'' then 8 else 10, s) else (base, s)
      | [] \<Rightarrow> (base, s))"

text \<open>Sign, magnitude and rest of the number at the start of a string, if there is one.\<close>

definition scan_number :: "nat \<Rightarrow> string \<Rightarrow> (bool \<times> nat \<times> string) option" where
  "scan_number base s =
     (let (neg, s1) = scan_sign (dropWhile isspace s);
          (b, s2) = scan_base base s1
      in if starts_digit b s2 then Some (neg, scan_digits b 0 s2) else None)"

text \<open>
  The conversions return the value and the end pointer, which is the argument itself when
  there is no number. Out of range they saturate; \<^verbatim>\<open>strtol\<close> also reports \<^verbatim>\<open>ERANGE\<close>. The
  unsigned conversions negate modulo the width.
\<close>

definition ULONG_MAX :: nat where "ULONG_MAX = 2 ^ 64 - 1"
definition LONG_MAX :: int where "LONG_MAX = 2 ^ 63 - 1"
definition LONG_MIN :: int where "LONG_MIN = - (2 ^ 63)"

definition strtoul :: "nat \<Rightarrow> string \<Rightarrow> u64 \<times> string" where
  "strtoul base s =
     (case scan_number base s of
        None \<Rightarrow> (0, s)
      | Some (neg, n, rest) \<Rightarrow>
          (if n > ULONG_MAX then - 1 else if neg then - of_nat n else of_nat n, rest))"

definition strtol :: "nat \<Rightarrow> string \<Rightarrow> int \<times> string \<times> bool" where
  "strtol base s =
     (case scan_number base s of
        None \<Rightarrow> (0, s, False)
      | Some (neg, n, rest) \<Rightarrow>
          let v = (if neg then - int n else int n)
          in if v > LONG_MAX then (LONG_MAX, rest, True)
             else if v < LONG_MIN then (LONG_MIN, rest, True)
             else (v, rest, False))"

section \<open>Comparison and search\<close>

definition to_lower :: "char \<Rightarrow> char" where
  "to_lower c = (let n = (of_char c :: nat) in if 65 \<le> n \<and> n \<le> 90 then char_of (n + 32) else c)"

text \<open>\<^verbatim>\<open>strcasecmp(a, b) == 0\<close>\<close>

definition strcaseeq :: "string \<Rightarrow> string \<Rightarrow> bool" where
  "strcaseeq a b \<longleftrightarrow> map to_lower a = map to_lower b"

text \<open>\<^verbatim>\<open>strchr\<close>: the string from the first occurrence of the character on.\<close>

definition strchr :: "string \<Rightarrow> char \<Rightarrow> string option" where
  "strchr s c = (let r = dropWhile (\<lambda>x. x \<noteq> c) s in if r = [] then None else Some r)"

text \<open>The characters before that occurrence: what is left when the source overwrites it with zero.\<close>

definition upto_chr :: "string \<Rightarrow> char \<Rightarrow> string" where
  "upto_chr s c = takeWhile (\<lambda>x. x \<noteq> c) s"

text \<open>The sign of \<^verbatim>\<open>strcmp\<close> and \<^verbatim>\<open>memcmp\<close>: characters are compared as unsigned bytes.\<close>

fun strcmp_sign :: "string \<Rightarrow> string \<Rightarrow> int" where
  "strcmp_sign [] [] = 0"
| "strcmp_sign [] (_ # _) = -1"
| "strcmp_sign (_ # _) [] = 1"
| "strcmp_sign (a # as) (b # bs) =
     (if a = b then strcmp_sign as bs else if (of_char a :: nat) < of_char b then -1 else 1)"

section \<open>Lemmas on scanning\<close>

lemma scan_digits_all:
  "list_all (\<lambda>c. digit_val c < b) s \<Longrightarrow> scan_digits b acc s = (digits_val b acc s, [])"
  by (induction s arbitrary: acc) simp_all

lemma scan_digits_suffix: "\<exists>ds. s = ds @ snd (scan_digits b acc s) \<and> list_all (\<lambda>c. digit_val c < b) ds"
proof (induction b acc s rule: scan_digits.induct)
  case (2 b acc c cs)
  show ?case
  proof (cases "digit_val c < b")
    case True
    with 2 obtain ds where "cs = ds @ snd (scan_digits b (acc * b + digit_val c) cs)"
      "list_all (\<lambda>c. digit_val c < b) ds" by blast
    with True show ?thesis by (intro exI [of _ "c # ds"]) simp
  qed simp
qed simp

lemma length_scan_digits: "length (snd (scan_digits b acc s)) \<le> length s"
  using scan_digits_suffix [of s b acc] by (metis le_add2 length_append)

lemma length_scan_digits_less:
  "starts_digit b s \<Longrightarrow> length (snd (scan_digits b acc s)) < length s"
  by (cases s) (simp_all add: length_scan_digits less_Suc_eq_le)

lemma length_scan_sign: "length (snd (scan_sign s)) \<le> length s"
  by (cases s) simp_all

lemma length_scan_base: "length (snd (scan_base b s)) \<le> length s"
  by (simp add: scan_base_def split: list.splits)

text \<open>A conversion consumes at least one character: the end pointer tells whether there was one.\<close>

lemma scan_number_shorter:
  assumes "scan_number base s = Some (neg, n, rest)" shows "length rest < length s"
proof -
  obtain b s2 where b: "scan_base base (snd (scan_sign (dropWhile isspace s))) = (b, s2)" by fastforce
  then have "starts_digit b s2" "rest = snd (scan_digits b 0 s2)"
    using assms by (auto simp: scan_number_def Let_def case_prod_beta split: if_splits)
  then have "length rest < length s2" using length_scan_digits_less by simp
  also have "length s2 \<le> length s"
    using length_scan_base [of base "snd (scan_sign (dropWhile isspace s))"] b
      length_scan_sign [of "dropWhile isspace s"] length_dropWhile_le [of isspace s] by simp
  finally show ?thesis .
qed

lemma scan_number_rest: "scan_number base s = Some (neg, n, rest) \<Longrightarrow> rest \<noteq> s"
  using scan_number_shorter by blast

lemma strtoul_end: "snd (strtoul base s) = s \<longleftrightarrow> scan_number base s = None"
  by (auto simp: strtoul_def scan_number_rest split: option.splits)

lemma strtol_end: "fst (snd (strtol base s)) = s \<longleftrightarrow> scan_number base s = None"
  by (auto simp: strtol_def Let_def scan_number_rest split: option.splits)

section \<open>Reading a printed number\<close>

lemma digit_char_val: "digit_char d = c \<Longrightarrow> d < 36 \<Longrightarrow> digit_val c = d"
  by auto

lemma digit_char_neq:
  assumes "d < 16"
  shows "\<not> isspace (digit_char d)" "digit_char d \<noteq> CHR ''-''" "digit_char d \<noteq> CHR ''+''"
    "digit_char d \<noteq> CHR ''x''" "digit_char d \<noteq> CHR ''X''" "digit_char d \<noteq> CHR ''.''"
    "digit_char d \<noteq> CHR '':''" "digit_char d \<noteq> CHR ''/''"
  using assms unfolding isspace_def
  by (auto dest!: digit_char_val simp: digit_val_def)

lemma digit_char_0: "digit_char 0 = CHR ''0''"
  by code_simp

lemma digit_char_eq_0: "d < 36 \<Longrightarrow> digit_char d = CHR ''0'' \<longleftrightarrow> d = 0"
  by (metis digit_val_digit_char digit_char_0 zero_less_numeral)

text \<open>A printed number starts with zero only when it is zero.\<close>

lemma fmt_base_hd:
  assumes "2 \<le> b" "b \<le> 36"
  shows "\<exists>d<b. hd (fmt_base b n) = digit_char d \<and> (d = 0 \<longrightarrow> n = 0)"
  using assms
proof (induction b n rule: fmt_base.induct)
  case (1 b n)
  show ?case
  proof (cases "n < b")
    case False
    then have "n div b \<noteq> 0" using "1.prems" by (simp add: div_eq_0_iff)
    moreover have "hd (fmt_base b n) = hd (fmt_base b (n div b))"
      using False "1.prems" by (subst fmt_base.simps) simp
    ultimately show ?thesis using 1 False by auto
  qed (auto simp: fmt_base_small)
qed

text \<open>Where a run of digits ends.\<close>

definition ends_number :: "string \<Rightarrow> bool" where
  "ends_number rest \<longleftrightarrow> rest = [] \<or> digit_val (hd rest) = 36"

lemma scan_digits_until:
  "list_all (\<lambda>c. digit_val c < b) s \<Longrightarrow> ends_number rest \<Longrightarrow> b \<le> 36 \<Longrightarrow>
   scan_digits b acc (s @ rest) = (digits_val b acc s, rest)"
proof (induction s arbitrary: acc)
  case Nil
  then show ?case by (cases rest) (simp_all add: ends_number_def)
qed simp

lemma scan_number_prefix:
  assumes "2 \<le> b" "b \<le> 16" "base = b \<or> (base = 0 \<and> b = 10)" "ends_number rest"
  shows "scan_number base (fmt_base b n @ rest) = Some (False, n, rest)"
proof -
  let ?s = "fmt_base b n"
  have b36: "b \<le> 36" using assms(2) by simp
  obtain c cs where s: "?s = c # cs" by (cases ?s) simp_all
  obtain d where d: "d < b" "c = digit_char d" "d = 0 \<longrightarrow> n = 0"
    using fmt_base_hd [OF assms(1) b36, of n] s by auto
  have d16: "d < 16" using d(1) assms(2) by simp
  have digits: "list_all (\<lambda>c. digit_val c < b) ?s"
    using fmt_base_digits [OF assms(1) b36] assms(2) by (fastforce simp: list_all_iff)
  have nox: "x \<noteq> CHR ''x'' \<and> x \<noteq> CHR ''X''" if "cs @ rest = x # xs" for x xs
  proof (cases cs)
    case Nil
    then have "digit_val x = 36" using assms(4) that by (simp add: ends_number_def)
    then show ?thesis by (auto simp: digit_val_def)
  next
    case (Cons y ys)
    then show ?thesis
      using fmt_base_digits [OF assms(1) b36, of x n] that s assms(2) digit_char_neq by fastforce
  qed
  have sb: "scan_base base (?s @ rest) = (b, ?s @ rest) \<or> n = 0 \<and> scan_base base (?s @ rest) = (8, ?s @ rest)"
    using assms(3) d nox by (auto simp: s scan_base_def digit_char_eq_0 d16 split: list.splits)
  have sgn: "scan_sign (dropWhile isspace (?s @ rest)) = (False, ?s @ rest)"
    using digit_char_neq [OF d16] by (simp add: s d(2))
  have zero: "n = 0 \<Longrightarrow> ?s = [CHR ''0'']" using assms(1) by (simp add: fmt_base_small digit_char_0)
  show ?thesis
    using sb
  proof
    assume "scan_base base (?s @ rest) = (b, ?s @ rest)"
    then show ?thesis
      using digits digits_val_fmt_base [OF assms(1) b36, of n] scan_digits_until [OF digits assms(4) b36, of 0]
      by (simp add: scan_number_def sgn, simp add: s)
  next
    assume "n = 0 \<and> scan_base base (?s @ rest) = (8, ?s @ rest)"
    then have n: "n = 0" and b8: "scan_base base (?s @ rest) = (8, ?s @ rest)" by blast+
    have "scan_digits 8 0 ([CHR ''0''] @ rest) = (0, rest)"
      using scan_digits_until [of 8 "[CHR ''0'']" rest 0] assms(4) by (simp add: digit_val_def)
    moreover from b8 have "scan_base base ([CHR ''0''] @ rest) = (8, [CHR ''0''] @ rest)" unfolding zero [OF n] .
    ultimately show ?thesis
      using sgn unfolding scan_number_def zero [OF n] by (simp add: digit_val_def n)
  qed
qed

lemma scan_number_fmt:
  assumes "2 \<le> b" "b \<le> 16" "base = b \<or> (base = 0 \<and> b = 10)"
  shows "scan_number base (fmt_base b n) = Some (False, n, [])"
  using scan_number_prefix [OF assms, of "[]" n] by (simp add: ends_number_def)

text \<open>A minus sign in front of a plain number.\<close>

lemma scan_number_minus:
  assumes "scan_number base s = Some (False, n, rest)" "s = c # cs" "digit_val c < 36"
  shows "scan_number base (CHR ''-'' # s) = Some (True, n, rest)"
proof -
  have c: "\<not> isspace c" "c \<noteq> CHR ''-''" "c \<noteq> CHR ''+''"
    using assms(3) by (auto simp: isspace_def digit_val_def)
  have "\<not> isspace (CHR ''-'')" by (simp add: isspace_def)
  with c assms(1,2) show ?thesis by (auto simp: scan_number_def Let_def case_prod_beta split: if_splits)
qed

lemma scan_number_minus_fmt:
  assumes "2 \<le> b" "b \<le> 16" "base = b \<or> (base = 0 \<and> b = 10)"
  shows "scan_number base (CHR ''-'' # fmt_base b n) = Some (True, n, [])"
proof -
  obtain c cs where s: "fmt_base b n = c # cs" by (cases "fmt_base b n") simp_all
  have "digit_val c < 36" using fmt_base_digits [OF assms(1), of c n] assms(2) s by auto
  from scan_number_minus [OF scan_number_fmt [OF assms] s this] show ?thesis .
qed

end
