(* ===== verification/Utils_Num.thy ===== *)
theory Utils_Num
  imports CStr
begin

text \<open>
  The number parsers of \<^verbatim>\<open>lib/utils.c\<close>. Each returns 0 and stores a value or returns -1; here
  \<open>Some\<close> the stored value or \<open>None\<close>. The two locales state what a parser of unsigned and of
  signed numbers accepts, in terms of the number that is written in the string; every parser
  of the source is an interpretation.
\<close>

section \<open>The parsers\<close>

definition INT_MAX :: int where "INT_MAX = 2 ^ 31 - 1"
definition INT_MIN :: int where "INT_MIN = - (2 ^ 31)"

definition get_integer :: "string \<Rightarrow> nat \<Rightarrow> int option" where
  "get_integer arg base =
     (if arg = [] then None
      else let (res, ptr, _) = strtol base arg
           in if ptr = arg \<or> ptr \<noteq> [] \<or> res > INT_MAX \<or> res < INT_MIN then None else Some res)"

definition get_unsigned :: "string \<Rightarrow> nat \<Rightarrow> u32 option" where
  "get_unsigned arg base =
     (if arg = [] then None
      else let (res, ptr) = strtoul base arg
           in if ptr = arg \<or> ptr \<noteq> [] \<or> res > 0xFFFFFFFF then None else Some (ucast res))"

definition get_u64 :: "string \<Rightarrow> nat \<Rightarrow> u64 option" where
  "get_u64 arg base =
     (if arg = [] then None
      else let (res, ptr) = strtoul base arg
           in if ptr = arg \<or> ptr \<noteq> [] \<or> res = 0xFFFFFFFF then None else Some res)"

definition get_u32 :: "string \<Rightarrow> nat \<Rightarrow> u32 option" where
  "get_u32 arg base =
     (if arg = [] then None
      else let (res, ptr) = strtoul base arg
           in if ptr = arg \<or> ptr \<noteq> [] \<or> res > 0xFFFFFFFF then None else Some (ucast res))"

definition get_u16 :: "string \<Rightarrow> nat \<Rightarrow> u16 option" where
  "get_u16 arg base =
     (if arg = [] then None
      else let (res, ptr) = strtoul base arg
           in if ptr = arg \<or> ptr \<noteq> [] \<or> res > 0xFFFF then None else Some (ucast res))"

definition get_u8 :: "string \<Rightarrow> nat \<Rightarrow> u8 option" where
  "get_u8 arg base =
     (if arg = [] then None
      else let (res, ptr) = strtoul base arg
           in if ptr = arg \<or> ptr \<noteq> [] \<or> res > 0xFF then None else Some (ucast res))"

definition get_s32 :: "string \<Rightarrow> nat \<Rightarrow> int option" where
  "get_s32 arg base =
     (if arg = [] then None
      else let (res, ptr, erange) = strtol base arg
           in if ptr = arg \<or> ptr \<noteq> [] \<or> (res = LONG_MIN \<or> res = LONG_MAX) \<and> erange \<or>
                 res > INT_MAX \<or> res < INT_MIN then None else Some res)"

definition get_s16 :: "string \<Rightarrow> nat \<Rightarrow> int option" where
  "get_s16 arg base =
     (if arg = [] then None
      else let (res, ptr, _) = strtol base arg
           in if ptr = arg \<or> ptr \<noteq> [] \<or> res > 0x7FFF \<or> res < - 0x8000 then None else Some res)"

definition get_s8 :: "string \<Rightarrow> nat \<Rightarrow> int option" where
  "get_s8 arg base =
     (if arg = [] then None
      else let (res, ptr, _) = strtol base arg
           in if ptr = arg \<or> ptr \<noteq> [] \<or> res > 0x7F \<or> res < - 0x80 then None else Some res)"

section \<open>What a parser of unsigned numbers accepts\<close>

text \<open>
  The number that \<^verbatim>\<open>strtoul\<close> makes of a string that is one number: a minus sign negates
  modulo the width of \<^verbatim>\<open>long\<close>.
\<close>

definition ulong_of :: "bool \<Rightarrow> nat \<Rightarrow> nat" where
  "ulong_of neg n =
     (if n > ULONG_MAX then ULONG_MAX else if neg \<and> 0 < n then 2 ^ 64 - n else n)"

definition whole_number :: "nat \<Rightarrow> string \<Rightarrow> (bool \<times> nat) option" where
  "whole_number base arg =
     (case scan_number base arg of Some (neg, n, []) \<Rightarrow> Some (neg, n) | _ \<Rightarrow> None)"

lemma strtoul_value:
  "scan_number base arg = Some (neg, n, rest) \<Longrightarrow> unat (fst (strtoul base arg)) = ulong_of neg n"
proof -
  assume s: "scan_number base arg = Some (neg, n, rest)"
  have "unat (- of_nat n :: u64) = 2 ^ 64 - n" if "0 < n" "n < 2 ^ 64"
  proof -
    have "(- of_nat n :: u64) = of_nat (2 ^ 64 - n)" using that by (simp add: of_nat_diff)
    then have "unat (- of_nat n :: u64) = unat (of_nat (2 ^ 64 - n) :: u64)" by (simp only:)
    also have "\<dots> = (2 ^ 64 - n) mod 2 ^ 64" by (simp only: unat_of_nat len_num1 len_bit0) simp
    finally show ?thesis using that by simp
  qed
  then show ?thesis
    using s by (auto simp: strtoul_def ulong_of_def ULONG_MAX_def unat_of_nat unsigned_minus_1_eq_mask
        mask_eq_exp_minus_1)
qed

locale uint_parser =
  fixes parse :: "string \<Rightarrow> nat \<Rightarrow> 'a::len word option" and width :: nat
  assumes width: "width = LENGTH('a)" "width < 64"
    and parse_iff: "parse arg base =
      (case whole_number base arg of
         None \<Rightarrow> None
       | Some (neg, n) \<Rightarrow> if ulong_of neg n < 2 ^ width then Some (of_nat (ulong_of neg n)) else None)"
begin

lemma parse_fits:
  assumes "parse arg base = Some v"
  obtains neg n where "whole_number base arg = Some (neg, n)" "unat v = ulong_of neg n"
    "ulong_of neg n < 2 ^ width"
  using assms width by (auto simp: parse_iff unat_of_nat split: option.splits if_splits)

text \<open>A number without sign is accepted exactly when it fits, and is not changed.\<close>

lemma parse_plain:
  assumes "whole_number base arg = Some (False, n)"
  shows "parse arg base = (if n < 2 ^ width then Some (of_nat n) else None)"
proof -
  have "(2::nat) ^ width \<le> 2 ^ 63" using width(2) by (intro power_increasing) simp_all
  then have "ulong_of False n < 2 ^ width \<longleftrightarrow> n < 2 ^ width" "n < 2 ^ width \<Longrightarrow> ulong_of False n = n"
    by (auto simp: ulong_of_def ULONG_MAX_def)
  then show ?thesis using assms by (simp add: parse_iff)
qed

text \<open>A negative number is accepted when it wraps around to a small one.\<close>

lemma parse_negative:
  assumes "whole_number base arg = Some (True, n)" "0 < n"
  shows "parse arg base =
    (if 2 ^ 64 - 2 ^ width < n \<and> n < 2 ^ 64 then Some (of_nat (2 ^ 64 - n)) else None)"
proof -
  have w: "(2::nat) ^ width \<le> 2 ^ 63" using width(2) by (intro power_increasing) simp_all
  have "ulong_of True n < 2 ^ width \<longleftrightarrow> 2 ^ 64 - 2 ^ width < n \<and> n < 2 ^ 64"
    using w assms(2) by (auto simp: ulong_of_def ULONG_MAX_def)
  moreover have "n < 2 ^ 64 \<Longrightarrow> ulong_of True n = 2 ^ 64 - n"
    using assms(2) by (simp add: ulong_of_def ULONG_MAX_def)
  ultimately show ?thesis using assms(1) by (simp add: parse_iff)
qed

lemma parse_printed:
  assumes "base = 0 \<or> base = 10" shows "parse (fmt_u v) base = Some v"
proof -
  have "scan_number base (fmt_base 10 (unat v)) = Some (False, unat v, [])"
    by (rule scan_number_fmt) (use assms in auto)
  then have "whole_number base (fmt_u v) = Some (False, unat v)"
    by (simp add: whole_number_def fmt_u_def)
  from parse_plain [OF this] show ?thesis using width(1) unsigned_less [of v, where ?'a = nat] by simp
qed

end

section \<open>What a parser of signed numbers accepts\<close>

definition signed_of :: "bool \<Rightarrow> nat \<Rightarrow> int" where
  "signed_of neg n = (if neg then - int n else int n)"

locale sint_parser =
  fixes parse :: "string \<Rightarrow> nat \<Rightarrow> int option" and lo hi :: int
  assumes range: "LONG_MIN < lo" "lo \<le> 0" "0 \<le> hi" "hi < LONG_MAX"
    and parse_iff: "parse arg base =
      (case whole_number base arg of
         None \<Rightarrow> None
       | Some (neg, n) \<Rightarrow>
           if lo \<le> signed_of neg n \<and> signed_of neg n \<le> hi then Some (signed_of neg n) else None)"
begin

lemma parse_bounds: "parse arg base = Some v \<Longrightarrow> lo \<le> v \<and> v \<le> hi"
  by (auto simp: parse_iff split: option.splits if_splits)

lemma parse_printed:
  assumes "base = 0 \<or> base = 10" "lo \<le> v" "v \<le> hi" shows "parse (fmt_d v) base = Some v"
proof -
  have n: "scan_number base (fmt_base 10 n) = Some (False, n, [])" for n
    by (rule scan_number_fmt) (use assms(1) in auto)
  have "whole_number base (fmt_d v) = Some (v < 0, nat \<bar>v\<bar>)"
    using n [of "nat v"] scan_number_minus_fmt [of 10 base "nat (- v)"] assms(1)
    by (auto simp: whole_number_def fmt_d_def)
  then show ?thesis using assms(2,3) by (auto simp: parse_iff signed_of_def)
qed

lemma parse_decimal: "parse (fmt_d v) 10 = (if lo \<le> v \<and> v \<le> hi then Some v else None)"
proof (cases "lo \<le> v \<and> v \<le> hi")
  case True
  then show ?thesis using parse_printed by simp
next
  case False
  have "whole_number 10 (fmt_d v) = Some (v < 0, nat \<bar>v\<bar>)"
    using scan_number_fmt [of 10 10 "nat v"] scan_number_minus_fmt [of 10 10 "nat (- v)"]
    by (auto simp: whole_number_def fmt_d_def)
  with False show ?thesis by (auto simp: parse_iff signed_of_def)
qed

end

section \<open>The interpretations\<close>

lemma unsigned_parse:
  assumes "unat (bound :: u64) = 2 ^ width - 1" "LENGTH('a::len) = width"
  shows "(if arg = [] then None
      else let (res, ptr) = strtoul base arg
           in if ptr = arg \<or> ptr \<noteq> [] \<or> res > bound then None else Some (ucast res :: 'a word)) =
    (case whole_number base arg of
         None \<Rightarrow> None
       | Some (neg, n) \<Rightarrow> if ulong_of neg n < 2 ^ width then Some (of_nat (ulong_of neg n)) else None)"
proof (cases "scan_number base arg")
  case None
  then show ?thesis using strtoul_end [of base arg] by (simp add: whole_number_def case_prod_beta)
next
  case (Some r)
  then obtain neg n rest where r: "scan_number base arg = Some (neg, n, rest)" by (cases r) auto
  have ends: "snd (strtoul base arg) = rest" "rest \<noteq> arg" "arg \<noteq> []"
    using r scan_number_rest [OF r] scan_number_shorter [OF r] by (auto simp: strtoul_def)
  have val: "unat (fst (strtoul base arg)) = ulong_of neg n" by (rule strtoul_value [OF r])
  have "fst (strtoul base arg) > bound \<longleftrightarrow> \<not> ulong_of neg n < 2 ^ width"
    unfolding word_less_nat_alt val assms(1) using zero_less_power [of "2::nat" width] by linarith
  moreover have "(ucast (fst (strtoul base arg)) :: 'a word) = of_nat (ulong_of neg n)"
    by (simp add: val [symmetric])
  ultimately show ?thesis
    using r ends by (simp add: whole_number_def case_prod_beta split: list.split)
qed

lemma signed_parse:
  assumes "LONG_MIN < lo" "hi < LONG_MAX"
  shows "(if arg = [] then None
      else let (res, ptr, e) = strtol base arg
           in if ptr = arg \<or> ptr \<noteq> [] \<or> res > hi \<or> res < lo then None else Some res) =
    (case whole_number base arg of
         None \<Rightarrow> None
       | Some (neg, n) \<Rightarrow>
           if lo \<le> signed_of neg n \<and> signed_of neg n \<le> hi then Some (signed_of neg n) else None)"
proof (cases "scan_number base arg")
  case None
  then show ?thesis using strtol_end [of base arg] by (simp add: whole_number_def case_prod_beta)
next
  case (Some r)
  then obtain neg n rest where r: "scan_number base arg = Some (neg, n, rest)" by (cases r) auto
  have ends: "fst (snd (strtol base arg)) = rest" "rest \<noteq> arg" "arg \<noteq> []"
    using r scan_number_rest [OF r] scan_number_shorter [OF r] by (auto simp: strtol_def Let_def)
  have "fst (strtol base arg) = max LONG_MIN (min LONG_MAX (signed_of neg n))"
    using r by (auto simp: strtol_def Let_def signed_of_def LONG_MIN_def LONG_MAX_def)
  then have "(fst (strtol base arg) > hi \<or> fst (strtol base arg) < lo) \<longleftrightarrow>
      \<not> (lo \<le> signed_of neg n \<and> signed_of neg n \<le> hi)"
    "lo \<le> signed_of neg n \<and> signed_of neg n \<le> hi \<Longrightarrow> fst (strtol base arg) = signed_of neg n"
    using assms by (auto simp: max_def min_def LONG_MIN_def LONG_MAX_def)
  then show ?thesis
    using r ends by (auto simp: whole_number_def case_prod_beta split: list.split)
qed

interpretation get_unsigned: uint_parser get_unsigned 32
  by unfold_locales (simp_all add: get_unsigned_def unsigned_parse [where 'a = 32])

interpretation get_u32: uint_parser get_u32 32
  by unfold_locales (simp_all add: get_u32_def unsigned_parse [where 'a = 32])

interpretation get_u16: uint_parser get_u16 16
  by unfold_locales (simp_all add: get_u16_def unsigned_parse [where 'a = 16])

interpretation get_u8: uint_parser get_u8 8
  by unfold_locales (simp_all add: get_u8_def unsigned_parse [where 'a = 8])

lemmas long_bounds = LONG_MIN_def LONG_MAX_def INT_MIN_def INT_MAX_def

interpretation get_integer: sint_parser get_integer INT_MIN INT_MAX
proof
  show "get_integer arg base = (case whole_number base arg of None \<Rightarrow> None | Some (neg, n) \<Rightarrow>
      if INT_MIN \<le> signed_of neg n \<and> signed_of neg n \<le> INT_MAX then Some (signed_of neg n) else None)" for arg base
    unfolding get_integer_def by (rule signed_parse) (simp_all add: long_bounds)
qed (simp_all add: long_bounds)

interpretation get_s16: sint_parser get_s16 "- 0x8000" "0x7FFF"
proof
  show "get_s16 arg base = (case whole_number base arg of None \<Rightarrow> None | Some (neg, n) \<Rightarrow>
      if - 0x8000 \<le> signed_of neg n \<and> signed_of neg n \<le> 0x7FFF then Some (signed_of neg n) else None)" for arg base
    unfolding get_s16_def by (rule signed_parse) (simp_all add: long_bounds)
qed (simp_all add: long_bounds)

interpretation get_s8: sint_parser get_s8 "- 0x80" "0x7F"
proof
  show "get_s8 arg base = (case whole_number base arg of None \<Rightarrow> None | Some (neg, n) \<Rightarrow>
      if - 0x80 \<le> signed_of neg n \<and> signed_of neg n \<le> 0x7F then Some (signed_of neg n) else None)" for arg base
    unfolding get_s8_def by (rule signed_parse) (simp_all add: long_bounds)
qed (simp_all add: long_bounds)

text \<open>The \<^verbatim>\<open>ERANGE\<close> test of \<^verbatim>\<open>get_s32\<close> is implied by its range test.\<close>

lemma get_s32_eq: "get_s32 = get_integer"
  by (intro ext) (auto simp: get_s32_def get_integer_def Let_def case_prod_beta long_bounds)

interpretation get_s32: sint_parser get_s32 INT_MIN INT_MAX
  unfolding get_s32_eq by (rule get_integer.sint_parser_axioms)

end
