(* ===== verification/Dnet_Ipx.thy ===== *)
theory Dnet_Ipx
  imports CStr
begin

unbundle bit_operations_syntax

text \<open>
  Textual DECnet and IPX addresses (\<^verbatim>\<open>lib/dnet_ntop.c\<close>, \<^verbatim>\<open>lib/dnet_pton.c\<close>,
  \<^verbatim>\<open>lib/ipx_ntop.c\<close>, \<^verbatim>\<open>lib/ipx_pton.c\<close>). The printers write into a buffer of \<open>len\<close> bytes and
  stop, without a terminating zero, when it is full: \<open>Inl\<close> is the text of a full buffer,
  \<open>Inr\<close> the text so far with the printer's state. The machine is little-endian.
\<close>

definition AF_UNSPEC :: nat where "AF_UNSPEC = 0"
definition AF_INET :: nat where "AF_INET = 2"
definition AF_IPX :: nat where "AF_IPX = 4"
definition AF_INET6 :: nat where "AF_INET6 = 10"
definition AF_DECnet :: nat where "AF_DECnet = 12"
definition AF_PACKET :: nat where "AF_PACKET = 17"

lemmas af_defs = AF_UNSPEC_def AF_INET_def AF_IPX_def AF_INET6_def AF_DECnet_def AF_PACKET_def

record dn_naddr =
  a_len :: u16
  a_addr :: "u8 list"

definition dn_ntohs :: "u16 \<Rightarrow> u16" where
  "dn_ntohs addr = (let byte = le_bytes 2 addr in ucast (byte ! 0) OR push_bit 8 (ucast (byte ! 1)))"

definition dn_htons :: "u16 \<Rightarrow> u16" where
  "dn_htons addr = (let byte = le_bytes 2 addr in ucast (byte ! 0) OR push_bit 8 (ucast (byte ! 1)))"

section \<open>Printing a DECnet address\<close>

text \<open>The state of the printer: text, rest of the number, whether a digit was printed.\<close>

type_synonym digit_state = "string \<times> u16 \<times> bool"

definition do_digit :: "nat \<Rightarrow> u16 \<Rightarrow> digit_state \<Rightarrow> string + digit_state" where
  "do_digit len scale st =
     (case st of (out, addr, started) \<Rightarrow>
        let tmp = addr div scale
        in if length out = len then Inl out
           else if tmp > 0 \<or> started \<or> scale = 1
           then Inr (out @ [char_of (unat tmp + 48)], addr - tmp * scale, True)
           else Inr (out, addr, started))"

fun do_digits :: "nat \<Rightarrow> u16 list \<Rightarrow> digit_state \<Rightarrow> string + digit_state" where
  "do_digits len [] st = Inr st"
| "do_digits len (s # ss) st =
     (case do_digit len s st of Inl out \<Rightarrow> Inl out | Inr st' \<Rightarrow> do_digits len ss st')"

text \<open>
  The result is the text in the buffer and whether it was terminated; \<open>None\<close> is the null
  pointer.
\<close>

definition dnet_ntop1 :: "dn_naddr \<Rightarrow> nat \<Rightarrow> (string \<times> bool) option" where
  "dnet_ntop1 dna len =
     (let addr = dn_ntohs (of_le_bytes (take 2 (a_addr dna)));
          area = drop_bit 10 addr
      in if a_len dna \<noteq> 2 then None
         else if len = 0 then Some ([], False)
         else Some (case do_digits len [10, 1] ([], area, False) of
                      Inl out \<Rightarrow> (out, False)
                    | Inr (out, _, _) \<Rightarrow>
                        if length out = len then (out, False)
                        else case do_digits len [1000, 100, 10, 1] (out @ ''.'', addr AND 0x03ff, False) of
                               Inl out2 \<Rightarrow> (out2, False)
                             | Inr (out2, _, _) \<Rightarrow> (out2, length out2 \<noteq> len)))"

definition dnet_ntop :: "nat \<Rightarrow> dn_naddr \<Rightarrow> nat \<Rightarrow> (string \<times> bool) option" where
  "dnet_ntop af addr len = (if af = AF_DECnet then dnet_ntop1 addr len else None)"

section \<open>Reading a DECnet address\<close>

text \<open>The number of digits read and their value modulo the width.\<close>

fun dnet_num :: "string \<Rightarrow> nat \<Rightarrow> u16 \<Rightarrow> nat \<times> u16" where
  "dnet_num [] rv dst = (rv, dst)"
| "dnet_num (c # src) rv dst =
     (let tmp = (of_char c :: nat)
      in if tmp < 48 \<or> tmp > 57 then (rv, dst)
         else dnet_num src (rv + 1) (dst * 10 + of_nat (tmp - 48)))"

definition dnet_pton1 :: "string \<Rightarrow> dn_naddr option" where
  "dnet_pton1 src =
     (let (pos, area) = dnet_num src 0 0
      in if pos = 0 \<or> area > 63 \<or> \<not> (pos < length src \<and> src ! pos = CHR ''.'') then None
         else let (pos2, node) = dnet_num (drop (pos + 1) src) 0 0
              in if pos2 = 0 \<or> node > 1023 then None
                 else Some \<lparr>a_len = 2, a_addr = le_bytes 2 (dn_htons (push_bit 10 area OR node))\<rparr>)"

text \<open>\<^verbatim>\<open>dnet_pton\<close> returns 1 on success, 0 for a malformed address, -1 for another family.\<close>

definition dnet_pton :: "nat \<Rightarrow> string \<Rightarrow> int \<times> dn_naddr option" where
  "dnet_pton af src =
     (if af = AF_DECnet
      then (case dnet_pton1 src of Some a \<Rightarrow> (1, Some a) | None \<Rightarrow> (0, None))
      else (-1, None))"

section \<open>IPX addresses\<close>

record ipx_addr =
  ipx_net :: u32          \<comment> \<open>in network byte order\<close>
  ipx_node :: "u8 list"

definition ntohl :: "u32 \<Rightarrow> u32" where "ntohl w = of_le_bytes (rev (le_bytes 4 w))"
definition htonl :: "u32 \<Rightarrow> u32" where "htonl w = of_le_bytes (rev (le_bytes 4 w))"
definition ntohs :: "u16 \<Rightarrow> u16" where "ntohs w = of_le_bytes (rev (le_bytes 2 w))"
definition htons :: "u16 \<Rightarrow> u16" where "htons w = of_le_bytes (rev (le_bytes 2 w))"

definition ipx_digit :: "nat \<Rightarrow> u32 \<Rightarrow> nat \<Rightarrow> string \<Rightarrow> string + string" where
  "ipx_digit len addr scale out =
     (let tmp = drop_bit (scale * 4) addr AND 0x0f
      in if length out = len then Inl out
         else Inr (out @ [if tmp > 9 then char_of (unat tmp + 65 - 10) else char_of (unat tmp + 48)]))"

fun ipx_digits :: "nat \<Rightarrow> (u32 \<times> nat) list \<Rightarrow> string \<Rightarrow> string + string" where
  "ipx_digits len [] out = Inr out"
| "ipx_digits len ((addr, scale) # ds) out =
     (case ipx_digit len addr scale out of Inl o1 \<Rightarrow> Inl o1 | Inr o1 \<Rightarrow> ipx_digits len ds o1)"

definition ipx_ntop1 :: "ipx_addr \<Rightarrow> nat \<Rightarrow> string \<times> bool" where
  "ipx_ntop1 addr len =
     (if len = 0 then ([], False)
      else case ipx_digits len (map (Pair (ntohl (ipx_net addr))) (rev [0..<8])) [] of
             Inl out \<Rightarrow> (out, False)
           | Inr out \<Rightarrow>
               if length out = len then (out, False)
               else case ipx_digits len (concat (map (\<lambda>b. [(ucast b, 1), (ucast b, 0)]) (ipx_node addr)))
                           (out @ ''.'') of
                      Inl out2 \<Rightarrow> (out2, False)
                    | Inr out2 \<Rightarrow> (out2, length out2 \<noteq> len))"

definition ipx_ntop :: "nat \<Rightarrow> ipx_addr \<Rightarrow> nat \<Rightarrow> (string \<times> bool) option" where
  "ipx_ntop af addr len = (if af = AF_IPX then Some (ipx_ntop1 addr len) else None)"

definition hexget :: "char \<Rightarrow> u32" where
  "hexget c =
     (let n = (of_char c :: nat)
      in if 65 \<le> n \<and> n \<le> 70 then of_nat (n - 65 + 10)
         else if 97 \<le> n \<and> n \<le> 102 then of_nat (n - 97 + 10)
         else if 48 \<le> n \<and> n \<le> 57 then of_nat (n - 48)
         else 0xf0)"

text \<open>At most eight digits up to the separator or the end of the string.\<close>

fun ipx_getnet :: "nat \<Rightarrow> u32 \<Rightarrow> string \<Rightarrow> u32 option" where
  "ipx_getnet k net [] = Some net"
| "ipx_getnet 0 net (c # str) = None"
| "ipx_getnet (Suc k) net (c # str) =
     (let tmp = hexget c
      in if tmp AND 0xf0 \<noteq> 0 then (if c = CHR ''.'' then Some net else None)
         else ipx_getnet k (push_bit 4 net OR tmp) str)"

text \<open>A character of the string, or its terminating zero; the source never reads beyond that.\<close>

definition char_at :: "string \<Rightarrow> nat \<Rightarrow> char" where
  "char_at s i = (if i < length s then s ! i else CHR 0x00)"

fun ipx_getnode :: "nat \<Rightarrow> u8 list \<Rightarrow> string \<Rightarrow> u8 list option" where
  "ipx_getnode 0 node str = Some node"
| "ipx_getnode (Suc k) node str =
     (let hi = hexget (char_at str 0); lo = hexget (char_at str 1)
      in if hi AND 0xf0 \<noteq> 0 then None
         else if lo AND 0xf0 \<noteq> 0 then None
         else let rest = drop 2 str
              in ipx_getnode k (node @ [push_bit 4 (ucast hi) OR ucast lo])
                   (if char_at rest 0 = CHR '':'' then drop 1 rest else rest))"

definition ipx_pton1 :: "string \<Rightarrow> ipx_addr option" where
  "ipx_pton1 src =
     (case ipx_getnet 8 0 src of
        None \<Rightarrow> None
      | Some net \<Rightarrow>
          (case strchr src (CHR ''.'') of
             None \<Rightarrow> Some \<lparr>ipx_net = htonl net, ipx_node = replicate 6 0\<rparr>
           | Some sep \<Rightarrow>
               (case ipx_getnode 6 [] (drop 1 sep) of
                  None \<Rightarrow> None
                | Some node \<Rightarrow> Some \<lparr>ipx_net = htonl net, ipx_node = node\<rparr>)))"

definition ipx_pton :: "nat \<Rightarrow> string \<Rightarrow> int \<times> ipx_addr option" where
  "ipx_pton af src =
     (if af = AF_IPX
      then (case ipx_pton1 src of Some a \<Rightarrow> (1, Some a) | None \<Rightarrow> (0, None))
      else (-1, None))"

section \<open>DECnet: what is printed can be read\<close>

lemma dn_swap_id: "dn_ntohs w = w" "dn_htons w = w"
proof -
  have "ucast (le_bytes 2 w ! 0) OR push_bit 8 (ucast (le_bytes 2 w ! 1)) = (of_le_bytes (le_bytes 2 w) :: u16)"
    by (simp add: le_bytes_def upt_rec numeral_2_eq_2)
  then show "dn_ntohs w = w" "dn_htons w = w" by (simp_all add: dn_ntohs_def dn_htons_def Let_def)
qed

lemma do_digit_Inr:
  assumes "length out < len" "unat a div unat s < 10"
  shows "do_digit len s (out, a, st) =
    Inr (if unat a div unat s > 0 \<or> st \<or> s = 1
         then (out @ [digit_char (unat a div unat s)], a mod s, True) else (out, a, st))"
  using assms by (simp add: do_digit_def Let_def word_greater_zero_iff unat_div word_less_nat_alt
      digit_char_def add.commute minus_div_mult_eq_mod)

lemma fmt_base_4:
  assumes "n < 10000"
  shows "fmt_base 10 n =
    (if 1000 \<le> n then [digit_char (n div 1000)] else []) @
    (if 100 \<le> n then [digit_char (n mod 1000 div 100)] else []) @
    (if 10 \<le> n then [digit_char (n mod 100 div 10)] else []) @ [digit_char (n mod 10)]"
proof -
  have r: "fmt_base 10 m = (if m < 10 then [digit_char m] else fmt_base 10 (m div 10) @ [digit_char (m mod 10)])" for m
    by (subst fmt_base.simps) simp
  have d: "n mod 1000 div 100 = n div 100 mod 10" using mod_mult2_eq [of n 100 10] by simp
  have d2: "n mod 100 div 10 = n div 10 mod 10" using mod_mult2_eq [of n 10 10] by simp
  have q: "n div 10 div 10 = n div 100" "n div 100 div 10 = n div 1000" by (simp_all add: div_mult2_eq [symmetric])
  consider "n < 10" | "10 \<le> n" "n < 100" | "100 \<le> n" "n < 1000" | "1000 \<le> n" by linarith
  then show ?thesis
  proof cases
    case 2
    then show ?thesis unfolding d d2 r [of n] r [of "n div 10"] by (simp add: less_mult_imp_div_less)
  next
    case 3
    then have "\<not> n div 10 < 10" "n div 100 < 10" "n div 100 mod 10 = n div 100" by auto
    then show ?thesis using 3 unfolding d d2 r [of n] r [of "n div 10"] q r [of "n div 100"] by simp
  next
    case 4
    then have "\<not> n div 10 < 10" "\<not> n div 100 < 10" "n div 1000 < 10" using assms by auto
    then show ?thesis using 4 unfolding d d2 r [of n] r [of "n div 10"] q r [of "n div 100"] r [of "n div 1000"] by simp
  qed (simp add: r)
qed

lemma do_digits_4:
  assumes "length out + 4 \<le> len" "unat a < 10000"
  shows "\<exists>r. do_digits len [1000, 100, 10, 1] (out, a, False) = Inr (out @ fmt_base 10 (unat a), r, True)"
  using assms
  by (simp add: do_digit_Inr unat_mod fmt_base_4 div_less_iff_less_mult div_greater_zero_iff mod_mod_cancel)

lemma do_digits_2:
  assumes "length out + 2 \<le> len" "unat a < 100"
  shows "\<exists>r. do_digits len [10, 1] (out, a, False) = Inr (out @ fmt_base 10 (unat a), r, True)"
  using assms
  by (simp add: do_digit_Inr unat_mod fmt_base_4 div_less_iff_less_mult div_greater_zero_iff mod_mod_cancel)

lemma dnet_num_digits:
  assumes "list_all (\<lambda>c. digit_val c < 10) ds" "rest = [] \<or> digit_val (hd rest) \<ge> 10"
  shows "dnet_num (ds @ rest) rv (of_nat acc) = (rv + length ds, of_nat (digits_val 10 acc ds))"
  using assms
proof (induction ds arbitrary: rv acc)
  case Nil
  then show ?case by (cases rest) (auto simp: digit_val_def Let_def split: if_splits)
next
  case (Cons c ds)
  have c: "48 \<le> (of_char c :: nat)" "(of_char c :: nat) \<le> 57" "digit_val c = of_char c - 48"
    using Cons.prems(1) by (auto simp: digit_val_def Let_def split: if_splits)
  have "(of_nat acc * 10 + of_nat (of_char c - 48) :: u16) = of_nat (acc * 10 + digit_val c)"
    by (simp only: c(3) of_nat_add of_nat_mult of_nat_numeral)
  then have "dnet_num ((c # ds) @ rest) rv (of_nat acc) =
      dnet_num (ds @ rest) (rv + 1) (of_nat (acc * 10 + digit_val c))"
    using c(1,2) by (simp only: append_Cons dnet_num.simps Let_def) simp
  then show ?case using Cons.IH [of "rv + 1" "acc * 10 + digit_val c"] Cons.prems by simp
qed

definition dnet_text :: "u16 \<Rightarrow> string" where
  "dnet_text w = fmt_base 10 (unat (drop_bit 10 w)) @ ''.'' @ fmt_base 10 (unat (w AND 0x03ff))"

lemma and_3ff: "(w::u16) AND 0x03ff = take_bit 10 w"
  by (simp add: take_bit_eq_mask mask_eq_exp_minus_1)

lemma area_bounds: "unat (drop_bit 10 (w::u16)) < 64" "unat (w AND (0x03ff::u16)) < 1024"
proof -
  have "unat w < 2 ^ 16" using unsigned_less [of w, where ?'a = nat] by simp
  then show "unat (drop_bit 10 (w::u16)) < 64"
    by (simp add: drop_bit_eq_div unat_div less_mult_imp_div_less)
  have "w AND 0x03ff = take_bit 10 w" by (rule and_3ff)
  then show "unat (w AND (0x03ff::u16)) < 1024"
    by (simp add: take_bit_eq_mod unat_mod)
qed

lemma length_fmt_base_10: "n < 100 \<Longrightarrow> length (fmt_base 10 n) \<le> 2" "n < 10000 \<Longrightarrow> length (fmt_base 10 n) \<le> 4"
  by (simp_all add: fmt_base_4)

lemma dnet_ntop_text:
  assumes "8 \<le> len"
  shows "dnet_ntop AF_DECnet \<lparr>a_len = 2, a_addr = le_bytes 2 w\<rparr> len = Some (dnet_text w, True)"
proof -
  let ?area = "drop_bit 10 w" and ?node = "w AND 0x03ff"
  have l: "length (fmt_base 10 (unat ?area)) \<le> 2" "length (fmt_base 10 (unat ?node)) \<le> 4"
    using area_bounds [of w] length_fmt_base_10 by simp_all
  obtain r where r: "do_digits len [10, 1] ([], ?area, False) = Inr (fmt_base 10 (unat ?area), r, True)"
    using do_digits_2 [of "[]" len ?area] assms area_bounds [of w] by auto
  obtain r2 where r2: "do_digits len [1000, 100, 10, 1] (fmt_base 10 (unat ?area) @ ''.'', ?node, False) =
      Inr (dnet_text w, r2, True)"
    using do_digits_4 [of "fmt_base 10 (unat ?area) @ ''.''" len ?node] assms l area_bounds [of w]
    by (auto simp: dnet_text_def simp del: do_digits.simps)
  have "length (dnet_text w) \<noteq> len" using l assms by (simp add: dnet_text_def)
  then show ?thesis
    using assms l(1)
    by (simp add: dnet_ntop_def dnet_ntop1_def dn_swap_id Let_def r r2 del: do_digits.simps)
qed

lemma dnet_pton_text: "dnet_pton AF_DECnet (dnet_text w) = (1, Some \<lparr>a_len = 2, a_addr = le_bytes 2 w\<rparr>)"
proof -
  let ?a = "unat (drop_bit 10 w)" and ?n = "unat (w AND 0x03ff)"
  let ?da = "fmt_base 10 ?a" and ?dn = "fmt_base 10 ?n"
  have digits: "list_all (\<lambda>c. digit_val c < 10) (fmt_base 10 k)" for k
    using fmt_base_digits [of 10] by (fastforce simp: list_all_iff)
  have v: "digits_val 10 0 (fmt_base 10 k) = k" for k by (rule digits_val_fmt_base) simp_all
  have 1: "dnet_num (dnet_text w) 0 0 = (length ?da, drop_bit 10 w)"
    using dnet_num_digits [OF digits, of "''.'' @ ?dn" ?a 0 0] v
    by (simp add: dnet_text_def digit_val_def)
  have 2: "dnet_num ?dn 0 0 = (length ?dn, w AND 0x03ff)"
    using dnet_num_digits [OF digits, of "[]" ?n 0 0] v by simp
  have "drop (length ?da + 1) (dnet_text w) = ?dn" "dnet_text w ! length ?da = CHR ''.''"
    "length ?da < length (dnet_text w)" by (simp_all add: dnet_text_def)
  moreover have "drop_bit 10 w \<le> 63" "w AND 0x03ff \<le> 1023"
    using area_bounds [of w] by (simp_all add: word_le_nat_alt)
  moreover have "push_bit 10 (drop_bit 10 w) OR (w AND 0x03ff) = w"
    unfolding and_3ff by (rule bit_word_eqI) (auto simp: bit_simps)
  ultimately show ?thesis
    using 1 2 by (simp add: dnet_pton_def dnet_pton1_def dn_swap_id linorder_not_less)
qed

section \<open>IPX: what is printed cannot be read\<close>

text \<open>Swapping the bytes of a word twice gives it back.\<close>

lemma swap_swap:
  "of_le_bytes (rev (le_bytes 4 (of_le_bytes (rev (le_bytes 4 w)) :: u32))) = (w :: u32)"
  "of_le_bytes (rev (le_bytes 2 (of_le_bytes (rev (le_bytes 2 v)) :: u16))) = (v :: u16)"
  using le_bytes_of_le_bytes [of "rev (le_bytes 4 w)", where 'a = 32]
    le_bytes_of_le_bytes [of "rev (le_bytes 2 v)", where 'a = 16] by simp_all

definition nibble_char :: "u32 \<Rightarrow> char" where
  "nibble_char tmp = (if tmp > 9 then char_of (unat tmp + 65 - 10) else char_of (unat tmp + 48))"

lemma hexget_nibble:
  assumes "tmp < 16"
  shows "hexget (nibble_char tmp) = tmp" "tmp AND 0xf0 = 0" "nibble_char tmp \<noteq> CHR ''.''"
proof -
  define n where "n = unat tmp"
  have tmp: "tmp = of_nat n" and n: "n < 16"
    using assms by (simp_all add: n_def word_less_nat_alt)
  have h: "hexget (nibble_char (of_nat n)) = of_nat n \<and> of_nat n AND (0xf0::u32) = 0 \<and> nibble_char (of_nat n) \<noteq> CHR ''.''"
    if "n \<in> set [0..<16]" for n
    using that by (simp add: upt_rec) (elim disjE; simp only:; code_simp)
  from h [of n] n show "hexget (nibble_char tmp) = tmp" "tmp AND 0xf0 = 0"
    "nibble_char tmp \<noteq> CHR ''.''" by (simp_all add: tmp)
qed

definition nibbles :: "nat \<Rightarrow> u32 \<Rightarrow> u32 list" where
  "nibbles k w = map (\<lambda>i. drop_bit (i * 4) w AND 0x0f) (rev [0..<k])"

lemma nibble_less: "(w::u32) AND 0x0f < 16"
  using word_and_le1 [of w 15] by (simp add: word_less_nat_alt word_le_nat_alt)

lemma nibbles_Suc: "nibbles (Suc k) w = (drop_bit (k * 4) w AND 0x0f) # nibbles k w"
  by (simp add: nibbles_def)

lemma foldl_nibbles:
  "foldl (\<lambda>n d. push_bit 4 n OR d) acc (nibbles k w) = push_bit (4 * k) acc OR take_bit (4 * k) w"
proof (induction k arbitrary: acc)
  case (Suc k)
  have f: "(w::u32) AND 0x0f = take_bit 4 w" for w by (simp add: take_bit_eq_mask mask_eq_exp_minus_1)
  show ?case unfolding nibbles_Suc foldl_Cons Suc.IH f
    by (rule bit_word_eqI) (auto simp: bit_simps mult.commute add.commute)
qed (simp add: nibbles_def)

lemma ipx_getnet_nibbles:
  assumes "\<And>d. d \<in> set ds \<Longrightarrow> d < 16"
  shows "ipx_getnet (length ds) net (map nibble_char ds) = Some (foldl (\<lambda>n d. push_bit 4 n OR d) net ds)"
    "ipx_getnet (length ds) net (map nibble_char ds @ c # r) = None"
  using assms by (induction ds arbitrary: net) (simp_all add: hexget_nibble Let_def)

lemma ipx_digits_text:
  assumes "length out + length ds \<le> len"
  shows "ipx_digits len ds out = Inr (out @ map (\<lambda>(a, s). nibble_char (drop_bit (s * 4) a AND 0x0f)) ds)"
  using assms
proof (induction ds arbitrary: out)
  case (Cons d ds)
  obtain a s where d: "d = (a, s)" by fastforce
  have "ipx_digit len a s out = Inr (out @ [nibble_char (drop_bit (s * 4) a AND 0x0f)])"
    using Cons.prems by (simp add: ipx_digit_def nibble_char_def Let_def)
  with Cons d show ?case by simp
qed simp

definition ipx_net_text :: "u32 \<Rightarrow> string" where
  "ipx_net_text w = map nibble_char (nibbles 8 (ntohl w))"

lemma ipx_ntop_text:
  assumes "22 \<le> len" "length (ipx_node a) = 6"
  shows "\<exists>node. ipx_ntop AF_IPX a len = Some (ipx_net_text (ipx_net a) @ CHR ''.'' # node, True)"
proof -
  let ?net = "map (Pair (ntohl (ipx_net a))) (rev [0..<8])"
  let ?node = "concat (map (\<lambda>b. [(ucast b, 1), (ucast b, 0)]) (ipx_node a)) :: (u32 \<times> nat) list"
  let ?t = "map (\<lambda>(a, s). nibble_char (drop_bit (s * 4) a AND 0x0f))"
  have ln: "length ?node = 12" using assms(2) by (simp add: length_concat comp_def sum_list_triv)
  have net: "?t ?net = ipx_net_text (ipx_net a)" by (simp add: ipx_net_text_def nibbles_def comp_def del: upt.simps)
  have 8: "length (ipx_net_text (ipx_net a)) = 8" by (simp add: ipx_net_text_def nibbles_def)
  have 1: "ipx_digits len ?net [] = Inr (ipx_net_text (ipx_net a))"
    using ipx_digits_text [of "[]" ?net len] assms(1) net by (simp del: upt.simps)
  have 2: "ipx_digits len ?node (ipx_net_text (ipx_net a) @ ''.'') =
      Inr (ipx_net_text (ipx_net a) @ ''.'' @ ?t ?node)"
    using ipx_digits_text [of "ipx_net_text (ipx_net a) @ ''.''" ?node len] assms(1) 8 ln by simp
  show ?thesis
    using assms(1) 8 ln 1 2 by (simp add: ipx_ntop_def ipx_ntop1_def del: upt.simps)
qed

text \<open>
  A DECnet address that is printed into a buffer of eight bytes or more is printed
  completely, with its terminating zero, and reading the text gives the address back.
\<close>

theorem dnet_text_roundtrip:
  assumes "8 \<le> len"
  shows "\<exists>text. dnet_ntop AF_DECnet \<lparr>a_len = 2, a_addr = le_bytes 2 (w :: u16)\<rparr> len = Some (text, True) \<and>
    dnet_pton AF_DECnet text = (1, Some \<lparr>a_len = 2, a_addr = le_bytes 2 w\<rparr>)"
  using dnet_ntop_text [OF assms] dnet_pton_text by blast

theorem dnet_text_roundtrip_witness:
  "\<exists>text. dnet_ntop AF_DECnet \<lparr>a_len = 2, a_addr = le_bytes 2 (1 :: u16)\<rparr> 64 = Some (text, True) \<and>
    dnet_pton AF_DECnet text = (1, Some \<lparr>a_len = 2, a_addr = le_bytes 2 (1 :: u16)\<rparr>)"
  by (rule dnet_text_roundtrip) simp

text \<open>
  An IPX address cannot be read back. \<open>ipx_ntop\<close> prints the network as eight digits
  followed by the node, and \<open>ipx_pton\<close> rejects every such text, because after eight digits it
  insists on the end of the string. The eight digits alone are read, as the network with a
  zero node.
\<close>

theorem ipx_text_not_read:
  assumes "22 \<le> len" "length (ipx_node a) = 6"
  shows "\<exists>text. ipx_ntop AF_IPX a len = Some (text, True) \<and> ipx_pton AF_IPX text = (0, None) \<and>
    ipx_pton AF_IPX (take 8 text) = (1, Some \<lparr>ipx_net = ipx_net a, ipx_node = replicate 6 0\<rparr>)"
proof -
  obtain node where t: "ipx_ntop AF_IPX a len = Some (ipx_net_text (ipx_net a) @ CHR ''.'' # node, True)"
    using ipx_ntop_text [OF assms] by blast
  let ?w = "ntohl (ipx_net a)"
  have less: "\<And>d. d \<in> set (nibbles 8 ?w) \<Longrightarrow> d < 16" by (auto simp: nibbles_def nibble_less)
  have 8: "length (nibbles 8 ?w) = 8" by (simp add: nibbles_def)
  note get = ipx_getnet_nibbles [of "nibbles 8 ?w", OF less, unfolded 8, folded ipx_net_text_def]
  have "foldl (\<lambda>n d. push_bit 4 n OR d) 0 (nibbles 8 ?w) = ?w"
    by (simp add: foldl_nibbles take_bit_word_eq_self)
  moreover have "strchr (ipx_net_text (ipx_net a)) (CHR ''.'') = None"
    using less hexget_nibble(3) by (fastforce simp: strchr_def Let_def ipx_net_text_def)
  moreover have "htonl ?w = ipx_net a" by (simp add: htonl_def ntohl_def swap_swap)
  moreover have "take 8 (ipx_net_text (ipx_net a) @ r) = ipx_net_text (ipx_net a)" for r
    by (simp add: ipx_net_text_def 8)
  ultimately show ?thesis using t get(1) [where net = 0] get(2) [where net = 0] by (simp add: ipx_pton_def ipx_pton1_def)
qed

theorem ipx_text_not_read_witness:
  "\<exists>text. ipx_ntop AF_IPX \<lparr>ipx_net = 1, ipx_node = [1, 2, 3, 4, 5, 6]\<rparr> 64 = Some (text, True) \<and>
     ipx_pton AF_IPX text = (0, None) \<and>
     ipx_pton AF_IPX (take 8 text) = (1, Some \<lparr>ipx_net = 1, ipx_node = replicate 6 0\<rparr>)"
  using ipx_text_not_read [of 64 "\<lparr>ipx_net = 1, ipx_node = [1, 2, 3, 4, 5, 6]\<rparr>"] by simp

end
