(* ===== verification/Utils_Addr.thy ===== *)
theory Utils_Addr
  imports Utils_Num Dnet_Ipx
begin

unbundle bit_operations_syntax

text \<open>
  Addresses, prefixes and netmasks of \<^verbatim>\<open>lib/utils.c\<close>. The 32 bytes of \<^verbatim>\<open>addr->data\<close> are a list
  of bytes, read as 32-bit words in the machine's (little-endian) order where the source does
  so. \<^verbatim>\<open>inet_pton\<close> for IPv6 is the parameter \<open>pton6\<close>: the sixteen bytes, or \<open>None\<close>.
\<close>

record inet_prefix =
  pfx_family :: u8
  pfx_bytelen :: u8
  pfx_bitlen :: int
  pfx_flags :: u32
  pfx_data :: "u8 list"

definition PREFIXLEN_SPECIFIED :: u32 where "PREFIXLEN_SPECIFIED = 1"

text \<open>\<^verbatim>\<open>memset(addr, 0, sizeof( *addr))\<close>\<close>

definition zero_prefix :: inet_prefix where
  "zero_prefix = \<lparr>pfx_family = 0, pfx_bytelen = 0, pfx_bitlen = 0, pfx_flags = 0,
                  pfx_data = replicate 32 0\<rparr>"

definition store_data :: "u8 list \<Rightarrow> inet_prefix \<Rightarrow> inet_prefix" where
  "store_data bs a = a\<lparr>pfx_data := bs @ drop (length bs) (pfx_data a)\<rparr>"

definition data_word :: "inet_prefix \<Rightarrow> nat \<Rightarrow> u32" where
  "data_word a i = of_le_bytes (take 4 (drop (4 * i) (pfx_data a)))"

text \<open>A call that may end the program: it returns, or it exits with a status.\<close>

datatype 'a cexit = Ret 'a | Exit int

section \<open>Netmasks\<close>

text \<open>The loop that shifts the mask to the left until it is zero.\<close>

function shift_count :: "u32 \<Rightarrow> nat" where
  "shift_count m = (if m = 0 then 0 else Suc (shift_count (push_bit 1 m)))"
  by pat_completeness auto

text \<open>The measure: one more than the number of places above the lowest one bit.\<close>

definition low_room :: "u32 \<Rightarrow> nat" where
  "low_room w = (if w = 0 then 0 else 32 - (LEAST i. bit w i))"

lemma least_bit:
  assumes "(w::u32) \<noteq> 0" shows "bit w (LEAST i. bit w i)" "(LEAST i. bit w i) < 32"
proof -
  obtain i where "bit w i" using assms by (auto simp: bit_eq_iff)
  then show 1: "bit w (LEAST i. bit w i)" by (rule LeastI)
  show "(LEAST i. bit w i) < 32" using bit_imp_le_length [OF 1] by simp
qed

lemma bit_push_1: "bit (push_bit 1 (w::u32)) i \<longleftrightarrow> 1 \<le> i \<and> i < 32 \<and> bit w (i - 1)"
  by (simp only: bit_push_bit_iff possible_bit_word) simp

lemma least_bit_push:
  assumes "push_bit 1 (w::u32) \<noteq> 0"
  shows "(LEAST i. bit (push_bit 1 w) i) = Suc (LEAST i. bit w i)"
proof (rule Least_equality)
  have w: "w \<noteq> 0" using assms by auto
  note m = least_bit(1) [OF assms, unfolded bit_push_1 [of w "LEAST i. bit (push_bit 1 w) i"]]
  then have "(LEAST i. bit w i) \<le> (LEAST i. bit (push_bit 1 w) i) - 1" by (simp add: Least_le)
  with m have "Suc (LEAST i. bit w i) < 32" by linarith
  then show "bit (push_bit 1 w) (Suc (LEAST i. bit w i))"
    unfolding bit_push_1 using least_bit(1) [OF w] by simp
  fix y assume "bit (push_bit 1 w) y"
  then have "1 \<le> y" "bit w (y - 1)" unfolding bit_push_1 by simp_all
  then show "Suc (LEAST i. bit w i) \<le> y" using Least_le [of "bit w" "y - 1"] by linarith
qed

termination shift_count
proof (relation "measure low_room")
  fix w :: u32 assume m: "w \<noteq> 0"
  show "(push_bit 1 w, w) \<in> measure low_room"
    using least_bit(2) [OF m] m least_bit_push [of w] least_bit(2) [of "push_bit 1 w"]
    by (auto simp: low_room_def simp del: push_bit_of_1)
qed simp

declare shift_count.simps [simp del]

definition mask2bits :: "u32 \<Rightarrow> int" where
  "mask2bits netmask =
     (let m = ntohl netmask; host = NOT m
      in if host AND (host + 1) \<noteq> 0 then -1 else int (shift_count m))"

section \<open>Addresses\<close>

text \<open>
  The loop over the four parts of a dotted quad; \<open>k\<close> parts may still follow. A shorter
  address leaves the remaining bytes zero.
\<close>

fun ipv4_parts :: "nat \<Rightarrow> u8 list \<Rightarrow> string \<Rightarrow> u8 list option" where
  "ipv4_parts 0 ap cp = Some ap"
| "ipv4_parts (Suc k) ap cp =
     (let (n, endp) = strtoul 0 cp
      in if n > 255 then None
         else if endp = cp then None
         else let ap' = ap @ [ucast n]
              in case endp of
                   [] \<Rightarrow> Some ap'
                 | c # rest \<Rightarrow> if k = 0 \<or> c \<noteq> CHR ''.'' then None else ipv4_parts k ap' rest)"

definition get_addr_ipv4 :: "string \<Rightarrow> u8 list option" where
  "get_addr_ipv4 cp = ipv4_parts 4 [] cp"

definition get_addr_1 :: "(string \<Rightarrow> u8 list option) \<Rightarrow> string \<Rightarrow> nat \<Rightarrow> inet_prefix option" where
  "get_addr_1 pton6 name family =
     (if name = ''default'' \<or> name = ''all'' \<or> name = ''any''
      then if family = AF_DECnet then None
           else Some (zero_prefix\<lparr>pfx_family := of_nat family,
                                  pfx_bytelen := (if family = AF_INET6 then 16 else 4), pfx_bitlen := -1\<rparr>)
      else if strchr name (CHR '':'') \<noteq> None
      then if family \<noteq> AF_UNSPEC \<and> family \<noteq> AF_INET6 then None
           else case pton6 name of
                  None \<Rightarrow> None
                | Some bs \<Rightarrow> Some (store_data bs zero_prefix
                    \<lparr>pfx_family := of_nat AF_INET6, pfx_bytelen := 16, pfx_bitlen := -1\<rparr>)
      else if family = AF_DECnet
      then case dnet_pton AF_DECnet name of
             (rc, Some dna) \<Rightarrow>
               if rc \<le> 0 then None
               else Some (store_data (take 2 (a_addr dna)) zero_prefix
                      \<lparr>pfx_family := of_nat AF_DECnet, pfx_bytelen := 2, pfx_bitlen := -1\<rparr>)
           | (rc, None) \<Rightarrow> None
      else if family \<noteq> AF_UNSPEC \<and> family \<noteq> AF_INET then None
      else case get_addr_ipv4 name of
             None \<Rightarrow> None
           | Some bs \<Rightarrow> Some (store_data bs zero_prefix
               \<lparr>pfx_family := of_nat AF_INET, pfx_bytelen := 4, pfx_bitlen := -1\<rparr>))"

definition get_netmask :: "(string \<Rightarrow> u8 list option) \<Rightarrow> string \<Rightarrow> nat \<Rightarrow> u32 option" where
  "get_netmask pton6 arg base =
     (case get_unsigned arg base of
        Some v \<Rightarrow> Some v
      | None \<Rightarrow>
          (case get_addr_1 pton6 arg AF_INET of
             None \<Rightarrow> None
           | Some addr \<Rightarrow>
               if pfx_family addr = of_nat AF_INET
               then let b = mask2bits (data_word addr 0) in if b \<ge> 0 then Some (of_int b) else None
               else None))"

definition family_bits :: "u8 \<Rightarrow> int" where
  "family_bits family =
     (if family = of_nat AF_INET6 then 128 else if family = of_nat AF_DECnet then 16 else 32)"

definition get_prefix_1 :: "(string \<Rightarrow> u8 list option) \<Rightarrow> string \<Rightarrow> nat \<Rightarrow> inet_prefix option" where
  "get_prefix_1 pton6 arg family =
     (if arg = ''default'' \<or> arg = ''any'' \<or> arg = ''all''
      then if family = AF_DECnet then None
           else Some (zero_prefix\<lparr>pfx_family := of_nat family, pfx_bytelen := 0, pfx_bitlen := 0\<rparr>)
      else case get_addr_1 pton6 (upto_chr arg (CHR ''/'')) family of
             None \<Rightarrow> None
           | Some dst \<Rightarrow>
               let dst1 = dst\<lparr>pfx_bitlen := family_bits (pfx_family dst)\<rparr>
               in case strchr arg (CHR ''/'') of
                    None \<Rightarrow> Some dst1
                  | Some slash \<Rightarrow>
                      (case get_netmask pton6 (tl slash) 0 of
                         None \<Rightarrow> None
                       | Some plen \<Rightarrow>
                           if uint plen > pfx_bitlen dst1 then None
                           else Some (dst1\<lparr>pfx_flags := pfx_flags dst1 OR PREFIXLEN_SPECIFIED,
                                           pfx_bitlen := uint plen\<rparr>)))"

definition get_addr :: "(string \<Rightarrow> u8 list option) \<Rightarrow> string \<Rightarrow> nat \<Rightarrow> inet_prefix cexit" where
  "get_addr pton6 arg family =
     (if family = AF_PACKET then Exit 1
      else case get_addr_1 pton6 arg family of None \<Rightarrow> Exit 1 | Some dst \<Rightarrow> Ret dst)"

definition get_prefix :: "(string \<Rightarrow> u8 list option) \<Rightarrow> string \<Rightarrow> nat \<Rightarrow> inet_prefix cexit" where
  "get_prefix pton6 arg family =
     (if family = AF_PACKET then Exit 1
      else case get_prefix_1 pton6 arg family of None \<Rightarrow> Exit 1 | Some dst \<Rightarrow> Ret dst)"

definition get_addr32 :: "(string \<Rightarrow> u8 list option) \<Rightarrow> string \<Rightarrow> u32 cexit" where
  "get_addr32 pton6 name =
     (case get_addr_1 pton6 name AF_INET of None \<Rightarrow> Exit 1 | Some addr \<Rightarrow> Ret (data_word addr 0))"

section \<open>Comparing prefixes\<close>

text \<open>The number of bits is not negative; a shift of the 32-bit constant by 32 does not occur.\<close>

definition inet_addr_match :: "inet_prefix \<Rightarrow> inet_prefix \<Rightarrow> nat \<Rightarrow> int" where
  "inet_addr_match a b bits0 =
     (let words = bits0 div 32; bits = bits0 mod 32
      in if words \<noteq> 0 \<and> take (words * 4) (pfx_data a) \<noteq> take (words * 4) (pfx_data b) then -1
         else if bits \<noteq> 0
         then let w1 = data_word a words; w2 = data_word b words;
                  m = htonl (push_bit (32 - bits) 0xffffffff)
              in if (w1 XOR w2) AND m \<noteq> 0 then 1 else 0
         else 0)"

section \<open>Netmasks are contiguous\<close>

text \<open>A number and its successor share no bit only if the number is one less than a power of two.\<close>

lemma and_successor_nat: "(n::nat) AND (n + 1) = 0 \<Longrightarrow> \<exists>k. n + 1 = 2 ^ k"
proof (induction n rule: less_induct)
  case (less n)
  show ?case
  proof (cases "even n")
    case True
    then obtain q where q: "n = 2 * q" by blast
    have "n AND (n + 1) = 2 * (q AND q)" by (subst and_rec) (simp add: q)
    with less.prems q have "n = 0" by simp
    then show ?thesis by (intro exI [of _ 0]) simp
  next
    case False
    then obtain q where q: "n = 2 * q + 1" by (elim oddE)
    have "n AND (n + 1) = 2 * (q AND (q + 1))" by (subst and_rec) (simp add: q)
    then obtain k where "q + 1 = 2 ^ k" using less.IH [of q] less.prems q by auto
    then show ?thesis using q by (intro exI [of _ "Suc k"]) simp
  qed
qed

lemma and_successor_word: "(h::u32) AND (h + 1) = 0 \<longleftrightarrow> (\<exists>k\<le>32. h = mask k)"
proof
  assume z: "h AND (h + 1) = 0"
  show "\<exists>k\<le>32. h = mask k"
  proof (cases "h = - 1")
    case True
    moreover have "(mask 32 :: u32) = - 1" by (rule bit_word_eqI) (simp add: bit_simps)
    ultimately show ?thesis by (intro exI [of _ 32]) simp
  next
    case False
    then have s: "unat (h + 1) = unat h + 1" using Suc_unat_less [of h] by (simp add: unat_Suc_no_wrap)
    have "unat (h AND (h + 1)) = unat h AND (unat h + 1)" by (simp add: unsigned_and_eq s)
    then obtain k where k: "unat h + 1 = 2 ^ k" using z and_successor_nat by auto
    have "unat h + 1 < 2 ^ 32" using s unsigned_less [of "h + 1", where ?'a = nat] by simp
    then have "k < 32" using k by (metis power_less_imp_less_exp one_less_numeral_iff semiring_norm(76))
    moreover have "h = mask k"
    proof -
      have "h + 1 = of_nat (unat h + 1)" by simp
      also have "\<dots> = 2 ^ k" unfolding k by simp
      finally show ?thesis by (simp add: mask_eq_exp_minus_1 eq_diff_eq)
    qed
    ultimately show ?thesis by (intro exI [of _ k]) simp
  qed
next
  assume "\<exists>k\<le>32. h = mask k"
  then obtain k where "h = mask k" by blast
  then have "h AND (h + 1) = mask k AND 2 ^ k" by (simp add: inc_mask_eq_exp)
  also have "\<dots> = (0::u32)" by (rule bit_word_eqI) (auto simp: bit_simps)
  finally show "h AND (h + 1) = 0" .
qed

lemma push_bit_1_zero:
  assumes "(w::u32) \<noteq> 0" "push_bit 1 w = 0" shows "(LEAST i. bit w i) = 31"
proof (rule ccontr)
  assume "(LEAST i. bit w i) \<noteq> 31"
  then have "bit (push_bit 1 w) (Suc (LEAST i. bit w i))"
    unfolding bit_push_1 using least_bit [OF assms(1)] by simp
  then show False unfolding assms(2) by simp
qed

lemma shift_count_low_room: "shift_count w = low_room w"
proof (induction w rule: shift_count.induct)
  case (1 w)
  show ?case
  proof (cases "w = 0")
    case False
    have "low_room w = Suc (low_room (push_bit 1 w))"
      using False least_bit(2) [OF False] least_bit_push [of w] least_bit(2) [of "push_bit 1 w"] push_bit_1_zero [OF False]
      by (auto simp: low_room_def simp del: push_bit_of_1)
    with 1 False show ?thesis by (subst shift_count.simps) simp
  qed (simp add: shift_count.simps low_room_def)
qed

text \<open>The netmask of a prefix length, in network byte order.\<close>

definition netmask_of :: "nat \<Rightarrow> u32" where
  "netmask_of n = htonl (NOT (mask (32 - n)))"

lemma ntohl_htonl [simp]: "ntohl (htonl w) = w" "htonl (ntohl w) = w"
  by (simp_all add: ntohl_def htonl_def swap_swap)

lemma shift_count_mask:
  assumes "k \<le> 32" shows "shift_count (NOT (mask k)) = 32 - k"
proof (cases "k = 32")
  case True
  have "(NOT (mask 32) :: u32) = 0" by (rule bit_word_eqI) (simp add: bit_simps)
  with True show ?thesis by (simp add: shift_count.simps)
next
  case False
  have b: "bit (NOT (mask k) :: u32) i \<longleftrightarrow> k \<le> i \<and> i < 32" for i by (auto simp: bit_simps)
  have "(LEAST i. bit (NOT (mask k) :: u32) i) = k"
    unfolding b using False assms by (intro Least_equality) simp_all
  moreover have "(NOT (mask k) :: u32) \<noteq> 0" using b [of k] False assms by auto
  ultimately show ?thesis by (simp add: shift_count_low_room low_room_def)
qed

lemma mask2bits_cases:
  "n \<le> 32 \<Longrightarrow> mask2bits (netmask_of n) = int n"
  "(\<And>n. n \<le> 32 \<Longrightarrow> m \<noteq> netmask_of n) \<Longrightarrow> mask2bits m = -1"
proof -
  assume n: "n \<le> 32"
  have "\<exists>k\<le>32. mask (32 - n) = (mask k :: u32)" by (intro exI [of _ "32 - n"]) simp
  then have "(mask (32 - n) :: u32) AND (mask (32 - n) + 1) = 0" by (simp only: and_successor_word)
  then show "mask2bits (netmask_of n) = int n"
    using shift_count_mask [of "32 - n"] n by (simp add: mask2bits_def netmask_of_def)
next
  assume none: "\<And>n. n \<le> 32 \<Longrightarrow> m \<noteq> netmask_of n"
  have "NOT (ntohl m) \<noteq> mask k" if "k \<le> 32" for k
  proof
    assume "NOT (ntohl m) = mask k"
    then have "m = htonl (NOT (mask k))" by (metis bit.double_compl ntohl_htonl(2))
    then show False using none [of "32 - k"] that by (simp add: netmask_of_def)
  qed
  then show "mask2bits m = -1" by (auto simp: mask2bits_def Let_def and_successor_word)
qed

section \<open>Dotted quads\<close>

fun quad_text :: "u8 list \<Rightarrow> string" where
  "quad_text [] = []"
| "quad_text [b] = fmt_u b"
| "quad_text (b # bs) = fmt_u b @ CHR ''.'' # quad_text bs"

lemma strtoul_fmt_u:
  assumes "ends_number rest"
  shows "strtoul 0 (fmt_u (v::u8) @ rest) = (ucast v, rest)"
proof -
  have n: "scan_number 0 (fmt_u v @ rest) = Some (False, unat v, rest)"
    unfolding fmt_u_def by (rule scan_number_prefix) (use assms in simp_all)
  have "unat v < 256" using unsigned_less [of v, where ?'a = nat] by simp
  then show ?thesis using n by (simp add: strtoul_def ULONG_MAX_def)
qed

lemma ends_dot: "ends_number (CHR ''.'' # r)" "ends_number []" "ends_number (CHR ''/'' # r)"
  by (simp_all add: ends_number_def digit_val_def)

lemma ipv4_part:
  fixes v :: u8
  shows "ipv4_parts (Suc k) ap (fmt_u v) = Some (ap @ [v])"
    "k \<noteq> 0 \<Longrightarrow> ipv4_parts (Suc k) ap (fmt_u v @ CHR ''.'' # r) = ipv4_parts k (ap @ [v]) r"
proof -
  have small: "\<not> (ucast v :: u64) > 255"
    using unsigned_less [of v, where ?'a = nat] by (simp add: word_less_nat_alt unsigned_ucast_eq take_bit_nat_eq_self)
  have narrow: "ucast (ucast v :: u64) = v" by (rule bit_word_eqI) (simp add: bit_simps)
  show "ipv4_parts (Suc k) ap (fmt_u v) = Some (ap @ [v])"
    using strtoul_fmt_u [OF ends_dot(2), of v] small narrow by (simp add: fmt_u_def fmt_base_ne [symmetric])
  show "k \<noteq> 0 \<Longrightarrow> ipv4_parts (Suc k) ap (fmt_u v @ CHR ''.'' # r) = ipv4_parts k (ap @ [v]) r"
    using strtoul_fmt_u [OF ends_dot(1), of v] small narrow by simp
qed

lemma ipv4_parts_quad:
  "bs \<noteq> [] \<Longrightarrow> length bs \<le> k \<Longrightarrow> ipv4_parts k ap (quad_text bs) = Some (ap @ bs)"
proof (induction bs arbitrary: k ap rule: quad_text.induct)
  case (2 b)
  then show ?case by (cases k) (simp_all only: ipv4_part quad_text.simps, simp_all)
next
  case (3 b c bs)
  then obtain j where "k = Suc j" "j \<noteq> 0" by (cases k) auto
  with 3 show ?case by (simp add: ipv4_part del: ipv4_parts.simps)
qed simp

text \<open>Texts of digits and dots are neither keywords nor IPv6 addresses nor prefixes.\<close>

lemma quad_text_chars:
  "c \<in> set (quad_text bs) \<Longrightarrow> c = CHR ''.'' \<or> digit_val c < 10"
proof (induction bs rule: quad_text.induct)
  case (2 b)
  then show ?case using fmt_base_digits [of 10 c "unat b"] by (auto simp: fmt_u_def)
next
  case (3 b b' bs)
  then show ?case using fmt_base_digits [of 10 c "unat b"] by (auto simp: fmt_u_def)
qed simp

lemma quad_text_plain:
  "CHR '':'' \<notin> set (quad_text bs)" "CHR ''/'' \<notin> set (quad_text bs)" "CHR ''a'' \<notin> set (quad_text bs)"
  using quad_text_chars [of "CHR '':''" bs] quad_text_chars [of "CHR ''/''" bs] quad_text_chars [of "CHR ''a''" bs]
  by (auto simp: digit_val_def)

lemma strchr_None: "c \<notin> set s \<Longrightarrow> strchr s c = None"
  by (auto simp: strchr_def Let_def)

lemma strchr_append: "c \<notin> set s \<Longrightarrow> strchr (s @ c # r) c = Some (c # r)"
  by (auto simp: strchr_def Let_def dropWhile_append)

lemma upto_chr_append: "c \<notin> set s \<Longrightarrow> upto_chr (s @ c # r) c = s" "c \<notin> set s \<Longrightarrow> upto_chr s c = s"
  by (auto simp: upto_chr_def takeWhile_append takeWhile_eq_all_conv)

lemma keyword_has_a: "name = ''default'' \<or> name = ''all'' \<or> name = ''any'' \<Longrightarrow> CHR ''a'' \<in> set name"
  by auto

lemma get_addr_1_quad:
  assumes "bs \<noteq> []" "length bs \<le> 4" "family = AF_UNSPEC \<or> family = AF_INET"
  shows "get_addr_1 pton6 (quad_text bs) family =
    Some (store_data bs zero_prefix \<lparr>pfx_family := of_nat AF_INET, pfx_bytelen := 4, pfx_bitlen := -1\<rparr>)"
proof -
  have k: "\<not> (quad_text bs = ''default'' \<or> quad_text bs = ''all'' \<or> quad_text bs = ''any'')"
    using quad_text_plain(3) [of bs] keyword_has_a by blast
  have "get_addr_ipv4 (quad_text bs) = Some bs"
    using ipv4_parts_quad [OF assms(1,2), of "[]"] by (simp add: get_addr_ipv4_def)
  then show ?thesis
    unfolding get_addr_1_def if_not_P [OF k] using assms(3) strchr_None [OF quad_text_plain(1)]
    by (auto simp: af_defs)
qed

text \<open>A netmask in dotted form is not a number, and is read through \<^verbatim>\<open>mask2bits\<close>.\<close>

lemma get_unsigned_dots:
  "get_unsigned (fmt_u (b::u8) @ CHR ''.'' # r) 0 = None"
proof -
  have "scan_number 0 (fmt_u b @ CHR ''.'' # r) = Some (False, unat b, CHR ''.'' # r)"
    unfolding fmt_u_def by (rule scan_number_prefix) (simp_all add: ends_dot)
  then have "whole_number 0 (fmt_u b @ CHR ''.'' # r) = None" by (simp add: whole_number_def)
  then show ?thesis by (simp add: get_unsigned.parse_iff)
qed

lemma get_netmask_quad:
  assumes "n \<le> 32"
  shows "get_netmask pton6 (quad_text (le_bytes 4 (netmask_of n))) 0 = Some (of_nat n)"
proof -
  let ?bs = "le_bytes 4 (netmask_of n)"
  obtain b c d e where bs: "?bs = [b, c, d, e]"
    by (simp add: le_bytes_def upt_rec numeral_eq_Suc)
  then have "get_unsigned (quad_text ?bs) 0 = None" by (simp add: get_unsigned_dots)
  moreover have "?bs \<noteq> []" "length ?bs \<le> 4" using bs by simp_all
  moreover have "data_word (store_data ?bs zero_prefix \<lparr>pfx_family := of_nat AF_INET, pfx_bytelen := 4, pfx_bitlen := -1\<rparr>) 0 =
      netmask_of n"
    by (simp add: data_word_def store_data_def)
  ultimately show ?thesis
    using mask2bits_cases(1) [OF assms] by (simp add: get_netmask_def get_addr_1_quad)
qed

text \<open>An address with a prefix length, written as a number or as a netmask.\<close>

lemma get_prefix_1_slash:
  assumes "bs \<noteq> []" "length bs \<le> 4" "family = AF_UNSPEC \<or> family = AF_INET"
  shows "get_prefix_1 pton6 (quad_text bs @ CHR ''/'' # plen) family =
    (case get_netmask pton6 plen 0 of
       None \<Rightarrow> None
     | Some n \<Rightarrow> if uint n > 32 then None
                 else Some (store_data bs zero_prefix \<lparr>pfx_family := of_nat AF_INET, pfx_bytelen := 4,
                              pfx_bitlen := uint n, pfx_flags := PREFIXLEN_SPECIFIED\<rparr>))"
proof -
  let ?arg = "quad_text bs @ CHR ''/'' # plen"
  have k: "\<not> (?arg = ''default'' \<or> ?arg = ''any'' \<or> ?arg = ''all'')"
  proof
    assume "?arg = ''default'' \<or> ?arg = ''any'' \<or> ?arg = ''all''"
    then have "CHR ''/'' \<in> set ''default'' \<or> CHR ''/'' \<in> set ''any'' \<or> CHR ''/'' \<in> set ''all''"
      by (metis in_set_conv_decomp)
    then show False by simp
  qed
  have p: "upto_chr ?arg (CHR ''/'') = quad_text bs" "strchr ?arg (CHR ''/'') = Some (CHR ''/'' # plen)"
    using quad_text_plain(2) [of bs] by (simp_all add: upto_chr_append strchr_append)
  show ?thesis
    unfolding get_prefix_1_def if_not_P [OF k] p get_addr_1_quad [OF assms]
    by (simp add: family_bits_def af_defs store_data_def zero_prefix_def split: option.split)
qed

section \<open>Prefix comparison is comparison of leading bits\<close>

text \<open>Bit \<open>i\<close> of an address, counted from the most significant bit of its first byte.\<close>

definition net_bit :: "u8 list \<Rightarrow> nat \<Rightarrow> bool" where
  "net_bit d i \<longleftrightarrow> bit (d ! (i div 8)) (7 - i mod 8)"

lemma byte_eq_bits: "(x::u8) = y \<longleftrightarrow> (\<forall>j<8. bit x (7 - j) = bit y (7 - j))"
proof
  assume h: "\<forall>j<8. bit x (7 - j) = bit y (7 - j)"
  show "x = y"
  proof (rule bit_word_eqI)
    fix n assume "n < LENGTH(8)"
    then show "bit x n = bit y n" using h [rule_format, of "7 - n"] by simp
  qed
qed simp

text \<open>Splitting a bit position into byte and bit.\<close>

lemma div_mod_8: "r < 8 \<Longrightarrow> (8 * q + r) div 8 = (q::nat)" "r < 8 \<Longrightarrow> (8 * q + r) mod 8 = r"
  by simp_all

lemma take_eq_bits:
  assumes "n \<le> length a" "length a = length b"
  shows "take n a = take n b \<longleftrightarrow> (\<forall>i<8 * n. net_bit a i = net_bit b i)"
proof -
  define N where "N i \<longleftrightarrow> net_bit a i = net_bit b i" for i
  have "take n a = take n b \<longleftrightarrow> (\<forall>p<n. a ! p = b ! p)"
    using assms by (auto simp: list_eq_iff_nth_eq)
  also have "\<dots> \<longleftrightarrow> (\<forall>p<n. \<forall>j<8. N (8 * p + j))"
    by (simp add: byte_eq_bits N_def net_bit_def)
  also have "\<dots> \<longleftrightarrow> (\<forall>i<8 * n. N i)"
  proof (intro iffI allI impI)
    fix i assume h: "\<forall>p<n. \<forall>j<8. N (8 * p + j)" and "i < 8 * n"
    then have "i div 8 < n" by (simp add: less_mult_imp_div_less mult.commute)
    then show "N i" using h [rule_format, of "i div 8" "i mod 8"] by simp
  qed simp
  finally show ?thesis by (simp only: N_def)
qed

lemma bit_data_word:
  assumes "k < 32" "4 * w + 4 \<le> length (pfx_data a)"
  shows "bit (data_word a w) k \<longleftrightarrow> net_bit (pfx_data a) (32 * w + (8 * (k div 8) + (7 - k mod 8)))"
proof -
  have r: "7 - k mod 8 < 8" "7 - (7 - k mod 8) = k mod 8" by simp_all
  have i: "32 * w + (8 * (k div 8) + (7 - k mod 8)) = 8 * (4 * w + k div 8) + (7 - k mod 8)" by simp
  have "k div 8 < 4" using assms(1) by (simp add: less_mult_imp_div_less)
  then show ?thesis
    unfolding i net_bit_def div_mod_8 [OF r(1)] r(2)
    using assms by (auto simp: data_word_def bit_of_le_bytes)
qed

lemma bit_htonl: "k < 32 \<Longrightarrow> bit (htonl w) k \<longleftrightarrow> bit w (8 * (3 - k div 8) + k mod 8)"
proof -
  assume k: "k < 32"
  then have "k div 8 < 4" by (simp add: less_mult_imp_div_less)
  with k show ?thesis
    by (simp add: htonl_def bit_of_le_bytes rev_nth bit_le_bytes_nth)
qed

lemma bit_match_mask:
  assumes "k < 32" "0 < n" "n < 32"
  shows "bit (htonl (push_bit (32 - n) 0xffffffff)) k \<longleftrightarrow> 8 * (k div 8) + (7 - k mod 8) < n"
proof -
  obtain q r where qr: "k div 8 = q" "k mod 8 = r" "q < 4" "r < 8"
    using assms(1) by (simp add: less_mult_imp_div_less)
  have e: "(0xffffffff :: u32) = - 1" by simp
  show ?thesis
    unfolding bit_htonl [OF assms(1)] e qr(1,2) using assms(2,3) qr(3,4)
    by (simp only: bit_push_bit_iff bit_minus_1_iff possible_bit_word) (simp, arith)
qed

lemma part_match_bits:
  assumes "length (pfx_data a) = 32" "length (pfx_data b) = 32" "w < 8" "0 < n" "n < 32"
  shows "(data_word a w XOR data_word b w) AND htonl (push_bit (32 - n) 0xffffffff) = 0 \<longleftrightarrow>
    (\<forall>j<n. net_bit (pfx_data a) (32 * w + j) = net_bit (pfx_data b) (32 * w + j))"
proof -
  define N where "N i \<longleftrightarrow> net_bit (pfx_data a) i = net_bit (pfx_data b) i" for i
  define m where "m = htonl (push_bit (32 - n) 0xffffffff)"
  define P where "P k = 8 * (k div 8) + (7 - k mod 8)" for k :: nat
  have m: "bit m k \<longleftrightarrow> P k < n" if "k < 32" for k
    unfolding m_def P_def by (rule bit_match_mask [OF that assms(4,5)])
  have d: "bit (data_word a w) k = bit (data_word b w) k \<longleftrightarrow> N (32 * w + P k)" if "k < 32" for k
    using bit_data_word [OF that, of w a] bit_data_word [OF that, of w b] assms(1-3)
    by (simp add: N_def P_def)
  have "(data_word a w XOR data_word b w) AND m = 0 \<longleftrightarrow>
      (\<forall>k<32. \<not> ((bit (data_word a w) k \<noteq> bit (data_word b w) k) \<and> bit m k))"
    using bit_imp_le_length [of m] by (auto simp: word_eq_0_iff_bits bit_and_iff bit_xor_iff)
  also have "\<dots> \<longleftrightarrow> (\<forall>k<32. P k < n \<longrightarrow> N (32 * w + P k))" using m d by auto
  also have "\<dots> \<longleftrightarrow> (\<forall>j<n. N (32 * w + j))"
  proof (intro iffI allI impI)
    fix j assume h: "\<forall>k<32. P k < n \<longrightarrow> N (32 * w + P k)" and j: "j < n"
    have r: "7 - j mod 8 < 8" by simp
    have "P (P j) = j" unfolding P_def div_mod_8 [OF r] by simp
    moreover have "j div 8 < 4" using j assms(5) by (simp add: less_mult_imp_div_less)
    then have "P j < 32" unfolding P_def by linarith
    ultimately show "N (32 * w + j)" using h j by metis
  qed simp
  finally show ?thesis by (simp only: N_def m_def)
qed

lemma inet_addr_match_bits:
  assumes "length (pfx_data a) = 32" "length (pfx_data b) = 32" "bits \<le> 256"
  shows "inet_addr_match a b bits = 0 \<longleftrightarrow> (\<forall>i<bits. net_bit (pfx_data a) i = net_bit (pfx_data b) i)"
proof -
  define N where "N i \<longleftrightarrow> net_bit (pfx_data a) i = net_bit (pfx_data b) i" for i
  let ?w = "bits div 32" and ?n = "bits mod 32"
  have whole: "take (?w * 4) (pfx_data a) = take (?w * 4) (pfx_data b) \<longleftrightarrow> (\<forall>i<32 * ?w. N i)"
    using take_eq_bits [of "?w * 4" "pfx_data a" "pfx_data b"] assms by (simp add: mult.commute N_def)
  have part: "(data_word a ?w XOR data_word b ?w) AND htonl (push_bit (32 - ?n) 0xffffffff) = 0 \<longleftrightarrow>
      (\<forall>j<?n. N (32 * ?w + j))" if "?n \<noteq> 0"
  proof -
    have "bits \<noteq> 256" using that by auto
    then have "?w < 8" using assms(3) by (simp add: less_mult_imp_div_less)
    then show ?thesis unfolding N_def using that by (intro part_match_bits assms(1,2)) simp_all
  qed
  have "(\<forall>i<bits. N i) \<longleftrightarrow> (\<forall>i<32 * ?w. N i) \<and> (\<forall>j<?n. N (32 * ?w + j))"
  proof (intro iffI conjI allI impI)
    fix i assume h: "(\<forall>i<32 * ?w. N i) \<and> (\<forall>j<?n. N (32 * ?w + j))" and i: "i < bits"
    show "N i"
    proof (cases "i < 32 * ?w")
      case False
      then have "i = 32 * ?w + (i - 32 * ?w)" "i - 32 * ?w < ?n"
        using i mult_div_mod_eq [of 32 bits] by linarith+
      then show ?thesis using h by metis
    qed (use h in simp)
  next
    fix j assume h: "\<forall>i<bits. N i" and "j < ?n"
    then have "32 * ?w + j < bits" using mult_div_mod_eq [of 32 bits] by linarith
    then show "N (32 * ?w + j)" using h by simp
  qed auto
  moreover have "inet_addr_match a b bits = 0 \<longleftrightarrow>
      (?w = 0 \<or> take (?w * 4) (pfx_data a) = take (?w * 4) (pfx_data b)) \<and>
      (?n = 0 \<or> (data_word a ?w XOR data_word b ?w) AND htonl (push_bit (32 - ?n) 0xffffffff) = 0)"
    unfolding inet_addr_match_def Let_def by (simp only: split: if_splits) simp
  moreover have "?w = 0 \<Longrightarrow> \<forall>i<32 * ?w. N i" "?n = 0 \<Longrightarrow> \<forall>j<?n. N (32 * ?w + j)" by simp_all
  ultimately have "inet_addr_match a b bits = 0 \<longleftrightarrow> (\<forall>i<bits. N i)"
    using whole part by metis
  then show ?thesis by (simp only: N_def)
qed

section \<open>Properties\<close>

text \<open>
  \<open>mask2bits\<close> maps the netmask of every prefix length to that length and every other
  word to -1.
\<close>

theorem mask2bits_inverse:
  "(\<forall>n\<le>32. mask2bits (netmask_of n) = int n) \<and>
   (\<forall>m. (\<forall>n\<le>32. m \<noteq> netmask_of n) \<longrightarrow> mask2bits m = -1)"
  using mask2bits_cases by blast

theorem mask2bits_inverse_witness:
  "mask2bits (netmask_of 20) = 20"
  using mask2bits_inverse by simp

text \<open>
  C18: A dotted quad with a prefix length is read as written: one to four bytes fill the address
  from the left, a missing byte is zero, and the length after the slash may be given as a
  number of at most 32 or as the netmask of that length; a longer prefix is refused.
\<close>

theorem prefix_text_parsed:
  assumes "bs \<noteq> []" "length bs \<le> 4" "n \<le> 32" "32 < k" "k < 2 ^ 32"
  shows "get_prefix_1 pton6 (quad_text bs @ CHR ''/'' # fmt_nat n) AF_INET =
      Some \<lparr>pfx_family = of_nat AF_INET, pfx_bytelen = 4, pfx_bitlen = int n,
            pfx_flags = PREFIXLEN_SPECIFIED, pfx_data = bs @ replicate (32 - length bs) 0\<rparr> \<and>
    get_prefix_1 pton6 (quad_text bs @ CHR ''/'' # quad_text (le_bytes 4 (netmask_of n))) AF_INET =
      get_prefix_1 pton6 (quad_text bs @ CHR ''/'' # fmt_nat n) AF_INET \<and>
    get_prefix_1 pton6 (quad_text bs @ CHR ''/'' # fmt_nat k) AF_INET = None"
proof -
  have num: "get_netmask pton6 (fmt_nat i) 0 = Some (of_nat i)" if "i < 2 ^ 32" for i
  proof -
    have "fmt_nat i = fmt_u (of_nat i :: u32)" using that by (simp add: fmt_nat_def fmt_u_def unat_of_nat)
    then show ?thesis using get_unsigned.parse_printed [of 0 "of_nat i"] by (simp add: get_netmask_def)
  qed
  have quad: "get_netmask pton6 (quad_text (le_bytes 4 (netmask_of n))) 0 = Some (of_nat n)"
    by (rule get_netmask_quad [OF assms(3)])
  have n32: "n < 2 ^ 32" using assms(3) by simp
  have small: "uint (of_nat n :: u32) = int n" "uint (of_nat k :: u32) = int k"
    using assms(3,5) by (simp_all add: uint_nat unat_of_nat)
  show ?thesis
    unfolding get_prefix_1_slash [OF assms(1,2) disjI2 [OF refl]] num [OF n32] num [OF assms(5)] quad
    using assms(3,4) by (simp add: small store_data_def zero_prefix_def)
qed

theorem prefix_text_parsed_witness:
  "get_prefix_1 (\<lambda>_. None) (quad_text [10, 8] @ CHR ''/'' # fmt_nat 16) AF_INET =
      Some \<lparr>pfx_family = of_nat AF_INET, pfx_bytelen = 4, pfx_bitlen = 16,
            pfx_flags = PREFIXLEN_SPECIFIED, pfx_data = [10, 8] @ replicate 30 0\<rparr>"
  using prefix_text_parsed [of "[10, 8]" 16 33 "\<lambda>_. None"] by simp

text \<open>
  C19: \<open>inet_addr_match\<close> with a number of bits answers 0 exactly when the two addresses agree in
  that many leading bits, in network order.
\<close>

theorem inet_addr_match_prefix:
  assumes "length (pfx_data a) = 32" "length (pfx_data b) = 32" "bits \<le> 256"
  shows "inet_addr_match a b bits = 0 \<longleftrightarrow>
    (\<forall>i<bits. net_bit (pfx_data a) i = net_bit (pfx_data b) i)"
  by (rule inet_addr_match_bits [OF assms])

theorem inet_addr_match_prefix_witness:
  "inet_addr_match zero_prefix (zero_prefix\<lparr>pfx_data := [0, 0, 1] @ replicate 29 0\<rparr>) 20 = 0"
proof -
  let ?b = "zero_prefix\<lparr>pfx_data := [0, 0, 1] @ replicate 29 0\<rparr>"
  have "\<forall>i<20. net_bit (pfx_data zero_prefix) i = net_bit (pfx_data ?b) i" by code_simp
  then show ?thesis using inet_addr_match_prefix [of zero_prefix ?b 20] by (simp add: zero_prefix_def)
qed

end
