(* ===== verification/Utils_Cmd.thy ===== *)
theory Utils_Cmd
  imports Utils_Addr
begin

unbundle bit_operations_syntax

text \<open>
  The rest of \<^verbatim>\<open>lib/utils.c\<close>: keyword matching and the calls that end the program, command
  lines, hexadecimal byte strings, the clock rate, and the printing of addresses with the
  cache of resolved names. The environment, the clock file, the resolver and \<^verbatim>\<open>inet_ntop\<close> are
  parameters.
\<close>

section \<open>Arguments\<close>

text \<open>Each of these prints a message and ends the program.\<close>

definition incomplete_command :: "'a cexit" where "incomplete_command = Exit (-1)"
definition missarg :: "string \<Rightarrow> 'a cexit" where "missarg key = Exit (-1)"
definition invarg :: "string \<Rightarrow> string \<Rightarrow> 'a cexit" where "invarg msg arg = Exit (-1)"
definition duparg :: "string \<Rightarrow> string \<Rightarrow> 'a cexit" where "duparg key arg = Exit (-1)"
definition duparg2 :: "string \<Rightarrow> string \<Rightarrow> 'a cexit" where "duparg2 key arg = Exit (-1)"

text \<open>\<^verbatim>\<open>matches(cmd, pattern)\<close>: -1, or the sign of the comparison of the first \<open>len\<close> bytes.\<close>

definition matches :: "string \<Rightarrow> string \<Rightarrow> int" where
  "matches cmd pattern =
     (if length cmd > length pattern then -1 else strcmp_sign (take (length cmd) pattern) cmd)"

text \<open>\<^verbatim>\<open>NEXT_ARG\<close>: the words after the current one, which must not run out.\<close>

definition NEXT_ARG :: "string list \<Rightarrow> string list cexit" where
  "NEXT_ARG argv = (case argv of _ # a # r \<Rightarrow> Ret (a # r) | _ \<Rightarrow> incomplete_command)"

definition nl_mgrp :: "u32 \<Rightarrow> u32 cexit" where
  "nl_mgrp grp =
     (if grp > 31 then Exit (-1) else Ret (if grp \<noteq> 0 then push_bit (unat grp - 1) 1 else 0))"

section \<open>Command lines\<close>

definition is_ws :: "char \<Rightarrow> bool" where
  "is_ws c \<longleftrightarrow> c \<in> {CHR '' '', CHR 0x09, CHR 0x0D, CHR 0x0A}"

text \<open>One call of \<^verbatim>\<open>strtok\<close>: the next word and what follows it.\<close>

definition strtok :: "string \<Rightarrow> (string \<times> string) option" where
  "strtok s =
     (let t = dropWhile is_ws s
      in if t = [] then None
         else Some (takeWhile (\<lambda>c. \<not> is_ws c) t, drop 1 (dropWhile (\<lambda>c. \<not> is_ws c) t)))"

lemma strtok_shorter: "strtok s = Some (w, r) \<Longrightarrow> length r < length s"
proof -
  assume h: "strtok s = Some (w, r)"
  let ?t = "dropWhile is_ws s"
  have t: "?t \<noteq> []" "w = takeWhile (\<lambda>c. \<not> is_ws c) ?t" "r = drop 1 (dropWhile (\<lambda>c. \<not> is_ws c) ?t)"
    using h by (auto simp: strtok_def Let_def split: if_splits)
  have "\<not> is_ws (hd ?t)" using t(1) hd_dropWhile by blast
  then have "w \<noteq> []" using t(1,2) by (cases ?t) auto
  then have "length (dropWhile (\<lambda>c. \<not> is_ws c) ?t) < length ?t"
    using t(2) by (metis length_append length_greater_0_conv less_add_same_cancel2 takeWhile_dropWhile_id)
  also have "length ?t \<le> length s" by (rule length_dropWhile_le)
  finally show ?thesis using t(3) by simp
qed

text \<open>The loop; \<open>argc\<close> is the number of words found so far.\<close>

function makeargs_loop :: "nat \<Rightarrow> string list \<Rightarrow> string \<Rightarrow> string list cexit" where
  "makeargs_loop maxargs argv line =
     (case strtok line of
        None \<Rightarrow> Ret argv
      | Some (cp, rest) \<Rightarrow>
          if int (length argv) \<ge> int maxargs - 1 then Exit 1
          else makeargs_loop maxargs (argv @ [cp]) rest)"
  by pat_completeness auto
termination by (relation "measure (\<lambda>(_, _, line). length line)") (auto dest: strtok_shorter)

declare makeargs_loop.simps [simp del]

definition makeargs :: "string \<Rightarrow> nat \<Rightarrow> string list cexit" where
  "makeargs line maxargs = makeargs_loop maxargs [] line"

text \<open>\<^verbatim>\<open>strstr(line, "\\\n")\<close>: the characters before a backslash at the end of a line.\<close>

fun before_continuation :: "string \<Rightarrow> string option" where
  "before_continuation (a # b # r) =
     (if a = CHR 0x5C \<and> b = newline then Some []
      else map_option ((#) a) (before_continuation (b # r)))"
| "before_continuation _ = None"

text \<open>
  \<^verbatim>\<open>getcmdline\<close> reads from the lines that remain in the file. The result is the return value,
  the command line, the lines left and the line counter.
\<close>

fun getcmdline_join :: "string list \<Rightarrow> string \<Rightarrow> int \<Rightarrow> nat \<Rightarrow> int \<times> string \<times> string list \<times> nat" where
  "getcmdline_join ls line cc cmdlineno =
     (case before_continuation line of
        None \<Rightarrow> (cc, line, ls, cmdlineno)
      | Some pre \<Rightarrow>
          (case ls of
             [] \<Rightarrow> (-1, line, [], cmdlineno)
           | line1 # ls1 \<Rightarrow>
               getcmdline_join ls1 (pre @ upto_chr line1 (CHR ''#'')) (cc + (int (length line1) - 2))
                 (cmdlineno + 1)))"

declare getcmdline_join.simps [simp del]

definition getcmdline :: "string list \<Rightarrow> nat \<Rightarrow> int \<times> string \<times> string list \<times> nat" where
  "getcmdline ls cmdlineno =
     (case ls of
        [] \<Rightarrow> (-1, [], [], cmdlineno)
      | line # ls1 \<Rightarrow>
          getcmdline_join ls1 (upto_chr line (CHR ''#'')) (int (length line)) (cmdlineno + 1))"

section \<open>Byte strings\<close>

fun hexstring_n2a :: "u8 list \<Rightarrow> int \<Rightarrow> string" where
  "hexstring_n2a [] blen = []"
| "hexstring_n2a (b # bs) blen =
     (if blen < 3 then []
      else fmt_0x 2 b @
           (if bs \<noteq> [] \<and> blen - 2 > 1 then CHR '':'' # hexstring_n2a bs (blen - 3)
            else hexstring_n2a bs (blen - 2)))"

definition hex_digit :: "char \<Rightarrow> nat option" where
  "hex_digit c = (if digit_val c < 16 then Some (digit_val c) else None)"

text \<open>A group ends at a colon or at the end of the string; a byte beyond the buffer is lost.\<close>

definition push_byte :: "nat \<Rightarrow> u8 list \<Rightarrow> u32 \<Rightarrow> u8 list" where
  "push_byte blen buf acc = (if length buf < blen then buf @ [ucast acc] else buf)"

fun a2n_groups :: "nat \<Rightarrow> u8 list \<Rightarrow> u32 \<Rightarrow> string \<Rightarrow> u8 list option" where
  "a2n_groups blen buf acc [] = (if acc > 255 then None else Some (push_byte blen buf acc))"
| "a2n_groups blen buf acc (ch # str) =
     (if ch = CHR '':''
      then if acc > 255 then None else a2n_groups blen (push_byte blen buf acc) 0 str
      else case hex_digit ch of
             None \<Rightarrow> None
           | Some d \<Rightarrow> a2n_groups blen buf (push_bit 4 acc + of_nat d) str)"

definition hexstring_a2n :: "string \<Rightarrow> nat \<Rightarrow> u8 list option" where
  "hexstring_a2n str blen =
     (case a2n_groups blen [] 0 str of
        None \<Rightarrow> None
      | Some buf \<Rightarrow> Some (buf @ replicate (blen - length buf) 0))"

section \<open>The clock rate\<close>

definition HZ :: int where "HZ = 100"

definition atoi :: "string \<Rightarrow> int" where
  "atoi s = sint (word_of_int (fst (strtol 10 s)) :: u32)"

text \<open>
  \<open>getenv\<close> is the environment; \<open>psched\<close> the third and fourth number of a clock file, if the
  file exists and has them.
\<close>

definition psched_name :: "(string \<Rightarrow> string option) \<Rightarrow> string" where
  "psched_name getenv =
     (case getenv ''PROC_NET_PSCHED'' of
        Some f \<Rightarrow> snprintf 1023 f
      | None \<Rightarrow>
          (case getenv ''PROC_ROOT'' of
             Some r \<Rightarrow> snprintf 1023 (r @ ''/net/psched'')
           | None \<Rightarrow> ''/proc/net/psched''))"

definition get_hz_uncached ::
  "(string \<Rightarrow> string option) \<Rightarrow> (string \<Rightarrow> (u32 \<times> u32) option) \<Rightarrow> int" where
  "get_hz_uncached getenv psched =
     (case getenv ''HZ'' of
        Some s \<Rightarrow> if atoi s \<noteq> 0 then atoi s else HZ
      | None \<Rightarrow>
          let hz = (case psched (psched_name getenv) of
                      Some (nom, denom) \<Rightarrow> if nom = 1000000 then sint denom else 0
                    | None \<Rightarrow> 0)
          in if hz \<noteq> 0 then hz else HZ)"

text \<open>The cached value, computed when it is still zero.\<close>

definition get_hz ::
  "(string \<Rightarrow> string option) \<Rightarrow> (string \<Rightarrow> (u32 \<times> u32) option) \<Rightarrow> int \<Rightarrow> int \<times> int" where
  "get_hz getenv psched hz_internal =
     (let v = (if hz_internal = 0 then get_hz_uncached getenv psched else hz_internal) in (v, v))"

section \<open>Printing addresses\<close>

text \<open>\<open>ntop\<close> is \<^verbatim>\<open>inet_ntop\<close> for a family, the bytes and the size of the buffer.\<close>

definition rt_addr_n2a ::
  "(nat \<Rightarrow> u8 list \<Rightarrow> nat \<Rightarrow> string option) \<Rightarrow> nat \<Rightarrow> u8 list \<Rightarrow> nat \<Rightarrow> string option" where
  "rt_addr_n2a ntop af addr buflen =
     (if af = AF_INET \<or> af = AF_INET6 then ntop af addr buflen
      else if af = AF_IPX
      then map_option fst (ipx_ntop af \<lparr>ipx_net = of_le_bytes (take 4 addr), ipx_node = take 6 (drop 4 addr)\<rparr> buflen)
      else if af = AF_DECnet
      then map_option fst (dnet_ntop af \<lparr>a_len = 2, a_addr = take 2 addr @ replicate 18 0\<rparr> buflen)
      else Some ''???'')"

text \<open>
  The cache of resolved names: a hash table of chains, newest entry first. An entry without a
  name remembers a failed lookup. \<open>lookup\<close> is \<^verbatim>\<open>gethostbyaddr\<close>.
\<close>

record namerec =
  nr_name :: "string option"
  nr_family :: nat
  nr_addr :: "u8 list"

definition NHASH :: nat where "NHASH = 257"

definition namerec_match :: "nat \<Rightarrow> u8 list \<Rightarrow> namerec \<Rightarrow> bool" where
  "namerec_match af addr n \<longleftrightarrow>
     nr_family n = af \<and> length (nr_addr n) = length addr \<and> nr_addr n = addr"

text \<open>
  The hash reads the last four bytes of the address; for a DECnet address, which has two, that
  reaches into the bytes \<open>mem\<close> that precede it in memory.
\<close>

definition addr_hash :: "u8 list \<Rightarrow> u8 list \<Rightarrow> nat" where
  "addr_hash mem addr =
     (let bs = mem @ addr in unat (of_le_bytes (drop (length bs - 4) bs) :: u32) mod NHASH)"

text \<open>An IPv4 address mapped into IPv6 is looked up as IPv4.\<close>

definition unmap_addr :: "u8 list \<Rightarrow> nat \<Rightarrow> u8 list \<times> nat" where
  "unmap_addr addr af =
     (if af = AF_INET6 \<and> (of_le_bytes (take 4 addr) :: u32) = 0 \<and>
         (of_le_bytes (take 4 (drop 4 addr)) :: u32) = 0 \<and>
         of_le_bytes (take 4 (drop 8 addr)) = htonl 0xffff
      then (take 4 (drop 12 addr), AF_INET) else (addr, af))"

text \<open>\<open>alloc\<close> and \<open>dup\<close> tell whether \<^verbatim>\<open>malloc\<close> and \<^verbatim>\<open>strdup\<close> get memory. Without an entry there is no lookup.\<close>

definition resolve_address ::
  "bool \<Rightarrow> bool \<Rightarrow> (u8 list \<Rightarrow> nat \<Rightarrow> string option) \<Rightarrow> u8 list \<Rightarrow> u8 list \<Rightarrow> nat \<Rightarrow> namerec list list \<Rightarrow>
   string option \<times> namerec list list" where
  "resolve_address alloc dup lookup mem addr0 af0 nht =
     (let (addr, af) = unmap_addr addr0 af0; hash = addr_hash mem addr
      in case List.find (namerec_match af addr) (nht ! hash) of
           Some n \<Rightarrow> (nr_name n, nht)
         | None \<Rightarrow>
             if \<not> alloc then (None, nht)
             else let n = \<lparr>nr_name = (if dup then lookup addr af else None), nr_family = af, nr_addr = addr\<rparr>
             in (nr_name n, nht[hash := n # nht ! hash]))"

definition default_len :: "nat \<Rightarrow> int \<Rightarrow> int" where
  "default_len af len =
     (if len > 0 then len
      else if af = AF_INET then 4 else if af = AF_INET6 then 16
      else if af = AF_IPX then 10 else if af = AF_DECnet then 2 else len)"

definition format_host ::
  "bool \<Rightarrow> bool \<Rightarrow> (nat \<Rightarrow> u8 list \<Rightarrow> nat \<Rightarrow> string option) \<Rightarrow> (u8 list \<Rightarrow> nat \<Rightarrow> string option) \<Rightarrow> bool \<Rightarrow>
   nat \<Rightarrow> int \<Rightarrow> u8 list \<Rightarrow> u8 list \<Rightarrow> nat \<Rightarrow> namerec list list \<Rightarrow> string option \<times> namerec list list" where
  "format_host alloc dup ntop lookup resolve_hosts af len mem addr buflen nht =
     (if resolve_hosts \<and> default_len af len > 0
      then case resolve_address alloc dup lookup mem (take (nat (default_len af len)) addr) af nht of
             (Some n, nht1) \<Rightarrow> (Some n, nht1)
           | (None, nht1) \<Rightarrow> (rt_addr_n2a ntop af addr buflen, nht1)
      else (rt_addr_n2a ntop af addr buflen, nht))"

end
