(* ===== verification/Utils_Props.thy ===== *)
theory Utils_Props
  imports Utils_Cmd
begin

unbundle bit_operations_syntax

text \<open>
  The properties of the helpers of \<^verbatim>\<open>lib/utils.c\<close>: numbers, keywords, command lines, byte
  strings and the cache of resolved names.
\<close>

section \<open>Numbers\<close>

text \<open>
  The unsigned parsers read back every value they can hold when it is printed in decimal,
  accept a number without sign exactly when it fits the type, and accept a negative number
  exactly when it wraps around, modulo the 64 bits of \<open>unsigned long\<close>, to a value that fits.
\<close>

theorem unsigned_parsers:
  "(\<forall>v base. base = 0 \<or> base = 10 \<longrightarrow>
      get_u8 (fmt_u v) base = Some v) \<and>
   (\<forall>v base. base = 0 \<or> base = 10 \<longrightarrow> get_u16 (fmt_u v) base = Some v) \<and>
   (\<forall>v base. base = 0 \<or> base = 10 \<longrightarrow> get_u32 (fmt_u v) base = Some v) \<and>
   (\<forall>arg base n. whole_number base arg = Some (False, n) \<longrightarrow>
      get_u32 arg base = (if n < 2 ^ 32 then Some (of_nat n) else None)) \<and>
   (\<forall>arg base n. whole_number base arg = Some (True, n) \<and> 0 < n \<longrightarrow>
      get_u32 arg base =
        (if 2 ^ 64 - 2 ^ 32 < n \<and> n < 2 ^ 64 then Some (of_nat (2 ^ 64 - n)) else None))"
  by (auto simp: get_u8.parse_printed get_u16.parse_printed get_u32.parse_printed
      get_u32.parse_plain get_u32.parse_negative)

theorem unsigned_parsers_witness:
  "get_u32 (CHR ''-'' # fmt_nat 18446744073709551615) 10 = Some 1"
proof -
  have "whole_number 10 (CHR ''-'' # fmt_nat 18446744073709551615) = Some (True, 18446744073709551615)"
    using scan_number_minus_fmt [of 10 10 18446744073709551615] by (simp add: whole_number_def fmt_nat_def)
  then show ?thesis
    using unsigned_parsers [THEN conjunct2, THEN conjunct2, THEN conjunct2, THEN conjunct2, rule_format,
        of 10 "CHR ''-'' # fmt_nat 18446744073709551615" 18446744073709551615] by simp
qed

text \<open>
  The signed parsers read back exactly the values of their type when printed in decimal,
  and never return a value outside it.
\<close>

theorem signed_parsers:
  "(\<forall>v. get_integer (fmt_d v) 10 = (if INT_MIN \<le> v \<and> v \<le> INT_MAX then Some v else None)) \<and>
   (\<forall>v. get_s32 (fmt_d v) 10 = (if INT_MIN \<le> v \<and> v \<le> INT_MAX then Some v else None)) \<and>
   (\<forall>v. get_s16 (fmt_d v) 10 = (if - 32768 \<le> v \<and> v \<le> 32767 then Some v else None)) \<and>
   (\<forall>v. get_s8 (fmt_d v) 10 = (if - 128 \<le> v \<and> v \<le> 127 then Some v else None))"
  by (simp add: get_integer.parse_decimal get_s32.parse_decimal get_s16.parse_decimal get_s8.parse_decimal)

text \<open>
  \<open>get_u64\<close> rejects the number 4294967295, reads every other 64-bit value, and takes a
  number that is too large for the largest one.
\<close>

theorem get_u64_quirks:
  assumes "whole_number base arg = Some (False, n)"
  shows "get_u64 arg base =
    (if n = 4294967295 then None else if n < 2 ^ 64 then Some (of_nat n) else Some (- 1))"
proof -
  from assms have s: "scan_number base arg = Some (False, n, [])"
    by (auto simp: whole_number_def split: option.splits list.splits)
  have v: "fst (strtoul base arg) = (if n < 2 ^ 64 then of_nat n else - 1)" "snd (strtoul base arg) = []"
    using s by (auto simp: strtoul_def ULONG_MAX_def)
  have "n < 2 ^ 64 \<Longrightarrow> (of_nat n :: u64) = 0xFFFFFFFF \<longleftrightarrow> n = 4294967295"
    using of_nat_eq_iff_bounded [of n 4294967295, where 'a = 64] by simp
  then show ?thesis
    using v scan_number_rest [OF s] by (auto simp: get_u64_def case_prod_beta)
qed

theorem get_u64_quirks_witness: "get_u64 (fmt_nat 4294967295) 10 = None"
proof -
  have "whole_number 10 (fmt_nat 4294967295) = Some (False, 4294967295)"
    using scan_number_fmt [of 10 10 4294967295] by (simp add: whole_number_def fmt_nat_def)
  from get_u64_quirks [OF this] show ?thesis by simp
qed

section \<open>Keywords and command lines\<close>

lemma strcmp_sign_eq: "strcmp_sign a b = 0 \<longleftrightarrow> a = b"
  by (induction a b rule: strcmp_sign.induct) auto

text \<open>
  A word matches a keyword exactly when it is an initial part of it: every abbreviation is
  accepted, the empty word included.
\<close>

theorem matches_iff_abbreviation: "matches cmd pattern = 0 \<longleftrightarrow> (\<exists>rest. pattern = cmd @ rest)"
proof -
  have "take (length cmd) pattern = cmd \<longleftrightarrow> (\<exists>rest. pattern = cmd @ rest)"
    by (metis append_eq_conv_conj append_take_drop_id)
  then show ?thesis by (auto simp: matches_def strcmp_sign_eq)
qed

text \<open>Words separated by single blanks.\<close>

definition word_ok :: "string \<Rightarrow> bool" where
  "word_ok w \<longleftrightarrow> w \<noteq> [] \<and> list_all (\<lambda>c. \<not> is_ws c) w"

fun unwords :: "string list \<Rightarrow> string" where
  "unwords [] = []"
| "unwords (w # ws) = w @ CHR '' '' # unwords ws"

lemma strtok_word:
  assumes "word_ok w" shows "strtok (w @ CHR '' '' # r) = Some (w, r)"
proof -
  obtain c cs where w: "w = c # cs" "\<not> is_ws c" using assms by (cases w) (auto simp: word_ok_def)
  have "takeWhile (\<lambda>c. \<not> is_ws c) (w @ CHR '' '' # r) = w"
    "dropWhile (\<lambda>c. \<not> is_ws c) (w @ CHR '' '' # r) = CHR '' '' # r"
    using assms by (simp_all add: word_ok_def takeWhile_append dropWhile_append is_ws_def list_all_iff)
  then show ?thesis using w by (simp add: strtok_def Let_def)
qed

lemma makeargs_loop_words:
  assumes "list_all word_ok ws" "int (length argv + length ws) \<le> int maxargs - 1"
  shows "makeargs_loop maxargs argv (unwords ws) = Ret (argv @ ws)"
  using assms
proof (induction ws arbitrary: argv)
  case Nil
  then show ?case by (simp add: makeargs_loop.simps strtok_def)
next
  case (Cons w ws)
  then show ?case by (subst makeargs_loop.simps) (simp add: strtok_word)
qed

lemma makeargs_loop_bound:
  "makeargs_loop maxargs argv line = Ret ws \<Longrightarrow> int (length argv) \<le> int maxargs - 1 \<Longrightarrow>
   int (length ws) \<le> int maxargs - 1"
proof (induction maxargs argv line rule: makeargs_loop.induct)
  case (1 maxargs argv line)
  show ?case
  proof (cases "strtok line")
    case None
    with 1 show ?thesis by (simp add: makeargs_loop.simps [of maxargs argv line])
  next
    case (Some wr)
    obtain w r where wr: "wr = (w, r)" by fastforce
    with 1 Some show ?thesis
      by (auto simp: makeargs_loop.simps [of maxargs argv line] split: if_splits)
  qed
qed

text \<open>
  \<open>makeargs\<close> splits a line of blank-separated words into these words when they and the
  closing null pointer fit the vector of \<open>maxargs\<close> entries, and never returns more words than
  that, whatever the line.
\<close>

theorem makeargs_splits:
  assumes "list_all word_ok ws" "length ws < maxargs"
  shows "makeargs (unwords ws) maxargs = Ret ws \<and>
    (\<forall>line ws'. makeargs line maxargs = Ret ws' \<longrightarrow> length ws' < maxargs)"
  using makeargs_loop_words [OF assms(1), of "[]" maxargs] makeargs_loop_bound [of maxargs "[]"] assms(2)
  by (fastforce simp: makeargs_def)

theorem makeargs_splits_witness:
  "makeargs ''qdisc add dev eth0 root pfabric '' 20 = Ret [''qdisc'', ''add'', ''dev'', ''eth0'', ''root'', ''pfabric'']"
  using makeargs_splits [of "[''qdisc'', ''add'', ''dev'', ''eth0'', ''root'', ''pfabric'']" 20]
  by (simp add: word_ok_def is_ws_def)

section \<open>Byte strings\<close>

lemma fmt_0x_byte: "fmt_0x 2 (b::u8) = [digit_char (unat b div 16), digit_char (unat b mod 16)]"
proof -
  have "unat b < 256" using unsigned_less [of b, where ?'a = nat] by simp
  then have "fmt_x b = (if unat b < 16 then [digit_char (unat b)]
      else [digit_char (unat b div 16), digit_char (unat b mod 16)])"
    unfolding fmt_x_def by (subst fmt_base.simps) (simp add: fmt_base_small less_mult_imp_div_less)
  then show ?thesis by (auto simp: fmt_0x_def digit_char_0)
qed

lemma a2n_byte:
  "a2n_groups blen buf 0 (fmt_0x 2 (b::u8) @ str) = a2n_groups blen buf (ucast b) str"
proof -
  let ?h = "unat b div 16" and ?l = "unat b mod 16"
  have h: "?h < 16" "?l < 16"
    using unsigned_less [of b, where ?'a = nat] by (simp_all add: less_mult_imp_div_less)
  have "push_bit 4 (of_nat ?h) + of_nat ?l = (ucast b :: u32)"
  proof -
    have "push_bit 4 (of_nat ?h) + of_nat ?l = (16 * of_nat ?h + of_nat ?l :: u32)"
      by (simp add: push_bit_eq_mult)
    also have "\<dots> = of_nat (16 * ?h + ?l)" by (simp only: of_nat_add of_nat_mult of_nat_numeral)
    also have "16 * ?h + ?l = unat b" by simp
    finally show ?thesis by simp
  qed
  then show ?thesis
    using h digit_char_neq(7) by (simp add: fmt_0x_byte hex_digit_def)
qed

lemma a2n_n2a:
  assumes "bs \<noteq> []" "3 * int (length bs) \<le> len" "length buf + length bs \<le> blen"
  shows "a2n_groups blen buf 0 (hexstring_n2a bs len) = Some (buf @ bs)"
  using assms
proof (induction bs arbitrary: buf len)
  case (Cons b bs)
  have small: "\<not> (ucast b :: u32) > 255" "ucast (ucast b :: u32) = b"
    using unsigned_less [of b, where ?'a = nat] ucast_up_down [of b, where ?'b = 32]
    by (simp_all add: word_less_nat_alt unsigned_ucast_eq take_bit_nat_eq_self)
  show ?case
  proof (cases "bs = []")
    case True
    with Cons.prems small a2n_byte [of blen buf b "[]"] show ?thesis by (simp add: push_byte_def)
  next
    case False
    then have "1 \<le> length bs" by (simp add: Suc_le_eq)
    then have l: "\<not> len < 3" "len - 2 > 1" "3 * int (length bs) \<le> len - 3"
      using Cons.prems(2) unfolding length_Cons by presburger+
    have "a2n_groups blen (buf @ [b]) 0 (hexstring_n2a bs (len - 3)) = Some ((buf @ [b]) @ bs)"
      by (rule Cons.IH [OF False l(3)]) (use Cons.prems(3) in simp)
    with False l small Cons.prems(3) show ?thesis by (simp add: a2n_byte push_byte_def)
  qed
qed simp

lemma n2a_fits: "hexstring_n2a bs len \<noteq> [] \<Longrightarrow> int (length (hexstring_n2a bs len)) < len"
proof (induction bs len rule: hexstring_n2a.induct)
  case (2 b bs len)
  have l: "length (fmt_0x 2 b) = 2" by (simp add: fmt_0x_byte)
  show ?case
    using 2 l by (cases "bs \<noteq> [] \<and> len - 2 > 1"; cases "hexstring_n2a bs (len - 3) = []";
        cases "hexstring_n2a bs (len - 2) = []") auto
qed simp

text \<open>
  A byte string printed as colon-separated pairs of hexadecimal digits into a buffer of
  three bytes per byte reads back as itself, and the printer never writes more than the
  buffer holds, the terminating zero included.
\<close>

theorem hexstring_roundtrip:
  assumes "bs \<noteq> []" "3 * int (length bs) \<le> len"
  shows "hexstring_a2n (hexstring_n2a bs len) (length bs) = Some bs \<and>
    (\<forall>cs n. hexstring_n2a cs n \<noteq> [] \<longrightarrow> int (length (hexstring_n2a cs n)) < n)"
  using a2n_n2a [OF assms, of "[]" "length bs"] n2a_fits by (simp add: hexstring_a2n_def)

theorem hexstring_roundtrip_witness:
  "hexstring_a2n (hexstring_n2a [0, 27, 255] 9) 3 = Some [0, 27, 255]"
  using hexstring_roundtrip [of "[0, 27, 255]" 9] by (simp add: numeral_3_eq_3)

section \<open>The cache of resolved names\<close>

text \<open>Every entry of the cache holds what the resolver answers for its address.\<close>

definition cache_ok :: "(u8 list \<Rightarrow> nat \<Rightarrow> string option) \<Rightarrow> namerec list list \<Rightarrow> bool" where
  "cache_ok lookup nht \<longleftrightarrow> length nht = NHASH \<and>
     list_all (list_all (\<lambda>n. nr_name n = lookup (nr_addr n) (nr_family n))) nht"

text \<open>
  C20: The cache does not change answers: with a cache that holds what the resolver said, every
  lookup returns what the resolver says for the address (an IPv4 address mapped into IPv6 is
  asked as IPv4), failures included, and the cache stays so; asking again changes nothing. Without memory for a new
  entry the answer is the same or none, and the cache is not touched.
\<close>

theorem resolve_cache_transparent:
  assumes "cache_ok lookup nht" "resolve_address True True lookup mem addr af nht = (r, nht')"
  shows "r = (case unmap_addr addr af of (a, f) \<Rightarrow> lookup a f) \<and> cache_ok lookup nht' \<and>
    resolve_address True True lookup mem addr af nht' = (r, nht') \<and>
    (\<exists>r'. resolve_address False dup lookup mem addr af nht = (r', nht) \<and> r' \<in> {None, r})"
proof -
  obtain a f where u: "unmap_addr addr af = (a, f)" by fastforce
  define h where "h = addr_hash mem a"
  have h: "h < length nht" using assms(1) by (simp add: h_def addr_hash_def Let_def cache_ok_def NHASH_def)
  have bucket: "list_all (\<lambda>n. nr_name n = lookup (nr_addr n) (nr_family n)) (nht ! h)"
    using assms(1) h by (simp add: cache_ok_def list_all_length)
  show ?thesis
  proof (cases "List.find (namerec_match f a) (nht ! h)")
    case None
    let ?n = "\<lparr>nr_name = lookup a f, nr_family = f, nr_addr = a\<rparr>"
    have "resolve_address True True lookup mem addr af nht = (lookup a f, nht[h := ?n # nht ! h])"
      using None u by (simp add: resolve_address_def Let_def h_def)
    with assms(2) have n: "nht' = nht[h := ?n # nht ! h]" "r = lookup a f" by auto
    have "cache_ok lookup nht'"
      using assms(1) bucket h unfolding n(1) cache_ok_def
      by (auto simp: list_all_iff dest!: set_update_subset_insert [THEN subsetD])
    then show ?thesis
      using n u h None by (simp add: resolve_address_def Let_def h_def [symmetric] namerec_match_def)
  next
    case (Some n)
    then have "n \<in> set (nht ! h)" "nr_addr n = a" "nr_family n = f"
      by (auto simp: find_Some_iff namerec_match_def in_set_conv_nth)
    then have "nr_name n = lookup a f" using bucket by (auto simp: list_all_iff)
    then show ?thesis
      using assms Some u by (auto simp: resolve_address_def Let_def h_def)
  qed
qed

theorem resolve_cache_transparent_witness:
  "fst (resolve_address True True (\<lambda>a f. if a = [127, 0, 0, 1] then Some ''localhost'' else None) []
         [127, 0, 0, 1] AF_INET (replicate NHASH [])) = Some ''localhost''"
proof -
  let ?l = "\<lambda>a f. if a = [127, 0, 0, 1 :: u8] then Some ''localhost'' else None"
  have "cache_ok ?l (replicate NHASH [])" by (simp add: cache_ok_def list_all_length)
  from resolve_cache_transparent [OF this prod.collapse [symmetric], of "[]" "[127, 0, 0, 1]" AF_INET]
  show ?thesis by (simp add: unmap_addr_def af_defs)
qed

end
