(* ===== verification/Rt_Names.thy ===== *)
theory Rt_Names
  imports Utils_Num
begin

text \<open>
  The name databases of iproute2 (\<^verbatim>\<open>rt_names.c\<close>): numbers of routing protocols, scopes, realms,
  traffic classes, tables and device groups and their names from configuration files. The small
  databases are arrays of 256 names, the others hash tables of 256 chains. A database file is
  the list of its lines as \<^verbatim>\<open>fgets\<close> delivers them, \<open>None\<close> when it cannot be opened. Static
  variables of a function are part of its database's state. A store outside an array is
  undefined, \<open>None\<close>.
\<close>

section \<open>Database files\<close>

text \<open>
  \<^verbatim>\<open>sscanf(p, "0x%x %s", ...)\<close> and \<^verbatim>\<open>sscanf(p, "%d %s", ...)\<close>; what follows the name in the format
  does not change the number of conversions.
\<close>

definition scan_name :: "string \<Rightarrow> string option" where
  "scan_name s = (let name = takeWhile (\<lambda>c. \<not> isspace c) (dropWhile isspace s) in if name = [] then None else Some name)"

definition scan_hex_entry :: "string \<Rightarrow> (int \<times> string) option" where
  "scan_hex_entry p =
     (if take 2 p = ''0x'' then
        let (v, r) = strtoul 16 (drop 2 p)
        in if r = drop 2 p then None
           else map_option (\<lambda>name. (sint (ucast v :: u32), name)) (scan_name r)
      else None)"

definition scan_dec_entry :: "string \<Rightarrow> (int \<times> string) option" where
  "scan_dec_entry p =
     (let (v, r, erange) = strtol 10 p
      in if r = p then None
         else map_option (\<lambda>name. (sint (of_int v :: u32), name)) (scan_name r))"

datatype db_line = Skip | Corrupt | Entry int string

definition read_line :: "string \<Rightarrow> db_line" where
  "read_line buf =
     (let p = dropWhile (\<lambda>c. c = CHR '' '' \<or> c = tab) buf
      in if p = [] \<or> hd p = CHR ''#'' \<or> hd p = newline then Skip
         else case scan_hex_entry p of
                Some (i, name) \<Rightarrow> Entry i name
              | None \<Rightarrow> (case scan_dec_entry p of Some (i, name) \<Rightarrow> Entry i name | None \<Rightarrow> Corrupt))"

text \<open>Arrays of names. The test for the index lets the size itself pass.\<close>

fun tab_lines :: "string list \<Rightarrow> string option list \<Rightarrow> nat \<Rightarrow> string option list option" where
  "tab_lines [] names sz = Some names"
| "tab_lines (l # ls) names sz =
     (case read_line l of
        Skip \<Rightarrow> tab_lines ls names sz
      | Corrupt \<Rightarrow> Some names
      | Entry i name \<Rightarrow>
          if i < 0 \<or> i > int sz then tab_lines ls names sz
          else if nat i \<ge> length names then None
          else tab_lines ls (names[nat i := Some name]) sz)"

definition rtnl_tab_initialize ::
  "string list option \<Rightarrow> string option list \<Rightarrow> nat \<Rightarrow> string option list option" where
  "rtnl_tab_initialize file names sz = (case file of None \<Rightarrow> Some names | Some ls \<Rightarrow> tab_lines ls names sz)"

text \<open>Hash tables: an entry goes to the front of its chain.\<close>

type_synonym chain = "(u32 \<times> string) list"

fun hash_lines :: "string list \<Rightarrow> chain list \<Rightarrow> nat \<Rightarrow> chain list" where
  "hash_lines [] hash sz = hash"
| "hash_lines (l # ls) hash sz =
     (case read_line l of
        Skip \<Rightarrow> hash_lines ls hash sz
      | Corrupt \<Rightarrow> hash
      | Entry i name \<Rightarrow>
          if i < 0 then hash_lines ls hash sz
          else let h = unat ((of_int i :: u32) AND of_nat (sz - 1))
               in hash_lines ls (hash[h := (of_int i, name) # hash ! h]) sz)"

definition rtnl_hash_initialize :: "string list option \<Rightarrow> chain list \<Rightarrow> nat \<Rightarrow> chain list" where
  "rtnl_hash_initialize file hash sz = (case file of None \<Rightarrow> hash | Some ls \<Rightarrow> hash_lines ls hash sz)"

section \<open>Arrays of names\<close>

record name_tab =
  nt_tab :: "string option list"
  nt_init :: bool
  nt_cache :: "string option"
  nt_res :: u64

text \<open>
  The two functions of an array database, which the source repeats for each of the four. \<open>init\<close>
  is its initialisation, \<open>outside\<close> and \<open>inside\<close> the formats for a number beyond the array and for
  one without a name, \<open>base\<close> the base in which numbers are read.
\<close>

definition tab_n2a ::
  "(name_tab \<Rightarrow> name_tab option) \<Rightarrow> (int \<Rightarrow> string) \<Rightarrow> (int \<Rightarrow> string) \<Rightarrow> int \<Rightarrow> nat \<Rightarrow> name_tab \<Rightarrow>
   (string \<times> name_tab) option" where
  "tab_n2a init outside inside i len db =
     (if i < 0 \<or> i \<ge> 256 then Some (snprintf len (outside i), db)
      else Option.bind (if nt_tab db ! nat i = None \<and> \<not> nt_init db then init db else Some db)
             (\<lambda>db1. case nt_tab db1 ! nat i of
                      Some name \<Rightarrow> Some (name, db1)
                    | None \<Rightarrow> Some (snprintf len (inside i), db1)))"

definition tab_a2n ::
  "(name_tab \<Rightarrow> name_tab option) \<Rightarrow> nat \<Rightarrow> string \<Rightarrow> name_tab \<Rightarrow> (u32 option \<times> name_tab) option" where
  "tab_a2n init base arg db =
     (if nt_cache db = Some arg then Some (Some (ucast (nt_res db)), db)
      else Option.bind (if \<not> nt_init db then init db else Some db)
             (\<lambda>db1. case List.find (\<lambda>i. nt_tab db1 ! i = Some arg) [0..<256] of
                      Some i \<Rightarrow> Some (Some (of_nat i), db1\<lparr>nt_cache := Some arg, nt_res := of_nat i\<rparr>)
                    | None \<Rightarrow>
                        let (res, end) = strtoul base arg; db2 = db1\<lparr>nt_res := res\<rparr>
                        in if end = arg \<or> end \<noteq> [] \<or> res > 255 then Some (None, db2)
                           else Some (Some (ucast res), db2)))"

text \<open>The formats: \<^verbatim>\<open>%u\<close>, \<^verbatim>\<open>%d\<close> and \<^verbatim>\<open>0x%02x\<close> of an \<^verbatim>\<open>int\<close>.\<close>

definition show_u :: "int \<Rightarrow> string" where "show_u i = fmt_u (of_int i :: u32)"
definition show_0x02x :: "int \<Rightarrow> string" where "show_0x02x i = ''0x'' @ fmt_0x 2 (of_int i :: u32)"

definition initialize_tab :: "string list option \<Rightarrow> name_tab \<Rightarrow> name_tab option" where
  "initialize_tab file db =
     map_option (\<lambda>t. db\<lparr>nt_tab := t, nt_init := True\<rparr>) (rtnl_tab_initialize file (nt_tab db) 256)"

subsection \<open>Routing protocols\<close>

definition rtnl_rtprot_tab :: "string option list" where
  "rtnl_rtprot_tab =
     (replicate 256 None)
       [0 := Some ''none'', 1 := Some ''redirect'', 2 := Some ''kernel'', 3 := Some ''boot'', 4 := Some ''static'',
        8 := Some ''gated'', 9 := Some ''ra'', 10 := Some ''mrt'', 11 := Some ''zebra'', 12 := Some ''bird'',
        13 := Some ''dnrouted'', 14 := Some ''xorp'', 15 := Some ''ntk'', 16 := Some ''dhcp'']"

definition rtnl_rtprot_initialize :: "string list option \<Rightarrow> name_tab \<Rightarrow> name_tab option" where
  "rtnl_rtprot_initialize file db = initialize_tab file db"

definition rtnl_rtprot_n2a :: "string list option \<Rightarrow> int \<Rightarrow> nat \<Rightarrow> name_tab \<Rightarrow> (string \<times> name_tab) option" where
  "rtnl_rtprot_n2a file = tab_n2a (rtnl_rtprot_initialize file) show_u show_u"

definition rtnl_rtprot_a2n :: "string list option \<Rightarrow> string \<Rightarrow> name_tab \<Rightarrow> (u32 option \<times> name_tab) option" where
  "rtnl_rtprot_a2n file = tab_a2n (rtnl_rtprot_initialize file) 0"

subsection \<open>Scopes\<close>

definition rtnl_rtscope_tab :: "string option list" where
  "rtnl_rtscope_tab = (replicate 256 None)[0 := Some ''global'']"

definition rtnl_rtscope_initialize :: "string list option \<Rightarrow> name_tab \<Rightarrow> name_tab option" where
  "rtnl_rtscope_initialize file db =
     initialize_tab file
       (db\<lparr>nt_tab := (nt_tab db)[255 := Some ''nowhere'', 254 := Some ''host'', 253 := Some ''link'', 200 := Some ''site'']\<rparr>)"

definition rtnl_rtscope_n2a :: "string list option \<Rightarrow> int \<Rightarrow> nat \<Rightarrow> name_tab \<Rightarrow> (string \<times> name_tab) option" where
  "rtnl_rtscope_n2a file = tab_n2a (rtnl_rtscope_initialize file) fmt_d fmt_d"

definition rtnl_rtscope_a2n :: "string list option \<Rightarrow> string \<Rightarrow> name_tab \<Rightarrow> (u32 option \<times> name_tab) option" where
  "rtnl_rtscope_a2n file = tab_a2n (rtnl_rtscope_initialize file) 0"

subsection \<open>Realms\<close>

definition rtnl_rtrealm_tab :: "string option list" where
  "rtnl_rtrealm_tab = (replicate 256 None)[0 := Some ''unknown'']"

definition rtnl_rtrealm_initialize :: "string list option \<Rightarrow> name_tab \<Rightarrow> name_tab option" where
  "rtnl_rtrealm_initialize file db = initialize_tab file db"

definition rtnl_rtrealm_n2a :: "string list option \<Rightarrow> int \<Rightarrow> nat \<Rightarrow> name_tab \<Rightarrow> (string \<times> name_tab) option" where
  "rtnl_rtrealm_n2a file = tab_n2a (rtnl_rtrealm_initialize file) fmt_d fmt_d"

definition rtnl_rtrealm_a2n :: "string list option \<Rightarrow> string \<Rightarrow> name_tab \<Rightarrow> (u32 option \<times> name_tab) option" where
  "rtnl_rtrealm_a2n file = tab_a2n (rtnl_rtrealm_initialize file) 0"

subsection \<open>Differentiated services\<close>

definition rtnl_rtdsfield_tab :: "string option list" where
  "rtnl_rtdsfield_tab = (replicate 256 None)[0 := Some ''0'']"

definition rtnl_rtdsfield_initialize :: "string list option \<Rightarrow> name_tab \<Rightarrow> name_tab option" where
  "rtnl_rtdsfield_initialize file db = initialize_tab file db"

definition rtnl_dsfield_n2a :: "string list option \<Rightarrow> int \<Rightarrow> nat \<Rightarrow> name_tab \<Rightarrow> (string \<times> name_tab) option" where
  "rtnl_dsfield_n2a file = tab_n2a (rtnl_rtdsfield_initialize file) fmt_d show_0x02x"

definition rtnl_dsfield_a2n :: "string list option \<Rightarrow> string \<Rightarrow> name_tab \<Rightarrow> (u32 option \<times> name_tab) option" where
  "rtnl_dsfield_a2n file = tab_a2n (rtnl_rtdsfield_initialize file) 16"

section \<open>Hash tables\<close>

record name_hash =
  nh_hash :: "chain list"
  nh_init :: bool
  nh_cache :: "string option"
  nh_res :: u64

definition initialize_hash :: "string list option \<Rightarrow> name_hash \<Rightarrow> name_hash" where
  "initialize_hash file db = db\<lparr>nh_hash := rtnl_hash_initialize file (nh_hash db) 256, nh_init := True\<rparr>"

text \<open>The search for a name goes through the chains in order.\<close>

definition find_name :: "string \<Rightarrow> chain list \<Rightarrow> (u32 \<times> string) option" where
  "find_name arg hash = List.find (\<lambda>e. snd e = arg) (concat (take 256 hash))"

subsection \<open>Routing tables\<close>

definition RT_TABLE_MAX :: u32 where "RT_TABLE_MAX = 0xFFFFFFFF"

definition rtnl_rttable_hash :: "chain list" where
  "rtnl_rttable_hash =
     (replicate 256 [])[253 := [(253, ''default'')], 254 := [(254, ''main'')], 255 := [(255, ''local'')]]"

definition rtnl_rttable_initialize :: "string list option \<Rightarrow> name_hash \<Rightarrow> name_hash" where
  "rtnl_rttable_initialize file db = initialize_hash file db"

definition rtnl_rttable_n2a :: "string list option \<Rightarrow> u32 \<Rightarrow> nat \<Rightarrow> name_hash \<Rightarrow> string \<times> name_hash" where
  "rtnl_rttable_n2a file i len db =
     (if i > RT_TABLE_MAX then (snprintf len (fmt_u i), db)
      else let db1 = (if \<not> nh_init db then rtnl_rttable_initialize file db else db)
           in case List.find (\<lambda>e. fst e = i) (nh_hash db1 ! unat (i AND 255)) of
                Some e \<Rightarrow> (snd e, db1)
              | None \<Rightarrow> (snprintf len (fmt_u i), db1))"

definition rtnl_rttable_a2n :: "string list option \<Rightarrow> string \<Rightarrow> name_hash \<Rightarrow> u32 option \<times> name_hash" where
  "rtnl_rttable_a2n file arg db =
     (if nh_cache db = Some arg then (Some (ucast (nh_res db)), db)
      else let db1 = (if \<not> nh_init db then rtnl_rttable_initialize file db else db)
           in case find_name arg (nh_hash db1) of
                Some e \<Rightarrow> (Some (fst e), db1\<lparr>nh_cache := Some arg, nh_res := ucast (fst e)\<rparr>)
              | None \<Rightarrow>
                  let (res, end) = strtoul 0 arg; i = (ucast res :: u32)
                  in if end = arg \<or> end \<noteq> [] \<or> i > RT_TABLE_MAX then (None, db1) else (Some i, db1))"

subsection \<open>Device groups\<close>

definition rtnl_group_hash :: "chain list" where
  "rtnl_group_hash = (replicate 256 [])[0 := [(0, ''default'')]]"

definition rtnl_group_initialize :: "string list option \<Rightarrow> name_hash \<Rightarrow> name_hash" where
  "rtnl_group_initialize file db = initialize_hash file db"

definition rtnl_group_a2n :: "string list option \<Rightarrow> string \<Rightarrow> name_hash \<Rightarrow> int option \<times> name_hash" where
  "rtnl_group_a2n file arg db =
     (if nh_cache db = Some arg then (Some (sint (ucast (nh_res db) :: u32)), db)
      else let db1 = (if \<not> nh_init db then rtnl_group_initialize file db else db)
           in case find_name arg (nh_hash db1) of
                Some e \<Rightarrow> (Some (sint (fst e)), db1\<lparr>nh_cache := Some arg, nh_res := ucast (fst e)\<rparr>)
              | None \<Rightarrow>
                  let (v, end, erange) = strtol 0 arg; i = sint (of_int v :: u32)
                  in if end = arg \<or> end \<noteq> [] \<or> i < 0 then (None, db1) else (Some i, db1))"

section \<open>The contract of an array database\<close>

text \<open>
  A loaded database whose names are distinct; and one whose cache agrees with the array besides.
\<close>

definition names_loaded :: "name_tab \<Rightarrow> bool" where
  "names_loaded db \<longleftrightarrow> nt_init db \<and> length (nt_tab db) = 256 \<and>
     (\<forall>i<256. \<forall>j<256. \<forall>n. nt_tab db ! i = Some n \<and> nt_tab db ! j = Some n \<longrightarrow> i = j)"

definition names_ok :: "name_tab \<Rightarrow> bool" where
  "names_ok db \<longleftrightarrow> names_loaded db \<and>
     (\<forall>n. nt_cache db = Some n \<longrightarrow> unat (nt_res db) < 256 \<and> nt_tab db ! unat (nt_res db) = Some n)"

lemma names_okD:
  assumes "names_ok db"
  shows "nt_init db" "length (nt_tab db) = 256"
    "i < 256 \<Longrightarrow> j < 256 \<Longrightarrow> nt_tab db ! i = Some n \<Longrightarrow> nt_tab db ! j = Some n \<Longrightarrow> i = j"
    "nt_cache db = Some n \<Longrightarrow> unat (nt_res db) < 256 \<and> nt_tab db ! unat (nt_res db) = Some n"
  using assms unfolding names_ok_def names_loaded_def by auto

lemma names_ok_cached:
  assumes "names_ok db" "i < 256" "nt_tab db ! i = Some n"
  shows "names_ok (db\<lparr>nt_cache := Some n, nt_res := of_nat i\<rparr>)"
proof -
  have "unat (of_nat i :: u64) = i" using assms(2) by (intro unat_of_nat_eq) simp
  with assms show ?thesis unfolding names_ok_def names_loaded_def by simp
qed

lemma ucast_of_nat_64: "n < 256 \<Longrightarrow> (ucast (of_nat n :: u64) :: u32) = of_nat n"
proof -
  assume "n < 256"
  then have "unat (of_nat n :: u64) = n" by (intro unat_of_nat_eq) simp
  then show ?thesis by (metis of_nat_unat)
qed

locale name_table =
  fixes init :: "name_tab \<Rightarrow> name_tab option" and outside inside :: "int \<Rightarrow> string" and base :: nat
  assumes number_read: "0 \<le> i \<Longrightarrow> i < 256 \<Longrightarrow> strtoul base (inside i) = (of_int i, [])"
    and number_short: "0 \<le> i \<Longrightarrow> i < 256 \<Longrightarrow> inside i \<noteq> [] \<and> length (inside i) \<le> 4"
begin

lemma a2n_name:
  assumes "names_ok db" "i < 256" "nt_tab db ! i = Some name"
  shows "\<exists>db'. tab_a2n init base name db = Some (Some (of_nat i), db') \<and> names_ok db' \<and>
    nt_tab db' = nt_tab db \<and> nt_cache db' = Some name \<and> nt_res db' = of_nat i"
proof (cases "nt_cache db = Some name")
  case True
  then have "unat (nt_res db) = i"
    using names_okD(3) [OF assms(1) _ assms(2) _ assms(3)] names_okD(4) [OF assms(1) True] by blast
  then have "nt_res db = of_nat i" by (metis of_nat_unat ucast_id)
  then show ?thesis using True assms(1,2) by (simp add: tab_a2n_def ucast_of_nat_64)
next
  case False
  have "\<not> nt_tab db ! j = Some name" if "j < i" for j
    using names_okD(3) [OF assms(1), of j i name] that assms(2,3) by auto
  then have "List.find (\<lambda>j. nt_tab db ! j = Some name) [0..<256] = Some i"
    using assms(2,3) unfolding find_upt_Some_iff by blast
  then show ?thesis
    using False names_okD(1) [OF assms(1)] names_ok_cached [OF assms] by (simp add: tab_a2n_def)
qed

lemma a2n_other:
  assumes "names_ok db" "\<And>i. i < 256 \<Longrightarrow> nt_tab db ! i \<noteq> Some arg"
  shows "tab_a2n init base arg db =
    (let (res, end) = strtoul base arg; db2 = db\<lparr>nt_res := res\<rparr>
     in if end = arg \<or> end \<noteq> [] \<or> res > 255 then Some (None, db2) else Some (Some (ucast res), db2))"
proof -
  have "nt_cache db \<noteq> Some arg" using names_okD(4) [OF assms(1)] assms(2) by blast
  moreover have "List.find (\<lambda>j. nt_tab db ! j = Some arg) [0..<256] = None"
    using assms(2) unfolding find_upt_None_iff by blast
  ultimately show ?thesis using names_okD(1) [OF assms(1)] by (simp add: tab_a2n_def)
qed

lemma n2a_loaded:
  assumes "names_ok db" "0 \<le> i" "i < 256" "5 \<le> len"
  shows "tab_n2a init outside inside i len db =
    Some (case nt_tab db ! nat i of Some name \<Rightarrow> name | None \<Rightarrow> inside i, db)"
  using assms names_okD(1) [OF assms(1)] number_short [OF assms(2,3)]
  by (auto simp: tab_n2a_def snprintf_def split: option.split)

lemma roundtrip:
  assumes "names_ok db" "0 \<le> i" "i < 256" "5 \<le> len"
    "\<And>j. nt_tab db ! nat i = None \<Longrightarrow> j < 256 \<Longrightarrow> nt_tab db ! j \<noteq> Some (inside i)"
  shows "\<exists>t db'. tab_n2a init outside inside i len db = Some (t, db) \<and>
    tab_a2n init base t db = Some (Some (of_int i), db')"
proof (cases "nt_tab db ! nat i")
  case (Some name)
  have "nat i < 256" using assms(3) by simp
  from a2n_name [OF assms(1) this Some] show ?thesis using n2a_loaded [OF assms(1-4)] Some assms(2) by auto
next
  case None
  have "\<not> (of_int i :: u64) > 255"
    using assms(2,3) by (simp add: word_less_def uint_word_of_int_eq take_bit_int_eq_self)
  moreover have "(ucast (of_int i :: u64) :: u32) = of_int i"
    using ucast_of_nat_64 [of "nat i"] assms(2,3) by simp
  ultimately show ?thesis
    using None n2a_loaded [OF assms(1-4)] a2n_other [OF assms(1,5)] number_read [OF assms(2,3)] number_short [OF assms(2,3)]
    by (auto simp: Let_def)
qed

text \<open>Whatever the cache holds: its number answers for its text, and every other text is read from the array.\<close>

lemma a2n_uncached:
  assumes "nt_init db" "nt_cache db \<noteq> Some t" "tab_a2n init base t (db\<lparr>nt_cache := None\<rparr>) = Some (r, db')"
  shows "\<exists>db'. tab_a2n init base t db = Some (r, db')"
  using assms by (auto simp: tab_a2n_def Let_def split: option.splits prod.splits if_splits)

lemma roundtrip_any:
  assumes "names_loaded db" "0 \<le> i" "i < 256" "5 \<le> len"
    "\<And>j. nt_tab db ! nat i = None \<Longrightarrow> j < 256 \<Longrightarrow> nt_tab db ! j \<noteq> Some (inside i)"
  shows "\<exists>t db'. tab_n2a init outside inside i len db = Some (t, db) \<and>
    tab_a2n init base t db = Some (Some (if nt_cache db = Some t then ucast (nt_res db) else of_int i), db')"
proof -
  let ?db = "db\<lparr>nt_cache := None\<rparr>"
  have ok: "names_ok ?db" using assms(1) by (simp add: names_ok_def names_loaded_def)
  obtain t db' where t: "tab_n2a init outside inside i len ?db = Some (t, ?db)" "tab_a2n init base t ?db = Some (Some (of_int i), db')"
    using roundtrip [OF ok assms(2-4)] assms(5) by auto
  have init: "nt_init db" using assms(1) by (simp add: names_loaded_def)
  have "tab_n2a init outside inside i len db = Some (t, db)"
    using t(1) init assms(2,3) by (auto simp: tab_n2a_def split: option.splits)
  moreover have "tab_a2n init base t db = Some (Some (ucast (nt_res db)), db)" if "nt_cache db = Some t"
    using that by (simp add: tab_a2n_def)
  ultimately show ?thesis using a2n_uncached [OF init _ t(2)] by (cases "nt_cache db = Some t") auto
qed

text \<open>A number read in between changes what the cached name means.\<close>

lemma cache_spoilt:
  assumes "names_ok db" "i < 256" "nt_tab db ! i = Some name" "\<And>j. j < 256 \<Longrightarrow> nt_tab db ! j \<noteq> Some arg"
  shows "\<exists>r db1 db2. tab_a2n init base name db = Some (Some (of_nat i), db1) \<and>
    tab_a2n init base arg db1 = Some (r, db2) \<and>
    tab_a2n init base name db2 = Some (Some (ucast (fst (strtoul base arg))), db2)"
proof -
  obtain db1 where db1: "tab_a2n init base name db = Some (Some (of_nat i), db1)" "names_ok db1"
    "nt_tab db1 = nt_tab db" "nt_cache db1 = Some name"
    using a2n_name [OF assms(1-3)] by blast
  let ?db2 = "db1\<lparr>nt_res := fst (strtoul base arg)\<rparr>"
  obtain r where "tab_a2n init base arg db1 = Some (r, ?db2)"
    using a2n_other [OF db1(2), of arg, unfolded db1(3), OF assms(4)]
    by (cases "strtoul base arg") (auto simp: Let_def split: if_splits)
  moreover have "tab_a2n init base name ?db2 = Some (Some (ucast (fst (strtoul base arg))), ?db2)"
    by (simp add: tab_a2n_def db1(4))
  ultimately show ?thesis using db1(1) by blast
qed

end

section \<open>The four databases satisfy it\<close>

lemma strtoul_small: "scan_number base t = Some (False, n, []) \<Longrightarrow> n < 256 \<Longrightarrow> strtoul base t = (of_nat n, [])"
  by (simp add: strtoul_def ULONG_MAX_def)

lemma small_int: "0 \<le> i \<Longrightarrow> i < 256 \<Longrightarrow> unat (of_int i :: u32) = nat i"
  using unat_of_nat_eq [of "nat i", where 'a = 32] by simp

lemma decimal_texts:
  assumes "0 \<le> i" "i < 256"
  shows "strtoul 0 (show_u i) = (of_int i, [])" "strtoul 0 (fmt_d i) = (of_int i, [])"
    "show_u i \<noteq> [] \<and> length (show_u i) \<le> 4" "fmt_d i \<noteq> [] \<and> length (fmt_d i) \<le> 4"
proof -
  have t: "show_u i = fmt_base 10 (nat i)" "fmt_d i = fmt_base 10 (nat i)"
    using assms by (simp_all add: show_u_def fmt_u_def fmt_d_def small_int)
  have "strtoul 0 (fmt_base 10 (nat i)) = (of_nat (nat i), [])"
    using assms by (intro strtoul_small scan_number_fmt) auto
  then show "strtoul 0 (show_u i) = (of_int i, [])" "strtoul 0 (fmt_d i) = (of_int i, [])"
    using assms by (simp_all add: t)
  show "show_u i \<noteq> [] \<and> length (show_u i) \<le> 4" "fmt_d i \<noteq> [] \<and> length (fmt_d i) \<le> 4"
    using length_fmt_base [of "nat i" 10 4] assms by (simp_all add: t)
qed

lemma hex_text:
  assumes "0 \<le> i" "i < 256"
  shows "strtoul 16 (show_0x02x i) = (of_int i, [])" "show_0x02x i \<noteq> [] \<and> length (show_0x02x i) \<le> 4"
proof -
  let ?s = "fmt_0x 2 (of_int i :: u32)" and ?f = "fmt_base 16 (nat i)"
  have f: "?s = replicate (2 - length ?f) (CHR ''0'') @ ?f"
    using assms by (simp add: fmt_0x_def fmt_x_def small_int)
  have len: "length ?f \<le> 2" using assms by (intro length_fmt_base) auto
  have zero: "digits_val 16 0 (replicate k (CHR ''0'') @ t) = digits_val 16 0 t" for k t
    by (induction k) (simp_all add: digit_val_def)
  have digits: "list_all (\<lambda>c. digit_val c < 16) ?s"
  proof -
    have "list_all (\<lambda>c. digit_val c < 16) ?f"
      using fmt_base_digits [of 16 _ "nat i"] by (fastforce simp: list_all_iff)
    moreover have "digit_val (CHR ''0'') < 16" by (simp add: digit_val_def)
    ultimately show ?thesis by (auto simp: f list_all_iff)
  qed
  have ne: "?s \<noteq> []" by (simp add: f)
  then have "starts_digit 16 ?s" using digits by (cases ?s) simp_all
  then have "scan_number 16 (show_0x02x i) = Some (False, scan_digits 16 0 ?s)"
    by (simp add: show_0x02x_def scan_number_def scan_base_def isspace_def)
  also have "scan_digits 16 0 ?s = (nat i, [])"
    using scan_digits_all [OF digits, of 0] digits_val_fmt_base [of 16 "nat i"] by (simp add: f zero)
  finally show "strtoul 16 (show_0x02x i) = (of_int i, [])"
    using strtoul_small [of 16 "show_0x02x i" "nat i"] assms by simp
  show "show_0x02x i \<noteq> [] \<and> length (show_0x02x i) \<le> 4"
    using len by (simp add: show_0x02x_def f)
qed

interpretation rtprot: name_table "rtnl_rtprot_initialize conf" show_u show_u 0 for conf
  by unfold_locales (use decimal_texts in auto)

interpretation rtscope: name_table "rtnl_rtscope_initialize conf" fmt_d fmt_d 0 for conf
  by unfold_locales (use decimal_texts in auto)

interpretation rtrealm: name_table "rtnl_rtrealm_initialize conf" fmt_d fmt_d 0 for conf
  by unfold_locales (use decimal_texts in auto)

interpretation dsfield: name_table "rtnl_rtdsfield_initialize conf" fmt_d show_0x02x 16 for conf
  by unfold_locales (use hex_text in auto)

text \<open>
  C26: In a loaded database with distinct names, printing a number and reading the text gives the
  number back, for all 256 numbers of the protocol, scope, realm and traffic class databases:
  by its name if it has one, and else as a number, as long as no name looks like that number. The one exception is a text that the
  static cache of the reader holds: it is read as the number that stands in the cache, whatever the table says.
\<close>

theorem names_read_back:
  assumes "names_loaded db" "0 \<le> i" "i < 256" "5 \<le> len"
    and "\<forall>j<256. nt_tab db ! j \<notin> {Some (fmt_d i), Some (show_0x02x i)}"
    and "(n2a, a2n) \<in> {(rtnl_rtprot_n2a conf, rtnl_rtprot_a2n conf), (rtnl_rtscope_n2a conf, rtnl_rtscope_a2n conf),
                        (rtnl_rtrealm_n2a conf, rtnl_rtrealm_a2n conf), (rtnl_dsfield_n2a conf, rtnl_dsfield_a2n conf)}"
  shows "\<exists>t db'. n2a i len db = Some (t, db) \<and>
    a2n t db = Some (Some (if nt_cache db = Some t then ucast (nt_res db) else of_int i), db')"
proof -
  have u: "show_u i = fmt_d i" using assms(2,3) by (simp add: show_u_def fmt_u_def fmt_d_def small_int)
  have d: "nt_tab db ! j \<noteq> Some (fmt_d i)" "nt_tab db ! j \<noteq> Some (show_0x02x i)" if "j < 256" for j
    using assms(5) that by blast+
  show ?thesis
    using assms(6) rtprot.roundtrip_any [OF assms(1-4), of conf] rtscope.roundtrip_any [OF assms(1-4), of conf]
      rtrealm.roundtrip_any [OF assms(1-4), of conf] dsfield.roundtrip_any [OF assms(1-4), of conf] d u
    unfolding rtnl_rtprot_n2a_def rtnl_rtprot_a2n_def rtnl_rtscope_n2a_def rtnl_rtscope_a2n_def
      rtnl_rtrealm_n2a_def rtnl_rtrealm_a2n_def rtnl_dsfield_n2a_def rtnl_dsfield_a2n_def by auto
qed

definition demo_names :: name_tab where
  "demo_names = \<lparr>nt_tab = (replicate 256 None)[2 := Some ''kernel'', 4 := Some ''static''],
                 nt_init = True, nt_cache = None, nt_res = 0\<rparr>"

lemma demo_names_ok: "names_ok demo_names"
  by (auto simp: names_ok_def names_loaded_def demo_names_def nth_list_update split: if_splits)

theorem names_read_back_witness:
  "\<exists>t db'. rtnl_rtprot_n2a None 2 64 demo_names = Some (t, demo_names) \<and>
     rtnl_rtprot_a2n None t demo_names = Some (Some 2, db')"
proof -
  have "fmt_d 2 = ''2''" "show_0x02x 2 = ''0x02''" by code_simp+
  then have "\<forall>j<256. nt_tab demo_names ! j \<notin> {Some (fmt_d 2), Some (show_0x02x 2)}"
    by (auto simp: demo_names_def nth_list_update)
  moreover have "names_loaded demo_names" using demo_names_ok by (simp add: names_ok_def)
  moreover have "nt_cache demo_names = None" by (simp add: demo_names_def)
  ultimately show ?thesis
    using names_read_back [of demo_names 2 64 "rtnl_rtprot_n2a None" "rtnl_rtprot_a2n None" None] by simp
qed

text \<open>
  The cache of the four name readers goes stale. After a name was read, reading any text that
  is not a name (a number, or one that is rejected) overwrites the cached number but not the
  cached name, so the next time the same name stands for the number of that text.
\<close>

theorem name_cache_goes_stale:
  assumes "names_ok db" "i < 256" "nt_tab db ! i = Some name" "\<forall>j<256. nt_tab db ! j \<noteq> Some arg"
    and "(a2n, base) \<in> {(rtnl_rtprot_a2n conf, 0), (rtnl_rtscope_a2n conf, 0), (rtnl_rtrealm_a2n conf, 0),
                        (rtnl_dsfield_a2n conf, 16)}"
  shows "\<exists>r db1 db2. a2n name db = Some (Some (of_nat i), db1) \<and> a2n arg db1 = Some (r, db2) \<and>
    a2n name db2 = Some (Some (ucast (fst (strtoul base arg))), db2)"
  using assms(5) rtprot.cache_spoilt [OF assms(1-3), of arg conf] rtscope.cache_spoilt [OF assms(1-3), of arg conf]
    rtrealm.cache_spoilt [OF assms(1-3), of arg conf] dsfield.cache_spoilt [OF assms(1-3), of arg conf] assms(4)
  unfolding rtnl_rtprot_a2n_def rtnl_rtscope_a2n_def rtnl_rtrealm_a2n_def rtnl_dsfield_a2n_def by auto

theorem name_cache_goes_stale_witness:
  "\<exists>r db1 db2. rtnl_rtprot_a2n None ''kernel'' demo_names = Some (Some 2, db1) \<and>
     rtnl_rtprot_a2n None ''100'' db1 = Some (r, db2) \<and>
     rtnl_rtprot_a2n None ''kernel'' db2 = Some (Some 100, db2)"
proof -
  have 1: "nt_tab demo_names ! 2 = Some ''kernel''" "\<forall>j<256. nt_tab demo_names ! j \<noteq> Some ''100''"
    by (auto simp: demo_names_def nth_list_update)
  have "scan_number 0 ''100'' = Some (False, 100, [])" by code_simp
  then have "(ucast (fst (strtoul 0 ''100'')) :: u32) = 100" by (simp add: strtoul_small)
  with name_cache_goes_stale [OF demo_names_ok _ 1, of "rtnl_rtprot_a2n None" 0 None] show ?thesis by simp
qed

section \<open>What a hash table holds\<close>

text \<open>The entries of a file: all lines up to the first one that is neither a comment nor an entry.\<close>

fun file_entries :: "string list \<Rightarrow> (u32 \<times> string) list" where
  "file_entries [] = []"
| "file_entries (l # ls) =
     (case read_line l of
        Skip \<Rightarrow> file_entries ls
      | Corrupt \<Rightarrow> []
      | Entry i name \<Rightarrow> (if i < 0 then [] else [(of_int i, name)]) @ file_entries ls)"

lemma find_append: "List.find P (xs @ ys) = (case List.find P xs of Some x \<Rightarrow> Some x | None \<Rightarrow> List.find P ys)"
  by (induction xs) auto

lemma bucket_less: "unat ((i :: u32) AND 255) < 256"
proof -
  have "i AND 255 \<le> 255" by (rule word_and_le1)
  then show ?thesis by (simp add: word_le_nat_alt)
qed

lemma hash_lines_lookup:
  "length hash = 256 \<Longrightarrow>
   List.find (\<lambda>e. fst e = i) (hash_lines ls hash 256 ! unat (i AND 255)) =
     List.find (\<lambda>e. fst e = i) (rev (file_entries ls) @ hash ! unat (i AND 255))"
proof (induction ls hash "256 :: nat" rule: hash_lines.induct)
  case (2 l ls hash)
  show ?case
  proof (cases "read_line l")
    case (Entry j name)
    let ?w = "of_int j :: u32"
    let ?hash = "hash[unat (?w AND 255) := (?w, name) # hash ! unat (?w AND 255)]"
    have "List.find (\<lambda>e. fst e = i) (?hash ! unat (i AND 255)) =
        List.find (\<lambda>e. fst e = i) ([(?w, name)] @ hash ! unat (i AND 255))"
      using 2(4) bucket_less [of i] by (cases "unat (?w AND 255) = unat (i AND 255)") auto
    then show ?thesis
      using 2(2) [OF Entry] 2(3) [OF Entry _ refl] 2(4) Entry
      by (cases "j < 0") (simp_all add: find_append Let_def del: find.simps split: option.split)
  qed (use 2 in simp_all)
qed simp

text \<open>
  The table database is the file read from its end: the first time it is used, the name of a
  table is the one of the last line for its number, then the built-in one, and else the number.
\<close>

theorem rttable_name_is_last_line:
  assumes "length (nh_hash db) = 256" "\<not> nh_init db"
  shows "fst (rtnl_rttable_n2a (Some ls) i len db) =
    (case map_of (rev (file_entries ls) @ nh_hash db ! unat (i AND 255)) i of
       Some name \<Rightarrow> name
     | None \<Rightarrow> snprintf len (fmt_u i))"
proof -
  have m: "map_of es i = map_option snd (List.find (\<lambda>e. fst e = i) es)" for es :: chain
    by (induction es) auto
  have "\<not> i > RT_TABLE_MAX"
    using unsigned_less [of i, where ?'a = nat] by (simp add: RT_TABLE_MAX_def word_less_nat_alt)
  then show ?thesis
    using hash_lines_lookup [OF assms(1), of i ls] assms(2) unfolding m
    by (simp add: rtnl_rttable_n2a_def rtnl_rttable_initialize_def initialize_hash_def rtnl_hash_initialize_def Let_def
        split: option.split)
qed

definition fresh_tables :: name_hash where
  "fresh_tables = \<lparr>nh_hash = rtnl_rttable_hash, nh_init = False, nh_cache = None, nh_res = 0\<rparr>"

theorem rttable_name_is_last_line_witness:
  "fst (rtnl_rttable_n2a (Some [''# tables'', ''200 isp'', ''0xc8 uplink'']) 200 64 fresh_tables) = ''uplink'' \<and>
   fst (rtnl_rttable_n2a (Some [''# tables'', ''200 isp'', ''0xc8 uplink'']) 254 64 fresh_tables) = ''main''"
proof -
  let ?ls = "[''# tables'', ''200 isp'', ''0xc8 uplink'']"
  have len: "length (nh_hash fresh_tables) = 256" "\<not> nh_init fresh_tables"
    by (simp_all add: fresh_tables_def rtnl_rttable_hash_def)
  have sn: "scan_number 16 (drop 2 ''0xc8 uplink'') = Some (False, 200, '' uplink'')"
    "scan_number 10 ''200 isp'' = Some (False, 200, '' isp'')"
    by code_simp+
  have "read_line ''# tables'' = Skip" by code_simp
  moreover have "read_line ''200 isp'' = Entry 200 ''isp''"
    using sn(2) by (simp add: read_line_def scan_hex_entry_def scan_dec_entry_def strtol_def LONG_MAX_def LONG_MIN_def
        scan_name_def isspace_def tab_def newline_def)
  moreover have "read_line ''0xc8 uplink'' = Entry 200 ''uplink''"
    using sn(1) by (simp add: read_line_def scan_hex_entry_def strtoul_small strtoul_def ULONG_MAX_def scan_name_def
        isspace_def tab_def newline_def)
  ultimately have "file_entries ?ls = [(200, ''isp''), (200, ''uplink'')]" by simp
  then show ?thesis
    using rttable_name_is_last_line [OF len, of ?ls 200 64] rttable_name_is_last_line [OF len, of ?ls 254 64]
    by (simp add: fresh_tables_def rtnl_rttable_hash_def)
qed

end
