(* ===== verification/Ll_Names.thy ===== *)
theory Ll_Names
  imports Utils_Props
begin

unbundle bit_operations_syntax

text \<open>
  Names and addresses of the link layer: hardware types (\<^verbatim>\<open>ll_types.c\<close>), protocols (\<^verbatim>\<open>ll_proto.c\<close>),
  addresses (\<^verbatim>\<open>ll_addr.c\<close>), and the numbers of IP protocols (\<^verbatim>\<open>inet_proto.c\<close>). The system's protocol
  database and \<^verbatim>\<open>inet_ntop\<close> are parameters. A store or a read outside an array is \<open>None\<close>.
\<close>

section \<open>Hardware types\<close>

definition arphrd_names :: "(int \<times> string) list" where
  "arphrd_names =
     [(0, ''generic''), (1, ''ether''), (2, ''eether''), (3, ''ax25''), (4, ''pronet''), (5, ''chaos''),
      (6, ''ieee802''), (7, ''arcnet''), (8, ''atalk''), (15, ''dlci''), (19, ''atm''), (23, ''metricom''),
      (24, ''ieee1394''), (32, ''infiniband''), (256, ''slip''), (257, ''cslip''), (258, ''slip6''),
      (259, ''cslip6''), (260, ''rsrvd''), (264, ''adapt''), (270, ''rose''), (271, ''x25''), (272, ''hwx25''),
      (280, ''can''), (512, ''ppp''), (513, ''hdlc''), (516, ''lapb''), (517, ''ddcmp''), (518, ''rawhdlc''),
      (768, ''ipip''), (769, ''tunnel6''), (770, ''frad''), (771, ''skip''), (772, ''loopback''),
      (773, ''ltalk''), (774, ''fddi''), (775, ''bif''), (776, ''sit''), (777, ''ip/ddp''), (778, ''gre''),
      (779, ''pimreg''), (780, ''hippi''), (781, ''ash''), (782, ''econet''), (783, ''irda''), (784, ''fcpp''),
      (785, ''fcal''), (786, ''fcpl''), (787, ''fcfb0''), (788, ''fcfb1''), (789, ''fcfb2''), (790, ''fcfb3''),
      (791, ''fcfb4''), (792, ''fcfb5''), (793, ''fcfb6''), (794, ''fcfb7''), (795, ''fcfb8''), (796, ''fcfb9''),
      (797, ''fcfb10''), (798, ''fcfb11''), (799, ''fcfb12''), (800, ''tr''), (801, ''ieee802.11''),
      (802, ''ieee802.11/prism''), (803, ''ieee802.11/radiotap''), (804, ''ieee802.15.4''), (820, ''phonet''),
      (821, ''phonet_pipe''), (822, ''caif''), (65534, ''none''), (65535, ''void'')]"

definition ll_type_n2a :: "int \<Rightarrow> nat \<Rightarrow> string" where
  "ll_type_n2a type len =
     (case List.find (\<lambda>e. fst e = type) arphrd_names of
        Some e \<Rightarrow> snd e
      | None \<Rightarrow> snprintf len (''['' @ fmt_d type @ '']''))"

section \<open>Protocols\<close>

definition llproto_names :: "(u16 \<times> string) list" where
  "llproto_names =
     [(96, ''loop''), (512, ''pup''), (513, ''pupat''), (2048, ''ip''), (2053, ''x25''), (2054, ''arp''),
      (2303, ''bpq''), (2560, ''ieeepup''), (2561, ''ieeepupat''), (24576, ''dec''), (24577, ''dna_dl''),
      (24578, ''dna_rc''), (24579, ''dna_rt''), (24580, ''lat''), (24581, ''diag''), (24582, ''cust''),
      (24583, ''sca''), (32821, ''rarp''), (32923, ''atalk''), (33011, ''aarp''), (33079, ''ipx''),
      (34525, ''ipv6''), (34915, ''ppp_disc''), (34916, ''ppp_ses''), (34892, ''atmmpoa''), (34948, ''atmfate''),
      (1, ''802_3''), (2, ''ax25''), (3, ''all''), (4, ''802_2''), (5, ''snap''), (6, ''ddcmp''),
      (7, ''wan_ppp''), (8, ''ppp_mp''), (9, ''localtalk''), (12, ''can''), (16, ''ppptalk''), (17, ''tr_802_2''),
      (21, ''mobitex''), (22, ''control''), (23, ''irda''), (24, ''econet''), (35018, ''tipc''), (34978, ''aoe''),
      (33024, ''802.1Q''), (35020, ''LLDP''), (2048, ''ipv4'')]"

text \<open>The numbers are in network byte order outside the table.\<close>

definition ll_proto_n2a :: "u16 \<Rightarrow> nat \<Rightarrow> string" where
  "ll_proto_n2a i len =
     (case List.find (\<lambda>e. fst e = ntohs i) llproto_names of
        Some e \<Rightarrow> snd e
      | None \<Rightarrow> snprintf len (''['' @ fmt_u (ntohs i) @ '']''))"

definition ll_proto_a2n :: "string \<Rightarrow> u16 option" where
  "ll_proto_a2n buf =
     (case List.find (\<lambda>e. strcaseeq (snd e) buf) llproto_names of
        Some e \<Rightarrow> Some (htons (fst e))
      | None \<Rightarrow> map_option htons (get_u16 buf 0))"

section \<open>Addresses\<close>

definition ARPHRD_TUNNEL :: int where "ARPHRD_TUNNEL = 768"
definition ARPHRD_TUNNEL6 :: int where "ARPHRD_TUNNEL6 = 769"
definition ARPHRD_SIT :: int where "ARPHRD_SIT = 776"
definition ARPHRD_IPGRE :: int where "ARPHRD_IPGRE = 778"

text \<open>
  The loop: \<open>blen\<close> is the room that is left, an \<^verbatim>\<open>int\<close> that becomes a huge size once it is negative, so that
  the next byte is written behind the buffer. A piece that does not fit is cut off and ends the text.
\<close>

fun lladdr_pieces :: "bool \<Rightarrow> u8 list \<Rightarrow> int \<Rightarrow> string option" where
  "lladdr_pieces is_first [] blen = Some []"
| "lladdr_pieces is_first (b # bs) blen =
     (let piece = (if is_first then [] else '':'') @ fmt_0x 2 b
      in if blen < 0 then None
         else map_option (\<lambda>r. if int (length piece) < blen then piece @ r else take (nat (blen - 1)) piece)
                (lladdr_pieces False bs (blen - int (length piece))))"

definition ll_addr_n2a ::
  "(nat \<Rightarrow> u8 list \<Rightarrow> nat \<Rightarrow> string option) \<Rightarrow> u8 list \<Rightarrow> int \<Rightarrow> nat \<Rightarrow> string option" where
  "ll_addr_n2a ntop addr type blen =
     (if length addr = 4 \<and> (type = ARPHRD_TUNNEL \<or> type = ARPHRD_SIT \<or> type = ARPHRD_IPGRE) then ntop AF_INET addr blen
      else if length addr = 16 \<and> type = ARPHRD_TUNNEL6 then ntop AF_INET6 addr blen
      else lladdr_pieces True addr (int blen))"

text \<open>
  The result of the reader is its return value and the bytes stored, \<open>None\<close> for -1. \<open>room\<close> counts the
  entries of the array that are left. \<^verbatim>\<open>%x\<close> reads like \<^verbatim>\<open>strtoul\<close> to the base 16.
\<close>

fun a2n_bytes :: "nat \<Rightarrow> u8 list \<Rightarrow> string \<Rightarrow> (int \<times> u8 list) option" where
  "a2n_bytes 0 acc arg = Some (int (length acc) + 1, acc)"
| "a2n_bytes (Suc room) acc arg =
     (let grp = upto_chr arg (CHR '':''); (v, r) = strtoul 16 grp; temp = sint (ucast v :: u32)
      in if r = grp \<or> temp < 0 \<or> temp > 255 then None
         else case strchr arg (CHR '':'') of
                None \<Rightarrow> Some (int (length acc) + 1, acc @ [of_int temp])
              | Some cp \<Rightarrow> a2n_bytes room (acc @ [of_int temp]) (tl cp))"

definition ll_addr_a2n :: "(string \<Rightarrow> u8 list option) \<Rightarrow> nat \<Rightarrow> string \<Rightarrow> (int \<times> u8 list) option" where
  "ll_addr_a2n pton6 len arg =
     (if strchr arg (CHR ''.'') \<noteq> None
      then case get_addr_1 pton6 arg AF_INET of
             None \<Rightarrow> None
           | Some pfx \<Rightarrow> if len < 4 then None else Some (4, take 4 (pfx_data pfx))
      else a2n_bytes len [] arg)"

section \<open>IP protocols\<close>

text \<open>The static cache of each function: 16 bytes, without end mark when the name fills them.\<close>

record proto_cache =
  pc_ncache :: string
  pc_icache :: int

definition inet_proto_n2a ::
  "(int \<Rightarrow> string option) \<Rightarrow> int \<Rightarrow> nat \<Rightarrow> proto_cache \<Rightarrow> (string \<times> proto_cache) option" where
  "inet_proto_n2a bynumber proto len c =
     (if proto = pc_icache c then if length (pc_ncache c) < 16 then Some (pc_ncache c, c) else None
      else case bynumber proto of
             Some name \<Rightarrow>
               if length name < len then Some (name, \<lparr>pc_ncache = take 16 name, pc_icache = proto\<rparr>) else None
           | None \<Rightarrow> Some (snprintf len (''ipproto-'' @ fmt_d proto), c))"

text \<open>\<open>byname\<close> gives the official name and the number for a name or an alias.\<close>

definition inet_proto_a2n ::
  "(string \<Rightarrow> (string \<times> int) option) \<Rightarrow> string \<Rightarrow> proto_cache \<Rightarrow> (int \<times> proto_cache) option" where
  "inet_proto_a2n byname buf c =
     (if pc_icache c \<ge> 0 \<and> length (pc_ncache c) \<ge> 16 \<and> take 16 buf = pc_ncache c then None
      else if pc_icache c \<ge> 0 \<and> pc_ncache c = buf then Some (pc_icache c, c)
      else if buf \<noteq> [] \<and> digit_val (hd buf) < 10
      then Some (case get_u8 buf 10 of None \<Rightarrow> -1 | Some v \<Rightarrow> uint v, c)
      else case byname buf of
             Some (name, proto) \<Rightarrow> Some (proto, \<lparr>pc_ncache = take 16 name, pc_icache = proto\<rparr>)
           | None \<Rightarrow> Some (-1, c))"

section \<open>Printed addresses\<close>

fun lladdr_text :: "u8 list \<Rightarrow> string" where
  "lladdr_text [] = []"
| "lladdr_text [b] = fmt_0x 2 b"
| "lladdr_text (b # bs) = fmt_0x 2 b @ CHR '':'' # lladdr_text bs"

lemma length_byte [simp]: "length (fmt_0x 2 (b :: u8)) = 2"
  by (simp add: fmt_0x_byte)

lemma pieces_rest: "3 * int (length bs) < blen \<Longrightarrow>
  lladdr_pieces False bs blen = Some (if bs = [] then [] else CHR '':'' # lladdr_text bs)"
proof (induction bs arbitrary: blen)
  case (Cons b bs)
  have "3 * int (length bs) < blen - 3" "3 < blen" using Cons.prems by simp_all
  with Cons.IH [of "blen - 3"] show ?case by (cases bs) simp_all
qed simp

lemma pieces_first:
  assumes "bs \<noteq> []" "3 * int (length bs) \<le> blen" shows "lladdr_pieces True bs blen = Some (lladdr_text bs)"
proof -
  obtain b r where b: "bs = b # r" using assms(1) by (cases bs) auto
  have "3 * int (length r) < blen - 2" "2 < blen" using assms(2) by (simp_all add: b)
  with pieces_rest [of r "blen - 2"] show ?thesis by (cases r) (simp_all add: b)
qed

lemma byte_digits: "c \<in> set (fmt_0x 2 (b :: u8)) \<Longrightarrow> digit_val c < 16 \<and> c \<noteq> CHR '':'' \<and> c \<noteq> CHR ''.''"
proof -
  assume "c \<in> set (fmt_0x 2 b)"
  then have "c = digit_char (unat b div 16) \<or> c = digit_char (unat b mod 16)" by (simp add: fmt_0x_byte)
  moreover have "unat b div 16 < 16" using unsigned_less [of b, where ?'a = nat] by (simp add: less_mult_imp_div_less)
  moreover have "unat b mod 16 < 16" by simp
  ultimately show ?thesis using digit_char_neq(6,7) by auto
qed

lemma byte_read: "strtoul 16 (fmt_0x 2 (b :: u8)) = (ucast b, [])"
proof -
  let ?s = "fmt_0x 2 b" and ?h = "unat b div 16" and ?l = "unat b mod 16"
  have u: "unat b < 256" using unsigned_less [of b, where ?'a = nat] by simp
  then have h: "?h < 16" by (simp add: less_mult_imp_div_less)
  have digits: "list_all (\<lambda>c. digit_val c < 16) ?s" using byte_digits by (auto simp: list_all_iff)
  have "scan_digits 16 0 ?s = (unat b, [])"
    using scan_digits_all [OF digits, of 0] h by (simp add: fmt_0x_byte)
  moreover have "scan_number 16 ?s = Some (False, scan_digits 16 0 ?s)"
    using h digit_char_neq(1-5) [OF h] digit_char_neq(4,5) [of ?l]
    by (simp add: scan_number_def fmt_0x_byte scan_base_def)
  ultimately show ?thesis using u by (simp add: strtoul_def ULONG_MAX_def)
qed

lemma text_chars: "c \<in> set (lladdr_text bs) \<Longrightarrow> c = CHR '':'' \<or> digit_val c < 16 \<and> c \<noteq> CHR ''.''"
  by (induction bs rule: lladdr_text.induct) (auto dest: byte_digits)

lemma group_read:
  assumes "r = [] \<or> hd r = CHR '':''"
  shows "upto_chr (fmt_0x 2 (b :: u8) @ r) (CHR '':'') = fmt_0x 2 b"
    "strchr (fmt_0x 2 b @ r) (CHR '':'') = (if r = [] then None else Some r)"
proof -
  have n: "\<forall>c\<in>set (fmt_0x 2 b). c \<noteq> CHR '':''" using byte_digits by blast
  then have "takeWhile (\<lambda>x. x \<noteq> CHR '':'') (fmt_0x 2 b @ r) = fmt_0x 2 b"
    "dropWhile (\<lambda>x. x \<noteq> CHR '':'') (fmt_0x 2 b @ r) = r"
    using assms by (cases r; auto simp: takeWhile_append dropWhile_append)+
  then show "upto_chr (fmt_0x 2 b @ r) (CHR '':'') = fmt_0x 2 b"
    "strchr (fmt_0x 2 b @ r) (CHR '':'') = (if r = [] then None else Some r)"
    by (simp_all add: upto_chr_def strchr_def Let_def)
qed

lemma byte_value: "sint (ucast (ucast (b :: u8) :: u64) :: u32) = uint b" "0 \<le> uint b" "uint b < 256"
proof -
  show b: "0 \<le> uint b" "uint b < 256" using unsigned_less [of b, where ?'a = int] by simp_all
  have "(ucast (ucast b :: u64) :: u32) = ucast b" by (rule bit_word_eqI) (auto simp: bit_simps)
  moreover have "uint (ucast b :: u32) = uint b" using b by (simp add: unsigned_ucast_eq take_bit_int_eq_self)
  moreover have "signed_take_bit 31 (uint b) = uint b" 
    using b order_trans [of "- 2147483648" 0 "uint b"] by (intro signed_take_bit_int_eq_self) simp_all
  ultimately show "sint (ucast (ucast b :: u64) :: u32) = uint b" unfolding sint_uint by simp
qed

text \<open>One byte and what follows it.\<close>

lemma a2n_step:
  assumes "r = [] \<or> hd r = CHR '':''"
  shows "a2n_bytes (Suc room) acc (fmt_0x 2 b @ r) =
    (if r = [] then Some (int (length acc) + 1, acc @ [b]) else a2n_bytes room (acc @ [b]) (tl r))"
proof -
  have ne: "[] \<noteq> fmt_0x 2 b" by (simp add: fmt_0x_byte)
  have ok: "\<not> uint b < 0" "\<not> 255 < uint b" using byte_value(2,3) [of b] by linarith+
  show ?thesis
    unfolding a2n_bytes.simps group_read [OF assms, of b] byte_read Let_def prod.case byte_value(1)
    using ne ok by simp
qed

lemma a2n_text:
  "bs \<noteq> [] \<Longrightarrow> a2n_bytes len acc (lladdr_text bs) =
     (if length bs \<le> len then Some (int (length (acc @ bs)), acc @ bs)
      else Some (int (length acc + len) + 1, acc @ take len bs))"
proof (induction bs arbitrary: len acc rule: lladdr_text.induct)
  case (2 b)
  show ?case using a2n_step [of "[]" "len - 1" acc b] by (cases len) simp_all
next
  case (3 b c bs)
  show ?case
    using 3 a2n_step [of "CHR '':'' # lladdr_text (c # bs)" "len - 1" acc b] by (cases len) (simp_all add: Let_def)
qed simp

text \<open>
  C31: A link-layer address printed into a buffer of three bytes per byte reads back: its bytes are stored
  and their number is returned. When the text has more bytes than the array, the array is filled but the number
  returned is one more than the array holds. The four bytes of an IPv4 tunnel end are printed by \<^verbatim>\<open>inet_ntop\<close> as a dotted quad, given a buffer of sixteen bytes, which reads back too, unless
  the array has less than four bytes, when it is refused. The sixteen bytes of an IPv6 tunnel end (type \<^verbatim>\<open>ARPHRD_TUNNEL6\<close>) are not
  covered: they are printed in a form that the reader does not know.
\<close>

theorem lladdr_text_roundtrip:
  assumes "bs \<noteq> []" "3 * length bs \<le> blen" "\<not> (type = ARPHRD_TUNNEL6 \<and> length bs = 16)"
    and "length bs = 4 \<and> type \<in> {ARPHRD_TUNNEL, ARPHRD_SIT, ARPHRD_IPGRE} \<Longrightarrow> 16 \<le> blen"
    and ntop: "\<And>q. length q = 4 \<Longrightarrow> 16 \<le> blen \<Longrightarrow> ntop AF_INET q blen = Some (quad_text q)"
  shows "\<exists>t. ll_addr_n2a ntop bs type blen = Some t \<and>
    ll_addr_a2n pton6 len t =
      (if length bs = 4 \<and> type \<in> {ARPHRD_TUNNEL, ARPHRD_SIT, ARPHRD_IPGRE} then if len < 4 then None else Some (4, bs)
       else if length bs \<le> len then Some (int (length bs), bs) else Some (int len + 1, take len bs))"
proof (cases "length bs = 4 \<and> type \<in> {ARPHRD_TUNNEL, ARPHRD_SIT, ARPHRD_IPGRE}")
  case True
  then have "ll_addr_n2a ntop bs type blen = Some (quad_text bs)" using ntop [of bs] assms(4) by (auto simp: ll_addr_n2a_def)
  moreover have "CHR ''.'' \<in> set (quad_text bs)" using True by (cases bs rule: quad_text.cases) auto
  then have "strchr (quad_text bs) (CHR ''.'') \<noteq> None" by (induction "quad_text bs") (auto simp: strchr_def)
  ultimately show ?thesis
    using True get_addr_1_quad [OF assms(1), of AF_INET pton6] by (auto simp: ll_addr_a2n_def store_data_def zero_prefix_def)
next
  case False
  have "ll_addr_n2a ntop bs type blen = Some (lladdr_text bs)"
    using False assms(1-3) pieces_first [OF assms(1), of "int blen"] by (auto simp: ll_addr_n2a_def)
  moreover have "CHR ''.'' \<notin> set (lladdr_text bs)" using text_chars [of "CHR ''.''" bs] by auto
  then have "ll_addr_a2n pton6 len (lladdr_text bs) =
      (if length bs \<le> len then Some (int (length bs), bs) else Some (int len + 1, take len bs))"
    using a2n_text [OF assms(1), of len "[]"] by (simp add: ll_addr_a2n_def strchr_None)
  ultimately show ?thesis using False by auto
qed

theorem lladdr_text_roundtrip_witness:
  "(\<exists>t. ll_addr_n2a (\<lambda>af bs n. Some (quad_text bs)) [0, 27, 255] 1 64 = Some t \<and> ll_addr_a2n (\<lambda>s. None) 2 t = Some (3, [0, 27])) \<and>
   (\<exists>t. ll_addr_n2a (\<lambda>af bs n. Some (quad_text bs)) [10, 0, 0, 1] ARPHRD_SIT 64 = Some t \<and> ll_addr_a2n (\<lambda>s. None) 20 t = Some (4, [10, 0, 0, 1]))"
  using lladdr_text_roundtrip [of "[0, 27, 255]" 64 1 "\<lambda>af bs n. Some (quad_text bs)" "\<lambda>s. None" 2]
    lladdr_text_roundtrip [of "[10, 0, 0, 1]" 64 ARPHRD_SIT "\<lambda>af bs n. Some (quad_text bs)" "\<lambda>s. None" 20]
  by simp

section \<open>Protocol names\<close>

lemma htons_ntohs_id: "htons (ntohs w) = w" "ntohs (htons w) = w"
  using le_bytes_of_le_bytes [of "rev (le_bytes 2 w)", where 'a = 16] by (simp_all add: htons_def ntohs_def)

text \<open>No two names agree up to case, so a name finds its own entry.\<close>

lemma proto_lower:
  "map (\<lambda>e. map to_lower (snd e)) llproto_names =
     [''loop'', ''pup'', ''pupat'', ''ip'', ''x25'', ''arp'', ''bpq'', ''ieeepup'', ''ieeepupat'', ''dec'',
      ''dna_dl'', ''dna_rc'', ''dna_rt'', ''lat'', ''diag'', ''cust'', ''sca'', ''rarp'', ''atalk'',
      ''aarp'', ''ipx'', ''ipv6'', ''ppp_disc'', ''ppp_ses'', ''atmmpoa'', ''atmfate'', ''802_3'', ''ax25'',
      ''all'', ''802_2'', ''snap'', ''ddcmp'', ''wan_ppp'', ''ppp_mp'', ''localtalk'', ''can'', ''ppptalk'',
      ''tr_802_2'', ''mobitex'', ''control'', ''irda'', ''econet'', ''tipc'', ''aoe'', ''802.1q'', ''lldp'',
      ''ipv4'']"
  by code_simp

lemma find_distinct: "distinct (map k xs) \<Longrightarrow> e \<in> set xs \<Longrightarrow> List.find (\<lambda>f. k f = k e) xs = Some e"
  by (induction xs) (auto simp: image_iff)

lemma proto_table: "e \<in> set llproto_names \<Longrightarrow> List.find (\<lambda>f. strcaseeq (snd f) (snd e)) llproto_names = Some e"
  unfolding strcaseeq_def by (rule find_distinct [of "\<lambda>e. map to_lower (snd e)"]) (simp_all add: proto_lower)

text \<open>
  The name printed for a protocol number reads back as that number, for every number of the table and
  in any mixture of upper and lower case; the text for any other number, which is in brackets, is rejected.
\<close>

theorem proto_names_read_back:
  assumes "10 \<le> len"
  shows "if \<exists>e\<in>set llproto_names. fst e = ntohs i
    then \<forall>t. strcaseeq (ll_proto_n2a i len) t \<longrightarrow> ll_proto_a2n t = Some i
    else ll_proto_a2n (ll_proto_n2a i len) = None"
proof (cases "List.find (\<lambda>e. fst e = ntohs i) llproto_names")
  case (Some e)
  then have e: "e \<in> set llproto_names" "fst e = ntohs i" by (auto simp: find_Some_iff)
  have "ll_proto_a2n t = Some i" if "strcaseeq (snd e) t" for t
  proof -
    have same: "(\<lambda>f. strcaseeq (snd f) t) = (\<lambda>f :: u16 \<times> string. strcaseeq (snd f) (snd e))"
      using that by (auto simp: strcaseeq_def)
    have "List.find (\<lambda>f. strcaseeq (snd f) t) llproto_names = Some e"
      unfolding same by (rule proto_table [OF e(1)])
    then show ?thesis using e(2) by (simp add: ll_proto_a2n_def htons_ntohs_id)
  qed
  then show ?thesis using Some e by (auto simp: ll_proto_n2a_def)
next
  case None
  then have none: "\<not> (\<exists>e\<in>set llproto_names. fst e = ntohs i)" by (auto simp: find_None_iff)
  have "length (fmt_u (ntohs i)) \<le> 5"
    unfolding fmt_u_def using unsigned_less [of "ntohs i", where ?'a = nat] by (intro length_fmt_base) simp_all
  then have t: "ll_proto_n2a i len = CHR ''['' # fmt_u (ntohs i) @ '']''"
    using None assms by (simp add: ll_proto_n2a_def snprintf_def)
  have "list_all (\<lambda>e. to_lower (hd (snd e)) \<noteq> CHR ''['' \<and> snd e \<noteq> []) llproto_names" by code_simp
  moreover have "to_lower (CHR ''['') = CHR ''[''" by code_simp
  ultimately have "\<not> strcaseeq (snd e) (CHR ''['' # r)" if "e \<in> set llproto_names" for e r
    using that by (cases "snd e") (auto simp: list_all_iff strcaseeq_def)
  then have "List.find (\<lambda>e. strcaseeq (snd e) (ll_proto_n2a i len)) llproto_names = None"
    unfolding t find_None_iff by blast
  moreover have "get_u16 (ll_proto_n2a i len) 0 = None"
  proof -
    have "scan_number 0 (CHR ''['' # r) = None" for r
      by (cases r) (simp_all add: scan_number_def scan_base_def isspace_def digit_val_def)
    then show ?thesis unfolding t by (simp add: get_u16_def strtoul_def)
  qed
  ultimately show ?thesis using none by (simp add: ll_proto_a2n_def)
qed

theorem proto_names_read_back_witness: "ll_proto_n2a (htons 0x86DD) 64 = ''ipv6'' \<and> ll_proto_a2n ''IPv6'' = Some (htons 0x86DD)"
proof -
  have n: "ll_proto_n2a (htons 0x86DD) 64 = ''ipv6''" by (simp add: ll_proto_n2a_def htons_ntohs_id llproto_names_def)
  have "\<exists>e\<in>set llproto_names. fst e = ntohs (htons 0x86DD)" by (simp add: htons_ntohs_id llproto_names_def)
  moreover have "strcaseeq ''ipv6'' ''IPv6''" by code_simp
  ultimately show ?thesis using proto_names_read_back [of 64 "htons 0x86DD"] n by simp
qed

end
