(* ===== verification/Netlink_Attr.thy ===== *)
theory Netlink_Attr
  imports CStr
begin

unbundle bit_operations_syntax

text \<open>
  Netlink messages and their attributes (\<^verbatim>\<open>lib/libnetlink.c\<close>, \<^verbatim>\<open>include/libnetlink.h\<close>). A message
  is the buffer that holds it, as a list of bytes that starts with the header; a pointer into
  a buffer is the list of bytes from there on. The buffer that a caller passes is at least
  \<open>maxlen\<close> bytes long. The machine is little-endian; \<^verbatim>\<open>int\<close> lengths are 32-bit words.
\<close>

section \<open>Memory\<close>

definition poke :: "nat \<Rightarrow> u8 list \<Rightarrow> u8 list \<Rightarrow> u8 list" where
  "poke off bs mem = take off mem @ bs @ drop (off + length bs) mem"

lemma poke_at: "length a = off \<Longrightarrow> length b = length bs \<Longrightarrow> poke off bs (a @ b @ c) = a @ bs @ c"
  by (auto simp: poke_def)

definition peek32 :: "nat \<Rightarrow> u8 list \<Rightarrow> u32" where
  "peek32 off mem = of_le_bytes (take 4 (drop off mem))"

definition peek16 :: "nat \<Rightarrow> u8 list \<Rightarrow> u16" where
  "peek16 off mem = of_le_bytes (take 2 (drop off mem))"

section \<open>Macros\<close>

definition NLMSG_ALIGN :: "u32 \<Rightarrow> u32" where "NLMSG_ALIGN len = (len + 3) AND NOT 3"
definition RTA_ALIGN :: "u32 \<Rightarrow> u32" where "RTA_ALIGN len = (len + 3) AND NOT 3"
definition NLMSG_HDRLEN :: nat where "NLMSG_HDRLEN = 16"
definition RTA_LENGTH :: "u32 \<Rightarrow> u32" where "RTA_LENGTH len = 4 + len"

definition nlmsg_len :: "u8 list \<Rightarrow> u32" where "nlmsg_len n = peek32 0 n"
definition set_nlmsg_len :: "u32 \<Rightarrow> u8 list \<Rightarrow> u8 list" where "set_nlmsg_len l n = poke 0 (le_bytes 4 l) n"
definition NLMSG_TAIL :: "u8 list \<Rightarrow> nat" where "NLMSG_TAIL n = unat (NLMSG_ALIGN (nlmsg_len n))"

definition rta_len :: "u8 list \<Rightarrow> u16" where "rta_len rta = peek16 0 rta"
definition rta_type :: "u8 list \<Rightarrow> u16" where "rta_type rta = peek16 2 rta"
definition RTA_DATA :: "u8 list \<Rightarrow> u8 list" where "RTA_DATA rta = drop 4 rta"
definition RTA_PAYLOAD :: "u8 list \<Rightarrow> int" where "RTA_PAYLOAD rta = uint (rta_len rta) - 4"

section \<open>Adding attributes\<close>

text \<open>The three stores that make an attribute at an offset; the padding is not written.\<close>

definition put_rta :: "nat \<Rightarrow> u16 \<Rightarrow> u32 \<Rightarrow> u8 list \<Rightarrow> u8 list \<Rightarrow> u8 list" where
  "put_rta off type len data n =
     poke (off + 4) data (poke off (le_bytes 2 (ucast len :: u16)) (poke (off + 2) (le_bytes 2 type) n))"

definition addattr_l :: "u8 list \<Rightarrow> u32 \<Rightarrow> u16 \<Rightarrow> u8 list \<Rightarrow> int \<times> u8 list" where
  "addattr_l n maxlen type data =
     (let len = RTA_LENGTH (of_nat (length data))
      in if NLMSG_ALIGN (nlmsg_len n) + RTA_ALIGN len > maxlen then (-1, n)
         else let n1 = put_rta (NLMSG_TAIL n) type len data n
              in (0, set_nlmsg_len (NLMSG_ALIGN (nlmsg_len n1) + RTA_ALIGN len) n1))"

definition addattr :: "u8 list \<Rightarrow> u32 \<Rightarrow> u16 \<Rightarrow> int \<times> u8 list" where
  "addattr n maxlen type = addattr_l n maxlen type []"

definition addattr8 :: "u8 list \<Rightarrow> u32 \<Rightarrow> u16 \<Rightarrow> u8 \<Rightarrow> int \<times> u8 list" where
  "addattr8 n maxlen type data = addattr_l n maxlen type (le_bytes 1 data)"

definition addattr16 :: "u8 list \<Rightarrow> u32 \<Rightarrow> u16 \<Rightarrow> u16 \<Rightarrow> int \<times> u8 list" where
  "addattr16 n maxlen type data = addattr_l n maxlen type (le_bytes 2 data)"

definition addattr32 :: "u8 list \<Rightarrow> u32 \<Rightarrow> u16 \<Rightarrow> u32 \<Rightarrow> int \<times> u8 list" where
  "addattr32 n maxlen type data = addattr_l n maxlen type (le_bytes 4 data)"

definition addattr64 :: "u8 list \<Rightarrow> u32 \<Rightarrow> u16 \<Rightarrow> u64 \<Rightarrow> int \<times> u8 list" where
  "addattr64 n maxlen type data = addattr_l n maxlen type (le_bytes 8 data)"

definition bytes_of_string :: "string \<Rightarrow> u8 list" where
  "bytes_of_string s = map (\<lambda>c. of_nat (of_char c)) s"

definition addattrstrz :: "u8 list \<Rightarrow> u32 \<Rightarrow> u16 \<Rightarrow> string \<Rightarrow> int \<times> u8 list" where
  "addattrstrz n maxlen type str = addattr_l n maxlen type (bytes_of_string str @ [0])"

definition addraw_l :: "u8 list \<Rightarrow> u32 \<Rightarrow> u8 list \<Rightarrow> int \<times> u8 list" where
  "addraw_l n maxlen data =
     (let len = of_nat (length data)
      in if NLMSG_ALIGN (nlmsg_len n) + NLMSG_ALIGN len > maxlen then (-1, n)
         else let n1 = poke (NLMSG_TAIL n) data n;
                  n2 = poke (NLMSG_TAIL n1 + length data) (replicate (unat (NLMSG_ALIGN len - len)) 0) n1
              in (0, set_nlmsg_len (NLMSG_ALIGN (nlmsg_len n2) + NLMSG_ALIGN len) n2))"

text \<open>A nested attribute is opened empty; a pointer to it is its offset in the message.\<close>

definition addattr_nest :: "u8 list \<Rightarrow> u32 \<Rightarrow> u16 \<Rightarrow> nat \<times> u8 list" where
  "addattr_nest n maxlen type = (NLMSG_TAIL n, snd (addattr_l n maxlen type []))"

definition addattr_nest_end :: "u8 list \<Rightarrow> nat \<Rightarrow> u32 \<times> u8 list" where
  "addattr_nest_end n nest =
     (let n1 = poke nest (le_bytes 2 (of_int (int (NLMSG_TAIL n) - int nest) :: u16)) n
      in (nlmsg_len n1, n1))"

definition addattr_nest_compat :: "u8 list \<Rightarrow> u32 \<Rightarrow> u16 \<Rightarrow> u8 list \<Rightarrow> nat \<times> u8 list" where
  "addattr_nest_compat n maxlen type data =
     (let n1 = snd (addattr_l n maxlen type data) in (NLMSG_TAIL n, snd (addattr_nest n1 maxlen type)))"

definition addattr_nest_compat_end :: "u8 list \<Rightarrow> nat \<Rightarrow> u32 \<times> u8 list" where
  "addattr_nest_compat_end n start =
     (let nest = start + unat (NLMSG_ALIGN (ucast (peek16 start n)));
          n1 = poke start (le_bytes 2 (of_int (int (NLMSG_TAIL n) - int start) :: u16)) n;
          n2 = snd (addattr_nest_end n1 nest)
      in (nlmsg_len n2, n2))"

section \<open>Adding to an attribute\<close>

definition rta_addattr32 :: "u8 list \<Rightarrow> u32 \<Rightarrow> u16 \<Rightarrow> u32 \<Rightarrow> int \<times> u8 list" where
  "rta_addattr32 rta maxlen type data =
     (let len = RTA_LENGTH 4; at = RTA_ALIGN (ucast (rta_len rta))
      in if at + len > maxlen then (-1, rta)
         else let r1 = put_rta (unat at) type len (le_bytes 4 data) rta
              in (0, poke 0 (le_bytes 2 (ucast (NLMSG_ALIGN (ucast (rta_len r1)) + len) :: u16)) r1))"

definition rta_addattr_l :: "u8 list \<Rightarrow> u32 \<Rightarrow> u16 \<Rightarrow> u8 list \<Rightarrow> int \<times> u8 list" where
  "rta_addattr_l rta maxlen type data =
     (let len = RTA_LENGTH (of_nat (length data)); at = RTA_ALIGN (ucast (rta_len rta))
      in if at + RTA_ALIGN len > maxlen then (-1, rta)
         else let r1 = put_rta (unat at) type len data rta
              in (0, poke 0 (le_bytes 2 (ucast (NLMSG_ALIGN (ucast (rta_len r1)) + RTA_ALIGN len) :: u16)) r1))"

section \<open>Walking over attributes\<close>

definition RTA_OK :: "u8 list \<Rightarrow> int \<Rightarrow> bool" where
  "RTA_OK rta len \<longleftrightarrow> len \<ge> 4 \<and> rta_len rta \<ge> 4 \<and> uint (rta_len rta) \<le> len"

definition rta_step :: "u8 list \<Rightarrow> nat" where
  "rta_step rta = unat (RTA_ALIGN (ucast (rta_len rta)))"

lemma and_not_3: "(x :: 'a::len word) AND NOT 3 = push_bit 2 (drop_bit 2 x)"
proof -
  have "(3 :: 'a word) = mask 2" by (simp add: mask_eq_exp_minus_1)
  then have "x AND NOT 3 = x AND NOT (mask 2)" by simp
  also have "\<dots> = push_bit 2 (drop_bit 2 x)"
  proof (rule bit_word_eqI)
    fix n assume "n < LENGTH('a)"
    moreover have "2 \<le> n \<Longrightarrow> 2 + (n - 2) = n" by simp
    ultimately show "bit (x AND NOT (mask 2)) n = bit (push_bit 2 (drop_bit 2 x)) n"
      unfolding bit_and_iff bit_not_iff bit_mask_iff bit_push_bit_iff bit_drop_bit_eq comp_def possible_bit_word
      by (metis not_le)
  qed
  finally show ?thesis .
qed

lemma unat_and_not_3: "unat ((x :: 'a::len word) AND NOT 3) = 4 * (unat x div 4)"
proof -
  have e: "push_bit 2 (drop_bit 2 x) = x - take_bit 2 x" using bits_ident [of 2 x] by (simp add: eq_diff_eq)
  have m: "unat (take_bit 2 x) = unat x mod 4" by (simp add: unsigned_take_bit_eq take_bit_nat_def)
  then have "take_bit 2 x \<le> x" by (simp add: word_le_nat_alt)
  then have "unat (x - take_bit 2 x) = unat x - unat x mod 4" by (simp only: unat_sub m)
  then show ?thesis unfolding and_not_3 e by (simp add: minus_mod_eq_mult_div)
qed

definition align4 :: "nat \<Rightarrow> nat" where "align4 n = 4 * ((n + 3) div 4)"

lemma unat_align: "unat len + 3 < 2 ^ 32 \<Longrightarrow> unat (NLMSG_ALIGN len) = align4 (unat len)"
  "unat len + 3 < 2 ^ 32 \<Longrightarrow> unat (RTA_ALIGN len) = align4 (unat len)"
  unfolding NLMSG_ALIGN_def RTA_ALIGN_def unat_and_not_3 align4_def by (simp_all add: unat_word_ariths)

lemma align4_ge: "n \<le> align4 n" "align4 n < n + 4" "align4 n mod 4 = 0"
  unfolding align4_def by linarith+ simp

lemma align4_self: "n mod 4 = 0 \<Longrightarrow> align4 n = n"
  unfolding align4_def by (elim mod_0_imp_dvd [THEN dvdE]) simp

lemma rta_step_eq: "rta_step rta = align4 (unat (rta_len rta))"
proof -
  have "unat (ucast (rta_len rta) :: u32) = unat (rta_len rta)"
    using unsigned_less [of "rta_len rta", where ?'a = nat] by (simp add: unsigned_ucast_eq take_bit_nat_eq_self)
  then show ?thesis
    using unsigned_less [of "rta_len rta", where ?'a = nat] by (simp add: rta_step_def unat_align)
qed

lemma rta_step_bounds: "RTA_OK rta len \<Longrightarrow> 4 \<le> rta_step rta \<and> 0 < len"
  using align4_ge(1) [of "unat (rta_len rta)"] by (simp add: RTA_OK_def rta_step_eq word_le_nat_alt)

text \<open>\<^verbatim>\<open>parse_rtattr\<close>: the first attribute of each type, and the length that is left over.\<close>

function parse_loop :: "nat \<Rightarrow> u8 list option list \<Rightarrow> u8 list \<Rightarrow> int \<Rightarrow> u8 list option list \<times> int" where
  "parse_loop mx tb rta len =
     (if RTA_OK rta len
      then let t = unat (rta_type rta);
               tb1 = (if t \<le> mx \<and> tb ! t = None then tb[t := Some rta] else tb)
           in parse_loop mx tb1 (drop (rta_step rta) rta) (len - int (rta_step rta))
      else (tb, len))"
  by pat_completeness auto
termination
  by (relation "measure (\<lambda>(_, _, _, len). nat len)") (auto dest: rta_step_bounds)

declare parse_loop.simps [simp del]

definition parse_rtattr :: "nat \<Rightarrow> u8 list \<Rightarrow> int \<Rightarrow> u8 list option list \<times> int" where
  "parse_rtattr mx rta len = parse_loop mx (replicate (mx + 1) None) rta len"

function byindex_loop :: "nat \<Rightarrow> u8 list list \<Rightarrow> u8 list \<Rightarrow> int \<Rightarrow> u8 list list \<times> int" where
  "byindex_loop mx tb rta len =
     (if RTA_OK rta len
      then let tb1 = (if unat (rta_type rta) \<le> mx \<and> length tb < mx then tb @ [rta] else tb)
           in byindex_loop mx tb1 (drop (rta_step rta) rta) (len - int (rta_step rta))
      else (tb, len))"
  by pat_completeness auto
termination
  by (relation "measure (\<lambda>(_, _, _, len). nat len)") (auto dest: rta_step_bounds)

declare byindex_loop.simps [simp del]

text \<open>The entries that were filled, in order; their number is the return value.\<close>

definition parse_rtattr_byindex :: "nat \<Rightarrow> u8 list \<Rightarrow> int \<Rightarrow> u8 list list \<times> int" where
  "parse_rtattr_byindex mx rta len = byindex_loop mx [] rta len"

definition parse_rtattr_nested :: "nat \<Rightarrow> u8 list \<Rightarrow> u8 list option list" where
  "parse_rtattr_nested mx rta = fst (parse_rtattr mx (RTA_DATA rta) (RTA_PAYLOAD rta))"

definition parse_rtattr_nested_compat :: "nat \<Rightarrow> u8 list \<Rightarrow> nat \<Rightarrow> u8 list option list option" where
  "parse_rtattr_nested_compat mx rta len =
     (if RTA_PAYLOAD rta < int len then None
      else if RTA_PAYLOAD rta \<ge> int (align4 len) + 4
      then Some (parse_rtattr_nested mx (drop (align4 len) (RTA_DATA rta)))
      else Some (replicate (mx + 1) None))"

definition rta_getattr_u8 :: "u8 list \<Rightarrow> u8" where "rta_getattr_u8 rta = of_le_bytes (take 1 (RTA_DATA rta))"
definition rta_getattr_u16 :: "u8 list \<Rightarrow> u16" where "rta_getattr_u16 rta = of_le_bytes (take 2 (RTA_DATA rta))"
definition rta_getattr_u32 :: "u8 list \<Rightarrow> u32" where "rta_getattr_u32 rta = of_le_bytes (take 4 (RTA_DATA rta))"
definition rta_getattr_u64 :: "u8 list \<Rightarrow> u64" where "rta_getattr_u64 rta = of_le_bytes (take 8 (RTA_DATA rta))"
definition rta_getattr_str :: "u8 list \<Rightarrow> string" where
  "rta_getattr_str rta = map (\<lambda>b. char_of (unat b)) (takeWhile (\<lambda>b. b \<noteq> 0) (RTA_DATA rta))"

section \<open>Encoded attributes\<close>

text \<open>An attribute: type, payload and padding. Padding bytes have no meaning.\<close>

type_synonym attr = "u16 \<times> u8 list \<times> u8 list"

fun attr_ok :: "attr \<Rightarrow> bool" where
  "attr_ok (t, d, p) \<longleftrightarrow> length d + 4 < 2 ^ 16 \<and> 4 + length d + length p = align4 (4 + length d)"

fun enc :: "attr \<Rightarrow> u8 list" where
  "enc (t, d, p) = le_bytes 2 (of_nat (4 + length d) :: u16) @ le_bytes 2 t @ d @ p"

definition encs :: "attr list \<Rightarrow> u8 list" where "encs as = concat (map enc as)"

definition rta_payload :: "u8 list \<Rightarrow> u8 list" where
  "rta_payload rta = take (nat (RTA_PAYLOAD rta)) (RTA_DATA rta)"

lemma encs_simps [simp]: "encs [] = []" "encs (a # as) = enc a @ encs as" "encs (as @ bs) = encs as @ encs bs"
  by (simp_all add: encs_def)

lemma length_enc: "attr_ok (t, d, p) \<Longrightarrow> length (enc (t, d, p)) = align4 (4 + length d)"
  by simp

lemma enc_head:
  assumes "attr_ok (t, d, p)"
  shows "rta_len (enc (t, d, p) @ r) = of_nat (4 + length d)" "rta_type (enc (t, d, p) @ r) = t"
    "unat (rta_len (enc (t, d, p) @ r)) = 4 + length d"
    "rta_payload (enc (t, d, p) @ r) = d" "rta_step (enc (t, d, p) @ r) = length (enc (t, d, p))"
proof -
  show l: "rta_len (enc (t, d, p) @ r) = of_nat (4 + length d)" "rta_type (enc (t, d, p) @ r) = t"
    by (simp_all add: rta_len_def rta_type_def peek16_def)
  show u: "unat (rta_len (enc (t, d, p) @ r)) = 4 + length d"
    unfolding l(1) using assms by (simp only: unat_of_nat) simp
  then show "rta_payload (enc (t, d, p) @ r) = d"
    by (simp add: rta_payload_def RTA_PAYLOAD_def RTA_DATA_def uint_nat)
  show "rta_step (enc (t, d, p) @ r) = length (enc (t, d, p))"
    unfolding rta_step_eq u using assms by simp
qed

lemma enc_RTA_OK:
  assumes "attr_ok (t, d, p)" "int (length (enc (t, d, p))) \<le> len"
  shows "RTA_OK (enc (t, d, p) @ r) len"
  using enc_head(3) [OF assms(1), of r] assms(2) by (simp add: RTA_OK_def word_le_nat_alt uint_nat)

text \<open>The parser on encoded attributes: it sees each of them and leaves no deficit.\<close>

definition first_attr :: "nat \<Rightarrow> attr list \<Rightarrow> u8 list option" where
  "first_attr t as = map_option (\<lambda>(_, d, _). d) (List.find (\<lambda>(u, _, _). unat u = t) as)"

lemma parse_loop_Nil: "parse_loop mx tb r 0 = (tb, 0)"
  by (simp add: parse_loop.simps RTA_OK_def)

lemma parse_loop_Cons:
  assumes "attr_ok (t, d, p)"
  shows "parse_loop mx tb (encs ((t, d, p) # as) @ r) (int (length (encs ((t, d, p) # as)))) =
    parse_loop mx (if unat t \<le> mx \<and> tb ! unat t = None
        then tb[unat t := Some (enc (t, d, p) @ encs as @ r)] else tb) (encs as @ r) (int (length (encs as)))"
proof -
  have "RTA_OK (enc (t, d, p) @ encs as @ r) (int (length (encs ((t, d, p) # as))))"
    by (rule enc_RTA_OK [OF assms]) simp
  then show ?thesis
    using enc_head [OF assms, of "encs as @ r"]
    by (subst parse_loop.simps) (auto simp: Let_def simp del: enc.simps)
qed

lemma parse_loop_encs:
  assumes "list_all attr_ok as" "length tb = mx + 1"
  shows "snd (parse_loop mx tb (encs as @ r) (int (length (encs as)))) = 0 \<and>
    (\<forall>t\<le>mx. map_option rta_payload (fst (parse_loop mx tb (encs as @ r) (int (length (encs as)))) ! t) =
       (case tb ! t of Some x \<Rightarrow> Some (rta_payload x) | None \<Rightarrow> first_attr t as))"
  using assms
proof (induction as arbitrary: tb)
  case Nil
  then show ?case by (simp add: parse_loop_Nil first_attr_def split: option.split)
next
  case (Cons a as)
  obtain t d p where a: "a = (t, d, p)" by (cases a) auto
  have ok: "attr_ok (t, d, p)" "list_all attr_ok as" using Cons.prems(1) by (simp_all add: a)
  let ?tb = "if unat t \<le> mx \<and> tb ! unat t = None then tb[unat t := Some (enc a @ encs as @ r)] else tb"
  have pay: "rta_payload (enc a @ encs as @ r) = d" using enc_head(4) [OF ok(1)] a by simp
  have "(case ?tb ! u of Some x \<Rightarrow> Some (rta_payload x) | None \<Rightarrow> first_attr u as) =
      (case tb ! u of Some x \<Rightarrow> Some (rta_payload x) | None \<Rightarrow> first_attr u (a # as))" if "u \<le> mx" for u
    using that pay Cons.prems(2)
    by (auto simp: first_attr_def a nth_list_update split: option.split simp del: enc.simps)
  with Cons.IH [OF ok(2), of ?tb] Cons.prems(2) show ?case
    unfolding parse_loop_Cons [OF ok(1), of mx tb as r, folded a] by simp
qed

lemma parse_loop_ptr:
  assumes "list_all attr_ok as" "length tb = mx + 1" "u \<le> mx"
    "fst (parse_loop mx tb (encs as @ r) (int (length (encs as)))) ! u = Some x"
  shows "tb ! u = Some x \<or> (\<exists>t d p r'. attr_ok (t, d, p) \<and> x = enc (t, d, p) @ r')"
  using assms
proof (induction as arbitrary: tb)
  case (Cons a as)
  obtain t d p where a: "a = (t, d, p)" by (cases a) auto
  have ok: "attr_ok (t, d, p)" "list_all attr_ok as" using Cons.prems(1) by (simp_all add: a)
  let ?tb = "if unat t \<le> mx \<and> tb ! unat t = None then tb[unat t := Some (enc a @ encs as @ r)] else tb"
  have "?tb ! u = Some x \<or> (\<exists>t d p r'. attr_ok (t, d, p) \<and> x = enc (t, d, p) @ r')"
    using Cons.IH [OF ok(2), of ?tb] Cons.prems(2-4) unfolding parse_loop_Cons [OF ok(1), of mx tb as r, folded a] by simp
  then show ?case
    using ok(1) Cons.prems(2,3) unfolding a by (auto simp: nth_list_update split: if_splits simp del: enc.simps attr_ok.simps)
qed (simp add: parse_loop_Nil)

section \<open>Messages\<close>

text \<open>
  A message whose header has \<open>hdr\<close> bytes (the netlink header and the family's own) and whose
  attributes are \<open>as\<close>.
\<close>

definition nl_msg :: "nat \<Rightarrow> attr list \<Rightarrow> u8 list \<Rightarrow> bool" where
  "nl_msg hdr as n \<longleftrightarrow>
     16 \<le> hdr \<and> hdr mod 4 = 0 \<and> list_all attr_ok as \<and> length n < 2 ^ 31 \<and>
     unat (nlmsg_len n) = hdr + length (encs as) \<and> hdr + length (encs as) \<le> length n \<and>
     take (length (encs as)) (drop hdr n) = encs as"

lemma length_encs_mod: "list_all attr_ok as \<Longrightarrow> length (encs as) mod 4 = 0"
proof (induction as)
  case (Cons a as)
  obtain t d p where a: "a = (t, d, p)" by (cases a) auto
  have "length (enc a) = align4 (4 + length d)" using Cons.prems length_enc [of t d p] by (simp add: a)
  then have "length (enc a) mod 4 = 0" by (simp only: align4_ge(3))
  then have "4 dvd length (enc a)" "4 dvd length (encs as)" using Cons by (simp_all add: mod_eq_0_iff_dvd)
  then show ?case by (simp add: mod_eq_0_iff_dvd)
qed simp

lemma put_rta_eq:
  assumes "off + 4 + length data \<le> length n"
  shows "put_rta off type len data n =
    take off n @ le_bytes 2 (ucast len :: u16) @ le_bytes 2 type @ data @ drop (off + 4 + length data) n"
proof -
  have e: "Suc (Suc (Suc (Suc (length data + off)))) = off + 4 + length data" by simp
  show ?thesis using assms by (simp add: put_rta_def poke_def min_def e)
qed

lemma addattr_l_msg:
  assumes msg: "nl_msg hdr as n" and d: "length d + 4 < 2 ^ 16" and cap: "unat maxlen \<le> length n"
  defines "need \<equiv> hdr + length (encs as) + align4 (4 + length d)"
  shows "unat maxlen < need \<Longrightarrow> addattr_l n maxlen t d = (-1, n)"
    and "need \<le> unat maxlen \<Longrightarrow> \<exists>p n'. addattr_l n maxlen t d = (0, n') \<and> nl_msg hdr (as @ [(t, d, p)]) n' \<and>
       length n' = length n \<and> take (hdr - 4) (drop 4 n') = take (hdr - 4) (drop 4 n)"
proof -
  let ?off = "hdr + length (encs as)" and ?l = "4 + length d"
  have m: "16 \<le> hdr" "hdr mod 4 = 0" "list_all attr_ok as" "length n < 2 ^ 31" "unat (nlmsg_len n) = ?off"
    "?off \<le> length n" "take (length (encs as)) (drop hdr n) = encs as"
    using msg by (simp_all add: nl_msg_def)
  have "?off mod 4 = 0" using m(2) length_encs_mod [OF m(3)] by (simp add: mod_eq_0_iff_dvd)
  then have al: "unat (NLMSG_ALIGN (nlmsg_len n)) = ?off"
    using m(4-6) by (simp add: unat_align align4_self)
  have ul: "unat (RTA_LENGTH (of_nat (length d))) = ?l"
    using d by (simp add: RTA_LENGTH_def unat_word_ariths unat_of_nat)
  have ral: "unat (RTA_ALIGN (RTA_LENGTH (of_nat (length d)))) = align4 ?l"
    using d by (simp add: unat_align ul)
  have small: "align4 ?l < 2 ^ 17" using align4_ge(2) [of ?l] d by simp
  have sum: "unat (NLMSG_ALIGN (nlmsg_len n) + RTA_ALIGN (RTA_LENGTH (of_nat (length d)))) = need"
    using m(4,6) small by (simp add: unat_word_ariths al ral need_def)
  show "unat maxlen < need \<Longrightarrow> addattr_l n maxlen t d = (-1, n)"
    by (simp add: addattr_l_def word_less_nat_alt sum)
  assume fits: "need \<le> unat maxlen"
  define p where "p = take (align4 ?l - ?l) (drop (?off + ?l) n)"
  have room: "?off + align4 ?l \<le> length n" using fits cap by (simp add: need_def)
  have lp: "length p = align4 ?l - ?l" using room align4_ge(1) [of ?l] by (simp add: p_def)
  define n1 where "n1 = put_rta (NLMSG_TAIL n) t (RTA_LENGTH (of_nat (length d))) d n"
  have fit: "?off + ?l \<le> length n" using room align4_ge(1) [of ?l] by linarith
  have "(ucast (RTA_LENGTH (of_nat (length d))) :: u16) = of_nat ?l" by (simp add: ul [symmetric])
  then have n1: "n1 = take ?off n @ le_bytes 2 (of_nat ?l :: u16) @ le_bytes 2 t @ d @ drop (?off + ?l) n"
    unfolding n1_def NLMSG_TAIL_def al using put_rta_eq [of ?off d n t] fit by (simp add: add.assoc)
  have rest: "drop (?off + ?l) n = p @ drop (need) n"
  proof -
    have "need = (align4 ?l - ?l) + (?off + ?l)" using align4_ge(1) [of ?l] by (simp add: need_def)
    then have "drop need n = drop (align4 ?l - ?l) (drop (?off + ?l) n)" by (simp only: drop_drop)
    then show ?thesis unfolding p_def by (simp only: append_take_drop_id)
  qed
  have tk: "take ?off n = take hdr n @ encs as" using m(7) by (metis take_add)
  have body: "n1 = take hdr n @ encs (as @ [(t, d, p)]) @ drop need n" using n1 rest tk by simp
  have len1: "nlmsg_len n1 = nlmsg_len n"
    using m(1,6) by (simp add: nlmsg_len_def peek32_def body)
  define n' where "n' = set_nlmsg_len (NLMSG_ALIGN (nlmsg_len n1) + RTA_ALIGN (RTA_LENGTH (of_nat (length d)))) n1"
  have h: "4 \<le> length (take hdr n)" using m(1,6) by simp
  have n': "n' = le_bytes 4 (NLMSG_ALIGN (nlmsg_len n) + RTA_ALIGN (RTA_LENGTH (of_nat (length d)))) @
      drop 4 (take hdr n) @ encs (as @ [(t, d, p)]) @ drop need n"
    unfolding n'_def len1 using h by (simp add: set_nlmsg_len_def poke_def body)
  have le: "length (encs (as @ [(t, d, p)])) = length (encs as) + align4 ?l"
    using lp align4_ge(1) [of ?l] by simp
  have ln: "length n' = length n" using m(1,6) le room by (simp add: n' need_def)
  have "nlmsg_len n' = NLMSG_ALIGN (nlmsg_len n) + RTA_ALIGN (RTA_LENGTH (of_nat (length d)))"
    by (simp add: nlmsg_len_def peek32_def n')
  then have "unat (nlmsg_len n') = hdr + length (encs (as @ [(t, d, p)]))" using sum le by (simp add: need_def)
  moreover have "take (length (encs (as @ [(t, d, p)]))) (drop hdr n') = encs (as @ [(t, d, p)])"
    using m(1,6) by (simp add: n')
  moreover have "attr_ok (t, d, p)" using d lp align4_ge(1) [of ?l] by simp
  ultimately have "nl_msg hdr (as @ [(t, d, p)]) n'"
    using m le ln room by (simp add: nl_msg_def)
  moreover have "addattr_l n maxlen t d = (0, n')"
    using fits by (simp add: addattr_l_def word_less_nat_alt sum n1_def [symmetric] n'_def [symmetric] Let_def)
  moreover have "take (hdr - 4) (drop 4 n') = take (hdr - 4) (drop 4 n)"
    using m(1,6) by (simp add: n' drop_take)
  ultimately show "\<exists>p n'. addattr_l n maxlen t d = (0, n') \<and> nl_msg hdr (as @ [(t, d, p)]) n' \<and>
       length n' = length n \<and> take (hdr - 4) (drop 4 n') = take (hdr - 4) (drop 4 n)"
    using ln by blast
qed

text \<open>
  The entry of the table for one type: nothing when no attribute has it, otherwise a pointer to the first one.
\<close>

lemma parse_rtattr_entry:
  fixes r :: "u8 list"
  assumes "list_all attr_ok as" "u \<le> mx"
  defines "T \<equiv> fst (parse_rtattr mx (encs as @ r) (int (length (encs as))))"
  shows "case first_attr u as of
      None \<Rightarrow> T ! u = None
    | Some d \<Rightarrow> \<exists>rta rest. T ! u = Some rta \<and> RTA_PAYLOAD rta = int (length d) \<and> RTA_DATA rta = d @ rest"
proof -
  let ?tb = "replicate (mx + 1) None"
  have none: "?tb ! u = None" using assms(2) by (simp del: replicate.simps)
  have T: "T = fst (parse_loop mx ?tb (encs as @ r) (int (length (encs as))))"
    by (simp add: T_def parse_rtattr_def del: replicate.simps)
  have v: "map_option rta_payload (T ! u) = first_attr u as"
    using parse_loop_encs [OF assms(1), of ?tb mx r] none assms(2) unfolding T by (simp del: replicate.simps)
  show ?thesis
  proof (cases "T ! u")
    case (Some rta)
    then obtain t d p r' where ok: "attr_ok (t, d, p)" "rta = enc (t, d, p) @ r'"
      using parse_loop_ptr [OF assms(1) _ assms(2), of ?tb r rta] none unfolding T
      by (metis length_replicate option.distinct(1))
    have "rta_payload rta = d" and l: "unat (rta_len rta) = 4 + length d"
      using enc_head(3,4) [OF ok(1), of r'] by (simp_all only: ok(2))
    then have f: "first_attr u as = Some d" using v Some by simp
    have "RTA_PAYLOAD rta = int (length d)" by (simp add: RTA_PAYLOAD_def uint_nat l)
    moreover have "RTA_DATA rta = d @ p @ r'" by (simp add: ok(2) RTA_DATA_def)
    ultimately show ?thesis unfolding f using Some by (simp only: option.case) blast
  qed (use v in simp)
qed

lemma first_attr_snoc:
  "first_attr u (as @ [(t, d, p)]) =
     (case first_attr u as of Some x \<Rightarrow> Some x | None \<Rightarrow> if u = unat t then Some d else None)"
  by (induction as) (auto simp: first_attr_def)

lemma parse_msg:
  assumes "nl_msg hdr as n"
  shows "snd (parse_rtattr mx (drop hdr n) (uint (nlmsg_len n) - int hdr)) = 0 \<and>
    (\<forall>u\<le>mx. map_option rta_payload (fst (parse_rtattr mx (drop hdr n) (uint (nlmsg_len n) - int hdr)) ! u) =
       first_attr u as)"
proof -
  have m: "list_all attr_ok as" "uint (nlmsg_len n) - int hdr = int (length (encs as))"
    using assms by (simp_all add: nl_msg_def uint_nat)
  have "drop hdr n = encs as @ drop (length (encs as)) (drop hdr n)"
    using assms unfolding nl_msg_def by (metis append_take_drop_id)
  moreover have "u \<le> mx \<Longrightarrow> replicate (mx + 1) None ! u = None" for u by (simp del: replicate.simps)
  ultimately show ?thesis
    using parse_loop_encs [OF m(1), of "replicate (mx + 1) None" mx "drop (length (encs as)) (drop hdr n)"]
    by (simp add: parse_rtattr_def m(2) del: replicate.simps)
qed

text \<open>The pointers in the table are pointers to complete attributes.\<close>

lemma parse_msg_ptr:
  assumes "nl_msg hdr as n" "u \<le> mx"
    "fst (parse_rtattr mx (drop hdr n) (uint (nlmsg_len n) - int hdr)) ! u = Some rta"
  shows "RTA_PAYLOAD rta = int (length (rta_payload rta))"
proof -
  have m: "list_all attr_ok as" "uint (nlmsg_len n) - int hdr = int (length (encs as))"
    using assms(1) by (simp_all add: nl_msg_def uint_nat)
  have d: "drop hdr n = encs as @ drop (length (encs as)) (drop hdr n)"
    using assms(1) unfolding nl_msg_def by (metis append_take_drop_id)
  have "replicate (mx + 1) None ! u = None" using assms(2) by (simp del: replicate.simps)
  then obtain t d p r' where ok: "attr_ok (t, d, p)" "rta = enc (t, d, p) @ r'"
    using parse_loop_ptr [OF m(1) _ assms(2), of "replicate (mx + 1) None" "drop (length (encs as)) (drop hdr n)" rta]
      assms(3) d unfolding parse_rtattr_def m(2) by (metis length_replicate option.distinct(1))
  show ?thesis
    using enc_head(3,4) [OF ok(1), of r'] unfolding ok(2) RTA_PAYLOAD_def by (simp add: uint_nat)
qed

text \<open>
  C14: Adding an attribute to a well-formed message either fails with -1 and changes nothing,
  exactly when the message with the aligned attribute would exceed \<open>maxlen\<close>, or succeeds, and
  then \<open>parse_rtattr\<close> on the new message finds no deficit and, for every type, the payload of
  the first attribute of that type: those that were there before, and the new one.
\<close>

theorem addattr_parse_roundtrip:
  assumes "nl_msg hdr as n" "length d + 4 < 2 ^ 16" "unat maxlen \<le> length n"
  shows "(hdr + length (encs as) + align4 (4 + length d) > unat maxlen \<longrightarrow> addattr_l n maxlen t d = (-1, n)) \<and>
    (hdr + length (encs as) + align4 (4 + length d) \<le> unat maxlen \<longrightarrow>
      (\<exists>n'. addattr_l n maxlen t d = (0, n') \<and>
        (case parse_rtattr mx (drop hdr n') (uint (nlmsg_len n') - int hdr) of
           (tb, deficit) \<Rightarrow> deficit = 0 \<and>
             (\<forall>u\<le>mx. map_option rta_payload (tb ! u) =
                (case first_attr u as of Some x \<Rightarrow> Some x
                 | None \<Rightarrow> if u = unat t then Some d else None)))))"
proof (intro conjI impI)
  show "addattr_l n maxlen t d = (-1, n)" if "hdr + length (encs as) + align4 (4 + length d) > unat maxlen"
    using addattr_l_msg(1) [OF assms] that by simp
  assume "hdr + length (encs as) + align4 (4 + length d) \<le> unat maxlen"
  then obtain p n' where n': "addattr_l n maxlen t d = (0, n')" "nl_msg hdr (as @ [(t, d, p)]) n'"
    using addattr_l_msg(2) [OF assms] by blast
  show "\<exists>n'. addattr_l n maxlen t d = (0, n') \<and>
        (case parse_rtattr mx (drop hdr n') (uint (nlmsg_len n') - int hdr) of
           (tb, deficit) \<Rightarrow> deficit = 0 \<and>
             (\<forall>u\<le>mx. map_option rta_payload (tb ! u) =
                (case first_attr u as of Some x \<Rightarrow> Some x
                 | None \<Rightarrow> if u = unat t then Some d else None)))"
    using n'(1) parse_msg [OF n'(2), of mx]
    by (intro exI [of _ n']) (simp add: case_prod_beta first_attr_snoc)
qed

definition empty_msg :: "u8 list" where
  "empty_msg = le_bytes 4 (36 :: u32) @ replicate 1020 0"

lemma empty_msg_ok: "nl_msg 36 [] empty_msg"
  by (simp add: nl_msg_def empty_msg_def nlmsg_len_def peek32_def)

theorem addattr_parse_roundtrip_witness:
  "\<exists>n'. addattr_l empty_msg 1024 2 [44, 1, 0, 0, 0, 0, 0, 0] = (0, n') \<and>
     (case parse_rtattr 8 (drop 36 n') (uint (nlmsg_len n') - 36) of
        (tb, deficit) \<Rightarrow> deficit = 0 \<and> (\<forall>u\<le>8. map_option rta_payload (tb ! u) =
          (if u = 2 then Some [44, 1, 0, 0, 0, 0, 0, 0] else None)))"
  using addattr_parse_roundtrip [OF empty_msg_ok, of "[44, 1, 0, 0, 0, 0, 0, 0]" 1024 2 8]
  by (simp add: first_attr_def align4_def empty_msg_def)

text \<open>
  Storing a larger length into the header of an attribute makes the attributes behind it part of
  its payload.
\<close>

lemma widen_msg:
  assumes "nl_msg hdr (as @ [(t, d, [])] @ bs) n" "length d + length (encs bs) + 4 < 2 ^ 16"
  defines "at \<equiv> hdr + length (encs as)"
  shows "NLMSG_TAIL n = at + 4 + length d + length (encs bs)"
    and "nl_msg hdr (as @ [(t, d @ encs bs, [])]) (poke at (le_bytes 2 (of_nat (4 + length d + length (encs bs)) :: u16)) n)"
    and "nlmsg_len (poke at (le_bytes 2 (of_nat (4 + length d + length (encs bs)) :: u16)) n) = nlmsg_len n"
proof -
  let ?L = "length d + length (encs bs)" and ?all = "as @ [(t, d, [])] @ bs"
  have m: "16 \<le> hdr" "hdr mod 4 = 0" "list_all attr_ok as" "list_all attr_ok bs" "length n < 2 ^ 31"
    "unat (nlmsg_len n) = at + 4 + ?L" "at + 4 + ?L \<le> length n"
    "take (length (encs ?all)) (drop hdr n) = encs ?all" "attr_ok (t, d, [])" "list_all attr_ok ?all"
    using assms(1) by (simp_all add: nl_msg_def at_def)
  have "4 dvd align4 (4 + length d)" by (simp add: align4_def)
  then have "4 dvd 4 + length d" using m(9) by simp
  then have L: "(4 + ?L) mod 4 = 0" using length_encs_mod [OF m(4)] by (simp add: mod_eq_0_iff_dvd add.assoc [symmetric])
  have hL: "4 dvd hdr" "4 dvd length (encs as)" "4 dvd 4 + ?L"
    using m(2) length_encs_mod [OF m(3)] L by (simp_all add: mod_eq_0_iff_dvd)
  then have "4 dvd at + (4 + ?L)" unfolding at_def by (metis dvd_add)
  then have "(at + 4 + ?L) mod 4 = 0" by (simp add: mod_eq_0_iff_dvd add.assoc)
  then show "NLMSG_TAIL n = at + 4 + length d + length (encs bs)"
    unfolding NLMSG_TAIL_def using m(5-7) by (simp add: unat_align align4_self)
  have ar: "length (encs ?all) + hdr = at + 4 + ?L" by (simp add: at_def)
  have "drop hdr n = encs ?all @ drop (length (encs ?all)) (drop hdr n)"
    using m(8) by (metis append_take_drop_id)
  then have "drop hdr n = encs ?all @ drop (at + 4 + ?L) n" unfolding drop_drop ar .
  then have "n = take hdr n @ encs ?all @ drop (at + 4 + ?L) n" by (metis append_take_drop_id)
  then have n: "n = take hdr n @ encs as @ le_bytes 2 (of_nat (4 + length d) :: u16) @ le_bytes 2 t @ d @ encs bs @ drop (at + 4 + ?L) n"
    by simp
  have th: "length (take hdr n) = hdr" using m(7) by (simp add: at_def)
  define n1 where "n1 = poke at (le_bytes 2 (of_nat (4 + length d + length (encs bs)) :: u16)) n"
  have "n1 = take hdr n @ encs as @ le_bytes 2 (of_nat (4 + ?L) :: u16) @ le_bytes 2 t @ d @ encs bs @ drop (at + 4 + ?L) n"
  proof -
    have "poke at (le_bytes 2 (of_nat (4 + ?L) :: u16))
        ((take hdr n @ encs as) @ le_bytes 2 (of_nat (4 + length d) :: u16) @ le_bytes 2 t @ d @ encs bs @ drop (at + 4 + ?L) n) =
      (take hdr n @ encs as) @ le_bytes 2 (of_nat (4 + ?L) :: u16) @ le_bytes 2 t @ d @ encs bs @ drop (at + 4 + ?L) n"
      by (rule poke_at) (simp_all add: at_def th del: length_take)
    then show ?thesis unfolding append_assoc n [symmetric] n1_def by (simp only: add.assoc)
  qed
  then have n1: "n1 = take hdr n @ encs (as @ [(t, d @ encs bs, [])]) @ drop (at + 4 + ?L) n" by simp
  have nl: "nlmsg_len n1 = nlmsg_len n"
    using m(1) th by (subst n, simp add: nlmsg_len_def peek32_def n1)
  then show "nlmsg_len (poke at (le_bytes 2 (of_nat (4 + length d + length (encs bs)) :: u16)) n) = nlmsg_len n"
    by (simp only: n1_def)
  have "attr_ok (t, d @ encs bs, [])" using assms(2) align4_self [OF L] by simp
  then show "nl_msg hdr (as @ [(t, d @ encs bs, [])]) (poke at (le_bytes 2 (of_nat (4 + length d + length (encs bs)) :: u16)) n)"
    unfolding n1_def [symmetric] using m th nl by (simp add: nl_msg_def n1 at_def) linarith
qed

lemma nest_end_msg:
  assumes "nl_msg hdr (as @ [(t, [], [])] @ bs) n" "length (encs bs) + 4 < 2 ^ 16"
  defines "nest \<equiv> hdr + length (encs as)"
  shows "nl_msg hdr (as @ [(t, encs bs, [])]) (snd (addattr_nest_end n nest))"
    and "fst (addattr_nest_end n nest) = nlmsg_len n"
  using widen_msg [OF assms(1)] assms(2) by (simp_all add: nest_def addattr_nest_end_def Let_def)

text \<open>What the parser finds in a message, as text or as bytes.\<close>

lemma msg_attr:
  assumes "nl_msg hdr as n" "u \<le> mx" "first_attr u as = Some d"
  shows "\<exists>rta rest. fst (parse_rtattr mx (drop hdr n) (uint (nlmsg_len n) - int hdr)) ! u = Some rta \<and>
    rta_payload rta = d \<and> RTA_PAYLOAD rta = int (length d) \<and> RTA_DATA rta = d @ rest"
proof -
  have m: "list_all attr_ok as" "uint (nlmsg_len n) - int hdr = int (length (encs as))"
    using assms(1) by (simp_all add: nl_msg_def uint_nat)
  have d: "drop hdr n = encs as @ drop (length (encs as)) (drop hdr n)"
    using assms(1) unfolding nl_msg_def by (metis append_take_drop_id)
  obtain rta rest where "fst (parse_rtattr mx (drop hdr n) (uint (nlmsg_len n) - int hdr)) ! u = Some rta"
    "RTA_PAYLOAD rta = int (length d)" "RTA_DATA rta = d @ rest"
    using parse_rtattr_entry [OF m(1) assms(2), of "drop (length (encs as)) (drop hdr n)"] d assms(3)
    unfolding m(2) by auto
  then show ?thesis by (auto simp: rta_payload_def)
qed

lemma NLMSG_TAIL_msg: "nl_msg hdr as n \<Longrightarrow> NLMSG_TAIL n = hdr + length (encs as)"
proof -
  assume m: "nl_msg hdr as n"
  then have "(hdr + length (encs as)) mod 4 = 0"
    using length_encs_mod [of as] by (simp add: nl_msg_def mod_eq_0_iff_dvd)
  with m show ?thesis by (simp add: NLMSG_TAIL_def nl_msg_def unat_align align4_self)
qed

text \<open>A sequence of attributes added to a message, as a caller does between opening and closing a nest.\<close>

definition add_attrs :: "u32 \<Rightarrow> (u16 \<times> u8 list) list \<Rightarrow> u8 list \<Rightarrow> u8 list" where
  "add_attrs maxlen ds n = fold (\<lambda>(t, d) n. snd (addattr_l n maxlen t d)) ds n"

definition attrs_size :: "(u16 \<times> u8 list) list \<Rightarrow> nat" where
  "attrs_size ds = sum_list (map (\<lambda>(t, d). align4 (4 + length d)) ds)"

lemma add_attrs_msg:
  assumes "nl_msg hdr as n" "unat maxlen \<le> length n" "\<forall>(t, d)\<in>set ds. length d + 4 < 2 ^ 16"
    "hdr + length (encs as) + attrs_size ds \<le> unat maxlen"
  shows "\<exists>bs. nl_msg hdr (as @ bs) (add_attrs maxlen ds n) \<and> map (\<lambda>(t, d, p). (t, d)) bs = ds"
  using assms
proof (induction ds arbitrary: as n)
  case Nil
  then show ?case by (intro exI [of _ "[]"]) (simp add: add_attrs_def)
next
  case (Cons x ds)
  obtain t d where x: "x = (t, d)" by fastforce
  have d: "length d + 4 < 2 ^ 16" "hdr + length (encs as) + align4 (4 + length d) + attrs_size ds \<le> unat maxlen"
    using Cons.prems(3,4) by (simp_all add: x attrs_size_def)
  obtain p n' where n': "addattr_l n maxlen t d = (0, n')" "nl_msg hdr (as @ [(t, d, p)]) n'" "length n' = length n"
    using addattr_l_msg(2) [OF Cons.prems(1) d(1) Cons.prems(2), of t] d(2) by auto
  have "length (encs (as @ [(t, d, p)])) = length (encs as) + align4 (4 + length d)"
    using n'(2) align4_ge(1) [of "4 + length d"] by (simp add: nl_msg_def)
  then obtain bs where "nl_msg hdr ((as @ [(t, d, p)]) @ bs) (add_attrs maxlen ds n')" "map (\<lambda>(t, d, p). (t, d)) bs = ds"
    using Cons.IH [OF n'(2)] Cons.prems(2,3) n'(3) d(2) by auto
  then show ?case using n'(1) by (intro exI [of _ "(t, d, p) # bs"]) (simp add: add_attrs_def x)
qed

lemma attrs_size_encs: "list_all attr_ok bs \<Longrightarrow> length (encs bs) = attrs_size (map (\<lambda>(t, d, p). (t, d)) bs)"
  by (induction bs) (auto simp: attrs_size_def)

lemma first_attr_map_of: "first_attr u bs = map_of (map (\<lambda>(t, d, p). (unat t, d)) bs) u"
  by (induction bs) (auto simp: first_attr_def)

text \<open>
  C15: \<open>addattr_nest\<close> opens a nest at the end of a message, \<open>addattr_l\<close> adds attributes and \<open>addattr_nest_end\<close> closes it,
  as long as all of it fits the message and the 16-bit length of one attribute: parsing the message then finds the nest under its type and every
  other attribute as before, and parsing the payload of the nest finds under each type the first attribute that was added with it.
\<close>

theorem nest_roundtrip:
  assumes "nl_msg hdr as n" "unat maxlen \<le> length n" "hdr + length (encs as) + 4 + attrs_size ds \<le> unat maxlen"
    "attrs_size ds + 4 < 2 ^ 16" "first_attr (unat t) as = None" "unat t \<le> mx"
  shows "case addattr_nest n maxlen t of (nest, n1) \<Rightarrow>
    (case addattr_nest_end (add_attrs maxlen ds n1) nest of (len, n') \<Rightarrow>
       len = nlmsg_len n' \<and> unat len = hdr + length (encs as) + 4 + attrs_size ds \<and>
       (let tb = fst (parse_rtattr mx (drop hdr n') (uint len - int hdr))
        in (\<forall>u\<le>mx. u \<noteq> unat t \<longrightarrow> map_option rta_payload (tb ! u) = first_attr u as) \<and>
           (\<exists>rta. tb ! unat t = Some rta \<and>
              (\<forall>u\<le>mx'. map_option rta_payload (parse_rtattr_nested mx' rta ! u) = map_of (map (\<lambda>(v, d). (unat v, d)) ds) u))))"
proof -
  have small: "\<forall>(v, d)\<in>set ds. length d + 4 < 2 ^ 16"
  proof clarify
    fix v d assume "(v, d) \<in> set ds"
    then have "align4 (4 + length d) \<in> set (map (\<lambda>(t, d). align4 (4 + length d)) ds)" by force
    then have "align4 (4 + length d) \<le> attrs_size ds" unfolding attrs_size_def by (intro member_le_sum_list) auto
    then show "length d + 4 < 2 ^ 16" using align4_ge(1) [of "4 + length d"] assms(4) by linarith
  qed
  have al: "align4 4 = 4" by (simp add: align4_def)
  obtain p n1 where n1: "addattr_l n maxlen t [] = (0, n1)" "nl_msg hdr (as @ [(t, [], p)]) n1" "length n1 = length n"
    using addattr_l_msg(2) [OF assms(1) _ assms(2), of "[]" t] assms(3) al by auto
  have p: "p = []" using n1(2) al by (simp add: nl_msg_def)
  obtain bs where bs: "nl_msg hdr (as @ [(t, [], [])] @ bs) (add_attrs maxlen ds n1)" "map (\<lambda>(t, d, p). (t, d)) bs = ds"
    using add_attrs_msg [OF n1(2), of maxlen ds] assms(2,3) n1(3) small p by auto
  define n2 where "n2 = add_attrs maxlen ds n1"
  define n' where "n' = snd (addattr_nest_end n2 (hdr + length (encs as)))"
  have ok: "list_all attr_ok bs" using bs(1) by (simp add: nl_msg_def)
  have sz: "length (encs bs) = attrs_size ds" using attrs_size_encs [OF ok] bs(2) by simp
  note msg = nest_end_msg [OF bs(1) [folded n2_def], unfolded sz, OF assms(4), folded n'_def]
  have len: "fst (addattr_nest_end n2 (hdr + length (encs as))) = nlmsg_len n'" by (simp add: n'_def addattr_nest_end_def Let_def)
  have nest: "addattr_nest n maxlen t = (hdr + length (encs as), n1)"
    using n1(1) NLMSG_TAIL_msg [OF assms(1)] by (simp add: addattr_nest_def)
  let ?tb = "fst (parse_rtattr mx (drop hdr n') (uint (nlmsg_len n') - int hdr))"
  have tb: "\<forall>u\<le>mx. map_option rta_payload (?tb ! u) = first_attr u (as @ [(t, encs bs, [])])"
    using parse_msg [OF msg(1), of mx] by simp
  obtain rta rest where rta: "?tb ! unat t = Some rta" "RTA_PAYLOAD rta = int (length (encs bs))" "RTA_DATA rta = encs bs @ rest"
    using msg_attr [OF msg(1) assms(6), of "encs bs"] assms(5) by (auto simp: first_attr_snoc)
  have "\<forall>u\<le>mx'. map_option rta_payload (parse_rtattr_nested mx' rta ! u) = first_attr u bs"
    using parse_loop_encs [OF ok, of "replicate (mx' + 1) None" mx' rest] rta(2,3)
    by (simp add: parse_rtattr_nested_def parse_rtattr_def del: replicate.simps)
  moreover have "first_attr u bs = map_of (map (\<lambda>(v, d). (unat v, d)) ds) u" for u
  proof -
    have "map (\<lambda>(v, d). (unat v, d)) (map (\<lambda>(t, d, p). (t, d)) bs) = map (\<lambda>(t, d, p). (unat t, d)) bs" by (induction bs) auto
    then show ?thesis unfolding bs(2) by (simp add: first_attr_map_of)
  qed
  moreover have "unat (nlmsg_len n') = hdr + length (encs as) + 4 + attrs_size ds" using msg(1) sz by (simp add: nl_msg_def)
  moreover have "\<forall>u\<le>mx. u \<noteq> unat t \<longrightarrow> map_option rta_payload (?tb ! u) = first_attr u as"
    using tb by (simp add: first_attr_snoc split: option.split)
  moreover have "addattr_nest_end n2 (hdr + length (encs as)) = (nlmsg_len n', n')" using len by (simp add: n'_def prod_eq_iff)
  ultimately show ?thesis using nest rta(1) by (simp add: n2_def [symmetric] Let_def)
qed

theorem nest_roundtrip_witness:
  "case addattr_nest empty_msg 1024 2 of (nest, n1) \<Rightarrow>
    (case addattr_nest_end (add_attrs 1024 [(1, [7, 0, 0, 0]), (3, [9])] n1) nest of (len, n') \<Rightarrow>
       unat len = 56 \<and>
       (\<exists>rta. fst (parse_rtattr 8 (drop 36 n') (uint len - 36)) ! 2 = Some rta \<and>
          map_option rta_payload (parse_rtattr_nested 3 rta ! 3) = Some [9]))"
proof -
  have sz: "attrs_size [(1, [7, 0, 0, 0]), (3, [9])] = 16" by (simp add: attrs_size_def align4_def)
  have "unat (1024 :: u32) \<le> length empty_msg" "first_attr (unat (2 :: u16)) [] = None"
    by (simp_all add: empty_msg_def first_attr_def)
  note nested = nest_roundtrip [OF empty_msg_ok this(1) _ _ this(2), of "[(1, [7, 0, 0, 0]), (3, [9])]" 8 3]
  obtain nest n1 where a: "addattr_nest empty_msg 1024 2 = (nest, n1)" by (cases "addattr_nest empty_msg 1024 2")
  obtain len n' where b: "addattr_nest_end (add_attrs 1024 [(1, [7, 0, 0, 0]), (3, [9])] n1) nest = (len, n')"
    by (cases "addattr_nest_end (add_attrs 1024 [(1, [7, 0, 0, 0]), (3, [9])] n1) nest")
  obtain rta where *: "unat len = 56" "fst (parse_rtattr 8 (drop 36 n') (uint len - 36)) ! 2 = Some rta"
    "\<forall>u\<le>3. map_option rta_payload (parse_rtattr_nested 3 rta ! u) = map_of [(1, [7, 0, 0, 0]), (3, [9])] u"
    using nested sz unfolding a prod.case b by (auto simp: Let_def simp del: map_option_eq_Some)
  have "map_option rta_payload (parse_rtattr_nested 3 rta ! 3) = Some [9]" using *(3) [rule_format, of 3] by simp
  then show ?thesis unfolding a prod.case b using *(1,2) by blast
qed

end
