(* ===== verification/Netlink_Sock.thy ===== *)
theory Netlink_Sock
  imports Netlink_Attr Utils_Addr
begin

unbundle bit_operations_syntax

text \<open>
  The netlink conversations of \<^verbatim>\<open>lib/libnetlink.c\<close>. The socket is a parameter: the results of the
  system calls, and for \<^verbatim>\<open>recvmsg\<close> the list of what it delivers. When the list is used up the
  call waits, which is the outcome \<open>Waiting\<close>; every other outcome is a return value or the end
  of the program.
\<close>

section \<open>Headers\<close>

definition nlmsg_type :: "u8 list \<Rightarrow> u16" where "nlmsg_type n = peek16 4 n"
definition nlmsg_flags :: "u8 list \<Rightarrow> u16" where "nlmsg_flags n = peek16 6 n"
definition nlmsg_seq :: "u8 list \<Rightarrow> u32" where "nlmsg_seq n = peek32 8 n"
definition nlmsg_pid :: "u8 list \<Rightarrow> u32" where "nlmsg_pid n = peek32 12 n"

definition make_nlmsghdr :: "u32 \<Rightarrow> u16 \<Rightarrow> u16 \<Rightarrow> u32 \<Rightarrow> u32 \<Rightarrow> u8 list" where
  "make_nlmsghdr len type flags seq pid =
     le_bytes 4 len @ le_bytes 2 type @ le_bytes 2 flags @ le_bytes 4 seq @ le_bytes 4 pid"

definition NLMSG_ERROR :: u16 where "NLMSG_ERROR = 2"
definition NLMSG_DONE :: u16 where "NLMSG_DONE = 3"
definition NLM_F_REQUEST :: u16 where "NLM_F_REQUEST = 1"
definition NLM_F_ACK :: u16 where "NLM_F_ACK = 4"
definition NLM_F_DUMP :: u16 where "NLM_F_DUMP = 0x300"
definition EINTR :: int where "EINTR = 4"
definition EAGAIN :: int where "EAGAIN = 11"
definition ENOBUFS :: int where "ENOBUFS = 105"

text \<open>The error code of an error message: the integer after the header.\<close>

definition nlmsgerr_error :: "u8 list \<Rightarrow> int" where "nlmsgerr_error h = sint (peek32 16 h)"

text \<open>\<^verbatim>\<open>sizeof(struct nlmsgerr)\<close>\<close>

definition NLMSGERR_SIZE :: int where "NLMSGERR_SIZE = 20"

record rtnl_handle =
  rth_fd :: int
  rth_local_pid :: u32
  rth_local_groups :: u32
  rth_seq :: u32
  rth_dump :: u32

section \<open>Opening and sending\<close>

record open_env =
  oe_socket :: int
  oe_sndbuf :: int
  oe_rcvbuf :: int
  oe_bind :: int
  oe_getsockname :: int
  oe_addr_len :: int
  oe_family :: int
  oe_pid :: u32
  oe_time :: u32

definition SOCKADDR_NL_SIZE :: int where "SOCKADDR_NL_SIZE = 12"
definition AF_NETLINK :: int where "AF_NETLINK = 16"

definition rtnl_open_byproto :: "open_env \<Rightarrow> u32 \<Rightarrow> int \<times> rtnl_handle" where
  "rtnl_open_byproto E subscriptions =
     (let r0 = \<lparr>rth_fd = oe_socket E, rth_local_pid = 0, rth_local_groups = 0, rth_seq = 0, rth_dump = 0\<rparr>;
          r1 = r0\<lparr>rth_local_groups := subscriptions\<rparr>;
          r2 = r1\<lparr>rth_local_pid := oe_pid E\<rparr>
      in if oe_socket E < 0 then (-1, r0)
         else if oe_sndbuf E < 0 then (-1, r0)
         else if oe_rcvbuf E < 0 then (-1, r0)
         else if oe_bind E < 0 then (-1, r1)
         else if oe_getsockname E < 0 then (-1, r1)
         else if oe_addr_len E \<noteq> SOCKADDR_NL_SIZE then (-1, r2)
         else if oe_family E \<noteq> AF_NETLINK then (-1, r2)
         else (0, r2\<lparr>rth_seq := oe_time E\<rparr>))"

definition rtnl_close :: "rtnl_handle \<Rightarrow> rtnl_handle" where
  "rtnl_close rth = (if rth_fd rth \<ge> 0 then rth\<lparr>rth_fd := -1\<rparr> else rth)"

text \<open>The requests, as the bytes that are sent, with the sequence number they use.\<close>

definition rtnl_wilddump_request :: "rtnl_handle \<Rightarrow> u8 \<Rightarrow> u16 \<Rightarrow> u8 list \<times> rtnl_handle" where
  "rtnl_wilddump_request rth family type =
     (let seq = rth_seq rth + 1
      in (make_nlmsghdr 28 type (NLM_F_DUMP OR NLM_F_REQUEST) seq 0 @
          [family, 0, 0, 0] @ le_bytes 2 (8 :: u16) @ le_bytes 2 (29 :: u16) @ le_bytes 4 (1 :: u32),
          rth\<lparr>rth_seq := seq, rth_dump := seq\<rparr>))"

definition rtnl_dump_request :: "rtnl_handle \<Rightarrow> u16 \<Rightarrow> u8 list \<Rightarrow> u8 list \<times> rtnl_handle" where
  "rtnl_dump_request rth type req =
     (let seq = rth_seq rth + 1
      in (make_nlmsghdr (16 + of_nat (length req)) type (NLM_F_DUMP OR NLM_F_REQUEST) seq 0 @ req,
          rth\<lparr>rth_seq := seq, rth_dump := seq\<rparr>))"

section \<open>Messages in a buffer\<close>

definition NLMSG_OK :: "u8 list \<Rightarrow> int \<Rightarrow> bool" where
  "NLMSG_OK h len \<longleftrightarrow> len \<ge> 16 \<and> nlmsg_len h \<ge> 16 \<and> uint (nlmsg_len h) \<le> len"

definition nlmsg_step :: "u8 list \<Rightarrow> nat" where
  "nlmsg_step h = unat (NLMSG_ALIGN (nlmsg_len h))"

text \<open>What \<^verbatim>\<open>recvmsg\<close> delivers: an error, or a datagram with its sender and two flags.\<close>

datatype recv_event =
    RecvError int
  | RecvMsg u32 bool bool "u8 list"  \<comment> \<open>sender, is its address well-formed, is it truncated, bytes\<close>

datatype 's nl_outcome =
    Returned int 's
  | Exited int
  | Waiting 's

text \<open>A callback: the sender, the message, the state it works on.\<close>

type_synonym 's nl_filter = "u32 \<Rightarrow> u8 list \<Rightarrow> 's \<Rightarrow> int \<times> 's"

lemma nlmsg_step_bounds:
  assumes "NLMSG_OK h len" "len < 2147483648" shows "16 \<le> nlmsg_step h"
proof -
  have ok: "uint (nlmsg_len h) \<le> len" "16 \<le> nlmsg_len h" using assms(1) by (simp_all add: NLMSG_OK_def)
  then have "int (unat (nlmsg_len h)) < 2147483648" unfolding uint_nat using assms(2) by linarith
  then have "unat (nlmsg_len h) < 2147483648" by (simp only: of_nat_less_numeral_iff)
  moreover have "16 \<le> unat (nlmsg_len h)" using ok(2) by (simp add: word_le_nat_alt)
  ultimately have "unat (nlmsg_len h) + 3 < 2 ^ 32" "16 \<le> unat (nlmsg_len h)" by simp_all
  then show ?thesis using align4_ge(1) [of "unat (nlmsg_len h)"] by (simp add: nlmsg_step_def unat_align)
qed

section \<open>Dumps\<close>

datatype 's dump_walk =
    WReturn int 's
  | WDone int 's      \<comment> \<open>the end marker was found; what was left of the length\<close>
  | WEnd int 's       \<comment> \<open>no further message fits\<close>

text \<open>
  One filter over the messages of a datagram. The fuel is the number of bytes, which is enough
  because every message has at least sixteen.
\<close>

fun dump_msgs :: "nat \<Rightarrow> rtnl_handle \<Rightarrow> u32 \<Rightarrow> 's nl_filter \<Rightarrow> u8 list \<Rightarrow> int \<Rightarrow> 's \<Rightarrow> 's dump_walk" where
  "dump_msgs 0 rth pid filt h msglen st = WEnd msglen st"
| "dump_msgs (Suc fuel) rth pid filt h msglen st =
     (if \<not> NLMSG_OK h msglen then WEnd msglen st
      else let next = (\<lambda>st. dump_msgs fuel rth pid filt (drop (nlmsg_step h) h) (msglen - int (nlmsg_step h)) st)
           in if pid \<noteq> 0 \<or> nlmsg_pid h \<noteq> rth_local_pid rth \<or> nlmsg_seq h \<noteq> rth_dump rth then next st
              else if nlmsg_type h = NLMSG_DONE then WDone msglen st
              else if nlmsg_type h = NLMSG_ERROR then WReturn (-1) st
              else case filt pid h st of (err, st1) \<Rightarrow> if err < 0 then WReturn err st1 else next st1)"

text \<open>All filters in turn over the same datagram.\<close>

fun dump_filters ::
  "rtnl_handle \<Rightarrow> u32 \<Rightarrow> u8 list \<Rightarrow> 's nl_filter list \<Rightarrow> bool \<Rightarrow> int \<Rightarrow> 's \<Rightarrow> (int \<times> 's) + (bool \<times> int \<times> 's)" where
  "dump_filters rth pid buf [] found_done msglen st = Inr (found_done, msglen, st)"
| "dump_filters rth pid buf (a # as) found_done msglen st =
     (case dump_msgs (length buf) rth pid a buf (int (length buf)) st of
        WReturn rc st1 \<Rightarrow> Inl (rc, st1)
      | WDone l st1 \<Rightarrow> dump_filters rth pid buf as True l st1
      | WEnd l st1 \<Rightarrow> dump_filters rth pid buf as found_done l st1)"

fun rtnl_dump_filter_l :: "rtnl_handle \<Rightarrow> 's nl_filter list \<Rightarrow> recv_event list \<Rightarrow> 's \<Rightarrow> 's nl_outcome" where
  "rtnl_dump_filter_l rth arg [] st = Waiting st"
| "rtnl_dump_filter_l rth arg (RecvError e # evs) st =
     (if e = EINTR \<or> e = EAGAIN then rtnl_dump_filter_l rth arg evs st else Returned (-1) st)"
| "rtnl_dump_filter_l rth arg (RecvMsg pid name_ok trunc buf # evs) st =
     (if buf = [] then Returned (-1) st
      else case dump_filters rth pid buf arg False 0 st of
             Inl (rc, st1) \<Rightarrow> Returned rc st1
           | Inr (found_done, msglen, st1) \<Rightarrow>
               if found_done then Returned 0 st1
               else if trunc then rtnl_dump_filter_l rth arg evs st1
               else if msglen \<noteq> 0 then Exited 1
               else rtnl_dump_filter_l rth arg evs st1)"

definition rtnl_dump_filter :: "rtnl_handle \<Rightarrow> 's nl_filter \<Rightarrow> recv_event list \<Rightarrow> 's \<Rightarrow> 's nl_outcome" where
  "rtnl_dump_filter rth filt evs st = rtnl_dump_filter_l rth [filt] evs st"

section \<open>Request and answer\<close>

text \<open>The answer that was copied out, if any, and the value of \<^verbatim>\<open>errno\<close>.\<close>

record talk_state =
  tk_answer :: "u8 list option"
  tk_errno :: int

text \<open>
  The messages of one datagram. The loop condition compares the length with an unsigned size:
  a negative length is taken for a large one, and then the message counts as malformed.
\<close>

fun talk_msgs ::
  "nat \<Rightarrow> u32 \<Rightarrow> u32 \<Rightarrow> u32 \<Rightarrow> bool \<Rightarrow> bool \<Rightarrow> u32 \<Rightarrow> u8 list \<Rightarrow> int \<Rightarrow> talk_state \<Rightarrow>
   talk_state nl_outcome + int" where
  "talk_msgs 0 peer local_pid seq want trunc pid h status st = Inr status"
| "talk_msgs (Suc fuel) peer local_pid seq want trunc pid h status st =
     (if 0 \<le> status \<and> status < 16 then Inr status
      else let len = sint (nlmsg_len h); l = len - 16
           in if status < 0 \<or> l < 0 \<or> len > status
              then Inl (if trunc then Returned (-1) st else Exited 1)
              else let next = talk_msgs fuel peer local_pid seq want trunc pid
                                (drop (nlmsg_step h) h) (status - int (nlmsg_step h)) st;
                       copy = st\<lparr>tk_answer := Some (take (nat len) h)\<rparr>
                   in if pid \<noteq> peer \<or> nlmsg_pid h \<noteq> local_pid \<or> nlmsg_seq h \<noteq> seq then next
                      else if nlmsg_type h = NLMSG_ERROR
                      then Inl (if l < NLMSGERR_SIZE then Returned (-1) st
                                else if nlmsgerr_error h = 0 then Returned 0 (if want then copy else st)
                                else Returned (-1) (st\<lparr>tk_errno := - nlmsgerr_error h\<rparr>))
                      else if want then Inl (Returned 0 copy)
                      else next)"

fun talk_recv ::
  "u32 \<Rightarrow> u32 \<Rightarrow> u32 \<Rightarrow> bool \<Rightarrow> recv_event list \<Rightarrow> talk_state \<Rightarrow> talk_state nl_outcome" where
  "talk_recv peer local_pid seq want [] st = Waiting st"
| "talk_recv peer local_pid seq want (RecvError e # evs) st =
     (if e = EINTR \<or> e = EAGAIN then talk_recv peer local_pid seq want evs st else Returned (-1) st)"
| "talk_recv peer local_pid seq want (RecvMsg pid name_ok trunc buf # evs) st =
     (if buf = [] then Returned (-1) st
      else if \<not> name_ok then Exited 1
      else case talk_msgs (length buf) peer local_pid seq want trunc pid buf (int (length buf)) st of
             Inl r \<Rightarrow> r
           | Inr status \<Rightarrow>
               if trunc then talk_recv peer local_pid seq want evs st
               else if status \<noteq> 0 then Exited 1
               else talk_recv peer local_pid seq want evs st)"

text \<open>
  The request gets the next sequence number and, when no answer is wanted, the flag that asks
  for an acknowledgement; as many bytes as its header says are sent, and \<open>sent\<close> is the result of \<^verbatim>\<open>sendmsg\<close>.
  The result has the bytes, the outcome and the socket.
\<close>

definition talk_request :: "rtnl_handle \<Rightarrow> u8 list \<Rightarrow> bool \<Rightarrow> u8 list" where
  "talk_request rtnl n want =
     (let n1 = poke 8 (le_bytes 4 (rth_seq rtnl + 1)) n
      in if want then n1 else poke 6 (le_bytes 2 (nlmsg_flags n1 OR NLM_F_ACK)) n1)"

definition rtnl_talk ::
  "rtnl_handle \<Rightarrow> u8 list \<Rightarrow> u32 \<Rightarrow> bool \<Rightarrow> int \<Rightarrow> recv_event list \<Rightarrow> u8 list \<times> talk_state nl_outcome \<times> rtnl_handle" where
  "rtnl_talk rtnl n peer want sent evs =
     (let seq = rth_seq rtnl + 1; st = \<lparr>tk_answer = None, tk_errno = 0\<rparr>
      in (take (unat (nlmsg_len n)) (talk_request rtnl n want),
          if sent < 0 then Returned (-1) st
          else talk_recv peer (rth_local_pid rtnl) seq want evs st,
          rtnl\<lparr>rth_seq := seq\<rparr>))"

section \<open>Listening\<close>

fun listen_msgs ::
  "nat \<Rightarrow> 's nl_filter \<Rightarrow> bool \<Rightarrow> u32 \<Rightarrow> u8 list \<Rightarrow> int \<Rightarrow> 's \<Rightarrow> 's nl_outcome + (int \<times> 's)" where
  "listen_msgs 0 handler trunc pid h status st = Inr (status, st)"
| "listen_msgs (Suc fuel) handler trunc pid h status st =
     (if 0 \<le> status \<and> status < 16 then Inr (status, st)
      else let len = sint (nlmsg_len h); l = len - 16
           in if status < 0 \<or> l < 0 \<or> len > status
              then Inl (if trunc then Returned (-1) st else Exited 1)
              else case handler pid h st of
                     (err, st1) \<Rightarrow>
                       if err < 0 then Inl (Returned err st1)
                       else listen_msgs fuel handler trunc pid (drop (nlmsg_step h) h)
                              (status - int (nlmsg_step h)) st1)"

fun rtnl_listen :: "'s nl_filter \<Rightarrow> recv_event list \<Rightarrow> 's \<Rightarrow> 's nl_outcome" where
  "rtnl_listen handler [] st = Waiting st"
| "rtnl_listen handler (RecvError e # evs) st =
     (if e = EINTR \<or> e = EAGAIN \<or> e = ENOBUFS then rtnl_listen handler evs st else Returned (-1) st)"
| "rtnl_listen handler (RecvMsg pid name_ok trunc buf # evs) st =
     (if buf = [] then Returned (-1) st
      else if \<not> name_ok then Exited 1
      else case listen_msgs (length buf) handler trunc pid buf (int (length buf)) st of
             Inl r \<Rightarrow> r
           | Inr (status, st1) \<Rightarrow>
               if trunc then rtnl_listen handler evs st1
               else if status \<noteq> 0 then Exited 1
               else rtnl_listen handler evs st1)"

text \<open>
  Messages saved in a file, the list of its bytes. The buffer keeps what earlier reads left in
  it, so that a short header is completed by old bytes, as in the source.
\<close>

definition NLBUF :: nat where "NLBUF = 8192"

function rtnl_from_file :: "'s nl_filter \<Rightarrow> u8 list \<Rightarrow> u8 list \<Rightarrow> 's \<Rightarrow> int \<times> 's" where
  "rtnl_from_file handler file buf st =
     (if file = [] then (0, st)
      else let buf1 = poke 0 (take 16 file) buf; file1 = drop 16 file;
               len = sint (nlmsg_len buf1); l = len - 16
           in if l < 0 \<or> len > int NLBUF then (-1, st)
              else let want = align4 (nat l); body = take want file1; buf2 = poke 16 body buf1
                   in if int (length body) < l then (-1, st)
                      else case handler 0 buf2 st of
                             (err, st1) \<Rightarrow> if err < 0 then (err, st1)
                                           else rtnl_from_file handler (drop want file1) buf2 st1)"
  by pat_completeness auto
termination
  by (relation "measure (\<lambda>(_, file, _, _). length file)") auto

declare rtnl_from_file.simps [simp del]

text \<open>
  \<^verbatim>\<open>rtnl_send_check\<close>: \<open>peeked\<close> is what a look at the socket shows right after sending, an error
  number or bytes.
\<close>

fun check_msgs :: "nat \<Rightarrow> u8 list \<Rightarrow> int \<Rightarrow> int" where
  "check_msgs 0 h status = 0"
| "check_msgs (Suc fuel) h status =
     (if \<not> NLMSG_OK h status then 0
      else if nlmsg_type h = NLMSG_ERROR then -1
      else check_msgs fuel (drop (nlmsg_step h) h) (status - int (nlmsg_step h)))"

definition rtnl_send_check :: "int \<Rightarrow> int + u8 list \<Rightarrow> int" where
  "rtnl_send_check sent peeked =
     (if sent < 0 then sent
      else case peeked of
             Inl e \<Rightarrow> if e = EAGAIN then 0 else -1
           | Inr resp \<Rightarrow> check_msgs (length resp) resp (int (length resp)))"

section \<open>Well-formed messages\<close>

definition wf_nlmsg :: "u8 list \<Rightarrow> bool" where
  "wf_nlmsg m \<longleftrightarrow> 16 \<le> length m \<and> length m mod 4 = 0 \<and> length m < 2147483648 \<and>
     unat (nlmsg_len m) = length m"

lemma peek_append:
  "off + 4 \<le> length m \<Longrightarrow> peek32 off (m @ r) = peek32 off m"
  "off + 2 \<le> length m \<Longrightarrow> peek16 off (m @ r) = peek16 off m"
  by (simp_all add: peek32_def peek16_def)

lemma wf_header:
  assumes "wf_nlmsg m"
  shows "nlmsg_len (m @ r) = nlmsg_len m" "nlmsg_type (m @ r) = nlmsg_type m"
    "nlmsg_seq (m @ r) = nlmsg_seq m" "nlmsg_pid (m @ r) = nlmsg_pid m"
    "20 \<le> length m \<Longrightarrow> nlmsgerr_error (m @ r) = nlmsgerr_error m"
    "nlmsg_step (m @ r) = length m" "sint (nlmsg_len m) = int (length m)" "uint (nlmsg_len m) = int (length m)"
proof -
  have m: "16 \<le> length m" "length m mod 4 = 0" "length m < 2147483648" "unat (nlmsg_len m) = length m"
    using assms by (simp_all add: wf_nlmsg_def)
  show l: "nlmsg_len (m @ r) = nlmsg_len m" and "nlmsg_type (m @ r) = nlmsg_type m"
    "nlmsg_seq (m @ r) = nlmsg_seq m" "nlmsg_pid (m @ r) = nlmsg_pid m"
    "20 \<le> length m \<Longrightarrow> nlmsgerr_error (m @ r) = nlmsgerr_error m"
    using m(1) by (simp_all add: nlmsg_len_def nlmsg_type_def nlmsg_seq_def nlmsg_pid_def nlmsgerr_error_def peek_append)
  show "nlmsg_step (m @ r) = length m"
    using m by (simp add: nlmsg_step_def l unat_align align4_self)
  show u: "uint (nlmsg_len m) = int (length m)" unfolding uint_nat m(4) ..
  show "sint (nlmsg_len m) = int (length m)"
    using sint_eq_uint_small [of "nlmsg_len m"] m(3,4) by (simp add: u word_less_nat_alt)
qed

lemma wf_NLMSG_OK: "wf_nlmsg m \<Longrightarrow> int (length m) \<le> k \<Longrightarrow> NLMSG_OK (m @ r) k"
  using wf_header(1) [of m r] wf_header(8) [of m] by (auto simp: NLMSG_OK_def wf_nlmsg_def word_le_nat_alt)

section \<open>Dumps deliver every message once and in order\<close>

text \<open>The filter over a list of messages, until it returns a negative code.\<close>

fun run_filter :: "'s nl_filter \<Rightarrow> u8 list list \<Rightarrow> 's \<Rightarrow> int \<times> 's" where
  "run_filter filt [] st = (0, st)"
| "run_filter filt (m # ms) st =
     (case filt 0 m st of (err, st1) \<Rightarrow> if err < 0 then (err, st1) else run_filter filt ms st1)"

lemma run_filter_append:
  "run_filter filt (ms @ ns) st =
     (case run_filter filt ms st of (err, st1) \<Rightarrow> if err < 0 then (err, st1) else run_filter filt ns st1)"
  by (induction ms arbitrary: st) (auto split: prod.split)

lemma run_filter_rc: "run_filter filt ms st = (err, st1) \<Longrightarrow> \<not> err < 0 \<Longrightarrow> err = 0"
  by (induction ms arbitrary: st) (auto split: prod.splits if_splits)

lemma dump_msgs_empty: "dump_msgs fuel rth pid filt r 0 st = WEnd 0 st"
  by (cases fuel) (simp_all add: NLMSG_OK_def)

text \<open>A callback does not look behind its message.\<close>

definition reads_own :: "'s nl_filter \<Rightarrow> u8 list \<Rightarrow> bool" where
  "reads_own filt m \<longleftrightarrow> (\<forall>r st. filt 0 (m @ r) st = filt 0 m st)"

text \<open>A message of the running dump that is neither its end nor an error.\<close>

definition dump_part :: "rtnl_handle \<Rightarrow> u8 list \<Rightarrow> bool" where
  "dump_part rth m \<longleftrightarrow> wf_nlmsg m \<and> nlmsg_pid m = rth_local_pid rth \<and> nlmsg_seq m = rth_dump rth \<and>
     nlmsg_type m \<noteq> NLMSG_DONE \<and> nlmsg_type m \<noteq> NLMSG_ERROR"

definition dump_end :: "rtnl_handle \<Rightarrow> u8 list \<Rightarrow> bool" where
  "dump_end rth m \<longleftrightarrow> wf_nlmsg m \<and> nlmsg_pid m = rth_local_pid rth \<and> nlmsg_seq m = rth_dump rth \<and>
     nlmsg_type m = NLMSG_DONE"

lemma dump_msgs_part:
  assumes "dump_part rth m" "reads_own filt m" "int (length m) \<le> k"
  shows "dump_msgs (Suc fuel) rth 0 filt (m @ r) k st =
    (case filt 0 m st of (err, st1) \<Rightarrow>
       if err < 0 then WReturn err st1 else dump_msgs fuel rth 0 filt r (k - int (length m)) st1)"
proof -
  have wf: "wf_nlmsg m" using assms(1) by (simp add: dump_part_def)
  have "filt 0 (m @ r) st = filt 0 m st" using assms(2) by (simp add: reads_own_def)
  then show ?thesis
    using wf_NLMSG_OK [OF wf assms(3), of r] wf_header(1-6) [OF wf, of r] wf_header(7,8) [OF wf] assms(1)
    by (auto simp: dump_part_def split: prod.split)
qed

text \<open>A message is for this dump when the kernel sends it with the numbers of the dump; the others are passed over.\<close>

definition dump_own :: "rtnl_handle \<Rightarrow> u32 \<Rightarrow> u8 list \<Rightarrow> bool" where
  "dump_own rth pid m \<longleftrightarrow> pid = 0 \<and> nlmsg_pid m = rth_local_pid rth \<and> nlmsg_seq m = rth_dump rth"

definition dump_msg :: "rtnl_handle \<Rightarrow> u32 \<Rightarrow> u8 list \<Rightarrow> bool" where
  "dump_msg rth pid m \<longleftrightarrow> wf_nlmsg m \<and> (dump_own rth pid m \<longrightarrow> dump_part rth m)"

lemma dump_msgs_foreign:
  assumes "wf_nlmsg m" "\<not> dump_own rth pid m" "int (length m) \<le> k"
  shows "dump_msgs (Suc fuel) rth pid filt (m @ r) k st = dump_msgs fuel rth pid filt r (k - int (length m)) st"
  using wf_NLMSG_OK [OF assms(1,3), of r] wf_header(1-6) [OF assms(1), of r] wf_header(7,8) [OF assms(1)] assms(2)
  by (auto simp: dump_own_def)

lemma dump_msgs_parts:
  assumes "list_all (dump_msg rth pid) ms" "list_all (reads_own filt) (filter (dump_own rth pid) ms)"
    "length (concat ms) + length r \<le> fuel" "int (length (concat ms @ r)) = k"
  shows "dump_msgs fuel rth pid filt (concat ms @ r) k st =
    (case run_filter filt (filter (dump_own rth pid) ms) st of (err, st1) \<Rightarrow>
       if err < 0 then WReturn err st1 else dump_msgs (fuel - length ms) rth pid filt r (int (length r)) st1)"
  using assms
proof (induction ms arbitrary: fuel k st)
  case (Cons m ms)
  have m: "wf_nlmsg m" "dump_own rth pid m \<Longrightarrow> dump_part rth m" using Cons.prems(1) by (simp_all add: dump_msg_def)
  then have "16 \<le> length m" by (simp add: wf_nlmsg_def)
  then obtain f where f: "fuel = Suc f" using Cons.prems(3) by (cases fuel) auto
  note IH = Cons.IH [of f "k - int (length m)"]
  show ?case
  proof (cases "dump_own rth pid m")
    case True
    then have pid: "pid = 0" by (simp add: dump_own_def)
    obtain err st1 where e: "filt 0 m st = (err, st1)" by fastforce
    have "dump_msgs fuel rth pid filt (concat (m # ms) @ r) k st =
        (if err < 0 then WReturn err st1 else dump_msgs f rth pid filt (concat ms @ r) (k - int (length m)) st1)"
      unfolding f pid using dump_msgs_part [OF m(2) [OF True], of filt k f "concat ms @ r" st] Cons.prems(2,4) True e by simp
    then show ?thesis using IH [of st1] Cons.prems f \<open>16 \<le> length m\<close> True e by (simp split: prod.split)
  next
    case False
    then show ?thesis
      unfolding f using dump_msgs_foreign [OF m(1) False, of k f filt "concat ms @ r" st] IH [of st] Cons.prems f \<open>16 \<le> length m\<close>
      by (simp del: dump_msgs.simps split: prod.split)
  qed
qed simp

lemma dump_msgs_end:
  assumes "dump_end rth m" "int (length m) \<le> k" shows "dump_msgs (Suc fuel) rth 0 filt (m @ r) k st = WDone k st"
proof -
  have wf: "wf_nlmsg m" using assms(1) by (simp add: dump_end_def)
  show ?thesis
    using wf_NLMSG_OK [OF wf assms(2), of r] wf_header(1-6) [OF wf, of r] wf_header(7,8) [OF wf] assms(1) by (simp add: dump_end_def)
qed

text \<open>
  What may arrive before the end of a dump, and the messages of the dump in it: interruptions of \<^verbatim>\<open>recvmsg\<close>, and datagrams of complete
  messages, of this dump or not.
\<close>

inductive delivers :: "rtnl_handle \<Rightarrow> recv_event list \<Rightarrow> u8 list list \<Rightarrow> bool" for rth where
  nothing: "delivers rth [] []"
| interrupted: "e = EINTR \<or> e = EAGAIN \<Longrightarrow> delivers rth evs ms \<Longrightarrow> delivers rth (RecvError e # evs) ms"
| datagram: "ds \<noteq> [] \<Longrightarrow> list_all (dump_msg rth pid) ds \<Longrightarrow> delivers rth evs ms \<Longrightarrow>
    delivers rth (RecvMsg pid name_ok trunc (concat ds) # evs) (filter (dump_own rth pid) ds @ ms)"

lemma dump_msg_length: "list_all (dump_msg rth pid) ms \<Longrightarrow> length ms \<le> length (concat ms)"
  by (induction ms) (auto simp: dump_msg_def wf_nlmsg_def)

lemma dump_last_datagram:
  assumes "list_all (dump_msg rth 0) lst" "dump_end rth fin" "list_all (reads_own filt) (filter (dump_own rth 0) lst)"
  shows "rtnl_dump_filter rth filt (RecvMsg 0 name_ok trunc (concat lst @ fin @ tail) # evs) st =
    (case run_filter filt (filter (dump_own rth 0) lst) st of (err, st1) \<Rightarrow> Returned err st1)"
proof -
  let ?buf = "concat lst @ fin @ tail"
  have fin: "16 \<le> length fin" using assms(2) by (simp add: dump_end_def wf_nlmsg_def)
  then obtain f where f: "length ?buf - length lst = Suc f"
    using dump_msg_length [OF assms(1)] by (cases "length ?buf - length lst") auto
  have "dump_msgs (length ?buf) rth 0 filt ?buf (int (length ?buf)) st =
      (case run_filter filt (filter (dump_own rth 0) lst) st of (err, st1) \<Rightarrow>
         if err < 0 then WReturn err st1 else WDone (int (length (fin @ tail))) st1)"
    using dump_msgs_parts [OF assms(1,3), of "fin @ tail" "length ?buf" "int (length ?buf)" st] f
      dump_msgs_end [OF assms(2), of "int (length (fin @ tail))" f filt tail]
    by (simp split: prod.split)
  then show ?thesis using fin by (auto simp: rtnl_dump_filter_def run_filter_rc split: prod.split)
qed

lemma dump_filter_messages:
  assumes "delivers rth evs ms" "list_all (reads_own filt) ms"
    and lst: "list_all (dump_msg rth 0) lst" "list_all (reads_own filt) (filter (dump_own rth 0) lst)" "dump_end rth fin"
  shows "rtnl_dump_filter rth filt (evs @ RecvMsg 0 name_ok trunc (concat lst @ fin @ tail) # later) st =
    (case run_filter filt (ms @ filter (dump_own rth 0) lst) st of (err, st1) \<Rightarrow> Returned err st1)"
  using assms(1,2)
proof (induction arbitrary: st rule: delivers.induct)
  case nothing
  then show ?case using dump_last_datagram [OF lst(1,3,2)] by simp
next
  case (interrupted e evs ms)
  then show ?case by (auto simp: rtnl_dump_filter_def)
next
  case (datagram ds pid evs ms name_ok trunc)
  have ne: "concat ds \<noteq> []" using datagram.hyps(1,2) by (cases ds) (auto simp: dump_msg_def wf_nlmsg_def)
  have "dump_msgs (length (concat ds)) rth pid filt (concat ds) (int (length (concat ds))) st =
      (case run_filter filt (filter (dump_own rth pid) ds) st of (err, st1) \<Rightarrow> if err < 0 then WReturn err st1 else WEnd 0 st1)"
    using dump_msgs_parts [OF datagram.hyps(2), of filt "[]" "length (concat ds)" "int (length (concat ds))" st] datagram.prems
    by (simp add: dump_msgs_empty split: prod.split)
  then show ?case
    using datagram ne by (auto simp: rtnl_dump_filter_def run_filter_append split: prod.split)
qed

text \<open>
  C17: The kernel answers a dump with any number of datagrams of complete messages and ends
  it with the end marker. Then \<open>rtnl_dump_filter\<close> passes every message of the dump to the filter once and in
  order and returns 0 with the filter's final state; the
  first negative code of the filter stops the dump and is returned. Interruptions of \<open>recvmsg\<close> between the datagrams, any number or none, and
  messages and datagrams of other conversations among them do not change the result.
\<close>

theorem dump_filter_delivers_all:
  assumes "delivers rth evs ms" "list_all (dump_msg rth 0) lst" "dump_end rth fin"
    "list_all (reads_own filt) (ms @ filter (dump_own rth 0) lst)"
  shows "rtnl_dump_filter rth filt (evs @ RecvMsg 0 name_ok trunc (concat lst @ fin @ tail) # later) st =
    (case run_filter filt (ms @ filter (dump_own rth 0) lst) st of (err, st1) \<Rightarrow> Returned err st1)"
  using assms by (intro dump_filter_messages) simp_all

definition demo_handle :: rtnl_handle where
  "demo_handle = \<lparr>rth_fd = 3, rth_local_pid = 77, rth_local_groups = 0, rth_seq = 9, rth_dump = 9\<rparr>"

lemma header_fields:
  "nlmsg_len (make_nlmsghdr len type flags seq pid @ r) = len"
  "nlmsg_type (make_nlmsghdr len type flags seq pid @ r) = type"
  "nlmsg_seq (make_nlmsghdr len type flags seq pid @ r) = seq"
  "nlmsg_pid (make_nlmsghdr len type flags seq pid @ r) = pid"
  "length (make_nlmsghdr len type flags seq pid) = 16"
  by (simp_all add: make_nlmsghdr_def nlmsg_len_def nlmsg_type_def nlmsg_seq_def nlmsg_pid_def peek32_def peek16_def)

lemmas header_fields_plain = header_fields(1-4) [where r = "[]", simplified]

theorem dump_filter_delivers_all_witness:
  "rtnl_dump_filter demo_handle (\<lambda>pid m n. (0, n + 1 :: nat))
     [RecvMsg 0 True False (make_nlmsghdr 16 16 2 9 77), RecvError EINTR, RecvError EAGAIN,
      RecvMsg 0 True False (make_nlmsghdr 16 16 2 8 77 @ make_nlmsghdr 16 16 2 9 77),
      RecvMsg 0 True False (make_nlmsghdr 16 3 2 9 77)] 5 = Returned 0 7"
proof -
  let ?m = "make_nlmsghdr 16 16 2 9 77" and ?x = "make_nlmsghdr 16 16 2 8 77" and ?e = "make_nlmsghdr 16 3 2 9 77"
  let ?f = "\<lambda>pid m n. (0, n + 1 :: nat)"
  have own: "dump_own demo_handle 0 ?m" "\<not> dump_own demo_handle 0 ?x"
    by (simp_all add: dump_own_def header_fields_plain demo_handle_def)
  have msg: "dump_msg demo_handle 0 ?m" "dump_msg demo_handle 0 ?x"
    using own by (simp_all add: dump_msg_def dump_part_def wf_nlmsg_def header_fields_plain header_fields(5) demo_handle_def
        NLMSG_DONE_def NLMSG_ERROR_def)
  have "delivers demo_handle [RecvMsg 0 True False (concat [?m]), RecvError EINTR, RecvError EAGAIN, RecvMsg 0 True False (concat [?x, ?m])]
      (filter (dump_own demo_handle 0) [?m] @ filter (dump_own demo_handle 0) [?x, ?m] @ [])"
    using msg by (intro delivers.intros) simp_all
  moreover have "dump_end demo_handle ?e"
    by (simp add: dump_end_def wf_nlmsg_def header_fields_plain header_fields(5) demo_handle_def NLMSG_DONE_def)
  moreover have "reads_own ?f ?m" by (simp add: reads_own_def)
  ultimately show ?thesis
    using dump_filter_delivers_all [where lst = "[]" and tail = "[]" and later = "[]" and filt = ?f and st = 5] own by fastforce
qed

section \<open>What a callback keeps, a dump keeps\<close>

text \<open>The places of a datagram at which the walk looks for a message.\<close>

inductive msg_at :: "u8 list \<Rightarrow> u8 list \<Rightarrow> bool" for buf where
  first: "msg_at buf buf"
| further: "msg_at buf h \<Longrightarrow> msg_at buf (drop (nlmsg_step h) h)"

locale filter_invariant =
  fixes filt :: "'s nl_filter" and good :: "u8 list \<Rightarrow> bool" and inv :: "'s \<Rightarrow> bool"
  assumes filter_keeps: "good n \<Longrightarrow> inv st \<Longrightarrow> inv (snd (filt pid n st))"
begin

lemma msgs_keep:
  assumes "\<And>n. msg_at buf n \<Longrightarrow> good n"
  shows "msg_at buf h \<Longrightarrow> inv st \<Longrightarrow>
    case dump_msgs fuel rth pid filt h len st of WReturn rc s \<Rightarrow> inv s | WDone l s \<Rightarrow> inv s | WEnd l s \<Rightarrow> inv s"
proof (induction fuel arbitrary: h len st)
  case (Suc fuel)
  note IH = Suc.IH [OF msg_at.further [OF Suc.prems(1)]]
  show ?case using filter_keeps [OF assms [OF Suc.prems(1)] Suc.prems(2), of pid] Suc.prems(2) IH
    by (auto simp: Let_def split: prod.split)
qed simp

text \<open>Whatever arrives, in whatever order: interruptions, foreign messages, truncated datagrams.\<close>

lemma dump_keeps:
  assumes "\<And>pid name_ok trunc buf n. RecvMsg pid name_ok trunc buf \<in> set evs \<Longrightarrow> msg_at buf n \<Longrightarrow> good n"
  shows "inv st \<Longrightarrow> case rtnl_dump_filter rth filt evs st of Returned rc s \<Rightarrow> inv s | Exited c \<Rightarrow> c = 1 | Waiting s \<Rightarrow> inv s"
  using assms unfolding rtnl_dump_filter_def
proof (induction evs arbitrary: st)
  case (Cons ev evs)
  show ?case
  proof (cases ev)
    case (RecvMsg pid name_ok trunc buf)
    have g: "good n" if "msg_at buf n" for n by (rule Cons.prems(2) [of pid name_ok trunc, OF _ that]) (simp add: RecvMsg)
    have IH: "inv s \<Longrightarrow> case rtnl_dump_filter_l rth [filt] evs s of Returned rc s \<Rightarrow> inv s | Exited c \<Rightarrow> c = 1 | Waiting s \<Rightarrow> inv s" for s
      by (rule Cons.IH) (assumption, meson Cons.prems(2) list.set_intros(2))
    show ?thesis
      using RecvMsg IH Cons.prems(1) msgs_keep [where buf = buf and fuel = "length buf" and rth = rth and pid = pid and len = "int (length buf)", OF g msg_at.first Cons.prems(1)]
      by (cases "dump_msgs (length buf) rth pid filt buf (int (length buf)) st") simp_all
  next
    case (RecvError e)
    have "\<And>pid name_ok trunc buf n. RecvMsg pid name_ok trunc buf \<in> set evs \<Longrightarrow> msg_at buf n \<Longrightarrow> good n"
      by (meson Cons.prems(2) list.set_intros(2))
    then show ?thesis using Cons.IH [OF Cons.prems(1)] Cons.prems(1) RecvError by simp
  qed
qed simp

end

section \<open>A request is answered by its own acknowledgement\<close>

lemma talk_msgs_skip:
  assumes "list_all (\<lambda>m. wf_nlmsg m \<and> \<not> (pid = peer \<and> nlmsg_pid m = local_pid \<and> nlmsg_seq m = seq)) ms"
    "length (concat ms) + length r \<le> fuel" "k = int (length (concat ms @ r))"
  shows "talk_msgs fuel peer local_pid seq want trunc pid (concat ms @ r) k st =
    talk_msgs (fuel - length ms) peer local_pid seq want trunc pid r (int (length r)) st"
  using assms
proof (induction ms arbitrary: fuel k)
  case (Cons m ms)
  have m: "wf_nlmsg m" "16 \<le> length m" using Cons.prems(1) by (simp_all add: wf_nlmsg_def)
  then obtain f where f: "fuel = Suc f" using Cons.prems(2) by (cases fuel) auto
  have "talk_msgs fuel peer local_pid seq want trunc pid (concat (m # ms) @ r) k st =
      talk_msgs f peer local_pid seq want trunc pid (concat ms @ r) (k - int (length m)) st"
    unfolding f using wf_header(1-6) [OF m(1), of "concat ms @ r"] wf_header(7) [OF m(1)] m(2) Cons.prems(1,3)
    by (auto simp: Let_def)
  then show ?case using Cons.IH [of f "k - int (length m)"] Cons.prems f m(2) by simp
qed simp

text \<open>The acknowledgement behind messages of other conversations decides.\<close>

lemma talk_recv_ack:
  assumes "list_all (\<lambda>m. wf_nlmsg m \<and> nlmsg_seq m \<noteq> seq) ms"
    "wf_nlmsg reply" "36 \<le> length reply" "nlmsg_type reply = NLMSG_ERROR" "nlmsg_pid reply = local_pid" "nlmsg_seq reply = seq"
  shows "talk_recv peer local_pid seq False (RecvMsg peer True trunc (concat ms @ reply @ tail) # evs) st =
    (if nlmsgerr_error reply = 0 then Returned 0 st else Returned (-1) (st\<lparr>tk_errno := - nlmsgerr_error reply\<rparr>))"
proof -
  let ?buf = "concat ms @ reply @ tail"
  let ?t = "\<lambda>f h k. talk_msgs f peer local_pid seq False trunc peer h k st"
  have sk: "list_all (\<lambda>m. wf_nlmsg m \<and> \<not> (peer = peer \<and> nlmsg_pid m = local_pid \<and> nlmsg_seq m = seq)) ms"
    using assms(1) by (auto simp: list_all_iff)
  have "length ms \<le> length (concat ms)" using assms(1) by (induction ms) (auto simp: wf_nlmsg_def)
  then obtain f where f: "length ?buf - length ms = Suc f"
    using assms(3) by (cases "length ?buf - length ms") auto
  have "?t (length ?buf) ?buf (int (length ?buf)) = ?t (Suc f) (reply @ tail) (int (length (reply @ tail)))"
    using talk_msgs_skip [OF sk, of "reply @ tail" "length ?buf" "int (length ?buf)" False trunc st]
    unfolding f by simp
  also have "\<dots> = Inl (if nlmsgerr_error reply = 0 then Returned 0 st
      else Returned (-1) (st\<lparr>tk_errno := - nlmsgerr_error reply\<rparr>))"
    using wf_header(1-6) [OF assms(2), of tail] wf_header(7) [OF assms(2)] assms(3-6)
    by (simp add: Let_def NLMSGERR_SIZE_def)
  finally show ?thesis using assms(3) by auto
qed

text \<open>What may arrive before the acknowledgement: interruptions, and datagrams of messages of other conversations.\<close>

definition talk_foreign :: "u32 \<Rightarrow> u32 \<Rightarrow> u32 \<Rightarrow> u32 \<Rightarrow> u8 list \<Rightarrow> bool" where
  "talk_foreign peer local_pid seq pid m \<longleftrightarrow> wf_nlmsg m \<and> \<not> (pid = peer \<and> nlmsg_pid m = local_pid \<and> nlmsg_seq m = seq)"

inductive talk_passes :: "u32 \<Rightarrow> u32 \<Rightarrow> u32 \<Rightarrow> recv_event list \<Rightarrow> bool" for peer local_pid seq where
  nothing: "talk_passes peer local_pid seq []"
| interrupted: "e = EINTR \<or> e = EAGAIN \<Longrightarrow> talk_passes peer local_pid seq evs \<Longrightarrow> talk_passes peer local_pid seq (RecvError e # evs)"
| datagram: "ms \<noteq> [] \<Longrightarrow> list_all (talk_foreign peer local_pid seq pid) ms \<Longrightarrow> talk_passes peer local_pid seq evs \<Longrightarrow>
    talk_passes peer local_pid seq (RecvMsg pid True trunc (concat ms) # evs)"

lemma talk_recv_passes:
  "talk_passes peer local_pid seq pre \<Longrightarrow> talk_recv peer local_pid seq want (pre @ evs) st = talk_recv peer local_pid seq want evs st"
proof (induction rule: talk_passes.induct)
  case (datagram ms pid pre trunc)
  have ne: "concat ms \<noteq> []" using datagram.hyps(1,2) by (cases ms) (auto simp: talk_foreign_def wf_nlmsg_def)
  have sk: "list_all (\<lambda>m. wf_nlmsg m \<and> \<not> (pid = peer \<and> nlmsg_pid m = local_pid \<and> nlmsg_seq m = seq)) ms"
    using datagram.hyps(2) by (auto simp: talk_foreign_def list_all_iff)
  have nil: "talk_msgs f peer local_pid seq want trunc pid [] 0 st = Inr 0" for f by (cases f) simp_all
  have "talk_msgs (length (concat ms)) peer local_pid seq want trunc pid (concat ms) (int (length (concat ms))) st = Inr 0"
    using talk_msgs_skip [OF sk, of "[]" "length (concat ms)" "int (length (concat ms))" want trunc st] nil by simp
  then show ?case using ne datagram.IH by auto
qed auto

lemma talk_request_fields:
  fixes n :: "u8 list" and rtnl :: rtnl_handle
  assumes "16 \<le> unat (nlmsg_len n)" "unat (nlmsg_len n) \<le> length n"
  defines "msg \<equiv> \<lambda>want. take (unat (nlmsg_len n)) (talk_request rtnl n want)"
  shows "nlmsg_seq (msg want) = rth_seq rtnl + 1" "nlmsg_type (msg want) = nlmsg_type n" "length (msg want) = unat (nlmsg_len n)"
    "drop 16 (msg want) = drop 16 (take (unat (nlmsg_len n)) n)"
    "\<not> want \<Longrightarrow> nlmsg_flags (msg want) = nlmsg_flags n OR NLM_F_ACK"
  using assms(1,2) by (auto simp: msg_def talk_request_def nlmsg_seq_def nlmsg_type_def nlmsg_flags_def poke_def peek32_def peek16_def
      Let_def min_def drop_take)

text \<open>
  C16: \<open>rtnl_talk\<close> without an answer buffer sends the request with the next sequence number and a flag that
  asks for an acknowledgement, and otherwise as it is. Interruptions, any number or none, and messages of other conversations are
  passed over; the acknowledgement that carries this sequence number decides: error code zero gives
  the return value 0, any other code gives -1 with that code as \<open>errno\<close>. The socket keeps the sequence number.
\<close>

theorem talk_returns_kernel_verdict:
  assumes "0 \<le> sent" "16 \<le> unat (nlmsg_len n)" "unat (nlmsg_len n) \<le> length n"
    "talk_passes peer (rth_local_pid rtnl) (rth_seq rtnl + 1) pre"
    "list_all (\<lambda>m. wf_nlmsg m \<and> nlmsg_seq m \<noteq> rth_seq rtnl + 1) ms"
    "wf_nlmsg reply" "36 \<le> length reply" "nlmsg_type reply = NLMSG_ERROR"
    "nlmsg_pid reply = rth_local_pid rtnl" "nlmsg_seq reply = rth_seq rtnl + 1"
  shows "\<exists>msg. rtnl_talk rtnl n peer False sent (pre @ RecvMsg peer True trunc (concat ms @ reply @ tail) # evs) =
      (msg,
       if nlmsgerr_error reply = 0 then Returned 0 \<lparr>tk_answer = None, tk_errno = 0\<rparr>
       else Returned (-1) \<lparr>tk_answer = None, tk_errno = - nlmsgerr_error reply\<rparr>,
       rtnl\<lparr>rth_seq := rth_seq rtnl + 1\<rparr>) \<and>
    length msg = unat (nlmsg_len n) \<and> nlmsg_seq msg = rth_seq rtnl + 1 \<and> nlmsg_type msg = nlmsg_type n \<and>
    nlmsg_flags msg = nlmsg_flags n OR NLM_F_ACK \<and> drop 16 msg = drop 16 (take (unat (nlmsg_len n)) n)"
  using talk_request_fields [OF assms(2,3), where rtnl = rtnl and want = False] talk_recv_passes [OF assms(4)]
    talk_recv_ack [OF assms(5-10), of peer trunc tail evs "\<lparr>tk_answer = None, tk_errno = 0\<rparr>"] assms(1)
  by (simp add: rtnl_talk_def Let_def)

definition demo_request :: "u8 list" where "demo_request = make_nlmsghdr 36 36 1 0 0 @ replicate 20 0"

theorem talk_returns_kernel_verdict_witness:
  "fst (snd (rtnl_talk demo_handle demo_request 0 False 36
     [RecvError EAGAIN, RecvError EINTR, RecvMsg 0 True False (make_nlmsghdr 16 16 0 9 77),
      RecvMsg 0 True False (make_nlmsghdr 36 2 0 10 77 @ le_bytes 4 (- 22 :: u32) @ replicate 16 0)])) =
   Returned (-1) \<lparr>tk_answer = None, tk_errno = 22\<rparr> \<and>
   fst (snd (rtnl_talk demo_handle demo_request 0 False 36
     [RecvMsg 0 True False (make_nlmsghdr 36 2 0 10 77 @ le_bytes 4 (0 :: u32) @ replicate 16 0)])) =
   Returned 0 \<lparr>tk_answer = None, tk_errno = 0\<rparr>"
proof -
  let ?r = "\<lambda>e. make_nlmsghdr 36 2 0 10 77 @ le_bytes 4 (e :: u32) @ replicate 16 0" and ?x = "make_nlmsghdr 16 16 0 9 77"
  have e: "nlmsgerr_error (?r (- 22)) = - 22" "nlmsgerr_error (?r 0) = 0"
    by (simp_all add: nlmsgerr_error_def peek32_def make_nlmsghdr_def)
  have r: "wf_nlmsg (?r w)" "36 \<le> length (?r w)" "nlmsg_type (?r w) = NLMSG_ERROR" "nlmsg_pid (?r w) = rth_local_pid demo_handle"
    "nlmsg_seq (?r w) = rth_seq demo_handle + 1" for w
    by (simp_all add: wf_nlmsg_def header_fields NLMSG_ERROR_def demo_handle_def)
  have n: "16 \<le> unat (nlmsg_len demo_request)" "unat (nlmsg_len demo_request) \<le> length demo_request"
    by (simp_all add: demo_request_def header_fields)
  have "talk_foreign 0 (rth_local_pid demo_handle) (rth_seq demo_handle + 1) 0 ?x"
    by (simp add: talk_foreign_def wf_nlmsg_def header_fields_plain header_fields(5) demo_handle_def)
  then have pre: "talk_passes 0 (rth_local_pid demo_handle) (rth_seq demo_handle + 1)
      [RecvError EAGAIN, RecvError EINTR, RecvMsg 0 True False (concat [?x])]" by (intro talk_passes.intros) simp_all
  have none: "list_all (\<lambda>m. wf_nlmsg m \<and> nlmsg_seq m \<noteq> rth_seq demo_handle + 1) []" by simp
  have s: "(0 :: int) \<le> 36" by simp
  show ?thesis
    using talk_returns_kernel_verdict [OF s n pre none r [where w = "- 22"], where trunc = False and tail = "[]" and evs = "[]"]
      talk_returns_kernel_verdict [OF s n talk_passes.nothing none r [where w = 0], where peer = 0 and trunc = False and tail = "[]" and evs = "[]"] e by auto
qed

end
