(* ===== verification/Netlink_Hdr.thy ===== *)
theory Netlink_Hdr
  imports Netlink_Sock
begin

unbundle bit_operations_syntax

text \<open>
  Stores into the fixed part of a message and behind its end keep its attributes, and sending cuts
  the buffer off at the length the header gives. These are the steps between building a message and
  what the kernel receives.
\<close>

lemma peek_poke_other:
  "off + 4 \<le> at \<or> at + length bs \<le> off \<Longrightarrow> at + length bs \<le> length n \<Longrightarrow> peek32 off (poke at bs n) = peek32 off n"
  "off + 2 \<le> at \<or> at + length bs \<le> off \<Longrightarrow> at + length bs \<le> length n \<Longrightarrow> peek16 off (poke at bs n) = peek16 off n"
  by (auto simp: peek32_def peek16_def poke_def drop_take)

lemma peek_poke_same:
  "off + 4 \<le> length n \<Longrightarrow> peek32 off (poke off (le_bytes 4 (w :: u32)) n) = w"
  "off + 2 \<le> length n \<Longrightarrow> peek16 off (poke off (le_bytes 2 (v :: u16)) n) = v"
  by (simp_all add: peek32_def peek16_def poke_def)

lemma length_poke: "off + length bs \<le> length n \<Longrightarrow> length (poke off bs n) = length n"
  by (simp add: poke_def)

text \<open>The bytes between the length and the attributes determine the fields there.\<close>

lemma peek_same_part:
  assumes "take k (drop 4 n') = take k (drop 4 n)" "4 \<le> off"
  shows "off + 4 \<le> k + 4 \<Longrightarrow> peek32 off n' = peek32 off n" "off + 2 \<le> k + 4 \<Longrightarrow> peek16 off n' = peek16 off n"
proof -
  have *: "take m (drop off x) = take m (drop (off - 4) (take k (drop 4 x)))" if "off + m \<le> k + 4" for m and x :: "u8 list"
    using that assms(2) by (simp add: drop_take)
  show "off + 4 \<le> k + 4 \<Longrightarrow> peek32 off n' = peek32 off n" using *[of 4 n] *[of 4 n'] assms(1) by (simp add: peek32_def)
  show "off + 2 \<le> k + 4 \<Longrightarrow> peek16 off n' = peek16 off n" using *[of 2 n] *[of 2 n'] assms(1) by (simp add: peek16_def)
qed

lemma poke_hdr_msg:
  assumes "nl_msg hdr as n" "4 \<le> off" "off + length bs \<le> hdr"
  shows "nl_msg hdr as (poke off bs n)"
proof -
  have m: "hdr + length (encs as) \<le> length n" "take (length (encs as)) (drop hdr n) = encs as"
    using assms(1) by (simp_all add: nl_msg_def)
  have "nlmsg_len (poke off bs n) = nlmsg_len n"
    using peek_poke_other(1) [of 0 off bs n] assms(2,3) m(1) by (simp add: nlmsg_len_def)
  moreover have "drop hdr (poke off bs n) = drop hdr n" using assms(3) m(1) by (simp add: poke_def)
  moreover have "length (poke off bs n) = length n" using assms(3) m(1) by (intro length_poke) linarith
  ultimately show ?thesis using assms(1) by (simp add: nl_msg_def)
qed

lemma sent_msg:
  assumes "nl_msg hdr as n"
  shows "nl_msg hdr as (take (unat (nlmsg_len n)) n)" "length (take (unat (nlmsg_len n)) n) = hdr + length (encs as)"
    "off + 4 \<le> hdr \<Longrightarrow> peek32 off (take (unat (nlmsg_len n)) n) = peek32 off n"
    "off + 2 \<le> hdr \<Longrightarrow> peek16 off (take (unat (nlmsg_len n)) n) = peek16 off n"
proof -
  have m: "unat (nlmsg_len n) = hdr + length (encs as)" "hdr + length (encs as) \<le> length n" "16 \<le> hdr"
    "take (length (encs as)) (drop hdr n) = encs as"
    using assms by (simp_all add: nl_msg_def)
  show l: "length (take (unat (nlmsg_len n)) n) = hdr + length (encs as)" using m by simp
  show p: "off + 4 \<le> hdr \<Longrightarrow> peek32 off (take (unat (nlmsg_len n)) n) = peek32 off n"
    "off + 2 \<le> hdr \<Longrightarrow> peek16 off (take (unat (nlmsg_len n)) n) = peek16 off n" for off
    using m(1) by (simp_all add: peek32_def peek16_def drop_take)
  have "nlmsg_len (take (unat (nlmsg_len n)) n) = nlmsg_len n" using p(1) [of 0] m(3) by (simp add: nlmsg_len_def)
  moreover have "take (length (encs as)) (drop hdr (take (unat (nlmsg_len n)) n)) = encs as"
    using m by (simp add: drop_take)
  ultimately show "nl_msg hdr as (take (unat (nlmsg_len n)) n)"
    using assms l by (simp add: nl_msg_def)
qed

text \<open>A string without end mark, written with one, reads back.\<close>

lemma char_roundtrip: "CHR 0x00 \<notin> set t \<Longrightarrow>
  map (\<lambda>b. char_of (unat b)) (takeWhile (\<lambda>b. b \<noteq> 0) (bytes_of_string t @ 0 # r)) = (t :: string)"
proof (induction t)
  case (Cons c t)
  have u: "unat (of_nat (of_char c) :: u8) = of_char c" by (rule unat_of_nat_eq) simp
  moreover have "(of_nat (of_char c) :: u8) \<noteq> 0"
  proof
    assume "(of_nat (of_char c) :: u8) = 0"
    then have "(of_char c :: nat) = 0" using u by simp
    then have "c = CHR 0x00" unfolding char_eq_nat by simp
    then show False using Cons.prems by simp
  qed
  ultimately show ?case using Cons by (simp add: bytes_of_string_def)
qed (simp add: bytes_of_string_def)

text \<open>Stores behind the end of a message do not change it.\<close>

lemma poke_tail_msg:
  assumes "nl_msg hdr as n" "NLMSG_TAIL n + length bs \<le> length n"
  shows "nl_msg hdr as (poke (NLMSG_TAIL n) bs n)"
proof -
  let ?t = "hdr + length (encs as)"
  have t: "NLMSG_TAIL n = ?t" by (rule NLMSG_TAIL_msg [OF assms(1)])
  have m: "16 \<le> hdr" "?t \<le> length n" "take (length (encs as)) (drop hdr n) = encs as"
    using assms(1) by (simp_all add: nl_msg_def)
  have "take 4 (poke ?t bs n) = take 4 n" using m(1,2) by (simp add: poke_def)
  then have "nlmsg_len (poke ?t bs n) = nlmsg_len n" by (simp add: nlmsg_len_def peek32_def)
  moreover have "take (length (encs as)) (drop hdr (poke ?t bs n)) = encs as"
    using m by (simp add: poke_def drop_take)
  moreover have "length (poke ?t bs n) = length n" using assms(2) t m(2) by (simp add: poke_def)
  ultimately show ?thesis using assms(1) unfolding t nl_msg_def by simp
qed

text \<open>A compatibility nest: a structure, then the nested attributes, all in one attribute.\<close>

lemma poke_commute:
  assumes "a + length xs \<le> b" "b + length ys \<le> length n"
  shows "poke b ys (poke a xs n) = poke a xs (poke b ys n)"
proof -
  let ?a = "a + length xs" and ?b = "b + length ys"
  have "n = take a n @ take (length xs) (drop a n) @ take (b - ?a) (drop ?a n) @ take (length ys) (drop b n) @ drop ?b n"
    using assms by (metis add_diff_inverse_nat append_take_drop_id append.assoc linorder_not_less take_add)
  moreover have "length (take a n) = a" "length (take (length xs) (drop a n)) = length xs"
    "length (take (b - ?a) (drop ?a n)) = b - ?a" "length (take (length ys) (drop b n)) = length ys"
    using assms by simp_all
  ultimately obtain A X B Y C where n: "n = A @ X @ B @ Y @ C" "length A = a" "length X = length xs"
    "length B = b - ?a" "length Y = length ys" by blast
  have xs: "poke a xs (A @ X @ Z) = A @ xs @ Z" for Z by (rule poke_at) (use n in simp_all)
  have ys: "poke b ys ((A @ X' @ B) @ Y @ C) = (A @ X' @ B) @ ys @ C" if "length X' = length xs" for X'
    by (rule poke_at) (use n that assms in simp_all)
  show ?thesis using xs ys [of X] ys [of xs] n(1,3) by simp
qed

lemma nest_compat_end_msg:
  assumes "nl_msg hdr (as @ [(t, d, []), (t, [], [])] @ bs) n" "length d + length (encs bs) + 8 < 2 ^ 16"
  shows "nl_msg hdr (as @ [(t, d @ encs [(t, encs bs, [])], [])]) (snd (addattr_nest_compat_end n (hdr + length (encs as))))"
proof -
  let ?at = "hdr + length (encs as)" and ?nest = "hdr + length (encs (as @ [(t, d, [])]))"
  let ?w1 = "le_bytes 2 (of_nat (4 + length d + length (encs [(t, encs bs, [])])) :: u16)"
  let ?w2 = "le_bytes 2 (of_nat (4 + length ([] :: u8 list) + length (encs bs)) :: u16)"
  have m: "nl_msg hdr ((as @ [(t, d, [])]) @ [(t, [], [])] @ bs) n" using assms(1) by simp
  have inner: "nl_msg hdr (as @ [(t, d, [])] @ [(t, encs bs, [])]) (poke ?nest ?w2 n)"
    using widen_msg(2) [OF m] assms(2) by simp
  have outer: "nl_msg hdr (as @ [(t, d @ encs [(t, encs bs, [])], [])]) (poke ?at ?w1 (poke ?nest ?w2 n))"
    by (rule widen_msg(2) [OF inner]) (use assms(2) in simp)
  have ok: "attr_ok (t, d, [])" using assms(1) by (simp add: nl_msg_def)
  have nest: "?nest = ?at + 4 + length d" by simp
  have fits: "?nest + 4 \<le> length n" using assms(1) by (simp add: nl_msg_def)
  have tail: "NLMSG_TAIL n = ?nest + 4 + length (encs bs)" using widen_msg(1) [OF m] assms(2) by simp
  have "take (length (encs (as @ [(t, d, []), (t, [], [])] @ bs))) (drop hdr n) = encs (as @ [(t, d, []), (t, [], [])] @ bs)"
    using assms(1) by (simp add: nl_msg_def del: enc.simps)
  then obtain r where "drop hdr n = (encs as @ enc (t, d, [])) @ r"
    by (metis append_take_drop_id append.assoc encs_simps(2,3) append_Cons)
  then have "drop ?at n = enc (t, d, []) @ r" by (metis add.commute append.assoc append_eq_conv_conj drop_drop)
  then have "unat (NLMSG_ALIGN (ucast (peek16 ?at n))) = length (enc (t, d, []))"
    using enc_head(5) [OF ok, of r] by (simp add: rta_step_def RTA_ALIGN_def NLMSG_ALIGN_def rta_len_def peek16_def del: enc.simps)
  then have "unat (NLMSG_ALIGN (ucast (peek16 ?at n))) = 4 + length d" by simp
  then have at: "?at + unat (NLMSG_ALIGN (ucast (peek16 ?at n))) = ?nest" using nest by linarith
  have len: "of_int (int (NLMSG_TAIL n) - int ?at) = (of_nat (4 + length d + length (encs [(t, encs bs, [])])) :: u16)"
    unfolding tail nest by simp
  have "nlmsg_len (poke ?at ?w1 n) = nlmsg_len n"
    using peek_poke_other(1) [of 0 ?at ?w1 n] fits assms(1) by (simp add: nlmsg_len_def nl_msg_def)
  then have "NLMSG_TAIL (poke ?at ?w1 n) = NLMSG_TAIL n" by (simp only: NLMSG_TAIL_def)
  then have len2: "of_int (int (NLMSG_TAIL (poke ?at ?w1 n)) - int ?nest) = (of_nat (4 + length ([] :: u8 list) + length (encs bs)) :: u16)"
    unfolding tail by simp
  have "snd (addattr_nest_compat_end n ?at) = poke ?nest ?w2 (poke ?at ?w1 n)"
    unfolding addattr_nest_compat_end_def addattr_nest_end_def Let_def snd_conv at len len2 ..
  also have "\<dots> = poke ?at ?w1 (poke ?nest ?w2 n)" by (rule poke_commute) (use fits in simp_all)
  finally show ?thesis using outer by simp
qed

end
