(* ===== verification/Libgenl.thy ===== *)
theory Libgenl
  imports Netlink_Hdr
begin

unbundle bit_operations_syntax

text \<open>
  Generic netlink (\<^verbatim>\<open>libgenl.c\<close>): asking the controller for the number of a family. The answer is copied
  over the request, 1044 bytes; a longer one would be copied over what follows, \<open>None\<close> here.
\<close>

definition GENL_ID_CTRL :: u16 where "GENL_ID_CTRL = 16"
definition GENL_HDRLEN :: nat where "GENL_HDRLEN = 4"
definition CTRL_CMD_NEWFAMILY :: u8 where "CTRL_CMD_NEWFAMILY = 1"
definition CTRL_CMD_GETFAMILY :: u8 where "CTRL_CMD_GETFAMILY = 3"
definition CTRL_ATTR_FAMILY_ID :: u16 where "CTRL_ATTR_FAMILY_ID = 1"
definition CTRL_ATTR_FAMILY_NAME :: u16 where "CTRL_ATTR_FAMILY_NAME = 2"
definition CTRL_ATTR_MAX :: nat where "CTRL_ATTR_MAX = 7"

definition genl_cmd :: "u8 list \<Rightarrow> u8" where "genl_cmd n = of_le_bytes (take 1 (drop 16 n))"

definition genl_parse_getfamily :: "u8 list \<Rightarrow> int" where
  "genl_parse_getfamily nlh =
     (if nlmsg_type nlh \<noteq> GENL_ID_CTRL then -1
      else let len = sint (nlmsg_len nlh) - 20
           in if len < 0 then -1
              else if genl_cmd nlh \<noteq> CTRL_CMD_NEWFAMILY then -1
              else case fst (parse_rtattr CTRL_ATTR_MAX (drop 20 nlh) len) ! unat CTRL_ATTR_FAMILY_ID of
                     None \<Rightarrow> -1
                   | Some rta \<Rightarrow> uint (rta_getattr_u16 rta))"

text \<open>\<^verbatim>\<open>GENL_REQUEST\<close>: the headers of a request and the zeroed buffer.\<close>

definition genl_request :: "nat \<Rightarrow> u16 \<Rightarrow> u8 \<Rightarrow> u8 \<Rightarrow> u16 \<Rightarrow> u8 list" where
  "genl_request bufsiz family ver cmd flags =
     make_nlmsghdr 20 family flags 0 0 @ [cmd, ver, 0, 0] @ replicate bufsiz 0"

definition family_request :: "string \<Rightarrow> u8 list" where
  "family_request family =
     snd (addattr_l (genl_request 1024 GENL_ID_CTRL 0 CTRL_CMD_GETFAMILY NLM_F_REQUEST) 1044 CTRL_ATTR_FAMILY_NAME
            (bytes_of_string family @ [0]))"

definition genl_resolve_family ::
  "rtnl_handle \<Rightarrow> string \<Rightarrow> int \<Rightarrow> recv_event list \<Rightarrow> unit nl_outcome option \<times> rtnl_handle" where
  "genl_resolve_family grth family sent evs =
     (let req = family_request family; (msg, out, grth1) = rtnl_talk grth req 0 True sent evs
      in (case out of
            Returned rc st \<Rightarrow>
              if rc < 0 then Some (Returned (-2) ())
              else (case tk_answer st of
                      Some a \<Rightarrow> if length a > length req then None else Some (Returned (genl_parse_getfamily (poke 0 a req)) ())
                    | None \<Rightarrow> Some (Returned (genl_parse_getfamily req) ()))
          | Exited c \<Rightarrow> Some (Exited c)
          | Waiting st \<Rightarrow> Some (Waiting ()),
          grth1))"

section \<open>The number of a family\<close>

lemma talk_recv_answer:
  assumes "list_all (\<lambda>m. wf_nlmsg m \<and> nlmsg_seq m \<noteq> seq) ms"
    "wf_nlmsg reply" "nlmsg_type reply \<noteq> NLMSG_ERROR" "nlmsg_pid reply = local_pid" "nlmsg_seq reply = seq"
  shows "talk_recv peer local_pid seq True (RecvMsg peer True trunc (concat ms @ reply @ tail) # evs) st =
    Returned 0 (st\<lparr>tk_answer := Some reply\<rparr>)"
proof -
  let ?buf = "concat ms @ reply @ tail"
  let ?t = "\<lambda>f h k. talk_msgs f peer local_pid seq True trunc peer h k st"
  have len: "16 \<le> length reply" using assms(2) by (simp add: wf_nlmsg_def)
  have sk: "list_all (\<lambda>m. wf_nlmsg m \<and> \<not> (peer = peer \<and> nlmsg_pid m = local_pid \<and> nlmsg_seq m = seq)) ms"
    using assms(1) by (auto simp: list_all_iff)
  have "length ms \<le> length (concat ms)" using assms(1) by (induction ms) (auto simp: wf_nlmsg_def)
  then obtain f where f: "length ?buf - length ms = Suc f" using len by (cases "length ?buf - length ms") auto
  have "?t (length ?buf) ?buf (int (length ?buf)) = ?t (Suc f) (reply @ tail) (int (length (reply @ tail)))"
    using talk_msgs_skip [OF sk, of "reply @ tail" "length ?buf" "int (length ?buf)" True trunc st] unfolding f by simp
  also have "\<dots> = Inl (Returned 0 (st\<lparr>tk_answer := Some reply\<rparr>))"
    using wf_header(1-6) [OF assms(2), of tail] wf_header(7) [OF assms(2)] assms(3-5) len by (simp add: Let_def)
  finally show ?thesis using len by auto
qed

lemma genl_request_msg:
  "nl_msg 20 [] (genl_request 1024 family ver cmd flags)" "length (genl_request 1024 family ver cmd flags) = 1044"
  by (simp_all add: nl_msg_def genl_request_def header_fields del: replicate.simps)

lemma family_request_msg:
  assumes "length family < 1000"
  shows "\<exists>p. nl_msg 20 [(CTRL_ATTR_FAMILY_NAME, bytes_of_string family @ [0], p)] (family_request family) \<and>
    length (family_request family) = 1044"
proof -
  let ?d = "bytes_of_string family @ [0]"
  have "length ?d = length family + 1" by (simp add: bytes_of_string_def)
  moreover have "align4 (5 + length family) \<le> 1024" using assms by (simp add: align4_def)
  ultimately show ?thesis
    using addattr_l_msg(2) [OF genl_request_msg(1), of ?d 1044 GENL_ID_CTRL 0 CTRL_CMD_GETFAMILY NLM_F_REQUEST CTRL_ATTR_FAMILY_NAME]
      assms genl_request_msg(2) by (auto simp: family_request_def)
qed

text \<open>A message of the controller about a family.\<close>

definition family_msg :: "u8 list \<Rightarrow> u16 \<Rightarrow> bool" where
  "family_msg n fid \<longleftrightarrow> wf_nlmsg n \<and> 20 \<le> length n \<and> nlmsg_type n = GENL_ID_CTRL \<and> genl_cmd n = CTRL_CMD_NEWFAMILY \<and>
     (\<exists>as. drop 20 n = encs as \<and> list_all attr_ok as \<and> first_attr (unat CTRL_ATTR_FAMILY_ID) as = Some (le_bytes 2 fid))"

lemma parse_family_msg:
  assumes "family_msg n fid" shows "genl_parse_getfamily (n @ r) = uint fid"
proof -
  have wf: "wf_nlmsg n" "20 \<le> length n" and t: "nlmsg_type n = GENL_ID_CTRL" "genl_cmd n = CTRL_CMD_NEWFAMILY"
    using assms by (simp_all add: family_msg_def)
  obtain as where as: "drop 20 n = encs as" "list_all attr_ok as"
    "first_attr (unat CTRL_ATTR_FAMILY_ID) as = Some (le_bytes 2 fid)"
    using assms by (auto simp: family_msg_def)
  have hd: "nlmsg_type (n @ r) = GENL_ID_CTRL" "sint (nlmsg_len (n @ r)) = int (length n)"
    using wf_header(1,2) [OF wf(1), of r] wf_header(7) [OF wf(1)] t(1) by simp_all
  have cmd: "genl_cmd (n @ r) = CTRL_CMD_NEWFAMILY" using t(2) wf(2) by (simp add: genl_cmd_def)
  have len: "int (length n) - 20 = int (length (encs as))" using wf(2) by (simp flip: as(1))
  have rta: "drop 20 (n @ r) = encs as @ r" using as(1) wf(2) by simp
  obtain rta rest where "fst (parse_rtattr CTRL_ATTR_MAX (encs as @ r) (int (length (encs as)))) ! unat CTRL_ATTR_FAMILY_ID = Some rta"
    "RTA_DATA rta = le_bytes 2 fid @ rest"
    using parse_rtattr_entry [OF as(2), of "unat CTRL_ATTR_FAMILY_ID" CTRL_ATTR_MAX r] as(3)
    by (auto simp: CTRL_ATTR_MAX_def CTRL_ATTR_FAMILY_ID_def)
  then show ?thesis
    using wf(2) unfolding genl_parse_getfamily_def Let_def hd cmd rta len by (simp add: rta_getattr_u16_def)
qed

text \<open>
  C30: Resolving a family asks the controller by name, and whatever other messages are in the answer's
  datagram, the number in the controller's message about the family is returned. The name in the request is
  found by the parser as it was given.
\<close>

theorem family_resolved:
  assumes "length family < 1000" "CHR 0x00 \<notin> set family" "0 \<le> sent"
    and "list_all (\<lambda>m. wf_nlmsg m \<and> nlmsg_seq m \<noteq> rth_seq grth + 1) ms"
    and "family_msg reply fid" "length reply \<le> 1044"
    and "nlmsg_pid reply = rth_local_pid grth" "nlmsg_seq reply = rth_seq grth + 1"
  shows "fst (genl_resolve_family grth family sent (RecvMsg 0 True trunc (concat ms @ reply @ tail) # evs)) =
      Some (Returned (uint fid) ()) \<and>
    (\<exists>rta. fst (parse_rtattr CTRL_ATTR_MAX (drop 20 (family_request family)) (uint (nlmsg_len (family_request family)) - 20))
        ! unat CTRL_ATTR_FAMILY_NAME = Some rta \<and> rta_getattr_str rta = family)"
proof
  have wf: "wf_nlmsg reply" "nlmsg_type reply \<noteq> NLMSG_ERROR"
    using assms(5) by (simp_all add: family_msg_def GENL_ID_CTRL_def NLMSG_ERROR_def)
  obtain p where req: "nl_msg 20 [(CTRL_ATTR_FAMILY_NAME, bytes_of_string family @ [0], p)] (family_request family)"
    "length (family_request family) = 1044"
    using family_request_msg [OF assms(1)] by blast
  have "poke 0 reply (family_request family) = reply @ drop (length reply) (family_request family)" by (simp add: poke_def)
  then show "fst (genl_resolve_family grth family sent (RecvMsg 0 True trunc (concat ms @ reply @ tail) # evs)) =
      Some (Returned (uint fid) ())"
    using talk_recv_answer [OF assms(4) wf assms(7,8), of 0 trunc tail evs] parse_family_msg [OF assms(5)] req(2) assms(3,6)
    by (simp add: genl_resolve_family_def rtnl_talk_def Let_def)
  have "first_attr (unat CTRL_ATTR_FAMILY_NAME) [(CTRL_ATTR_FAMILY_NAME, bytes_of_string family @ [0], p)] =
      Some (bytes_of_string family @ [0])"
    by (simp add: first_attr_def)
  then obtain rta rest where rta: "fst (parse_rtattr CTRL_ATTR_MAX (drop 20 (family_request family))
      (uint (nlmsg_len (family_request family)) - int 20)) ! unat CTRL_ATTR_FAMILY_NAME = Some rta"
    "RTA_DATA rta = (bytes_of_string family @ [0]) @ rest"
    using msg_attr [OF req(1), of "unat CTRL_ATTR_FAMILY_NAME" CTRL_ATTR_MAX]
    by (auto simp: CTRL_ATTR_FAMILY_NAME_def CTRL_ATTR_MAX_def)
  have hdr: "int 20 = 20" by simp
  have "rta_getattr_str rta = family" using char_roundtrip [OF assms(2), of rest] rta(2) by (simp add: rta_getattr_str_def)
  then show "\<exists>rta. fst (parse_rtattr CTRL_ATTR_MAX (drop 20 (family_request family)) (uint (nlmsg_len (family_request family)) - 20))
        ! unat CTRL_ATTR_FAMILY_NAME = Some rta \<and> rta_getattr_str rta = family"
    using rta(1) unfolding hdr by blast
qed

definition tcp_metrics_msg :: "u8 list" where
  "tcp_metrics_msg = make_nlmsghdr 28 16 0 10 77 @ [1, 1, 0, 0] @ enc (1, le_bytes 2 (27 :: u16), [0, 0])"

theorem family_resolved_witness:
  "fst (genl_resolve_family demo_handle ''tcp_metrics'' 36 [RecvMsg 0 True False tcp_metrics_msg]) = Some (Returned 27 ())"
proof -
  have len: "length tcp_metrics_msg = 28" by code_simp
  have h: "nlmsg_len tcp_metrics_msg = 28" "nlmsg_type tcp_metrics_msg = GENL_ID_CTRL" "nlmsg_pid tcp_metrics_msg = 77"
    "nlmsg_seq tcp_metrics_msg = 10"
    unfolding tcp_metrics_msg_def header_fields by (simp_all add: GENL_ID_CTRL_def)
  have "drop 20 tcp_metrics_msg = encs [(1, le_bytes 2 (27 :: u16), [0, 0])]" by code_simp
  moreover have "list_all attr_ok [(1, le_bytes 2 (27 :: u16), [0, 0])]" by (simp add: align4_def)
  moreover have "first_attr (unat CTRL_ATTR_FAMILY_ID) [(1, le_bytes 2 (27 :: u16), [0, 0])] = Some (le_bytes 2 (27 :: u16))"
    by (simp add: first_attr_def CTRL_ATTR_FAMILY_ID_def)
  moreover have "genl_cmd tcp_metrics_msg = CTRL_CMD_NEWFAMILY" by code_simp
  moreover have "wf_nlmsg tcp_metrics_msg" "20 \<le> length tcp_metrics_msg" using len h(1) by (simp_all add: wf_nlmsg_def)
  ultimately have "family_msg tcp_metrics_msg 27" unfolding family_msg_def using h(2) by blast
  from family_resolved [OF _ _ _ _ this, of "''tcp_metrics''" 36 demo_handle "[]" False "[]" "[]"] show ?thesis
    using len h(3,4) by (simp add: demo_handle_def)
qed

end
