(* ===== verification/Ematch.thy ===== *)
theory Ematch
  imports Rt_Names Netlink_Hdr
begin

unbundle bit_operations_syntax

text \<open>
  Extended matches of the tc command (\<^verbatim>\<open>tc/m_ematch.c\<close>): an expression, which the generated parser builds
  as linked nodes in memory, is flattened into one list, sent as nested attributes, and printed from
  them. Memory is a function from addresses to nodes. The dynamic linker and the file with the numbers
  of the match kinds are parameters. Walks along pointers take fuel: \<open>None\<close> means that it was not
  enough, that a null pointer was followed, or that the program used a name from a buffer without a
  terminating zero: \<^verbatim>\<open>strncpy\<close> copies at most one character less than the size of the buffer and leaves
  the last one uninitialised, so a name that fills the copied part has no end.
\<close>

section \<open>Nodes\<close>

text \<open>The arguments of a match are byte strings; the first is the kind. A group has no arguments.\<close>

record ematch =
  en_args :: "string list"
  en_index :: int
  en_inverted :: bool
  en_relation :: int
  en_child_ref :: int
  en_child :: "nat option"
  en_next :: "nat option"

type_synonym eheap = "nat \<Rightarrow> ematch"

definition TCF_EM_REL_AND :: int where "TCF_EM_REL_AND = 1"
definition TCF_EM_REL_OR :: int where "TCF_EM_REL_OR = 2"
definition TCF_EM_INVERT :: u16 where "TCF_EM_INVERT = 4"
definition TCF_EM_REL_MASK :: u16 where "TCF_EM_REL_MASK = 3"

section \<open>Flattening\<close>

text \<open>\<^verbatim>\<open>for (t = head; t->next; t = t->next);\<close>\<close>

fun last_node :: "nat \<Rightarrow> eheap \<Rightarrow> nat \<Rightarrow> nat option" where
  "last_node 0 h t = None"
| "last_node (Suc k) h t = (case en_next (h t) of None \<Rightarrow> Some t | Some u \<Rightarrow> last_node k h u)"

text \<open>The two loops at the end: number the nodes of the list, then store the numbers of children.\<close>

fun set_indices :: "nat \<Rightarrow> eheap \<Rightarrow> nat option \<Rightarrow> int \<Rightarrow> eheap option" where
  "set_indices k h None i = Some h"
| "set_indices 0 h (Some t) i = None"
| "set_indices (Suc k) h (Some t) i = set_indices k (h(t := (h t)\<lparr>en_index := i\<rparr>)) (en_next (h t)) (i + 1)"

fun set_child_refs :: "nat \<Rightarrow> eheap \<Rightarrow> nat option \<Rightarrow> eheap option" where
  "set_child_refs k h None = Some h"
| "set_child_refs 0 h (Some t) = None"
| "set_child_refs (Suc k) h (Some t) =
     set_child_refs k
       (case en_child (h t) of None \<Rightarrow> h | Some c \<Rightarrow> h(t := (h t)\<lparr>en_child_ref := en_index (h c)\<rparr>))
       (en_next (h t))"

text \<open>One pass of the endless loop, with the rest of the loop and what follows it.\<close>

fun flatten_tree :: "nat \<Rightarrow> eheap \<Rightarrow> nat \<Rightarrow> nat \<Rightarrow> (int \<times> eheap) option" where
  "flatten_tree 0 h head tree = None"
| "flatten_tree (Suc k) h head tree =
     (case (case en_child (h tree) of
              None \<Rightarrow> Some (0, h)
            | Some c \<Rightarrow>
                (case last_node k h head of
                   None \<Rightarrow> None
                 | Some t \<Rightarrow> flatten_tree k (h(t := (h t)\<lparr>en_next := Some c\<rparr>)) head c)) of
        None \<Rightarrow> None
      | Some (cnt, h1) \<Rightarrow>
          if en_relation (h1 tree) = 0
          then (case set_indices k h1 (Some head) 0 of
                  None \<Rightarrow> None
                | Some h2 \<Rightarrow> map_option (\<lambda>h3. (1 + cnt, h3)) (set_child_refs k h2 (Some head)))
          else (case en_next (h1 tree) of
                  None \<Rightarrow> None
                | Some u \<Rightarrow> map_option (\<lambda>(c', h2). (1 + cnt + c', h2)) (flatten_tree k h1 head u)))"

section \<open>Kinds\<close>

record ematch_util =
  eu_kind :: string
  eu_kind_num :: int
  eu_parse_eopt :: "u8 list \<Rightarrow> u8 list \<Rightarrow> string list \<Rightarrow> int \<times> u8 list"
  eu_print_eopt :: "u8 list \<Rightarrow> u8 list \<Rightarrow> int \<Rightarrow> int \<times> string"

record em_linker =
  em_dlopen :: "string option \<Rightarrow> nat option"
  em_dlsym :: "nat \<Rightarrow> string \<Rightarrow> ematch_util option"

record em_state =
  ematch_list :: "ematch_util list"
  em_body :: "nat option"

definition get_ematch_kind :: "em_linker \<Rightarrow> string \<Rightarrow> em_state \<Rightarrow> ematch_util option \<times> em_state" where
  "get_ematch_kind lk kind st =
     (case List.find (\<lambda>e. eu_kind e = kind) (ematch_list st) of
        Some e \<Rightarrow> (Some e, st)
      | None \<Rightarrow>
          let (dlh, body) =
                (case em_dlopen lk (Some (snprintf 256 (''em_'' @ kind @ ''.so''))) of
                   Some d \<Rightarrow> (Some d, em_body st)
                 | None \<Rightarrow> (case em_body st of
                              Some d \<Rightarrow> (Some d, Some d)
                            | None \<Rightarrow> (em_dlopen lk None, em_dlopen lk None)))
          in case Option.bind dlh (\<lambda>d. em_dlsym lk d (snprintf 256 (kind @ ''_ematch_util''))) of
               None \<Rightarrow> (None, st\<lparr>em_body := body\<rparr>)
             | Some e \<Rightarrow> (Some e, st\<lparr>em_body := body, ematch_list := e # ematch_list st\<rparr>))"

text \<open>
  The map from kinds to numbers, as the lines of its file or the error number of opening it. The
  result is the entry or a negative error: a line that cannot be read, or no entry.
\<close>

definition EINVAL :: int where "EINVAL = 22"
definition ENOENT :: int where "ENOENT = 2"

fun lookup_lines :: "(int \<times> string \<Rightarrow> bool) \<Rightarrow> string list \<Rightarrow> int + (int \<times> string)" where
  "lookup_lines found [] = Inl (- ENOENT)"
| "lookup_lines found (buf # fd) =
     (let p = dropWhile (\<lambda>c. c = CHR '' '' \<or> c = tab) buf
      in if p = [] \<or> hd p = CHR ''#'' \<or> hd p = newline then lookup_lines found fd
         else case scan_dec_entry p of
                None \<Rightarrow> Inl (- EINVAL)
              | Some e \<Rightarrow> if found e then Inr e else lookup_lines found fd)"

text \<open>\<^verbatim>\<open>strncpy(buf, name, n)\<close> into an uninitialised buffer, read as a string: it ends only when the name is shorter.\<close>

definition strncpy_str :: "nat \<Rightarrow> string \<Rightarrow> string option" where
  "strncpy_str n name = (if length name < n then Some name else None)"

definition lookup_map :: "int + string list \<Rightarrow> u16 \<Rightarrow> nat \<Rightarrow> int + string option" where
  "lookup_map file num len =
     (case file of
        Inl errno \<Rightarrow> Inl (- errno)
      | Inr fd \<Rightarrow> (case lookup_lines (\<lambda>(i, name). i = uint num) fd of
                     Inl err \<Rightarrow> Inl err
                   | Inr (i, name) \<Rightarrow> Inr (strncpy_str (len - 1) name)))"

definition lookup_map_id :: "int + string list \<Rightarrow> string \<Rightarrow> int + int" where
  "lookup_map_id file kind =
     (case file of
        Inl errno \<Rightarrow> Inl (- errno)
      | Inr fd \<Rightarrow> (case lookup_lines (\<lambda>(i, name). strcaseeq name kind) fd of
                     Inl err \<Rightarrow> Inl err
                   | Inr (i, name) \<Rightarrow> Inr i))"

definition get_ematch_kind_num ::
  "em_linker \<Rightarrow> int + string list \<Rightarrow> u16 \<Rightarrow> em_state \<Rightarrow> (ematch_util option \<times> em_state) option" where
  "get_ematch_kind_num lk file kind st =
     (case lookup_map file kind 32 of
        Inl err \<Rightarrow> Some (None, st)
      | Inr None \<Rightarrow> None
      | Inr (Some name) \<Rightarrow> Some (get_ematch_kind lk name st))"

section \<open>Building the message\<close>

definition MAX_MSG :: u32 where "MAX_MSG = 16384"

text \<open>\<^verbatim>\<open>struct tcf_ematch_hdr\<close>: match id, kind, flags and padding.\<close>

definition ematch_hdr :: "u16 \<Rightarrow> u16 \<Rightarrow> u8 list" where
  "ematch_hdr kind flags = le_bytes 2 (0 :: u16) @ le_bytes 2 kind @ le_bytes 2 flags @ le_bytes 2 (0 :: u16)"

definition hdr_kind :: "u8 list \<Rightarrow> u16" where "hdr_kind hdr = peek16 2 hdr"
definition hdr_flags :: "u8 list \<Rightarrow> u16" where "hdr_flags hdr = peek16 4 hdr"

definition node_flags :: "ematch \<Rightarrow> u16" where
  "node_flags t = (if en_inverted t then of_int (en_relation t) OR TCF_EM_INVERT else of_int (en_relation t))"

text \<open>The content of one attribute: a reference to the children of a group, or what the kind's module writes.\<close>

definition parse_node ::
  "em_linker \<Rightarrow> int + string list \<Rightarrow> ematch \<Rightarrow> u8 list \<Rightarrow> em_state \<Rightarrow> (int \<times> u8 list \<times> em_state) option" where
  "parse_node lk file t n st =
     (if en_child t \<noteq> None
      then let n1 = snd (addraw_l n MAX_MSG (ematch_hdr 0 (node_flags t)))
           in Some (0, snd (addraw_l n1 MAX_MSG (le_bytes 4 (of_int (en_child_ref t) :: u32))), st)
      else case en_args t of
             [] \<Rightarrow> Some (-1, n, st)
           | kind # args \<Rightarrow>
               (case strncpy_str 63 (upto_chr kind (CHR 0x00)) of
                  None \<Rightarrow> None
                | Some buf \<Rightarrow>
                    (case get_ematch_kind lk buf st of
                       (None, st1) \<Rightarrow> Some (-1, n, st1)
                     | (Some e, st1) \<Rightarrow>
                         (case lookup_map_id file buf of
                            Inl err \<Rightarrow> Some (err, n, st1)
                          | Inr num \<Rightarrow>
                              let (rc, n1) = eu_parse_eopt e n (ematch_hdr (of_int num) (node_flags t)) args
                              in Some (if rc < 0 then -1 else 0, n1, st1)))))"

fun parse_tree ::
  "em_linker \<Rightarrow> int + string list \<Rightarrow> nat \<Rightarrow> eheap \<Rightarrow> nat option \<Rightarrow> int \<Rightarrow> u8 list \<Rightarrow> em_state \<Rightarrow> (int \<times> u8 list \<times> em_state) option" where
  "parse_tree lk file k h None i n st = Some (0, n, st)"
| "parse_tree lk file 0 h (Some t) i n st = None"
| "parse_tree lk file (Suc k) h (Some t) i n st =
     (let tail = NLMSG_TAIL n;
          n1 = snd (addattr_l n MAX_MSG (of_int i) [])
      in case parse_node lk file (h t) n1 st of
           None \<Rightarrow> None
         | Some (rc, n2, st1) \<Rightarrow>
             if rc < 0 then Some (rc, n2, st1)
             else parse_tree lk file k h (en_next (h t)) (i + 1)
                    (poke tail (le_bytes 2 (of_int (int (NLMSG_TAIL n2) - int tail) :: u16)) n2) st1)"

definition TCF_EM_PROG_TC :: u16 where "TCF_EM_PROG_TC = 0"
definition TCA_EMATCH_TREE_HDR :: u16 where "TCA_EMATCH_TREE_HDR = 1"
definition TCA_EMATCH_TREE_LIST :: u16 where "TCA_EMATCH_TREE_LIST = 2"
definition TCA_EMATCH_TREE_MAX :: nat where "TCA_EMATCH_TREE_MAX = 2"

text \<open>\<^verbatim>\<open>parse_ematch\<close> after the generated parser: its result is the root and the memory.\<close>

definition parse_ematch ::
  "em_linker \<Rightarrow> int + string list \<Rightarrow> nat \<Rightarrow> (nat option \<times> eheap) option \<Rightarrow> u16 \<Rightarrow> u8 list \<Rightarrow> em_state \<Rightarrow>
   (int \<times> u8 list \<times> em_state) option" where
  "parse_ematch lk file k parsed tca_id n st =
     (case parsed of
        None \<Rightarrow> Some (- EINVAL, n, st)
      | Some (None, h) \<Rightarrow> Some (0, n, st)
      | Some (Some root, h) \<Rightarrow>
          (case flatten_tree k h root root of
             None \<Rightarrow> None
           | Some (cnt, h1) \<Rightarrow>
               let hdr = le_bytes 2 (of_int cnt :: u16) @ le_bytes 2 TCF_EM_PROG_TC;
                   tail = NLMSG_TAIL n;
                   n1 = snd (addattr_l n MAX_MSG tca_id []);
                   n2 = snd (addattr_l n1 MAX_MSG TCA_EMATCH_TREE_HDR hdr);
                   tail_list = NLMSG_TAIL n2;
                   n3 = snd (addattr_l n2 MAX_MSG TCA_EMATCH_TREE_LIST [])
               in case parse_tree lk file k h1 (Some root) 1 n3 st of
                    None \<Rightarrow> None
                  | Some (rc, n4, st1) \<Rightarrow>
                      if rc < 0 then Some (-1, n4, st1)
                      else let n5 = poke tail_list (le_bytes 2 (of_int (int (NLMSG_TAIL n4) - int tail_list) :: u16)) n4
                           in Some (0, poke tail (le_bytes 2 (of_int (int (NLMSG_TAIL n5) - int tail) :: u16)) n5, st1)))"

section \<open>Printing\<close>

definition indent :: "nat \<Rightarrow> string" where "indent k = concat (replicate k ''  '')"

text \<open>
  One entry of the table, its children if it is a group, and what follows it. The result is the return
  code and what has been printed; reading behind the table and using a kind without an end are
  undefined, \<open>None\<close>.
\<close>

fun print_ematch_seq ::
  "em_linker \<Rightarrow> int + string list \<Rightarrow> nat \<Rightarrow> u8 list option list \<Rightarrow> nat \<Rightarrow> nat \<Rightarrow> em_state \<Rightarrow> (int \<times> string \<times> em_state) option" where
  "print_ematch_seq lk file 0 tb i prefx st = None"
| "print_ematch_seq lk file (Suc k) tb i prefx st =
     (if i \<ge> length tb then None
      else case tb ! i of
        None \<Rightarrow> Some (-1, [], st)
      | Some rta \<Rightarrow>
          let dlen = RTA_PAYLOAD rta - 8; hdr = take 8 (RTA_DATA rta); data = drop 8 (RTA_DATA rta);
              neg = (if hdr_flags hdr AND TCF_EM_INVERT \<noteq> 0 then ''NOT '' else []);
              rel = hdr_flags hdr AND TCF_EM_REL_MASK
          in if dlen < 0 then Some (-1, [], st)
             else case (if hdr_kind hdr = 0 then
                          if dlen < 4 then Some (-1, neg, st)
                          else let ref = unat (peek32 0 data + 1)
                               in map_option (\<lambda>(rc, out, st1).
                                     if rc < 0 then (-1, neg @ ''('' @ [newline] @ indent (prefx + 1) @ out, st1)
                                     else (0, neg @ ''('' @ [newline] @ indent (prefx + 1) @ out @ indent prefx @ '') '', st1))
                                   (print_ematch_seq lk file k tb ref (prefx + 1) st)
                        else case get_ematch_kind_num lk file (hdr_kind hdr) st of
                               None \<Rightarrow> None
                             | Some (e, st1) \<Rightarrow>
                             let (rc, body) = (case e of
                                                 None \<Rightarrow> (0 :: int, ''[unknown ematch '' @ fmt_u (hdr_kind hdr) @ '']'' @ [newline])
                                               | Some u \<Rightarrow> let (rc, txt) = eu_print_eopt u hdr data dlen
                                                           in if rc < 0 then (-1, eu_kind u @ ''('' @ txt)
                                                              else (0, eu_kind u @ ''('' @ txt @ '')'' @ [newline]))
                             in Some (rc, neg @ body @ (if rc < 0 \<or> rel = 0 then [] else indent prefx), st1)) of
                    None \<Rightarrow> None
                  | Some (rc, out, st1) \<Rightarrow>
                      if rc < 0 then Some (-1, out, st1)
                      else if rel = 1 \<or> rel = 2
                      then map_option (\<lambda>(rc', out', st2). (rc', out @ (if rel = 1 then ''AND '' else ''OR '') @ out', st2))
                             (print_ematch_seq lk file k tb (i + 1) prefx st1)
                      else Some (0, out, st1))"

text \<open>\<open>alloc\<close> tells whether the memory for the table of attributes is granted.\<close>

definition print_ematch_list ::
  "bool \<Rightarrow> em_linker \<Rightarrow> int + string list \<Rightarrow> nat \<Rightarrow> u16 \<Rightarrow> u8 list \<Rightarrow> em_state \<Rightarrow> (int \<times> string \<times> em_state) option" where
  "print_ematch_list alloc lk file k nmatches rta st =
     (if \<not> alloc then Some (-1, [], st)
      else if nmatches > 0
      then map_option (\<lambda>(rc, out, st1). (if rc < 0 then -1 else 0, newline # ''  '' @ out, st1))
             (print_ematch_seq lk file k (parse_rtattr_nested (unat nmatches) rta) 1 1 st)
      else Some (0, [], st))"

definition print_ematch ::
  "bool \<Rightarrow> em_linker \<Rightarrow> int + string list \<Rightarrow> nat \<Rightarrow> u8 list \<Rightarrow> em_state \<Rightarrow> (int \<times> string \<times> em_state) option" where
  "print_ematch alloc lk file k rta st =
     (let tb = parse_rtattr_nested TCA_EMATCH_TREE_MAX rta
      in case (tb ! unat TCA_EMATCH_TREE_HDR, tb ! unat TCA_EMATCH_TREE_LIST) of
           (Some h, Some l) \<Rightarrow>
             if RTA_PAYLOAD h < 4 then Some (-1, [], st)
             else print_ematch_list alloc lk file k (peek16 0 (RTA_DATA h)) l st
         | _ \<Rightarrow> Some (-1, [], st))"

section \<open>Byte strings\<close>

definition bstrcmp_eq :: "string \<Rightarrow> string \<Rightarrow> bool" where "bstrcmp_eq b txt \<longleftrightarrow> b = txt"

definition bstrtoul :: "string \<Rightarrow> u64" where
  "bstrtoul b =
     (let s = upto_chr b (CHR 0x00); (l, inv) = strtoul 0 s
      in if l = -1 \<or> inv = s then -1 else l)"

end
