(* ===== verification/Ematch_Flat.thy ===== *)
theory Ematch_Flat
  imports Ematch
begin

text \<open>
  Flattening is correct: the nodes of an expression in memory, described by a tree of their addresses, end up in
  one list, every group before its children and each list of children in one piece, and every group knows
  the position of its first child.
\<close>

section \<open>Expressions in memory\<close>

datatype etree = ENode (eroot: nat) (esub: "etree list")

text \<open>The addresses below a list of nodes, in the order of the flat list.\<close>

fun desc :: "etree list \<Rightarrow> nat list" where
  "desc [] = []"
| "desc (ENode a cs # ts) = (map eroot cs @ desc cs) @ desc ts"

text \<open>The links between the nodes of an expression; the link of a last node is not looked at.\<close>

fun rep :: "eheap \<Rightarrow> etree list \<Rightarrow> bool" where
  "rep h [] = True"
| "rep h (ENode a cs # ts) \<longleftrightarrow>
     en_child (h a) = (if cs = [] then None else Some (eroot (hd cs))) \<and> rep h cs \<and>
     (if ts = [] then en_relation (h a) = 0
      else en_relation (h a) \<noteq> 0 \<and> en_next (h a) = Some (eroot (hd ts))) \<and> rep h ts"

fun closed_subs :: "eheap \<Rightarrow> etree list \<Rightarrow> bool" where
  "closed_subs h [] = True"
| "closed_subs h (ENode a cs # ts) \<longleftrightarrow>
     (cs \<noteq> [] \<longrightarrow> en_next (h (eroot (last cs))) = None) \<and> closed_subs h cs \<and> closed_subs h ts"

section \<open>Lists in memory\<close>

fun path :: "eheap \<Rightarrow> nat list \<Rightarrow> bool" where
  "path h (a # b # L) \<longleftrightarrow> en_next (h a) = Some b \<and> path h (b # L)"
| "path h _ = True"

definition list_at :: "eheap \<Rightarrow> nat list \<Rightarrow> bool" where
  "list_at h L \<longleftrightarrow> L \<noteq> [] \<and> path h L \<and> en_next (h (last L)) = None"

lemma path_append:
  "path h (L @ M) \<longleftrightarrow> path h L \<and> path h M \<and> (L \<noteq> [] \<longrightarrow> M \<noteq> [] \<longrightarrow> en_next (h (last L)) = Some (hd M))"
proof (induction L)
  case (Cons a L)
  then show ?case by (cases L; cases M) auto
qed simp

lemma path_cong: "(\<And>a. a \<in> set L \<Longrightarrow> en_next (h' a) = en_next (h a)) \<Longrightarrow> path h' L = path h L"
  by (induction h L rule: path.induct) auto

lemma path_keep: "path h L \<Longrightarrow> (\<And>a. en_next (h a) \<noteq> None \<Longrightarrow> en_next (h' a) = en_next (h a)) \<Longrightarrow> path h' L"
  by (induction h L rule: path.induct) auto

lemma rep_path: "rep h ts \<Longrightarrow> path h (map eroot ts)"
proof (induction ts)
  case (Cons t ts)
  obtain a cs where "t = ENode a cs" by (cases t)
  then show ?case using Cons by (cases ts) auto
qed simp

lemma list_at_Cons: "list_at h (a # L) \<longleftrightarrow> (if L = [] then en_next (h a) = None else en_next (h a) = Some (hd L) \<and> list_at h L)"
  by (cases L) (auto simp: list_at_def)

lemma last_node_list: "list_at h L \<Longrightarrow> length L \<le> k \<Longrightarrow> last_node k h (hd L) = Some (last L)"
proof (induction L arbitrary: k)
  case (Cons a L)
  then obtain j where "k = Suc j" by (cases k) auto
  then show ?case using Cons by (auto simp: list_at_Cons split: if_splits)
qed (simp add: list_at_def)

section \<open>What changes\<close>

text \<open>Only null links are set, and otherwise only positions change.\<close>

definition grows :: "eheap \<Rightarrow> eheap \<Rightarrow> bool" where
  "grows h h' \<longleftrightarrow>
     (\<forall>a. en_args (h' a) = en_args (h a) \<and> en_inverted (h' a) = en_inverted (h a) \<and> en_relation (h' a) = en_relation (h a) \<and>
          en_child (h' a) = en_child (h a) \<and> (en_next (h a) \<noteq> None \<longrightarrow> en_next (h' a) = en_next (h a)))"

definition same_outside :: "nat set \<Rightarrow> eheap \<Rightarrow> eheap \<Rightarrow> bool" where
  "same_outside A h h' \<longleftrightarrow> (\<forall>a. a \<notin> A \<longrightarrow> h' a = h a)"

lemma grows_refl [simp]: "grows h h" by (simp add: grows_def)

lemma grows_trans: "grows h h1 \<Longrightarrow> grows h1 h2 \<Longrightarrow> grows h h2"
  unfolding grows_def by (metis (no_types, lifting))

lemma same_outside_refl [simp]: "same_outside A h h" by (simp add: same_outside_def)

lemma same_outside_trans: "same_outside A h h1 \<Longrightarrow> same_outside B h1 h2 \<Longrightarrow> A \<subseteq> C \<Longrightarrow> B \<subseteq> C \<Longrightarrow> same_outside C h h2"
  unfolding same_outside_def by (metis subsetD)

lemma rep_grows: "rep h ts \<Longrightarrow> grows h h' \<Longrightarrow> rep h' ts"
  by (induction h ts rule: rep.induct) (auto simp: grows_def split: if_splits)

lemma last_root_in: "cs \<noteq> [] \<Longrightarrow> eroot (last cs) \<in> set (map eroot cs)" by simp

lemma closed_same:
  "closed_subs h ts \<Longrightarrow> same_outside A h h' \<Longrightarrow> A \<inter> set (desc ts) = {} \<Longrightarrow> closed_subs h' ts"
proof (induction h ts rule: closed_subs.induct)
  case (2 h a cs ts)
  have "h' (eroot (last cs)) = h (eroot (last cs))" if "cs \<noteq> []"
    using 2(4,5) last_root_in [OF that] unfolding same_outside_def by auto
  then show ?case using 2 by (auto simp: Int_Un_distrib)
qed simp

section \<open>Numbering\<close>

definition numbered :: "eheap \<Rightarrow> nat list \<Rightarrow> bool" where
  "numbered h L \<longleftrightarrow>
     (\<forall>j<length L. en_index (h (L ! j)) = int j \<and>
        (\<forall>c. en_child (h (L ! j)) = Some c \<longrightarrow> en_child_ref (h (L ! j)) = en_index (h c)))"

text \<open>The same links and contents, but for positions.\<close>

definition same_links :: "eheap \<Rightarrow> eheap \<Rightarrow> bool" where
  "same_links h h' \<longleftrightarrow>
     (\<forall>a. en_args (h' a) = en_args (h a) \<and> en_inverted (h' a) = en_inverted (h a) \<and> en_relation (h' a) = en_relation (h a) \<and>
          en_child (h' a) = en_child (h a) \<and> en_next (h' a) = en_next (h a))"

lemma same_links_list: "same_links h h' \<Longrightarrow> list_at h' L = list_at h L"
  unfolding list_at_def by (metis (no_types, lifting) path_cong same_links_def)

lemma same_links_upd:
  "same_links h (h(t := (h t)\<lparr>en_index := i\<rparr>))" "same_links h (h(t := (h t)\<lparr>en_child_ref := i\<rparr>))"
  by (simp_all add: same_links_def)

lemma same_links_trans: "same_links h h1 \<Longrightarrow> same_links h1 h2 \<Longrightarrow> same_links h h2"
  by (simp add: same_links_def)

lemma same_links_grows: "same_links h h' \<Longrightarrow> grows h h'"
  by (simp add: same_links_def grows_def)

lemma set_indices_list:
  assumes "list_at h L" "distinct L" "length L \<le> k"
  shows "\<exists>h'. set_indices k h (Some (hd L)) i = Some h' \<and> same_links h h' \<and> same_outside (set L) h h' \<and>
    (\<forall>j<length L. en_index (h' (L ! j)) = i + int j)"
  using assms
proof (induction L arbitrary: h k i)
  case (Cons a L)
  then obtain m where k: "k = Suc m" by (cases k) auto
  let ?h1 = "h(a := (h a)\<lparr>en_index := i\<rparr>)"
  show ?case
  proof (cases "L = []")
    case True
    then show ?thesis using Cons.prems(1) k same_links_upd(1) [of h a i]
      by (auto simp: list_at_Cons same_outside_def intro!: exI [of _ ?h1])
  next
    case False
    have n: "en_next (h a) = Some (hd L)" "list_at h L" using Cons.prems(1) False by (simp_all add: list_at_Cons)
    have "list_at ?h1 L" using n(2) same_links_list [OF same_links_upd(1)] by blast
    then obtain h' where h': "set_indices m ?h1 (Some (hd L)) (i + 1) = Some h'" "same_links ?h1 h'"
      "same_outside (set L) ?h1 h'" "\<forall>j<length L. en_index (h' (L ! j)) = i + 1 + int j"
      using Cons.IH [of ?h1 m "i + 1"] Cons.prems(2,3) k by (auto simp del: fun_upd_apply)
    have a: "en_index (h' a) = i" using h'(3) Cons.prems(2) by (simp add: same_outside_def)
    have "same_outside (set (a # L)) h h'" using h'(3) by (auto simp: same_outside_def split: if_splits)
    moreover have "\<forall>j<length (a # L). en_index (h' ((a # L) ! j)) = i + int j"
      using a h'(4) by (simp add: All_less_Suc2)
    moreover have "same_links h h'" by (rule same_links_trans [OF same_links_upd(1) h'(2)])
    moreover have "set_indices k h (Some (hd (a # L))) i = Some h'" using h'(1) n(1) k by simp
    ultimately show ?thesis by blast
  qed
qed (simp add: list_at_def)

lemma set_child_refs_list:
  assumes "list_at h L" "distinct L" "length L \<le> k"
  shows "\<exists>h'. set_child_refs k h (Some (hd L)) = Some h' \<and> same_links h h' \<and> same_outside (set L) h h' \<and>
    (\<forall>a. en_index (h' a) = en_index (h a)) \<and>
    (\<forall>a\<in>set L. \<forall>c. en_child (h a) = Some c \<longrightarrow> en_child_ref (h' a) = en_index (h c))"
  using assms
proof (induction L arbitrary: h k)
  case (Cons a L)
  then obtain m where k: "k = Suc m" by (cases k) auto
  let ?h1 = "case en_child (h a) of None \<Rightarrow> h | Some c \<Rightarrow> h(a := (h a)\<lparr>en_child_ref := en_index (h c)\<rparr>)"
  have s1: "same_links h ?h1" "same_outside {a} h ?h1" "\<And>b. en_index (?h1 b) = en_index (h b)"
    using same_links_upd(2) by (auto simp: same_outside_def same_links_def split: option.split)
  show ?case
  proof (cases "L = []")
    case True
    then show ?thesis using Cons.prems(1) k s1
      by (auto simp: list_at_Cons intro!: exI [of _ ?h1] split: option.split)
  next
    case False
    have n: "en_next (h a) = Some (hd L)" "list_at h L" using Cons.prems(1) False by (simp_all add: list_at_Cons)
    have "list_at ?h1 L" using n(2) same_links_list [OF s1(1)] by blast
    then obtain h' where h': "set_child_refs m ?h1 (Some (hd L)) = Some h'" "same_links ?h1 h'"
      "same_outside (set L) ?h1 h'" "\<forall>a. en_index (h' a) = en_index (?h1 a)"
      "\<forall>a\<in>set L. \<forall>c. en_child (?h1 a) = Some c \<longrightarrow> en_child_ref (h' a) = en_index (?h1 c)"
      using Cons.IH [of ?h1 m] Cons.prems(2,3) k by auto
    have "h' a = ?h1 a" using h'(3) Cons.prems(2) by (simp add: same_outside_def)
    then have a: "en_child (h a) = Some c \<Longrightarrow> en_child_ref (h' a) = en_index (h c)" for c by simp
    have ch: "en_child (?h1 b) = en_child (h b)" for b using s1(1) by (simp add: same_links_def)
    have "same_outside (set (a # L)) h h'" by (rule same_outside_trans [OF s1(2) h'(3)]) auto
    moreover have "same_links h h'" by (rule same_links_trans [OF s1(1) h'(2)])
    ultimately show ?thesis using h'(1,4,5) n(1) k s1(3) a unfolding ch by auto
  qed
qed (simp add: list_at_def)

lemma renumber_list:
  assumes "list_at h L" "distinct L" "length L \<le> k"
  shows "\<exists>h2 h3. set_indices k h (Some (hd L)) 0 = Some h2 \<and> set_child_refs k h2 (Some (hd L)) = Some h3 \<and>
    same_links h h3 \<and> same_outside (set L) h h3 \<and> numbered h3 L"
proof -
  obtain h2 where h2: "set_indices k h (Some (hd L)) 0 = Some h2" "same_links h h2" "same_outside (set L) h h2"
    "\<forall>j<length L. en_index (h2 (L ! j)) = int j" using set_indices_list [OF assms, of 0] by auto
  have "list_at h2 L" using assms(1) same_links_list [OF h2(2)] by blast
  then obtain h3 where h3: "set_child_refs k h2 (Some (hd L)) = Some h3" "same_links h2 h3" "same_outside (set L) h2 h3"
    "\<forall>a. en_index (h3 a) = en_index (h2 a)" "\<forall>a\<in>set L. \<forall>c. en_child (h2 a) = Some c \<longrightarrow> en_child_ref (h3 a) = en_index (h2 c)"
    using set_child_refs_list [of h2 L k] assms(2,3) by blast
  have "en_child (h3 a) = en_child (h2 a)" for a using h3(2) by (simp add: same_links_def)
  then have "numbered h3 L" using h2(4) h3(4,5) by (simp add: numbered_def)
  then show ?thesis using h2(1) h3(1) same_links_trans [OF h2(2) h3(2)] same_outside_trans [OF h2(3) h3(3)] by blast
qed

section \<open>The flat list\<close>

text \<open>Appending the list of children behind the last node.\<close>

lemma append_children:
  assumes "list_at h L" "rep h cs" "cs \<noteq> []" "en_next (h (eroot (last cs))) = None" "set L \<inter> set (map eroot cs) = {}"
  defines "h0 \<equiv> h(last L := (h (last L))\<lparr>en_next := Some (eroot (hd cs))\<rparr>)"
  shows "list_at h0 (L @ map eroot cs)" "grows h h0" "same_outside (set L) h h0"
proof -
  have L: "L \<noteq> []" "path h L" "en_next (h (last L)) = None" using assms(1) by (simp_all add: list_at_def)
  then show g: "grows h h0" by (auto simp: grows_def h0_def)
  show "same_outside (set L) h h0" using L(1) by (auto simp: same_outside_def h0_def)
  have "path h0 L" by (rule path_keep [OF L(2)]) (use g in \<open>simp add: grows_def\<close>)
  moreover have "path h0 (map eroot cs)" by (rule path_keep [OF rep_path [OF assms(2)]]) (use g in \<open>simp add: grows_def\<close>)
  moreover have "en_next (h0 (last L)) = Some (hd (map eroot cs))" using assms(3) by (simp add: h0_def hd_map)
  ultimately have "path h0 (L @ map eroot cs)" by (simp add: path_append)
  moreover have "last L \<noteq> eroot (last cs)" using assms(5) L(1) last_root_in [OF assms(3)] by (metis disjoint_iff last_in_set)
  then have "en_next (h0 (eroot (last cs))) = None" using assms(4) by (simp add: h0_def)
  ultimately show "list_at h0 (L @ map eroot cs)" using assms(3) by (simp add: list_at_def last_map)
qed

definition flat_ok :: "nat \<Rightarrow> eheap \<Rightarrow> nat list \<Rightarrow> etree list \<Rightarrow> bool" where
  "flat_ok k h L ts \<longleftrightarrow>
     (\<exists>h'. flatten_tree k h (hd L) (eroot (hd ts)) = Some (int (length ts + length (desc ts)), h') \<and>
        list_at h' (L @ desc ts) \<and> grows h h' \<and> same_outside (set (L @ desc ts)) h h' \<and> numbered h' (L @ desc ts))"

text \<open>The part of a pass that deals with the children of a node.\<close>

definition sub_pass :: "nat \<Rightarrow> eheap \<Rightarrow> nat \<Rightarrow> nat \<Rightarrow> (int \<times> eheap) option" where
  "sub_pass k h head tree =
     (case en_child (h tree) of
        None \<Rightarrow> Some (0, h)
      | Some c \<Rightarrow>
          (case last_node k h head of
             None \<Rightarrow> None
           | Some t \<Rightarrow> flatten_tree k (h(t := (h t)\<lparr>en_next := Some c\<rparr>)) head c))"

lemma sub_pass_ok:
  assumes "list_at h L" "distinct (L @ map eroot cs @ desc cs)" "rep h cs" "closed_subs h cs" "length L \<le> k"
    "en_child (h a) = (if cs = [] then None else Some (eroot (hd cs)))" "cs \<noteq> [] \<Longrightarrow> en_next (h (eroot (last cs))) = None"
    and IH: "\<And>h0. cs \<noteq> [] \<Longrightarrow> list_at h0 (L @ map eroot cs) \<Longrightarrow> rep h0 cs \<Longrightarrow> closed_subs h0 cs \<Longrightarrow> flat_ok k h0 (L @ map eroot cs) cs"
  shows "\<exists>h1. sub_pass k h (hd L) a = Some (int (length cs + length (desc cs)), h1) \<and>
    list_at h1 (L @ map eroot cs @ desc cs) \<and> grows h h1 \<and> same_outside (set (L @ map eroot cs @ desc cs)) h h1"
proof (cases "cs = []")
  case True
  then show ?thesis using assms(1,6) by (simp add: sub_pass_def)
next
  case False
  have L: "L \<noteq> []" using assms(1) by (simp add: list_at_def)
  have dis: "set L \<inter> set (map eroot cs) = {}" "set L \<inter> set (desc cs) = {}" using assms(2) by auto
  let ?h0 = "h(last L := (h (last L))\<lparr>en_next := Some (eroot (hd cs))\<rparr>)"
  note h0 = append_children [OF assms(1,3) False assms(7) [OF False] dis(1)]
  obtain h1 where h1: "flatten_tree k ?h0 (hd (L @ map eroot cs)) (eroot (hd cs)) = Some (int (length cs + length (desc cs)), h1)"
    "list_at h1 ((L @ map eroot cs) @ desc cs)" "grows ?h0 h1" "same_outside (set ((L @ map eroot cs) @ desc cs)) ?h0 h1"
    using IH [OF False h0(1) rep_grows [OF assms(3) h0(2)] closed_same [OF assms(4) h0(3) dis(2)]] unfolding flat_ok_def by blast
  have "sub_pass k h (hd L) a = Some (int (length cs + length (desc cs)), h1)"
    using h1(1) False assms(6) last_node_list [OF assms(1,5)] L by (simp add: sub_pass_def)
  moreover have "same_outside (set (L @ map eroot cs @ desc cs)) h h1"
    by (rule same_outside_trans [OF h0(3) h1(4)]) auto
  ultimately show ?thesis using h1(2) grows_trans [OF h0(2) h1(3)] by auto
qed

lemma flatten_tree_step:
  "flatten_tree (Suc k) h head tree =
     (case sub_pass k h head tree of
        None \<Rightarrow> None
      | Some (cnt, h1) \<Rightarrow>
          if en_relation (h1 tree) = 0
          then (case set_indices k h1 (Some head) 0 of
                  None \<Rightarrow> None
                | Some h2 \<Rightarrow> map_option (\<lambda>h3. (1 + cnt, h3)) (set_child_refs k h2 (Some head)))
          else (case en_next (h1 tree) of
                  None \<Rightarrow> None
                | Some u \<Rightarrow> map_option (\<lambda>(c', h2). (1 + cnt + c', h2)) (flatten_tree k h1 head u)))"
  by (simp add: sub_pass_def)

lemma flatten_tree_ok:
  "ts \<noteq> [] \<Longrightarrow> list_at h L \<Longrightarrow> distinct (L @ desc ts) \<Longrightarrow> rep h ts \<Longrightarrow> closed_subs h ts \<Longrightarrow>
   length (L @ desc ts) + length ts + length (desc ts) < k \<Longrightarrow> flat_ok k h L ts"
proof (induction ts arbitrary: h L k rule: desc.induct)
  case (2 a cs ts)
  then obtain m where k: "k = Suc m" by (cases k) auto
  have L: "L \<noteq> []" using 2(4) by (simp add: list_at_def)
  let ?M = "L @ map eroot cs @ desc cs"
  have dis: "distinct ?M" "distinct (?M @ desc ts)" using 2(5) by auto
  have r: "rep h cs" "rep h ts" "closed_subs h cs" "closed_subs h ts" using 2(6,7) by simp_all
  have sub: "\<exists>h1. sub_pass m h (hd L) a = Some (int (length cs + length (desc cs)), h1) \<and>
    list_at h1 ?M \<and> grows h h1 \<and> same_outside (set ?M) h h1"
  proof (rule sub_pass_ok [OF 2(4) dis(1) r(1,3)])
    show "length L \<le> m" using 2(8) k by simp
    show "en_child (h a) = (if cs = [] then None else Some (eroot (hd cs)))" using 2(6) by simp
    show "cs \<noteq> [] \<Longrightarrow> en_next (h (eroot (last cs))) = None" using 2(7) by simp
    show "flat_ok m h0 (L @ map eroot cs) cs"
      if "cs \<noteq> []" "list_at h0 (L @ map eroot cs)" "rep h0 cs" "closed_subs h0 cs" for h0
      by (rule 2(1) [OF that(1,2) _ that(3,4)]) (use dis(1) 2(8) k in auto)
  qed
  then obtain h1 where h1: "sub_pass m h (hd L) a = Some (int (length cs + length (desc cs)), h1)"
    "list_at h1 ?M" "grows h h1" "same_outside (set ?M) h h1" by blast
  have rel: "en_relation (h1 a) = en_relation (h a)" using h1(3) by (simp add: grows_def)
  have hd: "hd ?M = hd L" using L by simp
  show ?case
  proof (cases "ts = []")
    case True
    have "length ?M \<le> m" using 2(8) k True by simp
    then obtain h2 h3 where h3: "set_indices m h1 (Some (hd L)) 0 = Some h2" "set_child_refs m h2 (Some (hd L)) = Some h3"
      "same_links h1 h3" "same_outside (set ?M) h1 h3" "numbered h3 ?M"
      using renumber_list [OF h1(2) dis(1)] unfolding hd by blast
    have "en_relation (h1 a) = 0" using 2(6) True rel by simp
    then have "flatten_tree k h (hd L) a = Some (1 + int (length cs + length (desc cs)), h3)"
      using h1(1) h3(1,2) unfolding k flatten_tree_step by simp
    moreover have "list_at h3 ?M" using same_links_list [OF h3(3)] h1(2) by blast
    ultimately show ?thesis
      using True h3(5) grows_trans [OF h1(3) same_links_grows [OF h3(3)]] same_outside_trans [OF h1(4) h3(4)]
      by (auto simp: flat_ok_def)
  next
    case False
    have nx: "en_relation (h1 a) \<noteq> 0" "en_next (h1 a) = Some (eroot (hd ts))"
      using 2(6) False rel h1(3) by (auto simp: grows_def)
    have "set ?M \<inter> set (desc ts) = {}" using dis(2) by auto
    then have "flat_ok m h1 ?M ts"
      by (intro 2(2) [OF False h1(2) dis(2) rep_grows [OF r(2) h1(3)] closed_same [OF r(4) h1(4)]]) (use 2(8) k in simp_all)
    then obtain h2 where h2: "flatten_tree m h1 (hd L) (eroot (hd ts)) = Some (int (length ts + length (desc ts)), h2)"
      "list_at h2 (?M @ desc ts)" "grows h1 h2" "same_outside (set (?M @ desc ts)) h1 h2" "numbered h2 (?M @ desc ts)"
      unfolding flat_ok_def hd by blast
    have "flatten_tree k h (hd L) a = Some (1 + int (length cs + length (desc cs)) + int (length ts + length (desc ts)), h2)"
      using h1(1) nx h2(1) unfolding k flatten_tree_step by simp
    moreover have "same_outside (set (?M @ desc ts)) h h2" by (rule same_outside_trans [OF h1(4) h2(4)]) auto
    ultimately show ?thesis using h2(2,5) grows_trans [OF h1(3) h2(3)] by (auto simp: flat_ok_def)
  qed
qed simp

end
