(* ===== verification/Ematch_Msg.thy ===== *)
theory Ematch_Msg
  imports Ematch_Flat
begin

unbundle bit_operations_syntax

text \<open>
  From a flat list of matches to the message and back to text: the kernel receives one attribute for
  every node, and what \<^verbatim>\<open>print_ematch\<close> prints from them is the expression that was entered.
\<close>

section \<open>Messages with raw bytes\<close>

definition nl_bytes :: "nat \<Rightarrow> u8 list \<Rightarrow> u8 list \<Rightarrow> bool" where
  "nl_bytes hdr body n \<longleftrightarrow>
     16 \<le> hdr \<and> 4 dvd hdr \<and> 4 dvd length body \<and> length n < 2 ^ 31 \<and> unat (nlmsg_len n) = hdr + length body \<and>
     hdr + length body \<le> length n \<and> take (length body) (drop hdr n) = body"

lemma nl_msg_bytes: "nl_msg hdr as n \<longleftrightarrow> nl_bytes hdr (encs as) n \<and> list_all attr_ok as"
  using length_encs_mod [of as] by (auto simp: nl_msg_def nl_bytes_def mod_eq_0_iff_dvd)

lemma nl_bytes_split:
  assumes "nl_bytes hdr body n" shows "n = take hdr n @ body @ drop (hdr + length body) n" "length (take hdr n) = hdr"
proof -
  show "length (take hdr n) = hdr" using assms by (simp add: nl_bytes_def)
  have "drop hdr n = body @ drop (length body) (drop hdr n)" using assms unfolding nl_bytes_def by (metis append_take_drop_id)
  then have "drop hdr n = body @ drop (hdr + length body) n" unfolding drop_drop by (simp add: add.commute)
  then show "n = take hdr n @ body @ drop (hdr + length body) n" by (metis append_take_drop_id)
qed

lemma nl_bytes_tail: "nl_bytes hdr body n \<Longrightarrow> NLMSG_TAIL n = hdr + length body"
  by (simp add: nl_bytes_def NLMSG_TAIL_def unat_align align4_self mod_eq_0_iff_dvd)

text \<open>Overwriting a part of the body, and appending to it.\<close>

lemma nl_bytes_poke:
  assumes "nl_bytes hdr (a @ x @ b) n" "length y = length x"
  shows "nl_bytes hdr (a @ y @ b) (poke (hdr + length a) y n)" "length (poke (hdr + length a) y n) = length n"
    "take hdr (poke (hdr + length a) y n) = take hdr n"
proof -
  let ?r = "drop (hdr + length (a @ x @ b)) n"
  note sp = nl_bytes_split [OF assms(1)]
  have "poke (hdr + length a) y ((take hdr n @ a) @ x @ (b @ ?r)) = (take hdr n @ a) @ y @ (b @ ?r)"
    by (rule poke_at) (use sp(2) assms(2) in simp_all)
  then have p: "poke (hdr + length a) y n = take hdr n @ a @ y @ b @ ?r" using sp(1) by simp
  show t: "take hdr (poke (hdr + length a) y n) = take hdr n" unfolding p using sp(2) by simp
  show l: "length (poke (hdr + length a) y n) = length n" using length_poke [of "hdr + length a" y n] assms by (simp add: nl_bytes_def)
  have "take 4 (poke (hdr + length a) y n) = take 4 n"
  proof -
    have "take 4 (take hdr (poke (hdr + length a) y n)) = take 4 (take hdr n)" by (simp only: t)
    then show ?thesis using assms(1) by (simp add: nl_bytes_def min_def)
  qed
  then have "nlmsg_len (poke (hdr + length a) y n) = nlmsg_len n" by (simp add: nlmsg_len_def peek32_def)
  moreover have "take (length (a @ y @ b)) (drop hdr (poke (hdr + length a) y n)) = a @ y @ b" unfolding p using sp(2) by simp
  ultimately show "nl_bytes hdr (a @ y @ b) (poke (hdr + length a) y n)"
    using assms l unfolding nl_bytes_def by simp
qed

lemma addraw_l_bytes:
  assumes "nl_bytes hdr body n" "4 dvd length d" "hdr + length body + length d \<le> unat maxlen" "unat maxlen \<le> length n"
  shows "\<exists>n'. addraw_l n maxlen d = (0, n') \<and> nl_bytes hdr (body @ d) n' \<and> length n' = length n"
proof -
  let ?t = "hdr + length body"
  have m: "16 \<le> hdr" "4 dvd hdr" "4 dvd length body" "length n < 2 ^ 31" "unat (nlmsg_len n) = ?t" using assms(1) by (simp_all add: nl_bytes_def)
  have d32: "length d < 2 ^ 31" using assms(3,4) m(4) by linarith
  have u: "unat (of_nat (length d) :: u32) = length d" using d32 by (intro unat_of_nat_eq) simp
  have al: "unat (NLMSG_ALIGN (of_nat (length d))) = length d"
    using d32 u assms(2) by (simp add: unat_align align4_self mod_eq_0_iff_dvd)
  have al': "NLMSG_ALIGN (of_nat (length d) :: u32) = of_nat (length d)" by (simp only: word_unat_eq_iff al u)
  have tl: "NLMSG_TAIL n = ?t" by (rule nl_bytes_tail [OF assms(1)])
  then have alt: "unat (NLMSG_ALIGN (nlmsg_len n)) = ?t" by (simp add: NLMSG_TAIL_def)
  have sum: "unat (NLMSG_ALIGN (nlmsg_len n) + of_nat (length d)) = ?t + length d"
    using alt u m(4) assms(3,4) by (simp add: unat_word_ariths)
  define n1 where "n1 = poke ?t d n"
  have n1: "n1 = take ?t n @ d @ drop (?t + length d) n" by (simp add: n1_def poke_def)
  have lt: "length (take ?t n) = ?t" using assms(3,4) by simp
  have len1: "nlmsg_len n1 = nlmsg_len n" using m(1) lt unfolding n1 by (simp add: nlmsg_len_def peek32_def)
  have "NLMSG_TAIL n1 = ?t" using tl by (simp add: NLMSG_TAIL_def len1)
  then have p0: "poke (NLMSG_TAIL n1 + length d) (replicate (unat (NLMSG_ALIGN (of_nat (length d)) - of_nat (length d) :: u32)) 0) n1 = n1"
    unfolding al' by (simp add: poke_def)
  let ?n' = "set_nlmsg_len (NLMSG_ALIGN (nlmsg_len n) + of_nat (length d)) n1"
  have "addraw_l n maxlen d = (0, ?n')"
    using assms(3) p0 len1 unfolding addraw_l_def Let_def tl al' n1_def [symmetric] by (simp add: word_less_nat_alt sum)
  moreover have n': "?n' = le_bytes 4 (NLMSG_ALIGN (nlmsg_len n) + of_nat (length d) :: u32) @ drop 4 n1"
    by (simp add: set_nlmsg_len_def poke_def)
  have "length n1 = length n" unfolding n1 using lt assms(3,4) by simp
  then have ln: "length ?n' = length n" unfolding n' using assms(3,4) m(1) by simp
  have bd: "drop hdr n1 = body @ d @ drop (?t + length d) n"
  proof -
    have "drop hdr (take ?t n) = body" using assms(1) unfolding nl_bytes_def by (simp add: drop_take)
    then show ?thesis unfolding n1 using lt by simp
  qed
  have "drop hdr ?n' = drop hdr n1" unfolding n' using m(1) by simp
  then have "take (length (body @ d)) (drop hdr ?n') = body @ d" unfolding bd by simp
  moreover have "unat (nlmsg_len ?n') = hdr + length (body @ d)" using sum unfolding n' by (simp add: nlmsg_len_def peek32_def)
  ultimately show ?thesis
    using m assms(2-4) ln by (auto simp: nl_bytes_def)
qed

section \<open>One attribute for every node\<close>

text \<open>
  A match whose kind is registered: the map of kinds has a number for the kind and the kind for the
  number, the module writes the header and \<open>d\<close> into the message, and prints \<open>d\<close> as the text \<open>ltxt\<close>.
\<close>

definition leaf_ok :: "int + string list \<Rightarrow> em_state \<Rightarrow> ematch \<Rightarrow> u16 \<Rightarrow> u8 list \<Rightarrow> string \<Rightarrow> bool" where
  "leaf_ok file st t num d ltxt \<longleftrightarrow>
     (\<exists>kind args e body. en_args t = kind # args \<and>
        List.find (\<lambda>e. eu_kind e = upto_chr kind (CHR 0x00)) (ematch_list st) = Some e \<and>
        lookup_map_id file (upto_chr kind (CHR 0x00)) = Inr (uint num) \<and>
        lookup_map file num 32 = Inr (Some (eu_kind e)) \<and> num \<noteq> 0 \<and> 4 dvd length d \<and>
        (\<forall>n hdr. eu_parse_eopt e n hdr args = (0, snd (addraw_l (snd (addraw_l n MAX_MSG hdr)) MAX_MSG d))) \<and>
        (\<forall>hdr rest. eu_print_eopt e hdr (d @ rest) (int (length d)) = (0, body)) \<and>
        ltxt = eu_kind e @ ''('' @ body @ '')'' @ [newline])"

text \<open>A kind that is found for a number fits the buffer of 32 bytes, so it fits that of 64 bytes, too.\<close>

lemma leaf_kind_short:
  assumes "List.find (\<lambda>e. eu_kind e = kd) es = Some e" "lookup_map file num 32 = Inr (Some (eu_kind e))"
  shows "strncpy_str 63 kd = Some kd"
proof -
  have "eu_kind e = kd" using assms(1) by (auto simp: find_Some_iff)
  moreover have "length (eu_kind e) < 31"
    using assms(2) by (auto simp: lookup_map_def strncpy_str_def split: sum.splits if_splits)
  ultimately show ?thesis by (simp add: strncpy_str_def)
qed

lemma leaf_ok_kind:
  assumes "leaf_ok file st t num d ltxt"
  shows "\<exists>e body. get_ematch_kind_num lk file num st = Some (Some e, st) \<and>
    (\<forall>hdr rest. eu_print_eopt e hdr (d @ rest) (int (length d)) = (0, body)) \<and> ltxt = eu_kind e @ ''('' @ body @ '')'' @ [newline]"
proof -
  obtain kind e body where e: "List.find (\<lambda>e. eu_kind e = upto_chr kind (CHR 0x00)) (ematch_list st) = Some e"
    "lookup_map file num 32 = Inr (Some (eu_kind e))" "\<forall>hdr rest. eu_print_eopt e hdr (d @ rest) (int (length d)) = (0, body)"
    "ltxt = eu_kind e @ ''('' @ body @ '')'' @ [newline]" using assms unfolding leaf_ok_def by blast
  have "eu_kind e = upto_chr kind (CHR 0x00)" using e(1) by (auto simp: find_Some_iff)
  then have "get_ematch_kind lk (eu_kind e) st = (Some e, st)" using e(1) by (simp add: get_ematch_kind_def)
  then show ?thesis using e(2-4) by (simp add: get_ematch_kind_num_def)
qed

text \<open>\<open>num\<close> and \<open>dat\<close> give the number and the data of the match at an address.\<close>

definition node_bytes :: "(nat \<Rightarrow> u16) \<Rightarrow> (nat \<Rightarrow> u8 list) \<Rightarrow> eheap \<Rightarrow> nat \<Rightarrow> u8 list" where
  "node_bytes num dat h a =
     (if en_child (h a) \<noteq> None then ematch_hdr 0 (node_flags (h a)) @ le_bytes 4 (of_int (en_child_ref (h a)) :: u32)
      else ematch_hdr (num a) (node_flags (h a)) @ dat a)"

definition nodes_ok :: "int + string list \<Rightarrow> em_state \<Rightarrow> (nat \<Rightarrow> u16) \<Rightarrow> (nat \<Rightarrow> u8 list) \<Rightarrow> (nat \<Rightarrow> string) \<Rightarrow> eheap \<Rightarrow> nat list \<Rightarrow> bool" where
  "nodes_ok file st num dat ltxt h L \<longleftrightarrow>
     (\<forall>a\<in>set L. en_relation (h a) \<in> {0, 1, 2} \<and>
        (en_child (h a) = None \<longrightarrow> leaf_ok file st (h a) (num a) (dat a) (ltxt a)))"

lemma length_hdr: "length (ematch_hdr k f) = 8" by (simp add: ematch_hdr_def)

lemma leaf_data: "leaf_ok file st t num d ltxt \<Longrightarrow> 4 dvd length d"
  unfolding leaf_ok_def by blast

lemma node_bytes_aligned: "nodes_ok file st num dat ltxt h L \<Longrightarrow> a \<in> set L \<Longrightarrow> 4 dvd length (node_bytes num dat h a)"
  using leaf_data unfolding nodes_ok_def by (auto simp: node_bytes_def length_hdr)

lemma parse_node_ok:
  assumes "nl_bytes hdr body n" "nodes_ok file st num dat ltxt h L" "a \<in> set L" "16384 \<le> length n"
    "hdr + length body + length (node_bytes num dat h a) \<le> 16384"
  shows "\<exists>n'. parse_node lk file (h a) n st = Some (0, n', st) \<and> nl_bytes hdr (body @ node_bytes num dat h a) n' \<and> length n' = length n"
proof -
  let ?k = "if en_child (h a) \<noteq> None then 0 else num a"
  let ?d = "if en_child (h a) \<noteq> None then le_bytes 4 (of_int (en_child_ref (h a)) :: u32) else dat a"
  let ?hd = "ematch_hdr ?k (node_flags (h a))"
  have nb: "node_bytes num dat h a = ?hd @ ?d" by (simp add: node_bytes_def)
  have mx: "unat MAX_MSG = 16384" by (simp add: MAX_MSG_def)
  have d4: "4 dvd length ?d" using leaf_data assms(2,3) unfolding nodes_ok_def by auto
  obtain n1 where n1: "addraw_l n MAX_MSG ?hd = (0, n1)" "nl_bytes hdr (body @ ?hd) n1" "length n1 = length n"
    using addraw_l_bytes [OF assms(1), of ?hd MAX_MSG] assms(4,5) nb mx by (auto simp: length_hdr)
  obtain n2 where n2: "addraw_l n1 MAX_MSG ?d = (0, n2)" "nl_bytes hdr ((body @ ?hd) @ ?d) n2" "length n2 = length n1"
    using addraw_l_bytes [OF n1(2) d4, of MAX_MSG] assms(4,5) nb mx n1(3) by (auto simp: length_hdr)
  have "parse_node lk file (h a) n st = Some (0, n2, st)"
  proof (cases "en_child (h a)")
    case (Some c)
    then show ?thesis using n1(1) n2(1) by (simp add: parse_node_def)
  next
    case None
    then obtain kind args e where e: "en_args (h a) = kind # args"
      "List.find (\<lambda>e. eu_kind e = upto_chr kind (CHR 0x00)) (ematch_list st) = Some e"
      "lookup_map_id file (upto_chr kind (CHR 0x00)) = Inr (uint (num a))"
      "\<forall>n hdr. eu_parse_eopt e n hdr args = (0, snd (addraw_l (snd (addraw_l n MAX_MSG hdr)) MAX_MSG (dat a)))"
      "strncpy_str 63 (upto_chr kind (CHR 0x00)) = Some (upto_chr kind (CHR 0x00))"
      using assms(2,3) leaf_kind_short unfolding nodes_ok_def leaf_ok_def by blast
    show ?thesis using None n1(1) n2(1) e by (simp add: parse_node_def get_ematch_kind_def)
  qed
  then show ?thesis using n2(2,3) n1(3) by (simp add: nb)
qed

fun node_attrs :: "(nat \<Rightarrow> u8 list) \<Rightarrow> nat \<Rightarrow> nat list \<Rightarrow> attr list" where
  "node_attrs nb i [] = []"
| "node_attrs nb i (a # L) = (of_nat i, nb a, []) # node_attrs nb (i + 1) L"

lemma parse_tree_ok:
  assumes "list_at h L" "nodes_ok file st num dat ltxt h L" "length L \<le> k" "nl_msg hdr as n" "16384 \<le> length n"
    and "hdr + length (encs as) + length (encs (node_attrs (node_bytes num dat h) i L)) \<le> 16384"
  shows "\<exists>n'. parse_tree lk file k h (Some (hd L)) (int i) n st = Some (0, n', st) \<and>
    nl_msg hdr (as @ node_attrs (node_bytes num dat h) i L) n' \<and> length n' = length n"
  using assms
proof (induction L arbitrary: k as n i)
  case (Cons a L)
  let ?nb = "node_bytes num dat h"
  obtain m where k: "k = Suc m" using Cons.prems(3) by (cases k) auto
  have al: "4 dvd length (?nb a)" using node_bytes_aligned [OF Cons.prems(2)] by simp
  have mx: "unat MAX_MSG = 16384" by (simp add: MAX_MSG_def)
  obtain p n1 where n1: "addattr_l n MAX_MSG (of_nat i) [] = (0, n1)" "nl_msg hdr (as @ [(of_nat i, [], p)]) n1" "length n1 = length n"
    using addattr_l_msg(2) [OF Cons.prems(4), of "[]" MAX_MSG "of_nat i"] Cons.prems(5,6) mx by (auto simp: align4_def)
  have p: "p = []" using n1(2) by (simp add: nl_msg_def align4_def)
  have b1: "nl_bytes hdr (encs as @ enc (of_nat i, [], [])) n1" and ok: "list_all attr_ok as"
    using n1(2) p by (auto simp: nl_msg_bytes simp del: enc.simps)
  obtain n2 where n2: "parse_node lk file (h a) n1 st = Some (0, n2, st)" "nl_bytes hdr ((encs as @ enc (of_nat i, [], [])) @ ?nb a) n2" "length n2 = length n1"
    using parse_node_ok [OF b1 Cons.prems(2), of a lk] Cons.prems(5,6) n1(3) by auto
  let ?tail = "hdr + length (encs as)"
  let ?w = "le_bytes 2 (of_nat (4 + length (?nb a)) :: u16)"
  have tails: "NLMSG_TAIL n = ?tail" "NLMSG_TAIL n2 = ?tail + 4 + length (?nb a)"
    using nl_bytes_tail [OF n2(2)] NLMSG_TAIL_msg [OF Cons.prems(4)] by simp_all
  have "nl_bytes hdr (encs as @ le_bytes 2 (4 :: u16) @ (le_bytes 2 (of_nat i :: u16) @ ?nb a)) n2" using n2(2) by simp
  from nl_bytes_poke [OF this, of ?w]
  have n3: "nl_bytes hdr (encs as @ enc (of_nat i, ?nb a, [])) (poke ?tail ?w n2)" "length (poke ?tail ?w n2) = length n2" by simp_all
  have "attr_ok (of_nat i, ?nb a, [])" using al Cons.prems(6) by (simp add: align4_self mod_eq_0_iff_dvd)
  then have m3: "nl_msg hdr (as @ [(of_nat i, ?nb a, [])]) (poke ?tail ?w n2)"
    using n3(1) ok by (simp add: nl_msg_bytes del: enc.simps)
  have step: "parse_tree lk file k h (Some (hd (a # L))) (int i) n st =
      parse_tree lk file m h (en_next (h a)) (int (i + 1)) (poke ?tail ?w n2) st"
    using n1(1) n2(1) k tails by (simp add: Let_def add.commute)
  show ?case
  proof (cases "L = []")
    case True
    then show ?thesis using step m3 n3(2) n2(3) n1(3) Cons.prems(1) by (simp add: list_at_Cons del: enc.simps)
  next
    case False
    have "list_at h L" "en_next (h a) = Some (hd L)" using Cons.prems(1) False by (simp_all add: list_at_Cons)
    moreover have "nodes_ok file st num dat ltxt h L" using Cons.prems(2) by (simp add: nodes_ok_def)
    ultimately show ?thesis
      using Cons.IH [OF _ _ _ m3, of m "i + 1"] Cons.prems(3,5,6) k step n3(2) n2(3) n1(3) by (simp del: enc.simps)
  qed
qed (simp add: list_at_def)

section \<open>The table of the printer\<close>

lemma first_node_attr:
  "j < length L \<Longrightarrow> i + length L < 2 ^ 16 \<Longrightarrow> first_attr (i + j) (node_attrs nb i L) = Some (nb (L ! j))"
proof (induction L arbitrary: i j)
  case (Cons a L)
  have u: "unat (of_nat i :: u16) = i" using Cons.prems(2) by (intro unat_of_nat_eq) simp
  show ?case
  proof (cases j)
    case 0
    then show ?thesis using u by (simp add: first_attr_def)
  next
    case (Suc j')
    then have "first_attr (i + j) (node_attrs nb i (a # L)) = first_attr (i + 1 + j') (node_attrs nb (i + 1) L)"
      using u by (simp add: first_attr_def)
    also have "\<dots> = Some (nb (L ! j'))" by (rule Cons.IH) (use Cons.prems Suc in simp_all)
    finally show ?thesis using Suc by simp
  qed
qed simp

lemma length_parse_loop: "length (fst (parse_loop mx tb r len)) = length tb"
proof (induction mx tb r len rule: parse_loop.induct)
  case (1 mx tb rta len)
  then show ?case by (subst parse_loop.simps) (auto simp: Let_def)
qed

definition table_ok :: "u8 list option list \<Rightarrow> (nat \<Rightarrow> u8 list) \<Rightarrow> nat list \<Rightarrow> bool" where
  "table_ok tb nb L \<longleftrightarrow> length tb = length L + 1 \<and>
     (\<forall>j<length L. \<exists>rta rest. tb ! (j + 1) = Some rta \<and> RTA_PAYLOAD rta = int (length (nb (L ! j))) \<and> RTA_DATA rta = nb (L ! j) @ rest)"

lemma nested_table:
  assumes "list_all attr_ok (node_attrs nb 1 L)" "length L + 1 < 2 ^ 16"
    "RTA_PAYLOAD l = int (length (encs (node_attrs nb 1 L)))" "RTA_DATA l = encs (node_attrs nb 1 L) @ rest"
  shows "table_ok (parse_rtattr_nested (length L) l) nb L"
  unfolding table_ok_def
proof (intro conjI allI impI)
  show "length (parse_rtattr_nested (length L) l) = length L + 1"
    by (simp add: parse_rtattr_nested_def parse_rtattr_def length_parse_loop)
  fix j assume j: "j < length L"
  have "first_attr (j + 1) (node_attrs nb 1 L) = Some (nb (L ! j))" using first_node_attr [OF j, of 1 nb] assms(2) by (simp add: add.commute)
  then show "\<exists>rta rest. parse_rtattr_nested (length L) l ! (j + 1) = Some rta \<and>
      RTA_PAYLOAD rta = int (length (nb (L ! j))) \<and> RTA_DATA rta = nb (L ! j) @ rest"
    using parse_rtattr_entry [OF assms(1), of "j + 1" "length L" rest] j assms(3,4) by (simp add: parse_rtattr_nested_def)
qed

section \<open>Printing reads the expression back\<close>

text \<open>The children of every group stand together in the flat list.\<close>

fun laid :: "nat list \<Rightarrow> etree list \<Rightarrow> bool" where
  "laid L [] = True"
| "laid L (ENode a cs # ts) \<longleftrightarrow>
     (cs \<noteq> [] \<longrightarrow> (\<exists>i. take (length cs) (drop i L) = map eroot cs)) \<and> laid L cs \<and> laid L ts"

lemma laid_desc: "laid (X @ desc ts @ Y) ts"
proof (induction ts arbitrary: X Y rule: desc.induct)
  case (2 a cs ts)
  have "take (length cs) (drop (length X) (X @ desc (ENode a cs # ts) @ Y)) = map eroot cs" by simp
  moreover have "laid (X @ desc (ENode a cs # ts) @ Y) cs" using 2(1) [of "X @ map eroot cs" "desc ts @ Y"] by simp
  moreover have "laid (X @ desc (ENode a cs # ts) @ Y) ts" using 2(2) [of "X @ map eroot cs @ desc cs" Y] by simp
  ultimately show ?case by (metis laid.simps(2))
qed simp

text \<open>The text of an expression: \<open>ltxt\<close> is the text of a match, \<open>p\<close> the depth.\<close>

fun tree_text :: "eheap \<Rightarrow> (nat \<Rightarrow> string) \<Rightarrow> nat \<Rightarrow> etree list \<Rightarrow> string" where
  "tree_text h ltxt p [] = []"
| "tree_text h ltxt p (ENode a cs # ts) =
     (if en_inverted (h a) then ''NOT '' else []) @
     (if cs \<noteq> [] then ''('' @ [newline] @ indent (p + 1) @ tree_text h ltxt (p + 1) cs @ indent p @ '') ''
      else ltxt a @ (if ts = [] then [] else indent p)) @
     (if ts = [] then [] else (if en_relation (h a) = 1 then ''AND '' else ''OR '') @ tree_text h ltxt p ts)"

lemma node_flags_read:
  assumes "en_relation t \<in> {0, 1, 2}"
  shows "node_flags t AND TCF_EM_INVERT \<noteq> 0 \<longleftrightarrow> en_inverted t" "node_flags t AND TCF_EM_REL_MASK = of_int (en_relation t)"
proof -
  have "(0 OR 4 :: u16) AND 4 = 4" "(1 OR 4 :: u16) AND 4 = 4" "(2 OR 4 :: u16) AND 4 = 4" "(0 :: u16) AND 4 = 0" "(1 :: u16) AND 4 = 0" "(2 :: u16) AND 4 = 0"
    "(0 OR 4 :: u16) AND 3 = 0" "(1 OR 4 :: u16) AND 3 = 1" "(2 OR 4 :: u16) AND 3 = 2" "(0 :: u16) AND 3 = 0" "(1 :: u16) AND 3 = 1" "(2 :: u16) AND 3 = 2"
    by simp_all
  then show "node_flags t AND TCF_EM_INVERT \<noteq> 0 \<longleftrightarrow> en_inverted t" "node_flags t AND TCF_EM_REL_MASK = of_int (en_relation t)"
    using assms by (auto simp: node_flags_def TCF_EM_INVERT_def TCF_EM_REL_MASK_def)
qed

lemma hdr_fields: "hdr_kind (ematch_hdr k f) = k" "hdr_flags (ematch_hdr k f) = f"
  by (simp_all add: hdr_kind_def hdr_flags_def ematch_hdr_def peek16_def)

lemma segment_Cons:
  assumes "take (Suc n) (drop i L) = x # xs"
  shows "i < length L" "L ! i = x" "take n (drop (Suc i) L) = xs"
proof -
  show i: "i < length L" using assms by (cases "i < length L") simp_all
  then have "drop i L = L ! i # drop (Suc i) L" by (simp add: Cons_nth_drop_Suc)
  then show "L ! i = x" "take n (drop (Suc i) L) = xs" using assms by simp_all
qed

lemma print_seq_ok:
  assumes tb: "table_ok tb (node_bytes num dat h) L" and num: "numbered h L" and ok: "nodes_ok file st num dat ltxt h L"
    and L: "length L < 2 ^ 16" "distinct L"
  shows "ts \<noteq> [] \<Longrightarrow> take (length ts) (drop i L) = map eroot ts \<Longrightarrow> rep h ts \<Longrightarrow> laid L ts \<Longrightarrow> length ts + length (desc ts) < k \<Longrightarrow>
    print_ematch_seq lk file k tb (i + 1) p st = Some (0, tree_text h ltxt p ts, st)"
proof (induction ts arbitrary: i k p rule: desc.induct)
  case (2 a cs ts)
  obtain m where k: "k = Suc m" using 2(7) by (cases k) auto
  have i: "i < length L" "L ! i = a" "take (length ts) (drop (i + 1) L) = map eroot ts"
    using segment_Cons [of "length ts" i L a "map eroot ts"] 2(4) by simp_all
  obtain rta rest where rta: "tb ! Suc i = Some rta" "RTA_PAYLOAD rta = int (length (node_bytes num dat h a))"
    "RTA_DATA rta = node_bytes num dat h a @ rest" using tb i by (auto simp: table_ok_def)
  have r: "en_relation (h a) \<in> {0, 1, 2}" using ok i by (force simp: nodes_ok_def)
  have len: "Suc i < length tb" using tb i by (simp add: table_ok_def)
  let ?kd = "if cs \<noteq> [] then 0 else num a"
  let ?d = "if cs \<noteq> [] then le_bytes 4 (of_int (en_child_ref (h a)) :: u32) else dat a"
  have child: "en_child (h a) = (if cs = [] then None else Some (eroot (hd cs)))" using 2(5) by simp
  have nb: "node_bytes num dat h a = ematch_hdr ?kd (node_flags (h a)) @ ?d" using child by (simp add: node_bytes_def)
  have parts: "take 8 (RTA_DATA rta) = ematch_hdr ?kd (node_flags (h a))" "drop 8 (RTA_DATA rta) = ?d @ rest"
    "RTA_PAYLOAD rta - 8 = int (length ?d)" using rta(2,3) nb by (simp_all add: length_hdr)
  let ?neg = "if en_inverted (h a) then ''NOT '' else []"
  let ?body = "if cs \<noteq> [] then ''('' @ [newline] @ indent (p + 1) @ tree_text h ltxt (p + 1) cs @ indent p @ '') ''
      else ltxt a @ (if ts = [] then [] else indent p)"
  have rel0: "(of_int (en_relation (h a)) :: u16) = 0 \<longleftrightarrow> ts = []" "(of_int (en_relation (h a)) :: u16) = 1 \<longleftrightarrow> en_relation (h a) = 1"
    "(of_int (en_relation (h a)) :: u16) = 2 \<longleftrightarrow> en_relation (h a) = 2" using r 2(5) by (auto split: if_splits)
  have rest: "print_ematch_seq lk file m tb (Suc (Suc i)) p st = Some (0, tree_text h ltxt p ts, st)" if "ts \<noteq> []"
  proof -
    from 2(2) [OF that i(3), of m p] show ?thesis using 2(5-7) k by simp
  qed
  show ?case
  proof (cases "cs = []")
    case False
    obtain q where q: "take (length cs) (drop q L) = map eroot cs" using 2(6) False by auto
    have ql: "q < length L" "L ! q = eroot (hd cs)" using q False segment_Cons [of "length cs - 1" q L "eroot (hd cs)" "map eroot (tl cs)"] by (cases cs; simp)+
    have "en_child_ref (h a) = en_index (h (eroot (hd cs)))" using num i child False by (auto simp: numbered_def)
    also have "\<dots> = int q" using num ql by (auto simp: numbered_def)
    finally have ref: "?d = le_bytes 4 (of_nat q :: u32)" using False by simp
    have r1: "unat (peek32 0 (?d @ rest) + 1) = Suc q"
    proof -
      have "peek32 0 (?d @ rest) = of_nat q" unfolding ref by (simp add: peek32_def)
      then have "peek32 0 (?d @ rest) + 1 = of_nat (Suc q)" by simp
      moreover have "unat (of_nat (Suc q) :: u32) = Suc q" using ql(1) L(1) by (intro unat_of_nat_eq) simp
      ultimately show ?thesis by (simp only:)
    qed
    have r1': "unat (peek32 0 (le_bytes 4 (of_int (en_child_ref (h a)) :: u32) @ rest) + 1) = Suc q"
      using r1 False by (simp only: if_True simp_thms)
    have r2: "print_ematch_seq lk file m tb (Suc q) (Suc p) st = Some (0, tree_text h ltxt (Suc p) cs, st)"
      using 2(1) [OF False q, of m "p + 1"] 2(5-7) k by simp
    show ?thesis
      using False rest rel0 r 2(5)
      by (simp add: k rta(1) len parts r1' r2 hdr_fields node_flags_read [OF r] Let_def not_le split: if_splits)
  next
    case True
    have lf: "leaf_ok file st (h a) (num a) (dat a) (ltxt a)" using ok i child True by (force simp: nodes_ok_def)
    then have nz: "num a \<noteq> 0" unfolding leaf_ok_def by blast
    obtain e body where e: "get_ematch_kind_num lk file (num a) st = Some (Some e, st)"
      "\<forall>hdr rest. eu_print_eopt e hdr (dat a @ rest) (int (length (dat a))) = (0, body)" "ltxt a = eu_kind e @ ''('' @ body @ '')'' @ [newline]"
      using leaf_ok_kind [OF lf] by blast
    show ?thesis
      using True rest rel0 r 2(5) nz
      by (simp add: k rta(1) len parts e hdr_fields node_flags_read [OF r] Let_def not_le split: if_splits)
  qed
qed simp

section \<open>From the expression to the kernel and back\<close>

definition expr_size :: "(nat \<Rightarrow> u8 list) \<Rightarrow> eheap \<Rightarrow> nat list \<Rightarrow> nat" where
  "expr_size dat h L = sum_list (map (\<lambda>a. 12 + (if en_child (h a) \<noteq> None then 4 else length (dat a))) L)"

lemma length_node_attrs: "length (encs (node_attrs (node_bytes num dat h) i L)) = expr_size dat h L"
  by (induction L arbitrary: i) (simp_all add: expr_size_def node_bytes_def length_hdr)

lemma expr_size_length: "12 * length L \<le> expr_size dat h L"
  by (induction L) (simp_all add: expr_size_def)

lemma expr_size_grows: "grows h h' \<Longrightarrow> expr_size dat h' L = expr_size dat h L"
  by (simp add: expr_size_def grows_def)

lemma nodes_ok_grows: "grows h h' \<Longrightarrow> nodes_ok file st num dat ltxt h L \<Longrightarrow> nodes_ok file st num dat ltxt h' L"
  by (simp add: nodes_ok_def grows_def leaf_ok_def)

lemma tree_text_grows: "grows h h' \<Longrightarrow> tree_text h' ltxt p ts = tree_text h ltxt p ts"
  by (induction h ltxt p ts rule: tree_text.induct) (simp_all add: grows_def)

lemma add_empty:
  assumes "nl_msg hdr as n" "16384 \<le> length n" "hdr + length (encs as) + 4 + length d \<le> 16384" "4 dvd length d"
  shows "\<exists>n'. addattr_l n MAX_MSG t d = (0, n') \<and> nl_msg hdr (as @ [(t, d, [])]) n' \<and> length n' = length n \<and>
    take (hdr - 4) (drop 4 n') = take (hdr - 4) (drop 4 n)"
proof -
  have mx: "unat MAX_MSG = 16384" by (simp add: MAX_MSG_def)
  have "(4 + length d) mod 4 = 0" using assms(4) by (simp add: mod_eq_0_iff_dvd)
  note al = align4_self [OF this]
  obtain p n' where n': "addattr_l n MAX_MSG t d = (0, n')" "nl_msg hdr (as @ [(t, d, p)]) n'" "length n' = length n"
    "take (hdr - 4) (drop 4 n') = take (hdr - 4) (drop 4 n)"
    using addattr_l_msg(2) [OF assms(1), of d MAX_MSG t] assms(2,3) mx al by auto
  have "p = []" using n'(2) al by (simp add: nl_msg_def)
  then show ?thesis using n' by simp
qed

lemma parse_ematch_msg:
  assumes "ts \<noteq> []" "rep h ts" "closed_subs h ts" "list_at h (map eroot ts)" "distinct (map eroot ts @ desc ts)"
    and ok: "nodes_ok file st num dat ltxt h (map eroot ts @ desc ts)"
    and k: "2 * length (map eroot ts @ desc ts) < k"
    and m: "nl_msg hdr as n" "16384 \<le> length n" "hdr + length (encs as) + 16 + expr_size dat h (map eroot ts @ desc ts) \<le> 16384"
  defines "L \<equiv> map eroot ts @ desc ts"
  shows "\<exists>h' n'. parse_ematch lk file k (Some (Some (eroot (hd ts)), h)) tca n st = Some (0, n', st) \<and> grows h h' \<and> numbered h' L \<and>
    list_all attr_ok (node_attrs (node_bytes num dat h') 1 L) \<and>
    nl_msg hdr (as @ [(tca, encs [(TCA_EMATCH_TREE_HDR, le_bytes 2 (of_nat (length L) :: u16) @ le_bytes 2 TCF_EM_PROG_TC, []),
      (TCA_EMATCH_TREE_LIST, encs (node_attrs (node_bytes num dat h') 1 L), [])], [])]) n'"
proof -
  have hd: "hd (map eroot ts) = eroot (hd ts)" using assms(1) by (simp add: hd_map)
  have "flat_ok k h (map eroot ts) ts" by (rule flatten_tree_ok) (use assms in simp_all)
  then obtain h' where h': "flatten_tree k h (eroot (hd ts)) (eroot (hd ts)) = Some (int (length L), h')"
    "list_at h' L" "grows h h'" "numbered h' L" unfolding flat_ok_def hd L_def by auto
  let ?hdr = "le_bytes 2 (of_nat (length L) :: u16) @ le_bytes 2 TCF_EM_PROG_TC"
  let ?H = "(TCA_EMATCH_TREE_HDR, ?hdr, [])" and ?A = "node_attrs (node_bytes num dat h') 1 L"
  have sz: "length (encs ?A) = expr_size dat h L" by (simp add: length_node_attrs expr_size_grows [OF h'(3)])
  obtain n1 where n1: "addattr_l n MAX_MSG tca [] = (0, n1)" "nl_msg hdr (as @ [(tca, [], [])]) n1" "length n1 = length n"
    using add_empty [OF m(1,2), of "[]" tca] m(3) by auto
  obtain n2 where n2: "addattr_l n1 MAX_MSG TCA_EMATCH_TREE_HDR ?hdr = (0, n2)" "nl_msg hdr ((as @ [(tca, [], [])]) @ [?H]) n2" "length n2 = length n"
    using add_empty [OF n1(2), of ?hdr TCA_EMATCH_TREE_HDR] m(2,3) n1(3) by auto
  obtain n3 where n3: "addattr_l n2 MAX_MSG TCA_EMATCH_TREE_LIST [] = (0, n3)"
    "nl_msg hdr (((as @ [(tca, [], [])]) @ [?H]) @ [(TCA_EMATCH_TREE_LIST, [], [])]) n3" "length n3 = length n"
    using add_empty [OF n2(2), of "[]" TCA_EMATCH_TREE_LIST] m(2,3) n2(3) by auto
  have hdL: "hd L = eroot (hd ts)" using assms(1) by (simp add: L_def hd_append hd_map)
  obtain n4 where n4: "parse_tree lk file k h' (Some (eroot (hd ts))) 1 n3 st = Some (0, n4, st)"
    "nl_msg hdr ((((as @ [(tca, [], [])]) @ [?H]) @ [(TCA_EMATCH_TREE_LIST, [], [])]) @ ?A) n4" "length n4 = length n"
  proof -
    have fuel: "length L \<le> k" using k by (simp add: L_def)
    have room: "16384 \<le> length n3"
      "hdr + length (encs (((as @ [(tca, [], [])]) @ [?H]) @ [(TCA_EMATCH_TREE_LIST, [], [])])) + length (encs ?A) \<le> 16384"
      using m(2,3) n3(3) sz by (simp_all add: L_def)
    from parse_tree_ok [OF h'(2) nodes_ok_grows [OF h'(3) ok [folded L_def]] fuel n3(2) room, of lk]
    show thesis unfolding hdL n3(3) of_nat_1 using that by blast
  qed
  let ?tl = "hdr + length (encs (as @ [(tca, [], []), ?H]))"
  have m4: "nl_msg hdr ((as @ [(tca, [], []), ?H]) @ [(TCA_EMATCH_TREE_LIST, [], [])] @ ?A) n4" using n4(2) by (simp del: enc.simps)
  have small: "length (encs ?A) + 4 < 2 ^ 16" using sz m(3) by (simp add: L_def)
  let ?n5 = "poke ?tl (le_bytes 2 (of_nat (4 + length ([] :: u8 list) + length (encs ?A)) :: u16)) n4"
  have w5: "NLMSG_TAIL n4 = ?tl + 4 + length ([] :: u8 list) + length (encs ?A)"
    "nl_msg hdr ((as @ [(tca, [], []), ?H]) @ [(TCA_EMATCH_TREE_LIST, [] @ encs ?A, [])]) ?n5"
    using widen_msg [OF m4] small by simp_all
  let ?X = "[?H, (TCA_EMATCH_TREE_LIST, encs ?A, [])]"
  have m5: "nl_msg hdr (as @ [(tca, [], [])] @ ?X) ?n5" using w5(2) by (simp del: enc.simps)
  have smallX: "length ([] :: u8 list) + length (encs ?X) + 4 < 2 ^ 16" using sz m(3) by (simp add: L_def)
  let ?n6 = "poke (hdr + length (encs as)) (le_bytes 2 (of_nat (4 + length ([] :: u8 list) + length (encs ?X)) :: u16)) ?n5"
  note w6 = widen_msg [OF m5 smallX]
  have tails: "NLMSG_TAIL n = hdr + length (encs as)" "NLMSG_TAIL n2 = ?tl"
    using NLMSG_TAIL_msg [OF m(1)] NLMSG_TAIL_msg [OF n2(2)] by simp_all
  have "parse_ematch lk file k (Some (Some (eroot (hd ts)), h)) tca n st = Some (0, ?n6, st)"
    using h'(1) n1(1) n2(1) n3(1) n4(1) tails w5(1) w6(1)
    by (simp add: parse_ematch_def Let_def del: encs_simps enc.simps)
  moreover have "list_all attr_ok ?A" using n4(2) by (simp add: nl_msg_def)
  moreover have "nl_msg hdr (as @ [(tca, encs ?X, [])]) ?n6" using w6(2) by (simp del: encs_simps)
  ultimately show ?thesis using h'(3,4) by blast
qed

text \<open>
  C36: An extended match is printed as it was entered. For every expression in memory whose matches have
  kinds that are loaded already and registered in the map of kinds, and whose modules write their data as one aligned block,
  \<^verbatim>\<open>parse_ematch\<close> flattens the nodes, numbers them and sends them as nested attributes, and
  \<^verbatim>\<open>print_ematch\<close>, given the attribute that the kernel's parser finds in the message, prints exactly the
  expression, with its negations, connectives and parentheses in their places, whatever the nesting.
\<close>

theorem ematch_printed_as_entered:
  assumes "ts \<noteq> []" "rep h ts" "closed_subs h ts" "list_at h (map eroot ts)" "distinct (map eroot ts @ desc ts)"
    and "nodes_ok file st num dat ltxt h (map eroot ts @ desc ts)" "2 * length (map eroot ts @ desc ts) < k"
    and "nl_msg hdr as n" "16384 \<le> length n" "hdr + length (encs as) + 16 + expr_size dat h (map eroot ts @ desc ts) \<le> 16384"
    and "first_attr (unat tca) as = None" "unat tca \<le> mx"
  shows "\<exists>n' rta. parse_ematch lk file k (Some (Some (eroot (hd ts)), h)) tca n st = Some (0, n', st) \<and>
    fst (parse_rtattr mx (drop hdr n') (uint (nlmsg_len n') - int hdr)) ! unat tca = Some rta \<and>
    print_ematch True lk file k rta st = Some (0, newline # ''  '' @ tree_text h ltxt 1 ts, st)"
proof -
  let ?L = "map eroot ts @ desc ts"
  let ?hdr = "le_bytes 2 (of_nat (length ?L) :: u16) @ le_bytes 2 TCF_EM_PROG_TC"
  obtain h' n' where run: "parse_ematch lk file k (Some (Some (eroot (hd ts)), h)) tca n st = Some (0, n', st)" "grows h h'"
    "numbered h' ?L" "list_all attr_ok (node_attrs (node_bytes num dat h') 1 ?L)"
    "nl_msg hdr (as @ [(tca, encs [(TCA_EMATCH_TREE_HDR, ?hdr, []), (TCA_EMATCH_TREE_LIST, encs (node_attrs (node_bytes num dat h') 1 ?L), [])], [])]) n'"
    using parse_ematch_msg [OF assms(1-10), of lk tca] by blast
  let ?A = "node_attrs (node_bytes num dat h') 1 ?L"
  let ?X = "[(TCA_EMATCH_TREE_HDR, ?hdr, []), (TCA_EMATCH_TREE_LIST, encs ?A, [])]"
  have "12 * length ?L \<le> 16384" using expr_size_length [of ?L dat h] assms(10) by linarith
  then have L: "length ?L + 1 < 2 ^ 16" by simp
  have "first_attr (unat tca) (as @ [(tca, encs ?X, [])]) = Some (encs ?X)" using assms(11) by (simp add: first_attr_snoc del: encs_simps)
  then obtain rta rest where rta: "fst (parse_rtattr mx (drop hdr n') (uint (nlmsg_len n') - int hdr)) ! unat tca = Some rta"
    "RTA_PAYLOAD rta = int (length (encs ?X))" "RTA_DATA rta = encs ?X @ rest" using msg_attr [OF run(5) assms(12)] by blast
  have len: "length (encs ?A) < 16384"
    using assms(10) by (simp only: length_node_attrs expr_size_grows [OF run(2)])
  have "length (encs ?A) mod 4 = 0" by (rule length_encs_mod [OF run(4)])
  then have "(4 + length (encs ?A)) mod 4 = 0" by presburger
  then have Xok: "list_all attr_ok ?X" using len align4_self by (simp add: align4_def [of 8])
  have u: "unat TCA_EMATCH_TREE_HDR = 1" "unat TCA_EMATCH_TREE_LIST = 2" by (simp_all add: TCA_EMATCH_TREE_HDR_def TCA_EMATCH_TREE_LIST_def)
  have fa: "first_attr 1 ?X = Some ?hdr" "first_attr 2 ?X = Some (encs ?A)" by (simp_all add: first_attr_def u del: encs_simps)
  note entry = parse_rtattr_entry [OF Xok, where mx = TCA_EMATCH_TREE_MAX and r = rest]
  obtain hr r1 where hr: "parse_rtattr_nested TCA_EMATCH_TREE_MAX rta ! 1 = Some hr" "RTA_PAYLOAD hr = int (length ?hdr)" "RTA_DATA hr = ?hdr @ r1"
    using entry [of 1] fa(1) rta(2,3) by (auto simp: parse_rtattr_nested_def TCA_EMATCH_TREE_MAX_def simp del: encs_simps)
  obtain l r2 where l: "parse_rtattr_nested TCA_EMATCH_TREE_MAX rta ! 2 = Some l" "RTA_PAYLOAD l = int (length (encs ?A))" "RTA_DATA l = encs ?A @ r2"
    using entry [of 2] fa(2) rta(2,3) by (auto simp: parse_rtattr_nested_def TCA_EMATCH_TREE_MAX_def simp del: encs_simps)
  have pay: "\<not> RTA_PAYLOAD hr < 4" using hr(2) by simp
  have nm: "peek16 0 (RTA_DATA hr) = of_nat (length ?L)" using hr(3) by (simp add: peek16_def)
  have un: "unat (of_nat (length ?L) :: u16) = length ?L" using L by (intro unat_of_nat_eq) simp
  have pos: "0 < (of_nat (length ?L) :: u16)" using un assms(1) by (simp add: word_less_nat_alt del: length_append)
  have "table_ok (parse_rtattr_nested (length ?L) l) (node_bytes num dat h') ?L" by (rule nested_table [OF run(4) L l(2,3)])
  from print_seq_ok [OF this run(3) nodes_ok_grows [OF run(2) assms(6)] _ assms(5) assms(1) _ rep_grows [OF assms(2) run(2)], of 0 k lk 1]
  have "print_ematch_seq lk file k (parse_rtattr_nested (length ?L) l) 1 1 st = Some (0, tree_text h' ltxt 1 ts, st)"
    using L laid_desc [of "map eroot ts" ts "[]"] assms(7) by simp
  then have "print_ematch True lk file k rta st = Some (0, newline # ''  '' @ tree_text h ltxt 1 ts, st)"
    using hr(1) pay l(1) nm un pos tree_text_grows [OF run(2), of ltxt 1 ts]
    by (simp add: print_ematch_def print_ematch_list_def u Let_def del: length_append of_nat_add)
  then show ?thesis using run(1) rta(1) by blast
qed

end
