(* ===== verification/CDouble.thy ===== *)
theory CDouble
  imports Complex_Main CStr
begin

text \<open>
  The C type \<^verbatim>\<open>double\<close> of a machine with IEEE 754 arithmetic in the default rounding mode: a
  finite value is a rational number with a 53-bit significand, an operation rounds the exact
  result to the nearest such number, ties to even. The sign of zero is not kept; nothing the
  sources do with a zero depends on it. \<^verbatim>\<open>strtod\<close> is the correctly rounding one of the C library.
\<close>

section \<open>Rounding\<close>

datatype cdouble = Fin rat | Inf bool | NaN

definition pow2 :: "int \<Rightarrow> rat" where
  "pow2 k = (if 0 \<le> k then 2 ^ nat k else 1 / 2 ^ nat (- k))"

fun bit_len :: "nat \<Rightarrow> nat" where
  "bit_len n = (if n = 0 then 0 else Suc (bit_len (n div 2)))"

declare bit_len.simps [simp del]

text \<open>The exponent of the leading binary digit of a positive number.\<close>

definition binary_exponent :: "rat \<Rightarrow> int" where
  "binary_exponent q =
     (let (a, b) = quotient_of q; k = int (bit_len (nat a)) - int (bit_len (nat b))
      in if pow2 k \<le> q then k else k - 1)"

definition round_even :: "rat \<Rightarrow> int" where
  "round_even x =
     (let f = \<lfloor>x\<rfloor>; r = x - of_int f
      in if r < 1 / 2 then f else if r > 1 / 2 then f + 1 else if even f then f else f + 1)"

definition double_ulp :: "rat \<Rightarrow> rat" where
  "double_ulp q = pow2 (if binary_exponent \<bar>q\<bar> < -1022 then -1074 else binary_exponent \<bar>q\<bar> - 52)"

definition round_double :: "rat \<Rightarrow> cdouble" where
  "round_double q =
     (if q = 0 then Fin 0
      else let r = of_int (round_even (q / double_ulp q)) * double_ulp q
           in if \<bar>r\<bar> \<ge> pow2 1024 then Inf (r < 0) else Fin r)"

section \<open>Operations\<close>

fun d_mul :: "cdouble \<Rightarrow> cdouble \<Rightarrow> cdouble" where
  "d_mul (Fin a) (Fin b) = round_double (a * b)"
| "d_mul (Inf s) (Inf t) = Inf (s \<noteq> t)"
| "d_mul (Inf s) (Fin b) = (if b = 0 then NaN else Inf (s \<noteq> (b < 0)))"
| "d_mul (Fin a) (Inf t) = (if a = 0 then NaN else Inf (t \<noteq> (a < 0)))"
| "d_mul _ _ = NaN"

fun d_div :: "cdouble \<Rightarrow> cdouble \<Rightarrow> cdouble" where
  "d_div (Fin a) (Fin b) = (if b = 0 then (if a = 0 then NaN else Inf (a < 0)) else round_double (a / b))"
| "d_div (Inf s) (Fin b) = Inf (s \<noteq> (b < 0))"
| "d_div (Fin a) (Inf t) = Fin 0"
| "d_div _ _ = NaN"

fun d_sub :: "cdouble \<Rightarrow> cdouble \<Rightarrow> cdouble" where
  "d_sub (Fin a) (Fin b) = round_double (a - b)"
| "d_sub (Inf s) (Inf t) = (if s = t then NaN else Inf s)"
| "d_sub (Inf s) (Fin b) = Inf s"
| "d_sub (Fin a) (Inf t) = Inf (\<not> t)"
| "d_sub _ _ = NaN"

fun d_less :: "cdouble \<Rightarrow> cdouble \<Rightarrow> bool" where
  "d_less (Fin a) (Fin b) = (a < b)"
| "d_less (Inf s) (Inf t) = (s \<and> \<not> t)"
| "d_less (Inf s) (Fin b) = s"
| "d_less (Fin a) (Inf t) = (\<not> t)"
| "d_less _ _ = False"

fun d_le :: "cdouble \<Rightarrow> cdouble \<Rightarrow> bool" where
  "d_le (Fin a) (Fin b) = (a \<le> b)"
| "d_le (Inf s) (Inf t) = (s \<or> \<not> t)"
| "d_le (Inf s) (Fin b) = s"
| "d_le (Fin a) (Inf t) = (\<not> t)"
| "d_le _ _ = False"

fun d_fabs :: "cdouble \<Rightarrow> cdouble" where
  "d_fabs (Fin a) = Fin \<bar>a\<bar>"
| "d_fabs (Inf s) = Inf False"
| "d_fabs NaN = NaN"

fun d_rint :: "cdouble \<Rightarrow> cdouble" where
  "d_rint (Fin a) = Fin (of_int (round_even a))"
| "d_rint x = x"

definition d_of_word :: "'a::len word \<Rightarrow> cdouble" where
  "d_of_word w = round_double (of_int (uint w))"

text \<open>
  The conversion to an unsigned type drops the fraction. The C standard leaves a result that the
  type cannot hold undefined; \<open>None\<close> stands for it.
\<close>

definition d_trunc :: "rat \<Rightarrow> int" where
  "d_trunc q = (if 0 \<le> q then \<lfloor>q\<rfloor> else \<lceil>q\<rceil>)"

fun word_of_double :: "cdouble \<Rightarrow> ('a::len word) option" where
  "word_of_double (Fin q) =
     (if 0 \<le> d_trunc q \<and> d_trunc q < 2 ^ LENGTH('a) then Some (of_int (d_trunc q)) else None)"
| "word_of_double _ = None"

section \<open>Reading: strtod\<close>

definition scan_exponent :: "char \<Rightarrow> string \<Rightarrow> int \<times> string" where
  "scan_exponent c s =
     (case s of
        [] \<Rightarrow> (0, s)
      | x # r \<Rightarrow>
          let (neg, r1) = scan_sign r; (n, r2) = scan_digits 10 0 r1
          in if to_lower x = c \<and> starts_digit 10 r1 then (if neg then - int n else int n, r2) else (0, s))"

text \<open>Digits with an optional point; at least one digit on either side.\<close>

definition scan_mantissa :: "nat \<Rightarrow> string \<Rightarrow> (rat \<times> string) option" where
  "scan_mantissa b s =
     (let (n, r) = scan_digits b 0 s
      in case r of
           x # r1 \<Rightarrow>
             if x = CHR ''.'' \<and> (starts_digit b s \<or> starts_digit b r1)
             then let (m, r2) = scan_digits b n r1
                  in Some (of_nat m / of_nat b ^ (length r1 - length r2), r2)
             else if starts_digit b s then Some (of_nat n, r) else None
         | [] \<Rightarrow> if starts_digit b s then Some (of_nat n, r) else None)"

definition rat_pow :: "rat \<Rightarrow> int \<Rightarrow> rat" where
  "rat_pow b e = (if 0 \<le> e then b ^ nat e else 1 / b ^ nat (- e))"

definition scan_float :: "nat \<Rightarrow> rat \<Rightarrow> char \<Rightarrow> string \<Rightarrow> (rat \<times> string) option" where
  "scan_float b eb c s =
     (case scan_mantissa b s of
        None \<Rightarrow> None
      | Some (m, r) \<Rightarrow> let (e, r1) = scan_exponent c r in Some (m * rat_pow eb e, r1))"

text \<open>The optional parenthesis after \<^verbatim>\<open>nan\<close>.\<close>

definition scan_nan_tag :: "string \<Rightarrow> string" where
  "scan_nan_tag s =
     (case s of
        x # r \<Rightarrow>
          let t = dropWhile (\<lambda>c. digit_val c < 36 \<or> c = CHR ''_'') r
          in if x = CHR ''('' \<and> t \<noteq> [] \<and> hd t = CHR '')'' then tl t else s
      | [] \<Rightarrow> s)"

definition has_prefix :: "string \<Rightarrow> string \<Rightarrow> bool" where
  "has_prefix p s \<longleftrightarrow> map to_lower (take (length p) s) = p"

definition scan_hex_float :: "string \<Rightarrow> (rat \<times> string) option" where
  "scan_hex_float s = (if has_prefix ''0x'' s then scan_float 16 2 (CHR ''p'') (drop 2 s) else None)"

definition strtod :: "string \<Rightarrow> cdouble \<times> string" where
  "strtod s =
     (let (neg, s1) = scan_sign (dropWhile isspace s)
      in if has_prefix ''infinity'' s1 then (Inf neg, drop 8 s1)
         else if has_prefix ''inf'' s1 then (Inf neg, drop 3 s1)
         else if has_prefix ''nan'' s1 then (NaN, scan_nan_tag (drop 3 s1))
         else case scan_hex_float s1 of
                Some (q, r) \<Rightarrow> (round_double (if neg then - q else q), r)
              | None \<Rightarrow>
                  (case scan_float 10 10 (CHR ''e'') s1 of
                     Some (q, r) \<Rightarrow> (round_double (if neg then - q else q), r)
                   | None \<Rightarrow> (Fin 0, s)))"

section \<open>Printing\<close>

text \<open>\<^verbatim>\<open>%.0f\<close> and \<^verbatim>\<open>%.1f\<close> of a non-negative number, and \<^verbatim>\<open>%g\<close> of a whole one.\<close>

definition fmt_f0 :: "rat \<Rightarrow> string" where "fmt_f0 q = fmt_nat (nat (round_even q))"

definition fmt_f1 :: "rat \<Rightarrow> string" where
  "fmt_f1 q = (let n = nat (round_even (10 * q)) in fmt_nat (n div 10) @ ''.'' @ fmt_nat (n mod 10))"

fun strip_zeros :: "nat \<Rightarrow> nat \<Rightarrow> nat \<times> nat" where
  "strip_zeros 0 n = (0, n)"
| "strip_zeros (Suc k) n = (if n mod 10 = 0 then strip_zeros k (n div 10) else (Suc k, n))"

definition pad_left :: "nat \<Rightarrow> string \<Rightarrow> string" where
  "pad_left width s = replicate (width - length s) (CHR ''0'') @ s"

definition fmt_g :: "nat \<Rightarrow> string" where
  "fmt_g v =
     (if v < 1000000 then fmt_nat v
      else let X = length (fmt_nat v) - 1;
               n = nat (round_even (of_nat v / 10 ^ (X - 5)));
               (n1, X1) = (if n = 1000000 then (100000, X + 1) else (n, X));
               (k, f) = strip_zeros 5 (n1 mod 100000)
           in fmt_nat (n1 div 100000) @ (if k = 0 then [] else ''.'' @ pad_left k (fmt_nat f)) @
              ''e+'' @ pad_left 2 (fmt_nat X1))"

section \<open>Exactness\<close>

lemma pow2_pos [simp]: "0 < pow2 k"
  by (simp add: pow2_def)

lemma pow2_neq_0 [simp]: "pow2 k \<noteq> 0"
  using pow2_pos [of k] by linarith

lemma pow2_add: "pow2 (j + k) = pow2 j * pow2 k"
proof -
  have *: "pow2 i = power_int 2 i" for i
    by (cases "0 \<le> i") (simp_all add: pow2_def power_int_def field_simps)
  show ?thesis by (simp add: * power_int_add)
qed

lemma pow2_nat: "pow2 (int n) = 2 ^ n"
  by (simp add: pow2_def)

lemma pow2_mono: "j \<le> k \<Longrightarrow> pow2 j \<le> pow2 k"
proof -
  assume "j \<le> k"
  then have "pow2 k = pow2 j * 2 ^ nat (k - j)" by (simp add: pow2_nat [symmetric] pow2_add [symmetric])
  moreover have "pow2 j * 1 \<le> pow2 j * 2 ^ nat (k - j)"
    by (rule mult_left_mono) (simp_all add: less_imp_le)
  ultimately show ?thesis by simp
qed

lemma pow2_strict_mono: "j < k \<Longrightarrow> pow2 j < pow2 k"
  using pow2_mono [of "j + 1" k] pow2_add [of j 1] pow2_pos [of j] by (simp add: pow2_def)

lemma pow2_less_iff: "pow2 j < pow2 k \<longleftrightarrow> j < k"
  using pow2_strict_mono pow2_mono by (metis not_le)

lemma bit_len_bounds: "0 < n \<Longrightarrow> 2 ^ (bit_len n - 1) \<le> n \<and> n < 2 ^ bit_len n \<and> 0 < bit_len n"
proof (induction n rule: bit_len.induct)
  case (1 n)
  show ?case
  proof (cases "n div 2 = 0")
    case True
    then have "n = 1" using 1(2) by simp
    then show ?thesis by (simp add: bit_len.simps)
  next
    case False
    then have b: "2 ^ (bit_len (n div 2) - 1) \<le> n div 2" "n div 2 < 2 ^ bit_len (n div 2)" "0 < bit_len (n div 2)"
      using 1 by simp_all
    have n: "bit_len n = Suc (bit_len (n div 2))" using 1(2) by (subst bit_len.simps) simp
    have "2 * 2 ^ (bit_len (n div 2) - 1) \<le> n" using b(1) by simp
    then show ?thesis using b n by (cases "bit_len (n div 2)") auto
  qed
qed

lemma binary_exponent_bounds:
  assumes "0 < q" shows "pow2 (binary_exponent q) \<le> q \<and> q < pow2 (binary_exponent q + 1)"
proof -
  obtain a b where ab: "quotient_of q = (a, b)" by fastforce
  then have b: "0 < b" and q: "q = of_int a / of_int b"
    using quotient_of_denom_pos quotient_of_div by blast+
  then have a: "0 < a" using assms by (simp add: zero_less_divide_iff)
  define j where "j = bit_len (nat a)"
  define k where "k = bit_len (nat b)"
  note A = bit_len_bounds [of "nat a", folded j_def] and B = bit_len_bounds [of "nat b", folded k_def]
  have up: "(of_int m :: rat) < pow2 (int i) \<and> pow2 (int i - 1) \<le> of_int m"
    if "2 ^ (i - 1) \<le> nat m" "nat m < 2 ^ i" "0 < i" "0 < m" for m i
  proof -
    have "m < 2 ^ i" "2 ^ (i - 1) \<le> m" using that by (simp_all add: nat_less_iff le_nat_iff)
    then have "(of_int m :: rat) < of_int (2 ^ i)" "(of_int (2 ^ (i - 1)) :: rat) \<le> of_int m"
      by (simp_all only: of_int_less_iff of_int_le_iff)
    moreover have "int i - 1 = int (i - 1)" using that by simp
    ultimately show ?thesis by (simp only: pow2_nat) simp
  qed
  have a2: "(of_int a :: rat) < pow2 (int j)" "pow2 (int j - 1) \<le> of_int a"
    and b2: "(of_int b :: rat) < pow2 (int k)" "pow2 (int k - 1) \<le> of_int b"
    using up [of j a] up [of k b] A B a b by auto
  have "of_int a < pow2 (int j - int k + 1) * of_int b"
  proof -
    have "pow2 (int j) = pow2 (int j - int k + 1) * pow2 (int k - 1)" by (simp add: pow2_add [symmetric])
    also have "\<dots> \<le> pow2 (int j - int k + 1) * of_int b"
      using b2(2) pow2_pos [of "int j - int k + 1"] by (simp add: mult_left_mono)
    finally show ?thesis using a2(1) by simp
  qed
  then have hi: "q < pow2 (int j - int k + 1)" using b by (simp add: q pos_divide_less_eq)
  have "pow2 (int j - int k - 1) * of_int b \<le> of_int a"
  proof -
    have "pow2 (int j - int k - 1) * of_int b \<le> pow2 (int j - int k - 1) * pow2 (int k)"
      using b2(1) pow2_pos [of "int j - int k - 1"] by simp
    also have "\<dots> = pow2 (int j - 1)" by (simp add: pow2_add [symmetric])
    finally show ?thesis using a2(2) by simp
  qed
  then have lo: "pow2 (int j - int k - 1) \<le> q" using b by (simp add: q pos_le_divide_eq)
  show ?thesis using hi lo by (auto simp: binary_exponent_def ab Let_def j_def [symmetric] k_def [symmetric])
qed

lemma round_even_of_int [simp]: "round_even (of_int i) = i"
  by (simp add: round_even_def)

lemma round_even_ge: "of_int i \<le> x \<Longrightarrow> i \<le> round_even x"
proof -
  assume "of_int i \<le> x"
  then have "i \<le> \<lfloor>x\<rfloor>" by (simp add: le_floor_iff)
  then show ?thesis by (auto simp: round_even_def Let_def)
qed

lemma round_even_near: "\<bar>of_int (round_even x) - x\<bar> \<le> 1 / 2"
proof -
  have "of_int \<lfloor>x\<rfloor> \<le> x" "x < of_int \<lfloor>x\<rfloor> + 1" using floor_correct [of x] by simp_all
  then show ?thesis by (simp add: round_even_def Let_def)
qed

text \<open>A number with a significand below \<open>2 ^ 53\<close> is not changed by rounding.\<close>

lemma round_double_exact:
  assumes "q = of_int m * pow2 k" "\<bar>m\<bar> < 2 ^ 53" "- 1074 \<le> k" "k \<le> 900"
  shows "round_double q = Fin q"
proof (cases "q = 0")
  case False
  have "m \<noteq> 0" using False assms(1) by auto
  define e where "e = binary_exponent \<bar>q\<bar>"
  have e: "pow2 e \<le> \<bar>q\<bar>" using binary_exponent_bounds [of "\<bar>q\<bar>"] False by (simp add: e_def)
  have "\<bar>(of_int m :: rat)\<bar> < of_int (2 ^ 53)" using assms(2) by (simp only: of_int_abs [symmetric] of_int_less_iff)
  then have "\<bar>(of_int m :: rat)\<bar> < pow2 53" by (simp add: pow2_def)
  then have q: "\<bar>q\<bar> < pow2 (53 + k)"
    by (simp add: assms(1) abs_mult abs_of_pos [OF pow2_pos] pow2_add)
  then have "e < 53 + k" using e pow2_less_iff by (meson le_less_trans)
  then have "(if e < -1022 then -1074 else e - 52) \<le> k" using assms(3) by auto
  then obtain u where u: "double_ulp q = pow2 u" "u \<le> k" unfolding double_ulp_def e_def by blast
  have "pow2 k = 2 ^ nat (k - u) * pow2 u" using u(2) by (simp add: pow2_nat [symmetric] pow2_add [symmetric])
  then have "q / double_ulp q = of_int (m * 2 ^ nat (k - u))"
    using pow2_pos [of u] unfolding u(1) by (simp add: assms(1))
  then have "of_int (round_even (q / double_ulp q)) * double_ulp q = q"
    using pow2_pos [of u] by (metis round_even_of_int nonzero_eq_divide_eq less_irrefl u(1))
  moreover have "\<bar>q\<bar> < pow2 1024"
    using q pow2_mono [of "53 + k" 1024] assms(4) by simp
  ultimately show ?thesis using False by (simp add: round_double_def)
qed (simp add: round_double_def)

lemma round_double_int: "\<bar>m\<bar> < 2 ^ 53 \<Longrightarrow> round_double (of_int m) = Fin (of_int m)"
  by (rule round_double_exact [of _ m 0]) (simp_all add: pow2_def)

text \<open>Rounding does not cross a power of two.\<close>

lemma round_double_ge:
  assumes "pow2 k \<le> q" "- 1022 \<le> k"
  shows "d_le (Fin (pow2 k)) (round_double q)"
proof -
  have q: "0 < q" using assms(1) pow2_pos [of k] by linarith
  define e where "e = binary_exponent q"
  note e = binary_exponent_bounds [OF q, folded e_def]
  have ke: "k \<le> e" using assms(1) e pow2_less_iff [of k "e + 1"] by linarith
  have ulp: "double_ulp q = pow2 (e - 52)" using q ke assms(2) by (simp add: double_ulp_def e_def)
  have "of_int (2 ^ 52) * pow2 (e - 52) = pow2 e"
    using pow2_add [of 52 "e - 52"] by (simp add: pow2_def)
  then have "of_int (2 ^ 52) * pow2 (e - 52) \<le> q" using e by simp
  then have "of_int (2 ^ 52) \<le> q / pow2 (e - 52)" by (simp only: pos_le_divide_eq [OF pow2_pos])
  then have "2 ^ 52 \<le> round_even (q / pow2 (e - 52))" by (rule round_even_ge)
  then have "(of_int (2 ^ 52) :: rat) \<le> of_int (round_even (q / pow2 (e - 52)))" by (simp only: of_int_le_iff)
  then have "of_int (2 ^ 52) * pow2 (e - 52) \<le> of_int (round_even (q / pow2 (e - 52))) * pow2 (e - 52)"
    by (rule mult_right_mono) (simp add: less_imp_le)
  then have r: "pow2 k \<le> of_int (round_even (q / pow2 (e - 52))) * pow2 (e - 52)"
    using \<open>of_int (2 ^ 52) * pow2 (e - 52) = pow2 e\<close> pow2_mono [OF ke] by linarith
  moreover have "\<not> of_int (round_even (q / pow2 (e - 52))) * pow2 (e - 52) < 0"
    using r pow2_pos [of k] by linarith
  ultimately show ?thesis using q by (simp add: round_double_def ulp Let_def)
qed

section \<open>Reading a printed number\<close>

text \<open>What may follow the digits of a whole number that stands alone.\<close>

definition ends_decimal :: "string \<Rightarrow> bool" where
  "ends_decimal rest \<longleftrightarrow>
     rest = [] \<or> 10 \<le> digit_val (hd rest) \<and> hd rest \<notin> {CHR ''.'', CHR ''e'', CHR ''E'', CHR ''x'', CHR ''X''}"

lemma scan_digits_stop:
  "list_all (\<lambda>c. digit_val c < b) s \<Longrightarrow> rest = [] \<or> b \<le> digit_val (hd rest) \<Longrightarrow>
   scan_digits b acc (s @ rest) = (digits_val b acc s, rest)"
proof (induction s arbitrary: acc)
  case Nil
  then show ?case by (cases rest) simp_all
qed simp

lemma of_char_to_lower:
  "(of_char (to_lower c) :: nat) = (if 65 \<le> (of_char c :: nat) \<and> (of_char c :: nat) \<le> 90 then of_char c + 32 else of_char c)"
  by (simp add: to_lower_def Let_def)

lemma digit_val_low: "digit_val c < 10 \<longleftrightarrow> 48 \<le> (of_char c :: nat) \<and> (of_char c :: nat) \<le> 57"
  by (auto simp: digit_val_def Let_def)

lemma to_lower_e: "to_lower c = CHR ''e'' \<longleftrightarrow> c = CHR ''e'' \<or> c = CHR ''E''"
  unfolding char_eq_nat of_char_to_lower by auto

lemma to_lower_x: "to_lower c = CHR ''x'' \<longleftrightarrow> c = CHR ''x'' \<or> c = CHR ''X''"
  unfolding char_eq_nat of_char_to_lower by auto

lemma digit_no_letter:
  assumes "digit_val c < 10" shows "to_lower c \<noteq> CHR ''i''" "to_lower c \<noteq> CHR ''n''" "to_lower c \<noteq> CHR ''x''"
    "c \<noteq> CHR ''-''" "c \<noteq> CHR ''+''" "\<not> isspace c" "c \<noteq> CHR ''.''"
  using assms unfolding digit_val_low isspace_def char_eq_nat of_char_to_lower by auto

lemma strtod_fmt:
  assumes "ends_decimal rest"
  shows "strtod (fmt_nat n @ rest) = (round_double (of_nat n), rest)"
proof -
  obtain c cs where s: "fmt_nat n = c # cs" by (cases "fmt_nat n") (simp_all add: fmt_nat_def)
  have digits: "list_all (\<lambda>c. digit_val c < 10) (fmt_nat n)"
    using fmt_base_digits [of 10 _ n] by (fastforce simp: list_all_iff fmt_nat_def)
  then have c: "digit_val c < 10" and cs: "list_all (\<lambda>c. digit_val c < 10) cs" by (simp_all add: s)
  have "to_lower x \<noteq> CHR ''x''" if "cs @ rest = x # xs" for x xs
    using that cs assms digit_no_letter(3) by (cases cs) (auto simp: ends_decimal_def to_lower_x)
  then have hex: "scan_hex_float (fmt_nat n @ rest) = None"
    by (cases "cs @ rest") (auto simp: scan_hex_float_def has_prefix_def s)
  have "scan_digits 10 0 (fmt_nat n @ rest) = (n, rest)"
    using scan_digits_stop [OF digits, of rest 0] assms digits_val_fmt_base [of 10 n]
    by (auto simp: ends_decimal_def fmt_nat_def)
  then have "scan_mantissa 10 (fmt_nat n @ rest) = Some (of_nat n, rest)"
    using assms c by (cases rest) (auto simp: scan_mantissa_def ends_decimal_def s)
  moreover have "scan_exponent (CHR ''e'') rest = (0, rest)"
    using assms by (cases rest) (auto simp: scan_exponent_def ends_decimal_def to_lower_e)
  ultimately have "scan_float 10 10 (CHR ''e'') (fmt_nat n @ rest) = Some (of_nat n, rest)"
    by (simp add: scan_float_def rat_pow_def)
  with hex show ?thesis
    using digit_no_letter [OF c] by (simp add: strtod_def s has_prefix_def)
qed

text \<open>Comparisons with a large bound are kept by the operations the parsers apply.\<close>

lemma d_mul_ge:
  assumes "d_le (Fin (pow2 k)) x" "1 \<le> a" "0 \<le> k"
  shows "d_le (Fin (pow2 k)) (d_mul x (Fin a))"
proof (cases x)
  case (Fin q)
  then have q: "pow2 k \<le> q" using assms(1) by simp
  then have "0 \<le> q" using pow2_pos [of k] by linarith
  then have "q \<le> q * a" using assms(2) by (simp add: mult_le_cancel_left1)
  then show ?thesis using round_double_ge [of k "q * a"] q assms(3) Fin by simp
qed (use assms in auto)

lemma d_div8_ge:
  assumes "d_le (Fin (pow2 (k + 3))) x" "0 \<le> k"
  shows "d_le (Fin (pow2 k)) (d_div x (Fin 8))"
proof (cases x)
  case (Fin q)
  then have "pow2 k \<le> q / 8" using assms(1) pow2_add [of k 3] by (simp add: pow2_def)
  then show ?thesis using round_double_ge [of k "q / 8"] assms(2) Fin by simp
qed (use assms in auto)

lemma word_of_double_big:
  assumes "d_le (Fin (pow2 (int LENGTH('a::len)))) x"
  shows "word_of_double x = (None :: 'a word option)"
proof (cases x)
  case (Fin q)
  then have q: "of_int (2 ^ LENGTH('a)) \<le> q" using assms by (simp add: pow2_nat)
  then have "2 ^ LENGTH('a) \<le> \<lfloor>q\<rfloor>" by (simp only: le_floor_iff)
  moreover have "0 \<le> q" using q by (simp add: order_trans [OF _ q])
  ultimately show ?thesis by (simp add: Fin d_trunc_def)
qed simp_all

lemma word_of_double_nat:
  assumes "0 \<le> q" "\<lfloor>q\<rfloor> < 2 ^ LENGTH('a::len)"
  shows "word_of_double (Fin q) = Some (of_int \<lfloor>q\<rfloor> :: 'a word)"
  using assms by (simp add: d_trunc_def)

end
