(* ===== verification/Em_Kinds.thy ===== *)
theory Em_Kinds
  imports Ematch_Msg Utils_Addr CDouble
begin

unbundle bit_operations_syntax

text \<open>
  The modules of three kinds of extended matches: comparison of a field (\<^verbatim>\<open>tc/em_cmp.c\<close>), comparison of
  bytes (\<^verbatim>\<open>tc/em_nbyte.c\<close>) and a masked word (\<^verbatim>\<open>tc/em_u32.c\<close>). The arguments are the words between the
  parentheses. An error is \<open>-EINVAL\<close> and leaves the message as it was; what is told to the user
  about it is not modelled.
\<close>

section \<open>Layers\<close>

definition TCF_LAYER_LINK :: int where "TCF_LAYER_LINK = 0"
definition TCF_LAYER_NETWORK :: int where "TCF_LAYER_NETWORK = 1"
definition TCF_LAYER_TRANSPORT :: int where "TCF_LAYER_TRANSPORT = 2"
definition TCF_LAYER_MAX :: u64 where "TCF_LAYER_MAX = 2"

text \<open>Only the first character is looked at; an empty string has a zero there.\<close>

definition parse_layer :: "string \<Rightarrow> int" where
  "parse_layer b =
     (case b of
        [] \<Rightarrow> INT_MAX
      | c # _ \<Rightarrow> if c = CHR ''l'' then TCF_LAYER_LINK
                 else if c = CHR ''n'' then TCF_LAYER_NETWORK
                 else if c = CHR ''t'' then TCF_LAYER_TRANSPORT
                 else INT_MAX)"

text \<open>What \<^verbatim>\<open>cmp\<close> and \<^verbatim>\<open>nbyte\<close> do with the word after \<^verbatim>\<open>layer\<close>.\<close>

definition layer_arg :: "string \<Rightarrow> u64 option" where
  "layer_arg a =
     (let layer = (if parse_layer a = INT_MAX then bstrtoul a else of_int (parse_layer a))
      in if layer > TCF_LAYER_MAX then None else Some layer)"

section \<open>Comparison of a field\<close>

text \<open>The four bit fields have four bits each.\<close>

record tcf_em_cmp =
  cmp_val :: u32
  cmp_mask :: u32
  cmp_off :: u16
  cmp_align :: "4 word"
  cmp_flags :: "4 word"
  cmp_layer :: "4 word"
  cmp_opnd :: "4 word"

definition two_nibbles :: "4 word \<Rightarrow> 4 word \<Rightarrow> u8" where
  "two_nibbles lo hi = ucast lo OR push_bit 4 (ucast hi)"

definition cmp_bytes :: "tcf_em_cmp \<Rightarrow> u8 list" where
  "cmp_bytes c = le_bytes 4 (cmp_val c) @ le_bytes 4 (cmp_mask c) @ le_bytes 2 (cmp_off c) @
     [two_nibbles (cmp_align c) (cmp_flags c), two_nibbles (cmp_layer c) (cmp_opnd c)]"

definition cmp_of_bytes :: "u8 list \<Rightarrow> tcf_em_cmp" where
  "cmp_of_bytes d = \<lparr>cmp_val = peek32 0 d, cmp_mask = peek32 4 d, cmp_off = peek16 8 d,
     cmp_align = ucast (d ! 10), cmp_flags = ucast (drop_bit 4 (d ! 10)),
     cmp_layer = ucast (d ! 11), cmp_opnd = ucast (drop_bit 4 (d ! 11))\<rparr>"

definition TCF_EM_ALIGN_U8 :: "4 word" where "TCF_EM_ALIGN_U8 = 1"
definition TCF_EM_ALIGN_U16 :: "4 word" where "TCF_EM_ALIGN_U16 = 2"
definition TCF_EM_ALIGN_U32 :: "4 word" where "TCF_EM_ALIGN_U32 = 4"
definition TCF_EM_CMP_TRANS :: "4 word" where "TCF_EM_CMP_TRANS = 1"
definition TCF_EM_OPND_EQ :: "4 word" where "TCF_EM_OPND_EQ = 0"
definition TCF_EM_OPND_GT :: "4 word" where "TCF_EM_OPND_GT = 1"
definition TCF_EM_OPND_LT :: "4 word" where "TCF_EM_OPND_LT = 2"

text \<open>The local variables of the parser.\<close>

record cmp_vars =
  cv_offset :: u64
  cv_layer :: u64
  cv_mask :: u64
  cv_flags :: "4 word"
  cv_opnd :: "4 word"
  cv_value :: u64
  offset_present :: bool
  value_present :: bool

definition cmp_init :: cmp_vars where
  "cmp_init = \<lparr>cv_offset = 0, cv_layer = of_int TCF_LAYER_NETWORK, cv_mask = 0, cv_flags = 0, cv_opnd = 0, cv_value = 0,
     offset_present = False, value_present = False\<rparr>"

fun cmp_args :: "string list \<Rightarrow> cmp_vars \<Rightarrow> cmp_vars option" where
  "cmp_args [] v = Some v"
| "cmp_args (a # as) v =
     (if bstrcmp_eq a ''at'' then
        (case as of
           [] \<Rightarrow> None
         | b # bs \<Rightarrow> if bstrtoul b = -1 then None
                     else cmp_args bs (v\<lparr>cv_offset := bstrtoul b, offset_present := True\<rparr>))
      else if bstrcmp_eq a ''layer'' then
        (case as of
           [] \<Rightarrow> None
         | b # bs \<Rightarrow> (case layer_arg b of
                        None \<Rightarrow> None
                      | Some layer \<Rightarrow> cmp_args bs (v\<lparr>cv_layer := layer\<rparr>)))
      else if bstrcmp_eq a ''mask'' then
        (case as of
           [] \<Rightarrow> None
         | b # bs \<Rightarrow> if bstrtoul b = -1 then None else cmp_args bs (v\<lparr>cv_mask := bstrtoul b\<rparr>))
      else if bstrcmp_eq a ''trans'' then cmp_args as (v\<lparr>cv_flags := cv_flags v OR TCF_EM_CMP_TRANS\<rparr>)
      else if bstrcmp_eq a ''eq'' \<or> bstrcmp_eq a ''gt'' \<or> bstrcmp_eq a ''lt'' then
        (case as of
           [] \<Rightarrow> None
         | b # bs \<Rightarrow>
             let opnd = (if bstrcmp_eq a ''eq'' then TCF_EM_OPND_EQ
                         else if bstrcmp_eq a ''gt'' then TCF_EM_OPND_GT else TCF_EM_OPND_LT)
             in if bstrtoul b = -1 then None
                else cmp_args bs (v\<lparr>cv_opnd := opnd, cv_value := bstrtoul b, value_present := True\<rparr>))
      else None)"

definition cmp_parse :: "string list \<Rightarrow> tcf_em_cmp option" where
  "cmp_parse args =
     (case args of
        [] \<Rightarrow> None
      | a # as \<Rightarrow>
          (case (if bstrcmp_eq a ''u8'' then Some TCF_EM_ALIGN_U8
                 else if bstrcmp_eq a ''u16'' then Some TCF_EM_ALIGN_U16
                 else if bstrcmp_eq a ''u32'' then Some TCF_EM_ALIGN_U32
                 else None) of
             None \<Rightarrow> None
           | Some align \<Rightarrow>
               (case cmp_args as cmp_init of
                  None \<Rightarrow> None
                | Some v \<Rightarrow>
                    if \<not> offset_present v \<or> \<not> value_present v then None
                    else Some \<lparr>cmp_val = ucast (cv_value v), cmp_mask = ucast (cv_mask v), cmp_off = ucast (cv_offset v),
                           cmp_align = align, cmp_flags = cv_flags v, cmp_layer = ucast (cv_layer v), cmp_opnd = cv_opnd v\<rparr>)))"

definition cmp_parse_eopt :: "u8 list \<Rightarrow> u8 list \<Rightarrow> string list \<Rightarrow> int \<times> u8 list" where
  "cmp_parse_eopt n hdr args =
     (case cmp_parse args of
        None \<Rightarrow> (- EINVAL, n)
      | Some c \<Rightarrow> (0, snd (addraw_l (snd (addraw_l n MAX_MSG hdr)) MAX_MSG (cmp_bytes c))))"

text \<open>The value is printed with \<^verbatim>\<open>%d\<close>.\<close>

definition cmp_print_eopt :: "u8 list \<Rightarrow> u8 list \<Rightarrow> int \<Rightarrow> int \<times> string" where
  "cmp_print_eopt hdr d data_len =
     (if data_len < 12 then (-1, [])
      else let c = cmp_of_bytes d
           in (0, (if cmp_align c = TCF_EM_ALIGN_U8 then ''u8 ''
                   else if cmp_align c = TCF_EM_ALIGN_U16 then ''u16 ''
                   else if cmp_align c = TCF_EM_ALIGN_U32 then ''u32 '' else []) @
                  ''at '' @ fmt_d (uint (cmp_off c)) @ '' layer '' @ fmt_d (uint (cmp_layer c)) @ '' '' @
                  (if cmp_mask c \<noteq> 0 then ''mask 0x'' @ fmt_x (cmp_mask c) @ '' '' else []) @
                  (if cmp_flags c AND TCF_EM_CMP_TRANS \<noteq> 0 then ''trans '' else []) @
                  (if cmp_opnd c = TCF_EM_OPND_EQ then ''eq ''
                   else if cmp_opnd c = TCF_EM_OPND_LT then ''lt ''
                   else if cmp_opnd c = TCF_EM_OPND_GT then ''gt '' else []) @
                  fmt_d (sint (cmp_val c))))"

definition TCF_EM_CMP :: int where "TCF_EM_CMP = 1"

definition cmp_ematch_util :: ematch_util where
  "cmp_ematch_util = \<lparr>eu_kind = ''cmp'', eu_kind_num = TCF_EM_CMP, eu_parse_eopt = cmp_parse_eopt, eu_print_eopt = cmp_print_eopt\<rparr>"

section \<open>Comparison of bytes\<close>

text \<open>\<^verbatim>\<open>struct tcf_em_nbyte\<close>: twelve bits of length and four of layer share a halfword.\<close>

definition nbyte_hdr :: "u16 \<Rightarrow> 12 word \<Rightarrow> 4 word \<Rightarrow> u8 list" where
  "nbyte_hdr off len layer = le_bytes 2 off @ le_bytes 2 (ucast len OR push_bit 12 (ucast layer) :: u16)"

fun nbyte_args :: "string list \<Rightarrow> u64 \<times> u64 \<times> bool \<Rightarrow> (u64 \<times> u64 \<times> bool) option" where
  "nbyte_args [] v = Some v"
| "nbyte_args (a # as) (offset, layer, present) =
     (if bstrcmp_eq a ''at'' then
        (case as of
           [] \<Rightarrow> None
         | b # bs \<Rightarrow> if bstrtoul b = -1 then None else nbyte_args bs (bstrtoul b, layer, True))
      else if bstrcmp_eq a ''layer'' then
        (case as of
           [] \<Rightarrow> None
         | b # bs \<Rightarrow> (case layer_arg b of
                        None \<Rightarrow> None
                      | Some layer' \<Rightarrow> nbyte_args bs (offset, layer', present)))
      else None)"

definition nbyte_parse_eopt :: "u8 list \<Rightarrow> u8 list \<Rightarrow> string list \<Rightarrow> int \<times> u8 list" where
  "nbyte_parse_eopt n hdr args =
     (case args of
        [] \<Rightarrow> (- EINVAL, n)
      | needle # as \<Rightarrow>
          if needle = [] then (- EINVAL, n)
          else case nbyte_args as (0, of_int TCF_LAYER_NETWORK, False) of
                 None \<Rightarrow> (- EINVAL, n)
               | Some (offset, layer, present) \<Rightarrow>
                   if \<not> present then (- EINVAL, n)
                   else let n1 = snd (addraw_l n MAX_MSG hdr);
                            n2 = snd (addraw_l n1 MAX_MSG (nbyte_hdr (ucast offset) (of_nat (length needle)) (ucast layer)))
                        in (0, snd (addraw_l n2 MAX_MSG (bytes_of_string needle))))"

definition nbyte_print_eopt :: "u8 list \<Rightarrow> u8 list \<Rightarrow> int \<Rightarrow> int \<times> string" where
  "nbyte_print_eopt hdr d data_len =
     (if data_len < 4 then (-1, [])
      else let len = unat (ucast (peek16 2 d) :: 12 word); layer = drop_bit 12 (peek16 2 d); needle = take len (drop 4 d)
           in if data_len < 4 + int len then (-1, [])
              else (0, concat (map (\<lambda>b. pad_left 2 (fmt_x b) @ '' '') needle) @ [CHR 0x22] @
                       map (\<lambda>b. if 32 \<le> b \<and> b < 127 then char_of (unat b) else CHR ''.'') needle @
                       [CHR 0x22] @ '' at '' @ fmt_d (uint (peek16 0 d)) @ '' layer '' @ fmt_d (uint layer)))"

definition TCF_EM_NBYTE :: int where "TCF_EM_NBYTE = 2"

definition nbyte_ematch_util :: ematch_util where
  "nbyte_ematch_util = \<lparr>eu_kind = ''nbyte'', eu_kind_num = TCF_EM_NBYTE, eu_parse_eopt = nbyte_parse_eopt, eu_print_eopt = nbyte_print_eopt\<rparr>"

section \<open>A masked word\<close>

text \<open>\<^verbatim>\<open>struct tc_u32_key\<close>: value and mask are in network order.\<close>

definition u32_key :: "u32 \<Rightarrow> u32 \<Rightarrow> u32 \<Rightarrow> u32 \<Rightarrow> u8 list" where
  "u32_key msk val off offmask = le_bytes 4 msk @ le_bytes 4 val @ le_bytes 4 off @ le_bytes 4 offmask"

text \<open>
  The offset, with the mask for offsets behind the next header. In the first branch the digits are
  copied into a buffer that is not terminated: \<open>stk\<close> is what lies behind them on the stack.
\<close>

definition u32_offset :: "string \<Rightarrow> string list \<Rightarrow> (u64 \<times> u64 \<times> string list) option" where
  "u32_offset stk as =
     (case as of
        [] \<Rightarrow> None
      | a # r \<Rightarrow>
          if length a > 8 \<and> take 8 a = ''nexthdr+''
          then Some (fst (strtoul 0 (upto_chr (drop 8 a @ stk) (CHR 0x00))), -1, r)
          else if bstrcmp_eq a ''nexthdr+''
          then (case r of [] \<Rightarrow> None | b # r' \<Rightarrow> Some (bstrtoul b, 0, r'))
          else Some (bstrtoul a, 0, r))"

text \<open>The switch on the alignment: key, mask and offset of the word.\<close>

definition u32_align :: "nat \<Rightarrow> u64 \<Rightarrow> u64 \<Rightarrow> u64 \<Rightarrow> (u64 \<times> u64 \<times> u64) option" where
  "u32_align align key msk offset =
     (if align = 1 then
        if key > 0xFF \<or> msk > 0xFF then None
        else let sh = unat (24 - (offset AND 3) * 8)
             in Some (push_bit sh key, push_bit sh msk, offset AND NOT 3)
      else if align = 2 then
        if key > 0xFFFF \<or> msk > 0xFFFF then None
        else let sh = (if offset AND 3 = 0 then 16 else 0)
             in Some (push_bit sh key, push_bit sh msk, offset AND NOT 3)
      else Some (key, msk, offset))"

definition u32_parse :: "string \<Rightarrow> string list \<Rightarrow> u8 list option" where
  "u32_parse stk args =
     (case args of
        al # k # m # sep # rest \<Rightarrow>
          (case (if bstrcmp_eq al ''u8'' then Some 1 else if bstrcmp_eq al ''u16'' then Some 2
                 else if bstrcmp_eq al ''u32'' then Some 4 else None) of
             None \<Rightarrow> None
           | Some align \<Rightarrow>
               if bstrtoul k = -1 \<or> bstrtoul m = -1 \<or> \<not> bstrcmp_eq sep ''at'' then None
               else (case u32_offset stk rest of
                       None \<Rightarrow> None
                     | Some (offset, offmask, r) \<Rightarrow>
                         if offset = -1 \<or> r \<noteq> [] then None
                         else (case u32_align align (bstrtoul k) (bstrtoul m) offset of
                                 None \<Rightarrow> None
                               | Some (key, msk, off) \<Rightarrow>
                                   if off mod 4 \<noteq> 0 then None
                                   else let nmask = htonl (ucast msk)
                                        in Some (u32_key nmask (htonl (ucast key) AND nmask) (ucast off) (ucast offmask)))))
      | _ \<Rightarrow> None)"

definition u32_parse_eopt :: "string \<Rightarrow> u8 list \<Rightarrow> u8 list \<Rightarrow> string list \<Rightarrow> int \<times> u8 list" where
  "u32_parse_eopt stk n hdr args =
     (case u32_parse stk args of
        None \<Rightarrow> (- EINVAL, n)
      | Some d \<Rightarrow> (0, snd (addraw_l (snd (addraw_l n MAX_MSG hdr)) MAX_MSG d)))"

definition u32_print_eopt :: "u8 list \<Rightarrow> u8 list \<Rightarrow> int \<Rightarrow> int \<times> string" where
  "u32_print_eopt hdr d data_len =
     (if data_len < 16 then (-1, [])
      else (0, pad_left 8 (fmt_x (ntohl (peek32 4 d))) @ ''/'' @ pad_left 8 (fmt_x (ntohl (peek32 0 d))) @ '' at '' @
               (if peek32 12 d \<noteq> 0 then ''nexthdr+'' else []) @ fmt_d (sint (peek32 8 d))))"

definition TCF_EM_U32 :: int where "TCF_EM_U32 = 3"

definition u32_ematch_util :: "string \<Rightarrow> ematch_util" where
  "u32_ematch_util stk = \<lparr>eu_kind = ''u32'', eu_kind_num = TCF_EM_U32, eu_parse_eopt = u32_parse_eopt stk, eu_print_eopt = u32_print_eopt\<rparr>"

end
