(* ===== verification/Units.thy ===== *)
theory Units
  imports CDouble Utils_Num
begin

text \<open>
  Numbers with units as the tc command reads and prints them: rates, times and sizes of
  \<^verbatim>\<open>tc_util.c\<close> and the round-trip time of \<^verbatim>\<open>utils.c\<close>. All of them go through \<^verbatim>\<open>double\<close>. The
  three readers share a contract, stated as a locale: scan a number, look the rest of the
  string up in a table of factors, scale, and store the result in an \<^verbatim>\<open>unsigned\<close>.
\<close>

section \<open>Results\<close>

text \<open>A reader rejects its argument, stores a value, or runs into an undefined conversion.\<close>

datatype 'a cparsed = Rejected | Parsed 'a | Undefined

definition store_unsigned :: "cdouble \<Rightarrow> u32 cparsed" where
  "store_unsigned x = (case word_of_double x of None \<Rightarrow> Undefined | Some w \<Rightarrow> Parsed w)"

definition SPRINT_BSIZE :: nat where "SPRINT_BSIZE = 64"

definition d_text :: "(rat \<Rightarrow> string) \<Rightarrow> cdouble \<Rightarrow> string" where
  "d_text f x = (case x of Fin q \<Rightarrow> f q | Inf s \<Rightarrow> (if s then ''-inf'' else ''inf'') | NaN \<Rightarrow> ''nan'')"

section \<open>Rates\<close>

definition suffixes :: "(string \<times> nat) list" where
  "suffixes =
     [(''bit'', 1), (''Kibit'', 1024), (''kbit'', 1000),
      (''mibit'', 1024 * 1024), (''mbit'', 1000000),
      (''gibit'', 1024 * 1024 * 1024), (''gbit'', 1000000000),
      (''tibit'', 1024 * 1024 * 1024 * 1024), (''tbit'', 1000000000000),
      (''Bps'', 8), (''KiBps'', 8 * 1024), (''KBps'', 8000),
      (''MiBps'', 8 * 1024 * 1024), (''MBps'', 8000000),
      (''GiBps'', 8 * 1024 * 1024 * 1024), (''GBps'', 8000000000),
      (''TiBps'', 8 * 1024 * 1024 * 1024 * 1024), (''TBps'', 8000000000000)]"

definition get_rate :: "string \<Rightarrow> u32 cparsed" where
  "get_rate str =
     (let (bps, p) = strtod str
      in if p = str then Rejected
         else if p = [] then store_unsigned (d_div bps (Fin 8))
         else case List.find (\<lambda>s. strcaseeq (fst s) p) suffixes of
                Some s \<Rightarrow> store_unsigned (d_div (d_mul bps (Fin (of_nat (snd s)))) (Fin 8))
              | None \<Rightarrow> Rejected)"

definition print_rate :: "bool \<Rightarrow> nat \<Rightarrow> u32 \<Rightarrow> string" where
  "print_rate use_iec len rate =
     (let tmp = d_mul (d_of_word rate) (Fin 8)
      in if use_iec then
           if d_le (Fin (1000 * 1024 * 1024)) tmp
           then snprintf len (d_text fmt_f0 (d_div tmp (Fin (1024 * 1024))) @ ''Mibit'')
           else if d_le (Fin (1000 * 1024)) tmp
           then snprintf len (d_text fmt_f0 (d_div tmp (Fin 1024)) @ ''Kibit'')
           else snprintf len (d_text fmt_f0 tmp @ ''bit'')
         else
           if d_le (Fin (1000 * 1000000)) tmp
           then snprintf len (d_text fmt_f0 (d_div tmp (Fin 1000000)) @ ''Mbit'')
           else if d_le (Fin (1000 * 1000)) tmp
           then snprintf len (d_text fmt_f0 (d_div tmp (Fin 1000)) @ ''Kbit'')
           else snprintf len (d_text fmt_f0 tmp @ ''bit''))"

definition sprint_rate :: "bool \<Rightarrow> u32 \<Rightarrow> string" where
  "sprint_rate use_iec rate = print_rate use_iec (SPRINT_BSIZE - 1) rate"

section \<open>Times\<close>

definition TIME_UNITS_PER_SEC :: nat where "TIME_UNITS_PER_SEC = 1000000"

definition get_time :: "string \<Rightarrow> u32 cparsed" where
  "get_time str =
     (let (t, p) = strtod str
      in if p = str then Rejected
         else if p \<noteq> [] then
           if strcaseeq p ''s'' \<or> strcaseeq p ''sec'' \<or> strcaseeq p ''secs''
           then store_unsigned (d_mul t (Fin (of_nat TIME_UNITS_PER_SEC)))
           else if strcaseeq p ''ms'' \<or> strcaseeq p ''msec'' \<or> strcaseeq p ''msecs''
           then store_unsigned (d_mul t (Fin (of_nat (TIME_UNITS_PER_SEC div 1000))))
           else if strcaseeq p ''us'' \<or> strcaseeq p ''usec'' \<or> strcaseeq p ''usecs''
           then store_unsigned (d_mul t (Fin (of_nat (TIME_UNITS_PER_SEC div 1000000))))
           else Rejected
         else store_unsigned t)"

definition print_time :: "nat \<Rightarrow> u32 \<Rightarrow> string" where
  "print_time len time =
     (let tmp = d_of_word time
      in if d_le (Fin (of_nat TIME_UNITS_PER_SEC)) tmp
         then snprintf len (d_text fmt_f1 (d_div tmp (Fin (of_nat TIME_UNITS_PER_SEC))) @ ''s'')
         else if d_le (Fin (of_nat (TIME_UNITS_PER_SEC div 1000))) tmp
         then snprintf len (d_text fmt_f1 (d_div tmp (Fin (of_nat (TIME_UNITS_PER_SEC div 1000)))) @ ''ms'')
         else snprintf len (fmt_u time @ ''us''))"

definition sprint_time :: "u32 \<Rightarrow> string" where
  "sprint_time time = print_time (SPRINT_BSIZE - 1) time"

text \<open>The value and whether it was given without a unit.\<close>

definition get_time_rtt :: "string \<Rightarrow> (u32 \<times> bool) cparsed" where
  "get_time_rtt arg =
     (let tp = (if strchr arg (CHR ''.'') \<noteq> None
                then let (t, p) = strtod arg in if d_less t (Fin 0) then None else Some (t, p)
                else let (res, p) = strtoul 0 arg
                     in if unat res > 2 ^ 32 - 1 then None else Some (d_of_word res, p))
      in case tp of
           None \<Rightarrow> Rejected
         | Some (t, p) \<Rightarrow>
             if p = arg then Rejected
             else let t1 = (if p = [] then Some (t, True)
                            else if strcaseeq p ''s'' \<or> strcaseeq p ''sec'' \<or> strcaseeq p ''secs''
                            then Some (d_mul t (Fin 1000), False)
                            else if strcaseeq p ''ms'' \<or> strcaseeq p ''msec'' \<or> strcaseeq p ''msecs''
                            then Some (d_mul t (Fin 1), False)
                            else None)
                  in case t1 of
                       None \<Rightarrow> Rejected
                     | Some (t2, raw) \<Rightarrow>
                         (case word_of_double t2 of
                            None \<Rightarrow> Undefined
                          | Some v \<Rightarrow> Parsed (if d_less (d_of_word v) t2 then v + 1 else v, raw)))"

section \<open>Sizes\<close>

definition get_size :: "string \<Rightarrow> u32 cparsed" where
  "get_size str =
     (let (sz, p) = strtod str
      in if p = str then Rejected
         else if p \<noteq> [] then
           if strcaseeq p ''kb'' \<or> strcaseeq p ''k'' then store_unsigned (d_mul sz (Fin 1024))
           else if strcaseeq p ''gb'' \<or> strcaseeq p ''g'' then store_unsigned (d_mul sz (Fin (1024 * 1024 * 1024)))
           else if strcaseeq p ''gbit'' then store_unsigned (d_mul sz (Fin (1024 * 1024 * 1024 / 8)))
           else if strcaseeq p ''mb'' \<or> strcaseeq p ''m'' then store_unsigned (d_mul sz (Fin (1024 * 1024)))
           else if strcaseeq p ''mbit'' then store_unsigned (d_mul sz (Fin (1024 * 1024 / 8)))
           else if strcaseeq p ''kbit'' then store_unsigned (d_mul sz (Fin (1024 / 8)))
           else if \<not> strcaseeq p ''b'' then Rejected
           else store_unsigned sz
         else store_unsigned sz)"

text \<open>
  The size before a slash and the logarithm of the cell after it; without a slash \<^verbatim>\<open>cell_log\<close>
  keeps its value, which is \<open>None\<close> here.
\<close>

definition get_size_and_cell :: "string \<Rightarrow> (u32 \<times> nat option) cparsed" where
  "get_size_and_cell str =
     (case get_size (upto_chr str (CHR ''/'')) of
        Rejected \<Rightarrow> Rejected
      | Undefined \<Rightarrow> Undefined
      | Parsed sz \<Rightarrow>
          (case strchr str (CHR ''/'') of
             None \<Rightarrow> Parsed (sz, None)
           | Some slash \<Rightarrow>
               (case get_integer (tl slash) 0 of
                  None \<Rightarrow> Rejected
                | Some cell \<Rightarrow>
                    (case List.find (\<lambda>i. sint (push_bit i (1 :: u32)) = cell) [0..<32] of
                       None \<Rightarrow> Rejected
                     | Some i \<Rightarrow> Parsed (sz, Some i)))))"

definition near_multiple :: "rat \<Rightarrow> u32 \<Rightarrow> rat \<Rightarrow> bool" where
  "near_multiple unit sz tolerance \<longleftrightarrow>
     d_less (d_fabs (d_sub (d_mul (Fin unit) (d_rint (d_div (d_of_word sz) (Fin unit)))) (d_of_word sz)))
            (Fin tolerance)"

definition print_size :: "nat \<Rightarrow> u32 \<Rightarrow> string" where
  "print_size len sz =
     (let tmp = d_of_word sz
      in if sz \<ge> 1024 * 1024 \<and> near_multiple (1024 * 1024) sz 1024
         then snprintf len (d_text (\<lambda>q. fmt_g (nat \<lfloor>q\<rfloor>)) (d_rint (d_div tmp (Fin (1024 * 1024)))) @ ''Mb'')
         else if sz \<ge> 1024 \<and> near_multiple 1024 sz 16
         then snprintf len (d_text (\<lambda>q. fmt_g (nat \<lfloor>q\<rfloor>)) (d_rint (d_div tmp (Fin 1024))) @ ''Kb'')
         else snprintf len (fmt_u sz @ ''b''))"

definition sprint_size :: "u32 \<Rightarrow> string" where
  "sprint_size sz = print_size (SPRINT_BSIZE - 1) sz"

section \<open>The contract of the readers\<close>

locale scaled_parser =
  fixes parse :: "string \<Rightarrow> u32 cparsed"
    and scale :: "string \<Rightarrow> (cdouble \<Rightarrow> cdouble) option"
    and num den :: "string \<Rightarrow> nat"
  assumes parse_eq: "parse s =
      (let (x, p) = strtod s
       in if p = s then Rejected
          else case scale p of None \<Rightarrow> Rejected | Some f \<Rightarrow> store_unsigned (f x))"
    and exact: "scale p = Some f \<Longrightarrow> n * num p < 2 ^ 53 \<Longrightarrow>
      f (Fin (of_nat n)) = Fin (of_nat (n * num p) / of_nat (den p))"
    and big: "scale p = Some f \<Longrightarrow> x = Inf False \<or> (\<exists>q. x = Fin q \<and> pow2 53 \<le> q * of_nat (num p)) \<Longrightarrow>
      d_le (Fin (pow2 32)) (f x)"
    and factor: "scale p = Some f \<Longrightarrow> 1 \<le> num p \<and> 1 \<le> den p \<and> den p \<le> 8"
begin

lemma parse_whole:
  assumes "ends_decimal p" "scale p = Some f"
  shows "parse (fmt_nat n @ p) =
    (if n * num p div den p < 2 ^ 32 then Parsed (of_nat (n * num p div den p)) else Undefined)"
proof -
  note fac = factor [OF assms(2)]
  have ne: "p \<noteq> fmt_nat n @ p" by (simp add: fmt_nat_def)
  then have eq: "parse (fmt_nat n @ p) = store_unsigned (f (round_double (of_nat n)))"
    using assms by (simp add: parse_eq strtod_fmt)
  show ?thesis
  proof (cases "n * num p < 2 ^ 53")
    case True
    then have "n < 2 ^ 53" using fac by (metis le_less_trans mult.right_neutral mult_le_mono2)
    then have "round_double (of_nat n) = Fin (of_nat n)" using round_double_int [of "int n"] by simp
    then have x: "f (round_double (of_nat n)) = Fin (of_nat (n * num p) / of_nat (den p))"
      using exact [OF assms(2) True] by simp
    have floor: "\<lfloor>of_nat (n * num p) / (of_nat (den p) :: rat)\<rfloor> = int (n * num p div den p)"
      by (rule floor_divide_of_nat_eq)
    show ?thesis
      by (simp add: eq x store_unsigned_def d_trunc_def floor del: of_nat_mult)
  next
    case False
    have "2 ^ 32 \<le> n * num p div den p"
    proof -
      have "2 ^ 32 * den p \<le> n * num p" using False fac by simp
      then show ?thesis using fac by (simp add: less_eq_div_iff_mult_less_eq)
    qed
    moreover have "round_double (of_nat n) = Inf False \<or>
      (\<exists>q. round_double (of_nat n) = Fin q \<and> pow2 53 \<le> q * of_nat (num p))"
    proof (cases "n < 2 ^ 53")
      case True
      then have r: "round_double (of_nat n) = Fin (of_nat n)" using round_double_int [of "int n"] by simp
      have "(of_nat (2 ^ 53) :: rat) \<le> of_nat (n * num p)" using False by (simp only: of_nat_le_iff not_less)
      then show ?thesis by (simp add: pow2_def r)
    next
      case False
      then have "(of_nat (2 ^ 53) :: rat) \<le> of_nat n" by (simp only: of_nat_le_iff not_less)
      then have "d_le (Fin (pow2 53)) (round_double (of_nat n))" using round_double_ge [of 53 "of_nat n"] by (simp add: pow2_def)
      moreover have "pow2 53 \<le> q * of_nat (num p)" if "pow2 53 \<le> q" for q
      proof -
        have "q * 1 \<le> q * of_nat (num p)" using less_le_trans [OF pow2_pos that] fac by (intro mult_left_mono) simp_all
        then show ?thesis using that by simp
      qed
      ultimately show ?thesis by (cases "round_double (of_nat n)") auto
    qed
    then have "d_le (Fin (pow2 32)) (f (round_double (of_nat n)))" by (rule big [OF assms(2)])
    then have "word_of_double (f (round_double (of_nat n))) = (None :: u32 option)" by (intro word_of_double_big) simp
    ultimately show ?thesis by (simp add: eq store_unsigned_def)
  qed
qed

end

section \<open>The readers satisfy it\<close>

lemma d_mul_nat_exact: "n * c < 2 ^ 53 \<Longrightarrow> d_mul (Fin (of_nat n)) (Fin (of_nat c)) = Fin (of_nat (n * c))"
  using round_double_int [of "int (n * c)"] by (simp del: of_nat_mult add: of_nat_mult [symmetric])

lemma d_mul_big:
  assumes "x = Inf False \<or> (\<exists>q. x = Fin q \<and> pow2 53 \<le> q * of_nat c)" "1 \<le> c"
  shows "d_le (Fin (pow2 53)) (d_mul x (Fin (of_nat c)))"
  using assms round_double_ge [of 53] by auto

lemma d_le_32: "d_le (Fin (pow2 53)) x \<Longrightarrow> d_le (Fin (pow2 32)) x"
  using pow2_mono [of 32 53] by (cases x) auto

lemma d_div_8_exact:
  assumes "m < 2 ^ 53" shows "d_div (Fin (of_nat m)) (Fin 8) = Fin (of_nat m / 8)"
proof -
  have "(of_nat m :: rat) / 8 = of_int (int m) * pow2 (- 3)" by (simp add: pow2_def)
  then show ?thesis using round_double_exact [of "of_nat m / 8" "int m" "- 3"] assms by simp
qed

text \<open>The table of a reader: the factor a suffix stands for.\<close>

definition size_factor :: "string \<Rightarrow> nat option" where
  "size_factor p =
     (if p = [] \<or> strcaseeq p ''b'' then Some 1
      else if strcaseeq p ''kb'' \<or> strcaseeq p ''k'' then Some 1024
      else if strcaseeq p ''mb'' \<or> strcaseeq p ''m'' then Some (1024 ^ 2)
      else if strcaseeq p ''gb'' \<or> strcaseeq p ''g'' then Some (1024 ^ 3)
      else if strcaseeq p ''kbit'' then Some 128
      else if strcaseeq p ''mbit'' then Some (128 * 1024)
      else if strcaseeq p ''gbit'' then Some (128 * 1024 ^ 2)
      else None)"

definition time_factor :: "string \<Rightarrow> nat option" where
  "time_factor p =
     (if p = [] \<or> strcaseeq p ''us'' \<or> strcaseeq p ''usec'' \<or> strcaseeq p ''usecs'' then Some 1
      else if strcaseeq p ''ms'' \<or> strcaseeq p ''msec'' \<or> strcaseeq p ''msecs'' then Some 1000
      else if strcaseeq p ''s'' \<or> strcaseeq p ''sec'' \<or> strcaseeq p ''secs'' then Some 1000000
      else None)"

definition rate_factor :: "string \<Rightarrow> nat option" where
  "rate_factor p =
     (if p = [] then Some 1 else map_option snd (List.find (\<lambda>s. strcaseeq (fst s) p) suffixes))"

text \<open>Without a unit, and for bytes, the number is stored as it was read.\<close>

definition scale_by :: "(string \<Rightarrow> nat option) \<Rightarrow> (string \<Rightarrow> bool) \<Rightarrow> string \<Rightarrow> (cdouble \<Rightarrow> cdouble) option" where
  "scale_by factor plain p =
     map_option (\<lambda>c x. if plain p then x else d_mul x (Fin (of_nat c))) (factor p)"

lemma scale_by_laws:
  assumes "scale_by fac plain p = Some f" "\<And>p. plain p \<Longrightarrow> fac p = Some 1" "\<And>p c. fac p = Some c \<Longrightarrow> 1 \<le> c"
  shows "n * the (fac p) < 2 ^ 53 \<Longrightarrow> f (Fin (of_nat n)) = Fin (of_nat (n * the (fac p)) / of_nat 1)"
    "x = Inf False \<or> (\<exists>q. x = Fin q \<and> pow2 53 \<le> q * of_nat (the (fac p))) \<Longrightarrow> d_le (Fin (pow2 32)) (f x)"
    "1 \<le> the (fac p)"
proof -
  obtain c where c: "fac p = Some c" "f = (\<lambda>x. if plain p then x else d_mul x (Fin (of_nat c)))"
    using assms(1) by (auto simp: scale_by_def)
  have c1: "1 \<le> c" using assms(3) c(1) by blast
  show "f (Fin (of_nat n)) = Fin (of_nat (n * the (fac p)) / of_nat 1)" if "n * the (fac p) < 2 ^ 53"
    using that assms(2) [of p] d_mul_nat_exact [of n c] c by auto
  show "d_le (Fin (pow2 32)) (f x)"
    if "x = Inf False \<or> (\<exists>q. x = Fin q \<and> pow2 53 \<le> q * of_nat (the (fac p)))"
  proof (cases "plain p")
    case True
    then have "d_le (Fin (pow2 53)) x" using that assms(2) [of p] by auto
    then show ?thesis using True c by (simp add: d_le_32)
  next
    case False
    then show ?thesis using d_mul_big [of x c] that c c1 by (simp add: d_le_32)
  qed
  show "1 \<le> the (fac p)" using c c1 by simp
qed

lemma scale_by_parser:
  assumes "\<And>p. plain p \<Longrightarrow> fac p = Some 1" "\<And>p c. fac p = Some c \<Longrightarrow> 1 \<le> c"
    and "\<And>s. parse s = (let (x, p) = strtod s in if p = s then Rejected
      else case scale_by fac plain p of None \<Rightarrow> Rejected | Some f \<Rightarrow> store_unsigned (f x))"
  shows "scaled_parser parse (scale_by fac plain) (\<lambda>p. the (fac p)) (\<lambda>_. 1)"
  using scale_by_laws [OF _ assms(1,2)] by (intro scaled_parser.intro assms(3)) simp_all

interpretation get_size: scaled_parser get_size "scale_by size_factor (\<lambda>p. p = [] \<or> strcaseeq p ''b'')"
  "\<lambda>p. the (size_factor p)" "\<lambda>_. 1"
proof (rule scale_by_parser)
  show "get_size s = (let (x, p) = strtod s in if p = s then Rejected
      else case scale_by size_factor (\<lambda>p. p = [] \<or> strcaseeq p ''b'') p of
             None \<Rightarrow> Rejected | Some f \<Rightarrow> store_unsigned (f x))" for s
    by (simp add: get_size_def scale_by_def size_factor_def case_prod_beta Let_def strcaseeq_def to_lower_def)
qed (auto simp: size_factor_def split: if_splits)

interpretation get_time: scaled_parser get_time "scale_by time_factor (\<lambda>p. p = [])"
  "\<lambda>p. the (time_factor p)" "\<lambda>_. 1"
proof (rule scale_by_parser)
  show "get_time s = (let (x, p) = strtod s in if p = s then Rejected
      else case scale_by time_factor (\<lambda>p. p = []) p of
             None \<Rightarrow> Rejected | Some f \<Rightarrow> store_unsigned (f x))" for s
    by (simp add: get_time_def scale_by_def time_factor_def case_prod_beta Let_def strcaseeq_def to_lower_def
        TIME_UNITS_PER_SEC_def)
qed (auto simp: time_factor_def split: if_splits)

definition rate_scale :: "string \<Rightarrow> (cdouble \<Rightarrow> cdouble) option" where
  "rate_scale p = map_option (\<lambda>c x. d_div (if p = [] then x else d_mul x (Fin (of_nat c))) (Fin 8)) (rate_factor p)"

lemma rate_factor_pos: "rate_factor p = Some c \<Longrightarrow> 1 \<le> c"
proof -
  have "list_all (\<lambda>s. 1 \<le> snd s) suffixes" by (simp add: suffixes_def)
  then show "rate_factor p = Some c \<Longrightarrow> 1 \<le> c"
    by (auto simp: rate_factor_def find_Some_iff list_all_length split: if_splits) (metis snd_conv)
qed

interpretation get_rate: scaled_parser get_rate rate_scale "\<lambda>p. the (rate_factor p)" "\<lambda>_. 8"
proof
  show "get_rate s = (let (x, p) = strtod s in if p = s then Rejected
      else case rate_scale p of None \<Rightarrow> Rejected | Some f \<Rightarrow> store_unsigned (f x))" for s
    by (auto simp: get_rate_def rate_scale_def rate_factor_def case_prod_beta Let_def split: option.splits)
  fix p f n x
  assume "rate_scale p = Some f"
  then obtain c where c: "rate_factor p = Some c" "1 \<le> c"
    "f = (\<lambda>x. d_div (if p = [] then x else d_mul x (Fin (of_nat c))) (Fin 8))"
    using rate_factor_pos by (auto simp: rate_scale_def)
  have nil: "p = [] \<Longrightarrow> c = 1" using c(1) by (simp add: rate_factor_def)
  show "1 \<le> the (rate_factor p) \<and> 1 \<le> (8::nat) \<and> (8::nat) \<le> 8" using c by simp
  show "f (Fin (of_nat n)) = Fin (of_nat (n * the (rate_factor p)) / of_nat 8)" if "n * the (rate_factor p) < 2 ^ 53"
    using that c nil d_mul_nat_exact [of n c] d_div_8_exact [of "n * c"] by (auto simp del: d_mul.simps d_div.simps)
  show "d_le (Fin (pow2 32)) (f x)" if "x = Inf False \<or> (\<exists>q. x = Fin q \<and> pow2 53 \<le> q * of_nat (the (rate_factor p)))"
  proof -
    have "d_le (Fin (pow2 53)) (if p = [] then x else d_mul x (Fin (of_nat c)))"
      using d_mul_big [of x c] that c nil by auto
    then have "d_le (Fin (pow2 (50 + 3))) (if p = [] then x else d_mul x (Fin (of_nat c)))" by simp
    from d_div8_ge [OF this] show ?thesis using pow2_mono [of 32 50] c(3)
      by (cases "f x") auto
  qed
qed

lemma ends_decimal_letter:
  assumes "strcaseeq p q" "q \<noteq> []" "digit_val (to_lower (hd q)) < 36" "10 \<le> digit_val (to_lower (hd q))"
    "to_lower (hd q) \<notin> {CHR ''e'', CHR ''x''}"
  shows "ends_decimal p"
proof -
  obtain c cs where p: "p = c # cs" using assms(1,2) by (cases p) (auto simp: strcaseeq_def)
  then have c: "to_lower c = to_lower (hd q)" using assms(1,2) by (cases q) (auto simp: strcaseeq_def)
  have "10 \<le> digit_val c"
  proof (rule ccontr)
    assume "\<not> 10 \<le> digit_val c"
    moreover from this have "to_lower c = c" by (simp add: not_le digit_val_low to_lower_def)
    ultimately show False using assms(4) c by simp
  qed
  moreover have "c \<noteq> CHR ''.''"
  proof
    assume "c = CHR ''.''"
    moreover have "digit_val (to_lower (CHR ''.'')) = 36" by code_simp
    ultimately show False using assms(3) c by simp
  qed
  moreover have "c \<noteq> CHR ''e''" "c \<noteq> CHR ''E''" "c \<noteq> CHR ''x''" "c \<noteq> CHR ''X''"
    using assms(5) c to_lower_e [of c] to_lower_x [of c] by force+
  ultimately show ?thesis by (simp add: ends_decimal_def p)
qed

lemma factor_ends:
  "size_factor p = Some c \<Longrightarrow> ends_decimal p" "time_factor p = Some c \<Longrightarrow> ends_decimal p"
  "rate_factor p = Some c \<Longrightarrow> ends_decimal p"
proof -
  have nil: "ends_decimal []" by (simp add: ends_decimal_def)
  note L = ends_decimal_letter [of p]
  show "size_factor p = Some c \<Longrightarrow> ends_decimal p"
    using L [of "''b''"] L [of "''kb''"] L [of "''k''"] L [of "''mb''"] L [of "''m''"] L [of "''gb''"] L [of "''g''"]
      L [of "''kbit''"] L [of "''mbit''"] L [of "''gbit''"] nil
    by (auto simp: size_factor_def to_lower_def digit_val_def split: if_splits)
  show "time_factor p = Some c \<Longrightarrow> ends_decimal p"
    using L [of "''us''"] L [of "''usec''"] L [of "''usecs''"] L [of "''ms''"] L [of "''msec''"] L [of "''msecs''"]
      L [of "''s''"] L [of "''sec''"] L [of "''secs''"] nil
    by (auto simp: time_factor_def to_lower_def digit_val_def split: if_splits)
  have tab: "list_all (\<lambda>s. fst s \<noteq> [] \<and> digit_val (to_lower (hd (fst s))) < 36 \<and> 10 \<le> digit_val (to_lower (hd (fst s))) \<and>
      to_lower (hd (fst s)) \<notin> {CHR ''e'', CHR ''x''}) suffixes"
    by (simp add: suffixes_def to_lower_def digit_val_def) (simp add: char_eq_nat del: of_char_eq_iff)
  show "ends_decimal p" if r: "rate_factor p = Some c"
  proof (cases "p = []")
    case False
    then obtain s where s: "s \<in> set suffixes" "strcaseeq (fst s) p"
      using r by (auto simp: rate_factor_def find_Some_iff) (metis nth_mem fst_conv)
    have "strcaseeq p (fst s)" using s(2) by (simp add: strcaseeq_def)
    then show ?thesis by (rule L) (use tab s(1) in \<open>auto simp: list_all_iff\<close>)
  qed (simp add: nil)
qed

lemma parse_unknown:
  assumes "ends_decimal p"
  shows "size_factor p = None \<Longrightarrow> get_size (fmt_nat n @ p) = Rejected"
    "time_factor p = None \<Longrightarrow> get_time (fmt_nat n @ p) = Rejected"
    "rate_factor p = None \<Longrightarrow> get_rate (fmt_nat n @ p) = Rejected"
  using strtod_fmt [OF assms, of n]
  by (simp_all add: get_size.parse_eq get_time.parse_eq get_rate.parse_eq scale_by_def rate_scale_def)

text \<open>
  C22: A whole number with a unit is scaled exactly: \<^verbatim>\<open>get_size\<close> stores the product with the
  factor of the suffix, \<^verbatim>\<open>get_time\<close> the number of microseconds and \<^verbatim>\<open>get_rate\<close> the eighth part
  in bytes, whatever the rounding of \<^verbatim>\<open>double\<close> in between, when the result fits an unsigned
  integer; when it does not, the conversion is undefined, and an unknown suffix is rejected.
\<close>

theorem units_scaled_exactly:
  "(size_factor p = Some c \<longrightarrow>
      get_size (fmt_nat n @ p) = (if n * c < 2 ^ 32 then Parsed (of_nat (n * c)) else Undefined)) \<and>
   (time_factor p = Some c \<longrightarrow>
      get_time (fmt_nat n @ p) = (if n * c < 2 ^ 32 then Parsed (of_nat (n * c)) else Undefined)) \<and>
   (rate_factor p = Some c \<longrightarrow>
      get_rate (fmt_nat n @ p) = (if n * c div 8 < 2 ^ 32 then Parsed (of_nat (n * c div 8)) else Undefined)) \<and>
   (ends_decimal p \<longrightarrow>
      (size_factor p = None \<longrightarrow> get_size (fmt_nat n @ p) = Rejected) \<and>
      (time_factor p = None \<longrightarrow> get_time (fmt_nat n @ p) = Rejected) \<and>
      (rate_factor p = None \<longrightarrow> get_rate (fmt_nat n @ p) = Rejected))"
  using get_size.parse_whole [OF factor_ends(1)] get_time.parse_whole [OF factor_ends(2)]
    get_rate.parse_whole [OF factor_ends(3)] parse_unknown [of p n]
  by (simp add: scale_by_def rate_scale_def)

theorem units_scaled_exactly_witness:
  "get_size (fmt_nat 64 @ ''kb'') = Parsed 65536 \<and> get_time (fmt_nat 20 @ ''ms'') = Parsed 20000 \<and>
   get_rate (fmt_nat 1 @ ''gbit'') = Parsed 125000000 \<and> get_rate (fmt_nat 1 @ ''tbit'') = Undefined \<and>
   get_size (fmt_nat 64 @ ''pkts'') = Rejected"
proof -
  have f: "size_factor ''kb'' = Some 1024" "time_factor ''ms'' = Some 1000"
    "rate_factor ''gbit'' = Some 1000000000" "rate_factor ''tbit'' = Some 1000000000000"
    "size_factor ''pkts'' = None" "ends_decimal ''pkts''"
    by (simp_all add: size_factor_def time_factor_def rate_factor_def suffixes_def strcaseeq_def to_lower_def
        ends_decimal_def digit_val_def)
  show ?thesis
    using units_scaled_exactly [of "''kb''" 1024 64] units_scaled_exactly [of "''ms''" 1000 20]
      units_scaled_exactly [of "''gbit''" 1000000000 1] units_scaled_exactly [of "''tbit''" 1000000000000 1]
      units_scaled_exactly [of "''pkts''" 0 64] f
    by simp
qed

section \<open>Printed sizes\<close>

lemma d_of_word_u32: "d_of_word (w :: u32) = Fin (of_int (uint w))"
proof -
  have "\<bar>uint w\<bar> < 2 ^ 53" using uint_bounded [of w] by simp
  then show ?thesis unfolding d_of_word_def by (rule round_double_int)
qed

definition nearest :: "nat \<Rightarrow> u32 \<Rightarrow> nat" where
  "nearest j sz = nat (round_even (of_int (uint sz) / 2 ^ j))"

lemma nearest_facts:
  assumes "j \<le> 30"
  shows "d_rint (d_div (d_of_word sz) (Fin (2 ^ j))) = Fin (of_nat (nearest j sz))"
    "2 * \<bar>2 ^ j * int (nearest j sz) - uint sz\<bar> \<le> 2 ^ j"
    "near_multiple (2 ^ j) sz (of_int t) \<longleftrightarrow> \<bar>2 ^ j * int (nearest j sz) - uint sz\<bar> < t"
proof -
  define s where "s = uint sz"
  let ?x = "of_int s / 2 ^ j :: rat"
  have s: "s < 2 ^ 32" "0 \<le> s" using uint_bounded [of sz] by (simp_all add: s_def)
  have ws: "d_of_word sz = Fin (of_int s)" "uint sz = s" unfolding s_def by (simp_all only: d_of_word_u32)
  have "0 \<le> round_even ?x" by (rule round_even_ge) (simp add: s)
  then have r: "round_even ?x = int (nearest j sz)" unfolding nearest_def ws by simp
  have "?x = of_int s * pow2 (- int j)" by (simp add: pow2_def)
  then have x: "round_double ?x = Fin ?x"
    using round_double_exact [of ?x s "- int j"] s assms by simp
  then show 1: "d_rint (d_div (d_of_word sz) (Fin (2 ^ j))) = Fin (of_nat (nearest j sz))"
    by (simp add: ws r)
  have "\<bar>of_int (int (nearest j sz)) - ?x\<bar> \<le> 1 / 2" using round_even_near [of ?x] by (simp add: r)
  then have "\<bar>of_int (int (nearest j sz)) - ?x\<bar> * 2 ^ j \<le> 1 / 2 * 2 ^ j" by (rule mult_right_mono) simp
  moreover have "\<bar>of_int (int (nearest j sz)) - ?x\<bar> * 2 ^ j = \<bar>2 ^ j * of_nat (nearest j sz) - of_int s\<bar>"
  proof -
    have "(of_int (int (nearest j sz)) - ?x) * 2 ^ j = 2 ^ j * of_nat (nearest j sz) - of_int s"
      by (simp add: field_simps)
    then show ?thesis by (metis abs_mult abs_of_pos zero_less_numeral zero_less_power)
  qed
  ultimately have "\<bar>2 ^ j * of_nat (nearest j sz) - of_int s\<bar> \<le> 1 / 2 * (2 ^ j :: rat)" by (simp only:)
  then have "(of_int (2 * \<bar>2 ^ j * int (nearest j sz) - s\<bar>) :: rat) \<le> of_int (2 ^ j)" by simp
  then show 2: "2 * \<bar>2 ^ j * int (nearest j sz) - uint sz\<bar> \<le> 2 ^ j" by (simp only: ws(2) of_int_le_iff)
  have j: "(2::int) ^ j \<le> 2 ^ 30" by (rule power_increasing) (use assms in simp_all)
  let ?m = "2 ^ j * int (nearest j sz)"
  have "2 * \<bar>?m - s\<bar> \<le> 2 ^ 30" using 2 [unfolded ws(2)] j by (rule order_trans)
  then have "\<bar>?m - s\<bar> \<le> 2 ^ 29" by simp
  with s have bounds: "\<bar>?m - s\<bar> < 2 ^ 53 \<and> \<bar>?m\<bar> < 2 ^ 53" by (simp add: abs_le_iff abs_less_iff)
  have "d_mul (Fin (2 ^ j)) (Fin (of_nat (nearest j sz))) = Fin (of_int ?m)"
    using round_double_int [OF conjunct2 [OF bounds]] by simp
  moreover have "d_sub (Fin (of_int ?m)) (d_of_word sz) = Fin (of_int (?m - s))"
    using round_double_int [OF conjunct1 [OF bounds]] by (simp add: ws)
  ultimately show "near_multiple (2 ^ j) sz (of_int t) \<longleftrightarrow> \<bar>?m - uint sz\<bar> < t"
    by (simp only: near_multiple_def 1 ws(2) d_fabs.simps d_less.simps of_int_abs [symmetric] of_int_less_iff)
qed

lemma get_size_unit:
  assumes "size_factor p = Some c" "n * c < 2 ^ 32" "length (fmt_nat n) + length p \<le> 62"
  shows "get_size (snprintf (SPRINT_BSIZE - 1) (fmt_nat n @ p)) = Parsed (of_nat (n * c))"
  using get_size.parse_whole [OF factor_ends(1) [OF assms(1)], of _ n] assms
  by (simp add: snprintf_def SPRINT_BSIZE_def scale_by_def)

lemma printed_unit:
  assumes "j \<le> 30" "size_factor p = Some (2 ^ j)" "nearest j sz < 1000000" "nearest j sz * 2 ^ j < 2 ^ 32" "length p \<le> 20"
  shows "get_size (snprintf (SPRINT_BSIZE - 1)
      (d_text (\<lambda>q. fmt_g (nat \<lfloor>q\<rfloor>)) (d_rint (d_div (d_of_word sz) (Fin (2 ^ j)))) @ p)) =
    Parsed (of_nat (nearest j sz * 2 ^ j))"
proof -
  have "length (fmt_nat (nearest j sz)) \<le> 6"
    unfolding fmt_nat_def by (rule length_fmt_base) (use assms(3) in simp_all)
  then show ?thesis
    using get_size_unit [OF assms(2,4)] assms(3,5) by (simp add: d_text_def nearest_facts(1) [OF assms(1)] fmt_g_def)
qed

text \<open>
  A size below a million kilobytes that is printed in megabytes, kilobytes or bytes reads back
  as a size less than 1024 bytes away; below a megabyte it is less than 16 bytes away, and
  below a kilobyte it is the same.
\<close>

theorem printed_size_close:
  assumes "uint sz < 1000000 * 1024 - 512"
  shows "\<exists>v. get_size (sprint_size sz) = Parsed v \<and> \<bar>uint v - uint sz\<bar> < 1024 \<and>
    (uint sz < 1024 * 1024 \<longrightarrow> \<bar>uint v - uint sz\<bar> < 16) \<and> (uint sz < 1024 \<longrightarrow> v = sz)"
proof -
  have val: "uint (of_nat n :: u32) = int n" if "n < 2 ^ 32" for n using that by (simp add: uint_nat unat_of_nat)
  have le: "k \<le> sz \<longleftrightarrow> uint k \<le> uint sz" for k :: u32 by (rule word_le_def)
  have f: "size_factor ''Mb'' = Some (2 ^ 20)" "size_factor ''Kb'' = Some (2 ^ 10)" "size_factor ''b'' = Some 1"
    by (simp_all add: size_factor_def strcaseeq_def to_lower_def) (simp_all add: char_eq_nat del: of_char_eq_iff)
  note M = nearest_facts(2) [of 20 sz] nearest_facts(3) [of 20 sz 1024]
    and K = nearest_facts(2) [of 10 sz] nearest_facts(3) [of 10 sz 16]
  consider (mb) "1024 * 1024 \<le> uint sz" "near_multiple (1024 * 1024) sz 1024"
    | (kb) "1024 \<le> uint sz" "near_multiple 1024 sz 16" "\<not> (1024 * 1024 \<le> uint sz \<and> near_multiple (1024 * 1024) sz 1024)"
    | (b) "\<not> (1024 \<le> uint sz \<and> near_multiple 1024 sz 16)" "\<not> (1024 * 1024 \<le> uint sz \<and> near_multiple (1024 * 1024) sz 1024)"
    by blast
  then show ?thesis
  proof cases
    case mb
    then have n: "\<bar>2 ^ 20 * int (nearest 20 sz) - uint sz\<bar> < 1024" using M(2) by simp
    then have small: "nearest 20 sz < 1000000" "nearest 20 sz * 2 ^ 20 < 2 ^ 32" using assms by simp_all
    have "get_size (sprint_size sz) = Parsed (of_nat (nearest 20 sz * 2 ^ 20))"
      using printed_unit [OF _ f(1) small] mb by (auto simp: sprint_size_def print_size_def le)
    then show ?thesis using val [OF small(2)] n mb(1) by (simp add: mult.commute)
  next
    case kb
    then have n: "\<bar>2 ^ 10 * int (nearest 10 sz) - uint sz\<bar> < 16" using K(2) by simp
    then have small: "nearest 10 sz < 1000000" "nearest 10 sz * 2 ^ 10 < 2 ^ 32" using assms K(1) by simp_all
    have "get_size (sprint_size sz) = Parsed (of_nat (nearest 10 sz * 2 ^ 10))"
      using printed_unit [OF _ f(2) small] kb by (auto simp: sprint_size_def print_size_def le)
    then show ?thesis using val [OF small(2)] n kb(1) by (simp add: mult.commute)
  next
    case b
    have "length (fmt_nat (unat sz)) \<le> 10"
      unfolding fmt_nat_def using unsigned_less [of sz, where ?'a = nat] by (intro length_fmt_base) simp_all
    then have "get_size (sprint_size sz) = Parsed sz"
      using get_size_unit [OF f(3), of "unat sz"] b unsigned_less [of sz, where ?'a = nat]
      by (auto simp: sprint_size_def print_size_def le fmt_u_def fmt_nat_def)
    then show ?thesis by simp
  qed
qed

theorem printed_size_close_witness:
  "\<exists>v. get_size (sprint_size 65541) = Parsed v \<and> \<bar>uint v - 65541\<bar> < 16"
  using printed_size_close [of 65541] by auto

end
