(* ===== verification/Tc_Util.thy ===== *)
theory Tc_Util
  imports Units Utils_Cmd Netlink_Attr
begin

text \<open>
  Handles, verdicts, link layers and statistics of the tc command (\<^verbatim>\<open>tc_util.c\<close>). A handle is a
  32-bit number with a major part in its upper and a minor part in its lower half. What a print
  function writes into its buffer or to a stream is the string it returns.
\<close>

section \<open>Handles\<close>

definition TC_H_UNSPEC :: u32 where "TC_H_UNSPEC = 0"
definition TC_H_ROOT :: u32 where "TC_H_ROOT = 0xFFFFFFFF"
definition TC_H_MAJ :: "u32 \<Rightarrow> u32" where "TC_H_MAJ h = h AND 0xFFFF0000"
definition TC_H_MIN :: "u32 \<Rightarrow> u32" where "TC_H_MIN h = h AND 0x0000FFFF"

definition get_tc_lib :: "(string \<Rightarrow> string option) \<Rightarrow> string" where
  "get_tc_lib getenv = (case getenv ''TC_LIB_DIR'' of Some lib_dir \<Rightarrow> lib_dir | None \<Rightarrow> ''/usr/lib/tc/'')"

definition get_qdisc_handle :: "string \<Rightarrow> u32 option" where
  "get_qdisc_handle str =
     (if str = ''none'' then Some TC_H_UNSPEC
      else let (maj, p) = strtoul 16 str
           in if p = str then None
              else if p \<noteq> [] \<and> hd p \<noteq> CHR '':'' then None
              else Some (push_bit 16 (ucast maj)))"

definition get_tc_classid :: "string \<Rightarrow> u32 option" where
  "get_tc_classid str =
     (if str = ''root'' then Some TC_H_ROOT
      else if str = ''none'' then Some TC_H_UNSPEC
      else let (res, p) = strtoul 16 str; maj = (if p = str then 0 else ucast res :: u32)
           in if p = str \<and> (p = [] \<or> hd p \<noteq> CHR '':'') then None
              else if p \<noteq> [] \<and> hd p = CHR '':'' then
                if maj \<ge> push_bit 16 1 then None
                else let (res1, p1) = strtoul 16 (tl p); mnr = (ucast res1 :: u32)
                     in if p1 \<noteq> [] then None
                        else if mnr \<ge> push_bit 16 1 then None
                        else Some (push_bit 16 maj OR mnr)
              else if p \<noteq> [] then None
              else Some maj)"

definition print_tc_classid :: "nat \<Rightarrow> u32 \<Rightarrow> string" where
  "print_tc_classid len h =
     (if h = TC_H_ROOT then ''root''
      else if h = TC_H_UNSPEC then snprintf len ''none''
      else if TC_H_MAJ h = 0 then snprintf len ('':'' @ fmt_x (TC_H_MIN h))
      else if TC_H_MIN h = 0 then snprintf len (fmt_x (drop_bit 16 (TC_H_MAJ h)) @ '':'')
      else snprintf len (fmt_x (drop_bit 16 (TC_H_MAJ h)) @ '':'' @ fmt_x (TC_H_MIN h)))"

definition sprint_tc_classid :: "u32 \<Rightarrow> string" where
  "sprint_tc_classid h = print_tc_classid (SPRINT_BSIZE - 1) h"

definition print_qdisc_handle :: "nat \<Rightarrow> u32 \<Rightarrow> string" where
  "print_qdisc_handle len h = snprintf len (fmt_x (drop_bit 16 (TC_H_MAJ h)) @ '':'')"

definition sprint_qdisc_handle :: "u32 \<Rightarrow> string" where
  "sprint_qdisc_handle h = print_qdisc_handle (SPRINT_BSIZE - 1) h"

section \<open>Verdicts and link layers\<close>

definition TC_ACT_OK :: int where "TC_ACT_OK = 0"
definition TC_ACT_RECLASSIFY :: int where "TC_ACT_RECLASSIFY = 1"
definition TC_ACT_SHOT :: int where "TC_ACT_SHOT = 2"
definition TC_ACT_PIPE :: int where "TC_ACT_PIPE = 3"
definition TC_ACT_STOLEN :: int where "TC_ACT_STOLEN = 4"

definition action_n2a :: "int \<Rightarrow> nat \<Rightarrow> string" where
  "action_n2a action len =
     (if action = -1 then ''continue''
      else if action = TC_ACT_OK then ''pass''
      else if action = TC_ACT_SHOT then ''drop''
      else if action = TC_ACT_RECLASSIFY then ''reclassify''
      else if action = TC_ACT_PIPE then ''pipe''
      else if action = TC_ACT_STOLEN then ''stolen''
      else snprintf len (fmt_d action))"

text \<open>\<^verbatim>\<open>sscanf(arg, "%d%c", ...) == 1\<close>: a number and nothing after it, stored in an \<^verbatim>\<open>int\<close>.\<close>

definition scan_int :: "string \<Rightarrow> int option" where
  "scan_int arg =
     (let (v, p, erange) = strtol 10 arg
      in if p = arg \<or> p \<noteq> [] then None else Some (sint (of_int v :: u32)))"

definition action_a2n :: "string \<Rightarrow> int option" where
  "action_a2n arg =
     (if matches arg ''continue'' = 0 then Some (-1)
      else if matches arg ''drop'' = 0 then Some TC_ACT_SHOT
      else if matches arg ''shot'' = 0 then Some TC_ACT_SHOT
      else if matches arg ''pass'' = 0 then Some TC_ACT_OK
      else if arg = ''ok'' then Some TC_ACT_OK
      else if matches arg ''reclassify'' = 0 then Some TC_ACT_RECLASSIFY
      else scan_int arg)"

definition LINKLAYER_UNSPEC :: u32 where "LINKLAYER_UNSPEC = 0"
definition LINKLAYER_ETHERNET :: u32 where "LINKLAYER_ETHERNET = 1"
definition LINKLAYER_ATM :: u32 where "LINKLAYER_ATM = 2"

definition get_linklayer :: "string \<Rightarrow> u32 option" where
  "get_linklayer arg =
     (if matches arg ''ethernet'' = 0 then Some LINKLAYER_ETHERNET
      else if matches arg ''atm'' = 0 then Some LINKLAYER_ATM
      else if matches arg ''adsl'' = 0 then Some LINKLAYER_ATM
      else None)"

definition print_linklayer :: "nat \<Rightarrow> u32 \<Rightarrow> string" where
  "print_linklayer len linklayer =
     (if linklayer = LINKLAYER_UNSPEC then snprintf len ''unspec''
      else if linklayer = LINKLAYER_ETHERNET then snprintf len ''ethernet''
      else if linklayer = LINKLAYER_ATM then snprintf len ''atm''
      else snprintf len ''unknown'')"

definition sprint_linklayer :: "u32 \<Rightarrow> string" where
  "sprint_linklayer linklayer = print_linklayer (SPRINT_BSIZE - 1) linklayer"

section \<open>Statistics\<close>

record tcf_t =
  tm_install :: u64
  tm_lastuse :: u64
  tm_expires :: u64

text \<open>The tick rate of user space is an \<^verbatim>\<open>int\<close> that the division converts to 64 bits.\<close>

definition print_tm :: "int \<Rightarrow> tcf_t \<Rightarrow> string" where
  "print_tm hz tm =
     (let secs = (\<lambda>t. fmt_u (ucast (t div of_int hz) :: u32))
      in (if tm_install tm \<noteq> 0 then '' installed '' @ secs (tm_install tm) @ '' sec'' else []) @
         (if tm_lastuse tm \<noteq> 0 then '' used '' @ secs (tm_lastuse tm) @ '' sec'' else []) @
         (if tm_expires tm \<noteq> 0 then '' expires '' @ secs (tm_expires tm) @ '' sec'' else []))"

text \<open>
  A structure that is cleared and then filled with as much of the payload as there is:
  \<^verbatim>\<open>memcpy(&st, RTA_DATA(rta), MIN(RTA_PAYLOAD(rta), sizeof(st)))\<close>.
\<close>

definition load_struct :: "nat \<Rightarrow> u8 list \<Rightarrow> u8 list" where
  "load_struct sz rta =
     (let got = take (min (nat (RTA_PAYLOAD rta)) sz) (RTA_DATA rta) in got @ replicate (sz - length got) 0)"

definition TCA_STATS_MAX :: nat where "TCA_STATS_MAX = 4"
definition TCA_STATS_BASIC :: nat where "TCA_STATS_BASIC = 1"
definition TCA_STATS_RATE_EST :: nat where "TCA_STATS_RATE_EST = 2"
definition TCA_STATS_QUEUE :: nat where "TCA_STATS_QUEUE = 3"
definition TCA_STATS_APP :: nat where "TCA_STATS_APP = 4"

definition u32_at :: "nat \<Rightarrow> u8 list \<Rightarrow> u32" where "u32_at off bs = peek32 off bs"

definition u64_at :: "nat \<Rightarrow> u8 list \<Rightarrow> u64" where "u64_at off bs = of_le_bytes (take 8 (drop off bs))"

text \<open>The text, and the attribute that \<^verbatim>\<open>*xstats\<close> is set to.\<close>

definition print_tcstats2_attr :: "bool \<Rightarrow> u8 list \<Rightarrow> string \<Rightarrow> string \<times> u8 list option" where
  "print_tcstats2_attr use_iec rta prefx =
     (let tbs = parse_rtattr_nested TCA_STATS_MAX rta;
          basic = (case tbs ! TCA_STATS_BASIC of
                     Some a \<Rightarrow> let bs = load_struct 16 a
                               in prefx @ ''Sent '' @ fmt_u (u64_at 0 bs) @ '' bytes '' @ fmt_u (u32_at 8 bs) @ '' pkt''
                   | None \<Rightarrow> []);
          dropped = (case tbs ! TCA_STATS_QUEUE of
                       Some a \<Rightarrow> let q = load_struct 20 a
                                 in '' (dropped '' @ fmt_u (u32_at 8 q) @ '', overlimits '' @ fmt_u (u32_at 16 q) @
                                    '' requeues '' @ fmt_u (u32_at 12 q) @ '') ''
                     | None \<Rightarrow> []);
          rate = (case tbs ! TCA_STATS_RATE_EST of
                    Some a \<Rightarrow> let re = load_struct 8 a
                              in [newline] @ prefx @ ''rate '' @ sprint_rate use_iec (u32_at 0 re) @ '' '' @
                                 fmt_u (u32_at 4 re) @ ''pps ''
                  | None \<Rightarrow> []);
          backlog = (case tbs ! TCA_STATS_QUEUE of
                       Some a \<Rightarrow> let q = load_struct 20 a
                                 in (if tbs ! TCA_STATS_RATE_EST = None then [newline] @ prefx else []) @
                                    ''backlog '' @ sprint_size (u32_at 4 q) @ '' '' @ fmt_u (u32_at 0 q) @
                                    ''p requeues '' @ fmt_u (u32_at 12 q) @ '' ''
                     | None \<Rightarrow> [])
      in (basic @ dropped @ rate @ backlog, tbs ! TCA_STATS_APP))"

definition TCA_STATS :: nat where "TCA_STATS = 3"
definition TCA_XSTATS :: nat where "TCA_XSTATS = 4"
definition TCA_STATS2 :: nat where "TCA_STATS2 = 7"

definition print_tc_stats :: "bool \<Rightarrow> string \<Rightarrow> u8 list \<Rightarrow> string" where
  "print_tc_stats use_iec prefx st =
     (let bps = u32_at 20 st; pps = u32_at 24 st; qlen = u32_at 28 st; backlog = u32_at 32 st
      in prefx @ ''Sent '' @ fmt_u (u64_at 0 st) @ '' bytes '' @ fmt_u (u32_at 8 st) @ '' pkts (dropped '' @
         fmt_u (u32_at 12 st) @ '', overlimits '' @ fmt_u (u32_at 16 st) @ '') '' @
         (if bps \<noteq> 0 \<or> pps \<noteq> 0 \<or> qlen \<noteq> 0 \<or> backlog \<noteq> 0 then
            [newline] @ prefx @
            (if bps \<noteq> 0 \<or> pps \<noteq> 0 then
               ''rate '' @ (if bps \<noteq> 0 then sprint_rate use_iec bps @ '' '' else []) @
               (if pps \<noteq> 0 then fmt_u pps @ ''pps '' else [])
             else []) @
            (if qlen \<noteq> 0 \<or> backlog \<noteq> 0 then
               ''backlog '' @ (if backlog \<noteq> 0 then sprint_size backlog @ '' '' else []) @
               (if qlen \<noteq> 0 then fmt_u qlen @ ''p '' else [])
             else [])
          else []))"

text \<open>
  \<open>want\<close> tells whether the caller passes a place for \<^verbatim>\<open>xstats\<close>, \<open>xs\<close> what it holds before.
\<close>

definition print_tcstats_attr ::
  "bool \<Rightarrow> u8 list option list \<Rightarrow> string \<Rightarrow> bool \<Rightarrow> u8 list option \<Rightarrow> string \<times> u8 list option" where
  "print_tcstats_attr use_iec tb prefx want xs =
     (let compat = (\<lambda>x. if want \<and> tb ! TCA_XSTATS \<noteq> None then tb ! TCA_XSTATS else x)
      in case tb ! TCA_STATS2 of
           Some a \<Rightarrow> let (text, app) = print_tcstats2_attr use_iec a prefx; x = (if want then app else xs)
                     in if want \<and> x = None then (text, compat x) else (text, x)
         | None \<Rightarrow>
             ((case tb ! TCA_STATS of
                 Some a \<Rightarrow> print_tc_stats use_iec prefx (load_struct 40 a)
               | None \<Rightarrow> []), compat xs))"

section \<open>Handles read back\<close>

lemma TC_H_MIN_take: "TC_H_MIN h = take_bit 16 h"
proof -
  have "(0xFFFF :: u32) = mask 16" by (simp add: mask_eq_exp_minus_1)
  then show ?thesis unfolding TC_H_MIN_def by (simp only: take_bit_eq_mask)
qed

lemma TC_H_MAJ_push: "TC_H_MAJ h = push_bit 16 (drop_bit 16 h)"
proof -
  have "(0xFFFF0000 :: u32) = NOT (mask 16)" by (simp add: mask_eq_exp_minus_1)
  then have "TC_H_MAJ h = h AND NOT (mask 16)" unfolding TC_H_MAJ_def by (simp only:)
  also have "\<dots> = push_bit 16 (drop_bit 16 h)" by (rule bit_word_eqI) (auto simp: bit_simps)
  finally show ?thesis .
qed

lemma drop_MAJ: "drop_bit 16 (TC_H_MAJ h) = drop_bit 16 h"
  unfolding TC_H_MAJ_push by (rule bit_word_eqI) (auto simp: bit_simps dest: bit_imp_le_length)

lemma handle_halves: "push_bit 16 (drop_bit 16 (TC_H_MAJ h)) OR TC_H_MIN h = h"
  unfolding drop_MAJ TC_H_MIN_take by (rule bit_word_eqI) (auto simp: bit_simps)

lemma fmt_x_scan:
  assumes "ends_number rest"
  shows "strtoul 16 (fmt_x (w :: u32) @ rest) = (ucast w, rest)"
proof -
  have "scan_number 16 (fmt_base 16 (unat w) @ rest) = Some (False, unat w, rest)"
    by (rule scan_number_prefix) (use assms in simp_all)
  moreover have "unat w < 2 ^ 32" using unsigned_less [of w, where ?'a = nat] by simp
  ultimately show ?thesis by (simp add: strtoul_def fmt_x_def ULONG_MAX_def)
qed

lemma ucast_of_unat: "ucast (ucast (w :: u32) :: u64) = w"
  by (rule ucast_up_down) simp

lemma fmt_x_letters: "c \<in> set (fmt_x (w :: u32)) \<Longrightarrow> \<exists>d<16. c = digit_char d"
  using fmt_base_digits [of 16 c "unat w"] by (simp add: fmt_x_def)

lemma length_fmt_x: "length (fmt_x (w :: u32)) \<le> 8"
  unfolding fmt_x_def using unsigned_less [of w, where ?'a = nat] by (intro length_fmt_base) simp_all

lemma half_small: "drop_bit 16 (h :: u32) < 65536" "TC_H_MIN h < 65536"
proof -
  show "drop_bit 16 h < 65536"
    using unsigned_less [of h, where ?'a = nat]
    unfolding word_less_nat_alt unat_drop_bit_eq by (simp add: drop_bit_eq_div div_less_iff_less_mult)
  have "TC_H_MIN h \<le> 0xFFFF" unfolding TC_H_MIN_def by (rule word_and_le1)
  then show "TC_H_MIN h < 65536" by (rule le_less_trans) simp
qed

lemma colon_ends: "ends_number (CHR '':'' # r)" "ends_number []"
  by (simp_all add: ends_number_def digit_val_def)

text \<open>A major part, possibly left out, a colon, and a minor part, possibly left out.\<close>

lemma classid_colon:
  assumes "maj < 65536" "mnr < 65536"
    and "a = fmt_x maj \<or> a = [] \<and> maj = 0" "b = fmt_x mnr \<or> b = [] \<and> mnr = 0"
  shows "get_tc_classid (a @ '':'' @ b) = Some (push_bit 16 maj OR mnr)"
proof -
  have no: "CHR '':'' \<in> set (a @ '':'' @ b)" "CHR '':'' \<notin> set ''root''" "CHR '':'' \<notin> set ''none''" by simp_all
  then have ne: "a @ '':'' @ b \<noteq> ''root''" "a @ '':'' @ b \<noteq> ''none''" by metis+
  have b: "strtoul 16 b = (ucast mnr, [])"
    using assms(4) fmt_x_scan [OF colon_ends(2), of mnr] by (auto simp: strtoul_def scan_number_def scan_base_def)
  have sp: "strtoul 16 (CHR '':'' # b) = (0, CHR '':'' # b)"
    by (simp add: strtoul_def scan_number_def scan_base_def isspace_def digit_val_def split: list.splits)
  have small: "\<not> push_bit 16 1 \<le> maj" "\<not> push_bit 16 1 \<le> mnr" using assms(1,2) by (simp_all add: not_le)
  show ?thesis
  proof (cases "a = []")
    case True
    then have "maj = 0" using assms(3) by (metis fmt_base_ne fmt_x_def)
    then show ?thesis
      using True ne b sp small by (simp add: get_tc_classid_def ucast_of_unat)
  next
    case False
    then have a: "strtoul 16 (a @ CHR '':'' # b) = (ucast maj, CHR '':'' # b)"
      using assms(3) fmt_x_scan [OF colon_ends(1), of maj] by auto
    moreover have "CHR '':'' # b \<noteq> a @ CHR '':'' # b" using False by simp
    ultimately show ?thesis
      using ne b small by (simp add: get_tc_classid_def ucast_of_unat)
  qed
qed

lemma classid_text:
  assumes "20 \<le> len"
  shows "get_tc_classid (print_tc_classid len h) = Some h"
proof -
  let ?maj = "drop_bit 16 (TC_H_MAJ h)" and ?min = "TC_H_MIN h"
  note len = length_fmt_x [of ?maj] length_fmt_x [of ?min]
  have maj: "?maj < 65536" by (rule half_small)
  have zero: "TC_H_MAJ h = 0 \<longleftrightarrow> ?maj = 0"
    by (metis TC_H_MAJ_push drop_MAJ drop_bit_of_0 push_bit_of_0)
  show ?thesis
    using classid_colon [OF maj half_small(2) [of h], of "fmt_x ?maj" "fmt_x ?min"]
      classid_colon [OF maj half_small(2) [of h], of "fmt_x ?maj" "[]"]
      classid_colon [OF maj half_small(2) [of h], of "[]" "fmt_x ?min"] handle_halves [of h] zero len assms
    by (auto simp: print_tc_classid_def snprintf_def get_tc_classid_def TC_H_UNSPEC_def)
qed

text \<open>
  Reading the text of a handle gives the handle back: for every class identifier,
  the special ones and those with an empty half included, and for the major part that
  \<^verbatim>\<open>print_qdisc_handle\<close> prints. The text always fits its buffer.
\<close>

theorem handle_text_roundtrip:
  "get_tc_classid (sprint_tc_classid h) = Some h \<and>
   get_qdisc_handle (sprint_qdisc_handle h) = Some (TC_H_MAJ h) \<and>
   length (sprint_tc_classid h) < SPRINT_BSIZE \<and> length (sprint_qdisc_handle h) < SPRINT_BSIZE"
proof (intro conjI)
  let ?maj = "drop_bit 16 (TC_H_MAJ h)" and ?min = "TC_H_MIN h"
  note len = length_fmt_x [of ?maj] length_fmt_x [of ?min]
  have maj: "?maj < 65536" by (rule half_small)
  show "length (sprint_tc_classid h) < SPRINT_BSIZE" "length (sprint_qdisc_handle h) < SPRINT_BSIZE"
    by (auto simp: sprint_tc_classid_def sprint_qdisc_handle_def print_tc_classid_def print_qdisc_handle_def
        snprintf_def SPRINT_BSIZE_def)
  show "get_qdisc_handle (sprint_qdisc_handle h) = Some (TC_H_MAJ h)"
  proof -
    have t: "sprint_qdisc_handle h = fmt_x ?maj @ '':''"
      using len by (simp add: sprint_qdisc_handle_def print_qdisc_handle_def snprintf_def SPRINT_BSIZE_def)
    have "CHR '':'' \<in> set (fmt_x ?maj @ '':'')" "CHR '':'' \<notin> set ''none''" by simp_all
    then have "fmt_x ?maj @ '':'' \<noteq> ''none''" by metis
    moreover have "push_bit 16 ?maj = TC_H_MAJ h" unfolding drop_MAJ by (rule TC_H_MAJ_push [symmetric])
    ultimately show ?thesis
      using fmt_x_scan [OF colon_ends(1), of ?maj "[]"]
      by (simp add: t get_qdisc_handle_def ucast_of_unat, simp add: fmt_x_def)
  qed
  show "get_tc_classid (sprint_tc_classid h) = Some h"
    unfolding sprint_tc_classid_def by (rule classid_text) (simp add: SPRINT_BSIZE_def)
qed

section \<open>Verdicts read back\<close>

lemma strcmp_sign_0: "strcmp_sign a b = 0 \<longleftrightarrow> a = b"
  by (induction a b rule: strcmp_sign.induct) auto

lemma matches_0_iff: "matches cmd pat = 0 \<longleftrightarrow> take (length cmd) pat = cmd \<and> length cmd \<le> length pat"
  by (auto simp: matches_def strcmp_sign_0)

lemma matches_number:
  assumes "matches (fmt_d v) pat = 0" "pat \<noteq> []"
  shows "digit_val (hd pat) < 10 \<or> hd pat = CHR ''-''"
proof -
  obtain c cs where t: "fmt_d v = c # cs" by (cases "fmt_d v") (auto simp: fmt_d_def split: if_splits)
  have "digit_val c < 10 \<or> c = CHR ''-''"
  proof (cases "v < 0")
    case False
    then have "c \<in> set (fmt_base 10 (nat v))" using t by (simp add: fmt_d_def)
    then show ?thesis using fmt_base_digits [of 10 c "nat v"] by auto
  qed (use t in \<open>simp add: fmt_d_def\<close>)
  moreover have "hd pat = c" using assms t by (cases pat) (auto simp: matches_0_iff)
  ultimately show ?thesis by simp
qed

lemma scan_int_fmt:
  assumes "INT_MIN \<le> v" "v \<le> INT_MAX" shows "scan_int (fmt_d v) = Some v"
proof -
  have "scan_number 10 (fmt_d v) = Some (v < 0, nat \<bar>v\<bar>, [])"
    using scan_number_fmt [of 10 10 "nat v"] scan_number_minus_fmt [of 10 10 "nat (- v)"] by (auto simp: fmt_d_def)
  then have "strtol 10 (fmt_d v) = (v, [], False)"
    using assms by (auto simp: strtol_def Let_def LONG_MIN_def LONG_MAX_def INT_MIN_def INT_MAX_def)
  moreover have "sint (of_int v :: u32) = v"
    using assms by (simp add: signed_of_int signed_take_bit_int_eq_self INT_MIN_def INT_MAX_def)
  moreover have "fmt_d v \<noteq> []" by (simp add: fmt_d_def)
  ultimately show ?thesis by (simp add: scan_int_def)
qed

text \<open>
  The text that is printed for a verdict reads back as the verdict, except for \<^verbatim>\<open>pipe\<close> and
  \<^verbatim>\<open>stolen\<close>, which are printed but not understood.
\<close>

theorem action_text_roundtrip:
  assumes "INT_MIN \<le> a" "a \<le> INT_MAX" "12 \<le> len"
  shows "action_a2n (action_n2a a len) = (if a = TC_ACT_PIPE \<or> a = TC_ACT_STOLEN then None else Some a)"
proof (cases "a \<in> {-1, 0, 1, 2, 3, 4}")
  case True
  have "action_a2n ''continue'' = Some (-1)" "action_a2n ''pass'' = Some 0" "action_a2n ''reclassify'' = Some 1"
    "action_a2n ''drop'' = Some 2" "action_a2n ''pipe'' = None" "action_a2n ''stolen'' = None"
    by code_simp+
  then show ?thesis using True
    by (auto simp: action_n2a_def TC_ACT_OK_def TC_ACT_RECLASSIFY_def TC_ACT_SHOT_def TC_ACT_PIPE_def TC_ACT_STOLEN_def)
next
  case False
  have "nat a < 10 ^ 10" "nat (- a) < 10 ^ 10" using assms by (simp_all add: INT_MIN_def INT_MAX_def)
  then have len: "length (fmt_d a) \<le> 11"
    using length_fmt_base [of "nat a" 10 10] length_fmt_base [of "nat (- a)" 10 10] by (auto simp: fmt_d_def)
  have t: "action_n2a a len = fmt_d a"
    using False assms(3) len
    by (simp add: action_n2a_def snprintf_def TC_ACT_OK_def TC_ACT_RECLASSIFY_def TC_ACT_SHOT_def TC_ACT_PIPE_def
        TC_ACT_STOLEN_def)
  have no: "matches (fmt_d a) pat \<noteq> 0" if "pat \<in> {''continue'', ''drop'', ''shot'', ''pass'', ''ok'', ''reclassify''}" for pat
    using matches_number [of a pat] that by (auto simp: digit_val_def)
  have "fmt_d a \<noteq> ''ok''" using no [of "''ok''"] by (auto simp: matches_0_iff)
  then show ?thesis
    using no scan_int_fmt [OF assms(1,2)] False
    by (simp add: t action_a2n_def TC_ACT_PIPE_def TC_ACT_STOLEN_def)
qed

theorem action_text_roundtrip_witness:
  "action_a2n (action_n2a 7 64) = Some 7 \<and> action_a2n (action_n2a 4 64) = None"
  using action_text_roundtrip [of 7 64] action_text_roundtrip [of 4 64]
  by (simp add: INT_MIN_def INT_MAX_def TC_ACT_PIPE_def TC_ACT_STOLEN_def)

end
