(* ===== verification/Q_Pfabric.thy ===== *)
theory Q_Pfabric
  imports Tc_Util Pfab_Props Netlink_Hdr
begin

text \<open>
  The pFabric module of the tc command (\<^verbatim>\<open>q_pfabric.c\<close>): reading the options of the discipline
  from the command line into a netlink message, and printing them. A result is \<open>None\<close> when the
  code runs into undefined behaviour; \<open>Exit\<close> is the end of the program in \<^verbatim>\<open>NEXT_ARG\<close>.
\<close>

definition DEFAULT_PACKET_BUFFER_LIMIT :: u32 where "DEFAULT_PACKET_BUFFER_LIMIT = 150"

definition default_qopt :: tc_pfabric_qopt where
  "default_qopt = \<lparr>qo_limit = DEFAULT_PACKET_BUFFER_LIMIT, qo_disable_dequeue = 0\<rparr>"

text \<open>The structure in memory: two 32-bit fields.\<close>

definition qopt_bytes :: "tc_pfabric_qopt \<Rightarrow> u8 list" where
  "qopt_bytes q = le_bytes 4 (qo_limit q) @ le_bytes 4 (of_int (qo_disable_dequeue q) :: u32)"

text \<open>The loop over the arguments: the options, or -1 after an error message.\<close>

fun pfabric_args :: "string list \<Rightarrow> tc_pfabric_qopt \<Rightarrow> (int + tc_pfabric_qopt) cexit option" where
  "pfabric_args [] opt = Some (Ret (Inr opt))"
| "pfabric_args (a # r) opt =
     (if matches a ''limit'' = 0 then
        (case r of
           [] \<Rightarrow> Some incomplete_command
         | v # r' \<Rightarrow>
             (case get_size v of
                Rejected \<Rightarrow> Some (Ret (Inl (-1)))
              | Undefined \<Rightarrow> None
              | Parsed w \<Rightarrow> pfabric_args r' (opt\<lparr>qo_limit := w\<rparr>)))
      else if matches a ''disable_dequeue'' = 0 then
        (case r of [] \<Rightarrow> Some incomplete_command | v # r' \<Rightarrow> pfabric_args r' (opt\<lparr>qo_disable_dequeue := 1\<rparr>))
      else if matches a ''enable_dequeue'' = 0 then
        (case r of [] \<Rightarrow> Some incomplete_command | v # r' \<Rightarrow> pfabric_args r' (opt\<lparr>qo_disable_dequeue := 0\<rparr>))
      else Some (Ret (Inl (-1))))"

definition TCA_OPTIONS :: u16 where "TCA_OPTIONS = 2"

text \<open>
  The last assignment of the function stores the difference of the end of the message and itself,
  zero, behind the end of the message.
\<close>

definition pfabric_parse_opt :: "string list \<Rightarrow> u8 list \<Rightarrow> (int \<times> u8 list) cexit option" where
  "pfabric_parse_opt argv n =
     (case pfabric_args argv default_qopt of
        None \<Rightarrow> None
      | Some (Exit e) \<Rightarrow> Some (Exit e)
      | Some (Ret (Inl rc)) \<Rightarrow> Some (Ret (rc, n))
      | Some (Ret (Inr opt)) \<Rightarrow>
          let (rc, n1) = addattr_l n 1024 TCA_OPTIONS (qopt_bytes opt)
          in if rc < 0 then Some (Ret (-1, n1))
             else let tail = NLMSG_TAIL n1
                  in Some (Ret (0, poke tail (le_bytes 2 (of_int (int (NLMSG_TAIL n1) - int tail) :: u16)) n1)))"

text \<open>The header of the attribute is read before the pointer is tested.\<close>

definition pfabric_print_opt :: "u8 list option \<Rightarrow> (int \<times> string) option" where
  "pfabric_print_opt opt =
     (case opt of
        None \<Rightarrow> None
      | Some rta \<Rightarrow>
          if RTA_PAYLOAD rta - int sizeof_qopt < 0 then Some (-1, [])
          else let q = read_qopt (take sizeof_qopt (RTA_DATA rta))
               in Some (0, ''limit '' @ fmt_d (sint (qo_limit q)) @
                           ''disable_dequeue '' @ fmt_d (qo_disable_dequeue q)))"

section \<open>From the command line to the discipline\<close>

lemma read_qopt_bytes:
  assumes "qo_disable_dequeue q \<in> {0, 1}" shows "read_qopt (qopt_bytes q @ r) = q"
  using assms by (cases q) (auto simp: read_qopt_def qopt_bytes_def)

lemma pfabric_args_switch:
  "pfabric_args argv opt = Some (Ret (Inr q)) \<Longrightarrow> qo_disable_dequeue opt \<in> {0, 1} \<Longrightarrow>
   qo_disable_dequeue q \<in> {0, 1}"
proof (induction argv opt rule: pfabric_args.induct)
  case (2 a r opt)
  then show ?case
    by (auto simp: incomplete_command_def split: if_splits list.splits cparsed.splits)
qed auto

text \<open>The whole effect of the parser on a message that has room: one more attribute.\<close>

lemma parse_opt_msg:
  assumes "nl_msg hdr as n" "hdr + length (encs as) + 12 \<le> 1024" "1026 \<le> length n"
    and "pfabric_args argv default_qopt = Some (Ret (Inr q))"
  shows "\<exists>n'. pfabric_parse_opt argv n = Some (Ret (0, n')) \<and> nl_msg hdr (as @ [(TCA_OPTIONS, qopt_bytes q, [])]) n' \<and>
    length n' = length n \<and> take (hdr - 4) (drop 4 n') = take (hdr - 4) (drop 4 n)"
proof -
  let ?d = "qopt_bytes q"
  have d: "length ?d = 8" by (simp add: qopt_bytes_def)
  obtain p n1 where n1: "addattr_l n 1024 TCA_OPTIONS ?d = (0, n1)" "nl_msg hdr (as @ [(TCA_OPTIONS, ?d, p)]) n1"
    "length n1 = length n" "take (hdr - 4) (drop 4 n1) = take (hdr - 4) (drop 4 n)"
    using addattr_l_msg(2) [OF assms(1), of ?d 1024 TCA_OPTIONS] assms(2,3) d by (auto simp: align4_def)
  have "attr_ok (TCA_OPTIONS, ?d, p)" using n1(2) by (simp add: nl_msg_def)
  then have p: "p = []" using d by (simp add: align4_def)
  let ?t = "NLMSG_TAIL n1"
  let ?n' = "poke ?t (le_bytes 2 (0 :: u16)) n1"
  have t: "hdr \<le> ?t" "?t + 2 \<le> length n1" using NLMSG_TAIL_msg [OF n1(2)] n1(3) assms(2,3) d p by simp_all
  have "nl_msg hdr (as @ [(TCA_OPTIONS, ?d, [])]) ?n'" using poke_tail_msg [OF n1(2)] t(2) p by simp
  moreover have "take hdr ?n' = take hdr n1" using t by (simp add: poke_def)
  then have "take (hdr - 4) (drop 4 ?n') = take (hdr - 4) (drop 4 n)" unfolding n1(4) [symmetric] by (metis drop_take)
  moreover have "length ?n' = length n" using t(2) n1(3) by (simp add: length_poke)
  moreover have "pfabric_parse_opt argv n = Some (Ret (0, ?n'))"
    using n1(1) assms(4) by (simp add: pfabric_parse_opt_def Let_def)
  ultimately show ?thesis by blast
qed

text \<open>The payload configures the discipline as the command line says.\<close>

lemma change_installs:
  assumes "pfabric_args argv default_qopt = Some (Ret (Inr q))"
  shows "\<exists>s'. pfab_change (Some (qopt_bytes q)) s = (0, s') \<and> pd_limit (pfab_data s') = qo_limit q \<and>
    pd_disable_dequeue (pfab_data s') = qo_disable_dequeue q"
proof -
  have "read_qopt (qopt_bytes q) = q"
    using read_qopt_bytes [OF pfabric_args_switch [OF assms], of "[]"] by (simp add: default_qopt_def)
  then show ?thesis by (simp add: pfab_change_def sizeof_qopt_def Let_def qopt_bytes_def)
qed

lemma limit_arg:
  assumes "N < 2 ^ 32" shows "pfabric_args [''limit'', fmt_nat N] opt = Some (Ret (Inr (opt\<lparr>qo_limit := of_nat N\<rparr>)))"
proof -
  have "get_size (fmt_nat N) = Parsed (of_nat N)"
    using get_size.parse_whole [of "[]" _ N] assms by (simp add: ends_decimal_def scale_by_def size_factor_def)
  then show ?thesis by (simp add: matches_0_iff)
qed

text \<open>
  What \<^verbatim>\<open>tc\<close> accepts is what the kernel installs. When the arguments are read as options, the
  message gets one attribute in which the kernel's parser finds a payload that \<^verbatim>\<open>pfab_change\<close>
  accepts, and the discipline then runs with exactly these options; in particular
  \<^verbatim>\<open>limit N\<close> sets the limit to \<open>N\<close> for every number that fits, and no arguments mean the default.
\<close>

theorem options_reach_discipline:
  assumes "nl_msg hdr as n" "first_attr (unat TCA_OPTIONS) as = None" "unat TCA_OPTIONS \<le> mx"
    and "hdr + length (encs as) + 12 \<le> 1024" "1026 \<le> length n"
    and "pfabric_args argv default_qopt = Some (Ret (Inr q))"
  shows "(\<exists>n' rta s'. pfabric_parse_opt argv n = Some (Ret (0, n')) \<and>
      fst (parse_rtattr mx (drop hdr n') (uint (nlmsg_len n') - int hdr)) ! unat TCA_OPTIONS = Some rta \<and>
      pfab_change (Some (rta_payload rta)) s = (0, s') \<and>
      pd_limit (pfab_data s') = qo_limit q \<and> pd_disable_dequeue (pfab_data s') = qo_disable_dequeue q) \<and>
    (\<forall>N < 2 ^ 32. argv = [''limit'', fmt_nat N] \<longrightarrow> qo_limit q = of_nat N \<and> qo_disable_dequeue q = 0) \<and>
    (argv = [] \<longrightarrow> q = default_qopt)"
proof (intro conjI allI impI)
  obtain n' where n': "pfabric_parse_opt argv n = Some (Ret (0, n'))" "nl_msg hdr (as @ [(TCA_OPTIONS, qopt_bytes q, [])]) n'"
    using parse_opt_msg [OF assms(1,4,5,6)] by blast
  have "first_attr (unat TCA_OPTIONS) (as @ [(TCA_OPTIONS, qopt_bytes q, [])]) = Some (qopt_bytes q)"
    using assms(2) by (simp add: first_attr_snoc)
  then show "\<exists>n' rta s'. pfabric_parse_opt argv n = Some (Ret (0, n')) \<and>
      fst (parse_rtattr mx (drop hdr n') (uint (nlmsg_len n') - int hdr)) ! unat TCA_OPTIONS = Some rta \<and>
      pfab_change (Some (rta_payload rta)) s = (0, s') \<and>
      pd_limit (pfab_data s') = qo_limit q \<and> pd_disable_dequeue (pfab_data s') = qo_disable_dequeue q"
    using n'(1) msg_attr [OF n'(2) assms(3)] change_installs [OF assms(6), of s] by metis
next
  fix N :: nat assume "N < 2 ^ 32" "argv = [''limit'', fmt_nat N]"
  then have "q = default_qopt\<lparr>qo_limit := of_nat N\<rparr>" using assms(6) limit_arg [of N default_qopt] by simp
  then show "qo_limit q = of_nat N" "qo_disable_dequeue q = 0" by (simp_all add: default_qopt_def)
qed (use assms(6) in simp)

definition tc_request :: "u8 list" where
  "tc_request = le_bytes 4 (36 :: u32) @ replicate 2000 0"

theorem options_reach_discipline_witness:
  "\<exists>n' rta s'. pfabric_parse_opt [''limit'', fmt_nat 300] tc_request = Some (Ret (0, n')) \<and>
     fst (parse_rtattr 8 (drop 36 n') (uint (nlmsg_len n') - 36)) ! 2 = Some rta \<and>
     pfab_change (Some (rta_payload rta)) started = (0, s') \<and> pd_limit (pfab_data s') = 300"
proof -
  have m: "nl_msg 36 [] tc_request"
    by (simp add: nl_msg_def tc_request_def nlmsg_len_def peek32_def)
  have t: "unat TCA_OPTIONS = 2" by (simp add: TCA_OPTIONS_def)
  have "pfabric_args [''limit'', fmt_nat 300] default_qopt = Some (Ret (Inr (default_qopt\<lparr>qo_limit := 300\<rparr>)))"
    using limit_arg [of 300 default_qopt] by simp
  from options_reach_discipline [OF m _ _ _ _ this, of 8 started] show ?thesis
    by (simp add: t first_attr_def tc_request_def) blast
qed

end
