(* ===== verification/Tc_Core.thy ===== *)
theory Tc_Core
  imports Tc_Util
begin

text \<open>
  The arithmetic of the tc command (\<^verbatim>\<open>tc_core.c\<close>): conversion between time and the ticks of the
  packet scheduler, rate tables, and the size tables that account for link-layer overhead. A
  computation that the C standard leaves undefined (a conversion from \<^verbatim>\<open>double\<close> that does not
  fit, a signed overflow, an oversized shift) is \<open>None\<close>.
\<close>

section \<open>Ticks\<close>

record tc_clock =
  tick_in_usec :: cdouble
  clock_factor :: cdouble

definition initial_clock :: tc_clock where
  "initial_clock = \<lparr>tick_in_usec = Fin 1, clock_factor = Fin 1\<rparr>"

definition tc_core_time2big :: "tc_clock \<Rightarrow> u32 \<Rightarrow> bool option" where
  "tc_core_time2big k time =
     map_option (\<lambda>t :: u64. drop_bit 32 t \<noteq> 0)
       (word_of_double (d_mul (d_of_word (ucast time :: u64)) (tick_in_usec k)))"

definition tc_core_time2tick :: "tc_clock \<Rightarrow> u32 \<Rightarrow> u32 option" where
  "tc_core_time2tick k time = word_of_double (d_mul (d_of_word time) (tick_in_usec k))"

definition tc_core_tick2time :: "tc_clock \<Rightarrow> u32 \<Rightarrow> u32 option" where
  "tc_core_tick2time k tick = word_of_double (d_div (d_of_word tick) (tick_in_usec k))"

definition tc_core_time2ktime :: "tc_clock \<Rightarrow> u32 \<Rightarrow> u32 option" where
  "tc_core_time2ktime k time = word_of_double (d_mul (d_of_word time) (clock_factor k))"

definition tc_core_ktime2time :: "tc_clock \<Rightarrow> u32 \<Rightarrow> u32 option" where
  "tc_core_ktime2time k ktime = word_of_double (d_div (d_of_word ktime) (clock_factor k))"

definition sprint_ticks :: "tc_clock \<Rightarrow> u32 \<Rightarrow> string option" where
  "sprint_ticks k ticks = map_option sprint_time (tc_core_tick2time k ticks)"

definition tc_calc_xmittime :: "tc_clock \<Rightarrow> u32 \<Rightarrow> u32 \<Rightarrow> u32 option" where
  "tc_calc_xmittime k rate sz =
     Option.bind
       (word_of_double (d_mul (Fin (of_nat TIME_UNITS_PER_SEC)) (d_div (d_of_word sz) (d_of_word rate))))
       (tc_core_time2tick k)"

definition tc_calc_xmitsize :: "tc_clock \<Rightarrow> u32 \<Rightarrow> u32 \<Rightarrow> u32 option" where
  "tc_calc_xmitsize k rate ticks =
     Option.bind (tc_core_tick2time k ticks)
       (\<lambda>t. word_of_double (d_div (d_mul (d_of_word rate) (d_of_word t)) (Fin (of_nat TIME_UNITS_PER_SEC))))"

text \<open>
  \<^verbatim>\<open>tc_core_init\<close>: \<open>psched\<close> is what the clock file holds, \<open>None\<close> when it cannot be opened or has
  fewer than three numbers.
\<close>

definition tc_core_init :: "(u32 \<times> u32 \<times> u32) option \<Rightarrow> tc_clock \<Rightarrow> int \<times> tc_clock" where
  "tc_core_init psched k =
     (case psched of
        None \<Rightarrow> (-1, k)
      | Some (t2us, us2t, clock_res) \<Rightarrow>
          let t2us1 = (if clock_res = 1000000000 then us2t else t2us);
              factor = d_div (d_of_word clock_res) (Fin (of_nat TIME_UNITS_PER_SEC))
          in (0, \<lparr>tick_in_usec = d_mul (d_div (d_of_word t2us1) (d_of_word us2t)) factor,
                  clock_factor = factor\<rparr>))"

section \<open>Sizes on the link\<close>

definition ATM_CELL_SIZE :: int where "ATM_CELL_SIZE = 53"
definition ATM_CELL_PAYLOAD :: u32 where "ATM_CELL_PAYLOAD = 48"

definition tc_align_to_atm :: "u32 \<Rightarrow> u32 option" where
  "tc_align_to_atm sz =
     (let cells = uint (sz div ATM_CELL_PAYLOAD) + (if sz mod ATM_CELL_PAYLOAD > 0 then 1 else 0);
          linksize = cells * ATM_CELL_SIZE
      in if linksize > INT_MAX then None else Some (of_int linksize))"

definition tc_adjust_size :: "u32 \<Rightarrow> u32 \<Rightarrow> u32 \<Rightarrow> u32 option" where
  "tc_adjust_size sz mpu linklayer =
     (let sz1 = (if sz < mpu then mpu else sz)
      in if linklayer = LINKLAYER_ATM then tc_align_to_atm sz1 else Some sz1)"

text \<open>\<^verbatim>\<open>(i + 1) << cell_log\<close> in \<^verbatim>\<open>int\<close>.\<close>

definition cell_size :: "nat \<Rightarrow> nat \<Rightarrow> u32 option" where
  "cell_size i cell_log = (if int (Suc i * 2 ^ cell_log) > INT_MAX then None else Some (of_nat (Suc i * 2 ^ cell_log)))"

text \<open>\<^verbatim>\<open>while ((mtu >> cell_log) > bound) cell_log++;\<close> from zero; a shift by 32 is undefined.\<close>

definition cell_log_of :: "u32 \<Rightarrow> u32 \<Rightarrow> nat option" where
  "cell_log_of mtu bound = List.find (\<lambda>c. drop_bit c mtu \<le> bound) [0..<32]"

record tc_ratespec =
  rs_cell_log :: u8
  rs_overhead :: u16
  rs_cell_align :: int
  rs_mpu :: u16
  rs_rate :: u32

text \<open>The return value, the table of 256 entries, and the specification with its cell fields.\<close>

definition tc_calc_rtable ::
  "tc_clock \<Rightarrow> tc_ratespec \<Rightarrow> int \<Rightarrow> u32 \<Rightarrow> u32 \<Rightarrow> (int \<times> u32 list \<times> tc_ratespec) option" where
  "tc_calc_rtable k r cell_log mtu linklayer =
     Option.bind
       (if cell_log < 0 then cell_log_of (if mtu = 0 then 2047 else mtu) 255 else Some (nat cell_log))
       (\<lambda>c. map_option
          (\<lambda>rtab. (int c, rtab, r\<lparr>rs_cell_align := -1, rs_cell_log := of_nat c\<rparr>))
          (those (map (\<lambda>i. Option.bind (cell_size i c)
                              (\<lambda>x. Option.bind (tc_adjust_size x (ucast (rs_mpu r)) linklayer)
                                      (tc_calc_xmittime k (rs_rate r)))) [0..<256])))"

section \<open>Size tables\<close>

record tc_sizespec =
  ss_cell_log :: u8
  ss_size_log :: u8
  ss_cell_align :: int
  ss_overhead :: int
  ss_linklayer :: u32
  ss_mpu :: u32
  ss_mtu :: u32
  ss_tsize :: u32

text \<open>
  One pass of the loop over the slots, from the last to the first: the entries, or \<open>None\<close> when an
  entry does not fit 16 bits and the pass is abandoned. The slots' sizes do not change from
  pass to pass.
\<close>

fun stab_pass :: "nat \<Rightarrow> u32 list \<Rightarrow> u16 list \<Rightarrow> u16 list option" where
  "stab_pass size_log [] entries = Some entries"
| "stab_pass size_log (sz # szs) entries =
     (if drop_bit size_log sz > 0xFFFF then None
      else stab_pass size_log szs (ucast (drop_bit size_log sz) # entries))"

text \<open>
  \<^verbatim>\<open>again\<close>: passes with a growing \<^verbatim>\<open>size_log\<close>. A shift by 32 or more is undefined.
\<close>

function stab_again :: "nat \<Rightarrow> u32 list \<Rightarrow> (nat \<times> u16 list) option" where
  "stab_again size_log szs =
     (if size_log \<ge> 32 then None
      else case stab_pass size_log szs [] of
             Some entries \<Rightarrow> Some (size_log, entries)
           | None \<Rightarrow> stab_again (Suc size_log) szs)"
  by auto
termination by (relation "measure (\<lambda>(size_log, _). 32 - size_log)") auto

declare stab_again.simps [simp del]

definition stab_sizes :: "nat \<Rightarrow> nat \<Rightarrow> u32 \<Rightarrow> u32 \<Rightarrow> u32 list option" where
  "stab_sizes n cell_log mpu linklayer =
     those (map (\<lambda>i. Option.bind (cell_size i cell_log) (\<lambda>x. tc_adjust_size x mpu linklayer)) (rev [0..<n]))"

text \<open>
  \<open>alloc\<close> tells whether \<^verbatim>\<open>malloc\<close> succeeds. The index of the loop is an \<^verbatim>\<open>int\<close>, so a table size of
  \<open>2 ^ 31\<close> or more leaves every slot unwritten; such a table is \<open>None\<close> here.
\<close>

definition tc_calc_size_table ::
  "bool \<Rightarrow> tc_sizespec \<Rightarrow> (int \<times> tc_sizespec \<times> u16 list option) option" where
  "tc_calc_size_table alloc s =
     (if ss_linklayer s \<le> LINKLAYER_ETHERNET \<and> ss_mpu s = 0
      then Some (0, s\<lparr>ss_mtu := 0, ss_tsize := 0, ss_cell_log := 0, ss_cell_align := 0\<rparr>, None)
      else let s1 = (if ss_mtu s = 0 then s\<lparr>ss_mtu := 2047\<rparr> else s);
               s2 = (if ss_tsize s1 = 0 then s1\<lparr>ss_tsize := 512\<rparr> else s1)
           in Option.bind (cell_log_of (ss_mtu s2) (ss_tsize s2 - 1))
                (\<lambda>c. let s3 = s2\<lparr>ss_cell_log := of_nat c\<rparr>
                     in if \<not> alloc then Some (-1, s3, None)
                        else if unat (ss_tsize s3) \<ge> 2 ^ 31 then None
                        else Option.bind (stab_sizes (unat (ss_tsize s3)) c (ss_mpu s3) (ss_linklayer s3))
                               (\<lambda>szs. map_option
                                  (\<lambda>(l, entries). (0, s3\<lparr>ss_size_log := of_nat l, ss_cell_align := -1\<rparr>, Some entries))
                                  (stab_again (unat (ss_size_log s3)) szs))))"

section \<open>Estimators\<close>

record tc_estimator =
  est_interval :: int
  est_ewma_log :: u8

text \<open>
  \<open>lg\<close> is \<^verbatim>\<open>log\<close> of the mathematical library. The shift \<^verbatim>\<open>1 << 31\<close> gives the least \<^verbatim>\<open>int\<close>, as compilers
  do it.
\<close>

definition tc_setup_estimator ::
  "(cdouble \<Rightarrow> cdouble) \<Rightarrow> u32 \<Rightarrow> u32 \<Rightarrow> tc_estimator \<Rightarrow> int \<times> tc_estimator" where
  "tc_setup_estimator lg A time_const est =
     (let i = (case List.find (\<lambda>i. unat A \<le> 2 ^ i * (TIME_UNITS_PER_SEC div 4)) [0..<6] of Some i \<Rightarrow> i | None \<Rightarrow> 6)
      in if i > 5 then (-1, est\<lparr>est_interval := int i\<rparr>)
         else let w = (\<lambda>e. d_sub (Fin 1) (d_div (Fin 1) (Fin (of_int (sint (push_bit e (1 :: u32)))))));
                  over = (\<lambda>e. d_less (d_of_word time_const) (d_div (d_of_word A) (d_sub (Fin 0) (lg (w e)))));
                  e = (case List.find over [1..<32] of Some e \<Rightarrow> e | None \<Rightarrow> 32) - 1
              in (if e = 0 \<or> e \<ge> 31 then -1 else 0, \<lparr>est_interval = int i - 2, est_ewma_log = of_nat e\<rparr>))"

section \<open>Facts about the tables\<close>

lemma stab_pass_Some_iff:
  "stab_pass l szs acc = Some t \<longleftrightarrow>
     list_all (\<lambda>sz. drop_bit l sz \<le> 0xFFFF) szs \<and> t = rev (map (\<lambda>sz. ucast (drop_bit l sz)) szs) @ acc"
  by (induction l szs acc rule: stab_pass.induct) (auto simp: not_less)

lemma drop_16_small: "drop_bit 16 (w :: u32) \<le> 0xFFFF"
proof -
  have "drop_bit 16 w < 65536" by (rule half_small(1))
  then show ?thesis by (simp add: word_le_nat_alt word_less_nat_alt)
qed

text \<open>
  The passes end: the least sufficient \<^verbatim>\<open>size_log\<close> is at most 16 when the search starts there.
\<close>

lemma stab_again_result:
  assumes "l \<le> 16"
  shows "\<exists>m t. stab_again l szs = Some (m, t) \<and> l \<le> m \<and> m \<le> 16 \<and>
    list_all (\<lambda>sz. drop_bit m sz \<le> 0xFFFF) szs \<and> t = rev (map (\<lambda>sz. ucast (drop_bit m sz)) szs) \<and>
    (\<forall>k. l \<le> k \<and> k < m \<longrightarrow> \<not> list_all (\<lambda>sz. drop_bit k sz \<le> 0xFFFF) szs)"
  using assms
proof (induction "16 - l" arbitrary: l)
  case 0
  then have l: "l = 16" by simp
  have "list_all (\<lambda>sz. drop_bit 16 sz \<le> 0xFFFF) szs" using drop_16_small by (simp add: list_all_iff)
  then have "stab_pass l szs [] = Some (rev (map (\<lambda>sz. ucast (drop_bit l sz)) szs))"
    unfolding stab_pass_Some_iff l by simp
  then show ?case using \<open>list_all _ szs\<close> l by (subst stab_again.simps) auto
next
  case (Suc d)
  show ?case
  proof (cases "stab_pass l szs []")
    case (Some t)
    then have "list_all (\<lambda>sz. drop_bit l sz \<le> 0xFFFF) szs" "t = rev (map (\<lambda>sz. ucast (drop_bit l sz)) szs)"
      by (simp_all add: stab_pass_Some_iff)
    then show ?thesis using Some Suc.prems by (subst stab_again.simps) auto
  next
    case None
    then have no: "\<not> list_all (\<lambda>sz. drop_bit l sz \<le> 0xFFFF) szs"
      using stab_pass_Some_iff [of l szs "[]"] by auto
    have "stab_again l szs = stab_again (Suc l) szs" using None Suc.prems by (subst stab_again.simps) simp
    moreover have "d = 16 - Suc l" "Suc l \<le> 16" using Suc.hyps(2) by auto
    from Suc.hyps(1) [OF this] obtain m t where
      mt: "stab_again (Suc l) szs = Some (m, t)" "Suc l \<le> m" "m \<le> 16"
      "list_all (\<lambda>sz. drop_bit m sz \<le> 0xFFFF) szs" "t = rev (map (\<lambda>sz. ucast (drop_bit m sz)) szs)"
      "\<forall>k. Suc l \<le> k \<and> k < m \<longrightarrow> \<not> list_all (\<lambda>sz. drop_bit k sz \<le> 0xFFFF) szs" by blast
    moreover have "\<forall>k. l \<le> k \<and> k < m \<longrightarrow> \<not> list_all (\<lambda>sz. drop_bit k sz \<le> 0xFFFF) szs"
      using mt(6) no by (metis Suc_leI le_neq_implies_less)
    ultimately show ?thesis by (intro exI [of _ m] exI [of _ t]) (simp add: Suc_leD)
  qed
qed

lemma those_map_Some: "(\<And>x. x \<in> set xs \<Longrightarrow> f x = Some (g x)) \<Longrightarrow> those (map f xs) = Some (map g xs)"
  by (induction xs) simp_all

text \<open>The bytes a packet takes on the link, as a number without a width.\<close>

definition link_size :: "u32 \<Rightarrow> nat \<Rightarrow> nat" where
  "link_size linklayer x = (if linklayer = LINKLAYER_ATM then 53 * ((x + 47) div 48) else x)"

lemma link_size_le: "x \<le> 2 ^ 30 \<Longrightarrow> link_size ll x < 2 ^ 31"
  by (auto simp: link_size_def)

lemma cells_eq: "(n :: nat) div 48 + (if 0 < n mod 48 then 1 else 0) = (n + 47) div 48"
proof -
  have "n + 47 = (n mod 48 + 47) + (n div 48) * 48" by simp
  then have "(n + 47) div 48 = n div 48 + (n mod 48 + 47) div 48"
    by (metis div_mult_self1 numeral_neq_zero)
  moreover have "n mod 48 < 48" by simp
  then have "(n mod 48 + 47) div 48 = (if 0 < n mod 48 then 1 else 0)" by auto
  ultimately show ?thesis by simp
qed

lemma tc_adjust_size_eq:
  assumes "unat sz \<le> 2 ^ 30" "unat mpu \<le> 2 ^ 30"
  shows "tc_adjust_size sz mpu ll = Some (of_nat (link_size ll (max (unat sz) (unat mpu))))"
proof -
  define x where "x = (if sz < mpu then mpu else sz)"
  have x: "unat x = max (unat sz) (unat mpu)" by (simp add: x_def word_less_nat_alt max_def)
  then have small: "unat x \<le> 2 ^ 30" using assms by simp
  have u48: "unat (48 :: u32) = 48" by simp
  have "uint (x div 48) + (if x mod 48 > 0 then 1 else 0) = int ((unat x + 47) div 48)"
    using cells_eq [of "unat x"] u48
    by (simp add: uint_nat unat_div unat_mod word_greater_zero_iff unat_eq_0 flip: unat_gt_0 cells_eq)
  then have "tc_align_to_atm x = Some (of_nat (53 * ((unat x + 47) div 48)))"
    using small by (simp add: tc_align_to_atm_def ATM_CELL_PAYLOAD_def ATM_CELL_SIZE_def INT_MAX_def Let_def ac_simps)
  then show ?thesis by (simp add: tc_adjust_size_def x_def [symmetric] link_size_def flip: x)
qed

text \<open>The cell logarithm: the least one that maps every length up to the limit to a slot.\<close>

lemma cell_log_of_Some:
  assumes "unat mtu < 2 ^ 31"
  shows "\<exists>c<32. cell_log_of mtu bound = Some c \<and> unat mtu div 2 ^ c \<le> unat bound \<and>
    (\<forall>k<c. unat bound < unat mtu div 2 ^ k)"
proof -
  have le: "drop_bit c mtu \<le> bound \<longleftrightarrow> unat mtu div 2 ^ c \<le> unat bound" for c
    unfolding word_le_nat_alt unat_drop_bit_eq by (simp add: drop_bit_eq_div)
  have "drop_bit 31 mtu \<le> bound" using assms by (simp add: le)
  then have "cell_log_of mtu bound \<noteq> None" unfolding cell_log_of_def find_upt_None_iff by (intro notI) (drule spec [of _ 31], simp)
  then obtain c where "cell_log_of mtu bound = Some c" by blast
  then show ?thesis by (auto simp: cell_log_of_def find_upt_Some_iff le not_le)
qed

lemma cell_log_bound:
  fixes m bnd :: nat
  assumes "\<forall>k<c. bnd < m div 2 ^ k" "Suc bnd \<le> T" "m \<le> T"
  shows "Suc bnd * 2 ^ c \<le> 2 * T"
proof (cases c)
  case (Suc k)
  then have "Suc bnd \<le> m div 2 ^ k" using assms(1) by auto
  then have "Suc bnd * 2 ^ k \<le> m" by (simp add: less_eq_div_iff_mult_less_eq)
  then show ?thesis using assms(3) Suc by simp
qed (use assms in simp)

text \<open>What slot \<open>i\<close> stands for, before it is shifted.\<close>

definition slot_size :: "tc_sizespec \<Rightarrow> nat \<Rightarrow> nat" where
  "slot_size s i = link_size (ss_linklayer s) (max (Suc i * 2 ^ unat (ss_cell_log s)) (unat (ss_mpu s)))"

lemma slots_computed:
  fixes n c mpu ll
  defines "g \<equiv> \<lambda>i. link_size ll (max (Suc i * 2 ^ c) (unat mpu))"
  assumes "n * 2 ^ c \<le> 2 ^ 30" "unat mpu \<le> 2 ^ 30"
  shows "stab_sizes n c mpu ll = Some (map (\<lambda>i. of_nat (g i)) (rev [0..<n]))" "\<forall>i<n. g i < 2 ^ 31"
proof -
  have slot: "Suc i * 2 ^ c \<le> 2 ^ 30" if "i < n" for i
    using le_trans [OF mult_le_mono1 [of "Suc i" n "2 ^ c"] assms(2)] that by simp
  show "\<forall>i<n. g i < 2 ^ 31"
    unfolding g_def using slot assms(3) by (intro allI impI link_size_le) simp
  have "Option.bind (cell_size i c) (\<lambda>x. tc_adjust_size x mpu ll) = Some (of_nat (g i))" if "i < n" for i
  proof -
    have u: "unat (of_nat (Suc i * 2 ^ c) :: u32) = Suc i * 2 ^ c"
      using slot [OF that] by (intro unat_of_nat_eq) simp
    have "\<not> INT_MAX < int (Suc i * 2 ^ c)" using slot [OF that] by (simp add: INT_MAX_def del: of_nat_Suc of_nat_mult mult_Suc)
    then show ?thesis
      using tc_adjust_size_eq [of "of_nat (Suc i * 2 ^ c)" mpu ll] slot [OF that] assms(3)
      by (simp only: cell_size_def if_False Option.bind.bind_lunit u g_def)
  qed
  then show "stab_sizes n c mpu ll = Some (map (\<lambda>i. of_nat (g i)) (rev [0..<n]))"
    unfolding stab_sizes_def by (intro those_map_Some) simp
qed

lemma slots_packed:
  assumes "l0 \<le> 16" "\<forall>i<n. g i < 2 ^ 31"
  shows "\<exists>l t. stab_again l0 (map (\<lambda>i. of_nat (g i)) (rev [0..<n])) = Some (l, t) \<and> l \<le> 16 \<and> length t = n \<and>
    (\<forall>i<n. unat (t ! i) = g i div 2 ^ l) \<and> (\<forall>k. l0 \<le> k \<and> k < l \<longrightarrow> (\<exists>i<n. 2 ^ 16 \<le> g i div 2 ^ k))"
proof -
  let ?szs = "map (\<lambda>i. of_nat (g i)) (rev [0..<n]) :: u32 list"
  have u: "unat (drop_bit k (of_nat (g i) :: u32)) = g i div 2 ^ k" if "i < n" for i k
  proof -
    have "unat (of_nat (g i) :: u32) = g i" using assms(2) that by (intro unat_of_nat_eq) auto
    then show ?thesis unfolding unat_drop_bit_eq by (simp add: drop_bit_eq_div)
  qed
  have fits: "list_all (\<lambda>sz. drop_bit k sz \<le> 0xFFFF) ?szs \<longleftrightarrow> (\<forall>i<n. g i div 2 ^ k < 2 ^ 16)" for k
  proof -
    have "(x :: nat) \<le> 0xFFFF \<longleftrightarrow> x < 2 ^ 16" for x by auto
    then show ?thesis by (auto simp: list_all_iff word_le_nat_alt u)
  qed
  obtain l t where l: "stab_again l0 ?szs = Some (l, t)" "l \<le> 16" "list_all (\<lambda>sz. drop_bit l sz \<le> 0xFFFF) ?szs"
    "t = rev (map (\<lambda>sz. ucast (drop_bit l sz)) ?szs)"
    "\<forall>k. l0 \<le> k \<and> k < l \<longrightarrow> \<not> list_all (\<lambda>sz. drop_bit k sz \<le> 0xFFFF) ?szs"
    using stab_again_result [OF assms(1), of ?szs] by blast
  have t: "t = map (\<lambda>i. ucast (drop_bit l (of_nat (g i) :: u32))) [0..<n]" unfolding l(4) by (simp add: rev_map)
  have "unat (t ! i) = g i div 2 ^ l" if "i < n" for i
  proof -
    have "g i div 2 ^ l < 2 ^ 16" using l(3) fits that by blast
    moreover have "(ucast (drop_bit l (of_nat (g i) :: u32)) :: u16) = of_nat (g i div 2 ^ l)"
      unfolding u [OF that, of l, symmetric] by (simp only: of_nat_unat)
    ultimately have "unat (ucast (drop_bit l (of_nat (g i) :: u32)) :: u16) = g i div 2 ^ l"
      by (simp only: unat_of_nat_eq len_num1 len_bit0) (simp add: unat_of_nat)
    then show ?thesis using that by (simp add: t)
  qed
  then show ?thesis using l(1,2,5) fits by (intro exI [of _ l] exI [of _ t]) (auto simp: t not_less)
qed

definition effective :: "u32 \<Rightarrow> nat \<Rightarrow> nat" where
  "effective w dflt = (if w = 0 then dflt else unat w)"

text \<open>
  C21: Whenever a size table is needed, computing it ends and succeeds: the table has the requested
  number of slots (512 if none was requested), every packet length up to the limit (2047 if
  none was given) has a slot, the slot holds the bytes such a packet takes on the link, at
  least the minimum packet unit and rounded up to ATM cells on that layer, shifted by the
  least \<^verbatim>\<open>size_log\<close> with which all slots fit 16 bits, so nothing is cut off.
\<close>

theorem size_table_complete:
  assumes "\<not> (ss_linklayer s \<le> LINKLAYER_ETHERNET \<and> ss_mpu s = 0)" "unat (ss_size_log s) \<le> 16"
    and "unat (ss_mtu s) \<le> 2 ^ 29" "unat (ss_tsize s) \<le> 2 ^ 29" "unat (ss_mpu s) \<le> 2 ^ 30"
  shows "\<exists>s' t. tc_calc_size_table True s = Some (0, s', Some t) \<and>
    length t = effective (ss_tsize s) 512 \<and> unat (ss_size_log s') \<le> 16 \<and>
    effective (ss_mtu s) 2047 div 2 ^ unat (ss_cell_log s') < length t \<and>
    (\<forall>i<length t. unat (t ! i) =
       slot_size s' i div
         2 ^ unat (ss_size_log s')) \<and>
    (\<forall>k. unat (ss_size_log s) \<le> k \<and> k < unat (ss_size_log s') \<longrightarrow>
       (\<exists>i<length t. 2 ^ 16 \<le>
          slot_size s' i div 2 ^ k))"
proof -
  define mtu where "mtu = (if ss_mtu s = 0 then 2047 else ss_mtu s)"
  define tsz where "tsz = (if ss_tsize s = 0 then 512 else ss_tsize s)"
  have eff: "effective (ss_mtu s) 2047 = unat mtu" "effective (ss_tsize s) 512 = unat tsz"
    by (simp_all add: effective_def mtu_def tsz_def)
  have m: "unat mtu \<le> 2 ^ 29" and t: "unat tsz \<le> 2 ^ 29" "tsz \<noteq> 0"
    using assms(3,4) by (simp_all add: mtu_def tsz_def)
  have bnd: "Suc (unat (tsz - 1)) = unat tsz" using t(2) by (simp add: unat_pred unat_gt_0)
  obtain c where c: "c < 32" "cell_log_of mtu (tsz - 1) = Some c" "unat mtu div 2 ^ c \<le> unat (tsz - 1)"
    "\<forall>k<c. unat (tsz - 1) < unat mtu div 2 ^ k"
    using cell_log_of_Some [of mtu "tsz - 1"] m by auto
  have top: "unat tsz * 2 ^ c \<le> 2 ^ 30"
    using cell_log_bound [OF c(4), of "2 ^ 29"] bnd m t(1) by simp
  note slots = slots_computed [OF top assms(5), of "ss_linklayer s"]
  obtain l r where l: "stab_again (unat (ss_size_log s)) (map (\<lambda>i. of_nat (link_size (ss_linklayer s)
      (max (Suc i * 2 ^ c) (unat (ss_mpu s))))) (rev [0..<unat tsz])) = Some (l, r)" "l \<le> 16" "length r = unat tsz"
    "\<forall>i<unat tsz. unat (r ! i) = link_size (ss_linklayer s) (max (Suc i * 2 ^ c) (unat (ss_mpu s))) div 2 ^ l"
    "\<forall>k. unat (ss_size_log s) \<le> k \<and> k < l \<longrightarrow>
       (\<exists>i<unat tsz. 2 ^ 16 \<le> link_size (ss_linklayer s) (max (Suc i * 2 ^ c) (unat (ss_mpu s))) div 2 ^ k)"
    using slots_packed [OF assms(2) slots(2)] by blast
  define s' where "s' = s\<lparr>ss_mtu := mtu, ss_tsize := tsz, ss_cell_log := of_nat c, ss_size_log := of_nat l, ss_cell_align := -1\<rparr>"
  have logs: "unat (ss_cell_log s') = c" "unat (ss_size_log s') = l"
    using c(1) l(2) by (simp_all add: s'_def unat_of_nat_eq)
  have "(if ss_mtu s = 0 then s\<lparr>ss_mtu := 2047\<rparr> else s) = s\<lparr>ss_mtu := mtu\<rparr>"
    "(if ss_tsize (s\<lparr>ss_mtu := mtu\<rparr>) = 0 then s\<lparr>ss_mtu := mtu, ss_tsize := 512\<rparr> else s\<lparr>ss_mtu := mtu\<rparr>) =
      s\<lparr>ss_mtu := mtu, ss_tsize := tsz\<rparr>"
    by (cases s; simp add: mtu_def tsz_def)+
  then have "tc_calc_size_table True s = Some (0, s', Some r)"
    using assms(1) c(2) slots(1) l(1) t(1) unfolding tc_calc_size_table_def s'_def by (auto simp: Let_def)
  moreover have "slot_size s' = (\<lambda>i. link_size (ss_linklayer s) (max (Suc i * 2 ^ c) (unat (ss_mpu s))))"
    unfolding slot_size_def logs by (simp add: s'_def)
  ultimately show ?thesis
    using l(2-5) c(3) bnd unfolding eff by (intro exI [of _ s'] exI [of _ r]) (simp only: logs, simp)
qed

definition demo_spec :: tc_sizespec where
  "demo_spec = \<lparr>ss_cell_log = 0, ss_size_log = 0, ss_cell_align = 0, ss_overhead = 20,
                ss_linklayer = LINKLAYER_ATM, ss_mpu = 0, ss_mtu = 0, ss_tsize = 0\<rparr>"

theorem size_table_complete_witness:
  "\<exists>s' t. tc_calc_size_table True demo_spec = Some (0, s', Some t) \<and> length t = 512"
proof -
  have "\<not> (ss_linklayer demo_spec \<le> LINKLAYER_ETHERNET \<and> ss_mpu demo_spec = 0)"
    by (simp add: demo_spec_def LINKLAYER_ATM_def LINKLAYER_ETHERNET_def word_le_nat_alt)
  from size_table_complete [OF this] show ?thesis by (auto simp: demo_spec_def effective_def)
qed

end
