(* ===== verification/Tc_Stab.thy ===== *)
theory Tc_Stab
  imports Tc_Core Utils_Props
begin

unbundle bit_operations_syntax

text \<open>
  The options of \<^verbatim>\<open>tc qdisc\<close> that every discipline shares: size tables (\<^verbatim>\<open>tc_stab.c\<close>) and rate
  estimators (\<^verbatim>\<open>m_estimator.c\<close>). Command lines are lists of words that start at the current one.
  A result is \<open>None\<close> where a conversion from \<^verbatim>\<open>double\<close> is undefined.
\<close>

section \<open>Size tables\<close>

definition check_size_table_opts :: "tc_sizespec \<Rightarrow> bool" where
  "check_size_table_opts s \<longleftrightarrow> ss_linklayer s \<ge> LINKLAYER_ETHERNET \<or> ss_mpu s \<noteq> 0 \<or> ss_overhead s \<noteq> 0"

definition no_sizespec :: tc_sizespec where
  "no_sizespec = \<lparr>ss_cell_log = 0, ss_size_log = 0, ss_cell_align = 0, ss_overhead = 0,
                  ss_linklayer = LINKLAYER_UNSPEC, ss_mpu = 0, ss_mtu = 0, ss_tsize = 0\<rparr>"

fun stab_args :: "string list \<Rightarrow> tc_sizespec \<Rightarrow> (string list \<times> tc_sizespec) cexit" where
  "stab_args [] s = Ret ([], s)"
| "stab_args (a # r) s =
     (if matches a ''mtu'' = 0 then
        (case r of
           [] \<Rightarrow> incomplete_command
         | v # r' \<Rightarrow>
             if ss_mtu s \<noteq> 0 then duparg ''mtu'' v
             else case get_u32 v 10 of
                    None \<Rightarrow> invarg ''mtu'' ''invalid mtu''
                  | Some w \<Rightarrow> stab_args r' (s\<lparr>ss_mtu := w\<rparr>))
      else if matches a ''mpu'' = 0 then
        (case r of
           [] \<Rightarrow> incomplete_command
         | v # r' \<Rightarrow>
             if ss_mpu s \<noteq> 0 then duparg ''mpu'' v
             else case get_u32 v 10 of
                    None \<Rightarrow> invarg ''mpu'' ''invalid mpu''
                  | Some w \<Rightarrow> stab_args r' (s\<lparr>ss_mpu := w\<rparr>))
      else if matches a ''overhead'' = 0 then
        (case r of
           [] \<Rightarrow> incomplete_command
         | v # r' \<Rightarrow>
             if ss_overhead s \<noteq> 0 then duparg ''overhead'' v
             else case get_integer v 10 of
                    None \<Rightarrow> invarg ''overhead'' ''invalid overhead''
                  | Some i \<Rightarrow> stab_args r' (s\<lparr>ss_overhead := i\<rparr>))
      else if matches a ''tsize'' = 0 then
        (case r of
           [] \<Rightarrow> incomplete_command
         | v # r' \<Rightarrow>
             if ss_tsize s \<noteq> 0 then duparg ''tsize'' v
             else case get_u32 v 10 of
                    None \<Rightarrow> invarg ''tsize'' ''invalid table size''
                  | Some w \<Rightarrow> stab_args r' (s\<lparr>ss_tsize := w\<rparr>))
      else if matches a ''linklayer'' = 0 then
        (case r of
           [] \<Rightarrow> incomplete_command
         | v # r' \<Rightarrow>
             if ss_linklayer s \<noteq> LINKLAYER_UNSPEC then duparg ''linklayer'' v
             else case get_linklayer v of
                    None \<Rightarrow> invarg ''linklayer'' ''invalid linklayer''
                  | Some w \<Rightarrow> stab_args r' (s\<lparr>ss_linklayer := w\<rparr>))
      else Ret (a # r, s))"

text \<open>The return code, the words that are left and the options; both are unchanged on failure.\<close>

definition parse_size_table :: "string list \<Rightarrow> tc_sizespec \<Rightarrow> (int \<times> string list \<times> tc_sizespec) cexit" where
  "parse_size_table argv sp =
     (case NEXT_ARG argv of
        Exit e \<Rightarrow> Exit e
      | Ret argv1 \<Rightarrow>
          if matches (hd argv1) ''help'' = 0 then Ret (-1, argv, sp)
          else case stab_args argv1 no_sizespec of
                 Exit e \<Rightarrow> Exit e
               | Ret (argv2, s) \<Rightarrow> if \<not> check_size_table_opts s then Ret (-1, argv, sp) else Ret (0, argv2, s))"

text \<open>The structure in memory, 24 bytes.\<close>

definition sizespec_bytes :: "tc_sizespec \<Rightarrow> u8 list" where
  "sizespec_bytes s =
     le_bytes 1 (ss_cell_log s) @ le_bytes 1 (ss_size_log s) @ le_bytes 2 (of_int (ss_cell_align s) :: u16) @
     le_bytes 4 (of_int (ss_overhead s) :: u32) @ le_bytes 4 (ss_linklayer s) @ le_bytes 4 (ss_mpu s) @
     le_bytes 4 (ss_mtu s) @ le_bytes 4 (ss_tsize s)"

definition read_sizespec :: "u8 list \<Rightarrow> tc_sizespec" where
  "read_sizespec bs =
     \<lparr>ss_cell_log = of_le_bytes (take 1 bs), ss_size_log = of_le_bytes (take 1 (drop 1 bs)),
      ss_cell_align = sint (of_le_bytes (take 2 (drop 2 bs)) :: u16),
      ss_overhead = sint (of_le_bytes (take 4 (drop 4 bs)) :: u32),
      ss_linklayer = of_le_bytes (take 4 (drop 8 bs)), ss_mpu = of_le_bytes (take 4 (drop 12 bs)),
      ss_mtu = of_le_bytes (take 4 (drop 16 bs)), ss_tsize = of_le_bytes (take 4 (drop 20 bs))\<rparr>"

definition TCA_STAB_BASE :: u16 where "TCA_STAB_BASE = 1"
definition TCA_STAB_DATA :: u16 where "TCA_STAB_DATA = 2"
definition TCA_STAB_MAX :: nat where "TCA_STAB_MAX = 2"

definition print_size_table :: "string \<Rightarrow> u8 list \<Rightarrow> string" where
  "print_size_table prefx rta =
     (case parse_rtattr_nested TCA_STAB_MAX rta ! unat TCA_STAB_BASE of
        None \<Rightarrow> []
      | Some a \<Rightarrow>
          let s = read_sizespec (load_struct 24 a)
          in prefx @
             (if ss_linklayer s \<noteq> 0 then ''linklayer '' @ sprint_linklayer (ss_linklayer s) @ '' '' else []) @
             (if ss_overhead s \<noteq> 0 then ''overhead '' @ fmt_d (ss_overhead s) @ '' '' else []) @
             (if ss_mpu s \<noteq> 0 then ''mpu '' @ fmt_u (ss_mpu s) @ '' '' else []) @
             (if ss_mtu s \<noteq> 0 then ''mtu '' @ fmt_u (ss_mtu s) @ '' '' else []) @
             (if ss_tsize s \<noteq> 0 then ''tsize '' @ fmt_u (ss_tsize s) @ '' '' else []))"

section \<open>Estimators\<close>

definition get_time_arg :: "string \<Rightarrow> string \<Rightarrow> u32 cexit option" where
  "get_time_arg arg msg =
     (case get_time arg of
        Rejected \<Rightarrow> Some (invarg ''estimator'' msg)
      | Undefined \<Rightarrow> None
      | Parsed w \<Rightarrow> Some (Ret w))"

text \<open>
  The return code, the estimator and the words from the last one that was read on. The estimator
  is changed also where the parameters are out of range.
\<close>

definition parse_estimator ::
  "(cdouble \<Rightarrow> cdouble) \<Rightarrow> string list \<Rightarrow> tc_estimator \<Rightarrow> (int \<times> string list \<times> tc_estimator) cexit option" where
  "parse_estimator lg argv est =
     (case NEXT_ARG argv of
        Exit e \<Rightarrow> Some (Exit e)
      | Ret argv1 \<Rightarrow>
          if est_ewma_log est \<noteq> 0 then Some (duparg ''estimator'' (hd argv1))
          else case get_time_arg (hd argv1) ''invalid estimator interval'' of
                 None \<Rightarrow> None
               | Some (Exit e) \<Rightarrow> Some (Exit e)
               | Some (Ret A) \<Rightarrow>
                   (case NEXT_ARG argv1 of
                      Exit e \<Rightarrow> Some (Exit e)
                    | Ret argv2 \<Rightarrow>
                        (case get_time_arg (hd argv2) ''invalid estimator time constant'' of
                           None \<Rightarrow> None
                         | Some (Exit e) \<Rightarrow> Some (Exit e)
                         | Some (Ret time_const) \<Rightarrow>
                             let (rc, est1) = tc_setup_estimator lg A time_const est
                             in if rc < 0 then Some (Ret (-1, argv, est1)) else Some (Ret (0, argv2, est1)))))"

section \<open>The words that are left\<close>

text \<open>Every option consumes words, so that the loop over a command line ends.\<close>

lemma NEXT_ARG_shorter: "NEXT_ARG argv = Ret argv1 \<Longrightarrow> length argv1 < length argv \<and> argv1 = tl argv \<and> argv1 \<noteq> []"
  by (auto simp: NEXT_ARG_def incomplete_command_def split: list.splits)

lemma stab_args_shorter: "stab_args argv s = Ret (argv', s') \<Longrightarrow> length argv' \<le> length argv"
proof (induction argv s rule: stab_args.induct)
  case (2 a r s)
  then show ?case
    by (auto simp: incomplete_command_def duparg_def invarg_def split: if_splits list.splits option.splits) force+
qed simp

lemma parse_size_table_shorter: "parse_size_table argv sp = Ret (rc, argv', s) \<Longrightarrow> \<not> rc < 0 \<Longrightarrow> length argv' < length argv"
  using NEXT_ARG_shorter stab_args_shorter
  by (fastforce simp: parse_size_table_def split: cexit.splits if_splits prod.splits)

lemma parse_estimator_shorter: "parse_estimator lg argv est = Some (Ret (0, argv', e)) \<Longrightarrow> length argv' < length argv"
  by (auto simp: parse_estimator_def Let_def duparg_def dest!: NEXT_ARG_shorter
      split: cexit.splits if_splits prod.splits option.splits)

section \<open>A printed size table reads back\<close>

lemma sint_of_int_32: "INT_MIN \<le> i \<Longrightarrow> i \<le> INT_MAX \<Longrightarrow> sint (of_int i :: u32) = i"
  by (simp add: signed_of_int signed_take_bit_int_eq_self INT_MIN_def INT_MAX_def)

text \<open>The part of the structure that is printed.\<close>

lemma read_sizespec_bytes:
  assumes "INT_MIN \<le> ss_overhead s" "ss_overhead s \<le> INT_MAX"
  shows "ss_overhead (read_sizespec (sizespec_bytes s)) = ss_overhead s"
    "ss_linklayer (read_sizespec (sizespec_bytes s)) = ss_linklayer s"
    "ss_mpu (read_sizespec (sizespec_bytes s)) = ss_mpu s"
    "ss_mtu (read_sizespec (sizespec_bytes s)) = ss_mtu s"
    "ss_tsize (read_sizespec (sizespec_bytes s)) = ss_tsize s"
  using sint_of_int_32 [OF assms] by (simp_all add: read_sizespec_def sizespec_bytes_def)

lemma load_struct_all: "RTA_PAYLOAD a = int (length d) \<Longrightarrow> RTA_DATA a = d @ rest \<Longrightarrow> load_struct (length d) a = d"
  by (simp add: load_struct_def)

definition stab_words :: "tc_sizespec \<Rightarrow> string list" where
  "stab_words s =
     (if ss_linklayer s \<noteq> 0 then [''linklayer'', sprint_linklayer (ss_linklayer s)] else []) @
     (if ss_overhead s \<noteq> 0 then [''overhead'', fmt_d (ss_overhead s)] else []) @
     (if ss_mpu s \<noteq> 0 then [''mpu'', fmt_u (ss_mpu s)] else []) @
     (if ss_mtu s \<noteq> 0 then [''mtu'', fmt_u (ss_mtu s)] else []) @
     (if ss_tsize s \<noteq> 0 then [''tsize'', fmt_u (ss_tsize s)] else [])"

lemma unwords_append: "unwords (a @ b) = unwords a @ unwords b"
  by (induction a) simp_all

lemma print_size_table_words:
  assumes "list_all attr_ok as" "attr_ok (t, encs as, p)" "first_attr 1 as = Some (sizespec_bytes s)"
    "INT_MIN \<le> ss_overhead s" "ss_overhead s \<le> INT_MAX"
  shows "print_size_table prefx (enc (t, encs as, p) @ r) = prefx @ unwords (stab_words s)"
proof -
  let ?rta = "enc (t, encs as, p) @ r"
  have "unat (rta_len ?rta) = 4 + length (encs as)" by (rule enc_head(3) [OF assms(2)])
  then have "RTA_PAYLOAD ?rta = int (length (encs as))" by (simp only: RTA_PAYLOAD_def uint_nat)
  moreover have "RTA_DATA ?rta = encs as @ p @ r" by (simp add: RTA_DATA_def)
  ultimately obtain a rest where a: "parse_rtattr_nested TCA_STAB_MAX ?rta ! unat TCA_STAB_BASE = Some a"
    "RTA_PAYLOAD a = int (length (sizespec_bytes s))" "RTA_DATA a = sizespec_bytes s @ rest"
    using parse_rtattr_entry [OF assms(1), of 1 TCA_STAB_MAX "p @ r"] assms(3)
    by (auto simp: parse_rtattr_nested_def TCA_STAB_MAX_def TCA_STAB_BASE_def simp del: enc.simps)
  have "length (sizespec_bytes s) = 24" by (simp add: sizespec_bytes_def)
  then have "load_struct 24 a = sizespec_bytes s" using load_struct_all [OF a(2,3)] by simp
  then show ?thesis
    using a(1) read_sizespec_bytes [OF assms(4,5)]
    by (simp add: print_size_table_def Let_def stab_words_def unwords_append del: enc.simps)
qed

lemma digits_no_ws: "list_all (\<lambda>c. \<not> is_ws c) (fmt_base 10 n)"
  unfolding list_all_iff
proof
  fix c assume "c \<in> set (fmt_base 10 n)"
  then obtain d where "d < 10" "c = digit_char d" using fmt_base_digits [of 10 c n] by auto
  then show "\<not> is_ws c" by (auto simp: is_ws_def digit_char_def char_eq_nat simp del: of_char_eq_iff)
qed

lemma number_words: "word_ok (fmt_u v)" "word_ok (fmt_d i)"
  using digits_no_ws by (auto simp: word_ok_def fmt_u_def fmt_d_def is_ws_def)

lemma linklayer_cases: "0 < ll \<Longrightarrow> ll \<le> LINKLAYER_ATM \<Longrightarrow> ll = LINKLAYER_ETHERNET \<or> ll = LINKLAYER_ATM"
proof -
  assume h: "0 < ll" "ll \<le> LINKLAYER_ATM"
  then have "0 < unat ll" "unat ll \<le> 2" by (simp_all add: LINKLAYER_ATM_def word_le_nat_alt word_less_nat_alt)
  then consider "unat ll = 1" | "unat ll = 2" by linarith
  then show ?thesis
  proof cases
    case 1 then have "ll = of_nat 1" by (metis of_nat_unat ucast_id)
    then show ?thesis by (simp add: LINKLAYER_ETHERNET_def)
  next
    case 2 then have "ll = of_nat 2" by (metis of_nat_unat ucast_id)
    then show ?thesis by (simp add: LINKLAYER_ATM_def)
  qed
qed

lemma stab_options:
  "ss_mtu s = 0 \<Longrightarrow> stab_args (''mtu'' # fmt_u w # r) s = stab_args r (s\<lparr>ss_mtu := w\<rparr>)"
  "ss_mpu s = 0 \<Longrightarrow> stab_args (''mpu'' # fmt_u w # r) s = stab_args r (s\<lparr>ss_mpu := w\<rparr>)"
  "ss_tsize s = 0 \<Longrightarrow> stab_args (''tsize'' # fmt_u w # r) s = stab_args r (s\<lparr>ss_tsize := w\<rparr>)"
  "ss_overhead s = 0 \<Longrightarrow> INT_MIN \<le> i \<Longrightarrow> i \<le> INT_MAX \<Longrightarrow>
     stab_args (''overhead'' # fmt_d i # r) s = stab_args r (s\<lparr>ss_overhead := i\<rparr>)"
  "ss_linklayer s = 0 \<Longrightarrow> ll \<noteq> 0 \<Longrightarrow> ll \<le> LINKLAYER_ATM \<Longrightarrow>
     stab_args (''linklayer'' # sprint_linklayer ll # r) s = stab_args r (s\<lparr>ss_linklayer := ll\<rparr>)"
proof -
  show "ss_linklayer s = 0 \<Longrightarrow> ll \<noteq> 0 \<Longrightarrow> ll \<le> LINKLAYER_ATM \<Longrightarrow>
     stab_args (''linklayer'' # sprint_linklayer ll # r) s = stab_args r (s\<lparr>ss_linklayer := ll\<rparr>)"
  proof -
    assume h: "ss_linklayer s = 0" "ll \<noteq> 0" "ll \<le> LINKLAYER_ATM"
    then have "ll = LINKLAYER_ETHERNET \<or> ll = LINKLAYER_ATM"
      using linklayer_cases [of ll] by (simp add: word_neq_0_conv)
    then have "get_linklayer (sprint_linklayer ll) = Some ll"
      by (auto simp: sprint_linklayer_def print_linklayer_def get_linklayer_def matches_0_iff snprintf_def SPRINT_BSIZE_def
          LINKLAYER_ETHERNET_def LINKLAYER_ATM_def LINKLAYER_UNSPEC_def)
    then show ?thesis using h(1) by (simp add: matches_0_iff LINKLAYER_UNSPEC_def)
  qed
qed (simp_all add: matches_0_iff get_u32.parse_printed get_integer.parse_decimal)

lemma stab_words_read:
  assumes "INT_MIN \<le> ss_overhead s" "ss_overhead s \<le> INT_MAX" "ss_linklayer s \<le> LINKLAYER_ATM"
  shows "stab_args (stab_words s) no_sizespec = Ret ([], s\<lparr>ss_cell_log := 0, ss_size_log := 0, ss_cell_align := 0\<rparr>)"
  using assms unfolding stab_words_def no_sizespec_def LINKLAYER_UNSPEC_def
  by (cases s) (simp add: stab_options del: stab_args.simps(2))

lemma stab_words_ok: "ss_linklayer s \<le> LINKLAYER_ATM \<Longrightarrow> list_all word_ok (stab_words s)"
proof -
  assume h: "ss_linklayer s \<le> LINKLAYER_ATM"
  have "word_ok (sprint_linklayer (ss_linklayer s))" if "ss_linklayer s \<noteq> 0"
    using linklayer_cases [of "ss_linklayer s"] that h
    by (auto simp: word_neq_0_conv sprint_linklayer_def print_linklayer_def snprintf_def SPRINT_BSIZE_def
        LINKLAYER_ETHERNET_def LINKLAYER_ATM_def LINKLAYER_UNSPEC_def word_ok_def is_ws_def)
  moreover have "word_ok ''linklayer''" "word_ok ''overhead''" "word_ok ''mpu''" "word_ok ''mtu''" "word_ok ''tsize''"
    by (simp_all add: word_ok_def is_ws_def)
  ultimately show ?thesis by (simp add: stab_words_def number_words)
qed

text \<open>
  The size-table options that \<^verbatim>\<open>tc -d qdisc show\<close> prints from the attribute of a message are, as
  words of a command line behind \<^verbatim>\<open>stab\<close>, options that \<^verbatim>\<open>parse_size_table\<close> accepts and reads as the same
  options; the cell logs and the alignment, which are computed and not given, start from zero.
\<close>

theorem stab_text_roundtrip:
  assumes "list_all attr_ok as" "attr_ok (t, encs as, p)" "first_attr 1 as = Some (sizespec_bytes s)"
    and "INT_MIN \<le> ss_overhead s" "ss_overhead s \<le> INT_MAX" "ss_linklayer s \<le> LINKLAYER_ATM"
    and "check_size_table_opts s"
  shows "\<exists>ws. makeargs (''stab'' @ print_size_table '' '' (enc (t, encs as, p) @ r)) 100 = Ret ws \<and>
    parse_size_table ws sp = Ret (0, [], s\<lparr>ss_cell_log := 0, ss_size_log := 0, ss_cell_align := 0\<rparr>)"
proof (intro exI conjI)
  let ?ws = "''stab'' # stab_words s"
  have "length ?ws < 100" by (simp add: stab_words_def)
  moreover have "list_all word_ok ?ws" using stab_words_ok [OF assms(6)] by (simp add: word_ok_def is_ws_def)
  ultimately show "makeargs (''stab'' @ print_size_table '' '' (enc (t, encs as, p) @ r)) 100 = Ret ?ws"
    using makeargs_loop_words [of ?ws "[]" 100] print_size_table_words [OF assms(1-5), of "'' ''" r]
    by (simp add: makeargs_def)
  have ne: "stab_words s \<noteq> []"
    using assms(7) by (auto simp: check_size_table_opts_def stab_words_def LINKLAYER_ETHERNET_def)
  then have next': "NEXT_ARG ?ws = Ret (stab_words s)" by (cases "stab_words s") (simp_all add: NEXT_ARG_def)
  have "matches (hd (stab_words s)) ''help'' \<noteq> 0"
    using ne by (auto simp: stab_words_def matches_0_iff split: if_splits)
  then show "parse_size_table ?ws sp = Ret (0, [], s\<lparr>ss_cell_log := 0, ss_size_log := 0, ss_cell_align := 0\<rparr>)"
    using stab_words_read [OF assms(4-6)] assms(7) by (simp add: parse_size_table_def next' check_size_table_opts_def)
qed

theorem stab_text_roundtrip_witness:
  "\<exists>ws. makeargs (''stab'' @ print_size_table '' '' (enc (8, encs [(1, sizespec_bytes demo_spec, [])], []))) 100 = Ret ws \<and>
     parse_size_table ws no_sizespec = Ret (0, [], demo_spec)"
  using stab_text_roundtrip [of "[(1, sizespec_bytes demo_spec, [])]" 8 "[]" demo_spec "[]" no_sizespec]
  by (simp add: first_attr_def align4_def sizespec_bytes_def demo_spec_def INT_MIN_def INT_MAX_def check_size_table_opts_def
      LINKLAYER_ATM_def LINKLAYER_ETHERNET_def)

end
