(* ===== verification/Ll_Map.thy ===== *)
theory Ll_Map
  imports Netlink_Hdr
begin

text \<open>
  The map from interface indices to names, types, flags and addresses (\<^verbatim>\<open>ll_map.c\<close>): a hash table
  of 1024 chains that a dump of the links fills, with a one-entry cache for the way back. An
  index is kept as the 32 bits that are compared. A name that does not fit its array of
  \<^verbatim>\<open>IFNAMSIZ\<close> bytes would be copied over what follows it; the result is then \<open>None\<close>.
\<close>

section \<open>The cache\<close>

record ll_cache =
  im_flags :: u32
  im_index :: u32
  im_type :: u16
  im_alen :: u16
  im_name :: string
  im_addr :: "u8 list"

definition IDXMAP_SIZE :: nat where "IDXMAP_SIZE = 1024"
definition IFNAMSIZ :: nat where "IFNAMSIZ = 16"

record ll_map =
  idx_head :: "ll_cache list list"
  ncache :: string
  icache :: u32
  initialized :: bool

definition idx_slot :: "u32 \<Rightarrow> nat" where "idx_slot idx = unat (idx AND 1023)"

definition idxhead :: "ll_map \<Rightarrow> u32 \<Rightarrow> ll_cache list" where
  "idxhead m idx = idx_head m ! idx_slot idx"

section \<open>Filling it\<close>

definition RTM_NEWLINK :: u16 where "RTM_NEWLINK = 16"
definition RTM_GETLINK :: u16 where "RTM_GETLINK = 18"
definition IFLA_MAX :: nat where "IFLA_MAX = 32"
definition IFLA_ADDRESS :: nat where "IFLA_ADDRESS = 1"
definition IFLA_IFNAME :: nat where "IFLA_IFNAME = 3"

text \<open>The fields of \<^verbatim>\<open>struct ifinfomsg\<close> behind the netlink header, and the attributes behind both.\<close>

definition ifi_type :: "u8 list \<Rightarrow> u16" where "ifi_type n = peek16 18 n"
definition ifi_index :: "u8 list \<Rightarrow> u32" where "ifi_index n = peek32 20 n"
definition ifi_flags :: "u8 list \<Rightarrow> u32" where "ifi_flags n = peek32 24 n"
definition IFLA_RTA :: "u8 list \<Rightarrow> u8 list" where "IFLA_RTA n = drop 32 n"
definition IFLA_PAYLOAD :: "u8 list \<Rightarrow> int" where "IFLA_PAYLOAD n = uint (nlmsg_len n) - 32"

text \<open>
  The entry of an index in a chain is replaced where it is; a new one is appended. The contents of
  fresh memory do not matter: of the address only \<^verbatim>\<open>alen\<close> bytes, which are set, are ever read.
\<close>

fun upsert :: "u32 \<Rightarrow> (ll_cache \<Rightarrow> ll_cache) \<Rightarrow> ll_cache \<Rightarrow> ll_cache list \<Rightarrow> ll_cache list" where
  "upsert i f fresh [] = [f fresh]"
| "upsert i f fresh (im # ims) = (if im_index im = i then f im # ims else im # upsert i f fresh ims)"

definition fresh_im :: "u32 \<Rightarrow> ll_cache" where
  "fresh_im i = \<lparr>im_flags = 0, im_index = i, im_type = 0, im_alen = 0, im_name = [], im_addr = replicate 20 0\<rparr>"

definition set_addr :: "u8 list option \<Rightarrow> ll_cache \<Rightarrow> ll_cache" where
  "set_addr rta im =
     (case rta of
        Some a \<Rightarrow>
          let alen = nat (RTA_PAYLOAD a); k = (if alen > 20 then 20 else alen)
          in im\<lparr>im_alen := of_nat alen, im_addr := poke 0 (take k (RTA_DATA a)) (im_addr im)\<rparr>
      | None \<Rightarrow> im\<lparr>im_alen := 0, im_addr := replicate 20 0\<rparr>)"

text \<open>The bound for the length uses the size of a pointer, eight bytes.\<close>

definition ll_remember_index :: "u8 list \<Rightarrow> ll_map \<Rightarrow> (int \<times> ll_map) option" where
  "ll_remember_index n m =
     (if nlmsg_type n \<noteq> RTM_NEWLINK then Some (0, m)
      else if nlmsg_len n < 16 + 8 then Some (-1, m)
      else let tb = fst (parse_rtattr IFLA_MAX (IFLA_RTA n) (IFLA_PAYLOAD n))
           in case tb ! IFLA_IFNAME of
                None \<Rightarrow> Some (0, m)
              | Some nm \<Rightarrow>
                  if length (rta_getattr_str nm) \<ge> IFNAMSIZ then None
                  else let i = ifi_index n; h = idx_slot i;
                           f = (\<lambda>im. set_addr (tb ! IFLA_ADDRESS) (im\<lparr>im_type := ifi_type n, im_flags := ifi_flags n\<rparr>)
                                       \<lparr>im_name := rta_getattr_str nm\<rparr>)
                       in Some (0, m\<lparr>idx_head := (idx_head m)[h := upsert i f (fresh_im i) (idx_head m ! h)]\<rparr>))"

section \<open>Looking up\<close>

definition ll_find :: "ll_map \<Rightarrow> u32 \<Rightarrow> ll_cache option" where
  "ll_find m idx = List.find (\<lambda>im. im_index im = idx) (idxhead m idx)"

definition ll_idx_n2a :: "ll_map \<Rightarrow> u32 \<Rightarrow> string" where
  "ll_idx_n2a m idx =
     (if idx = 0 then ''*''
      else case ll_find m idx of
             Some im \<Rightarrow> im_name im
           | None \<Rightarrow> snprintf IFNAMSIZ (''if'' @ fmt_d (sint idx)))"

definition ll_index_to_name :: "ll_map \<Rightarrow> u32 \<Rightarrow> string" where
  "ll_index_to_name m idx = ll_idx_n2a m idx"

definition ll_index_to_type :: "ll_map \<Rightarrow> u32 \<Rightarrow> int" where
  "ll_index_to_type m idx =
     (if idx = 0 then -1 else case ll_find m idx of Some im \<Rightarrow> uint (im_type im) | None \<Rightarrow> -1)"

definition ll_index_to_flags :: "ll_map \<Rightarrow> u32 \<Rightarrow> u32" where
  "ll_index_to_flags m idx =
     (if idx = 0 then 0 else case ll_find m idx of Some im \<Rightarrow> im_flags im | None \<Rightarrow> 0)"

text \<open>The number of bytes copied, and the bytes.\<close>

definition ll_index_to_addr :: "ll_map \<Rightarrow> u32 \<Rightarrow> u32 \<Rightarrow> u32 \<times> u8 list" where
  "ll_index_to_addr m idx alen =
     (if idx = 0 then (0, [])
      else case ll_find m idx of
             Some im \<Rightarrow>
               let a = (if alen > 20 then 20 else alen); b = (if a > ucast (im_alen im) then ucast (im_alen im) else a)
               in (b, take (unat b) (im_addr im))
           | None \<Rightarrow> (0, []))"

text \<open>\<^verbatim>\<open>sscanf(name, "if%u", &idx)\<close>: keeps the zero when the text does not match.\<close>

definition scan_if :: "string \<Rightarrow> u32" where
  "scan_if name =
     (if take 2 name = ''if'' then
        let (v, r) = strtoul 10 (drop 2 name) in if r = drop 2 name then 0 else ucast v
      else 0)"

text \<open>\<open>nametoindex\<close> is the system's \<^verbatim>\<open>if_nametoindex\<close>.\<close>

definition ll_name_to_index :: "(string \<Rightarrow> u32) \<Rightarrow> string option \<Rightarrow> ll_map \<Rightarrow> u32 \<times> ll_map" where
  "ll_name_to_index nametoindex arg m =
     (case arg of
        None \<Rightarrow> (0, m)
      | Some name \<Rightarrow>
          if icache m \<noteq> 0 \<and> name = ncache m then (icache m, m)
          else case List.find (\<lambda>im. im_name im = name) (concat (take IDXMAP_SIZE (idx_head m))) of
                 Some im \<Rightarrow> (im_index im, m\<lparr>icache := im_index im, ncache := name\<rparr>)
               | None \<Rightarrow> let idx = nametoindex name in (if idx = 0 then scan_if name else idx, m))"

text \<open>
  The dump of the links. The state of the callback is the map, or \<open>None\<close> once a name has
  overflowed. \<open>sent\<close> is the result of sending the request; a failure to send and a failed dump end the program.
\<close>

definition remember_filter :: "ll_map option nl_filter" where
  "remember_filter pid n st =
     (case st of
        None \<Rightarrow> (0, None)
      | Some m \<Rightarrow> (case ll_remember_index n m of None \<Rightarrow> (0, None) | Some (rc, m1) \<Rightarrow> (rc, Some m1)))"

definition ll_init_map ::
  "rtnl_handle \<Rightarrow> int \<Rightarrow> recv_event list \<Rightarrow> ll_map \<Rightarrow> u8 list \<times> rtnl_handle \<times> ll_map option nl_outcome" where
  "ll_init_map rth sent evs m =
     (if initialized m then ([], rth, Returned 0 (Some m))
      else let (req, rth1) = rtnl_wilddump_request rth (of_nat AF_UNSPEC) RTM_GETLINK
           in (req, rth1,
               if sent < 0 then Exited 1
               else case rtnl_dump_filter rth1 remember_filter evs (Some m) of
                 Returned rc st \<Rightarrow> if rc < 0 then Exited 1 else Returned 0 (map_option (\<lambda>m. m\<lparr>initialized := True\<rparr>) st)
               | Exited c \<Rightarrow> Exited c
               | Waiting st \<Rightarrow> Waiting st))"

section \<open>An interface for index maps\<close>

text \<open>
  What the clients rely on: remembering something under its key is seen by a lookup of that key
  and of no other.
\<close>

locale index_map =
  fixes remember :: "'l \<Rightarrow> 'm \<Rightarrow> 'm" and key :: "'l \<Rightarrow> 'k" and entry :: "'l \<Rightarrow> 'e"
    and lookup :: "'m \<Rightarrow> 'k \<Rightarrow> 'e option" and inv :: "'m \<Rightarrow> bool"
  assumes inv_remember: "inv m \<Longrightarrow> inv (remember l m)"
    and lookup_remember: "inv m \<Longrightarrow> lookup (remember l m) k = (if k = key l then Some (entry l) else lookup m k)"
begin

lemma inv_fold: "inv m \<Longrightarrow> inv (fold remember ls m)"
  by (induction ls arbitrary: m) (simp_all add: inv_remember)

lemma lookup_fold:
  "inv m \<Longrightarrow> lookup (fold remember ls m) k =
     (case map_of (rev (map (\<lambda>l. (key l, entry l)) ls)) k of Some e \<Rightarrow> Some e | None \<Rightarrow> lookup m k)"
proof (induction ls rule: rev_induct)
  case (snoc l ls)
  then show ?case using lookup_remember [OF inv_fold [OF snoc.prems], of l ls] by simp
qed simp

end

section \<open>Links\<close>

record link =
  li_index :: u32
  li_type :: u16
  li_flags :: u32
  li_name :: string
  li_addr :: "u8 list option"

text \<open>A complete message that describes a link.\<close>

definition is_link :: "u8 list \<Rightarrow> link \<Rightarrow> bool" where
  "is_link n L \<longleftrightarrow> wf_nlmsg n \<and> 32 \<le> length n \<and> nlmsg_type n = RTM_NEWLINK \<and>
     ifi_index n = li_index L \<and> ifi_type n = li_type L \<and> ifi_flags n = li_flags L \<and>
     length (li_name L) < IFNAMSIZ \<and>
     (\<exists>as junk. drop 32 n = encs as \<and> list_all attr_ok as \<and> first_attr IFLA_ADDRESS as = li_addr L \<and>
        CHR 0x00 \<notin> set (li_name L) \<and> first_attr IFLA_IFNAME as = Some (bytes_of_string (li_name L) @ 0 # junk))"

text \<open>What the message does to the entry and to the map.\<close>

definition link_update :: "link \<Rightarrow> ll_cache \<Rightarrow> ll_cache" where
  "link_update L im =
     im\<lparr>im_type := li_type L, im_flags := li_flags L, im_name := li_name L,
        im_alen := (case li_addr L of Some a \<Rightarrow> of_nat (length a) | None \<Rightarrow> 0),
        im_addr := (case li_addr L of Some a \<Rightarrow> poke 0 (take 20 a) (im_addr im) | None \<Rightarrow> replicate 20 0)\<rparr>"

definition link_store :: "link \<Rightarrow> ll_map \<Rightarrow> ll_map" where
  "link_store L m =
     m\<lparr>idx_head := (idx_head m)[idx_slot (li_index L) :=
         upsert (li_index L) (link_update L) (fresh_im (li_index L)) (idx_head m ! idx_slot (li_index L))]\<rparr>"

text \<open>The attribute table of such a message, wherever in a buffer it stands.\<close>

lemma link_table:
  assumes "drop 32 n = encs as" "list_all attr_ok as" "wf_nlmsg n" "32 \<le> length n" "u \<le> IFLA_MAX"
  shows "case first_attr u as of
      None \<Rightarrow> fst (parse_rtattr IFLA_MAX (IFLA_RTA (n @ r)) (IFLA_PAYLOAD (n @ r))) ! u = None
    | Some d \<Rightarrow> \<exists>rta rest. fst (parse_rtattr IFLA_MAX (IFLA_RTA (n @ r)) (IFLA_PAYLOAD (n @ r))) ! u = Some rta \<and>
        RTA_PAYLOAD rta = int (length d) \<and> RTA_DATA rta = d @ rest"
proof -
  have rta: "IFLA_RTA (n @ r) = encs as @ r" using assms(1,4) by (simp add: IFLA_RTA_def)
  have "uint (nlmsg_len (n @ r)) = int (length n)" using wf_header(1,8) [OF assms(3)] by simp
  moreover have "length (encs as) = length n - 32" by (simp flip: assms(1))
  ultimately have pay: "IFLA_PAYLOAD (n @ r) = int (length (encs as))" using assms(4) by (simp add: IFLA_PAYLOAD_def)
  show ?thesis unfolding rta pay by (rule parse_rtattr_entry [OF assms(2,5)])
qed

lemma remember_link:
  assumes "is_link n L" shows "ll_remember_index (n @ r) m = Some (0, link_store L m)"
proof -
  have wf: "wf_nlmsg n" "32 \<le> length n" using assms by (simp_all add: is_link_def)
  obtain as junk where as: "drop 32 n = encs as" "list_all attr_ok as" "first_attr IFLA_ADDRESS as = li_addr L"
    "CHR 0x00 \<notin> set (li_name L)" "first_attr IFLA_IFNAME as = Some (bytes_of_string (li_name L) @ 0 # junk)"
    using assms by (auto simp: is_link_def)
  let ?T = "fst (parse_rtattr IFLA_MAX (IFLA_RTA (n @ r)) (IFLA_PAYLOAD (n @ r)))"
  note tab = link_table [OF as(1,2) wf, of _ r]
  obtain nm where nm: "?T ! IFLA_IFNAME = Some nm" "rta_getattr_str nm = li_name L"
    using tab [of IFLA_IFNAME] char_roundtrip [OF as(4)] as(5)
    by (auto simp: IFLA_IFNAME_def IFLA_MAX_def rta_getattr_str_def)
  have addr: "set_addr (?T ! IFLA_ADDRESS) im = im\<lparr>im_alen := (case li_addr L of Some a \<Rightarrow> of_nat (length a) | None \<Rightarrow> 0),
      im_addr := (case li_addr L of Some a \<Rightarrow> poke 0 (take 20 a) (im_addr im) | None \<Rightarrow> replicate 20 0)\<rparr>" for im
    using tab [of IFLA_ADDRESS] as(3)
    by (cases "li_addr L") (auto simp: IFLA_ADDRESS_def IFLA_MAX_def set_addr_def Let_def)
  have hd: "nlmsg_type (n @ r) = RTM_NEWLINK" "\<not> nlmsg_len (n @ r) < 24" "ifi_index (n @ r) = li_index L"
    "ifi_type (n @ r) = li_type L" "ifi_flags (n @ r) = li_flags L" "\<not> IFNAMSIZ \<le> length (li_name L)"
    using assms wf wf_header(1,2) [OF wf(1), of r]
    by (simp_all add: is_link_def ifi_index_def ifi_type_def ifi_flags_def peek_append word_less_nat_alt wf_nlmsg_def)
  have upd: "(\<lambda>im. set_addr (?T ! IFLA_ADDRESS) (im\<lparr>im_type := li_type L, im_flags := li_flags L\<rparr>)\<lparr>im_name := li_name L\<rparr>) =
      link_update L"
    by (rule ext) (simp add: addr link_update_def split: option.split)
  show ?thesis
    using hd nm upd by (simp add: ll_remember_index_def Let_def link_store_def)
qed

section \<open>The map implements the interface\<close>

text \<open>What a client can see of an entry: name, type, flags and the address as far as it is kept.\<close>

definition im_view :: "ll_cache \<Rightarrow> string \<times> u16 \<times> u32 \<times> u8 list" where
  "im_view im = (im_name im, im_type im, im_flags im, take (min 20 (unat (im_alen im))) (im_addr im))"

definition link_view :: "link \<Rightarrow> string \<times> u16 \<times> u32 \<times> u8 list" where
  "link_view L = (li_name L, li_type L, li_flags L, case li_addr L of Some a \<Rightarrow> take (min 20 (length a mod 2 ^ 16)) a | None \<Rightarrow> [])"

definition ll_lookup :: "ll_map \<Rightarrow> u32 \<Rightarrow> (string \<times> u16 \<times> u32 \<times> u8 list) option" where
  "ll_lookup m i = map_option im_view (ll_find m i)"

definition ll_inv :: "ll_map \<Rightarrow> bool" where
  "ll_inv m \<longleftrightarrow> length (idx_head m) = IDXMAP_SIZE \<and>
     list_all (list_all (\<lambda>im. length (im_addr im) = 20)) (idx_head m)"

lemma idx_slot_less: "idx_slot i < IDXMAP_SIZE"
proof -
  have "i AND 1023 \<le> 1023" by (rule word_and_le1)
  then show ?thesis by (simp add: idx_slot_def IDXMAP_SIZE_def word_le_nat_alt)
qed

lemma find_upsert:
  assumes "\<And>im. im_index (f im) = im_index im" "im_index fresh = i"
  shows "List.find (\<lambda>im. im_index im = j) (upsert i f fresh ims) =
    (if j = i then Some (f (case List.find (\<lambda>im. im_index im = i) ims of Some im \<Rightarrow> im | None \<Rightarrow> fresh))
     else List.find (\<lambda>im. im_index im = j) ims)"
  using assms by (induction ims) auto

lemma list_all_upsert:
  "list_all P ims \<Longrightarrow> P fresh \<Longrightarrow> (\<And>im. P im \<Longrightarrow> P (f im)) \<Longrightarrow> list_all P (upsert i f fresh ims)"
  by (induction ims) auto

lemma upsert_keeps:
  assumes "ll_inv m" "\<And>im. length (im_addr im) = 20 \<Longrightarrow> length (im_addr (f im)) = 20" "length (im_addr fresh) = 20"
  shows "ll_inv (m\<lparr>idx_head := (idx_head m)[idx_slot i := upsert j f fresh (idx_head m ! idx_slot i)]\<rparr>)"
proof -
  let ?P = "list_all (\<lambda>im. length (im_addr im) = 20)" and ?c = "upsert j f fresh (idx_head m ! idx_slot i)"
  have m: "length (idx_head m) = IDXMAP_SIZE" "\<forall>c\<in>set (idx_head m). ?P c"
    using assms(1) by (simp_all add: ll_inv_def list_all_iff)
  then have "?P (idx_head m ! idx_slot i)" using idx_slot_less by simp
  then have "?P ?c" 
    using list_all_upsert [of "\<lambda>im. length (im_addr im) = 20" "idx_head m ! idx_slot i" fresh f j] assms(2,3) by blast
  then have "\<forall>c\<in>set ((idx_head m)[idx_slot i := ?c]). ?P c" using m(2) set_update_subset_insert [of "idx_head m"] by blast
  then show ?thesis using m(1) by (simp add: ll_inv_def list_all_iff [of ?P])
qed

lemma link_update_keeps: "im_index (link_update L im) = im_index im"
  "length (im_addr im) = 20 \<Longrightarrow> length (im_addr (link_update L im)) = 20"
  by (auto simp: link_update_def poke_def min_def split: option.split)

lemma link_update_view: "length (im_addr im) = 20 \<Longrightarrow> im_view (link_update L im) = link_view L"
  by (auto simp: im_view_def link_view_def link_update_def poke_def unat_of_nat min_def split: option.split)

interpretation ll: index_map link_store li_index link_view ll_lookup ll_inv
proof
  fix m :: ll_map and L :: link and i assume m: "ll_inv m"
  let ?s = "idx_slot (li_index L)"
  let ?c = "idx_head m ! ?s"
  have s: "?s < length (idx_head m)" using m idx_slot_less by (simp add: ll_inv_def)
  have c: "list_all (\<lambda>im. length (im_addr im) = 20) ?c" using m s by (simp add: ll_inv_def list_all_length)
  show "ll_inv (link_store L m)"
    unfolding link_store_def by (rule upsert_keeps [OF m]) (simp_all add: link_update_keeps fresh_im_def)
  have find: "List.find (\<lambda>im. im_index im = i) (upsert (li_index L) (link_update L) (fresh_im (li_index L)) ?c) =
    (if i = li_index L then Some (link_update L (case List.find (\<lambda>im. im_index im = li_index L) ?c of
        Some im \<Rightarrow> im | None \<Rightarrow> fresh_im (li_index L))) else List.find (\<lambda>im. im_index im = i) ?c)"
    by (rule find_upsert) (simp_all add: link_update_keeps fresh_im_def)
  have len: "length (im_addr (case List.find (\<lambda>im. im_index im = li_index L) ?c of
      Some im \<Rightarrow> im | None \<Rightarrow> fresh_im (li_index L))) = 20"
    using c by (auto simp: fresh_im_def find_Some_iff list_all_length split: option.split)
  show "ll_lookup (link_store L m) i = (if i = li_index L then Some (link_view L) else ll_lookup m i)"
    using find link_update_view [OF len, of L] s
    by (cases "idx_slot i = ?s") (auto simp: ll_lookup_def ll_find_def idxhead_def link_store_def)
qed

section \<open>No message damages the map\<close>

text \<open>
  The map is sound when it has all its chains, every entry stands in the chain of its index, no index stands twice in a chain, names fit their
  arrays with the end mark and addresses fill theirs.
\<close>

definition im_ok :: "nat \<Rightarrow> ll_cache \<Rightarrow> bool" where
  "im_ok h im \<longleftrightarrow> idx_slot (im_index im) = h \<and> length (im_name im) < IFNAMSIZ \<and> length (im_addr im) = 20"

definition ll_sound :: "ll_map \<Rightarrow> bool" where
  "ll_sound m \<longleftrightarrow> length (idx_head m) = IDXMAP_SIZE \<and>
     (\<forall>h<IDXMAP_SIZE. list_all (im_ok h) (idx_head m ! h) \<and> distinct (map im_index (idx_head m ! h)))"

text \<open>A message whose name, if it is one about a link, fits the array of the entry.\<close>

definition name_fits :: "u8 list \<Rightarrow> bool" where
  "name_fits n \<longleftrightarrow> (nlmsg_type n = RTM_NEWLINK \<and> nlmsg_len n \<ge> 24 \<longrightarrow>
     (case fst (parse_rtattr IFLA_MAX (IFLA_RTA n) (IFLA_PAYLOAD n)) ! IFLA_IFNAME of
        Some nm \<Rightarrow> length (rta_getattr_str nm) < IFNAMSIZ | None \<Rightarrow> True))"

lemma set_addr_keeps: "length (im_addr im) = 20 \<Longrightarrow> length (im_addr (set_addr rta im)) = 20" "im_index (set_addr rta im) = im_index im"
  by (auto simp: set_addr_def Let_def poke_def split: option.split)

lemma index_upsert:
  assumes "\<And>im. im_index (f im) = im_index im" "im_index fresh = i"
  shows "set (map im_index (upsert i f fresh ims)) = insert i (set (map im_index ims))"
    "distinct (map im_index ims) \<Longrightarrow> distinct (map im_index (upsert i f fresh ims))"
proof -
  show s: "set (map im_index (upsert i f fresh ims)) = insert i (set (map im_index ims))" for ims
    using assms by (induction ims) auto
  show "distinct (map im_index ims) \<Longrightarrow> distinct (map im_index (upsert i f fresh ims))"
  proof (induction ims)
    case (Cons im ims)
    then show ?case using assms s [of ims] by auto
  qed simp
qed

lemma sound_upsert:
  assumes m: "ll_sound m" and f: "\<And>im. im_index (f im) = im_index im"
    "\<And>im. length (im_addr im) = 20 \<Longrightarrow> length (im_addr (f im)) = 20" "\<And>im. length (im_name (f im)) < IFNAMSIZ"
    and fr: "im_index fresh = i" "length (im_addr fresh) = 20" "length (im_name fresh) < IFNAMSIZ"
  shows "ll_sound (m\<lparr>idx_head := (idx_head m)[idx_slot i := upsert i f fresh (idx_head m ! idx_slot i)]\<rparr>)"
proof -
  let ?s = "idx_slot i"
  let ?c = "upsert i f fresh (idx_head m ! ?s)"
  have s: "?s < IDXMAP_SIZE" "length (idx_head m) = IDXMAP_SIZE" using m idx_slot_less by (simp_all add: ll_sound_def)
  have "list_all (im_ok ?s) (idx_head m ! ?s)" "distinct (map im_index (idx_head m ! ?s))" using m s by (simp_all add: ll_sound_def)
  then have "list_all (im_ok ?s) ?c" "distinct (map im_index ?c)"
    using f fr by (auto simp: im_ok_def intro!: list_all_upsert index_upsert(2))
  then show ?thesis using m s by (auto simp: ll_sound_def nth_list_update)
qed

lemma find_upsert_known:
  assumes "ll_sound m" "\<And>im. im_index (f im) = im_index im" "im_index fresh = i" "ll_find m j \<noteq> None"
  shows "ll_find (m\<lparr>idx_head := (idx_head m)[idx_slot i := upsert i f fresh (idx_head m ! idx_slot i)]\<rparr>) j \<noteq> None"
proof -
  have s: "idx_slot i < length (idx_head m)" using assms(1) idx_slot_less by (simp add: ll_sound_def)
  show ?thesis
    using find_upsert [OF assms(2,3), of j "idx_head m ! idx_slot i"] assms(4) s
    by (cases "idx_slot j = idx_slot i") (auto simp: ll_find_def idxhead_def)
qed

text \<open>What no message takes away: soundness, and the links that were known in the map \<open>m0\<close>.\<close>

definition keeps_links :: "ll_map \<Rightarrow> ll_map option \<Rightarrow> bool" where
  "keeps_links m0 st \<longleftrightarrow> (case st of Some m \<Rightarrow> ll_sound m \<and> (\<forall>i. ll_find m0 i \<noteq> None \<longrightarrow> ll_find m i \<noteq> None) | None \<Rightarrow> False)"

lemma remember_index_keeps:
  assumes "name_fits n" "keeps_links m0 (Some m)"
  shows "\<exists>rc m'. ll_remember_index n m = Some (rc, m') \<and> keeps_links m0 (Some m')"
proof -
  let ?tb = "fst (parse_rtattr IFLA_MAX (IFLA_RTA n) (IFLA_PAYLOAD n))"
  show ?thesis
  proof (cases "nlmsg_type n = RTM_NEWLINK \<and> nlmsg_len n \<ge> 24 \<and> ?tb ! IFLA_IFNAME \<noteq> None")
    case True
    then obtain nm where nm: "?tb ! IFLA_IFNAME = Some nm" "length (rta_getattr_str nm) < IFNAMSIZ"
      using assms(1) by (auto simp: name_fits_def)
    let ?f = "\<lambda>im. set_addr (?tb ! IFLA_ADDRESS) (im\<lparr>im_type := ifi_type n, im_flags := ifi_flags n\<rparr>)\<lparr>im_name := rta_getattr_str nm\<rparr>"
    let ?i = "ifi_index n"
    let ?m' = "m\<lparr>idx_head := (idx_head m)[idx_slot ?i := upsert ?i ?f (fresh_im ?i) (idx_head m ! idx_slot ?i)]\<rparr>"
    have f: "im_index (?f im) = im_index im" "length (im_addr im) = 20 \<Longrightarrow> length (im_addr (?f im)) = 20"
      "length (im_name (?f im)) < IFNAMSIZ" for im using set_addr_keeps nm(2) by simp_all
    have m: "ll_sound m" "\<And>i. ll_find m0 i \<noteq> None \<Longrightarrow> ll_find m i \<noteq> None" using assms(2) by (simp_all add: keeps_links_def)
    have "ll_sound ?m'" by (rule sound_upsert [OF m(1) f]) (simp_all add: fresh_im_def IFNAMSIZ_def)
    moreover have "ll_find ?m' j \<noteq> None" if "ll_find m0 j \<noteq> None" for j
      by (rule find_upsert_known [OF m(1) f(1) _ m(2) [OF that]]) (simp add: fresh_im_def)
    moreover have "ll_remember_index n m = Some (0, ?m')" using True nm by (simp add: ll_remember_index_def Let_def not_le not_less)
    ultimately show ?thesis by (simp add: keeps_links_def)
  qed (use assms in \<open>auto simp: ll_remember_index_def Let_def not_le\<close>)
qed

interpretation links: filter_invariant remember_filter name_fits "keeps_links m0"
proof
  fix n :: "u8 list" and st pid assume "name_fits n" "keeps_links m0 st"
  then show "keeps_links m0 (snd (remember_filter pid n st))"
    using remember_index_keeps [of n m0] by (cases st) (fastforce simp: remember_filter_def keeps_links_def)+
qed

text \<open>
  C27: Whatever the kernel sends in answer to the request for the links, complete or not, malformed,
  truncated, interrupted or meant for others, as long as no message about a link in it has a name of sixteen bytes or more, which
  \<^verbatim>\<open>strcpy\<close> would write behind its array: the map stays sound, so that every entry stands where its lookup looks for it and no array
  is left, and every link that was known stays known. The call returns 0 with the map marked as initialised, waits for more, or ends the program
  with status 1.
\<close>

theorem any_dump_keeps_map:
  assumes "ll_sound m" "\<And>pid name_ok trunc buf n. RecvMsg pid name_ok trunc buf \<in> set evs \<Longrightarrow> msg_at buf n \<Longrightarrow> name_fits n"
  shows "case snd (snd (ll_init_map rth sent evs m)) of
      Returned rc st \<Rightarrow> rc = 0 \<and> (\<exists>m'. st = Some m' \<and> initialized m' \<and> ll_sound m' \<and> (\<forall>i. ll_find m i \<noteq> None \<longrightarrow> ll_find m' i \<noteq> None))
    | Waiting st \<Rightarrow> (\<exists>m'. st = Some m' \<and> ll_sound m' \<and> (\<forall>i. ll_find m i \<noteq> None \<longrightarrow> ll_find m' i \<noteq> None))
    | Exited c \<Rightarrow> c = 1"
proof -
  have k: "ll_sound (m\<lparr>initialized := True\<rparr>) = ll_sound m" "ll_find (m\<lparr>initialized := True\<rparr>) = ll_find m" for m
    by (simp_all add: ll_sound_def ll_find_def idxhead_def fun_eq_iff)
  have "keeps_links m (Some m)" using assms(1) by (simp add: keeps_links_def)
  then have kept: "case rtnl_dump_filter (snd (rtnl_wilddump_request rth (of_nat AF_UNSPEC) RTM_GETLINK)) remember_filter evs (Some m) of
      Returned rc st \<Rightarrow> keeps_links m st | Exited c \<Rightarrow> c = 1 | Waiting st \<Rightarrow> keeps_links m st"
    by (rule links.dump_keeps [rotated]) (rule assms(2))
  show ?thesis
    using kept assms(1) by (auto simp: ll_init_map_def keeps_links_def k case_prod_beta split: nl_outcome.splits option.splits)
qed

section \<open>A dump of the links\<close>

lemma remember_filter_link:
  "is_link n L \<Longrightarrow> remember_filter 0 (n @ r) (Some m) = (0, Some (link_store L m))"
  by (simp add: remember_filter_def remember_link)

lemma remember_reads_own: "is_link n L \<Longrightarrow> reads_own remember_filter n"
  using remember_link [of n L] remember_link [of n L "[]"]
  by (simp add: reads_own_def remember_filter_def split: option.split)

lemma run_remember:
  "list_all2 is_link ns Ls \<Longrightarrow> run_filter remember_filter ns (Some m) = (0, Some (fold link_store Ls m))"
proof (induction ns Ls arbitrary: m rule: list_all2_induct)
  case (Cons n ns L Ls)
  then show ?case using remember_filter_link [of n L "[]" m] by simp
qed simp

lemma view_index:
  assumes "ll_lookup m i = Some (link_view L)" "i \<noteq> 0"
  shows "ll_index_to_name m i = li_name L" "ll_index_to_type m i = uint (li_type L)" "ll_index_to_flags m i = li_flags L"
  using assms
  by (auto simp: ll_lookup_def im_view_def link_view_def ll_index_to_name_def ll_idx_n2a_def ll_index_to_type_def
      ll_index_to_flags_def)

text \<open>
  C25: Initialising the map from a complete dump of the links, in however many datagrams, with any number of
  interruptions or none and with messages of other conversations among them, makes every link known: its index gives the name, type and flags of the last
  message about it, an index the dump does not mention keeps what it had, and the map stays
  well-formed.
\<close>

theorem link_dump_fills_map:
  fixes Ls :: "link list" and rth :: rtnl_handle
  defines "rth1 \<equiv> snd (rtnl_wilddump_request rth (of_nat AF_UNSPEC) RTM_GETLINK)"
  assumes "ll_inv m" "\<not> initialized m" "0 \<le> sent" "i \<noteq> 0"
    and "delivers rth1 evs ms" "list_all (dump_msg rth1 0) lst" "dump_end rth1 fin"
    and "list_all2 is_link (ms @ filter (dump_own rth1 0) lst) Ls"
  shows "\<exists>req m'. ll_init_map rth sent (evs @ RecvMsg 0 name_ok trunc (concat lst @ fin @ tail) # later) m =
      (req, rth1, Returned 0 (Some m')) \<and> initialized m' \<and> ll_inv m' \<and>
    (case map_of (rev (map (\<lambda>L. (li_index L, L)) Ls)) i of
       Some L \<Rightarrow> ll_index_to_name m' i = li_name L \<and> ll_index_to_type m' i = uint (li_type L) \<and>
                 ll_index_to_flags m' i = li_flags L
     | None \<Rightarrow> ll_lookup m' i = ll_lookup m i)"
proof -
  let ?evs = "evs @ RecvMsg 0 name_ok trunc (concat lst @ fin @ tail) # later"
  have "list_all (reads_own remember_filter) (ms @ filter (dump_own rth1 0) lst)"
    using assms(9) remember_reads_own by (auto simp: list_all2_conv_all_nth list_all_length)
  then have own: "list_all (reads_own remember_filter) ms" "list_all (reads_own remember_filter) (filter (dump_own rth1 0) lst)"
    by simp_all
  let ?m = "fold link_store Ls m"
  let ?m' = "?m\<lparr>initialized := True\<rparr>"
  have "rtnl_dump_filter rth1 remember_filter ?evs (Some m) = Returned 0 (Some ?m)"
    using dump_filter_messages [OF assms(6) own(1) assms(7) own(2) assms(8)] run_remember [OF assms(9), of m] by simp
  then have run: "ll_init_map rth sent ?evs m =
      (fst (rtnl_wilddump_request rth (of_nat AF_UNSPEC) RTM_GETLINK), rth1, Returned 0 (Some ?m'))"
    using assms(3,4) by (simp add: ll_init_map_def rth1_def case_prod_beta)
  have same: "ll_lookup ?m' j = ll_lookup ?m j" "ll_inv ?m' = ll_inv ?m" for j
    by (simp_all add: ll_lookup_def ll_find_def idxhead_def ll_inv_def)
  have view: "map_of (rev (map (\<lambda>L. (li_index L, link_view L)) Ls)) i =
      map_option link_view (map_of (rev (map (\<lambda>L. (li_index L, L)) Ls)) i)"
    using map_of_map [of link_view "rev (map (\<lambda>L. (li_index L, L)) Ls)"] by (simp add: rev_map comp_def)
  have "case map_of (rev (map (\<lambda>L. (li_index L, L)) Ls)) i of
       Some L \<Rightarrow> ll_index_to_name ?m' i = li_name L \<and> ll_index_to_type ?m' i = uint (li_type L) \<and>
                 ll_index_to_flags ?m' i = li_flags L
     | None \<Rightarrow> ll_lookup ?m' i = ll_lookup m i"
    using ll.lookup_fold [OF assms(2), of Ls i] view_index [OF _ assms(5)] same view by (simp split: option.split)
  moreover have "ll_inv ?m'" using ll.inv_fold [OF assms(2)] same by simp
  ultimately show ?thesis using run by (intro exI [of _ "fst (rtnl_wilddump_request rth (of_nat AF_UNSPEC) RTM_GETLINK)"] exI [of _ ?m']) simp
qed

text \<open>A dump of one interface, \<^verbatim>\<open>eth0\<close> with index 2.\<close>

definition eth0_link :: link where
  "eth0_link = \<lparr>li_index = 2, li_type = 1, li_flags = 0, li_name = ''eth0'', li_addr = None\<rparr>"

definition eth0_msg :: "u8 list" where
  "eth0_msg = make_nlmsghdr 44 16 2 10 77 @ [0, 0] @ le_bytes 2 (1 :: u16) @ le_bytes 4 (2 :: u32) @ le_bytes 4 (0 :: u32) @ le_bytes 4 (0 :: u32) @
     enc (3, bytes_of_string ''eth0'' @ [0], [0, 0, 0])"

definition empty_map :: ll_map where
  "empty_map = \<lparr>idx_head = replicate IDXMAP_SIZE [], ncache = [], icache = 0, initialized = False\<rparr>"

lemma eth0_is_link: "is_link eth0_msg eth0_link"
proof -
  let ?as = "[(3, bytes_of_string ''eth0'' @ [0], [0, 0, 0])]"
  have len: "length eth0_msg = 44" by code_simp
  have hd: "nlmsg_len eth0_msg = 44" "nlmsg_type eth0_msg = RTM_NEWLINK"
    unfolding eth0_msg_def header_fields by (simp_all add: RTM_NEWLINK_def)
  show ?thesis
    unfolding is_link_def
  proof (intro conjI exI)
    show "wf_nlmsg eth0_msg" "32 \<le> length eth0_msg" "nlmsg_type eth0_msg = RTM_NEWLINK"
      using len hd by (simp_all add: wf_nlmsg_def)
    show "ifi_index eth0_msg = li_index eth0_link" by code_simp
    show "ifi_type eth0_msg = li_type eth0_link" by code_simp
    show "ifi_flags eth0_msg = li_flags eth0_link" by code_simp
    show "length (li_name eth0_link) < IFNAMSIZ" "CHR 0x00 \<notin> set (li_name eth0_link)"
      by (simp_all add: eth0_link_def IFNAMSIZ_def)
    show "drop 32 eth0_msg = encs ?as" by code_simp
    show "list_all attr_ok ?as" by (simp add: bytes_of_string_def align4_def)
    show "first_attr IFLA_ADDRESS ?as = li_addr eth0_link" by code_simp
    show "first_attr IFLA_IFNAME ?as = Some (bytes_of_string (li_name eth0_link) @ 0 # [])" by code_simp
  qed
qed

theorem link_dump_fills_map_witness:
  "\<exists>req rth m'. ll_init_map demo_handle 28 [RecvMsg 0 True False eth0_msg, RecvMsg 0 True False (make_nlmsghdr 16 3 2 10 77)] empty_map =
     (req, rth, Returned 0 (Some m')) \<and> ll_index_to_name m' 2 = ''eth0'' \<and> ll_index_to_type m' 2 = 1 \<and>
     ll_index_to_flags m' 2 = 0"
proof -
  let ?rth = "snd (rtnl_wilddump_request demo_handle (of_nat AF_UNSPEC) RTM_GETLINK)"
  have inv: "ll_inv empty_map" "\<not> initialized empty_map"
    by (simp_all add: ll_inv_def empty_map_def list_all_length del: replicate.simps)
  have rth: "rth_local_pid ?rth = 77" "rth_dump ?rth = 10"
    by (simp_all add: rtnl_wilddump_request_def demo_handle_def Let_def)
  have "nlmsg_pid eth0_msg = 77" "nlmsg_seq eth0_msg = 10" unfolding eth0_msg_def header_fields by simp_all
  then have own: "dump_own ?rth 0 eth0_msg" and msg: "dump_msg ?rth 0 eth0_msg"
    using eth0_is_link by (simp_all add: dump_own_def dump_msg_def is_link_def dump_part_def rth RTM_NEWLINK_def NLMSG_DONE_def NLMSG_ERROR_def)
  have "delivers ?rth [RecvMsg 0 True False (concat [eth0_msg])] (filter (dump_own ?rth 0) [eth0_msg] @ [])"
    using msg by (intro delivers.intros) simp_all
  then have "delivers ?rth [RecvMsg 0 True False eth0_msg] [eth0_msg]" using own by simp
  moreover have "dump_end ?rth (make_nlmsghdr 16 3 2 10 77)"
    by (simp add: dump_end_def wf_nlmsg_def header_fields_plain header_fields(5) rth NLMSG_DONE_def)
  moreover have "list_all2 is_link ([eth0_msg] @ filter (dump_own ?rth 0) []) [eth0_link]" using eth0_is_link by simp
  ultimately show ?thesis
    using link_dump_fills_map [OF inv, of 28 2 demo_handle "[RecvMsg 0 True False eth0_msg]" "[eth0_msg]" "[]"
        "make_nlmsghdr 16 3 2 10 77" "[eth0_link]" True False "[]" "[]"]
    by (auto simp: eth0_link_def)
qed

theorem any_dump_keeps_map_witness:
  "case snd (snd (ll_init_map demo_handle 28 [RecvError EINTR, RecvMsg 0 True True eth0_msg] empty_map)) of
      Returned rc st \<Rightarrow> rc = 0 \<and> (\<exists>m'. st = Some m' \<and> initialized m' \<and> ll_sound m' \<and> (\<forall>i. ll_find empty_map i \<noteq> None \<longrightarrow> ll_find m' i \<noteq> None))
    | Waiting st \<Rightarrow> (\<exists>m'. st = Some m' \<and> ll_sound m' \<and> (\<forall>i. ll_find empty_map i \<noteq> None \<longrightarrow> ll_find m' i \<noteq> None))
    | Exited c \<Rightarrow> c = 1"
proof (rule any_dump_keeps_map)
  show "ll_sound empty_map" by (simp add: ll_sound_def empty_map_def del: replicate.simps)
  show "name_fits n" if "RecvMsg pid name_ok trunc buf \<in> set [RecvError EINTR, RecvMsg 0 True True eth0_msg]" "msg_at buf n" for pid name_ok trunc buf n
  proof -
    have step: "nlmsg_step eth0_msg = 44" "length eth0_msg = 44" and fits: "name_fits eth0_msg" "name_fits []" by code_simp+
    have "k = eth0_msg \<or> k = []" if "msg_at eth0_msg k" for k using that by (induction rule: msg_at.induct) (auto simp: step)
    then show ?thesis using that fits by auto
  qed
qed

end
