(* ===== verification/Tc_Qdisc.thy ===== *)
theory Tc_Qdisc
  imports Q_Pfabric Tc_Stab Ll_Map
begin

unbundle bit_operations_syntax

text \<open>
  The command \<^verbatim>\<open>tc qdisc\<close> (\<^verbatim>\<open>tc_qdisc.c\<close>) and the registry of discipline modules (\<^verbatim>\<open>tc.c\<close>). The global
  variables of the program are one record. The dynamic linker, what the kernel delivers on the
  socket, the system's lookup of device names, \<^verbatim>\<open>log\<close> and the result of allocations are parameters.
  A command returns, ends the program, waits for the kernel, or runs into undefined behaviour.
\<close>

section \<open>Modules\<close>

record qdisc_util =
  qu_id :: string
  qu_parse_qopt :: "(string list \<Rightarrow> u8 list \<Rightarrow> (int \<times> u8 list) cexit option) option"
  qu_print_qopt :: "u8 list option \<Rightarrow> (int \<times> string) option"
  qu_print_xstats :: "(u8 list \<Rightarrow> string) option"
  qu_parse_copt :: "(string list \<Rightarrow> u8 list \<Rightarrow> (int \<times> u8 list) cexit option) option"
  qu_print_copt :: "(u8 list \<Rightarrow> (int \<times> string) option) option"

definition print_noqopt :: "u8 list option \<Rightarrow> (int \<times> string) option" where
  "print_noqopt opt =
     Some (0, case opt of
                Some rta \<Rightarrow> if RTA_PAYLOAD rta \<noteq> 0
                            then ''[Unknown qdisc, optlen='' @ fmt_u (of_int (RTA_PAYLOAD rta) :: u32) @ ''] '' else []
              | None \<Rightarrow> [])"

definition parse_noqopt :: "string list \<Rightarrow> u8 list \<Rightarrow> (int \<times> u8 list) cexit option" where
  "parse_noqopt argv n = Some (Ret (if argv \<noteq> [] then -1 else 0, n))"

definition pfabric_qdisc_util :: qdisc_util where
  "pfabric_qdisc_util =
     \<lparr>qu_id = ''pfabric'', qu_parse_qopt = Some pfabric_parse_opt, qu_print_qopt = pfabric_print_opt,
      qu_print_xstats = None, qu_parse_copt = None, qu_print_copt = None\<rparr>"

text \<open>The modules of filters; their printers read the global switches and the protocol last listed.\<close>

record print_globals =
  pg_stats :: nat
  pg_raw :: nat
  pg_pretty :: nat
  pg_proto :: u16

record filter_util =
  fu_id :: string
  fu_parse_fopt :: "string option \<Rightarrow> string list \<Rightarrow> u8 list \<Rightarrow> (int \<times> u8 list) cexit option"
  fu_print_fopt :: "print_globals \<Rightarrow> u8 list option \<Rightarrow> u32 \<Rightarrow> (int \<times> string) option"

text \<open>\<^verbatim>\<open>dlopen\<close> of a path, or of the program itself, and \<^verbatim>\<open>dlsym\<close> at its two types.\<close>

record linker =
  dlopen :: "string option \<Rightarrow> nat option"
  dlsym :: "nat \<Rightarrow> string \<Rightarrow> qdisc_util option"
  dlsym_filter :: "nat \<Rightarrow> string \<Rightarrow> filter_util option"

record tc_state =
  tc_rth :: rtnl_handle
  tc_links :: ll_map
  qdisc_list :: "qdisc_util list"
  filter_list :: "filter_util list"
  tc_BODY :: "nat option"
  filter_ifindex :: u32
  class_filter_ifindex :: u32
  filter_qdisc :: u32
  filter_classid :: u32
  filter_parent :: u32
  tfilter_ifindex :: u32
  filter_prio :: u32
  filter_protocol :: u32
  f_proto :: u16
  show_stats :: nat
  show_details :: nat
  use_iec :: nat
  show_raw :: nat
  show_pretty :: nat
  tc_force :: nat
  tc_ticks :: tc_clock
  tc_stdout :: string

definition get_qdisc_kind :: "linker \<Rightarrow> string \<Rightarrow> string \<Rightarrow> tc_state \<Rightarrow> qdisc_util \<times> tc_state" where
  "get_qdisc_kind lk tc_lib str st =
     (case List.find (\<lambda>q. qu_id q = str) (qdisc_list st) of
        Some q \<Rightarrow> (q, st)
      | None \<Rightarrow>
          let (dlh, body) =
                (case dlopen lk (Some (snprintf 256 (tc_lib @ ''/q_'' @ str @ ''.so''))) of
                   Some h \<Rightarrow> (Some h, tc_BODY st)
                 | None \<Rightarrow> (case tc_BODY st of
                              Some h \<Rightarrow> (Some h, Some h)
                            | None \<Rightarrow> (dlopen lk None, dlopen lk None)));
              q = (case Option.bind dlh (\<lambda>h. dlsym lk h (snprintf 256 (str @ ''_qdisc_util''))) of
                     Some q \<Rightarrow> q
                   | None \<Rightarrow> \<lparr>qu_id = str, qu_parse_qopt = Some parse_noqopt, qu_print_qopt = print_noqopt,
                              qu_print_xstats = None, qu_parse_copt = None, qu_print_copt = None\<rparr>)
          in (q, st\<lparr>tc_BODY := body, qdisc_list := q # qdisc_list st\<rparr>))"

lemma get_qdisc_kind_keeps:
  "get_qdisc_kind lk lib k st = (q, st1) \<Longrightarrow>
     tc_rth st1 = tc_rth st \<and> tc_links st1 = tc_links st \<and> filter_qdisc st1 = filter_qdisc st"
  by (auto simp: get_qdisc_kind_def Let_def split: option.splits prod.splits)

section \<open>Arguments of a change\<close>

definition TC_H_INGRESS :: u32 where "TC_H_INGRESS = 0xFFFFFFF1"

record qdisc_args =
  qa_dev :: string
  qa_kind :: string
  qa_handle :: u32
  qa_parent :: u32
  qa_est :: tc_estimator
  qa_stab :: tc_sizespec
  qa_util :: "qdisc_util option"

definition no_args :: qdisc_args where
  "no_args = \<lparr>qa_dev = [], qa_kind = [], qa_handle = 0, qa_parent = 0,
              qa_est = \<lparr>est_interval = 0, est_ewma_log = 0\<rparr>, qa_stab = no_sizespec, qa_util = None\<rparr>"

text \<open>What is not under \<^verbatim>\<open>src\<close>: one value per run of a command.\<close>

record tc_env =
  e_linker :: linker
  e_tc_lib :: string
  e_log :: "cdouble \<Rightarrow> cdouble"
  e_malloc :: bool
  e_nametoindex :: "string \<Rightarrow> u32"
  e_links_sent :: int
  e_links :: "recv_event list"
  e_sent :: int
  e_answer :: "recv_event list"

text \<open>
  The loop over the words: a return code, or the words that are left for the module. \<^verbatim>\<open>strncpy\<close> into
  16 zeroed bytes keeps at most 15 characters.
\<close>

function qdisc_words ::
  "tc_env \<Rightarrow> string list \<Rightarrow> qdisc_args \<Rightarrow> tc_state \<Rightarrow> ((int + (string list \<times> qdisc_args)) \<times> tc_state) cexit option" where
  "qdisc_words env [] a st = Some (Ret (Inr ([], a), st))"
| "qdisc_words env (w # r) a st =
     (if w = ''dev'' then
        (case r of
           [] \<Rightarrow> Some incomplete_command
         | v # r' \<Rightarrow> if qa_dev a \<noteq> [] then Some (duparg ''dev'' v)
                     else qdisc_words env r' (a\<lparr>qa_dev := take 15 v\<rparr>) st)
      else if w = ''handle'' then
        if qa_handle a \<noteq> 0 then Some (duparg ''handle'' w)
        else (case r of
                [] \<Rightarrow> Some incomplete_command
              | v # r' \<Rightarrow> (case get_qdisc_handle v of
                             None \<Rightarrow> Some (invarg ''invalid qdisc ID'' v)
                           | Some h \<Rightarrow> qdisc_words env r' (a\<lparr>qa_handle := h\<rparr>) st))
      else if w = ''root'' then
        if qa_parent a \<noteq> 0 then Some (Ret (Inl (-1), st))
        else qdisc_words env r (a\<lparr>qa_parent := TC_H_ROOT\<rparr>) st
      else if w = ''ingress'' then
        if qa_parent a \<noteq> 0 then Some (Ret (Inl (-1), st))
        else let (q, st1) = get_qdisc_kind (e_linker env) (e_tc_lib env) ''ingress'' st
             in Some (Ret (Inr (r, a\<lparr>qa_parent := TC_H_INGRESS, qa_kind := ''ingress'', qa_util := Some q,
                                     qa_handle := 0xFFFF0000\<rparr>), st1))
      else if w = ''parent'' then
        (case r of
           [] \<Rightarrow> Some incomplete_command
         | v # r' \<Rightarrow> if qa_parent a \<noteq> 0 then Some (duparg ''parent'' v)
                     else (case get_tc_classid v of
                             None \<Rightarrow> Some (invarg ''invalid parent ID'' v)
                           | Some h \<Rightarrow> qdisc_words env r' (a\<lparr>qa_parent := h\<rparr>) st))
      else if matches w ''estimator'' = 0 then
        (case parse_estimator (e_log env) (w # r) (qa_est a) of
           None \<Rightarrow> None
         | Some (Exit e) \<Rightarrow> Some (Exit e)
         | Some (Ret (rc, argv, est)) \<Rightarrow>
             if rc \<noteq> 0 then Some (Ret (Inl (-1), st))
             else qdisc_words env (tl argv) (a\<lparr>qa_est := est\<rparr>) st)
      else if matches w ''stab'' = 0 then
        (case parse_size_table (w # r) (qa_stab a) of
           Exit e \<Rightarrow> Some (Exit e)
         | Ret (rc, argv, s) \<Rightarrow>
             if rc < 0 then Some (Ret (Inl (-1), st))
             else qdisc_words env argv (a\<lparr>qa_stab := s\<rparr>) st)
      else if matches w ''help'' = 0 then qdisc_words env r a st
      else let (q, st1) = get_qdisc_kind (e_linker env) (e_tc_lib env) (take 15 w) st
           in Some (Ret (Inr (r, a\<lparr>qa_kind := take 15 w, qa_util := Some q\<rparr>), st1)))"
  by pat_completeness auto
termination qdisc_words
  by (relation "measure (\<lambda>(_, argv, _, _). length argv)")
    (auto dest!: parse_size_table_shorter parse_estimator_shorter)

declare qdisc_words.simps(2) [simp del]

section \<open>The request\<close>

definition RTM_NEWQDISC :: u16 where "RTM_NEWQDISC = 36"
definition RTM_DELQDISC :: u16 where "RTM_DELQDISC = 37"
definition RTM_GETQDISC :: u16 where "RTM_GETQDISC = 38"
definition NLM_F_REPLACE :: u16 where "NLM_F_REPLACE = 0x100"
definition NLM_F_EXCL :: u16 where "NLM_F_EXCL = 0x200"
definition NLM_F_CREATE :: u16 where "NLM_F_CREATE = 0x400"
definition TCA_KIND :: u16 where "TCA_KIND = 1"
definition TCA_RATE :: u16 where "TCA_RATE = 5"
definition TCA_STAB :: u16 where "TCA_STAB = 8"
definition TCA_MAX :: nat where "TCA_MAX = 8"
definition TCA_BUF_MAX :: nat where "TCA_BUF_MAX = 65536"

text \<open>\<^verbatim>\<open>struct tcmsg\<close>, and its fields behind the header of a message.\<close>

definition tcmsg_bytes :: "u32 \<Rightarrow> u32 \<Rightarrow> u32 \<Rightarrow> u8 list" where
  "tcmsg_bytes ifindex handle parent =
     [of_nat AF_UNSPEC, 0, 0, 0] @ le_bytes 4 ifindex @ le_bytes 4 handle @ le_bytes 4 parent @ le_bytes 4 (0 :: u32)"

definition tcm_ifindex :: "u8 list \<Rightarrow> u32" where "tcm_ifindex n = peek32 20 n"
definition tcm_handle :: "u8 list \<Rightarrow> u32" where "tcm_handle n = peek32 24 n"
definition tcm_parent :: "u8 list \<Rightarrow> u32" where "tcm_parent n = peek32 28 n"
definition tcm_info :: "u8 list \<Rightarrow> u32" where "tcm_info n = peek32 32 n"

text \<open>\<^verbatim>\<open>sizeof(req)\<close>: the header, the structure and the buffer.\<close>

definition REQ_SIZE :: u32 where "REQ_SIZE = of_nat (36 + TCA_BUF_MAX)"

definition new_request :: "u16 \<Rightarrow> u16 \<Rightarrow> u32 \<Rightarrow> u32 \<Rightarrow> u8 list" where
  "new_request cmd flags handle parent =
     make_nlmsghdr 36 cmd (NLM_F_REQUEST OR flags) 0 0 @ tcmsg_bytes 0 handle parent @ replicate TCA_BUF_MAX 0"

definition estimator_bytes :: "tc_estimator \<Rightarrow> u8 list" where
  "estimator_bytes e = [of_int (est_interval e), est_ewma_log e]"

text \<open>The attributes of the size table, nested by hand; the results of the additions are not looked at.\<close>

definition add_stab :: "bool \<Rightarrow> tc_sizespec \<Rightarrow> u8 list \<Rightarrow> (int \<times> u8 list) option" where
  "add_stab alloc s n =
     (if \<not> check_size_table_opts s then Some (0, n)
      else case tc_calc_size_table alloc s of
             None \<Rightarrow> None
           | Some (rc, s1, data) \<Rightarrow>
               if rc < 0 then Some (-1, n)
               else let tail = NLMSG_TAIL n;
                        n1 = snd (addattr_l n REQ_SIZE TCA_STAB []);
                        n2 = snd (addattr_l n1 REQ_SIZE TCA_STAB_BASE (sizespec_bytes s1));
                        n3 = (case data of
                                Some d \<Rightarrow> snd (addattr_l n2 REQ_SIZE TCA_STAB_DATA (concat (map (le_bytes 2) d)))
                              | None \<Rightarrow> n2)
                    in Some (0, poke tail (le_bytes 2 (of_int (int (NLMSG_TAIL n3) - int tail) :: u16)) n3))"

section \<open>Changing a discipline\<close>

datatype tc_end = TcReturn int | TcExit int | TcWaiting | TcUndefined

text \<open>The module reads the words that are left and adds its attributes.\<close>

definition parse_module :: "qdisc_args \<Rightarrow> string list \<Rightarrow> u8 list \<Rightarrow> tc_end + u8 list" where
  "parse_module a argv n =
     (case qa_util a of
        Some q \<Rightarrow>
          (case qu_parse_qopt q of
             None \<Rightarrow> Inl (TcReturn (-1))
           | Some parse_qopt \<Rightarrow>
               (case parse_qopt argv n of
                  None \<Rightarrow> Inl TcUndefined
                | Some (Exit e) \<Rightarrow> Inl (TcExit e)
                | Some (Ret (rc, n1)) \<Rightarrow> if rc \<noteq> 0 then Inl (TcReturn 1) else Inr n1))
      | None \<Rightarrow> if argv \<noteq> [] then Inl (TcReturn (-1)) else Inr n)"

text \<open>\<^verbatim>\<open>ll_init_map(&rth)\<close>: the end of the program, if it ends there, and the request for the dump.\<close>

definition load_links :: "tc_env \<Rightarrow> tc_state \<Rightarrow> tc_end option \<times> u8 list list \<times> tc_state" where
  "load_links env st =
     (let (req, rth, out) = ll_init_map (tc_rth st) (e_links_sent env) (e_links env) (tc_links st);
          sent = (if initialized (tc_links st) \<or> e_links_sent env < 0 then [] else [req]); st1 = st\<lparr>tc_rth := rth\<rparr>
      in case out of
           Returned rc (Some m) \<Rightarrow> (None, sent, st1\<lparr>tc_links := m\<rparr>)
         | Returned rc None \<Rightarrow> (Some TcUndefined, sent, st1)
         | Exited c \<Rightarrow> (Some (TcExit c), sent, st1)
         | Waiting m \<Rightarrow> (Some TcWaiting, sent, st1))"

definition find_device :: "tc_env \<Rightarrow> string \<Rightarrow> tc_state \<Rightarrow> u32 \<times> tc_state" where
  "find_device env dev st =
     (let (idx, m) = ll_name_to_index (e_nametoindex env) (Some dev) (tc_links st) in (idx, st\<lparr>tc_links := m\<rparr>))"

definition send_request :: "tc_env \<Rightarrow> u8 list \<Rightarrow> tc_state \<Rightarrow> tc_end \<times> u8 list list \<times> tc_state" where
  "send_request env n st =
     (let (msg, out, rth) = rtnl_talk (tc_rth st) n 0 False (e_sent env) (e_answer env)
      in (case out of
            Returned rc _ \<Rightarrow> TcReturn (if rc < 0 then 2 else 0)
          | Exited c \<Rightarrow> TcExit c
          | Waiting _ \<Rightarrow> TcWaiting,
          if e_sent env < 0 then [] else [msg],
          st\<lparr>tc_rth := rth\<rparr>))"

definition tc_qdisc_modify ::
  "tc_env \<Rightarrow> u16 \<Rightarrow> u16 \<Rightarrow> string list \<Rightarrow> tc_state \<Rightarrow> tc_end \<times> u8 list list \<times> tc_state" where
  "tc_qdisc_modify env cmd flags argv st =
     (case qdisc_words env argv no_args st of
        None \<Rightarrow> (TcUndefined, [], st)
      | Some (Exit e) \<Rightarrow> (TcExit e, [], st)
      | Some (Ret (Inl rc, st1)) \<Rightarrow> (TcReturn rc, [], st1)
      | Some (Ret (Inr (rest, a), st1)) \<Rightarrow>
          let n0 = new_request cmd flags (qa_handle a) (qa_parent a);
              n1 = (if qa_kind a \<noteq> [] then snd (addattr_l n0 REQ_SIZE TCA_KIND (bytes_of_string (qa_kind a) @ [0])) else n0);
              n2 = (if est_ewma_log (qa_est a) \<noteq> 0 then snd (addattr_l n1 REQ_SIZE TCA_RATE (estimator_bytes (qa_est a))) else n1)
          in case parse_module a rest n2 of
               Inl e \<Rightarrow> (e, [], st1)
             | Inr n3 \<Rightarrow>
                 (case add_stab (e_malloc env) (qa_stab a) n3 of
                    None \<Rightarrow> (TcUndefined, [], st1)
                  | Some (rc, n4) \<Rightarrow>
                      if rc < 0 then (TcReturn (-1), [], st1)
                      else if qa_dev a = [] then send_request env n4 st1
                      else case load_links env st1 of
                             (Some e, sent, st2) \<Rightarrow> (e, sent, st2)
                           | (None, sent, st2) \<Rightarrow>
                               let (idx, st3) = find_device env (qa_dev a) st2
                               in if idx = 0 then (TcReturn 1, sent, st3)
                                  else let (e, sent', st4) = send_request env (poke 20 (le_bytes 4 idx) n4) st3
                                       in (e, sent @ sent', st4)))"

section \<open>Listing\<close>

text \<open>The callback of the dump; \<open>None\<close> once a module has run into undefined behaviour.\<close>

definition qdisc_head :: "tc_state \<Rightarrow> u8 list \<Rightarrow> string \<Rightarrow> string" where
  "qdisc_head st n kind =
     (if nlmsg_type n = RTM_DELQDISC then ''deleted '' else []) @
     ''qdisc '' @ kind @ '' '' @ fmt_x (drop_bit 16 (tcm_handle n)) @ '': '' @
     (if filter_ifindex st = 0 then ''dev '' @ ll_index_to_name (tc_links st) (tcm_ifindex n) @ '' '' else []) @
     (if tcm_parent n = TC_H_ROOT then ''root ''
      else if tcm_parent n \<noteq> 0 then ''parent '' @ print_tc_classid 256 (tcm_parent n) @ '' '' else []) @
     (if tcm_info n \<noteq> 1 then ''refcnt '' @ fmt_d (sint (tcm_info n)) @ '' '' else [])"

definition qdisc_stats :: "tc_state \<Rightarrow> u8 list option list \<Rightarrow> qdisc_util \<Rightarrow> string" where
  "qdisc_stats st tb q =
     (if show_stats st = 0 then []
      else let (stats, xstats) =
                 (if tb ! TCA_STATS \<noteq> None \<or> tb ! TCA_STATS2 \<noteq> None \<or> tb ! TCA_XSTATS \<noteq> None
                  then let (t, x) = print_tcstats_attr (use_iec st \<noteq> 0) tb '' '' True None in (t @ [newline], x)
                  else ([], None))
           in stats @ (case (xstats, qu_print_xstats q) of
                         (Some x, Some print_xstats) \<Rightarrow> print_xstats x @ [newline]
                       | _ \<Rightarrow> []))"

definition print_qdisc :: "tc_env \<Rightarrow> tc_state option nl_filter" where
  "print_qdisc env pid n state =
     (case state of
        None \<Rightarrow> (0, None)
      | Some st \<Rightarrow>
          if nlmsg_type n \<noteq> RTM_NEWQDISC \<and> nlmsg_type n \<noteq> RTM_DELQDISC then (0, state)
          else let len = sint (nlmsg_len n) - 36
               in if len < 0 then (-1, state)
                  else if filter_ifindex st \<noteq> 0 \<and> filter_ifindex st \<noteq> tcm_ifindex n then (0, state)
                  else let tb = fst (parse_rtattr TCA_MAX (drop 36 n) len)
                       in case tb ! unat TCA_KIND of
                            None \<Rightarrow> (-1, state)
                          | Some k \<Rightarrow>
                              let kind = rta_getattr_str k;
                                  (q, st1) = get_qdisc_kind (e_linker env) (e_tc_lib env)
                                               (if kind = ''pfifo_fast'' then ''prio'' else kind) st
                              in case (case tb ! unat TCA_OPTIONS of
                                         None \<Rightarrow> Some []
                                       | Some rta \<Rightarrow> map_option snd (qu_print_qopt q (Some rta))) of
                                   None \<Rightarrow> (0, None)
                                 | Some opts \<Rightarrow>
                                     let stab = (if show_details st \<noteq> 0 then
                                                   case tb ! unat TCA_STAB of
                                                     Some rta \<Rightarrow> print_size_table '' '' rta @ [newline]
                                                   | None \<Rightarrow> []
                                                 else [])
                                     in (0, Some (st1\<lparr>tc_stdout := tc_stdout st1 @ qdisc_head st n kind @ opts @ [newline] @
                                                        stab @ qdisc_stats st tb q\<rparr>)))"

fun qdisc_list_words :: "string list \<Rightarrow> string \<Rightarrow> u32 \<Rightarrow> (int + (string \<times> u32)) cexit" where
  "qdisc_list_words [] dev parent = Ret (Inr (dev, parent))"
| "qdisc_list_words (w # r) dev parent =
     (if w = ''dev'' then
        (case r of [] \<Rightarrow> incomplete_command | v # r' \<Rightarrow> qdisc_list_words r' (take 15 v) parent)
      else if w = ''ingress'' then qdisc_list_words r dev TC_H_INGRESS
      else if matches w ''help'' = 0 then qdisc_list_words r dev parent
      else Ret (Inl (-1)))"

text \<open>The dump itself, with what the kernel sends after the request.\<close>

definition dump_tc ::
  "tc_env \<Rightarrow> u16 \<Rightarrow> tc_state option nl_filter \<Rightarrow> u32 \<Rightarrow> u32 \<Rightarrow> tc_state \<Rightarrow> tc_end \<times> u8 list list \<times> tc_state" where
  "dump_tc env type print_it idx parent st =
     (let (req, rth) = rtnl_dump_request (tc_rth st) type (tcmsg_bytes idx 0 parent); st1 = st\<lparr>tc_rth := rth\<rparr>
      in if e_sent env < 0 then (TcReturn 1, [], st1)
         else case rtnl_dump_filter rth print_it (e_answer env) (Some st1) of
                Returned rc None \<Rightarrow> (TcUndefined, [req], st1)
              | Returned rc (Some st2) \<Rightarrow> (TcReturn (if rc < 0 then 1 else 0), [req], st2)
              | Exited c \<Rightarrow> (TcExit c, [req], st1)
              | Waiting _ \<Rightarrow> (TcWaiting, [req], st1))"

definition tc_qdisc_list :: "tc_env \<Rightarrow> string list \<Rightarrow> tc_state \<Rightarrow> tc_end \<times> u8 list list \<times> tc_state" where
  "tc_qdisc_list env argv st =
     (case qdisc_list_words argv [] 0 of
        Exit e \<Rightarrow> (TcExit e, [], st)
      | Ret (Inl rc) \<Rightarrow> (TcReturn rc, [], st)
      | Ret (Inr (dev, parent)) \<Rightarrow>
          (case load_links env st of
             (Some e, sent, st1) \<Rightarrow> (e, sent, st1)
           | (None, sent, st1) \<Rightarrow>
               let (idx, st2) = (if dev = [] then (0, st1) else find_device env dev st1)
               in if dev \<noteq> [] \<and> idx = 0 then (TcReturn 1, sent, st2)
                  else let st3 = (if dev = [] then st2 else st2\<lparr>filter_ifindex := idx\<rparr>);
                           (e, sent', st4) = dump_tc env RTM_GETQDISC (print_qdisc env) idx parent st3
                       in (e, sent @ sent', st4)))"

section \<open>The command\<close>

definition do_qdisc :: "tc_env \<Rightarrow> string list \<Rightarrow> tc_state \<Rightarrow> tc_end \<times> u8 list list \<times> tc_state" where
  "do_qdisc env argv st =
     (case argv of
        [] \<Rightarrow> tc_qdisc_list env [] st
      | w # r \<Rightarrow>
          if matches w ''add'' = 0 then tc_qdisc_modify env RTM_NEWQDISC (NLM_F_EXCL OR NLM_F_CREATE) r st
          else if matches w ''change'' = 0 then tc_qdisc_modify env RTM_NEWQDISC 0 r st
          else if matches w ''replace'' = 0 then tc_qdisc_modify env RTM_NEWQDISC (NLM_F_CREATE OR NLM_F_REPLACE) r st
          else if matches w ''link'' = 0 then tc_qdisc_modify env RTM_NEWQDISC NLM_F_REPLACE r st
          else if matches w ''delete'' = 0 then tc_qdisc_modify env RTM_DELQDISC 0 r st
          else if matches w ''list'' = 0 \<or> matches w ''show'' = 0 \<or> matches w ''lst'' = 0
          then tc_qdisc_list env r st
          else if matches w ''help'' = 0 then (TcReturn 0, [], st)
          else (TcReturn (-1), [], st))"

section \<open>A small system\<close>

text \<open>One interface, the module linked into the program, an acknowledgement without error.\<close>

definition demo_tc :: tc_state where
  "demo_tc = \<lparr>tc_rth = demo_handle, tc_links = empty_map\<lparr>initialized := True\<rparr>, qdisc_list = [], filter_list = [], tc_BODY = None,
     filter_ifindex = 0, class_filter_ifindex = 0, filter_qdisc = 0, filter_classid = 0,
     filter_parent = 0, tfilter_ifindex = 0, filter_prio = 0, filter_protocol = 0, f_proto = 0, show_stats = 0, show_details = 0, use_iec = 0, show_raw = 0, show_pretty = 0, tc_force = 0,
     tc_ticks = initial_clock, tc_stdout = []\<rparr>"

definition demo_ack :: "u8 list" where
  "demo_ack = make_nlmsghdr 36 2 0 10 77 @ le_bytes 4 (0 :: u32) @ replicate 16 0"

definition demo_env :: tc_env where
  "demo_env =
     \<lparr>e_linker = \<lparr>dlopen = (\<lambda>path. if path = None then Some 1 else None),
                  dlsym = (\<lambda>h name. if name = ''pfabric_qdisc_util'' then Some pfabric_qdisc_util else None),
                  dlsym_filter = (\<lambda>h name. None)\<rparr>,
      e_tc_lib = ''/usr/lib/tc/'', e_log = (\<lambda>x. x), e_malloc = True,
      e_nametoindex = (\<lambda>name. if name = ''eth0'' then 2 else 0), e_links_sent = 28, e_links = [], e_sent = 60,
      e_answer = [RecvMsg 0 True False demo_ack]\<rparr>"

end
