(* ===== verification/F_U32.thy ===== *)
theory F_U32
  imports Em_Kinds Tc_Qdisc
begin

unbundle bit_operations_syntax

text \<open>
  The u32 filter of the tc command (\<^verbatim>\<open>tc/f_u32.c\<close>): a selector is an array of masked words of a packet,
  into which the tests of a command line are packed. A parser returns its results and the arguments
  that are left, \<open>Ret None\<close> for the return code -1, or ends the program. The parsers and printers of
  actions and of policers, \<^verbatim>\<open>inet_pton\<close> for IPv6 and \<^verbatim>\<open>inet_ntop\<close> are parameters.
\<close>

section \<open>Handles\<close>

definition TC_U32_HTID :: "u32 \<Rightarrow> u32" where "TC_U32_HTID h = h AND 0xFFF00000"
definition TC_U32_USERHTID :: "u32 \<Rightarrow> u32" where "TC_U32_USERHTID h = drop_bit 20 (TC_U32_HTID h)"
definition TC_U32_HASH :: "u32 \<Rightarrow> u32" where "TC_U32_HASH h = drop_bit 12 h AND 0xFF"
definition TC_U32_NODE :: "u32 \<Rightarrow> u32" where "TC_U32_NODE h = h AND 0xFFF"

definition get_u32_handle :: "string \<Rightarrow> u32 option" where
  "get_u32_handle str =
     (if strchr str (CHR '':'') = None
      then if take 2 str = ''0x'' then get_u32 str 16 else None
      else let (r, tmp) = strtoul 16 str; htid = (ucast r :: u32)
           in if tmp = str \<and> str \<noteq> [] \<and> hd str \<noteq> CHR '':'' then None
              else if htid \<ge> 0x1000 then None
              else if tmp = [] then Some (push_bit 20 htid)
              else let str1 = tl tmp; (r1, tmp1) = strtoul 16 str1; hash = (ucast r1 :: u32)
                   in if tmp1 = str1 \<and> str1 \<noteq> [] \<and> hd str1 \<noteq> CHR '':'' then None
                      else if hash \<ge> 0x100 then None
                      else if tmp1 = [] then Some (push_bit 20 htid OR push_bit 12 hash)
                      else let str2 = tl tmp1; (r2, tmp2) = strtoul 16 str2; nodeid = (ucast r2 :: u32)
                           in if tmp2 = str2 \<and> str2 \<noteq> [] then None
                              else if nodeid \<ge> 0x1000 then None
                              else Some (push_bit 20 htid OR push_bit 12 hash OR nodeid))"

text \<open>The pieces are shorter than the buffer.\<close>

definition sprint_u32_handle :: "bool \<Rightarrow> u32 \<Rightarrow> string" where
  "sprint_u32_handle raw handle =
     (let htid = TC_U32_HTID handle; hash = TC_U32_HASH handle; nodeid = TC_U32_NODE handle
      in if handle = 0 then ''none''
         else (if htid \<noteq> 0 then fmt_x (drop_bit 20 htid) @ '':'' else []) @
              (if hash \<noteq> 0 then fmt_x hash else []) @
              (if nodeid \<noteq> 0 then '':'' @ fmt_x nodeid else []) @
              (if raw then ''['' @ fmt_0x 8 handle @ ''] '' else []))"

section \<open>Selectors\<close>

record tc_u32_key =
  uk_mask :: u32
  uk_val :: u32
  uk_off :: int
  uk_offmask :: int

text \<open>The number of keys is the length of the array; signed halfwords are kept as their bits.\<close>

record tc_u32_sel =
  us_flags :: u8
  us_offshift :: u8
  us_offmask :: u16
  us_off :: u16
  us_offoff :: u16
  us_hoff :: u16
  us_hmask :: u32
  us_keys :: "tc_u32_key list"

definition empty_sel :: tc_u32_sel where
  "empty_sel = \<lparr>us_flags = 0, us_offshift = 0, us_offmask = 0, us_off = 0, us_offoff = 0, us_hoff = 0, us_hmask = 0, us_keys = []\<rparr>"

definition key_bytes :: "tc_u32_key \<Rightarrow> u8 list" where
  "key_bytes k = le_bytes 4 (uk_mask k) @ le_bytes 4 (uk_val k) @ le_bytes 4 (of_int (uk_off k) :: u32) @ le_bytes 4 (of_int (uk_offmask k) :: u32)"

definition sel_hdr :: "tc_u32_sel \<Rightarrow> u8 list" where
  "sel_hdr s = [us_flags s, us_offshift s, of_nat (length (us_keys s)), 0] @ le_bytes 2 (us_offmask s) @ le_bytes 2 (us_off s) @
     le_bytes 2 (us_offoff s) @ le_bytes 2 (us_hoff s) @ le_bytes 4 (us_hmask s)"

definition sel_bytes :: "tc_u32_sel \<Rightarrow> u8 list" where
  "sel_bytes s = sel_hdr s @ concat (map key_bytes (us_keys s))"

definition read_key :: "u8 list \<Rightarrow> tc_u32_key" where
  "read_key d = \<lparr>uk_mask = peek32 0 d, uk_val = peek32 4 d, uk_off = sint (peek32 8 d), uk_offmask = sint (peek32 12 d)\<rparr>"

definition read_sel :: "u8 list \<Rightarrow> tc_u32_sel" where
  "read_sel d = \<lparr>us_flags = d ! 0, us_offshift = d ! 1, us_offmask = peek16 4 d, us_off = peek16 6 d, us_offoff = peek16 8 d,
     us_hoff = peek16 10 d, us_hmask = peek32 12 d, us_keys = map (\<lambda>i. read_key (drop (16 + 16 * i) d)) [0..<unat (d ! 2)]\<rparr>"

text \<open>The loop of \<^verbatim>\<open>pack_key\<close>: no key for the word, a contradiction, or the keys with the test merged in.\<close>

fun merge_key :: "u32 \<Rightarrow> u32 \<Rightarrow> int \<Rightarrow> int \<Rightarrow> tc_u32_key list \<Rightarrow> tc_u32_key list option option" where
  "merge_key key msk off offmask [] = None"
| "merge_key key msk off offmask (k # ks) =
     (if uk_off k = off \<and> uk_offmask k = offmask
      then if (key XOR uk_val k) AND (msk AND uk_mask k) \<noteq> 0 then Some None
           else Some (Some (k\<lparr>uk_val := uk_val k OR key, uk_mask := uk_mask k OR msk\<rparr> # ks))
      else map_option (map_option ((#) k)) (merge_key key msk off offmask ks))"

definition pack_key :: "tc_u32_sel \<Rightarrow> u32 \<Rightarrow> u32 \<Rightarrow> int \<Rightarrow> int \<Rightarrow> tc_u32_sel option" where
  "pack_key sel key0 msk off offmask =
     (let key = key0 AND msk
      in case merge_key key msk off offmask (us_keys sel) of
           Some r \<Rightarrow> map_option (\<lambda>ks. sel\<lparr>us_keys := ks\<rparr>) r
         | None \<Rightarrow>
             if length (us_keys sel) \<ge> 128 then None
             else if \<not> 4 dvd off then None
             else Some (sel\<lparr>us_keys := us_keys sel @ [\<lparr>uk_mask = msk, uk_val = key, uk_off = off, uk_offmask = offmask\<rparr>]\<rparr>))"

definition pack_key32 :: "tc_u32_sel \<Rightarrow> u32 \<Rightarrow> u32 \<Rightarrow> int \<Rightarrow> int \<Rightarrow> tc_u32_sel option" where
  "pack_key32 sel key msk off offmask = pack_key sel (htonl key) (htonl msk) off offmask"

definition pack_key16 :: "tc_u32_sel \<Rightarrow> u32 \<Rightarrow> u32 \<Rightarrow> int \<Rightarrow> int \<Rightarrow> tc_u32_sel option" where
  "pack_key16 sel key msk off offmask =
     (if key > 0xFFFF \<or> msk > 0xFFFF then None
      else let sh = (if off AND 3 = 0 then 16 else 0)
           in pack_key sel (htonl (push_bit sh key)) (htonl (push_bit sh msk)) (off AND NOT 3) offmask)"

definition pack_key8 :: "tc_u32_sel \<Rightarrow> u32 \<Rightarrow> u32 \<Rightarrow> int \<Rightarrow> int \<Rightarrow> tc_u32_sel option" where
  "pack_key8 sel key msk off offmask =
     (if key > 0xFF \<or> msk > 0xFF then None
      else let sh = (if off AND 3 = 0 then 24 else if off AND 3 = 1 then 16 else if off AND 3 = 2 then 8 else 0)
           in pack_key sel (htonl (push_bit sh key)) (htonl (push_bit sh msk)) (off AND NOT 3) offmask)"

section \<open>Reading tests\<close>

text \<open>Sequencing: a failure is returned as -1, the end of the program ends everything.\<close>

definition or_fail :: "'a option \<Rightarrow> ('a \<Rightarrow> 'b option cexit) \<Rightarrow> 'b option cexit" where
  "or_fail x f = (case x of None \<Rightarrow> Ret None | Some y \<Rightarrow> f y)"

definition cthen :: "'a option cexit \<Rightarrow> ('a \<Rightarrow> 'b option cexit) \<Rightarrow> 'b option cexit" where
  "cthen x f = (case x of Exit e \<Rightarrow> Exit e | Ret r \<Rightarrow> or_fail r f)"

definition after_next :: "string list \<Rightarrow> (string list \<Rightarrow> 'a cexit) \<Rightarrow> 'a cexit" where
  "after_next argv f = (case NEXT_ARG argv of Exit e \<Rightarrow> Exit e | Ret r \<Rightarrow> f r)"

definition parse_at :: "string list \<Rightarrow> int \<Rightarrow> (int \<times> int \<times> string list) option cexit" where
  "parse_at argv offmask =
     (case argv of
        [] \<Rightarrow> Ret None
      | a # r \<Rightarrow>
          if length a > 8 \<and> take 8 a = ''nexthdr+''
          then or_fail (get_integer (drop 8 a) 0) (\<lambda>off. Ret (Some (off, -1, r)))
          else if matches a ''nexthdr+'' = 0
          then after_next argv (\<lambda>argv1. or_fail (get_integer (hd argv1) 0) (\<lambda>off. Ret (Some (off, -1, tl argv1))))
          else or_fail (get_integer a 0) (\<lambda>off. Ret (Some (off, offmask, r))))"

text \<open>The optional offset, written out at the end of every parser of a test.\<close>

definition opt_at :: "string list \<Rightarrow> int \<Rightarrow> int \<Rightarrow> (int \<times> int \<times> string list) option cexit" where
  "opt_at argv off offmask =
     (if argv \<noteq> [] \<and> hd argv = ''at'' then after_next argv (\<lambda>argv1. parse_at argv1 offmask)
      else Ret (Some (off, offmask, argv)))"

text \<open>
  \<^verbatim>\<open>parse_u32\<close>, \<^verbatim>\<open>parse_u16\<close> and \<^verbatim>\<open>parse_u8\<close> have the same text but for the packing and the early test of
  bytes: \<open>bound\<close> is the largest number that passes it.
\<close>

definition parse_field ::
  "(tc_u32_sel \<Rightarrow> u32 \<Rightarrow> u32 \<Rightarrow> int \<Rightarrow> int \<Rightarrow> tc_u32_sel option) \<Rightarrow> u32 \<Rightarrow> string list \<Rightarrow> tc_u32_sel \<Rightarrow> int \<Rightarrow> int \<Rightarrow>
   (tc_u32_sel \<times> string list) option cexit" where
  "parse_field pack bound argv sel off offmask =
     (case argv of
        k # m # r \<Rightarrow>
          or_fail (get_u32 k 0) (\<lambda>key.
          or_fail (get_u32 m 16) (\<lambda>msk.
            if key > bound \<or> msk > bound then Ret None
            else cthen (opt_at r off offmask) (\<lambda>(off1, offmask1, r1).
              or_fail (pack sel key msk off1 offmask1) (\<lambda>sel1. Ret (Some (sel1, r1))))))
      | _ \<Rightarrow> Ret None)"

definition parse_u32 :: "string list \<Rightarrow> tc_u32_sel \<Rightarrow> int \<Rightarrow> int \<Rightarrow> (tc_u32_sel \<times> string list) option cexit" where
  "parse_u32 = parse_field pack_key32 (-1)"

definition parse_u16 :: "string list \<Rightarrow> tc_u32_sel \<Rightarrow> int \<Rightarrow> int \<Rightarrow> (tc_u32_sel \<times> string list) option cexit" where
  "parse_u16 = parse_field pack_key16 (-1)"

definition parse_u8 :: "string list \<Rightarrow> tc_u32_sel \<Rightarrow> int \<Rightarrow> int \<Rightarrow> (tc_u32_sel \<times> string list) option cexit" where
  "parse_u8 = parse_field pack_key8 0xFF"

definition parse_ip_addr ::
  "(string \<Rightarrow> u8 list option) \<Rightarrow> string list \<Rightarrow> tc_u32_sel \<Rightarrow> int \<Rightarrow> (tc_u32_sel \<times> string list) option cexit" where
  "parse_ip_addr pton6 argv sel off =
     (case argv of
        [] \<Rightarrow> Ret None
      | a # r \<Rightarrow>
          or_fail (get_prefix_1 pton6 a AF_INET) (\<lambda>addr.
          cthen (opt_at r off 0) (\<lambda>(off1, offmask, r1).
            let msk = (if pfx_bitlen addr \<noteq> 0 then htonl (push_bit (nat (32 - pfx_bitlen addr)) 0xFFFFFFFF) else 0)
            in or_fail (pack_key sel (data_word addr 0) msk off1 offmask) (\<lambda>sel1. Ret (Some (sel1, r1))))))"

text \<open>The loop over the words of an IPv6 prefix, \<open>i\<close> counted in words.\<close>

fun pack_ip6 :: "inet_prefix \<Rightarrow> int \<Rightarrow> int \<Rightarrow> nat list \<Rightarrow> tc_u32_sel \<Rightarrow> tc_u32_sel option" where
  "pack_ip6 addr off offmask [] sel = Some sel"
| "pack_ip6 addr off offmask (w # ws) sel =
     (let i = 32 * int w; plen = pfx_bitlen addr
      in if \<not> i < plen then Some sel
         else let msk = (if i + 31 \<le> plen then 0xFFFFFFFF else htonl (push_bit (nat (32 - (plen - i))) 0xFFFFFFFF))
              in case pack_key sel (data_word addr w) msk (off + 4 * int w) offmask of
                   None \<Rightarrow> None
                 | Some sel1 \<Rightarrow> pack_ip6 addr off offmask ws sel1)"

definition parse_ip6_addr ::
  "(string \<Rightarrow> u8 list option) \<Rightarrow> string list \<Rightarrow> tc_u32_sel \<Rightarrow> int \<Rightarrow> (tc_u32_sel \<times> string list) option cexit" where
  "parse_ip6_addr pton6 argv sel off =
     (case argv of
        [] \<Rightarrow> Ret None
      | a # r \<Rightarrow>
          or_fail (get_prefix_1 pton6 a AF_INET6) (\<lambda>addr.
          cthen (opt_at r off 0) (\<lambda>(off1, offmask, r1).
            or_fail (pack_ip6 addr off1 offmask [0..<4] sel) (\<lambda>sel1. Ret (Some (sel1, r1))))))"

definition parse_ip6_class :: "string list \<Rightarrow> tc_u32_sel \<Rightarrow> (tc_u32_sel \<times> string list) option cexit" where
  "parse_ip6_class argv sel =
     (case argv of
        k # m # r \<Rightarrow>
          or_fail (get_u32 k 0) (\<lambda>key.
          or_fail (get_u32 m 16) (\<lambda>msk.
            if key > 0xFF \<or> msk > 0xFF then Ret None
            else or_fail (pack_key sel (htonl (push_bit 20 key)) (htonl (push_bit 20 msk)) 0 0) (\<lambda>sel1. Ret (Some (sel1, r)))))
      | _ \<Rightarrow> Ret None)"

text \<open>\<^verbatim>\<open>sscanf\<close> with \<^verbatim>\<open>%hhx\<close> and colons: numbers cut to eight bits; what follows the last is not looked at.\<close>

fun scan_hhx :: "nat \<Rightarrow> string \<Rightarrow> u8 list option" where
  "scan_hhx 0 s = Some []"
| "scan_hhx (Suc k) s =
     (let (v, r) = strtoul 16 s
      in if r = s then None
         else if k = 0 then Some [ucast v]
         else case r of
                [] \<Rightarrow> None
              | c # r' \<Rightarrow> if c = CHR '':'' then map_option ((#) (ucast v)) (scan_hhx k r') else None)"

fun pack_bytes :: "u8 list \<Rightarrow> int \<Rightarrow> int \<Rightarrow> tc_u32_sel \<Rightarrow> tc_u32_sel option" where
  "pack_bytes [] off offmask sel = Some sel"
| "pack_bytes (b # bs) off offmask sel =
     (case pack_key8 sel (ucast b) 0xFF off offmask of
        None \<Rightarrow> None
      | Some sel1 \<Rightarrow> pack_bytes bs (off + 1) offmask sel1)"

definition parse_ether_addr :: "string list \<Rightarrow> tc_u32_sel \<Rightarrow> int \<Rightarrow> (tc_u32_sel \<times> string list) option cexit" where
  "parse_ether_addr argv sel off =
     (case argv of
        [] \<Rightarrow> Ret None
      | a # r \<Rightarrow>
          or_fail (scan_hhx 6 a) (\<lambda>addr.
          cthen (opt_at r off 0) (\<lambda>(off1, offmask, r1).
            or_fail (pack_bytes addr off1 offmask sel) (\<lambda>sel1. Ret (Some (sel1, r1))))))"

definition parse_ip ::
  "(string \<Rightarrow> u8 list option) \<Rightarrow> string list \<Rightarrow> tc_u32_sel \<Rightarrow> (tc_u32_sel \<times> string list) option cexit" where
  "parse_ip pton6 argv sel =
     (if length argv < 2 then Ret None
      else let a = hd argv; pk = (\<lambda>x. or_fail x (\<lambda>sel1. Ret (Some (sel1, tl argv))))
           in if a = ''src'' then after_next argv (\<lambda>r. parse_ip_addr pton6 r sel 12)
              else if a = ''dst'' then after_next argv (\<lambda>r. parse_ip_addr pton6 r sel 16)
              else if a = ''tos'' \<or> matches a ''dsfield'' = 0 then after_next argv (\<lambda>r. parse_u8 r sel 1 0)
              else if a = ''ihl'' then after_next argv (\<lambda>r. parse_u8 r sel 0 0)
              else if a = ''protocol'' then after_next argv (\<lambda>r. parse_u8 r sel 9 0)
              else if matches a ''precedence'' = 0 then after_next argv (\<lambda>r. parse_u8 r sel 1 0)
              else if a = ''nofrag'' then pk (pack_key16 sel 0 0x3FFF 6 0)
              else if a = ''firstfrag'' then pk (pack_key16 sel 0x2000 0x3FFF 6 0)
              else if a = ''df'' then pk (pack_key16 sel 0x4000 0x4000 6 0)
              else if a = ''mf'' then pk (pack_key16 sel 0x2000 0x2000 6 0)
              else if a = ''dport'' then after_next argv (\<lambda>r. parse_u16 r sel 22 0)
              else if a = ''sport'' then after_next argv (\<lambda>r. parse_u16 r sel 20 0)
              else if a = ''icmp_type'' then after_next argv (\<lambda>r. parse_u8 r sel 20 0)
              else if a = ''icmp_code'' then after_next argv (\<lambda>r. parse_u8 r sel 21 0)
              else Ret None)"

definition parse_ip6 ::
  "(string \<Rightarrow> u8 list option) \<Rightarrow> string list \<Rightarrow> tc_u32_sel \<Rightarrow> (tc_u32_sel \<times> string list) option cexit" where
  "parse_ip6 pton6 argv sel =
     (if length argv < 2 then Ret None
      else let a = hd argv
           in if a = ''src'' then after_next argv (\<lambda>r. parse_ip6_addr pton6 r sel 8)
              else if a = ''dst'' then after_next argv (\<lambda>r. parse_ip6_addr pton6 r sel 24)
              else if a = ''priority'' then after_next argv (\<lambda>r. parse_ip6_class r sel)
              else if a = ''protocol'' then after_next argv (\<lambda>r. parse_u8 r sel 6 0)
              else if a = ''flowlabel'' then after_next argv (\<lambda>r. parse_u32 r sel 0 0)
              else if a = ''dport'' then after_next argv (\<lambda>r. parse_u16 r sel 42 0)
              else if a = ''sport'' then after_next argv (\<lambda>r. parse_u16 r sel 40 0)
              else if a = ''icmp_type'' then after_next argv (\<lambda>r. parse_u8 r sel 40 0)
              else if a = ''icmp_code'' then after_next argv (\<lambda>r. parse_u8 r sel 41 1)
              else Ret None)"

definition parse_ether :: "string list \<Rightarrow> tc_u32_sel \<Rightarrow> (tc_u32_sel \<times> string list) option cexit" where
  "parse_ether argv sel =
     (if length argv < 2 then Ret None
      else if hd argv = ''src'' then after_next argv (\<lambda>r. parse_ether_addr r sel (-8))
      else if hd argv = ''dst'' then after_next argv (\<lambda>r. parse_ether_addr r sel (-14))
      else Ret None)"

definition parse_udp :: "string list \<Rightarrow> tc_u32_sel \<Rightarrow> (tc_u32_sel \<times> string list) option cexit" where
  "parse_udp argv sel =
     (if length argv < 2 then Ret None
      else if hd argv = ''src'' then after_next argv (\<lambda>r. parse_u16 r sel 0 (-1))
      else if hd argv = ''dst'' then after_next argv (\<lambda>r. parse_u16 r sel 2 (-1))
      else Ret None)"

definition parse_icmp :: "string list \<Rightarrow> tc_u32_sel \<Rightarrow> (tc_u32_sel \<times> string list) option cexit" where
  "parse_icmp argv sel =
     (if length argv < 2 then Ret None
      else if hd argv = ''type'' then after_next argv (\<lambda>r. parse_u8 r sel 0 (-1))
      else if hd argv = ''code'' then after_next argv (\<lambda>r. parse_u8 r sel 1 (-1))
      else Ret None)"

definition TCA_U32_MARK :: u16 where "TCA_U32_MARK = 10"

text \<open>The third field of the mark, \<open>junk\<close>, is sent as the stack left it. An argument must follow the mark.\<close>

definition parse_mark :: "u32 \<Rightarrow> string list \<Rightarrow> u8 list \<Rightarrow> (u8 list \<times> string list) option cexit" where
  "parse_mark junk argv n =
     (if length argv \<le> 1 then Ret None
      else or_fail (get_u32 (hd argv) 0) (\<lambda>val.
        after_next argv (\<lambda>argv1.
        or_fail (get_u32 (hd argv1) 0) (\<lambda>msk.
        after_next argv1 (\<lambda>argv2.
          if val AND msk \<noteq> val then Ret None
          else Ret (Some (snd (addattr_l n MAX_MSG TCA_U32_MARK (le_bytes 4 val @ le_bytes 4 msk @ le_bytes 4 junk)), argv2)))))))"

record u32_env =
  ue_pton6 :: "string \<Rightarrow> u8 list option"
  ue_junk :: u32
  ue_action :: "string list \<Rightarrow> u8 list \<Rightarrow> (u8 list \<times> string list) option cexit"
  ue_police :: "string list \<Rightarrow> u8 list \<Rightarrow> (u8 list \<times> string list) option cexit"

definition keep_msg :: "u8 list \<Rightarrow> (tc_u32_sel \<times> string list) option cexit \<Rightarrow> (tc_u32_sel \<times> u8 list \<times> string list) option cexit" where
  "keep_msg n x = cthen x (\<lambda>(sel, r). Ret (Some (sel, n, r)))"

definition parse_selector ::
  "u32_env \<Rightarrow> string list \<Rightarrow> tc_u32_sel \<Rightarrow> u8 list \<Rightarrow> (tc_u32_sel \<times> u8 list \<times> string list) option cexit" where
  "parse_selector env argv sel n =
     (case argv of
        [] \<Rightarrow> Ret None
      | a # _ \<Rightarrow>
          if matches a ''u32'' = 0 then after_next argv (\<lambda>r. keep_msg n (parse_u32 r sel 0 0))
          else if matches a ''u16'' = 0 then after_next argv (\<lambda>r. keep_msg n (parse_u16 r sel 0 0))
          else if matches a ''u8'' = 0 then after_next argv (\<lambda>r. keep_msg n (parse_u8 r sel 0 0))
          else if matches a ''ip'' = 0 then after_next argv (\<lambda>r. keep_msg n (parse_ip (ue_pton6 env) r sel))
          else if matches a ''ip6'' = 0 then after_next argv (\<lambda>r. keep_msg n (parse_ip6 (ue_pton6 env) r sel))
          else if matches a ''udp'' = 0 then after_next argv (\<lambda>r. keep_msg n (parse_udp r sel))
          else if matches a ''tcp'' = 0 then after_next argv (\<lambda>r. keep_msg n (parse_udp r sel))
          else if matches a ''icmp'' = 0 then after_next argv (\<lambda>r. keep_msg n (parse_icmp r sel))
          else if matches a ''mark'' = 0
          then after_next argv (\<lambda>r. cthen (parse_mark (ue_junk env) r n) (\<lambda>(n1, r1). Ret (Some (sel, n1, r1))))
          else if matches a ''ether'' = 0 then after_next argv (\<lambda>r. keep_msg n (parse_ether r sel))
          else Ret None)"

section \<open>Offsets and hash keys\<close>

definition TC_U32_TERMINAL :: u8 where "TC_U32_TERMINAL = 1"
definition TC_U32_OFFSET :: u8 where "TC_U32_OFFSET = 2"
definition TC_U32_VAROFFSET :: u8 where "TC_U32_VAROFFSET = 4"
definition TC_U32_EAT :: u8 where "TC_U32_EAT = 8"

fun parse_offset :: "string list \<Rightarrow> tc_u32_sel \<Rightarrow> (tc_u32_sel \<times> string list) option cexit" where
  "parse_offset [] sel = Ret (Some (sel, []))"
| "parse_offset (a # r) sel =
     (if matches a ''plus'' = 0 then
        (case r of
           [] \<Rightarrow> incomplete_command
         | v # r' \<Rightarrow> (case get_integer v 0 of
                         None \<Rightarrow> Ret None
                       | Some off \<Rightarrow> parse_offset r' (sel\<lparr>us_off := of_int off, us_flags := us_flags sel OR TC_U32_OFFSET\<rparr>)))
      else if matches a ''at'' = 0 then
        (case r of
           [] \<Rightarrow> incomplete_command
         | v # r' \<Rightarrow> (case get_integer v 0 of
                         None \<Rightarrow> Ret None
                       | Some off \<Rightarrow>
                           if \<not> 2 dvd off then Ret None
                           else parse_offset r' (sel\<lparr>us_offoff := of_int off, us_flags := us_flags sel OR TC_U32_VAROFFSET\<rparr>)))
      else if matches a ''mask'' = 0 then
        (case r of
           [] \<Rightarrow> incomplete_command
         | v # r' \<Rightarrow> (case get_u16 v 16 of
                         None \<Rightarrow> Ret None
                       | Some msk \<Rightarrow> parse_offset r' (sel\<lparr>us_offmask := htons msk, us_flags := us_flags sel OR TC_U32_VAROFFSET\<rparr>)))
      else if matches a ''shift'' = 0 then
        (case r of
           [] \<Rightarrow> incomplete_command
         | v # r' \<Rightarrow> (case get_integer v 0 of
                         None \<Rightarrow> Ret None
                       | Some sh \<Rightarrow> parse_offset r' (sel\<lparr>us_offshift := of_int sh, us_flags := us_flags sel OR TC_U32_VAROFFSET\<rparr>)))
      else if matches a ''eat'' = 0 then parse_offset r (sel\<lparr>us_flags := us_flags sel OR TC_U32_EAT\<rparr>)
      else Ret (Some (sel, a # r)))"

fun parse_hashkey :: "string list \<Rightarrow> tc_u32_sel \<Rightarrow> (tc_u32_sel \<times> string list) option cexit" where
  "parse_hashkey [] sel = Ret (Some (sel, []))"
| "parse_hashkey (a # r) sel =
     (if matches a ''mask'' = 0 then
        (case r of
           [] \<Rightarrow> incomplete_command
         | v # r' \<Rightarrow> (case get_u32 v 16 of
                         None \<Rightarrow> Ret None
                       | Some msk \<Rightarrow> parse_hashkey r' (sel\<lparr>us_hmask := htonl msk\<rparr>)))
      else if matches a ''at'' = 0 then
        (case r of
           [] \<Rightarrow> incomplete_command
         | v # r' \<Rightarrow> (case get_integer v 0 of
                         None \<Rightarrow> Ret None
                       | Some num \<Rightarrow> if \<not> 4 dvd num then Ret None else parse_hashkey r' (sel\<lparr>us_hoff := of_int num\<rparr>)))
      else Ret (Some (sel, a # r)))"

section \<open>The filter\<close>

definition TCA_U32_CLASSID :: u16 where "TCA_U32_CLASSID = 1"
definition TCA_U32_HASH :: u16 where "TCA_U32_HASH = 2"
definition TCA_U32_LINK :: u16 where "TCA_U32_LINK = 3"
definition TCA_U32_DIVISOR :: u16 where "TCA_U32_DIVISOR = 4"
definition TCA_U32_SEL :: u16 where "TCA_U32_SEL = 5"
definition TCA_U32_POLICE :: u16 where "TCA_U32_POLICE = 6"
definition TCA_U32_ACT :: u16 where "TCA_U32_ACT = 7"
definition TCA_U32_INDEV :: u16 where "TCA_U32_INDEV = 8"
definition TCA_U32_PCNT :: u16 where "TCA_U32_PCNT = 9"
definition TCA_U32_MAX :: nat where "TCA_U32_MAX = 10"

text \<open>The local variables; the counters are only tested for zero.\<close>

record u32_vars =
  uv_sel :: tc_u32_sel
  sel_ok :: bool
  terminal_ok :: bool
  sample_ok :: bool
  uv_htid :: u32
  uv_order :: u32
  uv_n :: "u8 list"

definition u32_start :: "u8 list \<Rightarrow> u32_vars" where
  "u32_start n = \<lparr>uv_sel = empty_sel, sel_ok = False, terminal_ok = False, sample_ok = False, uv_htid = 0, uv_order = 0, uv_n = n\<rparr>"

definition get_divisor :: "string \<Rightarrow> u32 option" where
  "get_divisor a =
     (case get_unsigned a 0 of
        None \<Rightarrow> None
      | Some divisor \<Rightarrow> if divisor = 0 \<or> divisor > 0x100 \<or> (divisor - 1) AND divisor \<noteq> 0 then None else Some divisor)"

text \<open>The handle of a hash table, for \<^verbatim>\<open>link\<close> and \<^verbatim>\<open>ht\<close>.\<close>

definition get_table_handle :: "string \<Rightarrow> u32 option" where
  "get_table_handle a =
     (case get_u32_handle a of
        None \<Rightarrow> None
      | Some handle \<Rightarrow> if handle \<noteq> 0 \<and> TC_U32_NODE handle \<noteq> 0 then None else Some handle)"

definition sample_hash :: "tc_u32_key \<Rightarrow> u32" where
  "sample_hash k =
     (let h = uk_val k AND uk_mask k; h1 = h XOR drop_bit 16 h in h1 XOR drop_bit 8 h1)"

text \<open>
  \<^verbatim>\<open>sample\<close>: a selector of its own with exactly one key gives the bucket. After a divisor one more
  argument must follow.
\<close>

definition u32_sample :: "u32_env \<Rightarrow> string list \<Rightarrow> u32_vars \<Rightarrow> (u32_vars \<times> string list) option cexit" where
  "u32_sample env argv v =
     after_next argv (\<lambda>argv1.
     cthen (parse_selector env argv1 empty_sel (uv_n v)) (\<lambda>(sel2, n1, argv2).
       if length (us_keys sel2) \<noteq> 1 then Ret None
       else cthen (if argv2 \<noteq> [] \<and> hd argv2 = ''divisor''
                   then after_next argv2 (\<lambda>argv3. or_fail (get_divisor (hd argv3)) (\<lambda>d. after_next argv3 (\<lambda>argv4. Ret (Some (d, argv4)))))
                   else Ret (Some (0x100, argv2))) (\<lambda>(divisor, argv5).
         Ret (Some (v\<lparr>uv_n := n1, sample_ok := True,
           uv_htid := push_bit 12 (sample_hash (hd (us_keys sel2)) mod divisor) OR (uv_htid v AND 0xFFF00000)\<rparr>, argv5)))))"

definition add_u32 :: "u16 \<Rightarrow> u32 \<Rightarrow> u32_vars \<Rightarrow> u32_vars" where
  "add_u32 type w v = v\<lparr>uv_n := snd (addattr_l (uv_n v) MAX_MSG type (le_bytes 4 w))\<rparr>"

definition or_flags :: "u8 \<Rightarrow> u32_vars \<Rightarrow> u32_vars" where
  "or_flags f v = v\<lparr>uv_sel := (uv_sel v)\<lparr>us_flags := us_flags (uv_sel v) OR f\<rparr>\<rparr>"

text \<open>One pass of the loop over the arguments: the variables and the arguments that are left.\<close>

definition u32_arg :: "u32_env \<Rightarrow> string list \<Rightarrow> u32_vars \<Rightarrow> (u32_vars \<times> string list) option cexit" where
  "u32_arg env argv v =
     (let a = hd argv
      in if matches a ''match'' = 0
         then after_next argv (\<lambda>r. cthen (parse_selector env r (uv_sel v) (uv_n v)) (\<lambda>(sel, n, r1).
                Ret (Some (v\<lparr>uv_sel := sel, uv_n := n, sel_ok := True\<rparr>, r1))))
         else if matches a ''offset'' = 0
         then after_next argv (\<lambda>r. cthen (parse_offset r (uv_sel v)) (\<lambda>(sel, r1). Ret (Some (v\<lparr>uv_sel := sel\<rparr>, r1))))
         else if matches a ''hashkey'' = 0
         then after_next argv (\<lambda>r. cthen (parse_hashkey r (uv_sel v)) (\<lambda>(sel, r1). Ret (Some (v\<lparr>uv_sel := sel\<rparr>, r1))))
         else if matches a ''classid'' = 0 \<or> a = ''flowid''
         then after_next argv (\<lambda>r. or_fail (get_tc_classid (hd r)) (\<lambda>h.
                Ret (Some (or_flags TC_U32_TERMINAL (add_u32 TCA_U32_CLASSID h v), tl r))))
         else if matches a ''divisor'' = 0
         then after_next argv (\<lambda>r. or_fail (get_divisor (hd r)) (\<lambda>d. Ret (Some (add_u32 TCA_U32_DIVISOR d v, tl r))))
         else if matches a ''order'' = 0
         then after_next argv (\<lambda>r. or_fail (get_u32 (hd r) 0) (\<lambda>o1. Ret (Some (v\<lparr>uv_order := o1\<rparr>, tl r))))
         else if a = ''link''
         then after_next argv (\<lambda>r. or_fail (get_table_handle (hd r)) (\<lambda>h. Ret (Some (add_u32 TCA_U32_LINK h v, tl r))))
         else if a = ''ht''
         then after_next argv (\<lambda>r. or_fail (get_table_handle (hd r)) (\<lambda>h.
                Ret (Some (v\<lparr>uv_htid := (if sample_ok v then (uv_htid v AND 0xFF000) OR (h AND 0xFFF00000) else h AND 0xFFFFF000)\<rparr>, tl r))))
         else if a = ''sample'' then u32_sample env argv v
         else if a = ''indev''
         then (case tl argv of
                 [] \<Rightarrow> Ret None
               | d # r \<Rightarrow> Ret (Some (v\<lparr>uv_n := snd (addattr_l (uv_n v) MAX_MSG TCA_U32_INDEV (bytes_of_string (take IFNAMSIZ d) @ [0]))\<rparr>, r)))
         else if matches a ''action'' = 0
         then after_next argv (\<lambda>r. cthen (ue_action env r (uv_n v)) (\<lambda>(n, r1). Ret (Some (v\<lparr>uv_n := n, terminal_ok := True\<rparr>, r1))))
         else if matches a ''police'' = 0
         then after_next argv (\<lambda>r. cthen (ue_police env r (uv_n v)) (\<lambda>(n, r1). Ret (Some (v\<lparr>uv_n := n, terminal_ok := True\<rparr>, r1))))
         else Ret None)"

text \<open>The loop; \<open>None\<close> means that the fuel was not enough.\<close>

fun u32_args :: "u32_env \<Rightarrow> nat \<Rightarrow> string list \<Rightarrow> u32_vars \<Rightarrow> u32_vars option cexit option" where
  "u32_args env k [] v = Some (Ret (Some v))"
| "u32_args env 0 (a # r) v = None"
| "u32_args env (Suc k) (a # r) v =
     (case u32_arg env (a # r) v of
        Exit e \<Rightarrow> Some (Exit e)
      | Ret None \<Rightarrow> Some (Ret None)
      | Ret (Some (v1, r1)) \<Rightarrow> u32_args env k r1 v1)"

text \<open>After the loop; \<open>tail\<close> is where the attribute with the options starts.\<close>

definition u32_finish :: "nat \<Rightarrow> u32_vars \<Rightarrow> u8 list option" where
  "u32_finish tail v0 =
     (let v = (if terminal_ok v0 then or_flags TC_U32_TERMINAL v0 else v0);
          handle = tcm_handle (uv_n v)
      in if uv_order v \<noteq> 0 \<and> TC_U32_NODE handle \<noteq> 0 \<and> uv_order v \<noteq> TC_U32_NODE handle then None
         else let n1 = (if uv_order v \<noteq> 0 then poke 24 (le_bytes 4 (handle OR uv_order v)) (uv_n v) else uv_n v);
                  n2 = (if uv_htid v \<noteq> 0 then snd (addattr_l n1 MAX_MSG TCA_U32_HASH (le_bytes 4 (uv_htid v))) else n1);
                  n3 = (if sel_ok v then snd (addattr_l n2 MAX_MSG TCA_U32_SEL (sel_bytes (uv_sel v))) else n2)
              in Some (poke tail (le_bytes 2 (of_int (int (NLMSG_TAIL n3) - int tail) :: u16)) n3))"

definition u32_parse_opt :: "u32_env \<Rightarrow> nat \<Rightarrow> string option \<Rightarrow> string list \<Rightarrow> u8 list \<Rightarrow> u8 list option cexit option" where
  "u32_parse_opt env k handle argv n =
     (case (case handle of
              None \<Rightarrow> Some n
            | Some s \<Rightarrow> map_option (\<lambda>h. poke 24 (le_bytes 4 h) n) (get_u32_handle s)) of
        None \<Rightarrow> Some (Ret None)
      | Some n0 \<Rightarrow>
          if argv = [] then Some (Ret (Some n0))
          else map_option (\<lambda>x. cthen x (\<lambda>v. Ret (u32_finish (NLMSG_TAIL n0) v)))
                 (u32_args env k argv (u32_start (snd (addattr_l n0 MAX_MSG TCA_OPTIONS [])))))"

section \<open>Printing\<close>

record u32_show =
  ush_pretty :: bool
  ush_raw :: bool
  ush_stats :: bool
  ush_proto :: u16
  ush_ntop :: "nat \<Rightarrow> u8 list \<Rightarrow> nat \<Rightarrow> string option"
  ush_police :: "u8 list \<Rightarrow> string"
  ush_action :: "u8 list \<Rightarrow> string"

definition print_prefix :: "u32_show \<Rightarrow> string \<Rightarrow> tc_u32_key \<Rightarrow> string" where
  "print_prefix sh what key =
     (if mask2bits (uk_mask key) \<ge> 0
      then newline # ''  '' @ what @ '' '' @
           (case ush_ntop sh AF_INET (le_bytes 4 (uk_val key)) 256 of Some t \<Rightarrow> t | None \<Rightarrow> ''(null)'') @ ''/'' @ fmt_d (mask2bits (uk_mask key))
      else [])"

text \<open>The two printers differ in the names of the ports only. \<^verbatim>\<open>%#x\<close> has no prefix for zero.\<close>

definition print_ip_key :: "u32_show \<Rightarrow> string \<Rightarrow> string \<Rightarrow> tc_u32_key \<Rightarrow> string" where
  "print_ip_key sh low high key =
     (let m = ntohl (uk_mask key); v = ntohl (uk_val key); nl = [newline]
      in if uk_off key = 0 then
           if m = 0x0f000000 then nl @ ''  match IP ihl '' @ fmt_u (drop_bit 24 v)
           else if m = 0x00ff0000
           then nl @ ''  match IP dsfield '' @ (if drop_bit 16 v = 0 then ''0'' else ''0x'' @ fmt_x (drop_bit 16 v))
           else []
         else if uk_off key = 8 then
           if m = 0x00ff0000 then nl @ ''  match IP protocol '' @ fmt_u (drop_bit 16 v) else []
         else if uk_off key = 12 then print_prefix sh ''match IP src'' key
         else if uk_off key = 16 then print_prefix sh ''match IP dst'' key
         else if uk_off key = 20 then
           if m = 0x0000ffff then nl @ ''  match '' @ low @ '' '' @ fmt_u (v AND 0xffff)
           else if m = 0xffff0000 then nl @ ''  match '' @ high @ '' '' @ fmt_u (drop_bit 16 v)
           else if m = 0xffffffff
           then nl @ ''  match '' @ low @ '' '' @ fmt_u (v AND 0xffff) @ '', match '' @ high @ '' '' @ fmt_u (drop_bit 16 v)
           else []
         else [])"

definition print_ipv4 :: "u32_show \<Rightarrow> tc_u32_key \<Rightarrow> string" where
  "print_ipv4 sh = print_ip_key sh ''dport'' ''sport''"

definition print_ipv6 :: "u32_show \<Rightarrow> tc_u32_key \<Rightarrow> string" where
  "print_ipv6 sh = print_ip_key sh ''sport'' ''dport''"

definition print_raw :: "tc_u32_key \<Rightarrow> string" where
  "print_raw key =
     newline # ''  match '' @ fmt_0x 8 (ntohl (uk_val key)) @ ''/'' @ fmt_0x 8 (ntohl (uk_mask key)) @ '' at '' @
     (if uk_offmask key \<noteq> 0 then ''nexthdr+'' else []) @ fmt_d (uk_off key)"

definition ETH_P_IP :: u16 where "ETH_P_IP = 0x0800"
definition ETH_P_IPV6 :: u16 where "ETH_P_IPV6 = 0x86DD"

definition show_keys :: "u32_show \<Rightarrow> tc_u32_key \<Rightarrow> string" where
  "show_keys sh key =
     (if \<not> ush_pretty sh then print_raw key
      else if ntohs (ush_proto sh) = ETH_P_IP then print_ipv4 sh key
      else if ntohs (ush_proto sh) = ETH_P_IPV6 then print_ipv6 sh key
      else print_raw key)"

definition print_counted_key :: "u32_show \<Rightarrow> u8 list option \<Rightarrow> nat \<Rightarrow> tc_u32_key \<Rightarrow> string" where
  "print_counted_key sh pf i key =
     show_keys sh key @
     (case pf of
        Some c \<Rightarrow> if ush_stats sh then '' (success '' @ fmt_u (of_le_bytes (take 8 (drop (16 + 8 * i) c)) :: u64) @ '' ) '' else []
      | None \<Rightarrow> [])"

definition print_sel :: "u32_show \<Rightarrow> u8 list option \<Rightarrow> tc_u32_sel \<Rightarrow> string" where
  "print_sel sh pf sel =
     concat (map (\<lambda>(i, k). print_counted_key sh pf i k) (zip [0..<length (us_keys sel)] (us_keys sel))) @
     (if us_flags sel AND (TC_U32_VAROFFSET OR TC_U32_OFFSET) \<noteq> 0
      then newline # ''    offset '' @
           (if us_flags sel AND TC_U32_VAROFFSET \<noteq> 0
            then fmt_0x 4 (ntohs (us_offmask sel)) @ ''>>'' @ fmt_u (us_offshift sel) @ '' at '' @ fmt_d (sint (us_offoff sel)) @ '' ''
            else []) @
           (if us_off sel \<noteq> 0 then ''plus '' @ fmt_u (us_off sel) @ '' '' else [])
      else []) @
     (if us_flags sel AND TC_U32_EAT \<noteq> 0 then '' eat '' else []) @
     (if us_hmask sel \<noteq> 0
      then newline # ''    hash mask '' @ fmt_0x 8 (htonl (us_hmask sel)) @ '' at '' @ fmt_d (sint (us_hoff sel)) @ '' '' else [])"

text \<open>What is printed before a failure is kept with the return code.\<close>

definition u32_head :: "u32_show \<Rightarrow> u8 list option list \<Rightarrow> tc_u32_sel option \<Rightarrow> string" where
  "u32_head sh tb sel =
     (case tb ! unat TCA_U32_DIVISOR of
        Some a \<Rightarrow> ''ht divisor '' @ fmt_d (sint (rta_getattr_u32 a)) @ '' ''
      | None \<Rightarrow>
          (case tb ! unat TCA_U32_HASH of
             Some a \<Rightarrow> ''key ht '' @ fmt_x (TC_U32_USERHTID (rta_getattr_u32 a)) @ '' bkt '' @ fmt_x (TC_U32_HASH (rta_getattr_u32 a)) @ '' ''
           | None \<Rightarrow> ''??? '')) @
     (case tb ! unat TCA_U32_CLASSID of
        Some a \<Rightarrow>
          (case sel of
             Some s \<Rightarrow> if us_flags s AND TC_U32_TERMINAL = 0 then ''*'' else []
           | None \<Rightarrow> ''*'') @ ''flowid '' @ sprint_tc_classid (rta_getattr_u32 a) @ '' ''
      | None \<Rightarrow>
          (case sel of
             Some s \<Rightarrow> if us_flags s AND TC_U32_TERMINAL \<noteq> 0 then ''terminal flowid ??? '' else []
           | None \<Rightarrow> [])) @
     (case tb ! unat TCA_U32_LINK of
        Some a \<Rightarrow> ''link '' @ sprint_u32_handle (ush_raw sh) (rta_getattr_u32 a) @ '' ''
      | None \<Rightarrow> [])"

definition print_mark :: "u8 list \<Rightarrow> string" where
  "print_mark a =
     (if RTA_PAYLOAD a < 12 then newline # ''  Invalid mark (kernel&iproute2 mismatch)'' @ [newline]
      else let d = RTA_DATA a
           in newline # ''  mark 0x'' @ fmt_0x 4 (peek32 0 d) @ '' 0x'' @ fmt_0x 4 (peek32 4 d) @
              '' (success '' @ fmt_d (sint (peek32 8 d)) @ '')'')"

definition u32_print_rest :: "u32_show \<Rightarrow> u8 list option list \<Rightarrow> string \<Rightarrow> tc_u32_sel option \<Rightarrow> int \<times> string" where
  "u32_print_rest sh tb fh sel =
     (let top = fh @ u32_head sh tb sel;
          broken = (case tb ! unat TCA_U32_PCNT of Some a \<Rightarrow> RTA_PAYLOAD a < 16 | None \<Rightarrow> False);
          pf = map_option RTA_DATA (tb ! unat TCA_U32_PCNT)
      in if broken then (-1, top @ ''Broken perf counters '' @ [newline])
         else (0, top @
           (case (sel, pf) of
              (Some s, Some c) \<Rightarrow>
                if ush_stats sh
                then '' (rule hit '' @ fmt_u (of_le_bytes (take 8 c) :: u64) @ '' success '' @ fmt_u (of_le_bytes (take 8 (drop 8 c)) :: u64) @ '')''
                else []
            | _ \<Rightarrow> []) @
           (case tb ! unat TCA_U32_MARK of Some a \<Rightarrow> print_mark a | None \<Rightarrow> []) @
           (case sel of Some s \<Rightarrow> print_sel sh pf s | None \<Rightarrow> []) @
           (case tb ! unat TCA_U32_POLICE of Some a \<Rightarrow> newline # ush_police sh a | None \<Rightarrow> []) @
           (case tb ! unat TCA_U32_INDEV of
              Some a \<Rightarrow> newline # ''  input dev '' @ rta_getattr_str a @ [newline]
            | None \<Rightarrow> []) @
           (case tb ! unat TCA_U32_ACT of Some a \<Rightarrow> ush_action sh a | None \<Rightarrow> [])))"

definition u32_print_opt :: "u32_show \<Rightarrow> u8 list option \<Rightarrow> u32 \<Rightarrow> int \<times> string" where
  "u32_print_opt sh opt handle =
     (case opt of
        None \<Rightarrow> (0, [])
      | Some rta \<Rightarrow>
          let tb = parse_rtattr_nested TCA_U32_MAX rta;
              fh = (if handle \<noteq> 0 then ''fh '' @ sprint_u32_handle (ush_raw sh) handle @ '' '' else []) @
                   (if TC_U32_NODE handle \<noteq> 0 then ''order '' @ fmt_u (TC_U32_NODE handle) @ '' '' else [])
          in case tb ! unat TCA_U32_SEL of
               Some a \<Rightarrow> if RTA_PAYLOAD a < 16 then (-1, fh) else u32_print_rest sh tb fh (Some (read_sel (RTA_DATA a)))
             | None \<Rightarrow> u32_print_rest sh tb fh None)"

end
