(* ===== verification/Em_Props.thy ===== *)
theory Em_Props
  imports Em_Kinds
begin

unbundle bit_operations_syntax

text \<open>
  What the match modules write and print: a comparison is read back from what is printed of it, except
  for the largest value, and the word of a masked match has the bytes that were asked for at their place.
\<close>

section \<open>Numbers as arguments\<close>

lemma unat_less: "unat (w :: u32) < 2 ^ 32"
  using unsigned_less [where 'a = nat, of w] by simp

lemma upto_nul_digits: "list_all (\<lambda>c. c \<noteq> CHR 0x00) s \<Longrightarrow> upto_chr s (CHR 0x00) = s"
  by (simp add: upto_chr_def list_all_iff takeWhile_eq_all_conv)

lemma fmt_base_no_nul: "2 \<le> b \<Longrightarrow> b \<le> 16 \<Longrightarrow> list_all (\<lambda>c. c \<noteq> CHR 0x00) (fmt_base b n)"
proof -
  assume b: "2 \<le> b" "b \<le> 16"
  have "c \<noteq> CHR 0x00" if "c \<in> set (fmt_base b n)" for c
  proof -
    have "\<exists>d<b. c = digit_char d" by (rule fmt_base_digits) (use b that in simp_all)
    then obtain d where "d < b" "c = digit_char d" by blast
    then show ?thesis using digit_char_val [of d "CHR 0x00"] b by (auto simp: digit_val_def)
  qed
  then show ?thesis by (simp add: list_all_iff)
qed

lemma bstrtoul_scan:
  assumes "list_all (\<lambda>c. c \<noteq> CHR 0x00) s" "scan_number 0 s = Some (neg, n, rest)" "n \<le> ULONG_MAX"
  shows "bstrtoul s = (if neg then - of_nat n else of_nat n)"
  using assms scan_number_rest [OF assms(2)] by (simp add: bstrtoul_def upto_nul_digits strtoul_def Let_def)

lemma bstrtoul_dec: "n \<le> ULONG_MAX \<Longrightarrow> bstrtoul (fmt_base 10 n) = of_nat n"
  by (subst bstrtoul_scan [OF _ scan_number_fmt]) (simp_all add: fmt_base_no_nul)

lemma bstrtoul_neg: "n \<le> ULONG_MAX \<Longrightarrow> bstrtoul (CHR ''-'' # fmt_base 10 n) = - of_nat n"
  by (subst bstrtoul_scan [OF _ scan_number_minus_fmt]) (simp_all add: fmt_base_no_nul)

text \<open>A hexadecimal number with its prefix.\<close>

lemma scan_number_0x: "scan_number 0 (''0x'' @ fmt_base 16 n) = Some (False, n, [])"
proof -
  obtain c cs where s: "fmt_base 16 n = c # cs" by (cases "fmt_base 16 n") simp_all
  have digits: "list_all (\<lambda>c. digit_val c < 16) (fmt_base 16 n)"
    using fmt_base_digits [of 16 _ n] by (fastforce simp: list_all_iff)
  then have "digit_val c < 16" using s by simp
  then have "scan_base 0 (''0x'' @ fmt_base 16 n) = (16, fmt_base 16 n)" by (simp add: scan_base_def s)
  moreover have "scan_sign (dropWhile isspace (''0x'' @ fmt_base 16 n)) = (False, ''0x'' @ fmt_base 16 n)" by (simp add: isspace_def)
  moreover have "starts_digit 16 (fmt_base 16 n)" using \<open>digit_val c < 16\<close> by (simp add: s)
  ultimately show ?thesis
    using scan_digits_all [OF digits, of 0] digits_val_fmt_base [of 16 n] by (simp add: scan_number_def)
qed

lemma bstrtoul_hex: "n \<le> ULONG_MAX \<Longrightarrow> bstrtoul (''0x'' @ fmt_base 16 n) = of_nat n"
  by (subst bstrtoul_scan [OF _ scan_number_0x]) (simp_all add: fmt_base_no_nul)

text \<open>A 32-bit value printed as signed is read back, cut to 32 bits, unless it is the error value.\<close>

lemma ucast_word_of_int: "(ucast (word_of_int i :: u64) :: u32) = word_of_int i"
  by transfer (simp add: take_bit_take_bit)

lemma bstrtoul_fmt_d: "\<bar>i\<bar> < 2 ^ 63 \<Longrightarrow> bstrtoul (fmt_d i) = word_of_int i"
  by (simp add: fmt_d_def bstrtoul_dec bstrtoul_neg ULONG_MAX_def nat_le_iff flip: word_of_int_minus)

lemma bstrtoul_signed: "bstrtoul (fmt_d (sint v)) = (scast v :: u64)" for v :: u32
proof -
  have "\<bar>sint v\<bar> < 2 ^ 63" using sint_range_size [of v] by (auto simp: word_size abs_less_iff)
  then show ?thesis by (simp add: bstrtoul_fmt_d signed_of_int)
qed

lemma bstrtoul_minus_one: "bstrtoul (fmt_d (sint (-1 :: u32))) = -1"
  by (simp add: fmt_d_def bstrtoul_neg ULONG_MAX_def)

section \<open>Comparisons\<close>

lemma two_nibbles_low: "(ucast (two_nibbles lo hi) :: 4 word) = lo"
  by (rule bit_word_eqI) (simp add: two_nibbles_def bit_simps)

lemma two_nibbles_high: "(ucast (drop_bit 4 (two_nibbles lo hi)) :: 4 word) = hi"
  by (rule bit_word_eqI) (auto simp: two_nibbles_def bit_simps dest: bit_imp_le_length)

lemma cmp_of_cmp_bytes: "cmp_of_bytes (cmp_bytes c @ rest) = c"
  by (simp add: cmp_of_bytes_def cmp_bytes_def peek32_def peek16_def nth_append two_nibbles_low two_nibbles_high)

text \<open>The structures that the parser makes.\<close>

definition cmp_wf :: "tcf_em_cmp \<Rightarrow> bool" where
  "cmp_wf c \<longleftrightarrow> cmp_align c \<in> {TCF_EM_ALIGN_U8, TCF_EM_ALIGN_U16, TCF_EM_ALIGN_U32} \<and> cmp_flags c \<in> {0, TCF_EM_CMP_TRANS} \<and>
     cmp_layer c \<le> 2 \<and> cmp_opnd c \<in> {TCF_EM_OPND_EQ, TCF_EM_OPND_GT, TCF_EM_OPND_LT}"

definition cmp_words :: "tcf_em_cmp \<Rightarrow> string list" where
  "cmp_words c =
     [if cmp_align c = TCF_EM_ALIGN_U8 then ''u8'' else if cmp_align c = TCF_EM_ALIGN_U16 then ''u16'' else ''u32'',
      ''at'', fmt_d (uint (cmp_off c)), ''layer'', fmt_d (uint (cmp_layer c))] @
     (if cmp_mask c \<noteq> 0 then [''mask'', ''0x'' @ fmt_x (cmp_mask c)] else []) @
     (if cmp_flags c = TCF_EM_CMP_TRANS then [''trans''] else []) @
     [if cmp_opnd c = TCF_EM_OPND_EQ then ''eq'' else if cmp_opnd c = TCF_EM_OPND_LT then ''lt'' else ''gt'',
      fmt_d (sint (cmp_val c))]"

text \<open>Words separated by one space.\<close>

fun spaced :: "string list \<Rightarrow> string" where
  "spaced [] = []"
| "spaced [w] = w"
| "spaced (w # v # ws) = w @ '' '' @ spaced (v # ws)"

lemma cmp_print_words:
  assumes "cmp_wf c" shows "cmp_print_eopt hdr (cmp_bytes c @ rest) 12 = (0, spaced (cmp_words c))"
  using assms unfolding cmp_wf_def
  by (auto simp: cmp_print_eopt_def cmp_of_cmp_bytes cmp_words_def Let_def
      TCF_EM_ALIGN_U8_def TCF_EM_ALIGN_U16_def TCF_EM_ALIGN_U32_def TCF_EM_CMP_TRANS_def TCF_EM_OPND_EQ_def TCF_EM_OPND_GT_def TCF_EM_OPND_LT_def)

lemma layer_arg_fmt:
  assumes "(l :: 4 word) \<le> 2" shows "layer_arg (fmt_d (uint l)) = Some (ucast l)"
proof -
  have u: "uint l \<le> 2" using assms by (simp add: word_le_def)
  obtain d where d: "d < 10" "hd (fmt_base 10 (nat (uint l))) = digit_char d" using fmt_base_hd [of 10 "nat (uint l)"] by auto
  obtain c cs where s: "fmt_base 10 (nat (uint l)) = c # cs" by (cases "fmt_base 10 (nat (uint l))") simp_all
  have "c \<noteq> CHR ''l''" "c \<noteq> CHR ''n''" "c \<noteq> CHR ''t''"
    using d s digit_char_val [of d c] by (auto simp: digit_val_def)
  then have "parse_layer (fmt_d (uint l)) = INT_MAX" using s by (simp add: parse_layer_def fmt_d_def)
  moreover have "bstrtoul (fmt_d (uint l)) = ucast l" using u by (subst bstrtoul_fmt_d) simp_all
  moreover have "(ucast l :: u64) \<le> 2" using u by (simp add: word_le_def unsigned_ucast_eq take_bit_int_eq_self)
  ultimately show ?thesis by (simp add: layer_arg_def TCF_LAYER_MAX_def Let_def leD)
qed

lemma scast_ucast: "(ucast (scast v :: u64) :: u32) = v" for v :: u32
proof (rule bit_word_eqI)
  fix k assume "k < LENGTH(32)"
  then show "bit (ucast (scast v :: u64) :: u32) k = bit v k" by (cases "k = 31") (auto simp: bit_simps min_def)
qed

lemma ucast_back: "(ucast (ucast v :: u64) :: 'a word) = v" if "LENGTH('a) \<le> 64" for v :: "'a::len word"
  using that by (intro bit_word_eqI) (auto simp: bit_simps)

lemma scast_error: "(scast v :: u64) = -1 \<longleftrightarrow> v = -1" for v :: u32
proof
  assume "(scast v :: u64) = -1"
  then have "(ucast (scast v :: u64) :: u32) = ucast (-1 :: u64)" by (rule arg_cong)
  moreover have "(ucast (-1 :: u64) :: u32) = -1" by (rule bit_word_eqI) (simp add: bit_simps)
  ultimately show "v = -1" unfolding scast_ucast by simp
qed simp

lemma small_no_error: "(ucast (x :: 'a::len word) :: u64) \<noteq> -1" if "LENGTH('a) < 64"
proof
  assume "(ucast x :: u64) = -1"
  then have "bit (ucast x :: u64) 63" by simp
  then show False using that by (auto simp: bit_simps dest: bit_imp_le_length)
qed

lemmas cmp_consts = TCF_EM_ALIGN_U8_def TCF_EM_ALIGN_U16_def TCF_EM_ALIGN_U32_def TCF_EM_CMP_TRANS_def
  TCF_EM_OPND_EQ_def TCF_EM_OPND_GT_def TCF_EM_OPND_LT_def

lemma cmp_args_words:
  assumes "cmp_wf c" "cmp_val c \<noteq> -1"
  shows "cmp_args (tl (cmp_words c)) cmp_init =
    Some \<lparr>cv_offset = ucast (cmp_off c), cv_layer = ucast (cmp_layer c), cv_mask = ucast (cmp_mask c), cv_flags = cmp_flags c,
      cv_opnd = cmp_opnd c, cv_value = scast (cmp_val c), offset_present = True, value_present = True\<rparr>"
proof -
  have off: "bstrtoul (fmt_d (uint (cmp_off c))) = ucast (cmp_off c)"
    by (subst bstrtoul_fmt_d) (use uint_lt2p [of "cmp_off c"] in simp_all)
  have msk: "bstrtoul (''0x'' @ fmt_x (cmp_mask c)) = ucast (cmp_mask c)" unfolding fmt_x_def
    by (subst bstrtoul_hex) (use unat_less [of "cmp_mask c"] in \<open>simp_all add: ULONG_MAX_def\<close>)
  show ?thesis
    using assms unfolding cmp_wf_def
    by (auto simp: cmp_words_def bstrcmp_eq_def off msk [simplified] bstrtoul_signed scast_error small_no_error layer_arg_fmt
        cmp_init_def cmp_consts)
qed

lemma cmp_parse_words: "cmp_wf c \<Longrightarrow> cmp_val c \<noteq> -1 \<Longrightarrow> cmp_parse (cmp_words c) = Some c"
  using cmp_args_words [of c] unfolding cmp_wf_def
  by (auto simp: cmp_parse_def cmp_words_def bstrcmp_eq_def scast_ucast ucast_back cmp_consts)

text \<open>The largest value is taken for the error value.\<close>

lemma cmp_parse_words_error:
  assumes "cmp_wf c" "cmp_val c = -1" shows "cmp_parse (cmp_words c) = None"
proof -
  have off: "bstrtoul (fmt_d (uint (cmp_off c))) = ucast (cmp_off c)"
    by (subst bstrtoul_fmt_d) (use uint_lt2p [of "cmp_off c"] in simp_all)
  have msk: "bstrtoul (''0x'' @ fmt_x (cmp_mask c)) = ucast (cmp_mask c)" unfolding fmt_x_def
    by (subst bstrtoul_hex) (use unat_less [of "cmp_mask c"] in \<open>simp_all add: ULONG_MAX_def\<close>)
  show ?thesis
    using assms bstrtoul_minus_one unfolding cmp_wf_def
    by (auto simp: cmp_parse_def cmp_words_def bstrcmp_eq_def off msk [simplified] small_no_error layer_arg_fmt cmp_consts)
qed

text \<open>Every structure that the parser makes is well formed.\<close>

definition cmp_vars_ok :: "cmp_vars \<Rightarrow> bool" where
  "cmp_vars_ok v \<longleftrightarrow> cv_flags v \<in> {0, TCF_EM_CMP_TRANS} \<and> cv_layer v \<le> TCF_LAYER_MAX \<and>
     cv_opnd v \<in> {TCF_EM_OPND_EQ, TCF_EM_OPND_GT, TCF_EM_OPND_LT}"

lemma cmp_vars_ok_updates:
  "cmp_vars_ok (v\<lparr>cv_offset := x, offset_present := True\<rparr>) = cmp_vars_ok v" "cmp_vars_ok (v\<lparr>cv_mask := x\<rparr>) = cmp_vars_ok v"
  "layer_arg w = Some l \<Longrightarrow> cmp_vars_ok v \<Longrightarrow> cmp_vars_ok (v\<lparr>cv_layer := l\<rparr>)"
  "cmp_vars_ok v \<Longrightarrow> cmp_vars_ok (v\<lparr>cv_flags := cv_flags v OR TCF_EM_CMP_TRANS\<rparr>)"
  "cmp_vars_ok v \<Longrightarrow> op \<in> {TCF_EM_OPND_EQ, TCF_EM_OPND_GT, TCF_EM_OPND_LT} \<Longrightarrow>
   cmp_vars_ok (v\<lparr>cv_opnd := op, cv_value := x, value_present := True\<rparr>)"
  by (auto simp: cmp_vars_ok_def layer_arg_def TCF_EM_CMP_TRANS_def Let_def linorder_not_less split: if_splits)

lemma cmp_args_ok: "cmp_args as v = Some v' \<Longrightarrow> cmp_vars_ok v \<Longrightarrow> cmp_vars_ok v'"
proof (induction "length as" arbitrary: as v rule: less_induct)
  case less
  show ?case
  proof (cases as)
    case (Cons a r)
    have rec: "cmp_args bs u = Some v' \<Longrightarrow> cmp_vars_ok u \<Longrightarrow> cmp_vars_ok v'" if "length bs \<le> length r" for bs u
      using less.hyps [of bs u] that Cons by simp
    show ?thesis
    proof (cases "a = ''trans''")
      case True
      then show ?thesis using less.prems rec [of r] Cons by (simp add: bstrcmp_eq_def cmp_vars_ok_updates)
    next
      case False
      then obtain b bs where r: "r = b # bs" using less.prems(1) Cons by (cases r) (auto simp: bstrcmp_eq_def split: if_splits)
      then show ?thesis
        using less.prems rec [of bs] False unfolding Cons r
        by (simp add: bstrcmp_eq_def Let_def cmp_vars_ok_updates split: if_splits option.splits)
    qed
  qed (use less.prems in simp)
qed

lemma cmp_parse_wf:
  assumes "cmp_parse args = Some c" shows "cmp_wf c"
proof -
  obtain as v where v: "cmp_args as cmp_init = Some v" "cmp_flags c = cv_flags v" "cmp_layer c = ucast (cv_layer v)" "cmp_opnd c = cv_opnd v"
    "cmp_align c \<in> {TCF_EM_ALIGN_U8, TCF_EM_ALIGN_U16, TCF_EM_ALIGN_U32}"
    using assms by (auto simp: cmp_parse_def split: list.splits option.splits if_splits)
  have "cmp_vars_ok cmp_init" by (simp add: cmp_vars_ok_def cmp_init_def TCF_EM_OPND_EQ_def TCF_LAYER_NETWORK_def TCF_LAYER_MAX_def)
  then have ok: "cmp_vars_ok v" using cmp_args_ok v(1) by blast
  then have "(ucast (cv_layer v) :: 4 word) \<le> 2"
    unfolding cmp_vars_ok_def TCF_LAYER_MAX_def word_le_nat_alt by (simp add: unsigned_ucast_eq take_bit_nat_eq_self)
  then show ?thesis using ok v(2-5) by (simp add: cmp_wf_def cmp_vars_ok_def)
qed

text \<open>
  A comparison is entered again from what is printed of it. For every structure that the module's
  parser makes and whose value is not the largest one, \<^verbatim>\<open>cmp_print_eopt\<close> prints words separated by
  spaces, with the value as a signed number, and \<^verbatim>\<open>cmp_parse_eopt\<close> reads these words into the same structure. The largest value
  is printed as \<^verbatim>\<open>-1\<close>, which the parser takes for its error value and refuses.
\<close>

theorem cmp_text_roundtrip:
  assumes "cmp_parse args = Some c"
  shows "cmp_print_eopt hdr (cmp_bytes c @ rest) 12 = (0, spaced (cmp_words c)) \<and>
    cmp_parse (cmp_words c) = (if cmp_val c = -1 then None else Some c)"
  using cmp_print_words cmp_parse_words cmp_parse_words_error cmp_parse_wf [OF assms] by simp

theorem cmp_text_roundtrip_witness:
  "cmp_print_eopt [] (cmp_bytes \<lparr>cmp_val = 20, cmp_mask = 0, cmp_off = 3, cmp_align = 1, cmp_flags = 1, cmp_layer = 2, cmp_opnd = 1\<rparr>) 12 =
     (0, ''u8 at 3 layer 2 trans gt 20'')"
proof -
  let ?c = "\<lparr>cmp_val = 20, cmp_mask = 0, cmp_off = 3, cmp_align = 1, cmp_flags = 1, cmp_layer = 2, cmp_opnd = 1\<rparr> :: tcf_em_cmp"
  have "cmp_parse (cmp_words ?c) = Some ?c" by (rule cmp_parse_words) (simp_all add: cmp_wf_def cmp_consts)
  from cmp_text_roundtrip [OF this, of "[]" "[]"]
  have "cmp_print_eopt [] (cmp_bytes ?c) 12 = (0, spaced (cmp_words ?c))" by simp
  moreover have "spaced (cmp_words ?c) = ''u8 at 3 layer 2 trans gt 20''" by code_simp
  ultimately show ?thesis by simp
qed

section \<open>Masked words\<close>

lemma le_bytes_shift:
  assumes "unat x < 2 ^ (8 * w)" "j + w \<le> 4"
  shows "le_bytes 4 (ucast (push_bit (8 * j) (x :: u64)) :: u32) = replicate j 0 @ le_bytes w x @ replicate (4 - w - j) 0"
proof (rule nth_equalityI)
  fix a assume "a < length (le_bytes 4 (ucast (push_bit (8 * j) x) :: u32))"
  then have a: "a < 4" by simp
  have "take_bit (8 * w) x = x" using assms(1) by (simp add: word_unat_eq_iff unsigned_take_bit_eq take_bit_nat_eq_self)
  then have hi: "\<not> bit x i" if "8 * w \<le> i" for i using that by (metis bit_take_bit_iff linorder_not_less)
  show "le_bytes 4 (ucast (push_bit (8 * j) x) :: u32) ! a = (replicate j 0 @ le_bytes w x @ replicate (4 - w - j) 0) ! a"
  proof (rule bit_word_eqI)
    fix b assume "b < LENGTH(8)"
    then have b: "b < 8" by simp
    have l: "bit (le_bytes 4 (ucast (push_bit (8 * j) x) :: u32) ! a) b \<longleftrightarrow> 8 * j \<le> 8 * a + b \<and> bit x (8 * a + b - 8 * j)"
      using a b by (auto simp: bit_le_bytes_nth bit_simps)
    consider "a < j" | "j \<le> a" "a < j + w" | "j + w \<le> a" by linarith
    then show "bit (le_bytes 4 (ucast (push_bit (8 * j) x) :: u32) ! a) b =
        bit ((replicate j 0 @ le_bytes w x @ replicate (4 - w - j) 0) ! a) b"
    proof cases
      case 2
      then have "8 * (a - j) + b = 8 * a + b - 8 * j" by (simp add: diff_mult_distrib2)
      moreover have "a - j < w" using 2 by linarith
      ultimately show ?thesis unfolding l using 2 b by (simp add: nth_append bit_le_bytes_nth)
    next
      case 3
      then have "\<not> bit x (8 * a + b - 8 * j)" by (intro hi) simp
      moreover have "\<not> a - j < w" "\<not> a < j" using 3 by linarith+
      ultimately show ?thesis unfolding l using 3 a by (simp add: nth_append)
    qed (unfold l, use b in \<open>simp add: nth_append\<close>)
  qed
qed (use assms in simp)

lemma le_bytes_htonl: "le_bytes 4 (htonl w) = rev (le_bytes 4 w)"
  using le_bytes_of_le_bytes [of "rev (le_bytes 4 w)", where 'a = 32] by (simp add: htonl_def)

text \<open>A number of \<open>w\<close> bytes in network order at byte \<open>i\<close> of a word.\<close>

definition placed :: "nat \<Rightarrow> nat \<Rightarrow> u64 \<Rightarrow> u8 list" where
  "placed w i x = replicate i 0 @ rev (le_bytes w x) @ replicate (4 - w - i) 0"

lemma placed_htonl:
  "unat x < 2 ^ (8 * w) \<Longrightarrow> i + w \<le> 4 \<Longrightarrow> le_bytes 4 (htonl (ucast (push_bit (8 * (4 - w - i)) x))) = placed w i x"
  using le_bytes_shift [of x w "4 - w - i"] by (simp add: le_bytes_htonl placed_def)

lemma htonl_and: "htonl a AND htonl b = htonl (a AND b)"
  by (rule bit_word_eqI) (auto simp: htonl_def bit_of_le_bytes rev_nth bit_le_bytes_nth bit_simps)

lemma bstrtoul_n: "bstrtoul (CHR ''n'' # s) = -1"
proof -
  have "scan_number 0 (CHR ''n'' # t) = None" for t
    by (simp add: scan_number_def isspace_def scan_base_def digit_val_def split: list.splits)
  then show ?thesis by (simp add: bstrtoul_def upto_chr_def strtoul_def Let_def)
qed

lemma u32_offset_plain: "bstrtoul a \<noteq> -1 \<Longrightarrow> u32_offset stk [a] = Some (bstrtoul a, 0, [])"
  using bstrtoul_n by (cases a) (auto simp: u32_offset_def bstrcmp_eq_def)

text \<open>The switch shifts key and mask to the place that the offset names.\<close>

lemma and_3_mod: "unat ((x :: u64) AND 3) = unat x mod 4"
proof -
  have "(3 :: u64) = mask 2" by (simp add: mask_eq_exp_minus_1)
  then have "unat (x AND 3) = unat (take_bit 2 x)" by (simp only: take_bit_eq_mask)
  also have "\<dots> = unat x mod 4" by (simp add: unsigned_take_bit_eq take_bit_nat_def)
  finally show ?thesis .
qed

lemma u32_align_shift:
  assumes "w \<in> {1, 2, 4}" "unat k < 2 ^ (8 * w)" "unat m < 2 ^ (8 * w)" "w dvd unat off"
  defines "i \<equiv> unat off mod 4"
  shows "u32_align w k m off = Some (push_bit (8 * (4 - w - i)) k, push_bit (8 * (4 - w - i)) m, off AND NOT 3)" and "i + w \<le> 4"
proof -
  have i: "unat (off AND 3) = i" "i < 4" by (simp_all add: and_3_mod i_def)
  have off: "w = 4 \<Longrightarrow> off AND NOT 3 = off" using assms(4) by (simp only: word_unat_eq_iff unat_and_not_3) simp
  have i2: "w = 2 \<Longrightarrow> i = 0 \<or> i = 2" and i4: "w = 4 \<Longrightarrow> i = 0" using assms(4) i(2) unfolding i_def by presburger+
  have z: "off AND 3 = 0 \<longleftrightarrow> i = 0" using i(1) by (simp add: word_unat_eq_iff)
  have "unat ((off AND 3) * 8) = i * 8" using i by (simp add: unat_word_ariths)
  then have sh: "unat (24 - (off AND 3) * 8) = 8 * (3 - i)" using i(2) by (simp add: unat_sub_if' diff_mult_distrib2)
  show "i + w \<le> 4" using assms(1) i(2) i2 i4 by auto
  show "u32_align w k m off = Some (push_bit (8 * (4 - w - i)) k, push_bit (8 * (4 - w - i)) m, off AND NOT 3)"
    using assms(1-3) i2 i4 off by (auto simp: u32_align_def Let_def sh z word_less_nat_alt)
qed

lemma u32_parse_plain:
  assumes "(al, w) \<in> {(''u8'', 1), (''u16'', 2), (''u32'', 4)}" "bstrtoul k \<noteq> -1" "bstrtoul m \<noteq> -1" "bstrtoul off \<noteq> -1"
    and "u32_align w (bstrtoul k) (bstrtoul m) (bstrtoul off) = Some (key, msk, word)" "unat word mod 4 = 0"
  shows "u32_parse stk [al, k, m, ''at'', off] = Some (u32_key (htonl (ucast msk)) (htonl (ucast key) AND htonl (ucast msk)) (ucast word) 0)"
proof -
  have z: "word mod 4 = 0" using assms(6) by (simp add: word_unat_eq_iff unat_mod)
  show ?thesis using assms(1-5) by (auto simp: u32_parse_def bstrcmp_eq_def u32_offset_plain z Let_def)
qed

text \<open>
  C37: A masked match asks for the bytes at its place. Given a key and a mask of one, two or four bytes at an
  offset that is a multiple of their number, \<^verbatim>\<open>u32_parse_eopt\<close> makes a structure whose mask and value hold
  these bytes, the most significant first and the key under the mask, where the offset points to within
  the word at the offset rounded down to a multiple of four, and zero elsewhere.
\<close>

theorem u32_key_placed:
  assumes "(al, w) \<in> {(''u8'', 1), (''u16'', 2), (''u32'', 4)}"
    and "bstrtoul k \<noteq> -1" "bstrtoul m \<noteq> -1" "bstrtoul off \<noteq> -1" "w dvd unat (bstrtoul off)"
    and "unat (bstrtoul k) < 2 ^ (8 * w)" "unat (bstrtoul m) < 2 ^ (8 * w)"
  shows "u32_parse stk [al, k, m, ''at'', off] =
    Some (placed w (unat (bstrtoul off) mod 4) (bstrtoul m) @ placed w (unat (bstrtoul off) mod 4) (bstrtoul k AND bstrtoul m) @
      le_bytes 4 (ucast (bstrtoul off AND NOT 3) :: u32) @ le_bytes 4 (0 :: u32))"
proof -
  let ?o = "bstrtoul off" and ?k = "bstrtoul k" and ?m = "bstrtoul m"
  let ?i = "unat ?o mod 4"
  let ?s = "8 * (4 - w - ?i)"
  have w: "w \<in> {1, 2, 4}" using assms(1) by auto
  note al = u32_align_shift [OF w assms(6,7,5)]
  have km: "unat (?k AND ?m) < 2 ^ (8 * w)"
    using word_and_le2 [of ?k ?m] assms(6) unfolding word_le_nat_alt by (rule le_less_trans)
  have "ucast (push_bit ?s ?k) AND ucast (push_bit ?s ?m) = (ucast (push_bit ?s (?k AND ?m)) :: u32)"
    by (rule bit_word_eqI) (auto simp: bit_simps)
  then have v: "le_bytes 4 (htonl (ucast (push_bit ?s ?k)) AND htonl (ucast (push_bit ?s ?m))) = placed w ?i (?k AND ?m)"
    using placed_htonl [OF km al(2)] by (simp add: htonl_and)
  have "unat (?o AND NOT 3) mod 4 = 0" by (simp only: unat_and_not_3) simp
  from u32_parse_plain [OF assms(1-4) al(1) this, of stk]
  show ?thesis using placed_htonl [OF assms(7) al(2)] v by (simp add: u32_key_def)
qed

lemma replicate_2: "replicate 2 x = [x, x]"
  by (simp add: numeral_2_eq_2)

theorem u32_key_placed_witness:
  "u32_parse ''junk'' [''u16'', fmt_base 10 4660, fmt_base 10 65535, ''at'', fmt_base 10 6] =
     Some [0, 0, 0xff, 0xff, 0, 0, 0x12, 0x34, 4, 0, 0, 0, 0, 0, 0, 0]"
  using u32_key_placed [of "''u16''" 2 "fmt_base 10 4660" "fmt_base 10 65535" "fmt_base 10 6" "''junk''"]
  by (simp add: bstrtoul_dec ULONG_MAX_def placed_def le_bytes_def upt_conv_Cons replicate_2)

section \<open>An expression\<close>

text \<open>The expression \<^verbatim>\<open>not cmp(u8 at 3 layer 2 trans gt 20) and (cmp(u8 at 3 layer 2 trans gt 20))\<close> in memory.\<close>

definition ex_cmp :: tcf_em_cmp where
  "ex_cmp = \<lparr>cmp_val = 20, cmp_mask = 0, cmp_off = 3, cmp_align = 1, cmp_flags = 1, cmp_layer = 2, cmp_opnd = 1\<rparr>"

definition ex_map :: "int + string list" where
  "ex_map = Inr [''# lookup table for ematch kinds'' @ [newline], ''1'' @ [tab] @ ''cmp'' @ [newline]]"

definition ex_em_state :: em_state where
  "ex_em_state = \<lparr>ematch_list = [cmp_ematch_util], em_body = None\<rparr>"

definition ex_leaf :: ematch where
  "ex_leaf = \<lparr>en_args = ''cmp'' # cmp_words ex_cmp, en_index = 0, en_inverted = False, en_relation = 0, en_child_ref = 0, en_child = None, en_next = None\<rparr>"

definition ex_heap :: eheap where
  "ex_heap a = (if a = 1 then ex_leaf\<lparr>en_inverted := True, en_relation := 1, en_next := Some 2\<rparr>
     else if a = 2 then ex_leaf\<lparr>en_args := [], en_child := Some 3\<rparr> else ex_leaf)"

definition ex_msg :: "u8 list" where "ex_msg = le_bytes 4 (20 :: u32) @ replicate 16380 0"

definition no_linker :: em_linker where "no_linker = \<lparr>em_dlopen = \<lambda>_. None, em_dlsym = \<lambda>_ _. None\<rparr>"

lemma ex_cmp_wf: "cmp_wf ex_cmp" by (simp add: ex_cmp_def cmp_wf_def cmp_consts)

lemma ex_cmp_text: "spaced (cmp_words ex_cmp) = ''u8 at 3 layer 2 trans gt 20''" by code_simp

lemma length_cmp_bytes: "length (cmp_bytes c) = 12" by (simp add: cmp_bytes_def)

lemma ex_scan: "scan_dec_entry (''1'' @ [tab] @ ''cmp'' @ [newline]) = Some (1, ''cmp'')"
  by (simp add: scan_dec_entry_def strtol_def scan_number_def scan_base_def isspace_def scan_name_def digit_val_def tab_def newline_def
      LONG_MAX_def LONG_MIN_def)

lemma ex_leaf_ok:
  "leaf_ok ex_map ex_em_state (ex_leaf\<lparr>en_inverted := i, en_relation := r, en_next := nx\<rparr>) 1 (cmp_bytes ex_cmp)
     (''cmp(u8 at 3 layer 2 trans gt 20)'' @ [newline])"
proof -
  have parse: "eu_parse_eopt cmp_ematch_util n hdr (cmp_words ex_cmp) =
      (0, snd (addraw_l (snd (addraw_l n MAX_MSG hdr)) MAX_MSG (cmp_bytes ex_cmp)))" for n hdr
    using cmp_parse_words [OF ex_cmp_wf] by (simp add: cmp_ematch_util_def cmp_parse_eopt_def, simp add: ex_cmp_def)
  have prt: "eu_print_eopt cmp_ematch_util hdr (cmp_bytes ex_cmp @ rest) (int (length (cmp_bytes ex_cmp))) =
      (0, ''u8 at 3 layer 2 trans gt 20'')" for hdr rest
    using cmp_print_words [OF ex_cmp_wf, of hdr rest] by (simp add: cmp_ematch_util_def length_cmp_bytes ex_cmp_text)
  have "lookup_map_id ex_map ''cmp'' = Inr 1" "lookup_map ex_map 1 32 = Inr (Some ''cmp'')"
    using ex_scan by (simp_all add: lookup_map_id_def lookup_map_def strncpy_str_def ex_map_def strcaseeq_def tab_def newline_def)
  then show ?thesis
    using parse prt unfolding leaf_ok_def
    by (intro exI [of _ "''cmp''"] exI [of _ "cmp_words ex_cmp"] exI [of _ cmp_ematch_util] exI [of _ "''u8 at 3 layer 2 trans gt 20''"])
      (simp add: ex_leaf_def ex_em_state_def upto_chr_def cmp_ematch_util_def length_cmp_bytes)
qed

theorem ematch_printed_as_entered_witness:
  "\<exists>n' rta. parse_ematch no_linker ex_map 7 (Some (Some 1, ex_heap)) 2 ex_msg ex_em_state = Some (0, n', ex_em_state) \<and>
    fst (parse_rtattr 4 (drop 20 n') (uint (nlmsg_len n') - 20)) ! 2 = Some rta \<and>
    print_ematch True no_linker ex_map 7 rta ex_em_state =
      Some (0, newline # ''  NOT cmp(u8 at 3 layer 2 trans gt 20)'' @ newline # ''  AND ('' @
        newline # ''    cmp(u8 at 3 layer 2 trans gt 20)'' @ newline # ''  ) '', ex_em_state)"
proof -
  let ?ts = "[ENode 1 [], ENode 2 [ENode 3 []]]"
  let ?dat = "\<lambda>_. cmp_bytes ex_cmp" and ?txt = "\<lambda>_. ''cmp(u8 at 3 layer 2 trans gt 20)'' @ [newline]"
  have leaf: "leaf_ok ex_map ex_em_state ex_leaf 1 (cmp_bytes ex_cmp) (''cmp(u8 at 3 layer 2 trans gt 20)'' @ [newline])"
    using ex_leaf_ok [where i = False and r = 0 and nx = None] by (simp add: ex_leaf_def)
  have nodes: "nodes_ok ex_map ex_em_state (\<lambda>_. 1) ?dat ?txt ex_heap (map eroot ?ts @ desc ?ts)"
    using ex_leaf_ok [where i = True and r = 1 and nx = "Some 2"] leaf by (simp add: nodes_ok_def ex_heap_def, simp add: ex_leaf_def)
  have msg: "nl_msg 20 [] ex_msg" by (simp add: nl_msg_def ex_msg_def nlmsg_len_def peek32_def)
  have "\<exists>n' rta. parse_ematch no_linker ex_map 7 (Some (Some (eroot (hd ?ts)), ex_heap)) 2 ex_msg ex_em_state = Some (0, n', ex_em_state) \<and>
    fst (parse_rtattr 4 (drop 20 n') (uint (nlmsg_len n') - int 20)) ! unat (2 :: u16) = Some rta \<and>
    print_ematch True no_linker ex_map 7 rta ex_em_state = Some (0, newline # ''  '' @ tree_text ex_heap ?txt 1 ?ts, ex_em_state)"
    by (rule ematch_printed_as_entered [OF _ _ _ _ _ nodes _ msg])
      (simp_all add: ex_heap_def ex_leaf_def list_at_def ex_msg_def expr_size_def length_cmp_bytes first_attr_def)
  then show ?thesis by (simp add: ex_heap_def ex_leaf_def indent_def replicate_2)
qed

end
