(* ===== verification/F_U32_Sem.thy ===== *)
theory F_U32_Sem
  imports F_U32 Em_Props
begin

unbundle bit_operations_syntax

text \<open>
  What a selector of the u32 filter accepts, and that packing a test into a selector adds exactly this
  test. A packet is a function from offsets to bytes; \<open>nh\<close> is the offset of the next header, added under
  the mask of a key, as the classifier of the kernel does.
\<close>

section \<open>Acceptance\<close>

definition pkt_word :: "(int \<Rightarrow> u8) \<Rightarrow> int \<Rightarrow> u32" where
  "pkt_word pkt p = of_le_bytes (map (\<lambda>j. pkt (p + int j)) [0..<4])"

definition key_accepts :: "(int \<Rightarrow> u8) \<Rightarrow> int \<Rightarrow> tc_u32_key \<Rightarrow> bool" where
  "key_accepts pkt nh k \<longleftrightarrow> (pkt_word pkt (uk_off k + (nh AND uk_offmask k)) XOR uk_val k) AND uk_mask k = 0"

definition sel_accepts :: "(int \<Rightarrow> u8) \<Rightarrow> int \<Rightarrow> tc_u32_sel \<Rightarrow> bool" where
  "sel_accepts pkt nh sel \<longleftrightarrow> list_all (key_accepts pkt nh) (us_keys sel)"

text \<open>The number in the \<open>w\<close> bytes at an offset, the most significant byte first.\<close>

definition field :: "(int \<Rightarrow> u8) \<Rightarrow> int \<Rightarrow> nat \<Rightarrow> u32" where
  "field pkt p w = of_le_bytes (rev (map (\<lambda>j. pkt (p + int j)) [0..<w]))"

definition key_wf :: "tc_u32_key \<Rightarrow> bool" where
  "key_wf k \<longleftrightarrow> uk_val k AND uk_mask k = uk_val k \<and> 4 dvd uk_off k"

definition sel_wf :: "tc_u32_sel \<Rightarrow> bool" where
  "sel_wf sel \<longleftrightarrow> list_all key_wf (us_keys sel) \<and> distinct (map (\<lambda>k. (uk_off k, uk_offmask k)) (us_keys sel)) \<and> length (us_keys sel) \<le> 128"

section \<open>Merging\<close>

lemma merged_word:
  fixes x :: u32
  assumes "v AND m = v" "k AND q = k" "(k XOR v) AND (q AND m) = 0"
  shows "(x XOR (v OR k)) AND (m OR q) = 0 \<longleftrightarrow> (x XOR v) AND m = 0 \<and> (x XOR k) AND q = 0"
  using assms by (simp add: bit_eq_iff bit_simps) blast

lemma merged_conflict:
  fixes x :: u32
  assumes "(k XOR v) AND (q AND m) \<noteq> 0" shows "\<not> ((x XOR v) AND m = 0 \<and> (x XOR k) AND q = 0)"
  using assms by (simp add: bit_eq_iff bit_simps) blast

lemma merged_wf: "v AND m = v \<Longrightarrow> k AND q = k \<Longrightarrow> (v OR k) AND (m OR q) = v OR k" for v :: u32
  by (simp add: bit_eq_iff bit_simps) blast

abbreviation word_test :: "(int \<Rightarrow> u8) \<Rightarrow> int \<Rightarrow> u32 \<Rightarrow> u32 \<Rightarrow> int \<Rightarrow> int \<Rightarrow> bool" where
  "word_test pkt nh key msk off offmask \<equiv> (pkt_word pkt (off + (nh AND offmask)) XOR key) AND msk = 0"

lemma merge_key_some:
  assumes "merge_key key msk off offmask ks = Some (Some ks')" "list_all key_wf ks" "key AND msk = key"
  shows "list_all key_wf ks' \<and> map (\<lambda>k. (uk_off k, uk_offmask k)) ks' = map (\<lambda>k. (uk_off k, uk_offmask k)) ks \<and>
    (list_all (key_accepts pkt nh) ks' \<longleftrightarrow> list_all (key_accepts pkt nh) ks \<and> word_test pkt nh key msk off offmask)"
  using assms
proof (induction ks arbitrary: ks')
  case (Cons k ks)
  show ?case
  proof (cases "uk_off k = off \<and> uk_offmask k = offmask")
    case True
    then have c: "(key XOR uk_val k) AND (msk AND uk_mask k) = 0" "ks' = k\<lparr>uk_val := uk_val k OR key, uk_mask := uk_mask k OR msk\<rparr> # ks"
      using Cons.prems(1) by (auto split: if_splits)
    have "key_wf k" "list_all key_wf ks" using Cons.prems(2) by simp_all
    then have v: "uk_val k AND uk_mask k = uk_val k" "4 dvd uk_off k" "list_all key_wf ks" by (simp_all add: key_wf_def [of k])
    have "key_wf (k\<lparr>uk_val := uk_val k OR key, uk_mask := uk_mask k OR msk\<rparr>)"
      using merged_wf [OF v(1) Cons.prems(3)] v(2) by (simp add: key_wf_def)
    then show ?thesis using merged_word [OF v(1) Cons.prems(3) c(1)] v(3) True by (auto simp: c(2) key_accepts_def)
  next
    case False
    then obtain ks2 where "merge_key key msk off offmask ks = Some (Some ks2)" "ks' = k # ks2" using Cons.prems(1) by auto
    then show ?thesis using Cons.IH [of ks2] Cons.prems(2,3) by auto
  qed
qed simp

lemma merge_key_conflict:
  assumes "merge_key key msk off offmask ks = Some None"
  shows "\<not> (list_all (key_accepts pkt nh) ks \<and> word_test pkt nh key msk off offmask)"
  using assms
proof (induction ks)
  case (Cons k ks)
  show ?case
  proof (cases "uk_off k = off \<and> uk_offmask k = offmask")
    case True
    then have "(key XOR uk_val k) AND (msk AND uk_mask k) \<noteq> 0" using Cons.prems by (auto split: if_splits)
    then show ?thesis using merged_conflict True by (auto simp: key_accepts_def)
  next
    case False
    then show ?thesis using Cons by auto
  qed
qed simp

lemma merge_key_none: "merge_key key msk off offmask ks = None \<longleftrightarrow> (off, offmask) \<notin> (\<lambda>k. (uk_off k, uk_offmask k)) ` set ks"
  by (induction ks) auto

lemma and_absorb: "(x XOR (k AND m)) AND m = (x XOR k) AND m" for x :: u32
  by (simp add: bit_eq_iff bit_simps) blast

text \<open>Packing adds the test of one word, or there is no room, or no packet passes both.\<close>

lemma pack_key_some:
  assumes "pack_key sel key msk off offmask = Some sel'" "sel_wf sel"
  shows "sel_wf sel' \<and> (sel_accepts pkt nh sel' \<longleftrightarrow> sel_accepts pkt nh sel \<and> word_test pkt nh key msk off offmask)"
proof (cases "merge_key (key AND msk) msk off offmask (us_keys sel)")
  case None
  then have s: "sel' = sel\<lparr>us_keys := us_keys sel @ [\<lparr>uk_mask = msk, uk_val = key AND msk, uk_off = off, uk_offmask = offmask\<rparr>]\<rparr>"
    "length (us_keys sel) < 128" "4 dvd off" using assms(1) by (auto simp: pack_key_def Let_def split: if_splits)
  have "(off, offmask) \<notin> (\<lambda>k. (uk_off k, uk_offmask k)) ` set (us_keys sel)" using None merge_key_none by blast
  then show ?thesis
    using assms(2) s by (auto simp: sel_wf_def key_wf_def sel_accepts_def key_accepts_def and_absorb)
next
  case (Some r)
  then obtain ks' where ks: "r = Some ks'" "sel' = sel\<lparr>us_keys := ks'\<rparr>" using assms(1) by (auto simp: pack_key_def Let_def)
  have "list_all key_wf (us_keys sel)" "(key AND msk) AND msk = key AND msk" using assms(2) by (simp_all add: sel_wf_def and.assoc)
  from merge_key_some [OF Some [unfolded ks(1)] this, of pkt nh]
  show ?thesis using assms(2) ks(2) by (auto simp: sel_wf_def sel_accepts_def and_absorb dest: map_eq_imp_length_eq)
qed

lemma pack_key_none:
  assumes "pack_key sel key msk off offmask = None" "4 dvd off" "length (us_keys sel) < 128"
  shows "\<not> (sel_accepts pkt nh sel \<and> word_test pkt nh key msk off offmask)"
  using assms merge_key_conflict [of "key AND msk" msk off offmask "us_keys sel" pkt nh]
  by (auto simp: pack_key_def Let_def sel_accepts_def and_absorb split: option.splits if_splits)

section \<open>Fields\<close>

lemma htonl_xor: "htonl a XOR htonl b = htonl (a XOR b)"
  by (rule bit_word_eqI) (auto simp: htonl_def bit_of_le_bytes rev_nth bit_le_bytes_nth bit_simps)

lemma htonl_zero: "htonl a = 0 \<longleftrightarrow> a = 0"
proof
  assume "htonl a = 0"
  then have "ntohl (htonl a) = ntohl 0" by simp
  moreover have "ntohl 0 = 0" by (simp add: ntohl_def le_bytes_def upt_conv_Cons)
  ultimately show "a = 0" by simp
qed (simp add: htonl_def le_bytes_def upt_conv_Cons)

lemma pkt_word_field: "pkt_word pkt p = htonl (field pkt p 4)"
proof -
  have "le_bytes 4 (field pkt p 4) = rev (map (\<lambda>j. pkt (p + int j)) [0..<4])"
    using le_bytes_of_le_bytes [of "rev (map (\<lambda>j. pkt (p + int j)) [0..<4])", where 'a = 32] by (simp add: field_def)
  then show ?thesis by (simp add: htonl_def pkt_word_def)
qed

lemma bit_field: "w \<le> 4 \<Longrightarrow> bit (field pkt p w) n \<longleftrightarrow> n < 8 * w \<and> bit (pkt (p + int (w - 1 - n div 8))) (n mod 8)"
  by (auto simp: field_def bit_of_le_bytes rev_nth)

lemma field_part:
  assumes "i + w \<le> 4"
  shows "field pkt (p + int i) w = take_bit (8 * w) (drop_bit (8 * (4 - w - i)) (field pkt p 4))"
proof (rule bit_word_eqI)
  fix n assume "n < LENGTH(32)"
  have d: "(8 * (4 - w - i) + n) div 8 = 4 - w - i + n div 8" "(8 * (4 - w - i) + n) mod 8 = n mod 8" by simp_all
  show "bit (field pkt (p + int i) w) n = bit (take_bit (8 * w) (drop_bit (8 * (4 - w - i)) (field pkt p 4))) n"
  proof (cases "n < 8 * w")
    case True
    then have "n div 8 < w" by (simp add: less_mult_imp_div_less mult.commute)
    then have e: "p + int i + int (w - 1 - n div 8) = p + int (4 - 1 - (4 - w - i + n div 8))" using assms by simp
    have "8 * (4 - w - i) + n < 8 * 4" using True assms by linarith
    then show ?thesis
      using True assms unfolding bit_take_bit_iff bit_drop_bit_eq comp_def by (simp only: bit_field d e) simp
  qed (use assms in \<open>simp add: bit_field bit_simps\<close>)
qed

text \<open>A shifted test of a word is the test of the field.\<close>

lemma shift_test:
  fixes x :: u32
  assumes "take_bit l m = m" "s + l \<le> 32"
  shows "(x XOR push_bit s k) AND push_bit s m = 0 \<longleftrightarrow> drop_bit s x AND m = k AND m"
proof -
  have hi: "\<not> bit m n" if "l \<le> n" for n using assms(1) that by (metis bit_take_bit_iff linorder_not_less)
  have "(x XOR push_bit s k) AND push_bit s m = 0 \<longleftrightarrow> (\<forall>n<32. s \<le> n \<longrightarrow> bit m (n - s) \<longrightarrow> bit x n = bit k (n - s))"
    by (auto simp: bit_eq_iff bit_simps)
  also have "\<dots> \<longleftrightarrow> (\<forall>j. bit m j \<longrightarrow> bit x (s + j) = bit k j)"
  proof
    assume r: "\<forall>n<32. s \<le> n \<longrightarrow> bit m (n - s) \<longrightarrow> bit x n = bit k (n - s)"
    show "\<forall>j. bit m j \<longrightarrow> bit x (s + j) = bit k j"
    proof (intro allI impI)
      fix j assume "bit m j"
      moreover from this have "j < l" using hi linorder_not_less by blast
      then have "s + j < 32" using assms(2) by linarith
      ultimately show "bit x (s + j) = bit k j" using r [rule_format, of "s + j"] by simp
    qed
  next
    assume "\<forall>j. bit m j \<longrightarrow> bit x (s + j) = bit k j"
    then show "\<forall>n<32. s \<le> n \<longrightarrow> bit m (n - s) \<longrightarrow> bit x n = bit k (n - s)" by (metis le_add_diff_inverse)
  qed
  also have "\<dots> \<longleftrightarrow> drop_bit s x AND m = k AND m"
  proof -
    have "j < 32" if "bit m j" for j using bit_imp_le_length [OF that] by simp
    then show ?thesis by (simp add: bit_eq_iff bit_simps) blast
  qed
  finally show ?thesis .
qed

lemma take_bit_small: "unat m < 2 ^ n \<Longrightarrow> take_bit n m = m" for m :: u32
  by (simp add: word_unat_eq_iff unsigned_take_bit_eq take_bit_nat_eq_self)

lemma field_test:
  assumes "i + w \<le> 4" "unat m < 2 ^ (8 * w)"
  shows "(pkt_word pkt p XOR htonl (push_bit (8 * (4 - w - i)) k)) AND htonl (push_bit (8 * (4 - w - i)) m) = 0 \<longleftrightarrow>
    field pkt (p + int i) w AND m = k AND m"
proof -
  have m: "take_bit (8 * w) m = m" using assms(2) by (rule take_bit_small)
  have "take_bit (8 * w) y AND m = y AND m" for y by (metis m take_bit_and and.assoc and.commute take_bit_eq_mask)
  then show ?thesis
    using shift_test [OF m, of "8 * (4 - w - i)" "field pkt p 4" k] assms(1)
    by (simp add: pkt_word_field htonl_xor htonl_and htonl_zero field_part)
qed

section \<open>The packers\<close>

text \<open>
  What the three packers promise for fields of \<open>w\<close> bytes at multiples of \<open>w\<close>: success adds the test of the
  field, and a refusal for another reason than the range or the size of the selector means that no packet passes.
\<close>

locale field_packer =
  fixes pack :: "tc_u32_sel \<Rightarrow> u32 \<Rightarrow> u32 \<Rightarrow> int \<Rightarrow> int \<Rightarrow> tc_u32_sel option" and w :: nat
  assumes packed: "pack sel k m off offmask = Some sel' \<Longrightarrow> sel_wf sel \<Longrightarrow> int w dvd off \<Longrightarrow>
      sel_wf sel' \<and> (sel_accepts pkt nh sel' \<longleftrightarrow> sel_accepts pkt nh sel \<and> field pkt (off + (nh AND offmask)) w AND m = k AND m)"
    and refused: "pack sel k m off offmask = None \<Longrightarrow> length (us_keys sel) < 128 \<Longrightarrow> int w dvd off \<Longrightarrow>
      unat k < 2 ^ (8 * w) \<Longrightarrow> unat m < 2 ^ (8 * w) \<Longrightarrow>
      \<not> (sel_accepts pkt nh sel \<and> field pkt (off + (nh AND offmask)) w AND m = k AND m)"

lemma int_and_3: "(off :: int) AND 3 = off mod 4" "off AND NOT 3 = off - off mod 4" "off AND - 4 = off - off mod 4"
proof -
  have 3: "(3 :: int) = mask 2" by (simp add: mask_eq_exp_minus_1)
  show "off AND 3 = off mod 4" unfolding 3 by (simp flip: take_bit_eq_mask add: take_bit_eq_mod)
  have "off AND NOT (mask 2) = push_bit 2 (drop_bit 2 off)"
  proof (rule bit_eqI)
    fix k :: nat
    have "2 \<le> k \<Longrightarrow> 2 + (k - 2) = k" by simp
    then show "bit (off AND NOT (mask 2)) k = bit (push_bit 2 (drop_bit 2 off)) k"
      unfolding bit_and_iff bit_not_iff bit_mask_iff bit_push_bit_iff bit_drop_bit_eq comp_def by (auto simp: not_less)
  qed
  then show *: "off AND NOT 3 = off - off mod 4" unfolding 3 by (simp add: push_bit_eq_mult drop_bit_eq_div minus_mod_eq_mult_div)
  have "NOT 3 = (- 4 :: int)" by simp
  then show "off AND - 4 = off - off mod 4" using * by simp
qed

text \<open>The shift and the word of a field within its word.\<close>

lemma packer_test:
  fixes off :: int
  assumes "i = nat (off mod 4)" "i + w \<le> 4" "unat m < 2 ^ (8 * w)"
  shows "word_test pkt nh (htonl (push_bit (8 * (4 - w - i)) k)) (htonl (push_bit (8 * (4 - w - i)) m)) (off - off mod 4) offmask \<longleftrightarrow>
    field pkt (off + (nh AND offmask)) w AND m = k AND m"
  using field_test [OF assms(2,3), of pkt "off - off mod 4 + (nh AND offmask)" k] assms(1) by (simp add: algebra_simps)

text \<open>A packer that shifts key and mask to the field and packs the word.\<close>

lemma field_packerI:
  assumes pack: "\<And>sel k m off offmask. int w dvd off \<Longrightarrow>
      pack sel k m off offmask =
        (if unat k < 2 ^ (8 * w) \<and> unat m < 2 ^ (8 * w)
         then pack_key sel (htonl (push_bit (8 * (4 - w - nat (off mod 4))) k)) (htonl (push_bit (8 * (4 - w - nat (off mod 4))) m))
           (off - off mod 4) offmask
         else None)"
    and fits: "\<And>off. int w dvd off \<Longrightarrow> nat (off mod 4) + w \<le> 4"
  shows "field_packer pack w"
proof
  fix sel k m offmask sel' pkt nh and off :: int
  assume "int w dvd off"
  note p = pack [OF this] and f = fits [OF this]
  { assume "pack sel k m off offmask = Some sel'" "sel_wf sel"
    then show "sel_wf sel' \<and> (sel_accepts pkt nh sel' \<longleftrightarrow> sel_accepts pkt nh sel \<and> field pkt (off + (nh AND offmask)) w AND m = k AND m)"
      using pack_key_some [where sel = sel] packer_test [OF refl f] by (auto simp: p split: if_splits) }
  { assume "pack sel k m off offmask = None" "length (us_keys sel) < 128" "unat k < 2 ^ (8 * w)" "unat m < 2 ^ (8 * w)"
    then have none: "pack_key sel (htonl (push_bit (8 * (4 - w - nat (off mod 4))) k)) (htonl (push_bit (8 * (4 - w - nat (off mod 4))) m))
        (off - off mod 4) offmask = None" "unat m < 2 ^ (8 * w)" "length (us_keys sel) < 128" by (simp_all add: p)
    from pack_key_none [OF none(1) _ none(3), of pkt nh] show "\<not> (sel_accepts pkt nh sel \<and> field pkt (off + (nh AND offmask)) w AND m = k AND m)"
      unfolding packer_test [OF refl f none(2)] by simp }
qed

lemma unat_less_iff: "unat k < 2 ^ 8 \<longleftrightarrow> \<not> k > 0xFF" "unat k < 2 ^ 16 \<longleftrightarrow> \<not> k > 0xFFFF" "unat k < 2 ^ 32" for k :: u32
  using unat_less [of k] by (auto simp: word_less_nat_alt)

interpretation u8: field_packer pack_key8 1
proof (rule field_packerI)
  fix sel k m offmask and off :: int
  have "off mod 4 \<in> {0, 1, 2, 3}" by auto
  then show "pack_key8 sel k m off offmask =
      (if unat k < 2 ^ (8 * 1) \<and> unat m < 2 ^ (8 * 1)
       then pack_key sel (htonl (push_bit (8 * (4 - 1 - nat (off mod 4))) k)) (htonl (push_bit (8 * (4 - 1 - nat (off mod 4))) m))
         (off - off mod 4) offmask else None)"
    using unat_less_iff(1) [of k] unat_less_iff(1) [of m] by (auto simp: pack_key8_def int_and_3 Let_def)
qed auto

interpretation u16: field_packer pack_key16 2
proof (rule field_packerI)
  fix sel k m offmask and off :: int
  assume "int 2 dvd off"
  then have "off mod 4 \<in> {0, 2}" by simp presburger
  then show "pack_key16 sel k m off offmask =
      (if unat k < 2 ^ (8 * 2) \<and> unat m < 2 ^ (8 * 2)
       then pack_key sel (htonl (push_bit (8 * (4 - 2 - nat (off mod 4))) k)) (htonl (push_bit (8 * (4 - 2 - nat (off mod 4))) m))
         (off - off mod 4) offmask else None)"
    using unat_less_iff(2) [of k] unat_less_iff(2) [of m] by (auto simp: pack_key16_def int_and_3 Let_def)
next
  fix off :: int assume "int 2 dvd off"
  then have "off mod 4 \<in> {0, 2}" by simp presburger
  then show "nat (off mod 4) + 2 \<le> 4" by auto
qed

interpretation u32: field_packer pack_key32 4
  by (rule field_packerI) (use unat_less_iff(3) in \<open>auto simp: pack_key32_def\<close>)

end
