(* ===== verification/F_U32_Props.thy ===== *)
theory F_U32_Props
  imports F_U32_Sem
begin

unbundle bit_operations_syntax

text \<open>
  The text of the handles of u32 filters, and the filter as a whole: the tests of a command line become
  one selector that accepts exactly the packets that pass all of them.
\<close>

section \<open>Handles\<close>

lemma strtoul_hex:
  "ends_number rest \<Longrightarrow> n \<le> ULONG_MAX \<Longrightarrow> strtoul 16 (fmt_base 16 n @ rest) = (of_nat n, rest)"
  by (simp add: strtoul_def scan_number_prefix)

lemma strtoul_fmt_x: "ends_number rest \<Longrightarrow> strtoul 16 (fmt_x (w :: u32) @ rest) = (ucast w, rest)"
  unfolding fmt_x_def using unat_less [of w] by (subst strtoul_hex) (simp_all add: ULONG_MAX_def)

lemma strtoul_colon: "strtoul 16 (CHR '':'' # s) = (0, CHR '':'' # s)" "strtoul 16 [] = (0, [])"
  by (simp_all add: strtoul_def scan_number_def isspace_def scan_base_def digit_val_def split: list.splits)

lemma ends_colon: "ends_number (CHR '':'' # s)" "ends_number []"
  by (simp_all add: ends_number_def digit_val_def)

lemma ucast_32: "(ucast (ucast (w :: u32) :: u64) :: u32) = w"
  by (rule ucast_back) simp

lemma handle_masks: "(0xFFF00000 :: u32) = NOT (mask 20)" "(0xFF :: u32) = mask 8" "(0xFFF :: u32) = mask 12"
  by (simp_all add: mask_eq_exp_minus_1)

lemma handle_bits:
  "bit (TC_U32_HTID h) n \<longleftrightarrow> 20 \<le> n \<and> bit h n" "bit (TC_U32_HASH h) n \<longleftrightarrow> n < 8 \<and> bit h (12 + n)"
  "bit (TC_U32_NODE h) n \<longleftrightarrow> n < 12 \<and> bit h n"
  unfolding TC_U32_HTID_def TC_U32_HASH_def TC_U32_NODE_def handle_masks
  by (auto simp: bit_simps dest: bit_imp_le_length)

lemma take_bit_less: "take_bit n w = w \<Longrightarrow> n < 32 \<Longrightarrow> unat w < 2 ^ n" for w :: u32
  by (metis unsigned_take_bit_eq take_bit_nat_less_exp)

lemma handle_parts:
  "unat (drop_bit 20 (TC_U32_HTID h)) < 0x1000" "unat (TC_U32_HASH h) < 0x100" "unat (TC_U32_NODE h) < 0x1000"
  "push_bit 20 (drop_bit 20 (TC_U32_HTID h)) = TC_U32_HTID h" "TC_U32_HTID h OR push_bit 12 (TC_U32_HASH h) OR TC_U32_NODE h = h"
proof -
  have "take_bit 12 (drop_bit 20 (TC_U32_HTID h)) = drop_bit 20 (TC_U32_HTID h)"
    by (rule bit_word_eqI) (auto simp: bit_simps handle_bits dest: bit_imp_le_length)
  then show "unat (drop_bit 20 (TC_U32_HTID h)) < 0x1000" using take_bit_less [of 12] by simp
  have "take_bit 8 (TC_U32_HASH h) = TC_U32_HASH h" "take_bit 12 (TC_U32_NODE h) = TC_U32_NODE h"
    by (rule bit_word_eqI; auto simp: bit_simps handle_bits)+
  then show "unat (TC_U32_HASH h) < 0x100" "unat (TC_U32_NODE h) < 0x1000" using take_bit_less [of 8] take_bit_less [of 12] by simp_all
  show "push_bit 20 (drop_bit 20 (TC_U32_HTID h)) = TC_U32_HTID h"
    by (rule bit_word_eqI) (auto simp: bit_simps handle_bits)
  show "TC_U32_HTID h OR push_bit 12 (TC_U32_HASH h) OR TC_U32_NODE h = h"
    by (rule bit_word_eqI) (auto simp: bit_simps handle_bits not_less)
qed

lemma no_colon_hex: "strchr (fmt_x (w :: u32)) (CHR '':'') = None"
proof -
  have "c \<noteq> CHR '':''" if "c \<in> set (fmt_x w)" for c
    using fmt_base_digits [of 16 c "unat w"] that digit_char_neq(7) by (auto simp: fmt_x_def)
  then have "dropWhile (\<lambda>x. x \<noteq> CHR '':'') (fmt_x w) = []" by (simp add: dropWhile_eq_Nil_conv)
  then show ?thesis by (simp add: strchr_def)
qed

lemma strchr_found: "strchr (s @ CHR '':'' # t) (CHR '':'') \<noteq> None"
  by (induction s) (auto simp: strchr_def Let_def split: if_splits)

lemma fmt_x_not_0x: "w \<noteq> 0 \<Longrightarrow> take 2 (fmt_x (w :: u32)) \<noteq> ''0x''"
proof
  assume w: "w \<noteq> 0" and "take 2 (fmt_x w) = ''0x''"
  then have "hd (fmt_x w) = CHR ''0''" by (cases "fmt_x w") auto
  moreover obtain d where "d < 16" "hd (fmt_x w) = digit_char d" "d = 0 \<longrightarrow> unat w = 0"
    using fmt_base_hd [of 16 "unat w"] by (auto simp: fmt_x_def)
  ultimately show False using w digit_char_eq_0 [of d] by (simp add: unat_eq_0)
qed

lemma get_handle_text:
  fixes a b c :: u32
  assumes "a < 0x1000"
  shows "get_u32_handle (fmt_x a @ '':'') = Some (push_bit 20 a)"
    "get_u32_handle (fmt_x a @ '':'' @ fmt_x b) = (if b \<ge> 0x100 then None else Some (push_bit 20 a OR push_bit 12 b))"
    "b < 0x100 \<Longrightarrow> c < 0x1000 \<Longrightarrow>
     get_u32_handle (fmt_x a @ '':'' @ fmt_x b @ '':'' @ fmt_x c) = Some (push_bit 20 a OR push_bit 12 b OR c)"
    "c < 0x1000 \<Longrightarrow> get_u32_handle (fmt_x a @ '':'' @ '':'' @ fmt_x c) = Some (push_bit 20 a OR c)"
    "get_u32_handle ('':'' @ fmt_x c) = (if c \<ge> 0x100 then None else Some (push_bit 12 c))"
proof -
  have 1: "strtoul 16 (fmt_x w @ CHR '':'' # s) = (ucast w, CHR '':'' # s)" for w :: u32 and s by (simp add: strtoul_fmt_x ends_colon)
  have 2: "strtoul 16 (fmt_x w) = (ucast w, [])" for w :: u32 using strtoul_fmt_x [of "[]" w] by (simp add: ends_colon)
  have 3: "fmt_x w \<noteq> []" for w :: u32 by (simp add: fmt_x_def)
  note f = strchr_found [of "[]", simplified] strchr_found
  show "get_u32_handle (fmt_x a @ '':'') = Some (push_bit 20 a)"
    using assms f(2) [of "fmt_x a" "[]"] by (auto simp: get_u32_handle_def 1 ucast_32 strtoul_colon not_le)
  show "get_u32_handle (fmt_x a @ '':'' @ fmt_x b) = (if b \<ge> 0x100 then None else Some (push_bit 20 a OR push_bit 12 b))"
    using assms f(2) [of "fmt_x a" "fmt_x b"] by (auto simp: get_u32_handle_def 1 2 3 [symmetric] ucast_32 not_le)
  show "get_u32_handle (fmt_x a @ '':'' @ fmt_x b @ '':'' @ fmt_x c) = Some (push_bit 20 a OR push_bit 12 b OR c)" if "b < 0x100" "c < 0x1000"
    using assms that f(2) [of "fmt_x a" "fmt_x b @ CHR '':'' # fmt_x c"] by (auto simp: get_u32_handle_def 1 2 3 [symmetric] ucast_32 not_le or.assoc)
  show "get_u32_handle (fmt_x a @ '':'' @ '':'' @ fmt_x c) = Some (push_bit 20 a OR c)" if "c < 0x1000"
    using assms that f(2) [of "fmt_x a" "CHR '':'' # fmt_x c"] by (auto simp: get_u32_handle_def 1 2 3 [symmetric] ucast_32 strtoul_colon not_le)
  show "get_u32_handle ('':'' @ fmt_x c) = (if c \<ge> 0x100 then None else Some (push_bit 12 c))"
    using f(1) [of "fmt_x c"] by (auto simp: get_u32_handle_def 2 3 [symmetric] ucast_32 strtoul_colon not_le)
qed

text \<open>
  C40: The text of the handle of a u32 filter reads back exactly when the handle names a hash table.
  Without a table, the text of a handle with a node below 256 is read as another handle, whose table is
  the bucket and whose bucket is the node, and any other such text is refused.
\<close>

theorem u32_handle_text:
  "get_u32_handle (sprint_u32_handle False h) =
     (if TC_U32_HTID h \<noteq> 0 then Some h
      else if TC_U32_NODE h = 0 \<or> TC_U32_NODE h \<ge> 0x100 then None
      else Some (push_bit 20 (TC_U32_HASH h) OR push_bit 12 (TC_U32_NODE h)))"
proof -
  note p = handle_parts [of h]
  have less: "drop_bit 20 (TC_U32_HTID h) < 0x1000" "TC_U32_HASH h < 0x100" "TC_U32_NODE h < 0x1000" "TC_U32_HASH h < 0x1000"
    using p(1-3) by (simp_all add: word_less_nat_alt)
  note g = get_handle_text [OF less(1)] get_handle_text [OF less(4)]
  show ?thesis
  proof (cases "TC_U32_HTID h = 0")
    case False
    then have "h \<noteq> 0" by (auto simp: TC_U32_HTID_def)
    then show ?thesis
      using g(1) g(2) [of "TC_U32_HASH h"] g(3) [OF less(2,3)] g(4) [OF less(3)] False p(4,5) less(2)
      by (auto simp: sprint_u32_handle_def Let_def not_le)
  next
    case True
    have c: "strchr (fmt_x (TC_U32_HASH h)) (CHR '':'') = None" by (rule no_colon_hex)
    have n: "get_u32_handle ''none'' = None" by (simp add: get_u32_handle_def strchr_def)
    have h: "get_u32_handle (fmt_x (TC_U32_HASH h)) = None" if "TC_U32_HASH h \<noteq> 0"
      using c fmt_x_not_0x [OF that] by (simp add: get_u32_handle_def)
    have "h = 0" if "TC_U32_HASH h = 0" "TC_U32_NODE h = 0" using p(5) that True by simp
    then show ?thesis
      using True n h g(5) [of "TC_U32_NODE h"] g(7) [of "TC_U32_NODE h"]
      by (cases "TC_U32_HASH h = 0"; cases "TC_U32_NODE h = 0") (auto simp: sprint_u32_handle_def Let_def TC_U32_HASH_def TC_U32_NODE_def)
  qed
qed

section \<open>Tests on a command line\<close>

record u32_test =
  tst_width :: nat
  tst_key :: u32
  tst_mask :: u32
  tst_off :: int

definition test_ok :: "u32_test \<Rightarrow> bool" where
  "test_ok t \<longleftrightarrow> tst_width t \<in> {1, 2, 4} \<and> unat (tst_key t) < 2 ^ (8 * tst_width t) \<and> unat (tst_mask t) < 2 ^ (8 * tst_width t) \<and>
     int (tst_width t) dvd tst_off t \<and> INT_MIN \<le> tst_off t \<and> tst_off t \<le> INT_MAX"

text \<open>A test passes when the field under the mask is the key under the mask.\<close>

definition passes :: "(int \<Rightarrow> u8) \<Rightarrow> u32_test \<Rightarrow> bool" where
  "passes pkt t \<longleftrightarrow> field pkt (tst_off t) (tst_width t) AND tst_mask t = tst_key t AND tst_mask t"

definition test_words :: "u32_test \<Rightarrow> string list" where
  "test_words t =
     [''match'', if tst_width t = 1 then ''u8'' else if tst_width t = 2 then ''u16'' else ''u32'',
      fmt_u (tst_key t), fmt_x (tst_mask t), ''at'', fmt_d (tst_off t)]"

definition pack_test :: "u32_test \<Rightarrow> tc_u32_sel \<Rightarrow> tc_u32_sel option" where
  "pack_test t sel =
     (if tst_width t = 1 then pack_key8 else if tst_width t = 2 then pack_key16 else pack_key32)
       sel (tst_key t) (tst_mask t) (tst_off t) 0"

lemma get_u32_text: "get_u32 (fmt_u (v :: u32)) 0 = Some v" "get_u32 (fmt_x (v :: u32)) 16 = Some v"
proof -
  show "get_u32 (fmt_u v) 0 = Some v" by (simp add: get_u32.parse_printed)
  have "whole_number 16 (fmt_x v) = Some (False, unat v)" by (simp add: whole_number_def fmt_x_def scan_number_fmt)
  from get_u32.parse_plain [OF this] show "get_u32 (fmt_x v) 16 = Some v" using unat_less [of v] by simp
qed

lemma get_integer_text: "INT_MIN \<le> i \<Longrightarrow> i \<le> INT_MAX \<Longrightarrow> get_integer (fmt_d i) 0 = Some i"
  by (simp add: get_integer.parse_printed)

lemma parse_at_number: "INT_MIN \<le> i \<Longrightarrow> i \<le> INT_MAX \<Longrightarrow> parse_at (fmt_d i # r) offmask = Ret (Some (i, offmask, r))"
proof -
  assume i: "INT_MIN \<le> i" "i \<le> INT_MAX"
  have m: "matches (fmt_d i) ''nexthdr+'' \<noteq> 0" using matches_number [of i "''nexthdr+''"] by (auto simp: digit_val_def)
  have "take 8 (fmt_d i) \<noteq> ''nexthdr+''"
  proof
    assume t: "take 8 (fmt_d i) = ''nexthdr+''"
    then have "hd (fmt_d i) = CHR ''n''" by (cases "fmt_d i") auto
    moreover obtain d where "d < 10" "hd (fmt_base 10 (nat i)) = digit_char d" using fmt_base_hd [of 10 "nat i"] by auto
    ultimately show False using digit_char_val [of d "CHR ''n''"] by (auto simp: fmt_d_def digit_val_def split: if_splits)
  qed
  then show ?thesis using m get_integer_text [OF i] by (simp add: parse_at_def or_fail_def)
qed

text \<open>One pass of the loop reads one test.\<close>

lemma u32_arg_test:
  assumes "test_ok t"
  shows "u32_arg env (test_words t @ r) v =
    (case pack_test t (uv_sel v) of
       None \<Rightarrow> Ret None
     | Some sel \<Rightarrow> Ret (Some (v\<lparr>uv_sel := sel, sel_ok := True\<rparr>, r)))"
proof -
  have i: "INT_MIN \<le> tst_off t" "tst_off t \<le> INT_MAX" using assms by (simp_all add: test_ok_def)
  have at: "opt_at (''at'' # fmt_d (tst_off t) # r) 0 0 = Ret (Some (tst_off t, 0, r))"
    by (simp add: opt_at_def after_next_def NEXT_ARG_def parse_at_number [OF i])
  have field: "parse_field pack bound (fmt_u (tst_key t) # fmt_x (tst_mask t) # ''at'' # fmt_d (tst_off t) # r) sel 0 0 =
      or_fail (pack sel (tst_key t) (tst_mask t) (tst_off t) 0) (\<lambda>sel1. Ret (Some (sel1, r)))"
    if "tst_key t \<le> bound" "tst_mask t \<le> bound" for pack bound sel
    using that at by (simp add: parse_field_def get_u32_text or_fail_def cthen_def not_le leD)
  have b: "tst_width t = 1 \<Longrightarrow> tst_key t \<le> 0xFF \<and> tst_mask t \<le> 0xFF"
    using assms unat_less_iff(1) [of "tst_key t"] unat_less_iff(1) [of "tst_mask t"] by (auto simp: test_ok_def not_less)
  have w: "tst_width t = 1 \<or> tst_width t = 2 \<or> tst_width t = 4" using assms by (simp add: test_ok_def)
  show ?thesis
    using w b field
    by (auto simp: u32_arg_def test_words_def pack_test_def matches_0_iff after_next_def NEXT_ARG_def parse_selector_def keep_msg_def
        parse_u8_def parse_u16_def parse_u32_def cthen_def or_fail_def split: option.splits)
qed

fun pack_tests :: "u32_test list \<Rightarrow> tc_u32_sel \<Rightarrow> tc_u32_sel option" where
  "pack_tests [] sel = Some sel"
| "pack_tests (t # ts) sel = Option.bind (pack_test t sel) (pack_tests ts)"

lemma u32_args_tests:
  assumes "list_all test_ok ts" "length ts \<le> k"
  shows "u32_args env k (concat (map test_words ts)) v =
    Some (Ret (map_option (\<lambda>sel. v\<lparr>uv_sel := sel, sel_ok := sel_ok v \<or> ts \<noteq> []\<rparr>) (pack_tests ts (uv_sel v))))"
  using assms
proof (induction ts arbitrary: k v)
  case (Cons t ts)
  then obtain m where k: "k = Suc m" by (cases k) auto
  have ok: "test_ok t" "list_all test_ok ts" "length ts \<le> m" using Cons.prems k by simp_all
  obtain a r where w: "test_words t = a # r" by (simp add: test_words_def)
  have "u32_args env k (concat (map test_words (t # ts))) v =
      (case u32_arg env (test_words t @ concat (map test_words ts)) v of
         Exit e \<Rightarrow> Some (Exit e) | Ret None \<Rightarrow> Some (Ret None) | Ret (Some (v1, r1)) \<Rightarrow> u32_args env m r1 v1)"
    by (simp add: k w)
  then show ?case
    by (simp add: u32_arg_test [OF ok(1)] Cons.IH [OF ok(2,3)] split: option.splits)
qed simp

section \<open>The selector of a list of tests\<close>

definition key_plain :: "tc_u32_key \<Rightarrow> bool" where
  "key_plain k \<longleftrightarrow> uk_offmask k = 0 \<and> INT_MIN \<le> uk_off k \<and> uk_off k \<le> INT_MAX"

lemma merge_key_shape:
  "merge_key key msk off offmask ks = Some (Some ks') \<Longrightarrow>
   map (\<lambda>k. (uk_off k, uk_offmask k)) ks' = map (\<lambda>k. (uk_off k, uk_offmask k)) ks"
  by (induction ks arbitrary: ks') (auto split: if_splits)

lemma key_plain_shape:
  "map (\<lambda>k. (uk_off k, uk_offmask k)) ks' = map (\<lambda>k. (uk_off k, uk_offmask k)) ks \<Longrightarrow> list_all key_plain ks' = list_all key_plain ks"
  by (induction ks' ks rule: list_induct2') (auto simp: key_plain_def)

lemma pack_key_plain:
  assumes "pack_key sel key msk off 0 = Some sel'" "list_all key_plain (us_keys sel)" "INT_MIN \<le> off" "off \<le> INT_MAX"
  shows "list_all key_plain (us_keys sel') \<and> length (us_keys sel') \<le> Suc (length (us_keys sel))"
proof (cases "merge_key (key AND msk) msk off 0 (us_keys sel)")
  case None
  then show ?thesis using assms by (auto simp: pack_key_def Let_def key_plain_def split: if_splits)
next
  case (Some r)
  then obtain ks' where ks: "r = Some ks'" "us_keys sel' = ks'" using assms(1) by (auto simp: pack_key_def Let_def)
  note sh = merge_key_shape [OF Some [unfolded ks(1)]]
  show ?thesis using key_plain_shape [OF sh] assms(2) map_eq_imp_length_eq [OF sh] ks(2) by simp
qed

lemma pack_test_plain:
  assumes "pack_test t sel = Some sel'" "test_ok t" "list_all key_plain (us_keys sel)"
  shows "list_all key_plain (us_keys sel') \<and> length (us_keys sel') \<le> Suc (length (us_keys sel))"
proof -
  have r: "INT_MIN \<le> tst_off t" "tst_off t \<le> INT_MAX" using assms(2) by (simp_all add: test_ok_def)
  have "(- 2147483648 :: int) \<le> x \<Longrightarrow> - 2147483648 \<le> x - x mod 4" "x \<le> 2147483647 \<Longrightarrow> x - x mod 4 \<le> 2147483647" for x :: int
    by presburger+
  then have "INT_MIN \<le> tst_off t - tst_off t mod 4" "tst_off t - tst_off t mod 4 \<le> INT_MAX" using r by (simp_all add: INT_MIN_def INT_MAX_def)
  then show ?thesis
    using assms(1,3) r pack_key_plain [where sel = sel and sel' = sel']
    by (auto simp: pack_test_def pack_key8_def pack_key16_def pack_key32_def int_and_3 Let_def split: if_splits)
qed

lemma pack_test_some:
  assumes "pack_test t sel = Some sel'" "test_ok t" "sel_wf sel"
  shows "sel_wf sel' \<and> (sel_accepts pkt nh sel' \<longleftrightarrow> sel_accepts pkt nh sel \<and> passes pkt t)"
  using assms u8.packed [where off = "tst_off t" and offmask = 0] u16.packed [where off = "tst_off t" and offmask = 0]
    u32.packed [where off = "tst_off t" and offmask = 0]
  by (auto simp: pack_test_def test_ok_def passes_def)

lemma pack_test_none:
  assumes "pack_test t sel = None" "test_ok t" "length (us_keys sel) < 128"
  shows "\<not> (sel_accepts pkt nh sel \<and> passes pkt t)"
  using assms u8.refused [where off = "tst_off t" and offmask = 0 and sel = sel] u16.refused [where off = "tst_off t" and offmask = 0 and sel = sel]
    u32.refused [where off = "tst_off t" and offmask = 0 and sel = sel]
  by (auto simp: pack_test_def test_ok_def passes_def)

lemma pack_tests_some:
  assumes "pack_tests ts sel = Some sel'" "list_all test_ok ts" "sel_wf sel" "list_all key_plain (us_keys sel)"
  shows "sel_wf sel' \<and> list_all key_plain (us_keys sel') \<and>
    (sel_accepts pkt nh sel' \<longleftrightarrow> sel_accepts pkt nh sel \<and> list_all (passes pkt) ts)"
  using assms
proof (induction ts arbitrary: sel)
  case (Cons t ts)
  then obtain sel1 where sel1: "pack_test t sel = Some sel1" "pack_tests ts sel1 = Some sel'" by (auto simp: bind_eq_Some_conv)
  have ok: "test_ok t" "list_all test_ok ts" using Cons.prems(2) by simp_all
  show ?case
    using Cons.IH [OF sel1(2) ok(2)] pack_test_some [OF sel1(1) ok(1) Cons.prems(3), of pkt nh] pack_test_plain [OF sel1(1) ok(1) Cons.prems(4)]
    by auto
qed simp

lemma pack_tests_none:
  assumes "pack_tests ts sel = None" "list_all test_ok ts" "sel_wf sel" "list_all key_plain (us_keys sel)" "length (us_keys sel) + length ts \<le> 128"
  shows "\<not> (sel_accepts pkt nh sel \<and> list_all (passes pkt) ts)"
  using assms
proof (induction ts arbitrary: sel)
  case (Cons t ts)
  have ok: "test_ok t" "list_all test_ok ts" using Cons.prems(2) by simp_all
  show ?case
  proof (cases "pack_test t sel")
    case None
    then show ?thesis using pack_test_none [OF None ok(1), of pkt nh] Cons.prems(5) by auto
  next
    case (Some sel1)
    then show ?thesis
      using Cons.IH [of sel1] Cons.prems ok(2) pack_test_some [OF Some ok(1) Cons.prems(3), of pkt nh] pack_test_plain [OF Some ok(1) Cons.prems(4)]
      by auto
  qed
qed simp

text \<open>A selector with one key for every word is satisfied by a packet with the values of the keys.\<close>

lemma sel_satisfiable:
  assumes "sel_wf sel" "list_all key_plain (us_keys sel)"
  shows "\<exists>pkt. \<forall>nh. sel_accepts pkt nh sel"
proof -
  let ?m = "map_of (map (\<lambda>k. (uk_off k, uk_val k)) (us_keys sel))"
  define pkt where "pkt p = (case ?m (p - p mod 4) of None \<Rightarrow> 0 | Some v \<Rightarrow> le_bytes 4 v ! nat (p mod 4))" for p
  have "map (\<lambda>k. (uk_off k, uk_offmask k)) (us_keys sel) = map (\<lambda>x. (x, 0)) (map uk_off (us_keys sel))"
    using assms(2) by (auto simp: list_all_iff key_plain_def)
  then have d: "distinct (map uk_off (us_keys sel))" using assms(1) unfolding sel_wf_def by (metis distinct_map)
  have "key_accepts pkt nh k" if k: "k \<in> set (us_keys sel)" for nh k
  proof -
    have "?m (uk_off k) = Some (uk_val k)" using d k by (auto intro!: map_of_is_SomeI simp: comp_def)
    moreover have off: "4 dvd uk_off k" "uk_offmask k = 0" using assms k by (auto simp: sel_wf_def key_wf_def key_plain_def list_all_iff)
    then have "uk_off k + int j - (uk_off k + int j) mod 4 = uk_off k" "nat ((uk_off k + int j) mod 4) = j" if "j < 4" for j
      using that by (auto elim!: dvdE)
    ultimately have "map (\<lambda>j. pkt (uk_off k + int j)) [0..<4] = map (\<lambda>j. le_bytes 4 (uk_val k) ! j) [0..<4]" by (simp add: pkt_def)
    also have "\<dots> = le_bytes 4 (uk_val k)" using map_nth [of "le_bytes 4 (uk_val k)"] by simp
    finally show ?thesis using off(2) by (simp add: key_accepts_def pkt_word_def)
  qed
  then show ?thesis by (auto simp: sel_accepts_def list_all_iff)
qed

section \<open>The selector in memory\<close>

lemma length_key_bytes: "length (key_bytes k) = 16" by (simp add: key_bytes_def)

lemma read_key_bytes: "key_plain k \<Longrightarrow> read_key (key_bytes k @ r) = k"
  by (cases k) (simp add: read_key_def key_bytes_def key_plain_def peek32_def sint_of_int_32)

lemma read_keys:
  "list_all key_plain ks \<Longrightarrow> map (\<lambda>i. read_key (drop (16 * i) (concat (map key_bytes ks) @ r))) [0..<length ks] = ks"
proof (induction ks)
  case (Cons k ks)
  have "map (\<lambda>i. read_key (drop (16 * i) (concat (map key_bytes (k # ks)) @ r))) [0..<length (k # ks)] =
      read_key (key_bytes k @ concat (map key_bytes ks) @ r) #
      map (\<lambda>i. read_key (drop (16 * Suc i) (key_bytes k @ concat (map key_bytes ks) @ r))) [0..<length ks]"
    by (simp add: upt_conv_Cons flip: map_Suc_upt del: upt_Suc)
  also have "\<dots> = k # ks" using Cons by (simp add: read_key_bytes length_key_bytes)
  finally show ?case .
qed simp

lemma length_sel_hdr: "length (sel_hdr s) = 16" by (simp add: sel_hdr_def)

lemma length_sel_bytes: "length (sel_bytes s) = 16 + 16 * length (us_keys s)"
  by (simp add: sel_bytes_def length_sel_hdr length_key_bytes length_concat sum_list_triv comp_def)

lemma read_sel_bytes:
  assumes "list_all key_plain (us_keys s)" "length (us_keys s) \<le> 128"
  shows "read_sel (sel_bytes s @ r) = s"
proof -
  have u: "unat (of_nat (length (us_keys s)) :: u8) = length (us_keys s)" using assms(2) by (intro unat_of_nat_eq) simp
  have "drop (16 + 16 * i) (sel_bytes s @ r) = drop (16 * i) (concat (map key_bytes (us_keys s)) @ r)" for i
    using length_sel_hdr [of s] by (simp add: sel_bytes_def)
  then have "map (\<lambda>i. read_key (drop (16 + 16 * i) (sel_bytes s @ r))) [0..<length (us_keys s)] = us_keys s"
    using read_keys [OF assms(1), of r] by simp
  moreover have "(sel_bytes s @ r) ! 2 = of_nat (length (us_keys s))" by (simp add: sel_bytes_def sel_hdr_def)
  ultimately show ?thesis
    using u by (simp add: read_sel_def, simp add: sel_bytes_def sel_hdr_def peek16_def peek32_def)
qed

section \<open>The message\<close>

lemma empty_sel_ok: "sel_wf empty_sel" "list_all key_plain (us_keys empty_sel)" "sel_accepts pkt nh empty_sel"
  by (simp_all add: sel_wf_def empty_sel_def sel_accepts_def)

text \<open>The whole run on a list of tests: the attribute with the options holds the selector.\<close>

lemma u32_parse_tests:
  assumes "ts \<noteq> []" "list_all test_ok ts" "length ts \<le> k"
    and m: "nl_msg hdr as n" "16384 \<le> length n" "hdr + length (encs as) + 2100 \<le> 16384"
    and sel: "pack_tests ts empty_sel = Some sel" "length (us_keys sel) \<le> 128"
  shows "\<exists>n'. u32_parse_opt env k None (concat (map test_words ts)) n = Some (Ret (Some n')) \<and>
    nl_msg hdr (as @ [(TCA_OPTIONS, encs [(TCA_U32_SEL, sel_bytes sel, [])], [])]) n'"
proof -
  let ?S = "(TCA_U32_SEL, sel_bytes sel, [])"
  have words: "concat (map test_words ts) \<noteq> []" using assms(1) by (cases ts) (simp_all add: test_words_def)
  obtain n1 where n1: "addattr_l n MAX_MSG TCA_OPTIONS [] = (0, n1)" "nl_msg hdr (as @ [(TCA_OPTIONS, [], [])]) n1" "length n1 = length n"
    using add_empty [OF m(1,2), of "[]" TCA_OPTIONS] m(3) by auto
  obtain n2 where n2: "addattr_l n1 MAX_MSG TCA_U32_SEL (sel_bytes sel) = (0, n2)" "nl_msg hdr ((as @ [(TCA_OPTIONS, [], [])]) @ [?S]) n2"
    using add_empty [OF n1(2), of "sel_bytes sel" TCA_U32_SEL] m(2,3) n1(3) sel(2) by (auto simp: length_sel_bytes)
  have m2: "nl_msg hdr (as @ [(TCA_OPTIONS, [], [])] @ [?S]) n2" using n2(2) by simp
  have small: "length ([] :: u8 list) + length (encs [?S]) + 4 < 2 ^ 16" using sel(2) by (simp add: length_sel_bytes)
  note w = widen_msg [OF m2 small]
  let ?n = "poke (hdr + length (encs as)) (le_bytes 2 (of_nat (4 + length ([] :: u8 list) + length (encs [?S])) :: u16)) n2"
  have tail: "NLMSG_TAIL n = hdr + length (encs as)" by (rule NLMSG_TAIL_msg [OF m(1)])
  have "u32_finish (NLMSG_TAIL n) ((u32_start n1)\<lparr>uv_sel := sel, sel_ok := True\<rparr>) = Some ?n"
    using n2(1) w(1) tail by (simp add: u32_finish_def u32_start_def Let_def del: enc.simps encs_simps)
  then have "u32_parse_opt env k None (concat (map test_words ts)) n = Some (Ret (Some ?n))"
    using words u32_args_tests [OF assms(2,3), of env "u32_start n1"] n1(1) sel(1) assms(1)
    by (auto simp: u32_parse_opt_def cthen_def or_fail_def u32_start_def simp del: encs_simps enc.simps)
  moreover have "nl_msg hdr (as @ [(TCA_OPTIONS, encs [?S], [])]) ?n" using w(2) by (simp del: encs_simps enc.simps)
  ultimately show ?thesis by blast
qed

text \<open>
  The u32 filter sends what was asked for. For at most 128 tests of bytes, halfwords and words at
  aligned offsets, \<^verbatim>\<open>u32_parse_opt\<close> packs all tests into one selector, merging those of the same word. If some packet
  passes all tests, the parser of the kernel finds the selector in the message, and the selector accepts
  a packet exactly when it passes all tests. If no packet can pass all tests, the command is refused.
\<close>

theorem u32_tests_compiled:
  assumes "ts \<noteq> []" "list_all test_ok ts" "length ts \<le> 128" "length ts \<le> k"
    and "nl_msg hdr as n" "16384 \<le> length n" "hdr + length (encs as) + 2100 \<le> 16384" "first_attr 2 as = None" "2 \<le> mx"
  shows "if \<exists>pkt. list_all (passes pkt) ts
    then \<exists>n' opt a. u32_parse_opt env k None (concat (map test_words ts)) n = Some (Ret (Some n')) \<and>
      fst (parse_rtattr mx (drop hdr n') (uint (nlmsg_len n') - int hdr)) ! unat TCA_OPTIONS = Some opt \<and>
      parse_rtattr_nested TCA_U32_MAX opt ! unat TCA_U32_SEL = Some a \<and>
      (\<forall>pkt nh. sel_accepts pkt nh (read_sel (RTA_DATA a)) \<longleftrightarrow> list_all (passes pkt) ts)
    else u32_parse_opt env k None (concat (map test_words ts)) n = Some (Ret None)"
proof (cases "pack_tests ts empty_sel")
  case None
  have "\<not> list_all (passes pkt) ts" for pkt
    using pack_tests_none [OF None assms(2) empty_sel_ok(1,2), of pkt] assms(3) empty_sel_ok(3) by (auto simp: empty_sel_def)
  moreover have "u32_parse_opt env k None (concat (map test_words ts)) n = Some (Ret None)"
    using u32_args_tests [OF assms(2,4), of env "u32_start (snd (addattr_l n MAX_MSG TCA_OPTIONS []))"] None assms(1)
    by (cases ts) (simp_all add: u32_parse_opt_def cthen_def or_fail_def u32_start_def test_words_def)
  ultimately show ?thesis by simp
next
  case (Some sel)
  have sem: "sel_wf sel \<and> list_all key_plain (us_keys sel) \<and> (sel_accepts pkt nh sel \<longleftrightarrow> list_all (passes pkt) ts)" for pkt nh
    using pack_tests_some [OF Some assms(2) empty_sel_ok(1,2), of pkt nh] empty_sel_ok(3) by simp
  then have wf: "sel_wf sel" "list_all key_plain (us_keys sel)" "length (us_keys sel) \<le> 128" by (auto simp: sel_wf_def)
  have sat: "\<exists>pkt. list_all (passes pkt) ts" using sel_satisfiable [OF wf(1,2)] sem by blast
  let ?X = "[(TCA_U32_SEL, sel_bytes sel, [])]"
  obtain n' where n': "u32_parse_opt env k None (concat (map test_words ts)) n = Some (Ret (Some n'))"
    "nl_msg hdr (as @ [(TCA_OPTIONS, encs ?X, [])]) n'" using u32_parse_tests [OF assms(1,2,4-7) Some wf(3)] by blast
  have u: "unat TCA_OPTIONS = 2" "unat TCA_U32_SEL = 5" by (simp_all add: TCA_OPTIONS_def TCA_U32_SEL_def)
  have "first_attr 2 (as @ [(TCA_OPTIONS, encs ?X, [])]) = Some (encs ?X)" using assms(8) u(1) by (simp add: first_attr_snoc del: encs_simps)
  then obtain opt rest where opt: "fst (parse_rtattr mx (drop hdr n') (uint (nlmsg_len n') - int hdr)) ! 2 = Some opt"
    "RTA_PAYLOAD opt = int (length (encs ?X))" "RTA_DATA opt = encs ?X @ rest" using msg_attr [OF n'(2) assms(9)] by blast
  have "(4 + length (sel_bytes sel)) mod 4 = 0" by (simp add: length_sel_bytes)
  then have "list_all attr_ok ?X" using wf(3) by (simp add: align4_self length_sel_bytes)
  moreover have "first_attr 5 ?X = Some (sel_bytes sel)" by (simp add: first_attr_def u)
  ultimately obtain a r where a: "parse_rtattr_nested TCA_U32_MAX opt ! 5 = Some a" "RTA_DATA a = sel_bytes sel @ r"
    using parse_rtattr_entry [of ?X 5 TCA_U32_MAX rest] opt(2,3)
    by (auto simp: parse_rtattr_nested_def TCA_U32_MAX_def simp del: encs_simps)
  have "read_sel (RTA_DATA a) = sel" unfolding a(2) by (rule read_sel_bytes [OF wf(2,3)])
  then show ?thesis using sat n'(1) opt(1) a(1) sem u by auto
qed

text \<open>A test under the full mask fixes the bytes of the field.\<close>

lemma field_exact:
  assumes "w \<le> 4" "length bs = w"
  shows "field pkt p w AND mask (8 * w) = of_le_bytes (rev bs) \<longleftrightarrow> map (\<lambda>j. pkt (p + int j)) [0..<w] = bs"
proof -
  have "field pkt p w AND mask (8 * w) = field pkt p w"
    using assms(1) by (intro bit_word_eqI) (auto simp: bit_simps bit_field)
  moreover have "of_le_bytes x = (of_le_bytes y :: u32) \<longleftrightarrow> x = y" if "length x = w" "length y = w" for x y
  proof -
    have "le_bytes w (of_le_bytes x :: u32) = x" "le_bytes w (of_le_bytes y :: u32) = y"
      using le_bytes_of_le_bytes [of x, where 'a = 32] le_bytes_of_le_bytes [of y, where 'a = 32] that assms(1) by simp_all
    then show ?thesis by metis
  qed
  ultimately show ?thesis using assms(2) by (simp add: field_def)
qed

text \<open>The test of the protocol byte of IPv4 for TCP, and of a destination port behind a header without options.\<close>

definition ex_tests :: "u32_test list" where
  "ex_tests = [\<lparr>tst_width = 1, tst_key = 6, tst_mask = 0xFF, tst_off = 9\<rparr>, \<lparr>tst_width = 2, tst_key = 80, tst_mask = 0xFFFF, tst_off = 22\<rparr>]"

definition no_env :: u32_env where
  "no_env = \<lparr>ue_pton6 = \<lambda>_. None, ue_junk = 0, ue_action = \<lambda>_ _. Ret None, ue_police = \<lambda>_ _. Ret None\<rparr>"

lemma ex_tests_pass: "list_all (passes pkt) ex_tests \<longleftrightarrow> pkt 9 = 6 \<and> pkt 22 = 0 \<and> pkt 23 = 80"
proof -
  have "field pkt 9 1 AND 255 = 6 \<longleftrightarrow> pkt 9 = 6" using field_exact [of 1 "[6]" pkt 9] by (simp add: mask_eq_exp_minus_1)
  moreover have "field pkt 22 2 AND 65535 = 80 \<longleftrightarrow> pkt 22 = 0 \<and> pkt 23 = 80"
    using field_exact [of 2 "[0, 80]" pkt 22] by (simp add: mask_eq_exp_minus_1 upt_conv_Cons)
  ultimately show ?thesis by (simp add: ex_tests_def passes_def)
qed

theorem u32_tests_compiled_witness:
  "\<exists>n' opt a. u32_parse_opt no_env 2 None (concat (map test_words ex_tests)) ex_msg = Some (Ret (Some n')) \<and>
     fst (parse_rtattr 4 (drop 20 n') (uint (nlmsg_len n') - 20)) ! unat TCA_OPTIONS = Some opt \<and>
     parse_rtattr_nested TCA_U32_MAX opt ! unat TCA_U32_SEL = Some a \<and>
     (\<forall>pkt nh. sel_accepts pkt nh (read_sel (RTA_DATA a)) \<longleftrightarrow> pkt 9 = 6 \<and> pkt 22 = 0 \<and> pkt 23 = 80)"
proof -
  have ok: "ex_tests \<noteq> []" "list_all test_ok ex_tests" "length ex_tests \<le> 128" "length ex_tests \<le> 2"
    by (simp_all add: ex_tests_def test_ok_def INT_MIN_def INT_MAX_def)
  have msg: "nl_msg 20 [] ex_msg" "16384 \<le> length ex_msg" by (simp_all add: nl_msg_def ex_msg_def nlmsg_len_def peek32_def)
  note p = ex_tests_pass
  define pk :: "int \<Rightarrow> u8" where "pk i = (if i = 9 then 6 else if i = 23 then 80 else 0)" for i
  have "list_all (passes pk) ex_tests" by (simp add: p pk_def)
  then have ex: "\<exists>pkt. list_all (passes pkt) ex_tests" by blast
  from u32_tests_compiled [OF ok msg, of 4 no_env] ex show ?thesis by (simp add: p first_attr_def)
qed

end
