(* ===== verification/F_U32_Module.thy ===== *)
theory F_U32_Module
  imports F_U32_Props
begin

unbundle bit_operations_syntax

text \<open>
  The u32 filter as a module of the tc command: its loop ends, its entry in the table of modules, and the
  attributes of a filter that sends the packets of a list of tests to a class.
\<close>

section \<open>The loop ends\<close>

text \<open>Every parser leaves fewer arguments than it was given.\<close>

lemma after_next_ret: "after_next argv f = Ret x \<Longrightarrow> \<exists>a b r. argv = a # b # r \<and> f (b # r) = Ret x"
  by (auto simp: after_next_def NEXT_ARG_def incomplete_command_def split: cexit.splits list.splits)

lemma or_fail_ret: "or_fail x f = Ret (Some y) \<longleftrightarrow> (\<exists>z. x = Some z \<and> f z = Ret (Some y))"
  by (auto simp: or_fail_def split: option.splits)

lemma cthen_ret: "cthen x f = Ret (Some y) \<longleftrightarrow> (\<exists>z. x = Ret (Some z) \<and> f z = Ret (Some y))"
  by (auto simp: cthen_def or_fail_def split: option.splits cexit.splits)

lemma parse_at_shorter: "parse_at argv m = Ret (Some (a, b, r)) \<Longrightarrow> length r < length argv"
  by (auto simp: parse_at_def or_fail_ret dest!: after_next_ret split: list.splits if_splits)

lemma opt_at_shorter: "opt_at argv off m = Ret (Some (a, b, r)) \<Longrightarrow> length r \<le> length argv"
  by (fastforce simp: opt_at_def dest!: after_next_ret parse_at_shorter split: if_splits)

lemma parse_field_shorter: "parse_field pack bound argv sel off m = Ret (Some (sel', r)) \<Longrightarrow> length r < length argv"
  by (fastforce simp: parse_field_def or_fail_ret cthen_ret dest!: opt_at_shorter split: list.splits if_splits)

lemma parse_addr_shorter:
  "parse_ip_addr pton6 argv sel off = Ret (Some (sel', r)) \<Longrightarrow> length r < length argv"
  "parse_ip6_addr pton6 argv sel off = Ret (Some (sel', r)) \<Longrightarrow> length r < length argv"
  "parse_ether_addr argv sel off = Ret (Some (sel', r)) \<Longrightarrow> length r < length argv"
  "parse_ip6_class argv sel = Ret (Some (sel', r)) \<Longrightarrow> length r < length argv"
  by (fastforce simp: parse_ip_addr_def parse_ip6_addr_def parse_ether_addr_def parse_ip6_class_def Let_def or_fail_ret cthen_ret
      dest!: opt_at_shorter split: list.splits if_splits)+

lemmas parse_uint_shorter = parse_field_shorter [where pack = pack_key8 and bound = "0xFF", folded parse_u8_def]
  parse_field_shorter [where pack = pack_key16 and bound = "-1", folded parse_u16_def]
  parse_field_shorter [where pack = pack_key32 and bound = "-1", folded parse_u32_def]

lemma parse_proto_shorter:
  "parse_ether argv sel = Ret (Some (sel', r)) \<Longrightarrow> length r < length argv"
  "parse_udp argv sel = Ret (Some (sel', r)) \<Longrightarrow> length r < length argv"
  "parse_icmp argv sel = Ret (Some (sel', r)) \<Longrightarrow> length r < length argv"
  by (auto simp: parse_ether_def parse_udp_def parse_icmp_def
      dest!: after_next_ret parse_addr_shorter parse_uint_shorter split: if_splits)

lemma parse_ip_shorter: "parse_ip pton6 argv sel = Ret (Some (sel', r)) \<Longrightarrow> length r < length argv"
  by (auto simp: parse_ip_def Let_def or_fail_ret dest!: after_next_ret parse_addr_shorter parse_uint_shorter split: if_splits)

lemma parse_ip6_shorter: "parse_ip6 pton6 argv sel = Ret (Some (sel', r)) \<Longrightarrow> length r < length argv"
  by (auto simp: parse_ip6_def Let_def or_fail_ret dest!: after_next_ret parse_addr_shorter parse_uint_shorter split: if_splits)

lemma parse_mark_shorter: "parse_mark j argv n = Ret (Some (n', r)) \<Longrightarrow> length r < length argv"
  by (auto simp: parse_mark_def or_fail_ret dest!: after_next_ret split: if_splits)

lemma keep_msg_ret: "keep_msg n x = Ret (Some (sel, m, r)) \<Longrightarrow> m = n \<and> x = Ret (Some (sel, r))"
  by (auto simp: keep_msg_def cthen_ret)

lemma parse_selector_shorter: "parse_selector env argv sel n = Ret (Some (sel', n', r)) \<Longrightarrow> length r < length argv"
  by (auto simp: parse_selector_def cthen_ret split: list.splits if_splits
      dest!: after_next_ret keep_msg_ret parse_proto_shorter parse_ip_shorter parse_ip6_shorter parse_mark_shorter parse_uint_shorter)

lemma parse_offset_shorter: "parse_offset argv sel = Ret (Some (sel', r)) \<Longrightarrow> length r \<le> length argv"
  by (induction argv sel rule: parse_offset.induct) (force simp: incomplete_command_def split: if_splits list.splits option.splits)+

lemma parse_hashkey_shorter: "parse_hashkey argv sel = Ret (Some (sel', r)) \<Longrightarrow> length r \<le> length argv"
  by (induction argv sel rule: parse_hashkey.induct) (force simp: incomplete_command_def split: if_splits list.splits option.splits)+

lemma u32_sample_shorter: "u32_sample env argv v = Ret (Some (v', r)) \<Longrightarrow> length r < length argv"
  by (fastforce simp: u32_sample_def cthen_ret or_fail_ret dest!: after_next_ret parse_selector_shorter split: if_splits)

definition args_shorter :: "(string list \<Rightarrow> u8 list \<Rightarrow> (u8 list \<times> string list) option cexit) \<Rightarrow> bool" where
  "args_shorter p \<longleftrightarrow> (\<forall>argv n n' r. p argv n = Ret (Some (n', r)) \<longrightarrow> length r \<le> length argv)"

lemma u32_arg_shorter:
  assumes "args_shorter (ue_action env)" "args_shorter (ue_police env)" "u32_arg env argv v = Ret (Some (v', r))" "argv \<noteq> []"
  shows "length r < length argv"
proof -
  have a: "ue_action env argv' n = Ret (Some (n', r')) \<Longrightarrow> length r' < Suc (length argv')"
    "ue_police env argv' n = Ret (Some (n', r')) \<Longrightarrow> length r' < Suc (length argv')" for argv' n n' r'
    using assms(1,2) unfolding args_shorter_def by (auto simp: less_Suc_eq_le)
  obtain w ws where argv: "argv = w # ws" using assms(4) by (cases argv) auto
  show ?thesis
    using assms(3) unfolding argv
    by (auto simp: u32_arg_def Let_def cthen_ret or_fail_ret split: if_splits list.splits
       dest!: after_next_ret parse_selector_shorter parse_offset_shorter parse_hashkey_shorter u32_sample_shorter a
       simp del: parse_offset.simps(2) parse_hashkey.simps(2))
qed

lemma u32_args_enough:
  assumes "args_shorter (ue_action env)" "args_shorter (ue_police env)" "length argv \<le> k"
  shows "u32_args env k argv v \<noteq> None"
  using assms
proof (induction env k argv v rule: u32_args.induct)
  case (3 env k a r v)
  show ?case
  proof (cases "u32_arg env (a # r) v")
    case (Ret x)
    show ?thesis
    proof (cases x)
      case (Some p)
      then obtain v1 r1 where x: "x = Some (v1, r1)" by (cases p) auto
      then have "length r1 \<le> k" using u32_arg_shorter [OF 3(2,3), of "a # r" v v1 r1] Ret 3(4) by simp
      then show ?thesis using 3(1) [OF Ret x] 3(2,3) Ret x by simp
    qed (use Ret in simp)
  qed simp
qed simp_all


text \<open>\<open>u32_filter_util\<close>: as much fuel as there are arguments; return codes as numbers.\<close>

definition u32_parse_fopt :: "u32_env \<Rightarrow> string option \<Rightarrow> string list \<Rightarrow> u8 list \<Rightarrow> (int \<times> u8 list) cexit option" where
  "u32_parse_fopt env handle argv n =
     (case u32_parse_opt env (length argv) handle argv n of
        None \<Rightarrow> None
      | Some (Exit e) \<Rightarrow> Some (Exit e)
      | Some (Ret None) \<Rightarrow> Some (Ret (-1, n))
      | Some (Ret (Some n1)) \<Rightarrow> Some (Ret (0, n1)))"

definition u32_print_fopt :: "u32_show \<Rightarrow> print_globals \<Rightarrow> u8 list option \<Rightarrow> u32 \<Rightarrow> (int \<times> string) option" where
  "u32_print_fopt sh pg opt handle =
     Some (u32_print_opt (sh\<lparr>ush_pretty := pg_pretty pg \<noteq> 0, ush_raw := pg_raw pg \<noteq> 0, ush_stats := pg_stats pg \<noteq> 0,
                              ush_proto := pg_proto pg\<rparr>) opt handle)"

definition u32_filter_util :: "u32_env \<Rightarrow> u32_show \<Rightarrow> filter_util" where
  "u32_filter_util env sh = \<lparr>fu_id = ''u32'', fu_parse_fopt = u32_parse_fopt env, fu_print_fopt = u32_print_fopt sh\<rparr>"

lemma u32_parse_ends:
  assumes "args_shorter (ue_action env)" "args_shorter (ue_police env)"
  shows "u32_parse_fopt env handle argv n \<noteq> None"
  using u32_args_enough [OF assms, of argv "length argv"]
  by (auto simp: u32_parse_fopt_def u32_parse_opt_def split: option.splits cexit.splits)

section \<open>A filter with a class\<close>

lemma u32_args_more:
  assumes "list_all test_ok ts"
  shows "u32_args env (length ts + k) (concat (map test_words ts) @ r) v =
    (case pack_tests ts (uv_sel v) of
       None \<Rightarrow> Some (Ret None)
     | Some sel \<Rightarrow> u32_args env k r (v\<lparr>uv_sel := sel, sel_ok := sel_ok v \<or> ts \<noteq> []\<rparr>))"
  using assms
proof (induction ts arbitrary: v)
  case (Cons t ts)
  obtain a ws where w: "test_words t = a # ws" by (simp add: test_words_def)
  have "u32_args env (length (t # ts) + k) (concat (map test_words (t # ts)) @ r) v =
      (case u32_arg env (test_words t @ concat (map test_words ts) @ r) v of
         Exit e \<Rightarrow> Some (Exit e) | Ret None \<Rightarrow> Some (Ret None) | Ret (Some (v1, r1)) \<Rightarrow> u32_args env (length ts + k) r1 v1)"
    by (simp add: w)
  then show ?case using Cons by (simp add: u32_arg_test split: option.splits)
qed simp

lemma u32_args_flowid:
  assumes "get_tc_classid ct = Some c"
  shows "u32_args env (Suc k) [''flowid'', ct] v = Some (Ret (Some (or_flags TC_U32_TERMINAL (add_u32 TCA_U32_CLASSID c v))))"
  using assms by (simp add: u32_arg_def matches_0_iff after_next_def NEXT_ARG_def or_fail_def)

lemma u32_args_classify:
  assumes "list_all test_ok ts" "ts \<noteq> []" "get_tc_classid ct = Some c" "length ts < k"
  shows "u32_args env k (concat (map test_words ts) @ [''flowid'', ct]) v = Some (Ret (map_option (\<lambda>sel.
      or_flags TC_U32_TERMINAL (add_u32 TCA_U32_CLASSID c (v\<lparr>uv_sel := sel, sel_ok := True\<rparr>))) (pack_tests ts (uv_sel v))))"
proof -
  have "k = length ts + Suc (k - Suc (length ts))" using assms(4) by simp
  then show ?thesis using assms(2) u32_args_more [OF assms(1), of env "Suc (k - Suc (length ts))" "[''flowid'', ct]" v]
    by (simp add: u32_args_flowid [OF assms(3)] del: u32_args.simps split: option.split)
qed

lemma test_words_many: "length ts \<le> length (concat (map test_words ts))"
  by (induction ts) (simp_all add: test_words_def)

lemma poke_behind:
  assumes "hdr \<le> off" "off + length bs \<le> length n"
  shows "take (hdr - 4) (drop 4 (poke off bs n)) = take (hdr - 4) (drop 4 n)"
  using assms by (auto simp: poke_def drop_take)

lemma pack_tests_flags: "pack_tests ts sel = Some sel' \<Longrightarrow> us_flags sel' = us_flags sel"
proof (induction ts arbitrary: sel)
  case (Cons t ts)
  have "us_flags sel1 = us_flags sel" if "pack_test t sel = Some sel1" for sel1
    using that by (auto simp: pack_test_def pack_key8_def pack_key16_def pack_key32_def pack_key_def Let_def split: if_splits option.splits)
  then show ?case using Cons by (auto simp: bind_eq_Some_conv)
qed simp

text \<open>The attributes inside the options: the class, then the selector, marked as final.\<close>

definition classify_attrs :: "u32 \<Rightarrow> tc_u32_sel \<Rightarrow> (u16 \<times> u8 list \<times> u8 list) list" where
  "classify_attrs c sel = [(TCA_U32_CLASSID, le_bytes 4 c, []), (TCA_U32_SEL, sel_bytes (sel\<lparr>us_flags := TC_U32_TERMINAL\<rparr>), [])]"

lemma length_classify: "length (encs (classify_attrs c sel)) = 28 + 16 * length (us_keys sel)"
  by (simp add: classify_attrs_def length_sel_bytes)

lemma u32_parse_classify:
  assumes "ts \<noteq> []" "list_all test_ok ts" "get_tc_classid ct = Some c"
    and m: "nl_msg hdr as n" "16384 \<le> length n" "hdr + length (encs as) + 2100 \<le> 16384"
    and sel: "pack_tests ts empty_sel = Some sel" "length (us_keys sel) \<le> 128"
  shows "\<exists>n'. u32_parse_fopt env None (concat (map test_words ts) @ [''flowid'', ct]) n = Some (Ret (0, n')) \<and>
    nl_msg hdr (as @ [(TCA_OPTIONS, encs (classify_attrs c sel), [])]) n' \<and> length n' = length n \<and>
    take (hdr - 4) (drop 4 n') = take (hdr - 4) (drop 4 n)"
proof -
  let ?words = "concat (map test_words ts) @ [''flowid'', ct]"
  let ?sel = "sel\<lparr>us_flags := TC_U32_TERMINAL\<rparr>"
  let ?C = "(TCA_U32_CLASSID, le_bytes 4 c, [])" and ?S = "(TCA_U32_SEL, sel_bytes ?sel, [])" and ?O = "(TCA_OPTIONS, [], [])"
  have k: "length ts < length ?words" using test_words_many [of ts] by simp
  have f: "us_flags sel = 0" using pack_tests_flags [OF sel(1)] by (simp add: empty_sel_def)
  obtain n1 where n1: "addattr_l n MAX_MSG TCA_OPTIONS [] = (0, n1)" "nl_msg hdr (as @ [?O]) n1" "length n1 = length n"
    "take (hdr - 4) (drop 4 n1) = take (hdr - 4) (drop 4 n)"
    using add_empty [OF m(1,2), of "[]" TCA_OPTIONS] m(3) by auto
  obtain n2 where n2: "addattr_l n1 MAX_MSG TCA_U32_CLASSID (le_bytes 4 c) = (0, n2)" "nl_msg hdr ((as @ [?O]) @ [?C]) n2"
    "length n2 = length n1" "take (hdr - 4) (drop 4 n2) = take (hdr - 4) (drop 4 n1)"
    using add_empty [OF n1(2), of "le_bytes 4 c" TCA_U32_CLASSID] m(2,3) n1(3) by auto
  obtain n3 where n3: "addattr_l n2 MAX_MSG TCA_U32_SEL (sel_bytes ?sel) = (0, n3)" "nl_msg hdr (((as @ [?O]) @ [?C]) @ [?S]) n3"
    "length n3 = length n2" "take (hdr - 4) (drop 4 n3) = take (hdr - 4) (drop 4 n2)"
    using add_empty [OF n2(2), of "sel_bytes ?sel" TCA_U32_SEL] m(2,3) n1(3) n2(3) sel(2) by (auto simp: length_sel_bytes)
  have m3: "nl_msg hdr (as @ [?O] @ classify_attrs c sel) n3" using n3(2) by (simp add: classify_attrs_def)
  have small: "length ([] :: u8 list) + length (encs (classify_attrs c sel)) + 4 < 2 ^ 16" using sel(2) by (simp add: length_classify)
  note w = widen_msg [OF m3 small]
  let ?L = "of_nat (4 + length ([] :: u8 list) + length (encs (classify_attrs c sel))) :: u16"
  let ?n = "poke (hdr + length (encs as)) (le_bytes 2 ?L) n3"
  have tail: "NLMSG_TAIL n = hdr + length (encs as)" by (rule NLMSG_TAIL_msg [OF m(1)])
  have room: "hdr + length (encs as) + length (le_bytes 2 ?L) \<le> length n3" using m(2,3) n1(3) n2(3) n3(3) by simp
  have "u32_finish (NLMSG_TAIL n) (or_flags TC_U32_TERMINAL (add_u32 TCA_U32_CLASSID c ((u32_start n1)\<lparr>uv_sel := sel, sel_ok := True\<rparr>))) = Some ?n"
    using n2(1) n3(1) w(1) tail f by (simp add: u32_finish_def u32_start_def or_flags_def add_u32_def Let_def del: enc.simps encs_simps)
  then have "u32_parse_fopt env None ?words n = Some (Ret (0, ?n))"
    using u32_args_classify [OF assms(2,1,3) k, of env "u32_start n1"] n1(1) sel(1)
    by (simp add: u32_parse_fopt_def u32_parse_opt_def cthen_def or_fail_def u32_start_def del: encs_simps enc.simps)
  moreover have "nl_msg hdr (as @ [(TCA_OPTIONS, encs (classify_attrs c sel), [])]) ?n" using w(2) by simp
  moreover have "length ?n = length n" using length_poke [OF room] n1(3) n2(3) n3(3) by simp
  moreover have "take (hdr - 4) (drop 4 ?n) = take (hdr - 4) (drop 4 n)"
    using poke_behind [OF _ room, of hdr] n1(4) n2(4) n3(4) by simp
  ultimately show ?thesis by blast
qed

lemma u32_refuses_classify:
  assumes "ts \<noteq> []" "list_all test_ok ts" "get_tc_classid ct = Some c" "pack_tests ts empty_sel = None"
  shows "u32_parse_fopt env None (concat (map test_words ts) @ [''flowid'', ct]) n = Some (Ret (-1, n))"
proof -
  let ?words = "concat (map test_words ts) @ [''flowid'', ct]"
  have "length ts < length ?words" using test_words_many [of ts] by simp
  from u32_args_classify [OF assms(2,1,3) this, of env "u32_start (snd (addattr_l n MAX_MSG TCA_OPTIONS []))"] assms(4)
  show ?thesis by (simp add: u32_parse_fopt_def u32_parse_opt_def cthen_def or_fail_def u32_start_def)
qed

end
