(* ===== verification/F_Common.thy ===== *)
theory F_Common
  imports F_U32_Module
begin

unbundle bit_operations_syntax

text \<open>
  What the modules of the simple filters share: the loop over the arguments, in which the parsers of policers and
  actions, which are not modelled, take a part of the arguments, and the attribute with the options around it.
\<close>

section \<open>Parameters\<close>

text \<open>\<^verbatim>\<open>parse_police\<close>, \<^verbatim>\<open>parse_action\<close> and their printers; the parsers are given the type of the attribute.\<close>

record filter_ext =
  fx_police :: "u16 \<Rightarrow> string list \<Rightarrow> u8 list \<Rightarrow> (u8 list \<times> string list) option cexit"
  fx_action :: "u16 \<Rightarrow> string list \<Rightarrow> u8 list \<Rightarrow> (u8 list \<times> string list) option cexit"
  fx_print_police :: "u8 list \<Rightarrow> string"
  fx_print_action :: "u8 list \<Rightarrow> string"

definition ext_ok :: "filter_ext \<Rightarrow> bool" where
  "ext_ok fx \<longleftrightarrow> (\<forall>t. args_shorter (fx_police fx t) \<and> args_shorter (fx_action fx t))"

definition no_ext :: filter_ext where
  "no_ext = \<lparr>fx_police = (\<lambda>_ _ _. Ret None), fx_action = (\<lambda>_ _ _. Ret None), fx_print_police = (\<lambda>_. []), fx_print_action = (\<lambda>_. [])\<rparr>"

lemma no_ext_ok: "ext_ok no_ext"
  by (simp add: ext_ok_def no_ext_def args_shorter_def)

section \<open>The loop\<close>

text \<open>One pass gives the message and the arguments that are left; \<open>None\<close> means that the fuel was not enough.\<close>

type_synonym arg_step = "string list \<Rightarrow> u8 list \<Rightarrow> (u8 list \<times> string list) option cexit"

fun arg_loop :: "arg_step \<Rightarrow> nat \<Rightarrow> string list \<Rightarrow> u8 list \<Rightarrow> u8 list option cexit option" where
  "arg_loop pass k [] n = Some (Ret (Some n))"
| "arg_loop pass 0 (a # r) n = None"
| "arg_loop pass (Suc k) (a # r) n =
     (case pass (a # r) n of
        Exit e \<Rightarrow> Some (Exit e)
      | Ret None \<Rightarrow> Some (Ret None)
      | Ret (Some (n1, r1)) \<Rightarrow> arg_loop pass k r1 n1)"

text \<open>The end of the attribute with the options: its length is stored.\<close>

definition close_options :: "u8 list \<Rightarrow> u8 list option cexit option \<Rightarrow> (int \<times> u8 list) cexit option" where
  "close_options n x =
     (case x of
        None \<Rightarrow> None
      | Some (Exit e) \<Rightarrow> Some (Exit e)
      | Some (Ret None) \<Rightarrow> Some (Ret (-1, n))
      | Some (Ret (Some n1)) \<Rightarrow>
          Some (Ret (0, poke (NLMSG_TAIL n) (le_bytes 2 (of_int (int (NLMSG_TAIL n1) - int (NLMSG_TAIL n)) :: u16)) n1)))"

text \<open>The options: an empty attribute, the loop, and the length of the attribute at the end.\<close>

definition in_options :: "arg_step \<Rightarrow> u32 \<Rightarrow> (u8 list \<Rightarrow> u8 list) \<Rightarrow> string list \<Rightarrow> u8 list \<Rightarrow> (int \<times> u8 list) cexit option" where
  "in_options pass maxlen first argv n =
     close_options n (arg_loop pass (length argv) argv (first (snd (addattr_l n maxlen TCA_OPTIONS []))))"

text \<open>A pass that takes at least one argument; \<open>ok\<close> is what it needs of its parameters.\<close>

locale consuming =
  fixes pass :: "'p \<Rightarrow> arg_step" and ok :: "'p \<Rightarrow> bool"
  assumes pass_shorter: "ok p \<Longrightarrow> pass p (a # r) n = Ret (Some (n', r')) \<Longrightarrow> length r' \<le> length r"
begin

lemma loop_ends: "ok p \<Longrightarrow> length argv \<le> k \<Longrightarrow> arg_loop (pass p) k argv n \<noteq> None"
proof (induction k arbitrary: argv n)
  case (Suc k)
  show ?case
  proof (cases argv)
    case (Cons a r)
    have "arg_loop (pass p) k r' n' \<noteq> None" if "pass p (a # r) n = Ret (Some (n', r'))" for n' r'
      using Suc pass_shorter [OF Suc.prems(1) that] Cons by simp
    then show ?thesis using Cons by (auto split: cexit.split option.split)
  qed simp
qed simp

lemma options_end: "ok p \<Longrightarrow> \<exists>y. in_options (pass p) maxlen first argv n = Some y"
  using loop_ends [of p argv "length argv"] by (fastforce simp: in_options_def close_options_def split: option.splits cexit.splits)

end

text \<open>Attributes of four bytes, added by a pass.\<close>

definition put32 :: "u32 \<Rightarrow> u16 \<Rightarrow> u32 \<Rightarrow> string list \<Rightarrow> u8 list \<Rightarrow> (u8 list \<times> string list) option cexit" where
  "put32 maxlen type v r n = Ret (Some (snd (addattr_l n maxlen type (le_bytes 4 v)), r))"

lemma put32_ret: "put32 maxlen type v r n = Ret (Some (n', r')) \<longleftrightarrow> r' = r \<and> n' = snd (addattr_l n maxlen type (le_bytes 4 v))"
  by (auto simp: put32_def)

lemma ext_shorter:
  assumes "ext_ok fx" "fx_police fx t argv n = Ret (Some (n', r)) \<or> fx_action fx t argv n = Ret (Some (n', r))"
  shows "length r \<le> length argv"
  using assms unfolding ext_ok_def args_shorter_def by blast

section \<open>The message of a loop\<close>

text \<open>A message grows by attributes; the header and the length of the buffer stay.\<close>

definition grown :: "nat \<Rightarrow> u8 list \<Rightarrow> (u16 \<times> u8 list \<times> u8 list) list \<Rightarrow> u8 list \<Rightarrow> bool" where
  "grown hdr n as n' \<longleftrightarrow> nl_msg hdr as n' \<and> length n' = length n \<and> take (hdr - 4) (drop 4 n') = take (hdr - 4) (drop 4 n)"

lemma add_grown:
  assumes "grown hdr n as n1" "unat maxlen \<le> length n" "hdr + length (encs as) + 4 + length d \<le> unat maxlen" "4 dvd length d" "length d < 60000"
  shows "grown hdr n (as @ [(t, d, [])]) (snd (addattr_l n1 maxlen t d))"
proof -
  have g: "nl_msg hdr as n1" "length n1 = length n" "take (hdr - 4) (drop 4 n1) = take (hdr - 4) (drop 4 n)"
    using assms(1) by (simp_all add: grown_def)
  have "(4 + length d) mod 4 = 0" using assms(4) by (simp add: mod_eq_0_iff_dvd)
  note al = align4_self [OF this]
  obtain p n' where n': "addattr_l n1 maxlen t d = (0, n')" "nl_msg hdr (as @ [(t, d, p)]) n'" "length n' = length n1"
    "take (hdr - 4) (drop 4 n') = take (hdr - 4) (drop 4 n1)"
    using addattr_l_msg(2) [OF g(1), of d maxlen t] assms(2,3,5) g(2) al by auto
  have "p = []" using n'(2) al by (simp add: nl_msg_def)
  then show ?thesis using n' g by (simp add: grown_def)
qed

lemma open_grown:
  assumes "nl_msg hdr as n" "unat maxlen \<le> length n" "hdr + length (encs as) + 4 \<le> unat maxlen"
  shows "grown hdr n (as @ [(TCA_OPTIONS, [], [])]) (snd (addattr_l n maxlen TCA_OPTIONS []))"
proof -
  have "grown hdr n as n" using assms(1) by (simp add: grown_def)
  from add_grown [OF this assms(2), of "[]"] assms(3) show ?thesis by simp
qed

lemma close_grown:
  assumes n: "nl_msg hdr as n" "length (encs bs) < 60000" and n1: "grown hdr n (as @ [(TCA_OPTIONS, [], [])] @ bs) n1"
  shows "\<exists>n'. close_options n (Some (Ret (Some n1))) = Some (Ret (0, n')) \<and> grown hdr n (as @ [(TCA_OPTIONS, encs bs, [])]) n'"
proof -
  have small: "length ([] :: u8 list) + length (encs bs) + 4 < 2 ^ 16" using n(2) by simp
  have m: "nl_msg hdr (as @ [(TCA_OPTIONS, [], [])] @ bs) n1" using n1 by (simp add: grown_def)
  note w = widen_msg [OF m small]
  have tail: "NLMSG_TAIL n = hdr + length (encs as)" by (rule NLMSG_TAIL_msg [OF n(1)])
  let ?L = "of_nat (4 + length ([] :: u8 list) + length (encs bs)) :: u16"
  let ?n = "poke (hdr + length (encs as)) (le_bytes 2 ?L) n1"
  have room: "hdr + length (encs as) + length (le_bytes 2 ?L) \<le> length n1" using m by (simp add: nl_msg_def)
  have "close_options n (Some (Ret (Some n1))) = Some (Ret (0, ?n))" using w(1) tail by (simp add: close_options_def)
  moreover have "grown hdr n (as @ [(TCA_OPTIONS, encs bs, [])]) ?n"
    using w(2) length_poke [OF room] poke_behind [OF _ room, of hdr] n1 by (simp add: grown_def)
  ultimately show ?thesis by blast
qed

lemma in_options_msg:
  assumes n: "nl_msg hdr as n" "unat maxlen \<le> length n" "hdr + length (encs as) + 4 \<le> unat maxlen" "length (encs bs) < 60000"
    and loop: "\<And>n0. grown hdr n (as @ [(TCA_OPTIONS, [], [])]) n0 \<Longrightarrow>
      \<exists>n1. arg_loop pass (length argv) argv (first n0) = Some (Ret (Some n1)) \<and> grown hdr n (as @ [(TCA_OPTIONS, [], [])] @ bs) n1"
  shows "\<exists>n'. in_options pass maxlen first argv n = Some (Ret (0, n')) \<and> grown hdr n (as @ [(TCA_OPTIONS, encs bs, [])]) n'"
proof -
  obtain n1 where "arg_loop pass (length argv) argv (first (snd (addattr_l n maxlen TCA_OPTIONS []))) = Some (Ret (Some n1))"
    "grown hdr n (as @ [(TCA_OPTIONS, [], [])] @ bs) n1" using loop [OF open_grown [OF n(1-3)]] by blast
  then show ?thesis using close_grown [OF n(1,4)] by (simp add: in_options_def)
qed

text \<open>What the kernel and the printer find inside the options.\<close>

lemma options_read:
  assumes "nl_msg hdr (as @ [(TCA_OPTIONS, encs bs, [])]) n" "first_attr 2 as = None" "2 \<le> mx" "list_all attr_ok bs"
  shows "\<exists>opt. fst (parse_rtattr mx (drop hdr n) (uint (nlmsg_len n) - int hdr)) ! unat TCA_OPTIONS = Some opt \<and>
    (\<forall>u \<le> m. case first_attr u bs of
        None \<Rightarrow> parse_rtattr_nested m opt ! u = None
      | Some d \<Rightarrow> \<exists>a r. parse_rtattr_nested m opt ! u = Some a \<and> RTA_DATA a = d @ r \<and> RTA_PAYLOAD a = int (length d))"
proof -
  have u: "unat TCA_OPTIONS = 2" by (simp add: TCA_OPTIONS_def)
  have "first_attr 2 (as @ [(TCA_OPTIONS, encs bs, [])]) = Some (encs bs)" using assms(2) u by (simp add: first_attr_snoc)
  then obtain opt rest where opt: "fst (parse_rtattr mx (drop hdr n) (uint (nlmsg_len n) - int hdr)) ! 2 = Some opt"
    "RTA_PAYLOAD opt = int (length (encs bs))" "RTA_DATA opt = encs bs @ rest" using msg_attr [OF assms(1,3)] by blast
  have "case first_attr v bs of
      None \<Rightarrow> parse_rtattr_nested m opt ! v = None
    | Some d \<Rightarrow> \<exists>a r. parse_rtattr_nested m opt ! v = Some a \<and> RTA_DATA a = d @ r \<and> RTA_PAYLOAD a = int (length d)" if "v \<le> m" for v
    using parse_rtattr_entry [OF assms(4) that, of rest] opt(2,3) by (auto simp: parse_rtattr_nested_def split: option.splits)
  then show ?thesis using opt(1) u by auto
qed

end
