(* ===== verification/Q_Prio.thy ===== *)
theory Q_Prio
  imports Tc_Qdisc
begin

text \<open>
  The modules of the priority disciplines of the tc command (\<^verbatim>\<open>q_prio.c\<close> and \<^verbatim>\<open>q_rr.c\<close>), which share
  their options: a number of bands and a map from the sixteen priorities to bands.
\<close>

section \<open>Options\<close>

definition TC_PRIO_MAX :: nat where "TC_PRIO_MAX = 15"
definition TCA_PRIO_MQ :: u16 where "TCA_PRIO_MQ = 1"
definition TCA_PRIO_MAX :: nat where "TCA_PRIO_MAX = 1"

record tc_prio_qopt =
  po_bands :: int
  po_priomap :: "u8 list"

text \<open>The structure in memory, 20 bytes.\<close>

definition prio_bytes :: "tc_prio_qopt \<Rightarrow> u8 list" where
  "prio_bytes q = le_bytes 4 (of_int (po_bands q) :: u32) @ po_priomap q"

definition read_prio :: "u8 list \<Rightarrow> tc_prio_qopt" where
  "read_prio bs = \<lparr>po_bands = sint (of_le_bytes (take 4 bs) :: u32), po_priomap = take (TC_PRIO_MAX + 1) (drop 4 bs)\<rparr>"

definition default_prio :: tc_prio_qopt where
  "default_prio = \<lparr>po_bands = 3, po_priomap = [1, 2, 2, 2, 1, 2, 0, 0, 1, 1, 1, 1, 1, 1, 1, 1]\<rparr>"

text \<open>The local variables of the parsers.\<close>

record prio_locals =
  pmap_mode :: bool
  pmap_idx :: nat
  prio_opt :: tc_prio_qopt
  prio_mq :: bool

definition prio_start :: prio_locals where
  "prio_start = \<lparr>pmap_mode = False, pmap_idx = 0, prio_opt = default_prio, prio_mq = False\<rparr>"

text \<open>
  The loop over the arguments, the same in both modules but for the test \<open>out\<close> of a band against
  the number of bands; both operands are unsigned in it. A band is stored in eight bits.
\<close>

fun prio_args :: "(u32 \<Rightarrow> u32 \<Rightarrow> bool) \<Rightarrow> string list \<Rightarrow> prio_locals \<Rightarrow> (int + prio_locals) cexit" where
  "prio_args out [] s = Ret (Inr s)"
| "prio_args out (a # r) s =
     (if a = ''bands'' then
        (case r of
           [] \<Rightarrow> incomplete_command
         | v # r' \<Rightarrow>
             (case get_integer v 10 of
                None \<Rightarrow> Ret (Inl (-1))
              | Some b \<Rightarrow> prio_args out r' (s\<lparr>prio_opt := (prio_opt s)\<lparr>po_bands := b\<rparr>\<rparr>)))
      else if a = ''priomap'' then
        if pmap_mode s then Ret (Inl (-1)) else prio_args out r (s\<lparr>pmap_mode := True\<rparr>)
      else if a = ''multiqueue'' then prio_args out r (s\<lparr>prio_mq := True\<rparr>)
      else if a = ''help'' then Ret (Inl (-1))
      else if \<not> pmap_mode s then Ret (Inl (-1))
      else
        (case get_unsigned a 10 of
           None \<Rightarrow> Ret (Inl (-1))
         | Some band \<Rightarrow>
             if out band (of_int (po_bands (prio_opt s))) then Ret (Inl (-1))
             else if pmap_idx s > TC_PRIO_MAX then Ret (Inl (-1))
             else prio_args out r
               (s\<lparr>prio_opt := (prio_opt s)\<lparr>po_priomap := (po_priomap (prio_opt s))[pmap_idx s := ucast band]\<rparr>,
                  pmap_idx := pmap_idx s + 1\<rparr>)))"

text \<open>The message; the return codes of the calls that add attributes are not looked at.\<close>

definition prio_message :: "tc_prio_qopt \<Rightarrow> bool \<Rightarrow> u8 list \<Rightarrow> u8 list" where
  "prio_message opt mq n =
     (let (nest, n1) = addattr_nest_compat n 1024 TCA_OPTIONS (prio_bytes opt);
          n2 = (if mq then snd (addattr_l n1 1024 TCA_PRIO_MQ []) else n1)
      in snd (addattr_nest_compat_end n2 nest))"

definition parse_prio_opt :: "(u32 \<Rightarrow> u32 \<Rightarrow> bool) \<Rightarrow> string list \<Rightarrow> u8 list \<Rightarrow> (int \<times> u8 list) cexit option" where
  "parse_prio_opt out argv n =
     (case prio_args out argv prio_start of
        Exit e \<Rightarrow> Some (Exit e)
      | Ret (Inl rc) \<Rightarrow> Some (Ret (rc, n))
      | Ret (Inr s) \<Rightarrow> Some (Ret (0, prio_message (prio_opt s) (prio_mq s) n)))"

definition prio_parse_opt :: "string list \<Rightarrow> u8 list \<Rightarrow> (int \<times> u8 list) cexit option" where
  "prio_parse_opt = parse_prio_opt (\<lambda>band bands. band \<ge> bands)"

definition rr_parse_opt :: "string list \<Rightarrow> u8 list \<Rightarrow> (int \<times> u8 list) cexit option" where
  "rr_parse_opt = parse_prio_opt (\<lambda>band bands. band > bands)"

definition prio_text :: "tc_prio_qopt \<Rightarrow> string" where
  "prio_text q =
     ''bands '' @ fmt_u (of_int (po_bands q) :: u32) @ '' priomap '' @
     concat (map (\<lambda>b. '' '' @ fmt_u b) (po_priomap q))"

definition prio_print_opt :: "u8 list option \<Rightarrow> (int \<times> string) option" where
  "prio_print_opt opt =
     (case opt of
        None \<Rightarrow> Some (0, [])
      | Some rta \<Rightarrow>
          (case parse_rtattr_nested_compat TCA_PRIO_MAX rta 20 of
             None \<Rightarrow> Some (-1, [])
           | Some tb \<Rightarrow>
               Some (0, prio_text (read_prio (take 20 (RTA_DATA rta))) @
                 (case tb ! unat TCA_PRIO_MQ of
                    None \<Rightarrow> []
                  | Some a \<Rightarrow> '' multiqueue: '' @ (if rta_getattr_u8 a \<noteq> 0 then ''on'' else ''off'') @ '' ''))))"

definition rr_print_opt :: "u8 list option \<Rightarrow> (int \<times> string) option" where
  "rr_print_opt = prio_print_opt"

definition prio_qdisc_util :: qdisc_util where
  "prio_qdisc_util =
     \<lparr>qu_id = ''prio'', qu_parse_qopt = Some prio_parse_opt, qu_print_qopt = prio_print_opt,
      qu_print_xstats = None, qu_parse_copt = None, qu_print_copt = None\<rparr>"

definition rr_qdisc_util :: qdisc_util where
  "rr_qdisc_util =
     \<lparr>qu_id = ''rr'', qu_parse_qopt = Some rr_parse_opt, qu_print_qopt = rr_print_opt,
      qu_print_xstats = None, qu_parse_copt = None, qu_print_copt = None\<rparr>"

section \<open>The message\<close>

lemma read_prio_bytes:
  assumes "INT_MIN \<le> po_bands q" "po_bands q \<le> INT_MAX" "length (po_priomap q) = 16"
  shows "read_prio (prio_bytes q) = q"
  using assms sint_of_int_32 [OF assms(1,2)] by (cases q) (simp add: read_prio_def prio_bytes_def TC_PRIO_MAX_def)

lemma prio_message_msg:
  assumes "nl_msg hdr as n" "hdr + length (encs as) + 32 \<le> 1024" "1024 \<le> length n" "length (po_priomap q) = 16"
  shows "nl_msg hdr (as @ [(TCA_OPTIONS, prio_bytes q @ encs [(TCA_OPTIONS, encs (if mq then [(TCA_PRIO_MQ, [], [])] else []), [])], [])])
    (prio_message q mq n)"
proof -
  have d: "length (prio_bytes q) = 20" using assms(4) by (simp add: prio_bytes_def)
  have pad: "p = []" if "nl_msg hdr (cs @ [(t, x, p)]) m" "4 dvd length x" for cs t x p m
    using that by (auto simp: nl_msg_def align4_self mod_eq_0_iff_dvd)
  obtain p n1 where n1: "addattr_l n 1024 TCA_OPTIONS (prio_bytes q) = (0, n1)" "nl_msg hdr (as @ [(TCA_OPTIONS, prio_bytes q, p)]) n1"
    "length n1 = length n"
    using addattr_l_msg(2) [OF assms(1), of "prio_bytes q" 1024 TCA_OPTIONS] assms(2,3) d by (auto simp: align4_def)
  have m1: "nl_msg hdr (as @ [(TCA_OPTIONS, prio_bytes q, [])]) n1" using n1(2) pad [OF n1(2)] d by simp
  obtain p' n2 where n2: "addattr_l n1 1024 TCA_OPTIONS [] = (0, n2)"
    "nl_msg hdr ((as @ [(TCA_OPTIONS, prio_bytes q, [])]) @ [(TCA_OPTIONS, [], p')]) n2" "length n2 = length n1"
    using addattr_l_msg(2) [OF m1, of "[]" 1024 TCA_OPTIONS] assms(2,3) d n1(3) by (auto simp: align4_def)
  have m2: "nl_msg hdr ((as @ [(TCA_OPTIONS, prio_bytes q, [])]) @ [(TCA_OPTIONS, [], [])]) n2" using n2(2) pad [OF n2(2)] by simp
  let ?bs = "if mq then [(TCA_PRIO_MQ, [], [])] else [] :: attr list"
  let ?n3 = "if mq then snd (addattr_l n2 1024 TCA_PRIO_MQ []) else n2"
  have m3: "nl_msg hdr (as @ [(TCA_OPTIONS, prio_bytes q, []), (TCA_OPTIONS, [], [])] @ ?bs) ?n3"
  proof (cases mq)
    case True
    obtain p'' n3 where n3: "addattr_l n2 1024 TCA_PRIO_MQ [] = (0, n3)"
      "nl_msg hdr (((as @ [(TCA_OPTIONS, prio_bytes q, [])]) @ [(TCA_OPTIONS, [], [])]) @ [(TCA_PRIO_MQ, [], p'')]) n3"
      using addattr_l_msg(2) [OF m2, of "[]" 1024 TCA_PRIO_MQ] assms(2,3) d n1(3) n2(3) by (auto simp: align4_def)
    then show ?thesis using True pad [OF n3(2)] by simp
  qed (use m2 in simp)
  have "NLMSG_TAIL n = hdr + length (encs as)" by (rule NLMSG_TAIL_msg [OF assms(1)])
  then have "prio_message q mq n = snd (addattr_nest_compat_end ?n3 (hdr + length (encs as)))"
    using n1(1) n2(1) by (simp add: prio_message_def addattr_nest_compat_def addattr_nest_def Let_def)
  then show ?thesis using nest_compat_end_msg [OF m3] d by simp
qed

lemma prio_args_shape:
  "prio_args out argv s = Ret (Inr s') \<Longrightarrow> INT_MIN \<le> po_bands (prio_opt s) \<Longrightarrow> po_bands (prio_opt s) \<le> INT_MAX \<Longrightarrow>
   INT_MIN \<le> po_bands (prio_opt s') \<and> po_bands (prio_opt s') \<le> INT_MAX \<and>
   length (po_priomap (prio_opt s')) = length (po_priomap (prio_opt s))"
proof (induction out argv s rule: prio_args.induct)
  case (2 out a r s)
  have "get_integer v 10 = Some b \<Longrightarrow> INT_MIN \<le> b \<and> b \<le> INT_MAX" for v b
    by (auto simp: get_integer.parse_iff split: option.splits if_splits prod.splits)
  then show ?case using 2
    by (auto simp: incomplete_command_def split: if_splits list.splits option.splits)
qed simp

section \<open>A printed configuration reads back\<close>

lemma strtok_blank: "strtok (CHR '' '' # s) = strtok s"
  by (simp add: strtok_def is_ws_def)

lemma makeargs_loop_blank: "makeargs_loop m argv (CHR '' '' # s) = makeargs_loop m argv s"
  by (subst (1 2) makeargs_loop.simps) (simp add: strtok_blank)

lemma strtok_last: "word_ok w \<Longrightarrow> strtok w = Some (w, [])"
proof -
  assume w: "word_ok w"
  then have "takeWhile (\<lambda>c. \<not> is_ws c) w = w" "dropWhile (\<lambda>c. \<not> is_ws c) w = []"
    by (simp_all add: word_ok_def list_all_iff)
  moreover have "dropWhile is_ws w = w" using w by (cases w) (auto simp: word_ok_def)
  ultimately show ?thesis using w by (simp add: strtok_def Let_def word_ok_def del: dropWhile_eq_Nil_conv)
qed

lemma makeargs_loop_led:
  assumes "list_all word_ok ws" "int (length argv + length ws) \<le> int m - 1"
  shows "makeargs_loop m argv (concat (map ((#) (CHR '' '')) ws)) = Ret (argv @ ws)"
  using assms
proof (induction ws arbitrary: argv)
  case Nil
  then show ?case by (simp add: makeargs_loop.simps strtok_def)
next
  case (Cons w ws)
  have w: "word_ok w" using Cons.prems(1) by simp
  let ?r = "concat (map ((#) (CHR '' '')) ws)"
  have "strtok (w @ ?r) = Some (w, drop 1 ?r)" using strtok_last [OF w] strtok_word [OF w] by (cases ws) simp_all
  moreover have "makeargs_loop m a (drop 1 ?r) = makeargs_loop m a ?r" for a
    by (cases ws) (simp_all add: makeargs_loop_blank)
  ultimately have "makeargs_loop m argv (w @ ?r) = makeargs_loop m (argv @ [w]) ?r"
    using Cons.prems(2) by (subst makeargs_loop.simps) simp
  then show ?case using Cons by (simp add: makeargs_loop_blank)
qed

lemma makeargs_loop_before:
  "list_all word_ok ws \<Longrightarrow> int (length argv + length ws) \<le> int m - 1 \<Longrightarrow>
   makeargs_loop m argv (unwords ws @ s) = makeargs_loop m (argv @ ws) s"
proof (induction ws arbitrary: argv)
  case (Cons w ws)
  then have "makeargs_loop m argv (w @ CHR '' '' # (unwords ws @ s)) = makeargs_loop m (argv @ [w]) (unwords ws @ s)"
    by (subst makeargs_loop.simps) (simp add: strtok_word)
  with Cons show ?case by simp
qed simp

definition prio_words :: "tc_prio_qopt \<Rightarrow> string list" where
  "prio_words q = [''bands'', fmt_u (of_int (po_bands q) :: u32), ''priomap''] @ map fmt_u (po_priomap q)"

lemma prio_text_splits:
  assumes "length (po_priomap q) = 16" shows "makeargs (prio_text q) 100 = Ret (prio_words q)"
proof -
  let ?a = "[''bands'', fmt_u (of_int (po_bands q) :: u32), ''priomap'']" and ?b = "map fmt_u (po_priomap q)"
  have t: "prio_text q = unwords ?a @ concat (map ((#) (CHR '' '')) ?b)"
    by (simp add: prio_text_def o_def)
  have "list_all word_ok ?a" "list_all word_ok ?b"
    by (simp_all add: number_words list_all_iff, simp add: word_ok_def is_ws_def)
  then show ?thesis
    using makeargs_loop_before [of ?a "[]" 100] makeargs_loop_led [of ?b "[] @ ?a" 100] assms
    unfolding makeargs_def t prio_words_def by simp
qed

lemma fmt_u_not_keyword:
  assumes "k \<in> {''bands'', ''priomap'', ''multiqueue'', ''help''}" shows "fmt_u v \<noteq> k"
proof
  assume "fmt_u v = k"
  then obtain c where "c \<in> set (fmt_base 10 (unat v))" "c \<in> {CHR ''b'', CHR ''p'', CHR ''m'', CHR ''h''}"
    using assms unfolding fmt_u_def by (auto intro: that)
  moreover from this(1) obtain d where "d < 10" "c = digit_char d" using fmt_base_digits [of 10 c "unat v"] by auto
  ultimately show False by (auto simp: digit_char_def char_eq_nat simp del: of_char_eq_iff)
qed

lemma get_unsigned_u8: "get_unsigned (fmt_u (b :: u8)) 10 = Some (ucast b)"
proof -
  have "unat (ucast b :: u32) = unat b"
    using unsigned_less [of b, where ?'a = nat] by (simp add: unsigned_ucast_eq take_bit_nat_eq_self)
  then have "fmt_u b = fmt_u (ucast b :: u32)" by (simp add: fmt_u_def)
  then show ?thesis using get_unsigned.parse_printed [of 10 "ucast b"] by simp
qed

lemma priomap_words_read:
  assumes "pmap_mode s" "pmap_idx s + length bs \<le> 16" "length (po_priomap (prio_opt s)) = 16"
    "list_all (\<lambda>b. \<not> out (ucast b) (of_int (po_bands (prio_opt s)))) bs"
  shows "prio_args out (map fmt_u bs) s = Ret (Inr (s\<lparr>prio_opt := (prio_opt s)\<lparr>po_priomap :=
      take (pmap_idx s) (po_priomap (prio_opt s)) @ bs @ drop (pmap_idx s + length bs) (po_priomap (prio_opt s))\<rparr>,
    pmap_idx := pmap_idx s + length bs\<rparr>))"
  using assms
proof (induction bs arbitrary: s)
  case (Cons b bs)
  let ?q = "prio_opt s" and ?i = "pmap_idx s"
  let ?s = "s\<lparr>prio_opt := ?q\<lparr>po_priomap := (po_priomap ?q)[?i := b]\<rparr>, pmap_idx := ?i + 1\<rparr>"
  have i: "?i < length (po_priomap ?q)" using Cons.prems(2,3) by simp
  have step: "prio_args out (map fmt_u (b # bs)) s = prio_args out (map fmt_u bs) ?s"
    using Cons.prems fmt_u_not_keyword [of _ b] by (simp add: get_unsigned_u8 TC_PRIO_MAX_def ucast_up_down)
  have "take (Suc ?i) ((po_priomap ?q)[?i := b]) = take ?i (po_priomap ?q) @ [b]"
    using i by (simp add: take_Suc_conv_app_nth)
  then show ?case unfolding step using Cons.IH [of ?s] Cons.prems by (simp add: drop_update_cancel)
qed simp

lemma prio_words_read:
  assumes "0 \<le> po_bands q" "po_bands q \<le> INT_MAX" "length (po_priomap q) = 16"
    "list_all (\<lambda>b. \<not> out (ucast b) (of_int (po_bands q))) (po_priomap q)"
  shows "prio_args out (prio_words q) prio_start = Ret (Inr \<lparr>pmap_mode = True, pmap_idx = 16, prio_opt = q, prio_mq = False\<rparr>)"
proof -
  have u: "unat (of_int (po_bands q) :: u32) = nat (po_bands q)"
    using assms(1,2) by (simp add: unat_eq_nat_uint uint_word_of_int INT_MAX_def)
  then have "fmt_u (of_int (po_bands q) :: u32) = fmt_d (po_bands q)" using assms(1) by (simp add: fmt_u_def fmt_d_def)
  then have g: "get_integer (fmt_u (of_int (po_bands q) :: u32)) 10 = Some (po_bands q)"
    using get_integer.parse_printed [of 10 "po_bands q"] assms(1,2) by (simp add: INT_MIN_def)
  let ?s = "prio_start\<lparr>pmap_mode := True, prio_opt := default_prio\<lparr>po_bands := po_bands q\<rparr>\<rparr>"
  have "prio_args out (prio_words q) prio_start = prio_args out (map fmt_u (po_priomap q)) ?s"
    using g by (simp add: prio_words_def prio_start_def)
  also have "\<dots> = Ret (Inr \<lparr>pmap_mode = True, pmap_idx = 16, prio_opt = q, prio_mq = False\<rparr>)"
    using priomap_words_read [of ?s "po_priomap q" out] assms(3,4)
    by (simp add: prio_start_def default_prio_def)
  finally show ?thesis .
qed

text \<open>What is printed from the attribute of a message that the parser built.\<close>

lemma prio_print_message:
  assumes "INT_MIN \<le> po_bands q" "po_bands q \<le> INT_MAX" "length (po_priomap q) = 16"
    and "RTA_PAYLOAD rta = int (length d)" "RTA_DATA rta = d @ rest" "d = prio_bytes q @ encs [(TCA_OPTIONS, [], [])]"
  shows "prio_print_opt (Some rta) = Some (0, prio_text q)"
proof -
  have l: "length (prio_bytes q) = 20" "length d = 24" using assms(3,6) by (simp_all add: prio_bytes_def)
  have data: "drop 20 (RTA_DATA rta) = enc (TCA_OPTIONS, [], []) @ rest" "take 20 (RTA_DATA rta) = prio_bytes q"
    using assms(5,6) l(1) by simp_all
  have ok: "attr_ok (TCA_OPTIONS, [], [])" by (simp add: align4_def)
  let ?a = "enc (TCA_OPTIONS, [], []) @ rest"
  have pay: "RTA_PAYLOAD ?a = 0" using enc_head(3) [OF ok, of rest] by (simp only: RTA_PAYLOAD_def uint_nat) simp
  have tb: "parse_rtattr_nested TCA_PRIO_MAX ?a = replicate (TCA_PRIO_MAX + 1) None"
    unfolding parse_rtattr_nested_def pay parse_rtattr_def parse_loop_Nil by simp
  have "parse_rtattr_nested_compat TCA_PRIO_MAX rta 20 = Some (replicate (TCA_PRIO_MAX + 1) None)"
    unfolding parse_rtattr_nested_compat_def using assms(4) l(2) data(1) tb by (simp add: align4_def)
  then show ?thesis
    using data(2) read_prio_bytes [OF assms(1-3)] by (simp add: prio_print_opt_def TCA_PRIO_MAX_def TCA_PRIO_MQ_def)
qed

definition in_bands :: "tc_prio_qopt \<Rightarrow> bool" where
  "in_bands q \<longleftrightarrow> list_all (\<lambda>b. uint b < po_bands q) (po_priomap q)"

text \<open>
  C35: A priority discipline can be re-created from its listing. When the arguments of \<^verbatim>\<open>prio\<close> are
  accepted, without \<^verbatim>\<open>multiqueue\<close> and with a map that stays within the bands, the message has
  an attribute from which \<^verbatim>\<open>prio_print_opt\<close> prints a text whose words are again arguments, and these
  build the same message.
\<close>

theorem prio_text_roundtrip:
  assumes "nl_msg hdr as n" "hdr + length (encs as) + 32 \<le> 1024" "1024 \<le> length n"
    and "first_attr (unat TCA_OPTIONS) as = None" "unat TCA_OPTIONS \<le> mx"
    and "prio_args (\<lambda>band bands. band \<ge> bands) argv prio_start = Ret (Inr s)" "\<not> prio_mq s" "in_bands (prio_opt s)"
  shows "\<exists>n' rta txt ws. prio_parse_opt argv n = Some (Ret (0, n')) \<and>
    fst (parse_rtattr mx (drop hdr n') (uint (nlmsg_len n') - int hdr)) ! unat TCA_OPTIONS = Some rta \<and>
    prio_print_opt (Some rta) = Some (0, txt) \<and> makeargs txt 100 = Ret ws \<and>
    prio_parse_opt ws n = Some (Ret (0, n'))"
proof -
  let ?q = "prio_opt s" and ?out = "\<lambda>band bands :: u32. band \<ge> bands"
  have sh: "INT_MIN \<le> po_bands ?q" "po_bands ?q \<le> INT_MAX" "length (po_priomap ?q) = 16"
    using prio_args_shape [OF assms(6)] by (simp_all add: prio_start_def default_prio_def INT_MIN_def INT_MAX_def)
  obtain b bs where b: "po_priomap ?q = b # bs" using sh(3) by (cases "po_priomap ?q") auto
  then have "uint b < po_bands ?q" using assms(8) unfolding in_bands_def by simp
  then have pos: "0 \<le> po_bands ?q" by (rule order.strict_implies_order [OF order_le_less_trans [OF uint_nonnegative]])
  let ?d = "prio_bytes ?q @ encs [(TCA_OPTIONS, [], [])]" and ?n' = "prio_message ?q False n"
  have m: "nl_msg hdr (as @ [(TCA_OPTIONS, ?d, [])]) ?n'"
    using prio_message_msg [OF assms(1-3) sh(3), of False] by (simp del: enc.simps)
  have "first_attr (unat TCA_OPTIONS) (as @ [(TCA_OPTIONS, ?d, [])]) = Some ?d"
    using assms(4) by (simp only: first_attr_snoc option.case) simp
  then obtain rta rest where rta: "fst (parse_rtattr mx (drop hdr ?n') (uint (nlmsg_len ?n') - int hdr)) ! unat TCA_OPTIONS = Some rta"
    "RTA_PAYLOAD rta = int (length ?d)" "RTA_DATA rta = ?d @ rest" using msg_attr [OF m assms(5)] by blast
  have "uint (ucast x :: u32) = uint x" for x :: u8
    by (simp add: uint_up_ucast is_up_def source_size_def target_size_def word_size)
  moreover have "uint (of_int (po_bands ?q) :: u32) = po_bands ?q"
    using pos sh(2) by (simp add: uint_word_of_int INT_MAX_def)
  ultimately have inb: "list_all (\<lambda>x. \<not> ?out (ucast x) (of_int (po_bands ?q))) (po_priomap ?q)"
    using assms(8) by (simp add: in_bands_def word_le_def list_all_iff not_le)
  have "prio_parse_opt argv n = Some (Ret (0, ?n'))" "prio_parse_opt (prio_words ?q) n = Some (Ret (0, ?n'))"
    using assms(6,7) prio_words_read [OF pos sh(2,3), where out = ?out, OF inb] by (simp_all add: prio_parse_opt_def parse_prio_opt_def)
  then show ?thesis
    using rta(1) prio_print_message [OF sh rta(2,3) refl] prio_text_splits [OF sh(3)] by blast
qed

text \<open>
  The checks of the parsers: each band of a map that was given after \<^verbatim>\<open>bands N\<close> is below \<open>N\<close> for \<^verbatim>\<open>prio\<close>,
  while \<^verbatim>\<open>rr\<close> takes \<open>N\<close> itself, a band that does not exist; and the default map, which names the
  bands 0 to 2, is sent with fewer bands when no map is given.
\<close>

lemma rr_takes_missing_band:
  "prio_args (\<lambda>band bands. band \<ge> bands) [''bands'', fmt_u (2 :: u32), ''priomap'', fmt_u (2 :: u32)] prio_start = Ret (Inl (-1))"
  "\<exists>s. prio_args (\<lambda>band bands. band > bands) [''bands'', fmt_u (2 :: u32), ''priomap'', fmt_u (2 :: u32)] prio_start = Ret (Inr s) \<and>
    \<not> in_bands (prio_opt s)"
  "\<exists>s. prio_args out [''bands'', fmt_u (1 :: u32)] prio_start = Ret (Inr s) \<and> \<not> in_bands (prio_opt s)"
proof -
  have g: "get_integer (fmt_u (2 :: u32)) 10 = Some 2" "get_integer (fmt_u (1 :: u32)) 10 = Some 1"
    using get_integer.parse_printed [of 10 2] get_integer.parse_printed [of 10 1]
    by (simp_all add: fmt_u_def fmt_d_def INT_MIN_def INT_MAX_def)
  note p = get_unsigned.parse_printed [of 10 2, simplified] fmt_u_not_keyword [of _ "2 :: u32"]
  show "prio_args (\<lambda>band bands. band \<ge> bands) [''bands'', fmt_u (2 :: u32), ''priomap'', fmt_u (2 :: u32)] prio_start = Ret (Inl (-1))"
    using p by (simp add: g prio_start_def default_prio_def)
  show "\<exists>s. prio_args (\<lambda>band bands. band > bands) [''bands'', fmt_u (2 :: u32), ''priomap'', fmt_u (2 :: u32)] prio_start = Ret (Inr s) \<and>
    \<not> in_bands (prio_opt s)"
    using p by (simp add: g prio_start_def default_prio_def TC_PRIO_MAX_def in_bands_def)
  show "\<exists>s. prio_args out [''bands'', fmt_u (1 :: u32)] prio_start = Ret (Inr s) \<and> \<not> in_bands (prio_opt s)"
    by (simp add: g prio_start_def default_prio_def in_bands_def)
qed

theorem prio_text_roundtrip_witness:
  "\<exists>n' rta txt ws. prio_parse_opt [] tc_request = Some (Ret (0, n')) \<and>
    fst (parse_rtattr 8 (drop 36 n') (uint (nlmsg_len n') - 36)) ! 2 = Some rta \<and>
    prio_print_opt (Some rta) = Some (0, txt) \<and> makeargs txt 100 = Ret ws \<and> prio_parse_opt ws tc_request = Some (Ret (0, n'))"
proof -
  have m: "nl_msg 36 [] tc_request" by (simp add: nl_msg_def tc_request_def nlmsg_len_def peek32_def)
  have t: "unat TCA_OPTIONS = 2" by (simp add: TCA_OPTIONS_def)
  from prio_text_roundtrip [OF m, of 8 "[]" prio_start] show ?thesis
    by (simp add: t first_attr_def tc_request_def prio_start_def default_prio_def in_bands_def)
qed

end
