(* ===== verification/Q_Simple.thy ===== *)
theory Q_Simple
  imports F_Common Q_Prio
begin

unbundle bit_operations_syntax

text \<open>
  The modules of the small disciplines of the tc command: fifo (\<^verbatim>\<open>q_fifo.c\<close>), ingress (\<^verbatim>\<open>q_ingress.c\<close>), multiq
  (\<^verbatim>\<open>q_multiq.c\<close>), drr (\<^verbatim>\<open>q_drr.c\<close>) and qfq (\<^verbatim>\<open>q_qfq.c\<close>).
\<close>

section \<open>Fifo\<close>

text \<open>The limit and whether it was given; \<open>None\<close> for a conversion the language leaves undefined.\<close>

fun fifo_args :: "string list \<Rightarrow> u32 \<times> bool \<Rightarrow> (u32 \<times> bool) option cexit option" where
  "fifo_args [] s = Some (Ret (Some s))"
| "fifo_args (a # r) s =
     (if a = ''limit'' then
        (case r of
           [] \<Rightarrow> Some incomplete_command
         | v # r' \<Rightarrow>
             (case get_size v of
                Undefined \<Rightarrow> None
              | Rejected \<Rightarrow> Some (Ret None)
              | Parsed limit \<Rightarrow> fifo_args r' (limit, True)))
      else Some (Ret None))"

definition fifo_parse_opt :: "string list \<Rightarrow> u8 list \<Rightarrow> (int \<times> u8 list) cexit option" where
  "fifo_parse_opt argv n =
     (case fifo_args argv (0, False) of
        None \<Rightarrow> None
      | Some (Exit e) \<Rightarrow> Some (Exit e)
      | Some (Ret None) \<Rightarrow> Some (Ret (-1, n))
      | Some (Ret (Some (limit, ok))) \<Rightarrow>
          Some (Ret (0, if ok then snd (addattr_l n 1024 TCA_OPTIONS (le_bytes 4 limit)) else n)))"

definition fifo_print_opt :: "string \<Rightarrow> u8 list option \<Rightarrow> (int \<times> string) option" where
  "fifo_print_opt name opt =
     (case opt of
        None \<Rightarrow> Some (0, [])
      | Some rta \<Rightarrow>
          if RTA_PAYLOAD rta < 4 then Some (-1, [])
          else let limit = peek32 0 (RTA_DATA rta)
               in Some (0, if name = ''bfifo'' then ''limit '' @ sprint_size limit else ''limit '' @ fmt_u limit @ ''p''))"

definition bfifo_qdisc_util :: qdisc_util where
  "bfifo_qdisc_util = \<lparr>qu_id = ''bfifo'', qu_parse_qopt = Some fifo_parse_opt, qu_print_qopt = fifo_print_opt ''bfifo'',
     qu_print_xstats = None, qu_parse_copt = None, qu_print_copt = None\<rparr>"

definition pfifo_qdisc_util :: qdisc_util where
  "pfifo_qdisc_util = \<lparr>qu_id = ''pfifo'', qu_parse_qopt = Some fifo_parse_opt, qu_print_qopt = fifo_print_opt ''pfifo'',
     qu_print_xstats = None, qu_parse_copt = None, qu_print_copt = None\<rparr>"

definition pfifo_head_drop_qdisc_util :: qdisc_util where
  "pfifo_head_drop_qdisc_util = \<lparr>qu_id = ''pfifo_head_drop'', qu_parse_qopt = Some fifo_parse_opt,
     qu_print_qopt = fifo_print_opt ''pfifo_head_drop'', qu_print_xstats = None, qu_parse_copt = None, qu_print_copt = None\<rparr>"

definition pfifo_fast_qdisc_util :: qdisc_util where
  "pfifo_fast_qdisc_util = \<lparr>qu_id = ''pfifo_fast'', qu_parse_qopt = None, qu_print_qopt = prio_print_opt,
     qu_print_xstats = None, qu_parse_copt = None, qu_print_copt = None\<rparr>"

section \<open>Ingress and multiq\<close>

fun ingress_args :: "string list \<Rightarrow> int cexit" where
  "ingress_args [] = Ret 0"
| "ingress_args (a # r) =
     (if a = ''handle'' then (case r of [] \<Rightarrow> incomplete_command | v # r' \<Rightarrow> ingress_args r') else Ret (-1))"

definition ingress_parse_opt :: "string list \<Rightarrow> u8 list \<Rightarrow> (int \<times> u8 list) cexit option" where
  "ingress_parse_opt argv n =
     (case ingress_args argv of
        Exit e \<Rightarrow> Some (Exit e)
      | Ret rc \<Rightarrow> Some (Ret (rc, if rc = 0 then snd (addattr_l n 1024 TCA_OPTIONS []) else n)))"

definition ingress_print_opt :: "u8 list option \<Rightarrow> (int \<times> string) option" where
  "ingress_print_opt opt = Some (0, ''---------------- '')"

definition ingress_qdisc_util :: qdisc_util where
  "ingress_qdisc_util = \<lparr>qu_id = ''ingress'', qu_parse_qopt = Some ingress_parse_opt, qu_print_qopt = ingress_print_opt,
     qu_print_xstats = None, qu_parse_copt = None, qu_print_copt = None\<rparr>"

text \<open>The structure of multiq is sent as the stack left it, \<open>junk\<close>.\<close>

definition multiq_parse_opt :: "u32 \<Rightarrow> string list \<Rightarrow> u8 list \<Rightarrow> (int \<times> u8 list) cexit option" where
  "multiq_parse_opt junk argv n =
     (if argv \<noteq> [] then Some (Ret (-1, n)) else Some (Ret (0, snd (addattr_l n 1024 TCA_OPTIONS (le_bytes 4 junk)))))"

definition multiq_print_opt :: "u8 list option \<Rightarrow> (int \<times> string) option" where
  "multiq_print_opt opt =
     (case opt of
        None \<Rightarrow> Some (0, [])
      | Some rta \<Rightarrow>
          Some (0, if RTA_PAYLOAD rta < 4 then []
                   else ''bands '' @ fmt_u (peek16 0 (RTA_DATA rta)) @ ''/'' @ fmt_u (peek16 2 (RTA_DATA rta)) @ '' ''))"

definition multiq_qdisc_util :: "u32 \<Rightarrow> qdisc_util" where
  "multiq_qdisc_util junk = \<lparr>qu_id = ''multiq'', qu_parse_qopt = Some (multiq_parse_opt junk), qu_print_qopt = multiq_print_opt,
     qu_print_xstats = None, qu_parse_copt = None, qu_print_copt = None\<rparr>"

section \<open>Drr and qfq\<close>

definition TCA_DRR_QUANTUM :: u16 where "TCA_DRR_QUANTUM = 1"
definition TCA_DRR_MAX :: nat where "TCA_DRR_MAX = 1"
definition TCA_QFQ_WEIGHT :: u16 where "TCA_QFQ_WEIGHT = 1"
definition TCA_QFQ_LMAX :: u16 where "TCA_QFQ_LMAX = 2"
definition TCA_QFQ_MAX :: nat where "TCA_QFQ_MAX = 2"

text \<open>The disciplines themselves have no options.\<close>

definition drr_parse_opt :: "string list \<Rightarrow> u8 list \<Rightarrow> (int \<times> u8 list) cexit option" where
  "drr_parse_opt argv n = Some (Ret (if argv \<noteq> [] then -1 else 0, n))"

definition qfq_parse_opt :: "string list \<Rightarrow> u8 list \<Rightarrow> (int \<times> u8 list) cexit option" where
  "qfq_parse_opt argv n = Some (Ret (if argv \<noteq> [] then -1 else 0, n))"

fun drr_class_args :: "string list \<Rightarrow> u8 list \<Rightarrow> u8 list option cexit option" where
  "drr_class_args [] n = Some (Ret (Some n))"
| "drr_class_args (a # r) n =
     (if a = ''quantum'' then
        (case r of
           [] \<Rightarrow> Some incomplete_command
         | v # r' \<Rightarrow>
             (case get_size v of
                Undefined \<Rightarrow> None
              | Rejected \<Rightarrow> Some (Ret None)
              | Parsed q \<Rightarrow> drr_class_args r' (snd (addattr_l n 1024 TCA_DRR_QUANTUM (le_bytes 4 q)))))
      else Some (Ret None))"

definition drr_parse_class_opt :: "string list \<Rightarrow> u8 list \<Rightarrow> (int \<times> u8 list) cexit option" where
  "drr_parse_class_opt argv n = close_options n (drr_class_args argv (snd (addattr_l n 1024 TCA_OPTIONS [])))"

definition drr_print_opt :: "u8 list option \<Rightarrow> (int \<times> string) option" where
  "drr_print_opt opt =
     (case opt of
        None \<Rightarrow> Some (0, [])
      | Some rta \<Rightarrow>
          Some (0, case parse_rtattr_nested TCA_DRR_MAX rta ! unat TCA_DRR_QUANTUM of
                     Some a \<Rightarrow> ''quantum '' @ sprint_size (rta_getattr_u32 a) @ '' ''
                   | None \<Rightarrow> []))"

definition drr_print_xstats :: "u8 list \<Rightarrow> string" where
  "drr_print_xstats xstats =
     (if RTA_PAYLOAD xstats < 4 then [] else '' deficit '' @ sprint_size (peek32 0 (RTA_DATA xstats)) @ '' '')"

definition drr_qdisc_util :: qdisc_util where
  "drr_qdisc_util = \<lparr>qu_id = ''drr'', qu_parse_qopt = Some drr_parse_opt, qu_print_qopt = drr_print_opt,
     qu_print_xstats = Some drr_print_xstats, qu_parse_copt = Some drr_parse_class_opt, qu_print_copt = Some (\<lambda>rta. drr_print_opt (Some rta))\<rparr>"

fun qfq_class_args :: "string list \<Rightarrow> u8 list \<Rightarrow> u8 list option cexit" where
  "qfq_class_args [] n = Ret (Some n)"
| "qfq_class_args (a # r) n =
     (if matches a ''weight'' = 0 then
        (case r of
           [] \<Rightarrow> incomplete_command
         | v # r' \<Rightarrow> (case get_u32 v 10 of
                         None \<Rightarrow> Ret None
                       | Some w \<Rightarrow> qfq_class_args r' (snd (addattr32 n 4096 TCA_QFQ_WEIGHT w))))
      else if matches a ''maxpkt'' = 0 then
        (case r of
           [] \<Rightarrow> incomplete_command
         | v # r' \<Rightarrow> (case get_u32 v 10 of
                         None \<Rightarrow> Ret None
                       | Some w \<Rightarrow> qfq_class_args r' (snd (addattr32 n 4096 TCA_QFQ_LMAX w))))
      else Ret None)"

definition qfq_parse_class_opt :: "string list \<Rightarrow> u8 list \<Rightarrow> (int \<times> u8 list) cexit option" where
  "qfq_parse_class_opt argv n = close_options n (Some (qfq_class_args argv (snd (addattr_l n 4096 TCA_OPTIONS []))))"

definition qfq_print_opt :: "u8 list option \<Rightarrow> (int \<times> string) option" where
  "qfq_print_opt opt =
     (case opt of
        None \<Rightarrow> Some (0, [])
      | Some rta \<Rightarrow>
          let tb = parse_rtattr_nested TCA_QFQ_MAX rta
          in Some (0,
            (case tb ! unat TCA_QFQ_WEIGHT of Some a \<Rightarrow> ''weight '' @ fmt_u (rta_getattr_u32 a) @ '' '' | None \<Rightarrow> []) @
            (case tb ! unat TCA_QFQ_LMAX of Some a \<Rightarrow> ''maxpkt '' @ fmt_u (rta_getattr_u32 a) @ '' '' | None \<Rightarrow> [])))"

definition qfq_qdisc_util :: qdisc_util where
  "qfq_qdisc_util = \<lparr>qu_id = ''qfq'', qu_parse_qopt = Some qfq_parse_opt, qu_print_qopt = qfq_print_opt,
     qu_print_xstats = None, qu_parse_copt = Some qfq_parse_class_opt, qu_print_copt = Some (\<lambda>rta. qfq_print_opt (Some rta))\<rparr>"

section \<open>What is listed and what can be entered\<close>

text \<open>
  The listing of a class of qfq is what was entered: weight and packet size, read into a message and printed from what
  the parser of attributes finds in it, give the same words.
\<close>

theorem qfq_printed_as_entered:
  assumes "nl_msg 36 as n" "4096 \<le> length n" "76 + length (encs as) \<le> 4096" "first_attr 2 as = None" "2 \<le> mx"
  shows "\<exists>n' opt. qfq_parse_class_opt [''weight'', fmt_u (w :: u32), ''maxpkt'', fmt_u (l :: u32)] n = Some (Ret (0, n')) \<and>
    fst (parse_rtattr mx (drop 36 n') (uint (nlmsg_len n') - 36)) ! unat TCA_OPTIONS = Some opt \<and>
    qfq_print_opt (Some opt) = Some (0, ''weight '' @ fmt_u w @ '' maxpkt '' @ fmt_u l @ '' '')"
proof -
  let ?W = "(TCA_QFQ_WEIGHT, le_bytes 4 w, [])" and ?M = "(TCA_QFQ_LMAX, le_bytes 4 l, [])"
  let ?n0 = "snd (addattr_l n 4096 TCA_OPTIONS [])"
  let ?n1 = "snd (addattr_l ?n0 4096 TCA_QFQ_WEIGHT (le_bytes 4 w))"
  let ?n2 = "snd (addattr_l ?n1 4096 TCA_QFQ_LMAX (le_bytes 4 l))"
  have g0: "grown 36 n (as @ [(TCA_OPTIONS, [], [])]) ?n0" by (rule open_grown [OF assms(1)]) (use assms(2,3) in simp_all)
  have g1: "grown 36 n ((as @ [(TCA_OPTIONS, [], [])]) @ [?W]) ?n1" by (rule add_grown [OF g0]) (use assms(2,3) in simp_all)
  have g2: "grown 36 n (((as @ [(TCA_OPTIONS, [], [])]) @ [?W]) @ [?M]) ?n2" by (rule add_grown [OF g1]) (use assms(2,3) in simp_all)
  have t: "get_u32 (fmt_u v) 10 = Some v" for v :: u32 by (simp add: get_u32.parse_printed)
  have loop: "qfq_class_args [''weight'', fmt_u w, ''maxpkt'', fmt_u l] ?n0 = Ret (Some ?n2)"
    by (simp add: matches_0_iff t addattr32_def)
  have "\<exists>n'. close_options n (Some (Ret (Some ?n2))) = Some (Ret (0, n')) \<and> grown 36 n (as @ [(TCA_OPTIONS, encs [?W, ?M], [])]) n'"
    by (rule close_grown [OF assms(1)]) (use g2 in simp_all)
  then obtain n' where n': "qfq_parse_class_opt [''weight'', fmt_u w, ''maxpkt'', fmt_u l] n = Some (Ret (0, n'))"
    "nl_msg 36 (as @ [(TCA_OPTIONS, encs [?W, ?M], [])]) n'" unfolding qfq_parse_class_opt_def loop grown_def by blast
  have "list_all attr_ok [?W, ?M]" by (simp add: align4_def)
  from options_read [OF n'(2) assms(4,5) this, of TCA_QFQ_MAX]
  obtain opt where opt: "fst (parse_rtattr mx (drop 36 n') (uint (nlmsg_len n') - 36)) ! unat TCA_OPTIONS = Some opt"
    "\<forall>u \<le> TCA_QFQ_MAX. case first_attr u [?W, ?M] of
        None \<Rightarrow> parse_rtattr_nested TCA_QFQ_MAX opt ! u = None
      | Some d \<Rightarrow> \<exists>a r. parse_rtattr_nested TCA_QFQ_MAX opt ! u = Some a \<and> RTA_DATA a = d @ r \<and> RTA_PAYLOAD a = int (length d)" by auto
  have u: "unat TCA_QFQ_WEIGHT = 1" "unat TCA_QFQ_LMAX = 2" by (simp_all add: TCA_QFQ_WEIGHT_def TCA_QFQ_LMAX_def)
  note entry = opt(2) [rule_format, unfolded TCA_QFQ_MAX_def]
  have "\<exists>a r. parse_rtattr_nested 2 opt ! 1 = Some a \<and> RTA_DATA a = le_bytes 4 w @ r"
    "\<exists>a r. parse_rtattr_nested 2 opt ! 2 = Some a \<and> RTA_DATA a = le_bytes 4 l @ r"
    using entry [of 1] entry [of 2] u by (auto simp: first_attr_def)
  then have "qfq_print_opt (Some opt) = Some (0, ''weight '' @ fmt_u w @ '' maxpkt '' @ fmt_u l @ '' '')"
    using u by (auto simp: qfq_print_opt_def TCA_QFQ_MAX_def rta_getattr_u32_def)
  then show ?thesis using n'(1) opt(1) by blast
qed

text \<open>The limit of a pfifo is listed with the letter p behind it, which is refused when it is entered again.\<close>

theorem pfifo_limit_not_read: "fifo_parse_opt [''limit'', fmt_u (limit :: u32) @ ''p''] n = Some (Ret (-1, n))"
proof -
  have "size_factor ''p'' = None" by code_simp
  moreover have "ends_decimal ''p''" by (simp add: ends_decimal_def digit_val_def)
  ultimately have "get_size (fmt_u limit @ ''p'') = Rejected" using parse_unknown(1) [of "''p''" "unat limit"] by (simp add: fmt_u_def fmt_nat_def)
  then show ?thesis by (simp add: fifo_parse_opt_def)
qed

end
