(* ===== verification/F_Fw.thy ===== *)
theory F_Fw
  imports F_Common
begin

unbundle bit_operations_syntax

text \<open>
  The filters by firewall mark (\<^verbatim>\<open>f_fw.c\<close>) and by the index of a packet (\<^verbatim>\<open>f_tcindex.c\<close>) of the tc command.
\<close>

section \<open>Marks\<close>

definition TCA_FW_CLASSID :: u16 where "TCA_FW_CLASSID = 1"
definition TCA_FW_POLICE :: u16 where "TCA_FW_POLICE = 2"
definition TCA_FW_INDEV :: u16 where "TCA_FW_INDEV = 3"
definition TCA_FW_ACT :: u16 where "TCA_FW_ACT = 4"
definition TCA_FW_MASK :: u16 where "TCA_FW_MASK = 5"
definition TCA_FW_MAX :: nat where "TCA_FW_MAX = 5"

text \<open>The handle: a mark and, after a slash, a mask.\<close>

definition fw_handle :: "string \<Rightarrow> (u32 \<times> u32 option) option" where
  "fw_handle handle =
     (case get_u32 (upto_chr handle (CHR ''/'')) 0 of
        None \<Rightarrow> None
      | Some mark \<Rightarrow>
          (case strchr handle (CHR ''/'') of
             None \<Rightarrow> Some (mark, None)
           | Some slash \<Rightarrow> map_option (\<lambda>m. (mark, Some m)) (get_u32 (tl slash) 0)))"

definition fw_arg :: "filter_ext \<Rightarrow> arg_step" where
  "fw_arg fx argv n =
     (let a = hd argv
      in if matches a ''classid'' = 0 \<or> matches a ''flowid'' = 0
         then after_next argv (\<lambda>r. or_fail (get_tc_classid (hd r)) (\<lambda>h. put32 4096 TCA_FW_CLASSID h (tl r) n))
         else if matches a ''police'' = 0 then after_next argv (\<lambda>r. fx_police fx TCA_FW_POLICE r n)
         else if matches a ''action'' = 0 then after_next argv (\<lambda>r. fx_action fx TCA_FW_ACT r n)
         else if a = ''indev''
         then (case tl argv of
                 [] \<Rightarrow> Ret None
               | d # r \<Rightarrow> Ret (Some (snd (addattr_l n MAX_MSG TCA_FW_INDEV (bytes_of_string (take IFNAMSIZ d) @ [0])), r)))
         else Ret None)"

text \<open>Without arguments nothing but the handle is stored.\<close>

definition fw_parse_opt :: "filter_ext \<Rightarrow> string option \<Rightarrow> string list \<Rightarrow> u8 list \<Rightarrow> (int \<times> u8 list) cexit option" where
  "fw_parse_opt fx handle argv n =
     (case (case handle of None \<Rightarrow> Some (tcm_handle n, None) | Some s \<Rightarrow> fw_handle s) of
        None \<Rightarrow> Some (Ret (-1, n))
      | Some (mark, msk) \<Rightarrow>
          let n0 = poke 24 (le_bytes 4 mark) n
          in if argv = [] then Some (Ret (0, n0))
             else in_options (fw_arg fx) 4096
                    (\<lambda>n1. case msk of None \<Rightarrow> n1 | Some m \<Rightarrow> snd (addattr32 n1 MAX_MSG TCA_FW_MASK m)) argv n0)"

definition fw_print_opt :: "filter_ext \<Rightarrow> u8 list option \<Rightarrow> u32 \<Rightarrow> (int \<times> string) option" where
  "fw_print_opt fx opt handle =
     (case opt of
        None \<Rightarrow> Some (0, [])
      | Some rta \<Rightarrow>
          let tb = parse_rtattr_nested TCA_FW_MAX rta; msk = map_option rta_getattr_u32 (tb ! unat TCA_FW_MASK)
          in Some (0,
            (if handle \<noteq> 0 \<or> msk \<noteq> None
             then (case msk of
                     Some m \<Rightarrow> if m \<noteq> 0xFFFFFFFF then ''handle 0x'' @ fmt_x handle @ ''/0x'' @ fmt_x m @ '' ''
                               else ''handle 0x'' @ fmt_x handle @ '' ''
                   | None \<Rightarrow> ''handle 0x'' @ fmt_x handle @ '' '')
             else []) @
            (case tb ! unat TCA_FW_CLASSID of Some a \<Rightarrow> ''classid '' @ sprint_tc_classid (rta_getattr_u32 a) @ '' '' | None \<Rightarrow> []) @
            (case tb ! unat TCA_FW_POLICE of Some a \<Rightarrow> fx_print_police fx a | None \<Rightarrow> []) @
            (case tb ! unat TCA_FW_INDEV of Some a \<Rightarrow> ''input dev '' @ rta_getattr_str a @ '' '' | None \<Rightarrow> []) @
            (case tb ! unat TCA_FW_ACT of Some a \<Rightarrow> newline # fx_print_action fx a | None \<Rightarrow> [])))"

definition fw_filter_util :: "filter_ext \<Rightarrow> filter_util" where
  "fw_filter_util fx = \<lparr>fu_id = ''fw'', fu_parse_fopt = fw_parse_opt fx, fu_print_fopt = (\<lambda>pg. fw_print_opt fx)\<rparr>"

interpretation fw: consuming fw_arg ext_ok
proof unfold_locales
  fix fx a r n n' r'
  assume ok: "ext_ok fx" and p: "fw_arg fx (a # r) n = Ret (Some (n', r'))"
  show "length r' \<le> length r"
    using p ext_shorter [OF ok, of _ _ n n' r']
    by (auto simp: fw_arg_def Let_def or_fail_ret put32_ret dest!: after_next_ret split: if_splits list.splits)
qed

section \<open>Indices\<close>

definition TCA_TCINDEX_HASH :: u16 where "TCA_TCINDEX_HASH = 1"
definition TCA_TCINDEX_MASK :: u16 where "TCA_TCINDEX_MASK = 2"
definition TCA_TCINDEX_SHIFT :: u16 where "TCA_TCINDEX_SHIFT = 3"
definition TCA_TCINDEX_FALL_THROUGH :: u16 where "TCA_TCINDEX_FALL_THROUGH = 4"
definition TCA_TCINDEX_CLASSID :: u16 where "TCA_TCINDEX_CLASSID = 5"
definition TCA_TCINDEX_POLICE :: u16 where "TCA_TCINDEX_POLICE = 6"
definition TCA_TCINDEX_MAX :: nat where "TCA_TCINDEX_MAX = 7"

text \<open>\<^verbatim>\<open>strtoul\<close> of a whole argument; the caller cuts the number to the width of its variable.\<close>

definition whole_ulong :: "string \<Rightarrow> u64 option" where
  "whole_ulong s = (let (v, r) = strtoul 0 s in if r \<noteq> [] then None else Some v)"

definition tcindex_arg :: "filter_ext \<Rightarrow> arg_step" where
  "tcindex_arg fx argv n =
     (let a = hd argv
      in if a = ''hash''
         then after_next argv (\<lambda>r. or_fail (whole_ulong (hd r)) (\<lambda>v.
                let h = ucast v :: u32
                in if h = 0 \<or> sint h > 0x10000 then Ret None else put32 4096 TCA_TCINDEX_HASH h (tl r) n))
         else if a = ''mask''
         then after_next argv (\<lambda>r. or_fail (whole_ulong (hd r)) (\<lambda>v.
                Ret (Some (snd (addattr_l n 4096 TCA_TCINDEX_MASK (le_bytes 2 (ucast v :: u16))), tl r))))
         else if a = ''shift''
         then after_next argv (\<lambda>r. or_fail (whole_ulong (hd r)) (\<lambda>v. put32 4096 TCA_TCINDEX_SHIFT (ucast v) (tl r) n))
         else if a = ''fall_through'' then put32 4096 TCA_TCINDEX_FALL_THROUGH 1 (tl argv) n
         else if a = ''pass_on'' then put32 4096 TCA_TCINDEX_FALL_THROUGH 0 (tl argv) n
         else if a = ''classid''
         then after_next argv (\<lambda>r. or_fail (get_tc_classid (hd r)) (\<lambda>h. put32 4096 TCA_TCINDEX_CLASSID h (tl r) n))
         else if a = ''police'' then after_next argv (\<lambda>r. fx_police fx TCA_TCINDEX_POLICE r n)
         else Ret None)"

definition tcindex_parse_opt :: "filter_ext \<Rightarrow> string option \<Rightarrow> string list \<Rightarrow> u8 list \<Rightarrow> (int \<times> u8 list) cexit option" where
  "tcindex_parse_opt fx handle argv n =
     (case (case handle of None \<Rightarrow> Some n | Some s \<Rightarrow> map_option (\<lambda>v. poke 24 (le_bytes 4 (ucast v :: u32)) n) (whole_ulong s)) of
        None \<Rightarrow> Some (Ret (-1, n))
      | Some n0 \<Rightarrow> if argv = [] then Some (Ret (0, n0)) else in_options (tcindex_arg fx) 4096 (\<lambda>n1. n1) argv n0)"

text \<open>The pieces of the text up to the first attribute that is too short.\<close>

fun print_pieces :: "string option list \<Rightarrow> int \<times> string" where
  "print_pieces [] = (0, [])"
| "print_pieces (None # ps) = (-1, [])"
| "print_pieces (Some t # ps) = (let (rc, s) = print_pieces ps in (rc, t @ s))"

definition piece :: "nat \<Rightarrow> (u8 list \<Rightarrow> string) \<Rightarrow> u8 list option \<Rightarrow> string option" where
  "piece len show_it a = (case a of None \<Rightarrow> Some [] | Some rta \<Rightarrow> if RTA_PAYLOAD rta < int len then None else Some (show_it rta))"

definition tcindex_print_opt :: "filter_ext \<Rightarrow> u8 list option \<Rightarrow> u32 \<Rightarrow> (int \<times> string) option" where
  "tcindex_print_opt fx opt handle =
     (case opt of
        None \<Rightarrow> Some (0, [])
      | Some rta \<Rightarrow>
          let tb = parse_rtattr_nested TCA_TCINDEX_MAX rta
          in Some (print_pieces
            [Some (if handle \<noteq> -1 then ''handle 0x'' @ fmt_0x 4 handle @ '' '' else []),
             piece 2 (\<lambda>a. ''hash '' @ fmt_u (rta_getattr_u16 a) @ '' '') (tb ! unat TCA_TCINDEX_HASH),
             piece 2 (\<lambda>a. ''mask 0x'' @ fmt_0x 4 (rta_getattr_u16 a) @ '' '') (tb ! unat TCA_TCINDEX_MASK),
             piece 4 (\<lambda>a. ''shift '' @ fmt_d (sint (rta_getattr_u32 a)) @ '' '') (tb ! unat TCA_TCINDEX_SHIFT),
             piece 4 (\<lambda>a. if rta_getattr_u32 a \<noteq> 0 then ''fall_through '' else ''pass_on '') (tb ! unat TCA_TCINDEX_FALL_THROUGH),
             Some (case tb ! unat TCA_TCINDEX_CLASSID of
                     Some a \<Rightarrow> ''classid '' @ sprint_tc_classid (rta_getattr_u32 a) @ '' '' | None \<Rightarrow> []),
             Some (case tb ! unat TCA_TCINDEX_POLICE of Some a \<Rightarrow> newline # fx_print_police fx a | None \<Rightarrow> [])]))"

definition tcindex_filter_util :: "filter_ext \<Rightarrow> filter_util" where
  "tcindex_filter_util fx = \<lparr>fu_id = ''tcindex'', fu_parse_fopt = tcindex_parse_opt fx, fu_print_fopt = (\<lambda>pg. tcindex_print_opt fx)\<rparr>"

interpretation tcindex: consuming tcindex_arg ext_ok
proof unfold_locales
  fix fx a r n n' r'
  assume ok: "ext_ok fx" and p: "tcindex_arg fx (a # r) n = Ret (Some (n', r'))"
  show "length r' \<le> length r"
    using p ext_shorter [OF ok, of _ _ n n' r']
    by (auto simp: tcindex_arg_def Let_def or_fail_ret put32_ret dest!: after_next_ret split: if_splits list.splits)
qed

lemma fw_ends: "ext_ok fx \<Longrightarrow> fw_parse_opt fx handle argv n \<noteq> None"
  by (auto simp: fw_parse_opt_def Let_def fw.options_end split: option.splits)

lemma tcindex_ends: "ext_ok fx \<Longrightarrow> tcindex_parse_opt fx handle argv n \<noteq> None"
  by (auto simp: tcindex_parse_opt_def tcindex.options_end split: option.splits)

end
