(* ===== verification/F_Fw_Props.thy ===== *)
theory F_Fw_Props
  imports F_Fw
begin

unbundle bit_operations_syntax

text \<open>
  Filters by mark are printed as they were entered; the size of the table of an index filter is not.
\<close>

section \<open>Marks\<close>

lemma get_u32_0x: "get_u32 (''0x'' @ fmt_x (v :: u32)) 0 = Some v"
proof -
  have "whole_number 0 (''0x'' @ fmt_x v) = Some (False, unat v)" by (simp add: whole_number_def fmt_x_def scan_number_0x [simplified])
  from get_u32.parse_plain [OF this] show ?thesis using unat_less [of v] by simp
qed

definition mark_text :: "u32 \<Rightarrow> u32 option \<Rightarrow> string" where
  "mark_text mark msk = ''0x'' @ fmt_x mark @ (case msk of None \<Rightarrow> [] | Some m \<Rightarrow> ''/0x'' @ fmt_x m)"

lemma no_slash: "CHR ''/'' \<notin> set (''0x'' @ fmt_x (v :: u32))"
proof
  assume "CHR ''/'' \<in> set (''0x'' @ fmt_x v)"
  then have "CHR ''/'' \<in> set (fmt_base 16 (unat v))" by (simp add: fmt_x_def)
  then obtain d where "d < 16" "CHR ''/'' = digit_char d" using fmt_base_digits [of 16 "CHR ''/''" "unat v"] by auto
  moreover have "digit_val (CHR ''/'') = 36" by (simp add: digit_val_def)
  ultimately show False using digit_char_val [of d] by simp
qed

lemma fw_handle_text: "fw_handle (mark_text mark msk) = Some (mark, msk)"
proof -
  let ?t = "''0x'' @ fmt_x mark"
  have t: "x \<noteq> CHR ''/''" if "x \<in> set ?t" for x using that no_slash by blast
  have up: "upto_chr (?t @ r) (CHR ''/'') = ?t" if "r = [] \<or> hd r = CHR ''/''" for r
    using that t by (cases r) (simp_all add: upto_chr_def takeWhile_append2)
  have dr: "dropWhile (\<lambda>x. x \<noteq> CHR ''/'') (?t @ r) = dropWhile (\<lambda>x. x \<noteq> CHR ''/'') r" for r
    using t by (simp add: dropWhile_append2)
  show ?thesis
  proof (cases msk)
    case None
    then have "mark_text mark msk = ?t @ []" by (simp add: mark_text_def)
    then show ?thesis using up [of "[]"] dr [of "[]"] get_u32_0x [of mark] None by (simp only: fw_handle_def strchr_def) simp
  next
    case (Some m)
    then have "mark_text mark msk = ?t @ CHR ''/'' # ''0x'' @ fmt_x m" by (simp add: mark_text_def)
    then show ?thesis
      using up [of "CHR ''/'' # ''0x'' @ fmt_x m"] dr [of "CHR ''/'' # ''0x'' @ fmt_x m"] get_u32_0x [of mark] get_u32_0x [of m] Some
      by (simp only: fw_handle_def strchr_def) simp
  qed
qed

lemma classid_sprint: "get_tc_classid (sprint_tc_classid h) = Some h"
  unfolding sprint_tc_classid_def by (rule classid_text) (simp add: SPRINT_BSIZE_def)

definition fw_attrs :: "u32 option \<Rightarrow> u32 \<Rightarrow> (u16 \<times> u8 list \<times> u8 list) list" where
  "fw_attrs msk c = (case msk of None \<Rightarrow> [] | Some m \<Rightarrow> [(TCA_FW_MASK, le_bytes 4 m, [])]) @ [(TCA_FW_CLASSID, le_bytes 4 c, [])]"

lemma fw_loop:
  assumes "grown hdr n (as @ [(TCA_OPTIONS, [], [])]) n0" "16384 \<le> length n" "hdr + length (encs as) + 40 \<le> 4096"
  shows "\<exists>n1. arg_loop (fw_arg fx) (length [''classid'', sprint_tc_classid c]) [''classid'', sprint_tc_classid c]
      (case msk of None \<Rightarrow> n0 | Some m \<Rightarrow> snd (addattr32 n0 MAX_MSG TCA_FW_MASK m)) = Some (Ret (Some n1)) \<and>
    grown hdr n (as @ [(TCA_OPTIONS, [], [])] @ fw_attrs msk c) n1"
proof -
  let ?n0 = "case msk of None \<Rightarrow> n0 | Some m \<Rightarrow> snd (addattr32 n0 MAX_MSG TCA_FW_MASK m)"
  let ?ms = "case msk of None \<Rightarrow> [] | Some m \<Rightarrow> [(TCA_FW_MASK, le_bytes 4 m, [])]"
  have mx: "unat MAX_MSG = 16384" by (simp add: MAX_MSG_def)
  have g: "grown hdr n ((as @ [(TCA_OPTIONS, [], [])]) @ ?ms) ?n0"
    using assms add_grown [OF assms(1), of MAX_MSG "le_bytes 4 _" TCA_FW_MASK] mx by (auto simp: addattr32_def split: option.split)
  have "grown hdr n (((as @ [(TCA_OPTIONS, [], [])]) @ ?ms) @ [(TCA_FW_CLASSID, le_bytes 4 c, [])]) (snd (addattr_l ?n0 4096 TCA_FW_CLASSID (le_bytes 4 c)))"
    by (rule add_grown [OF g]) (use assms(2,3) in \<open>auto split: option.split\<close>)
  then show ?thesis
    by (simp add: fw_attrs_def fw_arg_def matches_0_iff after_next_def NEXT_ARG_def or_fail_def put32_def classid_sprint)
qed

text \<open>
  A filter by mark is listed as it was entered: mark, mask and class of the command line, read into a message and
  printed by \<^verbatim>\<open>fw_print_opt\<close> from what the parser of attributes finds in it, give the same text. Only a full
  mask is left out, and a mark of zero without a mask.
\<close>

theorem fw_printed_as_entered:
  assumes "nl_msg 36 as n" "16384 \<le> length n" "76 + length (encs as) \<le> 4096" "first_attr 2 as = None" "2 \<le> mx"
  shows "\<exists>n' opt. fw_parse_opt fx (Some (mark_text mark msk)) [''classid'', sprint_tc_classid c] n = Some (Ret (0, n')) \<and>
    tcm_handle n' = mark \<and> fst (parse_rtattr mx (drop 36 n') (uint (nlmsg_len n') - 36)) ! unat TCA_OPTIONS = Some opt \<and>
    fw_print_opt fx (Some opt) (tcm_handle n') =
      Some (0, (if mark = 0 \<and> msk = None then []
                else ''handle '' @ mark_text mark (if msk = Some 0xFFFFFFFF then None else msk) @ '' '') @
               ''classid '' @ sprint_tc_classid c @ '' '')"
proof -
  let ?n = "poke 24 (le_bytes 4 mark) n"
  have l: "36 \<le> length n" "length ?n = length n" using assms(2) by (simp_all add: length_poke)
  have m: "nl_msg 36 as ?n" by (rule poke_hdr_msg [OF assms(1)]) simp_all
  have small: "length (encs (fw_attrs msk c)) < 60000" by (simp add: fw_attrs_def split: option.split)
  let ?first = "\<lambda>n0. case msk of None \<Rightarrow> n0 | Some m \<Rightarrow> snd (addattr32 n0 MAX_MSG TCA_FW_MASK m)"
  have "\<exists>n'. in_options (fw_arg fx) 4096 ?first [''classid'', sprint_tc_classid c] ?n = Some (Ret (0, n')) \<and>
      grown 36 ?n (as @ [(TCA_OPTIONS, encs (fw_attrs msk c), [])]) n'"
    by (rule in_options_msg [OF m _ _ small fw_loop]) (use assms(2,3) l in simp_all)
  then obtain n' where n': "fw_parse_opt fx (Some (mark_text mark msk)) [''classid'', sprint_tc_classid c] n = Some (Ret (0, n'))"
    "grown 36 ?n (as @ [(TCA_OPTIONS, encs (fw_attrs msk c), [])]) n'"
    by (auto simp: fw_parse_opt_def fw_handle_text Let_def)
  have "tcm_handle n' = tcm_handle ?n" using peek_same_part [of 32 n' ?n 24] n'(2) by (simp add: grown_def tcm_handle_def)
  then have h: "tcm_handle n' = mark" using assms(2) by (simp add: tcm_handle_def peek_poke_same)
  have "list_all attr_ok (fw_attrs msk c)" by (simp add: fw_attrs_def align4_def split: option.split)
  from options_read [OF _ assms(4,5) this, of 36 n' TCA_FW_MAX] n'(2)
  obtain opt where opt: "fst (parse_rtattr mx (drop 36 n') (uint (nlmsg_len n') - 36)) ! unat TCA_OPTIONS = Some opt"
    "\<forall>u \<le> TCA_FW_MAX. case first_attr u (fw_attrs msk c) of
        None \<Rightarrow> parse_rtattr_nested TCA_FW_MAX opt ! u = None
      | Some d \<Rightarrow> \<exists>a r. parse_rtattr_nested TCA_FW_MAX opt ! u = Some a \<and> RTA_DATA a = d @ r \<and> RTA_PAYLOAD a = int (length d)"
    by (auto simp: grown_def)
  have u: "unat TCA_FW_CLASSID = 1" "unat TCA_FW_POLICE = 2" "unat TCA_FW_INDEV = 3" "unat TCA_FW_ACT = 4" "unat TCA_FW_MASK = 5"
    by (simp_all add: TCA_FW_CLASSID_def TCA_FW_POLICE_def TCA_FW_INDEV_def TCA_FW_ACT_def TCA_FW_MASK_def)
  note entry = opt(2) [rule_format, unfolded TCA_FW_MAX_def]
  have e: "\<exists>a r. parse_rtattr_nested 5 opt ! 1 = Some a \<and> RTA_DATA a = le_bytes 4 c @ r" "parse_rtattr_nested 5 opt ! 2 = None"
    "parse_rtattr_nested 5 opt ! 3 = None" "parse_rtattr_nested 5 opt ! 4 = None"
    "case msk of None \<Rightarrow> parse_rtattr_nested 5 opt ! 5 = None
       | Some x \<Rightarrow> \<exists>a r. parse_rtattr_nested 5 opt ! 5 = Some a \<and> RTA_DATA a = le_bytes 4 x @ r"
    using entry [of 1] entry [of 2] entry [of 3] entry [of 4] entry [of 5] u
    by (auto simp: fw_attrs_def first_attr_def split: option.splits)
  have "fw_print_opt fx (Some opt) mark =
      Some (0, (if mark = 0 \<and> msk = None then []
                else ''handle '' @ mark_text mark (if msk = Some 0xFFFFFFFF then None else msk) @ '' '') @
               ''classid '' @ sprint_tc_classid c @ '' '')"
    using e u by (cases msk) (auto simp: fw_print_opt_def TCA_FW_MAX_def Let_def mark_text_def rta_getattr_u32_def)
  then show ?thesis using n'(1) h opt(1) by auto
qed

text \<open>The mask of a command without options is read and then dropped.\<close>

lemma fw_mask_dropped:
  "fw_parse_opt fx (Some (mark_text mark (Some m))) [] n = fw_parse_opt fx (Some (mark_text mark None)) [] n"
  by (simp add: fw_parse_opt_def fw_handle_text)

section \<open>The table of an index filter\<close>

lemma whole_ulong_dec: "n \<le> ULONG_MAX \<Longrightarrow> whole_ulong (fmt_base 10 n) = Some (of_nat n)"
  by (simp add: whole_ulong_def strtoul_def scan_number_fmt)

lemma low_half: "of_le_bytes (take 2 (le_bytes 4 (w :: u32))) = (ucast w :: u16)"
proof -
  have "ucast w = (ucast (ucast w :: u16) :: u8)" "ucast (drop_bit 8 w) = (ucast (drop_bit 8 (ucast w :: u16)) :: u8)"
    by (rule bit_word_eqI; auto simp: bit_simps)+
  then have "take 2 (le_bytes 4 w) = le_bytes 2 (ucast w :: u16)" by (simp add: le_bytes_def numeral_eq_Suc)
  then show ?thesis by simp
qed

lemma hash_pass:
  assumes "0 < k" "k \<le> 0x10000"
  shows "tcindex_arg fx [''hash'', fmt_base 10 k] n = put32 4096 TCA_TCINDEX_HASH (of_nat k) [] n"
proof -
  have u: "unat (of_nat k :: u32) = k" using assms(2) by (intro unat_of_nat_eq) simp
  have s: "sint (of_nat k :: u32) = int k"
    using assms(2) sint_of_int_32 [of "int k"] by (simp add: INT_MIN_def INT_MAX_def)
  have "(ucast (of_nat k :: u64) :: u32) = of_nat k" using assms(2) by (simp add: unsigned_of_nat take_bit_nat_eq_self)
  moreover have "(of_nat k :: u32) \<noteq> 0" using u assms(1) by (metis unat_0 less_irrefl)
  ultimately show ?thesis
    using assms s whole_ulong_dec [of k] by (simp add: tcindex_arg_def after_next_def NEXT_ARG_def or_fail_def ULONG_MAX_def)
qed

text \<open>
  The size of the table of an index filter is listed modulo 65536: every size that is accepted is sent to the
  kernel, and every one but the largest is listed as entered. The largest is listed as zero, which is refused
  when it is entered again.
\<close>

theorem tcindex_hash_listed:
  assumes "nl_msg 36 as n" "4096 \<le> length n" "76 + length (encs as) \<le> 4096" "first_attr 2 as = None" "2 \<le> mx" "0 < k" "k \<le> 0x10000"
  shows "\<exists>n' opt. tcindex_parse_opt fx None [''hash'', fmt_base 10 k] n = Some (Ret (0, n')) \<and>
    fst (parse_rtattr mx (drop 36 n') (uint (nlmsg_len n') - 36)) ! unat TCA_OPTIONS = Some opt \<and>
    tcindex_print_opt fx (Some opt) (-1) = Some (0, ''hash '' @ fmt_base 10 (if k = 0x10000 then 0 else k) @ '' '')"
    "tcindex_parse_opt fx None [''hash'', fmt_base 10 0] n = Some (Ret (-1, n))"
proof -
  let ?X = "[(TCA_TCINDEX_HASH, le_bytes 4 (of_nat k :: u32), [])]"
  have "\<exists>n'. in_options (tcindex_arg fx) 4096 (\<lambda>n1. n1) [''hash'', fmt_base 10 k] n = Some (Ret (0, n')) \<and>
      grown 36 n (as @ [(TCA_OPTIONS, encs ?X, [])]) n'"
  proof (rule in_options_msg [OF assms(1)])
    fix n0
    assume g: "grown 36 n (as @ [(TCA_OPTIONS, [], [])]) n0"
    have "grown 36 n ((as @ [(TCA_OPTIONS, [], [])]) @ ?X) (snd (addattr_l n0 4096 TCA_TCINDEX_HASH (le_bytes 4 (of_nat k :: u32))))"
      by (rule add_grown [OF g]) (use assms(2,3) in simp_all)
    then show "\<exists>n1. arg_loop (tcindex_arg fx) (length [''hash'', fmt_base 10 k]) [''hash'', fmt_base 10 k] n0 = Some (Ret (Some n1)) \<and>
        grown 36 n (as @ [(TCA_OPTIONS, [], [])] @ ?X) n1"
      by (simp add: hash_pass [OF assms(6,7)] put32_def)
  qed (use assms(2,3) in simp_all)
  then obtain n' where n': "tcindex_parse_opt fx None [''hash'', fmt_base 10 k] n = Some (Ret (0, n'))"
    "grown 36 n (as @ [(TCA_OPTIONS, encs ?X, [])]) n'" by (auto simp: tcindex_parse_opt_def)
  have "list_all attr_ok ?X" by (simp add: align4_def)
  from options_read [OF _ assms(4,5) this, of 36 n' TCA_TCINDEX_MAX] n'(2)
  obtain opt where opt: "fst (parse_rtattr mx (drop 36 n') (uint (nlmsg_len n') - 36)) ! unat TCA_OPTIONS = Some opt"
    "\<forall>u \<le> TCA_TCINDEX_MAX. case first_attr u ?X of
        None \<Rightarrow> parse_rtattr_nested TCA_TCINDEX_MAX opt ! u = None
      | Some d \<Rightarrow> \<exists>a r. parse_rtattr_nested TCA_TCINDEX_MAX opt ! u = Some a \<and> RTA_DATA a = d @ r \<and> RTA_PAYLOAD a = int (length d)"
    by (auto simp: grown_def)
  have u: "unat TCA_TCINDEX_HASH = 1" "unat TCA_TCINDEX_MASK = 2" "unat TCA_TCINDEX_SHIFT = 3" "unat TCA_TCINDEX_FALL_THROUGH = 4"
    "unat TCA_TCINDEX_CLASSID = 5" "unat TCA_TCINDEX_POLICE = 6"
    by (simp_all add: TCA_TCINDEX_HASH_def TCA_TCINDEX_MASK_def TCA_TCINDEX_SHIFT_def TCA_TCINDEX_FALL_THROUGH_def
        TCA_TCINDEX_CLASSID_def TCA_TCINDEX_POLICE_def)
  note entry = opt(2) [rule_format, unfolded TCA_TCINDEX_MAX_def]
  have e: "\<exists>a r. parse_rtattr_nested 7 opt ! 1 = Some a \<and> RTA_DATA a = le_bytes 4 (of_nat k :: u32) @ r \<and> RTA_PAYLOAD a = 4"
    "parse_rtattr_nested 7 opt ! 2 = None" "parse_rtattr_nested 7 opt ! 3 = None" "parse_rtattr_nested 7 opt ! 4 = None"
    "parse_rtattr_nested 7 opt ! 5 = None" "parse_rtattr_nested 7 opt ! 6 = None"
    using entry [of 1] entry [of 2] entry [of 3] entry [of 4] entry [of 5] entry [of 6] u by (auto simp: first_attr_def)
  have w: "unat (ucast (of_nat k :: u32) :: u16) = (if k = 0x10000 then 0 else k)"
    using assms(7) by (auto simp: unsigned_of_nat take_bit_nat_eq_self)
  have "tcindex_print_opt fx (Some opt) (-1) = Some (0, ''hash '' @ fmt_base 10 (if k = 0x10000 then 0 else k) @ '' '')"
    using e u by (auto simp: tcindex_print_opt_def TCA_TCINDEX_MAX_def Let_def piece_def rta_getattr_u16_def low_half fmt_u_def w)
  then show "\<exists>n' opt. tcindex_parse_opt fx None [''hash'', fmt_base 10 k] n = Some (Ret (0, n')) \<and>
    fst (parse_rtattr mx (drop 36 n') (uint (nlmsg_len n') - 36)) ! unat TCA_OPTIONS = Some opt \<and>
    tcindex_print_opt fx (Some opt) (-1) = Some (0, ''hash '' @ fmt_base 10 (if k = 0x10000 then 0 else k) @ '' '')"
    using n'(1) opt(1) by auto
  show "tcindex_parse_opt fx None [''hash'', fmt_base 10 0] n = Some (Ret (-1, n))"
    using whole_ulong_dec [of 0]
    by (simp add: tcindex_parse_opt_def in_options_def close_options_def tcindex_arg_def after_next_def NEXT_ARG_def or_fail_def ULONG_MAX_def)
qed

end
