(* ===== verification/Ss_Filter.thy ===== *)
theory Ss_Filter
  imports Utils_Cmd Netlink_Attr
begin

unbundle bit_operations_syntax

text \<open>
  Socket filters of the \<^verbatim>\<open>ss\<close> command (\<^verbatim>\<open>misc/ss.c\<close>, \<^verbatim>\<open>misc/ssfilter.h\<close>): the interpreter that \<^verbatim>\<open>ss\<close> runs on the sockets
  it reads from files, and the compiler to the jump code that the kernel runs on the sockets it
  dumps. \<^verbatim>\<open>fnmatch\<close> and the range of ephemeral ports are parameters.
\<close>

section \<open>Filters\<close>

definition AF_UNIX :: nat where "AF_UNIX = 1"

text \<open>
  A condition is a chain of addresses. An address of the family \<^verbatim>\<open>AF_UNIX\<close> keeps a pointer to a
  string in its data; the string is the component \<open>aa_path\<close>.
\<close>

record aafilter =
  aa_addr :: inet_prefix
  aa_path :: "string option"
  aa_port :: int

datatype ssfilter =
  SSF_DCOND "aafilter list"
| SSF_SCOND "aafilter list"
| SSF_OR ssfilter ssfilter
| SSF_AND ssfilter ssfilter
| SSF_NOT ssfilter
| SSF_D_GE aafilter
| SSF_D_LE aafilter
| SSF_S_GE aafilter
| SSF_S_LE aafilter
| SSF_S_AUTO

text \<open>The part of a socket's state that filters look at.\<close>

record tcpstat =
  ts_local :: inet_prefix
  ts_lpath :: "string option"
  ts_lport :: int
  ts_remote :: inet_prefix
  ts_rpath :: "string option"
  ts_rport :: int

definition inet2_addr_match :: "inet_prefix \<Rightarrow> inet_prefix \<Rightarrow> nat \<Rightarrow> int" where
  "inet2_addr_match a p plen =
     (if inet_addr_match a p plen = 0 then 0
      else if pfx_family p = of_nat AF_INET \<and> pfx_family a = of_nat AF_INET6 \<and>
              data_word a 0 = 0 \<and> data_word a 1 = 0 \<and> data_word a 2 = htonl 0xffff
      then inet_addr_match (store_data (le_bytes 4 (data_word a 3)) a) p plen
      else 1)"

definition unix_match :: "(string \<Rightarrow> string \<Rightarrow> bool) \<Rightarrow> string option \<Rightarrow> string option \<Rightarrow> bool" where
  "unix_match fnmatch addr pattern =
     (case pattern of
        None \<Rightarrow> True
      | Some pat \<Rightarrow> fnmatch pat (case addr of None \<Rightarrow> [] | Some a \<Rightarrow> a))"

text \<open>A condition against one end of a socket; the chain is not empty.\<close>

definition cond_match :: "(string \<Rightarrow> string \<Rightarrow> bool) \<Rightarrow> aafilter list \<Rightarrow> inet_prefix \<Rightarrow> string option \<Rightarrow> int \<Rightarrow> bool" where
  "cond_match fnmatch chain addr path port =
     (let a = hd chain
      in if pfx_family (aa_addr a) = of_nat AF_UNIX then unix_match fnmatch path (aa_path a)
         else if aa_port a \<noteq> -1 \<and> aa_port a \<noteq> port then False
         else if pfx_bitlen (aa_addr a) \<noteq> 0
         then list_ex (\<lambda>b. inet2_addr_match addr (aa_addr b) (nat (pfx_bitlen (aa_addr b))) = 0) chain
         else True)"

text \<open>
  \<open>(low, high)\<close> is the range in the file of ephemeral ports, (0, 65535) when it cannot be opened. The
  test \<^verbatim>\<open>s->local.data == 0\<close> of packet sockets compares the address of an array with the null
  pointer, which is never true.
\<close>

definition autobound :: "int \<times> int \<Rightarrow> tcpstat \<Rightarrow> bool" where
  "autobound ports s =
     (if pfx_family (ts_local s) = of_nat AF_UNIX
      then (case ts_lpath s of
              None \<Rightarrow> True
            | Some p \<Rightarrow> length p = 6 \<and> hd p = CHR ''@'' \<and> list_all (\<lambda>c. c \<in> set ''0123456789abcdef'') (tl p))
      else if pfx_family (ts_local s) = of_nat AF_PACKET then False
      else if pfx_family (ts_local s) = 16 then ts_lport s < 0
      else ts_lport s \<ge> fst ports \<and> ts_lport s \<le> snd ports)"

fun run_ssfilter :: "(string \<Rightarrow> string \<Rightarrow> bool) \<Rightarrow> int \<times> int \<Rightarrow> ssfilter \<Rightarrow> tcpstat \<Rightarrow> bool" where
  "run_ssfilter fm ports SSF_S_AUTO s = autobound ports s"
| "run_ssfilter fm ports (SSF_DCOND as) s = cond_match fm as (ts_remote s) (ts_rpath s) (ts_rport s)"
| "run_ssfilter fm ports (SSF_SCOND as) s = cond_match fm as (ts_local s) (ts_lpath s) (ts_lport s)"
| "run_ssfilter fm ports (SSF_D_GE a) s = (ts_rport s \<ge> aa_port a)"
| "run_ssfilter fm ports (SSF_D_LE a) s = (ts_rport s \<le> aa_port a)"
| "run_ssfilter fm ports (SSF_S_GE a) s = (ts_lport s \<ge> aa_port a)"
| "run_ssfilter fm ports (SSF_S_LE a) s = (ts_lport s \<le> aa_port a)"
| "run_ssfilter fm ports (SSF_AND p q) s = (run_ssfilter fm ports p s \<and> run_ssfilter fm ports q s)"
| "run_ssfilter fm ports (SSF_OR p q) s = (run_ssfilter fm ports p s \<or> run_ssfilter fm ports q s)"
| "run_ssfilter fm ports (SSF_NOT p) s = (\<not> run_ssfilter fm ports p s)"

section \<open>Jump code\<close>

definition INET_DIAG_BC_JMP :: u8 where "INET_DIAG_BC_JMP = 1"
definition INET_DIAG_BC_S_GE :: u8 where "INET_DIAG_BC_S_GE = 2"
definition INET_DIAG_BC_S_LE :: u8 where "INET_DIAG_BC_S_LE = 3"
definition INET_DIAG_BC_D_GE :: u8 where "INET_DIAG_BC_D_GE = 4"
definition INET_DIAG_BC_D_LE :: u8 where "INET_DIAG_BC_D_LE = 5"
definition INET_DIAG_BC_AUTO :: u8 where "INET_DIAG_BC_AUTO = 6"
definition INET_DIAG_BC_S_COND :: u8 where "INET_DIAG_BC_S_COND = 7"
definition INET_DIAG_BC_D_COND :: u8 where "INET_DIAG_BC_D_COND = 8"

text \<open>\<^verbatim>\<open>struct inet_diag_bc_op\<close>: the code, and the distances of the next instruction after success and failure.\<close>

definition bc_op :: "u8 \<Rightarrow> u8 \<Rightarrow> u16 \<Rightarrow> u8 list" where
  "bc_op code yes no = code # yes # le_bytes 2 no"

text \<open>A call returns a value, ends in \<^verbatim>\<open>abort\<close>, or is undefined or does not end.\<close>

datatype 'a cabort = Done 'a | Aborted | Undef

lemma uint_pos: "0 < unat w \<Longrightarrow> 0 < uint w"
  by (metis of_nat_0_less_iff uint_nat)

function ssfilter_patch :: "u8 list \<Rightarrow> int \<Rightarrow> int \<Rightarrow> u8 list cabort" where
  "ssfilter_patch a len reloc =
     (if len > 0
      then let yes = unat (a ! 1);
               a1 = (if uint (peek16 2 a) = len + 4 then poke 2 (le_bytes 2 (of_int (uint (peek16 2 a) + reloc) :: u16)) a else a)
           in if yes = 0 then Undef
              else (case ssfilter_patch (drop yes a1) (len - int yes) reloc of
                      Done r \<Rightarrow> Done (take yes a1 @ r)
                    | Aborted \<Rightarrow> Aborted
                    | Undef \<Rightarrow> Undef)
      else if len < 0 then Aborted else Done a)"
  by pat_completeness auto
termination by (relation "measure (\<lambda>(_, len, _). nat len)") (simp_all add: uint_pos)

declare ssfilter_patch.simps [simp del]

text \<open>
  \<^verbatim>\<open>struct inet_diag_hostcond\<close>: \<open>junk\<close> is in the two bytes between \<^verbatim>\<open>prefix_len\<close> and \<^verbatim>\<open>port\<close>, which are not written.
\<close>

definition cond_alen :: "aafilter \<Rightarrow> nat" where
  "cond_alen a = (if pfx_family (aa_addr a) = of_nat AF_INET6 then 16 else 4)"

definition hostcond :: "u16 \<Rightarrow> aafilter \<Rightarrow> u8 list" where
  "hostcond junk a =
     [pfx_family (aa_addr a), of_int (pfx_bitlen (aa_addr a))] @ le_bytes 2 junk @
     le_bytes 4 (of_int (aa_port a) :: u32) @ take (cond_alen a) (pfx_data (aa_addr a))"

definition cond_len :: "aafilter list \<Rightarrow> nat" where
  "cond_len chain = length chain * (12 + cond_alen (hd chain)) + (length chain - 1) * 4"

text \<open>The second loop over the chain, which takes every address from the head \<open>a\<close>.\<close>

fun cond_code :: "u16 \<Rightarrow> u8 \<Rightarrow> aafilter \<Rightarrow> nat \<Rightarrow> nat \<Rightarrow> aafilter list \<Rightarrow> u8 list" where
  "cond_code junk code a len off [] = []"
| "cond_code junk code a len off (b # next) =
     (let oplen = cond_alen a + 4 + 8
      in bc_op code (of_nat oplen) (of_nat (oplen + 4)) @ hostcond junk a @
         (if next \<noteq> []
          then bc_op INET_DIAG_BC_JMP 4 (of_nat (len - (off + oplen))) @ cond_code junk code a len (off + oplen + 4) next
          else []))"

text \<open>\<^verbatim>\<open>char l1\<close>: the length of a part, in eight bits with sign.\<close>

definition char_len :: "u8 list \<Rightarrow> int" where
  "char_len c = sint (of_nat (length c) :: u8)"

text \<open>
  \<^verbatim>\<open>malloc\<close> of a negative number fails and the program is aborted; \<^verbatim>\<open>memcpy\<close> with a negative length
  is undefined. Other allocations succeed.
\<close>

definition join_parts :: "int \<Rightarrow> int list \<Rightarrow> u8 list cabort \<Rightarrow> u8 list cabort" where
  "join_parts len lens result =
     (if len < 0 then Aborted else if list_ex (\<lambda>l. l < 0) lens then Undef else result)"

definition port_test :: "u8 \<Rightarrow> aafilter \<Rightarrow> u8 list" where
  "port_test code x = bc_op code 8 12 @ bc_op 0 0 (of_int (aa_port x))"

fun ssfilter_bytecompile :: "u16 \<Rightarrow> ssfilter \<Rightarrow> u8 list cabort" where
  "ssfilter_bytecompile junk SSF_S_AUTO = Done (bc_op INET_DIAG_BC_AUTO 4 8)"
| "ssfilter_bytecompile junk (SSF_DCOND as) = Done (cond_code junk INET_DIAG_BC_D_COND (hd as) (cond_len as) 0 as)"
| "ssfilter_bytecompile junk (SSF_SCOND as) = Done (cond_code junk INET_DIAG_BC_S_COND (hd as) (cond_len as) 0 as)"
| "ssfilter_bytecompile junk (SSF_D_GE x) = Done (port_test INET_DIAG_BC_D_GE x)"
| "ssfilter_bytecompile junk (SSF_D_LE x) = Done (port_test INET_DIAG_BC_D_LE x)"
| "ssfilter_bytecompile junk (SSF_S_GE x) = Done (port_test INET_DIAG_BC_S_GE x)"
| "ssfilter_bytecompile junk (SSF_S_LE x) = Done (port_test INET_DIAG_BC_S_LE x)"
| "ssfilter_bytecompile junk (SSF_AND p q) =
     (case ssfilter_bytecompile junk p of
        Done a1 \<Rightarrow>
          (case ssfilter_bytecompile junk q of
             Done a2 \<Rightarrow>
               let l1 = char_len a1; l2 = char_len a2
               in join_parts (l1 + l2) [l1, l2] (ssfilter_patch (take (nat l1) a1 @ take (nat l2) a2) l1 l2)
           | err \<Rightarrow> err)
      | err \<Rightarrow> err)"
| "ssfilter_bytecompile junk (SSF_OR p q) =
     (case ssfilter_bytecompile junk p of
        Done a1 \<Rightarrow>
          (case ssfilter_bytecompile junk q of
             Done a2 \<Rightarrow>
               let l1 = char_len a1; l2 = char_len a2
               in join_parts (l1 + l2 + 4) [l1, l2]
                    (Done (take (nat l1) a1 @ bc_op INET_DIAG_BC_JMP 4 (of_int (l2 + 4)) @ take (nat l2) a2))
           | err \<Rightarrow> err)
      | err \<Rightarrow> err)"
| "ssfilter_bytecompile junk (SSF_NOT p) =
     (case ssfilter_bytecompile junk p of
        Done a1 \<Rightarrow>
          let l1 = char_len a1
          in join_parts (l1 + 4) [l1] (Done (take (nat l1) a1 @ bc_op INET_DIAG_BC_JMP 4 8))
      | err \<Rightarrow> err)"

end
