(* ===== verification/Ss_Code.thy ===== *)
theory Ss_Code
  imports Ss_Filter
begin

unbundle bit_operations_syntax

text \<open>
  The correctness of the filter compiler of \<^verbatim>\<open>ss\<close>. Code is first described with symbolic exits: an
  instruction that fails continues at a place inside the code or leaves it as a failure. Assembling
  turns exits into distances; the source's patching of jumps is assembling with another distance to
  the failure exit.
\<close>

section \<open>Symbolic code\<close>

datatype bc_exit = Inner nat | Fail

type_synonym instr = "u8 \<times> u8 list \<times> bc_exit"

fun bc_size :: "instr list \<Rightarrow> nat" where
  "bc_size [] = 0"
| "bc_size ((c, p, e) # S) = 4 + length p + bc_size S"

text \<open>The failure exit is \<open>4 + r\<close> bytes behind the code.\<close>

definition distance :: "nat \<Rightarrow> nat \<Rightarrow> bc_exit \<Rightarrow> nat" where
  "distance r rest e = (case e of Inner d \<Rightarrow> d | Fail \<Rightarrow> rest + 4 + r)"

fun asm :: "nat \<Rightarrow> instr list \<Rightarrow> u8 list" where
  "asm r [] = []"
| "asm r ((c, p, e) # S) =
     bc_op c (of_nat (4 + length p)) (of_nat (distance r (4 + length p + bc_size S) e)) @ p @ asm r S"

fun code_ok :: "instr list \<Rightarrow> bool" where
  "code_ok [] = True"
| "code_ok ((c, p, e) # S) \<longleftrightarrow>
     4 + length p < 256 \<and> (case e of Inner d \<Rightarrow> d \<le> 4 + length p + bc_size S | Fail \<Rightarrow> True) \<and> code_ok S"

text \<open>Code whose failures continue behind a four-byte instruction that follows it.\<close>

fun resolve :: "instr list \<Rightarrow> instr list" where
  "resolve [] = []"
| "resolve ((c, p, e) # S) = (c, p, Inner (distance 0 (4 + length p + bc_size S) e)) # resolve S"

lemma bc_size_simps [simp]: "bc_size (S @ T) = bc_size S + bc_size T" "bc_size (resolve S) = bc_size S"
proof -
  show "bc_size (S @ T) = bc_size S + bc_size T" by (induction S rule: bc_size.induct) simp_all
  show "bc_size (resolve S) = bc_size S" by (induction S rule: bc_size.induct) simp_all
qed

lemma length_asm [simp]: "length (asm r S) = bc_size S"
  by (induction S rule: bc_size.induct) (simp_all add: bc_op_def)

lemma asm_append: "asm r (S @ T) = asm (r + bc_size T) S @ asm r T"
  by (induction S rule: bc_size.induct) (simp_all add: distance_def ac_simps split: bc_exit.split)

lemma asm_resolve: "asm r (resolve S) = asm 0 S"
  by (induction S rule: bc_size.induct) (simp_all add: distance_def)

lemma code_ok_append: "code_ok S \<Longrightarrow> code_ok T \<Longrightarrow> code_ok (S @ T)"
  by (induction S rule: bc_size.induct) (auto split: bc_exit.splits)

lemma code_ok_resolve: "code_ok S \<Longrightarrow> code_ok T \<Longrightarrow> 4 \<le> bc_size T \<Longrightarrow> code_ok (resolve S @ T)"
  by (induction S rule: bc_size.induct) (auto simp: distance_def split: bc_exit.splits)

lemma bc_op_read:
  "length (bc_op c y n) = 4" "(bc_op c y n @ r) ! 0 = c" "(bc_op c y n @ r) ! 1 = y" "peek16 2 (bc_op c y n @ r) = n"
  by (simp_all add: bc_op_def peek16_def)

text \<open>Patching moves the failure exit.\<close>

lemma ssfilter_patch_asm:
  "code_ok S \<Longrightarrow> bc_size S + 4 + r < 2 ^ 16 \<Longrightarrow>
   ssfilter_patch (asm 0 S @ rest) (int (bc_size S)) (int r) = Done (asm r S @ rest)"
proof (induction S rule: bc_size.induct)
  case 1
  then show ?case by (simp add: ssfilter_patch.simps)
next
  case (2 c p e S)
  let ?l = "4 + length p" and ?n = "\<lambda>r. of_nat (distance r (4 + length p + bc_size S) e) :: u16"
  let ?a = "asm 0 ((c, p, e) # S) @ rest"
  let ?a1 = "if uint (peek16 2 ?a) = int (bc_size ((c, p, e) # S)) + 4
    then poke 2 (le_bytes 2 (of_int (uint (peek16 2 ?a) + int r) :: u16)) ?a else ?a"
  have a: "?a = bc_op c (of_nat ?l) (?n 0) @ p @ asm 0 S @ rest" by simp
  have y: "unat (?a ! 1) = ?l" using 2(2) unfolding a by (simp only: bc_op_read code_ok.simps) (intro unat_of_nat_eq, simp)
  have d: "distance 0 (?l + bc_size S) e < 2 ^ 16" using 2(2,3) by (auto simp: distance_def split: bc_exit.splits)
  have n: "peek16 2 ?a = ?n 0" unfolding a by (rule bc_op_read)
  have "unat (?n 0) = distance 0 (?l + bc_size S) e" using d by (intro unat_of_nat_eq) simp
  then have u: "uint (peek16 2 ?a) = int (distance 0 (?l + bc_size S) e)" unfolding n by (simp add: uint_nat)
  have poke: "poke 2 (le_bytes 2 w) (bc_op c z v @ t) = bc_op c z w @ t" for z v w and t :: "u8 list"
    by (simp add: poke_def bc_op_def)
  have a1: "?a1 = bc_op c (of_nat ?l) (?n r) @ p @ asm 0 S @ rest"
  proof (cases e)
    case (Inner x)
    then have "?a1 = ?a" using 2(2) u by (simp add: distance_def)
    then show ?thesis using Inner by (simp add: distance_def)
  next
    case Fail
    then have "?a1 = poke 2 (le_bytes 2 (?n r)) ?a" using u by (simp add: distance_def add.assoc)
    then show ?thesis unfolding a poke by simp
  qed
  have parts: "drop ?l ?a1 = asm 0 S @ rest" "take ?l ?a1 = bc_op c (of_nat ?l) (?n r) @ p"
    unfolding a1 by (simp_all add: bc_op_read)
  have "ssfilter_patch ?a (int (bc_size ((c, p, e) # S))) (int r) =
      (case ssfilter_patch (drop ?l ?a1) (int (bc_size ((c, p, e) # S)) - int ?l) (int r) of
         Done t \<Rightarrow> Done (take ?l ?a1 @ t) | Aborted \<Rightarrow> Aborted | Undef \<Rightarrow> Undef)"
    by (subst ssfilter_patch.simps) (simp only: Let_def y, simp)
  also have "ssfilter_patch (drop ?l ?a1) (int (bc_size ((c, p, e) # S)) - int ?l) (int r) = Done (asm r S @ rest)"
    unfolding parts(1) using 2 by simp
  finally show ?case unfolding parts(2) by simp
qed

section \<open>The code of a filter\<close>

fun sym_cond :: "u16 \<Rightarrow> u8 \<Rightarrow> aafilter \<Rightarrow> aafilter list \<Rightarrow> instr list" where
  "sym_cond junk code a [] = []"
| "sym_cond junk code a (b # next) =
     (if next = [] then [(code, hostcond junk a, Fail)]
      else let S = sym_cond junk code a next
           in (code, hostcond junk a, Inner (4 + length (hostcond junk a) + 4)) # (INET_DIAG_BC_JMP, [], Inner (4 + bc_size S)) # S)"

definition test_port :: "aafilter \<Rightarrow> u8 list" where
  "test_port x = bc_op 0 0 (of_int (aa_port x))"

fun filter_code :: "u16 \<Rightarrow> ssfilter \<Rightarrow> instr list" where
  "filter_code junk SSF_S_AUTO = [(INET_DIAG_BC_AUTO, [], Fail)]"
| "filter_code junk (SSF_DCOND as) = sym_cond junk INET_DIAG_BC_D_COND (hd as) as"
| "filter_code junk (SSF_SCOND as) = sym_cond junk INET_DIAG_BC_S_COND (hd as) as"
| "filter_code junk (SSF_D_GE x) = [(INET_DIAG_BC_D_GE, test_port x, Fail)]"
| "filter_code junk (SSF_D_LE x) = [(INET_DIAG_BC_D_LE, test_port x, Fail)]"
| "filter_code junk (SSF_S_GE x) = [(INET_DIAG_BC_S_GE, test_port x, Fail)]"
| "filter_code junk (SSF_S_LE x) = [(INET_DIAG_BC_S_LE, test_port x, Fail)]"
| "filter_code junk (SSF_AND p q) = filter_code junk p @ filter_code junk q"
| "filter_code junk (SSF_OR p q) = resolve (filter_code junk p) @ (INET_DIAG_BC_JMP, [], Inner (bc_size (filter_code junk q) + 4)) # filter_code junk q"
| "filter_code junk (SSF_NOT p) = resolve (filter_code junk p) @ [(INET_DIAG_BC_JMP, [], Fail)]"

text \<open>
  The filters whose lengths fit the variables of the compiler: \<^verbatim>\<open>char\<close> for the parts of a compound
  filter, the sixteen bits of a jump for a chain.
\<close>

fun filter_size :: "ssfilter \<Rightarrow> nat" where
  "filter_size SSF_S_AUTO = 4"
| "filter_size (SSF_DCOND as) = cond_len as"
| "filter_size (SSF_SCOND as) = cond_len as"
| "filter_size (SSF_AND p q) = filter_size p + filter_size q"
| "filter_size (SSF_OR p q) = filter_size p + 4 + filter_size q"
| "filter_size (SSF_NOT p) = filter_size p + 4"
| "filter_size _ = 8"

definition chain_ok :: "aafilter list \<Rightarrow> bool" where
  "chain_ok as \<longleftrightarrow> as \<noteq> [] \<and> cond_alen (hd as) \<le> length (pfx_data (aa_addr (hd as))) \<and> cond_len as < 2 ^ 15"

fun fits :: "ssfilter \<Rightarrow> bool" where
  "fits (SSF_DCOND as) = chain_ok as"
| "fits (SSF_SCOND as) = chain_ok as"
| "fits (SSF_AND p q) \<longleftrightarrow> fits p \<and> fits q \<and> filter_size p < 128 \<and> filter_size q < 128"
| "fits (SSF_OR p q) \<longleftrightarrow> fits p \<and> fits q \<and> filter_size p < 128 \<and> filter_size q < 128"
| "fits (SSF_NOT p) \<longleftrightarrow> fits p \<and> filter_size p < 128"
| "fits _ = True"

lemma length_hostcond: "cond_alen a \<le> length (pfx_data (aa_addr a)) \<Longrightarrow> length (hostcond junk a) = 8 + cond_alen a"
  by (simp add: hostcond_def)

lemma cond_alen_le: "cond_alen a \<le> 16" by (simp add: cond_alen_def)

lemma sym_cond_size:
  "cond_alen a \<le> length (pfx_data (aa_addr a)) \<Longrightarrow>
   bc_size (sym_cond junk code a as) = length as * (12 + cond_alen a) + (length as - 1) * 4"
proof (induction as)
  case (Cons b as)
  then show ?case by (cases as) (simp_all add: length_hostcond Let_def)
qed simp

lemma cond_code_asm:
  assumes "cond_alen a \<le> length (pfx_data (aa_addr a))" "off + bc_size (sym_cond junk code a as) = len"
  shows "cond_code junk code a len off as = asm 0 (sym_cond junk code a as)"
  using assms(2)
proof (induction as arbitrary: off)
  case (Cons b as)
  show ?case
  proof (cases "as = []")
    case True
    then show ?thesis using assms(1) by (simp add: length_hostcond distance_def ac_simps)
  next
    case False
    let ?S = "sym_cond junk code a as"
    have "off + (cond_alen a + 12) + 4 + bc_size ?S = len"
      using Cons.prems False assms(1) by (simp add: length_hostcond Let_def)
    with Cons.IH [of "off + (cond_alen a + 12) + 4"] show ?thesis
      using False assms(1) by (auto simp: length_hostcond Let_def distance_def ac_simps)
  qed
qed simp

lemma sym_cond_ok:
  assumes "cond_alen a \<le> length (pfx_data (aa_addr a))" shows "code_ok (sym_cond junk code a as)"
  using cond_alen_le [of a] assms by (induction as) (auto simp: length_hostcond Let_def)

lemma filter_code_size: "fits f \<Longrightarrow> bc_size (filter_code junk f) = filter_size f"
  by (induction f) (auto simp: sym_cond_size chain_ok_def cond_len_def test_port_def bc_op_def)

lemma filter_code_ok: "fits f \<Longrightarrow> code_ok (filter_code junk f)"
proof (induction f)
  case (SSF_AND p q)
  then show ?case by (simp add: code_ok_append)
next
  case (SSF_OR p q)
  then have "code_ok ((INET_DIAG_BC_JMP, [], Inner (bc_size (filter_code junk q) + 4)) # filter_code junk q)" by simp
  then show ?case using SSF_OR by (simp only: filter_code.simps fits.simps code_ok_resolve bc_size.simps)
next
  case (SSF_NOT p)
  have "code_ok [(INET_DIAG_BC_JMP, [], Fail)]" by simp
  then show ?case using SSF_NOT code_ok_resolve by (simp del: code_ok.simps)
qed (simp_all add: chain_ok_def test_port_def bc_op_def sym_cond_ok)

lemma char_len_small: "length c < 128 \<Longrightarrow> char_len c = int (length c)"
  by (simp add: char_len_def signed_of_nat signed_take_bit_int_eq_self)

lemma bytecompile_asm: "fits f \<Longrightarrow> ssfilter_bytecompile junk f = Done (asm 0 (filter_code junk f))"
proof (induction f)
  case (SSF_AND p q)
  let ?S = "filter_code junk p" and ?T = "filter_code junk q"
  have "length (asm 0 ?S) < 128" "length (asm 0 ?T) < 128" using SSF_AND.prems by (simp_all add: filter_code_size)
  note l = char_len_small [OF this(1)] char_len_small [OF this(2)]
  have "ssfilter_patch (asm 0 ?S @ asm 0 ?T) (int (bc_size ?S)) (int (bc_size ?T)) = Done (asm (bc_size ?T) ?S @ asm 0 ?T)"
    by (rule ssfilter_patch_asm) (use SSF_AND.prems filter_code_ok in \<open>simp_all add: filter_code_size\<close>)
  then show ?case using SSF_AND l by (simp add: join_parts_def asm_append)
next
  case (SSF_OR p q)
  let ?S = "filter_code junk p" and ?T = "filter_code junk q"
  have "length (asm 0 ?S) < 128" "length (asm 0 ?T) < 128" using SSF_OR.prems by (simp_all add: filter_code_size)
  note l = char_len_small [OF this(1)] char_len_small [OF this(2)]
  show ?case using SSF_OR l by (simp add: join_parts_def asm_append asm_resolve distance_def)
next
  case (SSF_NOT p)
  have "length (asm 0 (filter_code junk p)) < 128" using SSF_NOT.prems by (simp add: filter_code_size)
  note l = char_len_small [OF this]
  show ?case using SSF_NOT l by (simp add: join_parts_def asm_append asm_resolve distance_def)
qed (simp_all add: chain_ok_def cond_code_asm sym_cond_size cond_len_def port_test_def test_port_def bc_op_read distance_def)

section \<open>Running the code\<close>

text \<open>
  What the kernel does with the code, as the layout of \<^verbatim>\<open>struct inet_diag_bc_op\<close> has it: an instruction
  tests its operand and continues \<^verbatim>\<open>yes\<close> bytes further when the test succeeds and \<^verbatim>\<open>no\<close> bytes further
  when it fails, a jump always takes the second way, and a socket is selected when the end of the
  code is reached exactly. The tests themselves are the parameter \<open>tst\<close>.
\<close>

definition bc_next :: "(u8 \<Rightarrow> u8 list \<Rightarrow> bool) \<Rightarrow> u8 list \<Rightarrow> nat" where
  "bc_next tst op =
     (if op ! 0 \<noteq> INET_DIAG_BC_JMP \<and> tst (op ! 0) (take (unat (op ! 1) - 4) (drop 4 op))
      then unat (op ! 1) else unat (peek16 2 op))"

definition bc_machine :: "(u8 \<Rightarrow> u8 list \<Rightarrow> bool) \<Rightarrow> (u8 list \<Rightarrow> nat \<Rightarrow> bool) \<Rightarrow> bool" where
  "bc_machine tst run \<longleftrightarrow>
     (\<forall>bc pos. run bc pos \<longleftrightarrow> (if pos < length bc then run bc (pos + bc_next tst (drop pos bc)) else pos = length bc))"

text \<open>The tests of a filter, as the compiler emits them: of a chain only the first address is used.\<close>

fun code_holds :: "(u8 \<Rightarrow> u8 list \<Rightarrow> bool) \<Rightarrow> u16 \<Rightarrow> ssfilter \<Rightarrow> bool" where
  "code_holds tst junk SSF_S_AUTO = tst INET_DIAG_BC_AUTO []"
| "code_holds tst junk (SSF_DCOND as) = tst INET_DIAG_BC_D_COND (hostcond junk (hd as))"
| "code_holds tst junk (SSF_SCOND as) = tst INET_DIAG_BC_S_COND (hostcond junk (hd as))"
| "code_holds tst junk (SSF_D_GE x) = tst INET_DIAG_BC_D_GE (test_port x)"
| "code_holds tst junk (SSF_D_LE x) = tst INET_DIAG_BC_D_LE (test_port x)"
| "code_holds tst junk (SSF_S_GE x) = tst INET_DIAG_BC_S_GE (test_port x)"
| "code_holds tst junk (SSF_S_LE x) = tst INET_DIAG_BC_S_LE (test_port x)"
| "code_holds tst junk (SSF_AND p q) = (code_holds tst junk p \<and> code_holds tst junk q)"
| "code_holds tst junk (SSF_OR p q) = (code_holds tst junk p \<or> code_holds tst junk q)"
| "code_holds tst junk (SSF_NOT p) = (\<not> code_holds tst junk p)"

text \<open>Code that leaves through its end when \<open>b\<close> holds and through the failure exit otherwise.\<close>

definition exits :: "(u8 list \<Rightarrow> nat \<Rightarrow> bool) \<Rightarrow> instr list \<Rightarrow> bool \<Rightarrow> bool" where
  "exits run S b \<longleftrightarrow>
     (\<forall>r pre post. bc_size S + 4 + r < 2 ^ 16 \<longrightarrow>
        run (pre @ asm r S @ post) (length pre) =
        run (pre @ asm r S @ post) (length pre + bc_size S + (if b then 0 else 4 + r)))"

lemma exitsD:
  assumes "exits run S b" "bc_size S + 4 + r < 2 ^ 16" "bc = pre @ asm r S @ post" "pos = length pre"
  shows "run bc pos = run bc (pos + bc_size S + (if b then 0 else 4 + r))"
  using assms by (simp add: exits_def)

lemma machine_step:
  assumes "bc_machine tst run" "4 + length p < 256" "d < 2 ^ 16"
    and "bc = pre @ bc_op c (of_nat (4 + length p)) (of_nat d) @ p @ post" "pos = length pre"
  shows "run bc pos = run bc (pos + (if c \<noteq> INET_DIAG_BC_JMP \<and> tst c p then 4 + length p else d))"
proof -
  let ?op = "bc_op c (of_nat (4 + length p)) (of_nat d) @ p @ post"
  have y: "unat (?op ! 1) = 4 + length p" using assms(2) unfolding bc_op_read by (intro unat_of_nat_eq) simp
  have n: "unat (peek16 2 ?op) = d" using assms(3) unfolding bc_op_read by (intro unat_of_nat_eq) simp
  have "take (unat (?op ! 1) - 4) (drop 4 ?op) = p" unfolding y by (simp add: bc_op_read)
  then have "bc_next tst ?op = (if c \<noteq> INET_DIAG_BC_JMP \<and> tst c p then 4 + length p else d)"
    unfolding bc_next_def y n by (simp add: bc_op_read)
  moreover have "drop pos bc = ?op" "pos < length bc" using assms(4,5) by (simp_all add: bc_op_read)
  moreover have "run bc pos \<longleftrightarrow> (if pos < length bc then run bc (pos + bc_next tst (drop pos bc)) else pos = length bc)"
    using assms(1) unfolding bc_machine_def by blast
  ultimately show ?thesis by presburger
qed

lemma exits_leaf:
  assumes "bc_machine tst run" "4 + length p < 256" "c \<noteq> INET_DIAG_BC_JMP"
  shows "exits run [(c, p, Fail)] (tst c p)"
  unfolding exits_def
proof (intro allI impI)
  fix r pre post assume "bc_size [(c, p, Fail)] + 4 + r < 2 ^ 16"
  then have "4 + length p + 4 + r < 2 ^ 16" by simp
  from machine_step [OF assms(1,2) this, where c = c and pre = pre and post = post, OF refl refl] assms(3)
  show "run (pre @ asm r [(c, p, Fail)] @ post) (length pre) =
    run (pre @ asm r [(c, p, Fail)] @ post) (length pre + bc_size [(c, p, Fail)] + (if tst c p then 0 else 4 + r))"
    by (simp add: distance_def ac_simps split: if_splits)
qed

lemma exits_append:
  assumes "exits run S a" "exits run T b" shows "exits run (S @ T) (a \<and> b)"
  unfolding exits_def
proof (intro allI impI)
  fix r pre post assume sz: "bc_size (S @ T) + 4 + r < 2 ^ 16"
  let ?bc = "pre @ asm r (S @ T) @ post"
  have "run ?bc (length pre) = run ?bc (length pre + bc_size S + (if a then 0 else 4 + (r + bc_size T)))"
    by (rule exitsD [OF assms(1), where pre = pre and post = "asm r T @ post"]) (use sz in \<open>simp_all add: asm_append\<close>)
  moreover have "run ?bc (length pre + bc_size S) = run ?bc (length pre + bc_size S + bc_size T + (if b then 0 else 4 + r))"
    by (rule exitsD [OF assms(2), where pre = "pre @ asm (r + bc_size T) S" and post = post]) (use sz in \<open>simp_all add: asm_append\<close>)
  ultimately show "run ?bc (length pre) = run ?bc (length pre + bc_size (S @ T) + (if a \<and> b then 0 else 4 + r))"
    by (cases a) (simp_all add: ac_simps)
qed

lemma exits_or:
  assumes "bc_machine tst run" "exits run S a" "exits run T b"
  shows "exits run (resolve S @ (INET_DIAG_BC_JMP, [], Inner (bc_size T + 4)) # T) (a \<or> b)" (is "exits run ?U _")
  unfolding exits_def
proof (intro allI impI)
  fix r pre post assume sz: "bc_size ?U + 4 + r < 2 ^ 16"
  let ?bc = "pre @ asm r ?U @ post"
  let ?jmp = "bc_op INET_DIAG_BC_JMP (of_nat (4 + length ([] :: u8 list))) (of_nat (bc_size T + 4))"
  have bc: "?bc = pre @ asm 0 S @ ?jmp @ asm r T @ post"
    by (simp add: asm_append asm_resolve distance_def)
  have "run ?bc (length pre) = run ?bc (length pre + bc_size S + (if a then 0 else 4 + 0))"
    by (rule exitsD [OF assms(2), where pre = pre and post = "?jmp @ asm r T @ post"]) (use sz bc in simp_all)
  moreover have "run ?bc (length pre + bc_size S) = run ?bc (length pre + bc_size S + (bc_size T + 4))"
    using machine_step [OF assms(1), of "[]" "bc_size T + 4" ?bc "pre @ asm 0 S" INET_DIAG_BC_JMP "asm r T @ post"] sz bc by simp
  moreover have "run ?bc (length pre + bc_size S + 4) =
      run ?bc (length pre + bc_size S + 4 + bc_size T + (if b then 0 else 4 + r))"
    by (rule exitsD [OF assms(3), where pre = "pre @ asm 0 S @ ?jmp" and post = post]) (use sz bc in \<open>simp_all add: bc_op_read\<close>)
  ultimately show "run ?bc (length pre) = run ?bc (length pre + bc_size ?U + (if a \<or> b then 0 else 4 + r))"
    by (cases a) (simp_all add: ac_simps)
qed

lemma exits_not:
  assumes "bc_machine tst run" "exits run S a"
  shows "exits run (resolve S @ [(INET_DIAG_BC_JMP, [], Fail)]) (\<not> a)" (is "exits run ?U _")
  unfolding exits_def
proof (intro allI impI)
  fix r pre post assume sz: "bc_size ?U + 4 + r < 2 ^ 16"
  let ?bc = "pre @ asm r ?U @ post"
  let ?jmp = "bc_op INET_DIAG_BC_JMP (of_nat (4 + length ([] :: u8 list))) (of_nat (8 + r))"
  have bc: "?bc = pre @ asm 0 S @ ?jmp @ post"
    by (simp add: asm_append asm_resolve distance_def)
  have "run ?bc (length pre) = run ?bc (length pre + bc_size S + (if a then 0 else 4 + 0))"
    by (rule exitsD [OF assms(2), where pre = pre and post = "?jmp @ post"]) (use sz bc in simp_all)
  moreover have "run ?bc (length pre + bc_size S) = run ?bc (length pre + bc_size S + (8 + r))"
    using machine_step [OF assms(1), of "[]" "8 + r" ?bc "pre @ asm 0 S" INET_DIAG_BC_JMP post] sz bc by simp
  ultimately show "run ?bc (length pre) = run ?bc (length pre + bc_size ?U + (if \<not> a then 0 else 4 + r))"
    by (cases a) (simp_all add: ac_simps)
qed

lemma exits_cond:
  assumes "bc_machine tst run" "cond_alen a \<le> length (pfx_data (aa_addr a))" "as \<noteq> []" "code \<noteq> INET_DIAG_BC_JMP"
  shows "exits run (sym_cond junk code a as) (tst code (hostcond junk a))"
  using assms(3)
proof (induction as)
  case (Cons b as)
  have "4 + length (hostcond junk a) < 256" using cond_alen_le [of a] assms(2) by (simp add: length_hostcond)
  note leaf = exits_leaf [OF assms(1) this assms(4)]
  show ?case
  proof (cases "as = []")
    case False
    let ?S = "sym_cond junk code a as"
    have "sym_cond junk code a (b # as) =
        resolve [(code, hostcond junk a, Fail)] @ (INET_DIAG_BC_JMP, [], Inner (bc_size ?S + 4)) # ?S"
      using False by (simp add: Let_def distance_def)
    then show ?thesis using exits_or [OF assms(1) leaf Cons.IH [OF False]] by simp
  qed (use leaf in simp)
qed simp

lemmas bc_codes = INET_DIAG_BC_JMP_def INET_DIAG_BC_S_GE_def INET_DIAG_BC_S_LE_def INET_DIAG_BC_D_GE_def
  INET_DIAG_BC_D_LE_def INET_DIAG_BC_AUTO_def INET_DIAG_BC_S_COND_def INET_DIAG_BC_D_COND_def

lemma exits_filter:
  assumes "bc_machine tst run" shows "fits f \<Longrightarrow> exits run (filter_code junk f) (code_holds tst junk f)"
proof (induction f)
  case (SSF_AND p q)
  then show ?case by (simp add: exits_append)
next
  case (SSF_OR p q)
  then show ?case by (simp add: exits_or [OF assms])
next
  case (SSF_NOT p)
  then show ?case by (simp add: exits_not [OF assms])
qed (use exits_leaf [OF assms] exits_cond [OF assms] in
  \<open>simp_all add: bc_codes chain_ok_def test_port_def bc_op_read(1)\<close>)

lemma filter_size_bound: "fits f \<Longrightarrow> filter_size f + 4 < 2 ^ 16"
  by (cases f) (auto simp: chain_ok_def)

lemma bytecode_runs:
  assumes "bc_machine tst run" "fits f"
  shows "run (asm 0 (filter_code junk f)) 0 = code_holds tst junk f"
proof -
  let ?bc = "asm 0 (filter_code junk f)"
  have "run ?bc 0 = run ?bc (0 + bc_size (filter_code junk f) + (if code_holds tst junk f then 0 else 4 + 0))"
    by (rule exitsD [OF exits_filter [OF assms], where pre = "[]" and post = "[]"])
      (use filter_size_bound [OF assms(2)] in \<open>simp_all add: filter_code_size [OF assms(2)]\<close>)
  also have "\<dots> = (0 + bc_size (filter_code junk f) + (if code_holds tst junk f then 0 else 4 + 0) = length ?bc)"
    using assms(1) unfolding bc_machine_def by (metis length_asm le_add1 add_0 not_le)
  finally show ?thesis by simp
qed

section \<open>The kernel selects the sockets that the interpreter selects\<close>

fun first_only :: "ssfilter \<Rightarrow> ssfilter" where
  "first_only (SSF_DCOND as) = SSF_DCOND (take 1 as)"
| "first_only (SSF_SCOND as) = SSF_SCOND (take 1 as)"
| "first_only (SSF_AND p q) = SSF_AND (first_only p) (first_only q)"
| "first_only (SSF_OR p q) = SSF_OR (first_only p) (first_only q)"
| "first_only (SSF_NOT p) = SSF_NOT (first_only p)"
| "first_only f = f"

text \<open>The kernel's test of each elementary condition gives what the interpreter gives for it.\<close>

fun tests_agree :: "(u8 \<Rightarrow> u8 list \<Rightarrow> bool) \<Rightarrow> u16 \<Rightarrow> (ssfilter \<Rightarrow> bool) \<Rightarrow> ssfilter \<Rightarrow> bool" where
  "tests_agree tst junk ev (SSF_AND p q) \<longleftrightarrow> tests_agree tst junk ev p \<and> tests_agree tst junk ev q"
| "tests_agree tst junk ev (SSF_OR p q) \<longleftrightarrow> tests_agree tst junk ev p \<and> tests_agree tst junk ev q"
| "tests_agree tst junk ev (SSF_NOT p) \<longleftrightarrow> tests_agree tst junk ev p"
| "tests_agree tst junk ev f \<longleftrightarrow> code_holds tst junk f = ev (first_only f)"

lemma code_holds_first:
  "tests_agree tst junk (\<lambda>g. run_ssfilter fm ports g s) f \<Longrightarrow>
   code_holds tst junk f = run_ssfilter fm ports (first_only f) s"
  by (induction f) auto

text \<open>
  C32: The jump code that \<^verbatim>\<open>ssfilter_bytecompile\<close> makes of a filter, run the way the kernel runs such
  code, selects exactly the sockets that \<^verbatim>\<open>run_ssfilter\<close> selects, provided the elementary tests agree
  and the code of every part fits a \<^verbatim>\<open>char\<close>: for any nesting of conjunctions, disjunctions and negations,
  and so for every relocation that \<^verbatim>\<open>ssfilter_patch\<close> does. A condition with several addresses, the result of a
  host name, is the exception: the code tests the first address again and again, while
  \<^verbatim>\<open>run_ssfilter\<close> tries all of them.
\<close>

theorem bytecode_selects_same:
  assumes "bc_machine tst run" "fits f" "tests_agree tst junk (\<lambda>g. run_ssfilter fm ports g s) f"
  shows "\<exists>bc. ssfilter_bytecompile junk f = Done bc \<and> length bc = filter_size f \<and>
    (run bc 0 \<longleftrightarrow> run_ssfilter fm ports (first_only f) s) \<and>
    (first_only f = f \<longrightarrow> (run bc 0 \<longleftrightarrow> run_ssfilter fm ports f s))"
  using bytecompile_asm [OF assms(2), of junk] bytecode_runs [OF assms(1,2), of junk] code_holds_first [OF assms(3)]
    filter_code_size [OF assms(2), of junk] by simp

text \<open>A machine that keeps the contract.\<close>

function bc_run :: "(u8 \<Rightarrow> u8 list \<Rightarrow> bool) \<Rightarrow> u8 list \<Rightarrow> nat \<Rightarrow> bool" where
  "bc_run tst bc pos =
     (if pos < length bc
      then let d = bc_next tst (drop pos bc) in if d = 0 then False else bc_run tst bc (pos + d)
      else pos = length bc)"
  by pat_completeness auto
termination by (relation "measure (\<lambda>(_, bc, pos). length bc - pos)") auto

declare bc_run.simps [simp del]

lemma bc_run_machine: "bc_machine tst (bc_run tst)"
  unfolding bc_machine_def
proof (intro allI)
  fix bc pos
  show "bc_run tst bc pos \<longleftrightarrow>
      (if pos < length bc then bc_run tst bc (pos + bc_next tst (drop pos bc)) else pos = length bc)"
    by (subst bc_run.simps) (auto simp: Let_def bc_run.simps)
qed

definition demo_port :: "int \<Rightarrow> aafilter" where
  "demo_port n = \<lparr>aa_addr = zero_prefix, aa_path = None, aa_port = n\<rparr>"

definition demo_filter :: ssfilter where
  "demo_filter = SSF_AND (SSF_OR (SSF_D_GE (demo_port 443)) (SSF_D_LE (demo_port 80))) (SSF_NOT (SSF_S_LE (demo_port 1023)))"

definition demo_socket :: tcpstat where
  "demo_socket = \<lparr>ts_local = zero_prefix, ts_lpath = None, ts_lport = 40000,
                  ts_remote = zero_prefix, ts_rpath = None, ts_rport = 80\<rparr>"

text \<open>The tests of ports against the demonstration socket.\<close>

definition demo_tests :: "u8 \<Rightarrow> u8 list \<Rightarrow> bool" where
  "demo_tests code p =
     (let port = uint (peek16 2 p)
      in if code = INET_DIAG_BC_D_GE then 80 \<ge> port
         else if code = INET_DIAG_BC_D_LE then 80 \<le> port
         else if code = INET_DIAG_BC_S_LE then 40000 \<le> port else False)"

theorem bytecode_selects_same_witness:
  "\<exists>bc. ssfilter_bytecompile 0 demo_filter = Done bc \<and> length bc = 32 \<and> bc_run demo_tests bc 0 \<and>
     run_ssfilter (\<lambda>_ _. False) (32768, 61000) demo_filter demo_socket"
proof -
  have "fits demo_filter" by (simp add: demo_filter_def)
  moreover have "tests_agree demo_tests 0 (\<lambda>g. run_ssfilter (\<lambda>_ _. False) (32768, 61000) g demo_socket) demo_filter"
    by (simp add: demo_filter_def demo_tests_def bc_codes test_port_def bc_op_def peek16_def demo_port_def demo_socket_def)
  ultimately show ?thesis
    using bytecode_selects_same [OF bc_run_machine, of demo_filter demo_tests 0 "\<lambda>_ _. False" "(32768, 61000)" demo_socket]
    by (simp add: demo_filter_def demo_port_def demo_socket_def)
qed

section \<open>Long filters\<close>

lemma char_len_big: "128 \<le> length c \<Longrightarrow> length c < 256 \<Longrightarrow> char_len c = int (length c) - 256"
proof -
  assume h: "128 \<le> length c" "length c < 256"
  have "signed_take_bit 7 (int (length c)) = signed_take_bit 7 (int (length c) - 256)"
    by (rule signed_take_bit_eq_iff_take_bit_eq [THEN iffD2]) (simp add: take_bit_eq_mod)
  also have "\<dots> = int (length c) - 256" using h by (intro signed_take_bit_int_eq_self) simp_all
  finally show ?thesis by (simp add: char_len_def signed_of_nat)
qed

text \<open>
  C34: What becomes of a conjunction of two parts whose code has less than 256 bytes each, because the compiler keeps these lengths in a \<^verbatim>\<open>char\<close>:
  when both have less than 128 bytes, the code is built and as long as both together. Otherwise the program aborts, because the allocation of a negative
  size fails, when both parts have 128 bytes or more or both together less than 256; in the remaining case the allocation
  succeeds and a negative number of bytes is copied, which is undefined. Nine conditions on IPv4 addresses, joined by \<^verbatim>\<open>and\<close>, are enough to abort.
\<close>

theorem long_filter_fails:
  assumes "fits p" "fits q" "filter_size p < 256" "filter_size q < 256"
  shows "if filter_size p < 128 \<and> filter_size q < 128
    then \<exists>c. ssfilter_bytecompile junk (SSF_AND p q) = Done c \<and> length c = filter_size p + filter_size q
    else ssfilter_bytecompile junk (SSF_AND p q) =
      (if 128 \<le> filter_size p \<and> 128 \<le> filter_size q \<or> filter_size p + filter_size q < 256 then Aborted else Undef)"
proof (cases "filter_size p < 128 \<and> filter_size q < 128")
  case True
  then have "fits (SSF_AND p q)" using assms by simp
  then show ?thesis using True bytecompile_asm [of "SSF_AND p q" junk] filter_code_size [of "SSF_AND p q" junk] by simp
next
  case False
  have len: "char_len (asm 0 (filter_code junk f)) = (if filter_size f < 128 then int (filter_size f) else int (filter_size f) - 256)"
    if "fits f" "filter_size f < 256" for f
    using char_len_big [of "asm 0 (filter_code junk f)"] char_len_small [of "asm 0 (filter_code junk f)"] that
    by (simp add: filter_code_size)
  show ?thesis
    using False assms len [of p] len [of q] by (auto simp: bytecompile_asm join_parts_def)
qed

definition demo_cond :: ssfilter where
  "demo_cond = SSF_DCOND [\<lparr>aa_addr = zero_prefix\<lparr>pfx_family := 2, pfx_bitlen := 32\<rparr>, aa_path = None, aa_port = -1\<rparr>]"

theorem long_filter_fails_witness:
  "ssfilter_bytecompile 0 (foldl SSF_AND demo_cond (replicate 8 demo_cond)) = Aborted"
proof -
  have c: "fits demo_cond" "filter_size demo_cond = 16"
    by (simp_all add: demo_cond_def chain_ok_def cond_len_def cond_alen_def AF_INET6_def zero_prefix_def)
  let ?p = "foldl SSF_AND demo_cond (replicate 7 demo_cond)"
  have "fits ?p" "filter_size ?p = 128" using c by (simp_all add: numeral_eq_Suc)
  then show ?thesis using long_filter_fails [of ?p demo_cond 0] c by (simp add: numeral_eq_Suc)
qed

end
