(* ===== verification/Ss_Host.thy ===== *)
theory Ss_Host
  imports Ss_Filter Ll_Names
begin

unbundle bit_operations_syntax

text \<open>
  Reading host conditions of the \<^verbatim>\<open>ss\<close> command (\<^verbatim>\<open>misc/ss.c\<close>), the table of the users of sockets, and the
  text of timers. The resolver, the service database and the map of the links are parameters.
\<close>

section \<open>Host names\<close>

definition set_host :: "nat \<Rightarrow> nat \<Rightarrow> u8 list \<Rightarrow> aafilter \<Rightarrow> aafilter" where
  "set_host fam len bs a =
     a\<lparr>aa_addr := (store_data bs (aa_addr a))\<lparr>pfx_bytelen := of_nat len, pfx_bitlen := int (len * 8), pfx_family := of_nat fam\<rparr>\<rparr>"

text \<open>
  \<^verbatim>\<open>remember_he\<close> on the head of the chain and what follows it: the first address goes to the head when
  that has none, every other one into a copy of the head right behind it.
\<close>

fun remember_addrs :: "nat \<Rightarrow> nat \<Rightarrow> u8 list list \<Rightarrow> aafilter \<Rightarrow> aafilter list \<Rightarrow> aafilter list \<times> nat" where
  "remember_addrs fam len [] a rest = (a # rest, 0)"
| "remember_addrs fam len (bs # ptr) a rest =
     (let (chain, cnt) =
            (if pfx_bitlen (aa_addr a) \<noteq> 0 then remember_addrs fam len ptr a (set_host fam len (take len bs) a # rest)
             else remember_addrs fam len ptr (set_host fam len (take len bs) a) rest)
      in (chain, cnt + 1))"

definition remember_he :: "nat \<times> u8 list list \<Rightarrow> aafilter list \<Rightarrow> aafilter list \<times> nat" where
  "remember_he he chain =
     (let (addrtype, addrs) = he
      in if addrtype = AF_INET then remember_addrs addrtype 4 addrs (hd chain) (tl chain)
         else if addrtype = AF_INET6 then remember_addrs addrtype 16 addrs (hd chain) (tl chain)
         else (chain, 0))"

text \<open>\<open>dns\<close> is \<^verbatim>\<open>gethostbyname2\<close>: the type and the addresses of a host. \<open>None\<close> when no address was found.\<close>

definition get_dns_host ::
  "(string \<Rightarrow> nat \<Rightarrow> (nat \<times> u8 list list) option) \<Rightarrow> aafilter \<Rightarrow> string \<Rightarrow> nat \<Rightarrow> aafilter list option" where
  "get_dns_host dns a addr fam =
     (let c0 = [a\<lparr>aa_addr := (aa_addr a)\<lparr>pfx_bitlen := 0\<rparr>\<rparr>];
          (c1, cnt1) = (case dns addr (if fam = AF_UNSPEC then AF_INET else fam) of
                          None \<Rightarrow> (c0, 0) | Some he \<Rightarrow> remember_he he c0);
          (c2, cnt2) = (if fam = AF_UNSPEC
                        then (case dns addr AF_INET6 of None \<Rightarrow> (c1, 0) | Some he \<Rightarrow> remember_he he c1)
                        else (c1, 0))
      in if cnt1 + cnt2 = 0 then None else Some c2)"

section \<open>Host conditions\<close>

text \<open>
  \<open>he_dbs_udp\<close> and \<open>he_dbs_tcp\<close>: whether the filter asks for these sockets. \<open>he_services\<close> is
  \<^verbatim>\<open>getservbyname\<close>, with ports in network order; \<open>he_rpc\<close> the list \<^verbatim>\<open>rlist\<close>: whether the entry is for
  UDP (\<open>Some True\<close>), for TCP (\<open>Some False\<close>) or for another protocol, its name and its port.
\<close>

record host_env =
  he_family :: nat
  he_dbs_udp :: bool
  he_dbs_tcp :: bool
  he_services :: "string \<Rightarrow> string \<Rightarrow> u16 option"
  he_rpc :: "(bool option \<times> string option \<times> int) list"
  he_dns :: "string \<Rightarrow> nat \<Rightarrow> (nat \<times> u8 list list) option"
  he_pton6 :: "string \<Rightarrow> u8 list option"
  he_ifindex :: "string \<Rightarrow> int"

definition no_cond :: aafilter where
  "no_cond = \<lparr>aa_addr = zero_prefix, aa_path = None, aa_port = -1\<rparr>"

definition strrchr :: "string \<Rightarrow> char \<Rightarrow> (string \<times> string) option" where
  "strrchr s c =
     (if c \<in> set s then Some (rev (tl (dropWhile (\<lambda>x. x \<noteq> c) (rev s))), c # rev (takeWhile (\<lambda>x. x \<noteq> c) (rev s))) else None)"

definition has_prefix :: "string \<Rightarrow> string \<Rightarrow> bool" where
  "has_prefix p s \<longleftrightarrow> take (length p) s = p"

definition drop_prefix :: "string \<Rightarrow> string \<Rightarrow> string" where
  "drop_prefix p s = (if has_prefix p s then drop (length p) s else s)"

text \<open>The names of ports in the list of remote procedure calls: \<open>None\<close> for an ambiguous one.\<close>

fun rpc_port :: "host_env \<Rightarrow> string \<Rightarrow> (bool option \<times> string option \<times> int) list \<Rightarrow> int \<Rightarrow> int option" where
  "rpc_port env port [] p = Some p"
| "rpc_port env port ((proto, name, sport) # s) p =
     (if ((proto = Some True \<and> he_dbs_udp env) \<or> (proto = Some False \<and> he_dbs_tcp env)) \<and> name = Some port
      then if p > 0 \<and> p \<noteq> sport then None else rpc_port env port s sport
      else rpc_port env port s p)"

definition service_port :: "host_env \<Rightarrow> string \<Rightarrow> int option" where
  "service_port env port =
     (let se1 = (if he_dbs_udp env then he_services env port ''udp'' else None);
          se2 = (if he_dbs_tcp env then he_services env port ''tcp'' else None)
      in case (se1, se2) of
           (Some a, Some b) \<Rightarrow> if a \<noteq> b then None else Some (uint (ntohs a))
         | (Some a, None) \<Rightarrow> Some (uint (ntohs a))
         | (None, Some b) \<Rightarrow> Some (uint (ntohs b))
         | (None, None) \<Rightarrow>
             (case rpc_port env port (he_rpc env) (-1) of
                None \<Rightarrow> None
              | Some p \<Rightarrow> if p \<le> 0 then None else Some p))"

text \<open>The text behind the colon of a link or netlink condition; \<open>other\<close> reads what is not a number.\<close>

definition tail_port :: "(string \<Rightarrow> int option) \<Rightarrow> string option \<Rightarrow> int option" where
  "tail_port other port =
     (case port of
        None \<Rightarrow> Some (-1)
      | Some p \<Rightarrow>
          if tl p \<noteq> [] \<and> tl p \<noteq> ''*''
          then (case get_integer (tl p) 0 of Some v \<Rightarrow> Some v | None \<Rightarrow> other (tl p))
          else Some (-1))"

definition link_cond :: "host_env \<Rightarrow> string \<Rightarrow> aafilter list option" where
  "link_cond env addr =
     (let host = upto_chr addr (CHR '':'')
      in case tail_port (\<lambda>s. if he_ifindex env s \<le> 0 then None else Some (he_ifindex env s)) (strchr addr (CHR '':'')) of
           None \<Rightarrow> None
         | Some p \<Rightarrow>
             let a = no_cond\<lparr>aa_port := p, aa_addr := zero_prefix\<lparr>pfx_family := of_nat AF_PACKET\<rparr>\<rparr>
             in if host \<noteq> [] \<and> host \<noteq> ''*''
                then (case ll_proto_a2n host of
                        None \<Rightarrow> None
                      | Some t \<Rightarrow> Some [a\<lparr>aa_addr := store_data (le_bytes 4 (ucast (ntohs t) :: u32)) ((aa_addr a)\<lparr>pfx_bitlen := 32\<rparr>)\<rparr>])
                else Some [a])"

definition netlink_cond :: "string \<Rightarrow> aafilter list option" where
  "netlink_cond addr =
     (let host = upto_chr addr (CHR '':'')
      in case tail_port (\<lambda>s. if s = ''kernel'' then Some 0 else None) (strchr addr (CHR '':'')) of
           None \<Rightarrow> None
         | Some p \<Rightarrow>
             let a = no_cond\<lparr>aa_port := p, aa_addr := zero_prefix\<lparr>pfx_family := 16\<rparr>\<rparr>
             in if host \<noteq> [] \<and> host \<noteq> ''*''
                then (case (case get_u32 host 0 of
                              Some w \<Rightarrow> Some w
                            | None \<Rightarrow> if host = ''rtnl'' then Some 0 else if host = ''fw'' then Some 3
                                      else if host = ''tcpdiag'' then Some 4 else None) of
                        None \<Rightarrow> None
                      | Some w \<Rightarrow> Some [a\<lparr>aa_addr := store_data (le_bytes 4 w) ((aa_addr a)\<lparr>pfx_bitlen := 32\<rparr>)\<rparr>])
                else Some [a])"

text \<open>
  Address and port of an internet condition: the address, and the text from the place of the port on,
  if there is one. \<open>None\<close> for a bracket that is not closed.
\<close>

definition split_port :: "string \<Rightarrow> (string \<times> string option) option" where
  "split_port addr =
     (if addr \<noteq> [] \<and> hd addr = CHR ''[''
      then (case strchr (tl addr) (CHR '']'') of
              None \<Rightarrow> None
            | Some r \<Rightarrow> Some (upto_chr (tl addr) (CHR '']''), Some (tl r)))
      else if addr \<noteq> [] \<and> hd addr = CHR ''*'' then Some (''*'', Some (tl addr))
      else let slash = (case strchr addr (CHR ''/'') of Some r \<Rightarrow> r | None \<Rightarrow> addr)
           in case strrchr slash (CHR '':'') of
                None \<Rightarrow> Some (addr, None)
              | Some (before, r) \<Rightarrow> Some (take (length addr - length slash) addr @ before, Some r))"

definition inet_port :: "host_env \<Rightarrow> string option \<Rightarrow> int option" where
  "inet_port env port =
     (case port of
        None \<Rightarrow> Some (-1)
      | Some [] \<Rightarrow> Some (-1)
      | Some (c # p) \<Rightarrow>
          if c \<noteq> CHR '':'' then None
          else if p \<noteq> [] \<and> hd p \<noteq> CHR ''*''
          then (case get_integer p 0 of Some v \<Rightarrow> Some v | None \<Rightarrow> service_port env p)
          else Some (-1))"

definition inet_cond :: "host_env \<Rightarrow> string \<Rightarrow> nat \<Rightarrow> aafilter list option" where
  "inet_cond env addr fam =
     (case split_port addr of
        None \<Rightarrow> None
      | Some (host, port) \<Rightarrow>
          (case inet_port env port of
             None \<Rightarrow> None
           | Some p \<Rightarrow>
               let a = no_cond\<lparr>aa_port := p\<rparr>
               in if host \<noteq> [] \<and> hd host \<noteq> CHR ''*''
                  then (case get_prefix_1 (he_pton6 env) host fam of
                          Some addr' \<Rightarrow> Some [a\<lparr>aa_addr := addr'\<rparr>]
                        | None \<Rightarrow> get_dns_host (he_dns env) a host fam)
                  else Some [a]))"

definition parse_hostcond :: "host_env \<Rightarrow> string \<Rightarrow> aafilter list option" where
  "parse_hostcond env addr =
     (let fam = he_family env
      in if fam = AF_UNIX \<or> has_prefix ''unix:'' addr
         then let p = drop_prefix ''unix:'' addr
              in Some [no_cond\<lparr>aa_addr := zero_prefix\<lparr>pfx_family := of_nat AF_UNIX, pfx_bitlen := int (8 * length p)\<rparr>,
                               aa_path := Some p\<rparr>]
         else if fam = AF_PACKET \<or> has_prefix ''link:'' addr then link_cond env (drop_prefix ''link:'' addr)
         else if fam = 16 \<or> has_prefix ''netlink:'' addr then netlink_cond (drop_prefix ''netlink:'' addr)
         else if has_prefix ''inet:'' addr then inet_cond env (drop 5 addr) AF_INET
         else if has_prefix ''inet6:'' addr then inet_cond env (drop 6 addr) AF_INET6
         else inet_cond env addr fam)"

section \<open>States\<close>

text \<open>The states have the numbers 0 to 11; a set of states is a word with a bit for each.\<close>

definition sstate_namel :: "string list" where
  "sstate_namel =
     [''UNKNOWN'', ''established'', ''syn-sent'', ''syn-recv'', ''fin-wait-1'', ''fin-wait-2'', ''time-wait'', ''unconnected'',
      ''close-wait'', ''last-ack'', ''listening'', ''closing'']"

definition SS_ALL :: u32 where "SS_ALL = push_bit 12 1 - 1"
definition ss_bit :: "nat \<Rightarrow> u32" where "ss_bit i = push_bit i 1"

definition scan_state :: "string \<Rightarrow> u32" where
  "scan_state state =
     (if strcaseeq state ''close'' \<or> strcaseeq state ''closed'' then ss_bit 7
      else if strcaseeq state ''syn-rcv'' then ss_bit 3
      else if strcaseeq state ''established'' then ss_bit 1
      else if strcaseeq state ''all'' then SS_ALL
      else if strcaseeq state ''connected'' then SS_ALL AND NOT (ss_bit 7 OR ss_bit 10)
      else if strcaseeq state ''synchronized'' then SS_ALL AND NOT (ss_bit 7 OR ss_bit 10 OR ss_bit 2)
      else if strcaseeq state ''bucket'' then ss_bit 3 OR ss_bit 6
      else if strcaseeq state ''big'' then SS_ALL AND NOT (ss_bit 3 OR ss_bit 6)
      else case List.find (\<lambda>i. strcaseeq state (sstate_namel ! i)) [0..<12] of
             Some i \<Rightarrow> ss_bit i
           | None \<Rightarrow> 0)"

section \<open>Timers\<close>

definition pad3 :: "string \<Rightarrow> string" where "pad3 s = replicate (3 - length s) (CHR ''0'') @ s"

definition print_ms_timer :: "int \<Rightarrow> string" where
  "print_ms_timer timeout =
     (let t = (if timeout < 0 then 0 else timeout);
          minutes = t div 1000 div 60;
          secs0 = t div 1000 mod 60;
          msecs1 = (if minutes \<noteq> 0 then 0 else t mod 1000);
          secs = (if minutes \<noteq> 0 \<and> minutes > 9 then 0 else secs0);
          msecs = (if secs \<noteq> 0 \<and> secs > 9 then 0 else msecs1)
      in (if minutes \<noteq> 0 then snprintf 48 (fmt_d minutes @ ''min'') else []) @
         (if secs \<noteq> 0 then fmt_d secs @ (if msecs \<noteq> 0 then ''.'' else ''sec'') else []) @
         (if msecs \<noteq> 0 then pad3 (fmt_d msecs) @ ''ms'' else []))"

section \<open>Users of sockets\<close>

record user_ent =
  ue_ino :: u32
  ue_process :: string
  ue_pid :: int
  ue_fd :: int

definition USER_ENT_HASH_SIZE :: nat where "USER_ENT_HASH_SIZE = 256"

definition user_ent_hashfn :: "u32 \<Rightarrow> nat" where
  "user_ent_hashfn ino =
     unat ((drop_bit 24 ino XOR drop_bit 16 ino XOR drop_bit 8 ino XOR ino) AND (of_nat USER_ENT_HASH_SIZE - 1))"

definition user_ent_add :: "u32 \<Rightarrow> string \<Rightarrow> int \<Rightarrow> int \<Rightarrow> user_ent list list \<Rightarrow> user_ent list list" where
  "user_ent_add ino process pid fd tb =
     (let h = user_ent_hashfn ino
      in tb[h := \<lparr>ue_ino = ino, ue_process = process, ue_pid = pid, ue_fd = fd\<rparr> # tb ! h])"

definition user_text :: "user_ent \<Rightarrow> string" where
  "user_text p = ''('' @ [CHR 0x22] @ ue_process p @ [CHR 0x22] @ '','' @ fmt_d (ue_pid p) @ '','' @ fmt_d (ue_fd p) @ ''),''"

text \<open>The loop over a bucket: the text so far and the number of users.\<close>

fun users_loop :: "nat \<Rightarrow> u32 \<Rightarrow> user_ent list \<Rightarrow> string \<Rightarrow> nat \<Rightarrow> string \<times> nat" where
  "users_loop buflen ino [] buf cnt = (buf, cnt)"
| "users_loop buflen ino (p # ps) buf cnt =
     (if ue_ino p \<noteq> ino then users_loop buflen ino ps buf cnt
      else if int (length buf) \<ge> int buflen - 1 then (buf, cnt)
      else users_loop buflen ino ps (buf @ snprintf (buflen - length buf) (user_text p)) (cnt + 1))"

definition find_users :: "user_ent list list \<Rightarrow> u32 \<Rightarrow> nat \<Rightarrow> nat \<times> string" where
  "find_users tb ino buflen =
     (if ino = 0 then (0, [])
      else let (buf, cnt) = users_loop buflen ino (tb ! user_ent_hashfn ino) [] 0 in (cnt, butlast buf))"

section \<open>The table of users\<close>

definition no_users :: "user_ent list list" where "no_users = replicate USER_ENT_HASH_SIZE []"

definition add_users :: "user_ent list \<Rightarrow> user_ent list list" where
  "add_users us = foldl (\<lambda>tb u. user_ent_add (ue_ino u) (ue_process u) (ue_pid u) (ue_fd u) tb) no_users us"

lemma hashfn_less: "user_ent_hashfn ino < USER_ENT_HASH_SIZE"
proof -
  have "unat (x AND (255 :: u32)) < 256" for x
    using word_and_le1 [of x 255] by (simp add: word_le_nat_alt)
  then show ?thesis by (simp add: user_ent_hashfn_def USER_ENT_HASH_SIZE_def)
qed

lemma add_users_snoc:
  "add_users (us @ [u]) = user_ent_add (ue_ino u) (ue_process u) (ue_pid u) (ue_fd u) (add_users us)"
  by (simp add: add_users_def)

lemma bucket_of_users:
  "length (add_users us) = USER_ENT_HASH_SIZE \<and>
   filter (\<lambda>u. ue_ino u = ino) (add_users us ! user_ent_hashfn ino) = rev (filter (\<lambda>u. ue_ino u = ino) us)"
proof (induction us rule: rev_induct)
  case Nil
  then show ?case using hashfn_less [of ino] by (simp add: add_users_def no_users_def)
next
  case (snoc u us)
  let ?e = "\<lparr>ue_ino = ue_ino u, ue_process = ue_process u, ue_pid = ue_pid u, ue_fd = ue_fd u\<rparr>"
  have "?e = u" by simp
  then show ?case
    using snoc hashfn_less [of ino] hashfn_less [of "ue_ino u"]
    by (auto simp: add_users_snoc user_ent_add_def Let_def nth_list_update)
qed

lemma users_loop_fits:
  "length buf + length (concat (map user_text (filter (\<lambda>u. ue_ino u = ino) ps))) < buflen \<Longrightarrow>
   users_loop buflen ino ps buf cnt =
     (buf @ concat (map user_text (filter (\<lambda>u. ue_ino u = ino) ps)), cnt + length (filter (\<lambda>u. ue_ino u = ino) ps))"
proof (induction ps arbitrary: buf cnt)
  case (Cons p ps)
  show ?case
  proof (cases "ue_ino p = ino")
    case True
    have "0 < length (user_text p)" by (simp add: user_text_def)
    then have "\<not> int (length buf) \<ge> int buflen - 1" "length (user_text p) \<le> buflen - length buf - 1"
      using Cons.prems True by (simp_all del: length_greater_0_conv)
    then show ?thesis using Cons True by (simp add: snprintf_def)
  qed (use Cons in simp)
qed simp

text \<open>
  The users of a socket: after any sequence of entries, looking up an inode gives the text and the
  number of exactly its entries, the latest first, whatever else is in the bucket, when the text fits.
\<close>

theorem users_found:
  assumes "ino \<noteq> 0" "length (concat (map user_text (filter (\<lambda>u. ue_ino u = ino) us))) < buflen"
  shows "find_users (add_users us) ino buflen =
    (length (filter (\<lambda>u. ue_ino u = ino) us), butlast (concat (map user_text (rev (filter (\<lambda>u. ue_ino u = ino) us)))))"
proof -
  let ?F = "filter (\<lambda>u. ue_ino u = ino)"
  have b: "?F (add_users us ! user_ent_hashfn ino) = rev (?F us)" using bucket_of_users by blast
  have "length (concat (map user_text (rev (?F us)))) = length (concat (map user_text (?F us)))"
    by (simp add: length_concat rev_map [symmetric] sum_list_rev)
  then show ?thesis
    using users_loop_fits [of "[]" ino "add_users us ! user_ent_hashfn ino" buflen 0] assms
    by (simp add: find_users_def b)
qed

theorem users_found_witness:
  "find_users (add_users [\<lparr>ue_ino = 7, ue_process = ''a'', ue_pid = 1, ue_fd = 3\<rparr>, \<lparr>ue_ino = 263, ue_process = ''b'', ue_pid = 2, ue_fd = 4\<rparr>]) 7 64 =
     (1, butlast (user_text \<lparr>ue_ino = 7, ue_process = ''a'', ue_pid = 1, ue_fd = 3\<rparr>))"
  using users_found [of 7 "[\<lparr>ue_ino = 7, ue_process = ''a'', ue_pid = 1, ue_fd = 3\<rparr>, \<lparr>ue_ino = 263, ue_process = ''b'', ue_pid = 2, ue_fd = 4\<rparr>]" 64]
  by (simp add: user_text_def fmt_d_def fmt_base_small)

section \<open>Conditions select what they say\<close>

lemma digit_chars:
  "c \<in> set (fmt_nat n) \<Longrightarrow> digit_val c < 10" "fmt_nat n \<noteq> []"
proof -
  assume "c \<in> set (fmt_nat n)"
  then obtain d where "d < 10" "c = digit_char d" using fmt_base_digits [of 10 c n] by (auto simp: fmt_nat_def)
  then show "digit_val c < 10" by simp
qed (simp add: fmt_nat_def)

lemma punctuation_digits: "\<not> digit_val (CHR '':'') < 10" "\<not> digit_val (CHR ''/'') < 10" "\<not> digit_val (CHR ''['') < 10"
  "\<not> digit_val (CHR ''*'') < 10" "\<not> digit_val (CHR ''u'') < 10" "\<not> digit_val (CHR ''l'') < 10" "\<not> digit_val (CHR ''n'') < 10"
  "\<not> digit_val (CHR ''i'') < 10" by (simp_all add: digit_val_def)

lemma strrchr_last: "c \<notin> set b \<Longrightarrow> strrchr (a @ c # b) c = Some (a, c # b)"
proof -
  assume c: "c \<notin> set b"
  then have "takeWhile (\<lambda>x. x \<noteq> c) (rev b @ c # rev a) = rev b" "dropWhile (\<lambda>x. x \<noteq> c) (rev b @ c # rev a) = c # rev a"
    by (auto simp: takeWhile_append dropWhile_append)
  then show ?thesis by (simp add: strrchr_def)
qed

lemma quad_text_ne: "bs \<noteq> [] \<Longrightarrow> quad_text bs \<noteq> []"
  by (cases bs rule: quad_text.cases) auto

text \<open>How the text of an address with prefix length and port falls apart.\<close>

lemma split_prefix_port:
  assumes "bs \<noteq> []"
  shows "split_port (quad_text bs @ CHR ''/'' # fmt_nat n @ CHR '':'' # fmt_nat p) =
    Some (quad_text bs @ CHR ''/'' # fmt_nat n, Some (CHR '':'' # fmt_nat p))"
proof -
  let ?s = "CHR ''/'' # fmt_nat n @ CHR '':'' # fmt_nat p"
  obtain c cs where q: "quad_text bs = c # cs" using quad_text_ne [OF assms] by (cases "quad_text bs") auto
  then have "c = CHR ''.'' \<or> digit_val c < 10" using quad_text_chars [of c bs] by simp
  then have c: "c \<noteq> CHR ''[''" "c \<noteq> CHR ''*''" using punctuation_digits by auto
  have "CHR ''/'' \<notin> set (quad_text bs)" using quad_text_chars [of "CHR ''/''" bs] punctuation_digits by auto
  then have slash: "strchr (quad_text bs @ ?s) (CHR ''/'') = Some ?s" by (rule strchr_append)
  have "CHR '':'' \<notin> set (fmt_nat p)" using digit_chars(1) [of "CHR '':''" p] punctuation_digits by auto
  then have "strrchr ((CHR ''/'' # fmt_nat n) @ CHR '':'' # fmt_nat p) (CHR '':'') = Some (CHR ''/'' # fmt_nat n, CHR '':'' # fmt_nat p)"
    by (rule strrchr_last)
  moreover have "take (length (quad_text bs @ ?s) - length ?s) (quad_text bs @ ?s) = quad_text bs" by simp
  ultimately show ?thesis using slash c q by (simp add: split_port_def Let_def)
qed

lemma inet_port_number:
  assumes "int p \<le> INT_MAX" shows "inet_port env (Some (CHR '':'' # fmt_nat p)) = Some (int p)"
proof -
  obtain d ds where d: "fmt_nat p = d # ds" using digit_chars(2) by (cases "fmt_nat p") auto
  then have "d \<noteq> CHR ''*''" using digit_chars(1) [of d p] punctuation_digits by auto
  moreover have "get_integer (fmt_nat p) 0 = Some (int p)"
    using get_integer.parse_printed [of 0 "int p"] assms by (simp add: fmt_nat_def fmt_d_def INT_MIN_def)
  ultimately show ?thesis using d by (simp add: inet_port_def)
qed

lemma parse_hostcond_prefix:
  assumes "bs \<noteq> []" "length bs \<le> 4" "n \<le> 32" "int p \<le> INT_MAX" "he_family env = AF_UNSPEC \<or> he_family env = AF_INET"
  shows "parse_hostcond env (quad_text bs @ CHR ''/'' # fmt_nat n @ CHR '':'' # fmt_nat p) =
    Some [\<lparr>aa_addr = \<lparr>pfx_family = of_nat AF_INET, pfx_bytelen = 4, pfx_bitlen = int n, pfx_flags = PREFIXLEN_SPECIFIED,
                       pfx_data = bs @ replicate (32 - length bs) 0\<rparr>, aa_path = None, aa_port = int p\<rparr>]"
proof -
  let ?t = "quad_text bs @ CHR ''/'' # fmt_nat n @ CHR '':'' # fmt_nat p"
  obtain c cs where q: "quad_text bs = c # cs" using quad_text_ne [OF assms(1)] by (cases "quad_text bs") auto
  then have c: "c = CHR ''.'' \<or> digit_val c < 10" using quad_text_chars [of c bs] by simp
  have np: "\<not> has_prefix (x # xs) ?t" if "x \<in> {CHR ''u'', CHR ''l'', CHR ''n'', CHR ''i''}" for x xs
    using c that punctuation_digits by (auto simp: has_prefix_def q)
  have fam: "he_family env \<noteq> AF_UNIX" "he_family env \<noteq> AF_PACKET" "he_family env \<noteq> 16"
    using assms(5) by (auto simp: AF_UNIX_def AF_UNSPEC_def AF_INET_def AF_PACKET_def)
  have "parse_hostcond env ?t = inet_cond env ?t (he_family env)"
    using fam by (simp add: parse_hostcond_def np Let_def)
  moreover have "get_netmask (he_pton6 env) (fmt_nat n) 0 = Some (of_nat n)"
  proof -
    have "fmt_nat n = fmt_u (of_nat n :: u32)" using assms(3) by (simp add: fmt_nat_def fmt_u_def unat_of_nat)
    then show ?thesis using get_unsigned.parse_printed [of 0 "of_nat n"] by (simp add: get_netmask_def)
  qed
  moreover have "uint (of_nat n :: u32) = int n" using assms(3) by (simp add: uint_nat unat_of_nat)
  moreover have "c \<noteq> CHR ''*''" using c punctuation_digits by auto
  ultimately show ?thesis
    using assms(3) get_prefix_1_slash [OF assms(1,2,5), of "he_pton6 env" "fmt_nat n"] inet_port_number [OF assms(4), of env]
      split_prefix_port [OF assms(1), of n p]
    by (simp add: inet_cond_def q no_cond_def store_data_def zero_prefix_def)
qed

text \<open>An IPv4 address inside an IPv6 one: ten bytes of zeros, two of ones, and the four of the address.\<close>

definition v4_mapped :: "inet_prefix \<Rightarrow> bool" where
  "v4_mapped a \<longleftrightarrow> pfx_family a = of_nat AF_INET6 \<and> take 12 (pfx_data a) = replicate 10 0 @ [0xFF, 0xFF]"

lemma data_word_eq:
  assumes "4 * i + 4 \<le> length (pfx_data a)"
  shows "data_word a i = w \<longleftrightarrow> take 4 (drop (4 * i) (pfx_data a)) = le_bytes 4 w"
    "le_bytes 4 (data_word a i) = take 4 (drop (4 * i) (pfx_data a))"
proof -
  show l: "le_bytes 4 (data_word a i) = take 4 (drop (4 * i) (pfx_data a))"
    using le_bytes_of_le_bytes [of "take 4 (drop (4 * i) (pfx_data a))", where 'a = 32] assms by (simp add: data_word_def)
  show "data_word a i = w \<longleftrightarrow> take 4 (drop (4 * i) (pfx_data a)) = le_bytes 4 w"
    using l by (metis of_le_bytes_le_bytes_4)
qed

lemma v4_mapped_words:
  assumes "length (pfx_data a) = 32"
  shows "data_word a 0 = 0 \<and> data_word a 1 = 0 \<and> data_word a 2 = htonl 0xffff \<longleftrightarrow> take 12 (pfx_data a) = replicate 10 0 @ [0xFF, 0xFF]"
proof -
  have b: "le_bytes 4 (0 :: u32) = [0, 0, 0, 0]" "le_bytes 4 (htonl 0xffff) = [0, 0, 0xFF, 0xFF]" by code_simp+
  let ?d = "pfx_data a"
  have t: "take 12 ?d = take 4 ?d @ take 4 (drop 4 ?d) @ take 4 (drop 8 ?d)"
    using take_add [of 4 8 ?d] take_add [of 4 4 "drop 4 ?d"] by simp
  have r: "replicate 10 0 @ [0xFF, 0xFF] = [0, 0, 0, 0] @ [0, 0, 0, 0] @ [0, 0, 0xFF, 0xFF :: u8]" by code_simp
  have "length (take 4 ?d) = length [0, 0, 0, 0 :: u8]" "length (take 4 (drop 4 ?d)) = length [0, 0, 0, 0 :: u8]" using assms by simp_all
  note split = append_eq_append_conv [OF disjI1, OF this(1)] append_eq_append_conv [OF disjI1, OF this(2)]
  have "data_word a 0 = 0 \<longleftrightarrow> take 4 ?d = [0, 0, 0, 0]" "data_word a 1 = 0 \<longleftrightarrow> take 4 (drop 4 ?d) = [0, 0, 0, 0]"
    "data_word a 2 = htonl 0xffff \<longleftrightarrow> take 4 (drop 8 ?d) = [0, 0, 0xFF, 0xFF]"
    using data_word_eq(1) [of 0 a 0] data_word_eq(1) [of 1 a 0] data_word_eq(1) [of 2 a "htonl 0xffff"] assms b by simp_all
  then show ?thesis unfolding t r split by simp
qed

lemma inet2_addr_match_bits:
  assumes "length (pfx_data a) = 32" "length (pfx_data p) = 32" "pfx_family p = of_nat AF_INET" "n \<le> 32"
  shows "inet2_addr_match a p n = 0 \<longleftrightarrow>
    (\<forall>i<n. net_bit (pfx_data a) i = net_bit (pfx_data p) i) \<or>
    v4_mapped a \<and> (\<forall>i<n. net_bit (drop 12 (pfx_data a)) i = net_bit (pfx_data p) i)"
proof -
  let ?t = "store_data (le_bytes 4 (data_word a 3)) a"
  have d: "pfx_data ?t = take 4 (drop 12 (pfx_data a)) @ drop 4 (pfx_data a)"
    using data_word_eq(2) [of 3 a] assms(1) by (simp add: store_data_def)
  have "net_bit (pfx_data ?t) i = net_bit (drop 12 (pfx_data a)) i" if "i < n" for i
  proof -
    have "i div 8 < 4" using that assms(4) by (intro less_mult_imp_div_less) simp
    then show ?thesis using assms(1) by (simp add: net_bit_def d nth_append)
  qed
  moreover have "inet_addr_match ?t p n = 0 \<longleftrightarrow> (\<forall>i<n. net_bit (pfx_data ?t) i = net_bit (pfx_data p) i)"
    using assms(1,2,4) by (intro inet_addr_match_bits) (simp_all add: d)
  moreover have "inet_addr_match a p n = 0 \<longleftrightarrow> (\<forall>i<n. net_bit (pfx_data a) i = net_bit (pfx_data p) i)"
    using assms(1,2,4) by (intro inet_addr_match_bits) simp_all
  ultimately show ?thesis
    using v4_mapped_words [OF assms(1)] assms(3) by (auto simp: inet2_addr_match_def v4_mapped_def)
qed

text \<open>
  C33: \<^verbatim>\<open>dst a.b.c.d/n:port\<close> is read as one address, and the filter selects exactly the sockets, of whatever family, with that remote port whose
  remote address agrees with the given bytes in the first \<open>n\<close> bits, or is an IPv4 address inside an IPv6 one whose last four bytes do. Families are not compared:
  an IPv6 socket is selected too when its address begins with these bits.
\<close>

theorem hostcond_selects:
  assumes "bs \<noteq> []" "length bs \<le> 4" "n \<le> 32" "int p \<le> INT_MAX" "he_family env = AF_UNSPEC \<or> he_family env = AF_INET"
    and "length (pfx_data (ts_remote s)) = 32"
  shows "\<exists>as. parse_hostcond env (quad_text bs @ CHR ''/'' # fmt_nat n @ CHR '':'' # fmt_nat p) = Some as \<and>
    (run_ssfilter fm ports (SSF_DCOND as) s \<longleftrightarrow>
       ts_rport s = int p \<and>
       ((\<forall>i<n. net_bit (pfx_data (ts_remote s)) i = net_bit (bs @ replicate (32 - length bs) 0) i) \<or>
        v4_mapped (ts_remote s) \<and>
          (\<forall>i<n. net_bit (drop 12 (pfx_data (ts_remote s))) i = net_bit (bs @ replicate (32 - length bs) 0) i)))"
proof (intro exI conjI)
  let ?b = "\<lparr>pfx_family = of_nat AF_INET, pfx_bytelen = 4, pfx_bitlen = int n, pfx_flags = PREFIXLEN_SPECIFIED,
             pfx_data = bs @ replicate (32 - length bs) 0\<rparr>"
  let ?as = "[\<lparr>aa_addr = ?b, aa_path = None, aa_port = int p\<rparr>]"
  show "parse_hostcond env (quad_text bs @ CHR ''/'' # fmt_nat n @ CHR '':'' # fmt_nat p) = Some ?as"
    by (rule parse_hostcond_prefix [OF assms(1-5)])
  have "inet2_addr_match (ts_remote s) ?b n = 0 \<longleftrightarrow>
    (\<forall>i<n. net_bit (pfx_data (ts_remote s)) i = net_bit (pfx_data ?b) i) \<or>
    v4_mapped (ts_remote s) \<and> (\<forall>i<n. net_bit (drop 12 (pfx_data (ts_remote s))) i = net_bit (pfx_data ?b) i)"
    by (rule inet2_addr_match_bits) (use assms in simp_all)
  then show "run_ssfilter fm ports (SSF_DCOND ?as) s \<longleftrightarrow>
       ts_rport s = int p \<and>
       ((\<forall>i<n. net_bit (pfx_data (ts_remote s)) i = net_bit (bs @ replicate (32 - length bs) 0) i) \<or>
        v4_mapped (ts_remote s) \<and>
          (\<forall>i<n. net_bit (drop 12 (pfx_data (ts_remote s))) i = net_bit (bs @ replicate (32 - length bs) 0) i))"
    by (auto simp: cond_match_def Let_def AF_UNIX_def AF_INET_def)
qed

definition demo_host :: host_env where
  "demo_host = \<lparr>he_family = AF_UNSPEC, he_dbs_udp = True, he_dbs_tcp = True, he_services = (\<lambda>_ _. None), he_rpc = [],
                he_dns = (\<lambda>_ _. None), he_pton6 = (\<lambda>_. None), he_ifindex = (\<lambda>_. 0)\<rparr>"

definition demo_peer :: tcpstat where
  "demo_peer = \<lparr>ts_local = zero_prefix, ts_lpath = None, ts_lport = 40000,
                ts_remote = zero_prefix\<lparr>pfx_family := of_nat AF_INET, pfx_data := [10, 0, 7, 1] @ replicate 28 0\<rparr>,
                ts_rpath = None, ts_rport = 80\<rparr>"

definition demo_mapped :: tcpstat where
  "demo_mapped = demo_peer\<lparr>ts_remote := zero_prefix\<lparr>pfx_family := of_nat AF_INET6,
     pfx_data := replicate 10 0 @ [0xFF, 0xFF, 10, 0, 7, 1] @ replicate 16 0\<rparr>\<rparr>"

theorem hostcond_selects_witness:
  "\<exists>as. parse_hostcond demo_host (quad_text [10, 0] @ CHR ''/'' # fmt_nat 16 @ CHR '':'' # fmt_nat 80) = Some as \<and>
     run_ssfilter (\<lambda>_ _. False) (0, 65535) (SSF_DCOND as) demo_peer \<and> run_ssfilter (\<lambda>_ _. False) (0, 65535) (SSF_DCOND as) demo_mapped"
proof -
  let ?r = "[10, 0] @ replicate (32 - length [10, 0 :: u8]) 0"
  have "\<forall>i<16. net_bit (pfx_data (ts_remote demo_peer)) i = net_bit ?r i"
    "\<forall>i<16. net_bit (drop 12 (pfx_data (ts_remote demo_mapped))) i = net_bit ?r i" "v4_mapped (ts_remote demo_mapped)"
    "length (pfx_data (ts_remote demo_peer)) = 32" "length (pfx_data (ts_remote demo_mapped)) = 32"
    "ts_rport demo_peer = int 80" "ts_rport demo_mapped = int 80" by code_simp+
  moreover have "he_family demo_host = AF_UNSPEC" "int 80 \<le> INT_MAX" by (simp_all add: demo_host_def INT_MAX_def)
  ultimately show ?thesis
    using hostcond_selects [of "[10, 0]" 16 80 demo_host demo_peer "\<lambda>_ _. False" "(0, 65535)"]
      hostcond_selects [of "[10, 0]" 16 80 demo_host demo_mapped "\<lambda>_ _. False" "(0, 65535)"] by auto
qed

end
