(* ===== verification/F_U32_Ip6.thy ===== *)
theory F_U32_Ip6
  imports F_U32_Props
begin

unbundle bit_operations_syntax

text \<open>
  Address prefixes in u32 filters. Bits of a packet and of an address are counted as prefixes are: from the
  most significant bit of the first byte on.
\<close>

section \<open>Leading bits\<close>

definition nbit :: "(nat \<Rightarrow> u8) \<Rightarrow> nat \<Rightarrow> bool" where
  "nbit f b \<longleftrightarrow> bit (f (b div 8)) (7 - b mod 8)"

lemma bit_field_nbit:
  assumes "k < 32" shows "bit (field pkt p 4) k \<longleftrightarrow> nbit (\<lambda>i. pkt (p + int i)) (31 - k)"
proof -
  define q m where "q = 3 - k div 8" and "m = 7 - k mod 8"
  have "k = 8 * (k div 8) + k mod 8" "k div 8 < 4" "k mod 8 < 8" using assms by simp_all
  then have "31 - k = 8 * q + m" "m < 8" unfolding q_def m_def by linarith+
  then have "(31 - k) div 8 = 3 - k div 8" "(31 - k) mod 8 = 7 - k mod 8" by (simp_all add: q_def [symmetric] m_def [symmetric])
  moreover have "k mod 8 \<le> 7" by simp
  ultimately show ?thesis using assms by (simp add: bit_field nbit_def)
qed

lemma high_bits:
  fixes x y :: u32
  assumes "r \<le> 32"
  shows "(x XOR y) AND push_bit (32 - r) 0xFFFFFFFF = 0 \<longleftrightarrow> (\<forall>b<r. bit x (31 - b) = bit y (31 - b))"
proof -
  have ones: "(0xFFFFFFFF :: u32) = -1" by simp
  have "(x XOR y) AND push_bit (32 - r) 0xFFFFFFFF = 0 \<longleftrightarrow> (\<forall>k<32. 32 - r \<le> k \<longrightarrow> bit x k = bit y k)"
    unfolding ones by (auto simp: bit_eq_iff bit_simps)
  also have "\<dots> \<longleftrightarrow> (\<forall>b<r. bit x (31 - b) = bit y (31 - b))"
  proof
    assume h: "\<forall>k<32. 32 - r \<le> k \<longrightarrow> bit x k = bit y k"
    show "\<forall>b<r. bit x (31 - b) = bit y (31 - b)"
    proof (intro allI impI)
      fix b assume "b < r"
      then show "bit x (31 - b) = bit y (31 - b)" using h [rule_format, of "31 - b"] assms by linarith
    qed
  next
    assume h: "\<forall>b<r. bit x (31 - b) = bit y (31 - b)"
    show "\<forall>k<32. 32 - r \<le> k \<longrightarrow> bit x k = bit y k"
    proof (intro allI impI)
      fix k :: nat assume k: "k < 32" "32 - r \<le> k"
      then have "31 - k < r" "31 - (31 - k) = k" using assms by linarith+
      then show "bit x k = bit y k" using h [rule_format, of "31 - k"] by simp
    qed
  qed
  finally show ?thesis .
qed

lemma word_prefix:
  assumes "length bs = 4" "r \<le> 32"
  shows "(pkt_word pkt p XOR of_le_bytes bs) AND htonl (push_bit (32 - r) 0xFFFFFFFF) = 0 \<longleftrightarrow>
    (\<forall>b<r. nbit (\<lambda>i. pkt (p + int i)) b = nbit ((!) bs) b)"
proof -
  let ?g = "\<lambda>i :: int. bs ! nat i"
  have "map (\<lambda>j. ?g (0 + int j)) [0..<4] = bs" using map_nth [of bs] assms(1) by simp
  then have bs: "of_le_bytes bs = htonl (field ?g 0 4)" using pkt_word_field [of ?g 0] by (simp add: pkt_word_def)
  have "(pkt_word pkt p XOR of_le_bytes bs) AND htonl (push_bit (32 - r) 0xFFFFFFFF) = 0 \<longleftrightarrow>
      (\<forall>b<r. bit (field pkt p 4) (31 - b) = bit (field ?g 0 4) (31 - b))"
    unfolding bs pkt_word_field htonl_xor htonl_and htonl_zero by (rule high_bits [OF assms(2)])
  also have "\<dots> \<longleftrightarrow> (\<forall>b<r. nbit (\<lambda>i. pkt (p + int i)) b = nbit ((!) bs) b)"
    using assms(2) by (auto simp: bit_field_nbit)
  finally show ?thesis .
qed

section \<open>The words of an IPv6 prefix\<close>

text \<open>How many leading bits the loop compares: one too many when the last word has 31 bits.\<close>

definition compared_bits :: "nat \<Rightarrow> nat" where
  "compared_bits n = (if n mod 32 = 31 then n + 1 else n)"

lemma pack_key_new:
  assumes "(off, offmask) \<notin> (\<lambda>k. (uk_off k, uk_offmask k)) ` set (us_keys sel)" "length (us_keys sel) < 128" "4 dvd off"
  shows "pack_key sel key msk off offmask =
    Some (sel\<lparr>us_keys := us_keys sel @ [\<lparr>uk_mask = msk, uk_val = key AND msk, uk_off = off, uk_offmask = offmask\<rparr>]\<rparr>)"
  using assms merge_key_none [of "key AND msk" msk off offmask "us_keys sel"] by (auto simp: pack_key_def Let_def)

lemma ip6_word_mask:
  assumes "32 * w < n" "int n = pfx_bitlen addr"
  defines "r \<equiv> if 32 * w + 31 \<le> n then 32 else n - 32 * w"
  shows "(if 32 * int w + 31 \<le> pfx_bitlen addr then 0xFFFFFFFF
          else htonl (push_bit (nat (32 - (pfx_bitlen addr - 32 * int w))) 0xFFFFFFFF)) = htonl (push_bit (32 - r) 0xFFFFFFFF)"
    and "r \<le> 32" and "b < compared_bits n \<and> 32 * w \<le> b \<longleftrightarrow> (32 * w \<le> b \<and> b < 32 * w + r) \<or> (32 * Suc w \<le> b \<and> b < compared_bits n)"
proof -
  have "htonl (0xFFFFFFFF :: u32) = 0xFFFFFFFF" by (simp add: htonl_def le_bytes_def upt_conv_Cons)
  moreover have "\<not> 32 * w + 31 \<le> n \<Longrightarrow> nat (32 - (pfx_bitlen addr - 32 * int w)) = 32 - r"
    unfolding assms(2) [symmetric] r_def using assms(1) by simp
  ultimately show "(if 32 * int w + 31 \<le> pfx_bitlen addr then 0xFFFFFFFF
          else htonl (push_bit (nat (32 - (pfx_bitlen addr - 32 * int w))) 0xFFFFFFFF)) = htonl (push_bit (32 - r) 0xFFFFFFFF)"
    using assms(2) by (auto simp: r_def)
  show "r \<le> 32" unfolding r_def by (cases "32 * w + 31 \<le> n") simp_all
  show "b < compared_bits n \<and> 32 * w \<le> b \<longleftrightarrow> (32 * w \<le> b \<and> b < 32 * w + r) \<or> (32 * Suc w \<le> b \<and> b < compared_bits n)"
  proof (cases "32 * w + 31 \<le> n")
    case True
    have "32 * w + 32 \<le> compared_bits n" using True by (cases "n = 32 * w + 31") (simp_all add: compared_bits_def)
    then show ?thesis using True by (auto simp: r_def)
  next
    case False
    then obtain j where j: "n = 32 * w + j" "j < 31" using assms(1) less_imp_add_positive [of "32 * w" n] by auto
    then show ?thesis by (auto simp: r_def compared_bits_def)
  qed
qed

lemma all_shifted: "(\<forall>b<r. P (a + b)) \<longleftrightarrow> (\<forall>b. a \<le> b \<and> b < a + r \<longrightarrow> P b)" for a r :: nat
proof
  assume h: "\<forall>b<r. P (a + b)"
  show "\<forall>b. a \<le> b \<and> b < a + r \<longrightarrow> P b"
  proof (intro allI impI)
    fix b assume "a \<le> b \<and> b < a + r"
    then have "a + (b - a) = b" "b - a < r" by linarith+
    then show "P b" using h by metis
  qed
qed simp

lemma pack_ip6_ok:
  assumes addr: "int n = pfx_bitlen addr" "n \<le> 128" "16 \<le> length (pfx_data addr)" and off: "4 dvd off"
    and "w \<le> 4" "sel_wf sel" "length (us_keys sel) \<le> w" "\<forall>k\<in>set (us_keys sel). uk_off k < off + 4 * int w"
  shows "\<exists>sel'. pack_ip6 addr off 0 [w..<4] sel = Some sel' \<and> (\<forall>pkt nh. sel_accepts pkt nh sel' \<longleftrightarrow> sel_accepts pkt nh sel \<and>
    (\<forall>b. b < compared_bits n \<and> 32 * w \<le> b \<longrightarrow> nbit (\<lambda>i. pkt (off + int i)) b = nbit ((!) (pfx_data addr)) b))"
  using assms(5-)
proof (induction "4 - w" arbitrary: w sel)
  case 0
  then have w: "w = 4" by simp
  have "compared_bits n \<le> 32 * w" using addr(2) by (cases "n = 128") (auto simp: compared_bits_def w)
  then show ?case by (auto simp: w)
next
  case (Suc d)
  then have w: "w < 4" "d = 4 - Suc w" by linarith+
  have upt: "[w..<4] = w # [Suc w..<4]" using w(1) by (rule upt_conv_Cons)
  show ?case
  proof (cases "32 * w < n")
    case False
    then have "compared_bits n \<le> 32 * w" by (cases "n = 32 * w") (auto simp: compared_bits_def)
    then show ?thesis using False addr(1) by (auto simp: upt)
  next
    case True
    define r where "r = (if 32 * w + 31 \<le> n then 32 else n - 32 * w)"
    let ?m = "htonl (push_bit (32 - r) 0xFFFFFFFF)" and ?o = "off + 4 * int w"
    let ?bs = "take 4 (drop (4 * w) (pfx_data addr))"
    note mask = ip6_word_mask [OF True addr(1), folded r_def]
    have new: "(?o, 0) \<notin> (\<lambda>k. (uk_off k, uk_offmask k)) ` set (us_keys sel)" "length (us_keys sel) < 128" "4 dvd ?o"
      using Suc.prems off w(1) by auto
    let ?sel = "sel\<lparr>us_keys := us_keys sel @ [\<lparr>uk_mask = ?m, uk_val = data_word addr w AND ?m, uk_off = ?o, uk_offmask = 0\<rparr>]\<rparr>"
    have pk: "pack_key sel (data_word addr w) ?m ?o 0 = Some ?sel" using pack_key_new [OF new] by simp
    have len: "length ?bs = 4" using addr(3) w(1) by simp
    have bytes: "nbit ((!) ?bs) b = nbit ((!) (pfx_data addr)) (32 * w + b)" "nbit (\<lambda>i. pkt (?o + int i)) b = nbit (\<lambda>i. pkt (off + int i)) (32 * w + b)"
      if "b < 32" for b and pkt :: "int \<Rightarrow> u8"
    proof -
      have "b div 8 < 4" using that by simp
      moreover have "(32 * w + b) div 8 = 4 * w + b div 8" "(32 * w + b) mod 8 = b mod 8" by presburger+
      ultimately show "nbit ((!) ?bs) b = nbit ((!) (pfx_data addr)) (32 * w + b)"
        "nbit (\<lambda>i. pkt (?o + int i)) b = nbit (\<lambda>i. pkt (off + int i)) (32 * w + b)"
        using addr(3) w(1) by (simp_all add: nbit_def add.assoc)
    qed
    have sem: "sel_wf ?sel \<and> (sel_accepts pkt nh ?sel \<longleftrightarrow> sel_accepts pkt nh sel \<and>
        (\<forall>b. 32 * w \<le> b \<and> b < 32 * w + r \<longrightarrow> nbit (\<lambda>i. pkt (off + int i)) b = nbit ((!) (pfx_data addr)) b))" for pkt nh
    proof -
      have "word_test pkt nh (data_word addr w) ?m ?o 0 \<longleftrightarrow>
          (\<forall>b<r. nbit (\<lambda>i. pkt (off + int i)) (32 * w + b) = nbit ((!) (pfx_data addr)) (32 * w + b))"
        using word_prefix [OF len mask(2), of pkt ?o] bytes mask(2) by (auto simp: data_word_def)
      also have "\<dots> \<longleftrightarrow> (\<forall>b. 32 * w \<le> b \<and> b < 32 * w + r \<longrightarrow> nbit (\<lambda>i. pkt (off + int i)) b = nbit ((!) (pfx_data addr)) b)"
        by (rule all_shifted)
      finally show ?thesis using pack_key_some [OF pk Suc.prems(2), of pkt nh] by simp
    qed
    obtain sel' where sel': "pack_ip6 addr off 0 [Suc w..<4] ?sel = Some sel'" "\<And>pkt nh. sel_accepts pkt nh sel' \<longleftrightarrow> sel_accepts pkt nh ?sel \<and>
        (\<forall>b. b < compared_bits n \<and> 32 * Suc w \<le> b \<longrightarrow> nbit (\<lambda>i. pkt (off + int i)) b = nbit ((!) (pfx_data addr)) b)"
    proof -
      have "sel_wf ?sel" "Suc w \<le> 4" "length (us_keys ?sel) \<le> Suc w" using sem Suc.prems(3) w(1) by simp_all
      moreover have "\<forall>k\<in>set (us_keys ?sel). uk_off k < off + 4 * int (Suc w)" using Suc.prems(4) by auto
      ultimately show thesis using Suc.hyps(1) [OF w(2), of ?sel] that by blast
    qed
    have "pack_ip6 addr off 0 [w..<4] sel = Some sel'"
      using True addr(1) sel'(1) pk mask(1) by (simp add: upt Let_def)
    moreover have "sel_accepts pkt nh sel' \<longleftrightarrow> sel_accepts pkt nh sel \<and>
      (\<forall>b. b < compared_bits n \<and> 32 * w \<le> b \<longrightarrow> nbit (\<lambda>i. pkt (off + int i)) b = nbit ((!) (pfx_data addr)) b)" for pkt nh
      unfolding sel'(2) mask(3) using sem [of pkt nh] by blast
    ultimately show ?thesis by blast
  qed
qed

section \<open>A prefix on the command line\<close>

lemma ip6_prefix_read:
  assumes "pton6 t = Some bs" "length bs = 16" "CHR ''/'' \<notin> set t" "CHR '':'' \<in> set t" "plen \<le> (128 :: u32)"
  shows "\<exists>addr. get_prefix_1 pton6 (t @ CHR ''/'' # fmt_u plen) AF_INET6 = Some addr \<and> pfx_bitlen addr = uint plen \<and>
    take 16 (pfx_data addr) = bs \<and> length (pfx_data addr) = 32"
proof -
  let ?a = "t @ CHR ''/'' # fmt_u plen"
  have c: "strchr t (CHR '':'') \<noteq> None" using assms(4) by (simp add: strchr_def Let_def dropWhile_eq_Nil_conv)
  have "t \<noteq> ''default'' \<and> t \<noteq> ''any'' \<and> t \<noteq> ''all''" using assms(4) by auto
  moreover have "?a \<noteq> ''default'' \<and> ?a \<noteq> ''any'' \<and> ?a \<noteq> ''all''"
  proof -
    have other: "?a \<noteq> x" if "CHR ''/'' \<notin> set x" for x using that by (metis in_set_conv_decomp)
    show ?thesis by (intro conjI other) simp_all
  qed
  moreover have "upto_chr ?a (CHR ''/'') = t" using assms(3) by (auto simp: upto_chr_def takeWhile_append)
  moreover have "strchr ?a (CHR ''/'') = Some (CHR ''/'' # fmt_u plen)" using assms(3) by (auto simp: strchr_def dropWhile_append)
  moreover have "get_netmask pton6 (fmt_u plen) 0 = Some plen" by (simp add: get_netmask_def get_unsigned.parse_printed)
  moreover have "\<not> uint plen > 128" using assms(5) by (simp add: word_le_def)
  ultimately show ?thesis
    using c assms(1,2)
    by (simp add: get_prefix_1_def get_addr_1_def AF_INET6_def AF_DECnet_def AF_UNSPEC_def family_bits_def store_data_def zero_prefix_def)
qed

lemma parse_ip6_src:
  assumes "get_prefix_1 pton6 a AF_INET6 = Some addr"
  shows "parse_ip6 pton6 [''src'', a] sel = or_fail (pack_ip6 addr 8 0 [0..<4] sel) (\<lambda>sel1. Ret (Some (sel1, [])))"
  using assms by (simp add: parse_ip6_def after_next_def NEXT_ARG_def parse_ip6_addr_def opt_at_def cthen_def or_fail_def)

text \<open>
  C39: A test of the IPv6 source address compares the bits of the prefix, and one more when the prefix ends
  one bit before a word. For every address and every length up to 128, \<^verbatim>\<open>match ip6 src ADDRESS/N\<close> makes a
  selector that accepts a packet exactly when its first \<open>N\<close> source bits are those of the address, except that
  for the lengths 31, 63, 95 and 127 it demands \<open>N + 1\<close> bits.
\<close>

theorem ip6_prefix_compiled:
  assumes "pton6 t = Some bs" "length bs = 16" "CHR ''/'' \<notin> set t" "CHR '':'' \<in> set t" "(plen :: u32) \<le> 128"
  shows "\<exists>sel. parse_ip6 pton6 [''src'', t @ CHR ''/'' # fmt_u plen] empty_sel = Ret (Some (sel, [])) \<and>
    (\<forall>pkt nh. sel_accepts pkt nh sel \<longleftrightarrow>
      (\<forall>b<compared_bits (unat plen). nbit (\<lambda>i. pkt (8 + int i)) b = nbit ((!) bs) b))"
proof -
  obtain addr where addr: "get_prefix_1 pton6 (t @ CHR ''/'' # fmt_u plen) AF_INET6 = Some addr" "pfx_bitlen addr = uint plen"
    "take 16 (pfx_data addr) = bs" "length (pfx_data addr) = 32" using ip6_prefix_read [of pton6 t bs plen] assms by blast
  have n: "int (unat plen) = pfx_bitlen addr" "unat plen \<le> 128" using addr(2) assms(5) by (simp_all add: word_le_nat_alt)
  obtain sel where sel: "pack_ip6 addr 8 0 [0..<4] empty_sel = Some sel" "\<And>pkt nh. sel_accepts pkt nh sel \<longleftrightarrow> sel_accepts pkt nh empty_sel \<and>
      (\<forall>b. b < compared_bits (unat plen) \<and> 32 * 0 \<le> b \<longrightarrow> nbit (\<lambda>i. pkt (8 + int i)) b = nbit ((!) (pfx_data addr)) b)"
    using pack_ip6_ok [OF n, of 8 0 empty_sel] addr(4) empty_sel_ok(1) by (auto simp: empty_sel_def)
  have "compared_bits (unat plen) \<le> 128" using n(2) by (cases "unat plen = 128") (auto simp: compared_bits_def)
  then have "nbit ((!) (pfx_data addr)) b = nbit ((!) bs) b" if "b < compared_bits (unat plen)" for b
  proof -
    have "b div 8 < 16" using that \<open>compared_bits (unat plen) \<le> 128\<close> by (simp add: less_mult_imp_div_less)
    then show ?thesis unfolding nbit_def addr(3) [symmetric] by simp
  qed
  then have "sel_accepts pkt nh sel \<longleftrightarrow> (\<forall>b<compared_bits (unat plen). nbit (\<lambda>i. pkt (8 + int i)) b = nbit ((!) bs) b)" for pkt nh
    unfolding sel(2) using empty_sel_ok(3) by auto
  then show ?thesis using parse_ip6_src [OF addr(1), of empty_sel] sel(1) by (auto simp: or_fail_def)
qed

theorem ip6_prefix_compiled_witness:
  "\<exists>sel. parse_ip6 (\<lambda>_. Some (replicate 16 0)) [''src'', ''::/'' @ fmt_u (31 :: u32)] empty_sel = Ret (Some (sel, [])) \<and>
     \<not> sel_accepts (\<lambda>i. if i = 11 then 1 else 0) 0 sel"
proof -
  obtain sel where sel: "parse_ip6 (\<lambda>_. Some (replicate 16 0)) [''src'', ''::'' @ CHR ''/'' # fmt_u (31 :: u32)] empty_sel = Ret (Some (sel, []))"
    "\<And>pkt nh. sel_accepts pkt nh sel \<longleftrightarrow>
      (\<forall>b<compared_bits (unat (31 :: u32)). nbit (\<lambda>i. pkt (8 + int i)) b = nbit ((!) (replicate 16 0)) b)"
    using ip6_prefix_compiled [of "\<lambda>_. Some (replicate 16 0)" "''::''" "replicate 16 0" 31] by auto
  have "\<not> sel_accepts (\<lambda>i. if i = 11 then 1 else 0) 0 sel"
    unfolding sel(2) by (intro notI) (drule spec [of _ 31], simp add: compared_bits_def nbit_def)
  then show ?thesis using sel(1) by auto
qed

end
