(* ===== verification/Tc_Class.thy ===== *)
theory Tc_Class
  imports Tc_Qdisc
begin

unbundle bit_operations_syntax

text \<open>
  The command \<^verbatim>\<open>tc class\<close> (\<^verbatim>\<open>tc_class.c\<close>), built like \<^verbatim>\<open>tc qdisc\<close> over the class operations of the
  modules. The filters of a listing are global variables that nothing resets.
\<close>

definition RTM_NEWTCLASS :: u16 where "RTM_NEWTCLASS = 40"
definition RTM_DELTCLASS :: u16 where "RTM_DELTCLASS = 41"
definition RTM_GETTCLASS :: u16 where "RTM_GETTCLASS = 42"

section \<open>Changing a class\<close>

definition CLASS_REQ_SIZE :: u32 where "CLASS_REQ_SIZE = 36 + 4096"

definition class_request :: "u16 \<Rightarrow> u16 \<Rightarrow> u32 \<Rightarrow> u32 \<Rightarrow> u8 list" where
  "class_request cmd flags handle parent =
     make_nlmsghdr 36 cmd (NLM_F_REQUEST OR flags) 0 0 @ tcmsg_bytes 0 handle parent @ replicate 4096 0"

function class_words ::
  "tc_env \<Rightarrow> string list \<Rightarrow> qdisc_args \<Rightarrow> tc_state \<Rightarrow> ((int + (string list \<times> qdisc_args)) \<times> tc_state) cexit option" where
  "class_words env [] a st = Some (Ret (Inr ([], a), st))"
| "class_words env (w # r) a st =
     (if w = ''dev'' then
        (case r of
           [] \<Rightarrow> Some incomplete_command
         | v # r' \<Rightarrow> if qa_dev a \<noteq> [] then Some (duparg ''dev'' v)
                     else class_words env r' (a\<lparr>qa_dev := take 15 v\<rparr>) st)
      else if w = ''classid'' then
        (case r of
           [] \<Rightarrow> Some incomplete_command
         | v # r' \<Rightarrow> if qa_handle a \<noteq> 0 then Some (duparg ''classid'' v)
                     else (case get_tc_classid v of
                             None \<Rightarrow> Some (invarg ''invalid class ID'' v)
                           | Some h \<Rightarrow> class_words env r' (a\<lparr>qa_handle := h\<rparr>) st))
      else if w = ''handle'' then Some (Ret (Inl (-1), st))
      else if w = ''root'' then
        if qa_parent a \<noteq> 0 then Some (Ret (Inl (-1), st))
        else class_words env r (a\<lparr>qa_parent := TC_H_ROOT\<rparr>) st
      else if w = ''parent'' then
        (case r of
           [] \<Rightarrow> Some incomplete_command
         | v # r' \<Rightarrow> if qa_parent a \<noteq> 0 then Some (duparg ''parent'' v)
                     else (case get_tc_classid v of
                             None \<Rightarrow> Some (invarg ''invalid parent ID'' v)
                           | Some h \<Rightarrow> class_words env r' (a\<lparr>qa_parent := h\<rparr>) st))
      else if matches w ''estimator'' = 0 then
        (case parse_estimator (e_log env) (w # r) (qa_est a) of
           None \<Rightarrow> None
         | Some (Exit e) \<Rightarrow> Some (Exit e)
         | Some (Ret (rc, argv, est)) \<Rightarrow>
             if rc \<noteq> 0 then Some (Ret (Inl (-1), st))
             else class_words env (tl argv) (a\<lparr>qa_est := est\<rparr>) st)
      else if matches w ''help'' = 0 then class_words env r a st
      else let (q, st1) = get_qdisc_kind (e_linker env) (e_tc_lib env) (take 15 w) st
           in Some (Ret (Inr (r, a\<lparr>qa_kind := take 15 w, qa_util := Some q\<rparr>), st1)))"
  by pat_completeness auto
termination class_words
  by (relation "measure (\<lambda>(_, argv, _, _). length argv)") (auto dest!: parse_estimator_shorter)

declare class_words.simps(2) [simp del]

definition parse_class_module :: "qdisc_args \<Rightarrow> string list \<Rightarrow> u8 list \<Rightarrow> tc_end + u8 list" where
  "parse_class_module a argv n =
     (case qa_util a of
        Some q \<Rightarrow>
          (case qu_parse_copt q of
             None \<Rightarrow> Inl (TcReturn 1)
           | Some parse_copt \<Rightarrow>
               (case parse_copt argv n of
                  None \<Rightarrow> Inl TcUndefined
                | Some (Exit e) \<Rightarrow> Inl (TcExit e)
                | Some (Ret (rc, n1)) \<Rightarrow> if rc \<noteq> 0 then Inl (TcReturn 1) else Inr n1))
      | None \<Rightarrow> if argv \<noteq> [] then Inl (TcReturn (-1)) else Inr n)"

definition tc_class_modify ::
  "tc_env \<Rightarrow> u16 \<Rightarrow> u16 \<Rightarrow> string list \<Rightarrow> tc_state \<Rightarrow> tc_end \<times> u8 list list \<times> tc_state" where
  "tc_class_modify env cmd flags argv st =
     (case class_words env argv no_args st of
        None \<Rightarrow> (TcUndefined, [], st)
      | Some (Exit e) \<Rightarrow> (TcExit e, [], st)
      | Some (Ret (Inl rc, st1)) \<Rightarrow> (TcReturn rc, [], st1)
      | Some (Ret (Inr (rest, a), st1)) \<Rightarrow>
          let n0 = class_request cmd flags (qa_handle a) (qa_parent a);
              n1 = (if qa_kind a \<noteq> []
                    then snd (addattr_l n0 CLASS_REQ_SIZE TCA_KIND (bytes_of_string (qa_kind a) @ [0])) else n0);
              n2 = (if est_ewma_log (qa_est a) \<noteq> 0
                    then snd (addattr_l n1 CLASS_REQ_SIZE TCA_RATE (estimator_bytes (qa_est a))) else n1)
          in case parse_class_module a rest n2 of
               Inl e \<Rightarrow> (e, [], st1)
             | Inr n3 \<Rightarrow>
                 if qa_dev a = [] then send_request env n3 st1
                 else case load_links env st1 of
                        (Some e, sent, st2) \<Rightarrow> (e, sent, st2)
                      | (None, sent, st2) \<Rightarrow>
                          let (idx, st3) = find_device env (qa_dev a) st2
                          in if idx = 0 then (TcReturn 1, sent, st3)
                             else let (e, sent', st4) = send_request env (poke 20 (le_bytes 4 idx) n3) st3
                                  in (e, sent @ sent', st4))"

section \<open>Listing\<close>

definition class_head :: "tc_state \<Rightarrow> u8 list \<Rightarrow> string \<Rightarrow> string" where
  "class_head st n kind =
     (let own = (\<lambda>h. print_tc_classid 256 (if filter_qdisc st \<noteq> 0 then TC_H_MIN h else h))
      in (if nlmsg_type n = RTM_DELTCLASS then ''deleted '' else []) @
         ''class '' @ kind @ '' '' @ (if tcm_handle n \<noteq> 0 then own (tcm_handle n) else []) @ '' '' @
         (if class_filter_ifindex st = 0 then ''dev '' @ ll_index_to_name (tc_links st) (tcm_ifindex n) @ '' '' else []) @
         (if tcm_parent n = TC_H_ROOT then ''root '' else ''parent '' @ own (tcm_parent n) @ '' '') @
         (if tcm_info n \<noteq> 0 then ''leaf '' @ fmt_x (drop_bit 16 (tcm_info n)) @ '': '' else []))"

definition class_stats :: "tc_state \<Rightarrow> u8 list option list \<Rightarrow> qdisc_util \<Rightarrow> string" where
  "class_stats st tb q =
     (if show_stats st = 0 then []
      else let (stats, xstats) =
                 (if tb ! TCA_STATS \<noteq> None \<or> tb ! TCA_STATS2 \<noteq> None
                  then let (t, x) = print_tcstats_attr (use_iec st \<noteq> 0) tb '' '' True None in (t @ [newline], x)
                  else ([], None))
           in stats @ (case (if xstats \<noteq> None then xstats else tb ! TCA_XSTATS, qu_print_xstats q) of
                         (Some x, Some print_xstats) \<Rightarrow> print_xstats x @ [newline]
                       | _ \<Rightarrow> []))"

definition print_class :: "tc_env \<Rightarrow> tc_state option nl_filter" where
  "print_class env pid n state =
     (case state of
        None \<Rightarrow> (0, None)
      | Some st \<Rightarrow>
          if nlmsg_type n \<noteq> RTM_NEWTCLASS \<and> nlmsg_type n \<noteq> RTM_DELTCLASS then (0, state)
          else let len = sint (nlmsg_len n) - 36
               in if len < 0 then (-1, state)
                  else if filter_qdisc st \<noteq> 0 \<and> TC_H_MAJ (tcm_handle n XOR filter_qdisc st) \<noteq> 0 then (0, state)
                  else if filter_classid st \<noteq> 0 \<and> tcm_handle n \<noteq> filter_classid st then (0, state)
                  else let tb = fst (parse_rtattr TCA_MAX (drop 36 n) len)
                       in case tb ! unat TCA_KIND of
                            None \<Rightarrow> (-1, state)
                          | Some k \<Rightarrow>
                              let kind = rta_getattr_str k;
                                  (q, st1) = get_qdisc_kind (e_linker env) (e_tc_lib env) kind st
                              in case (case tb ! unat TCA_OPTIONS of
                                         None \<Rightarrow> Some []
                                       | Some rta \<Rightarrow>
                                           (case qu_print_copt q of
                                              Some print_copt \<Rightarrow> map_option snd (print_copt rta)
                                            | None \<Rightarrow> Some ''[cannot parse class parameters]'')) of
                                   None \<Rightarrow> (0, None)
                                 | Some opts \<Rightarrow>
                                     (0, Some (st1\<lparr>tc_stdout := tc_stdout st1 @ class_head st n kind @ opts @ [newline] @
                                                     class_stats st tb q\<rparr>)))"

text \<open>The words of a listing set the filters, global variables, as they are read.\<close>

fun class_list_words ::
  "string list \<Rightarrow> string \<Rightarrow> u32 \<Rightarrow> tc_state \<Rightarrow> ((int + (string \<times> u32)) \<times> tc_state) cexit" where
  "class_list_words [] dev parent st = Ret (Inr (dev, parent), st)"
| "class_list_words (w # r) dev parent st =
     (if w = ''dev'' then
        (case r of
           [] \<Rightarrow> incomplete_command
         | v # r' \<Rightarrow> if dev \<noteq> [] then duparg ''dev'' v else class_list_words r' (take 15 v) parent st)
      else if w = ''qdisc'' then
        (case r of
           [] \<Rightarrow> incomplete_command
         | v # r' \<Rightarrow> if filter_qdisc st \<noteq> 0 then duparg ''qdisc'' v
                     else (case get_qdisc_handle v of
                             None \<Rightarrow> invarg ''invalid qdisc ID'' v
                           | Some h \<Rightarrow> class_list_words r' dev parent (st\<lparr>filter_qdisc := h\<rparr>)))
      else if w = ''classid'' then
        (case r of
           [] \<Rightarrow> incomplete_command
         | v # r' \<Rightarrow> if filter_classid st \<noteq> 0 then duparg ''classid'' v
                     else (case get_tc_classid v of
                             None \<Rightarrow> invarg ''invalid class ID'' v
                           | Some h \<Rightarrow> class_list_words r' dev parent (st\<lparr>filter_classid := h\<rparr>)))
      else if w = ''root'' then
        if parent \<noteq> 0 then Ret (Inl (-1), st) else class_list_words r dev TC_H_ROOT st
      else if w = ''parent'' then
        if parent \<noteq> 0 then duparg ''parent'' w
        else (case r of
                [] \<Rightarrow> incomplete_command
              | v # r' \<Rightarrow> (case get_tc_classid v of
                             None \<Rightarrow> invarg ''invalid parent ID'' v
                           | Some h \<Rightarrow> class_list_words r' dev h st))
      else if matches w ''help'' = 0 then class_list_words r dev parent st
      else Ret (Inl (-1), st))"

definition tc_class_list :: "tc_env \<Rightarrow> string list \<Rightarrow> tc_state \<Rightarrow> tc_end \<times> u8 list list \<times> tc_state" where
  "tc_class_list env argv st =
     (case class_list_words argv [] 0 st of
        Exit e \<Rightarrow> (TcExit e, [], st)
      | Ret (Inl rc, st1) \<Rightarrow> (TcReturn rc, [], st1)
      | Ret (Inr (dev, parent), st1) \<Rightarrow>
          (case load_links env st1 of
             (Some e, sent, st2) \<Rightarrow> (e, sent, st2)
           | (None, sent, st2) \<Rightarrow>
               let (idx, st3) = (if dev = [] then (0, st2) else find_device env dev st2)
               in if dev \<noteq> [] \<and> idx = 0 then (TcReturn 1, sent, st3)
                  else let st4 = (if dev = [] then st3 else st3\<lparr>class_filter_ifindex := idx\<rparr>);
                           (e, sent', st5) = dump_tc env RTM_GETTCLASS (print_class env) idx parent st4
                       in (e, sent @ sent', st5)))"

section \<open>The command\<close>

definition do_class :: "tc_env \<Rightarrow> string list \<Rightarrow> tc_state \<Rightarrow> tc_end \<times> u8 list list \<times> tc_state" where
  "do_class env argv st =
     (case argv of
        [] \<Rightarrow> tc_class_list env [] st
      | w # r \<Rightarrow>
          if matches w ''add'' = 0 then tc_class_modify env RTM_NEWTCLASS (NLM_F_EXCL OR NLM_F_CREATE) r st
          else if matches w ''change'' = 0 then tc_class_modify env RTM_NEWTCLASS 0 r st
          else if matches w ''replace'' = 0 then tc_class_modify env RTM_NEWTCLASS NLM_F_CREATE r st
          else if matches w ''delete'' = 0 then tc_class_modify env RTM_DELTCLASS 0 r st
          else if matches w ''list'' = 0 \<or> matches w ''show'' = 0 \<or> matches w ''lst'' = 0
          then tc_class_list env r st
          else if matches w ''help'' = 0 then (TcReturn 0, [], st)
          else (TcReturn (-1), [], st))"

section \<open>The filters of a listing stay set\<close>

interpretation class_filter: filter_invariant "print_class env" "\<lambda>_. True" "\<lambda>s. case s of Some st \<Rightarrow> filter_qdisc st = q | None \<Rightarrow> True"
  for env q
  using get_qdisc_kind_keeps
  by unfold_locales (fastforce simp: print_class_def Let_def split: option.splits prod.splits)

lemma dump_class_keeps:
  assumes "dump_tc env type (print_class env) idx parent st = (TcReturn c, sent, st1)"
  shows "filter_qdisc st1 = filter_qdisc st"
proof -
  obtain req rth where r: "rtnl_dump_request (tc_rth st) type (tcmsg_bytes idx 0 parent) = (req, rth)" by fastforce
  show ?thesis
    using assms class_filter.dump_keeps [where st = "Some (st\<lparr>tc_rth := rth\<rparr>)" and q = "filter_qdisc st" and rth = rth and
        env = env and evs = "e_answer env"]
    by (auto simp: dump_tc_def r Let_def split: if_splits nl_outcome.splits option.splits)
qed

lemma load_links_keeps: "load_links env st = (e, sent, st1) \<Longrightarrow> filter_qdisc st1 = filter_qdisc st"
  by (auto simp: load_links_def Let_def split: prod.splits nl_outcome.splits option.splits)

lemma load_links_ends: "load_links env st = (Some e, sent, st1) \<Longrightarrow> e \<noteq> TcReturn c"
  by (auto simp: load_links_def Let_def split: prod.splits nl_outcome.splits option.splits)

lemma do_class_show: "do_class env (''show'' # r) st = tc_class_list env r st"
  by (simp add: do_class_def matches_0_iff)

text \<open>
  C29: The filter of \<^verbatim>\<open>tc class show qdisc HANDLE\<close> is a global variable that nothing clears. After one such
  listing, however it went, the next listing in the same batch that names a discipline is taken for a
  repeated argument and ends the program.
\<close>

theorem class_filter_persists:
  assumes "get_qdisc_handle v = Some h" "h \<noteq> 0" "filter_qdisc st = 0"
    and "do_class env [''show'', ''qdisc'', v] st = (TcReturn c, sent, st1)"
  shows "filter_qdisc st1 = h \<and> do_class env' (''show'' # ''qdisc'' # v' # r) st1 = (TcExit (-1), [], st1)"
proof -
  have "tc_class_list env [''qdisc'', v] st = (TcReturn c, sent, st1)" using assms(4) by (simp add: do_class_show)
  then obtain sent1 st2 sent2 where l: "load_links env (st\<lparr>filter_qdisc := h\<rparr>) = (None, sent1, st2)"
    "dump_tc env RTM_GETTCLASS (print_class env) 0 0 st2 = (TcReturn c, sent2, st1) \<or> st1 = st2"
    using assms(1-3) load_links_ends [of env "st\<lparr>filter_qdisc := h\<rparr>"]
    by (auto simp: tc_class_list_def split: option.splits prod.splits)
  then have "filter_qdisc st1 = h" using load_links_keeps [OF l(1)] dump_class_keeps by fastforce
  then show ?thesis using assms(2) by (simp add: do_class_show tc_class_list_def duparg_def)
qed

theorem class_filter_persists_witness:
  "\<exists>sent st1. do_class (demo_env\<lparr>e_answer := [RecvMsg 0 True False (make_nlmsghdr 16 3 2 10 77)]\<rparr>) [''show'', ''qdisc'', ''1:''] demo_tc =
     (TcReturn 0, sent, st1) \<and> do_class demo_env [''show'', ''qdisc'', ''2:''] st1 = (TcExit (-1), [], st1)"
proof -
  let ?env = "demo_env\<lparr>e_answer := [RecvMsg 0 True False (make_nlmsghdr 16 3 2 10 77)]\<rparr>"
  have h: "get_qdisc_handle ''1:'' = Some 0x10000"
  proof -
    have "scan_number 16 ''1:'' = Some (False, 1, '':'')" by code_simp
    then have "strtoul 16 ''1:'' = (1, '':'')" by (simp add: strtoul_def ULONG_MAX_def)
    then show ?thesis by (simp add: get_qdisc_handle_def)
  qed
  let ?st = "demo_tc\<lparr>filter_qdisc := 0x10000\<rparr>"
  have links: "load_links ?env ?st = (None, [], ?st)"
    by (simp add: load_links_def ll_init_map_def demo_tc_def)
  obtain req rth where r: "rtnl_dump_request (tc_rth ?st) RTM_GETTCLASS (tcmsg_bytes 0 0 0) = (req, rth)" by fastforce
  then have "rth_local_pid rth = 77" "rth_dump rth = 10"
    by (auto simp: rtnl_dump_request_def demo_tc_def demo_handle_def Let_def)
  then have fin: "dump_end rth (make_nlmsghdr 16 3 2 10 77)"
    by (simp add: dump_end_def wf_nlmsg_def header_fields_plain header_fields(5) NLMSG_DONE_def)
  have "rtnl_dump_filter rth (print_class ?env) [RecvMsg 0 True False (make_nlmsghdr 16 3 2 10 77)] s = Returned 0 s" for s
    using dump_filter_messages [where evs = "[]" and ms = "[]" and lst = "[]" and tail = "[]" and later = "[]" and fin = "make_nlmsghdr 16 3 2 10 77"
        and rth = rth and filt = "print_class ?env" and st = s] delivers.nothing fin by simp
  then have "dump_tc ?env RTM_GETTCLASS (print_class ?env) 0 0 ?st = (TcReturn 0, [req], ?st\<lparr>tc_rth := rth\<rparr>)"
    using r by (simp add: dump_tc_def demo_env_def)
  then have run: "do_class ?env [''show'', ''qdisc'', ''1:''] demo_tc = (TcReturn 0, [req], ?st\<lparr>tc_rth := rth\<rparr>)"
    using links h by (simp add: do_class_show tc_class_list_def demo_tc_def)
  have "filter_qdisc demo_tc = 0" by (simp add: demo_tc_def)
  from class_filter_persists [OF h _ this run, of demo_env "''2:''" "[]"] show ?thesis using run by auto
qed

end
