(* ===== verification/Tc_Filter.thy ===== *)
theory Tc_Filter
  imports Tc_Class Ll_Names
begin

unbundle bit_operations_syntax

text \<open>
  The command \<^verbatim>\<open>tc filter\<close> (\<^verbatim>\<open>tc_filter.c\<close>) and the registry of filter modules (\<^verbatim>\<open>tc.c\<close>). What a listing was
  asked for is kept in global variables; it only shortens the text, the selection is the kernel's.
\<close>

definition RTM_NEWTFILTER :: u16 where "RTM_NEWTFILTER = 44"
definition RTM_DELTFILTER :: u16 where "RTM_DELTFILTER = 45"
definition RTM_GETTFILTER :: u16 where "RTM_GETTFILTER = 46"

section \<open>Modules\<close>

definition print_nofopt :: "print_globals \<Rightarrow> u8 list option \<Rightarrow> u32 \<Rightarrow> (int \<times> string) option" where
  "print_nofopt pg opt fhandle =
     Some (0,
       case opt of
         Some rta \<Rightarrow>
           if RTA_PAYLOAD rta \<noteq> 0
           then ''fh '' @ fmt_0x 8 fhandle @ '' [Unknown filter, optlen='' @ fmt_u (of_int (RTA_PAYLOAD rta) :: u32) @ ''] ''
           else if fhandle \<noteq> 0 then ''fh '' @ fmt_0x 8 fhandle @ '' '' else []
       | None \<Rightarrow> if fhandle \<noteq> 0 then ''fh '' @ fmt_0x 8 fhandle @ '' '' else [])"

definition parse_nofopt :: "string option \<Rightarrow> string list \<Rightarrow> u8 list \<Rightarrow> (int \<times> u8 list) cexit option" where
  "parse_nofopt fhandle argv n =
     (if argv \<noteq> [] then Some (Ret (-1, n))
      else case fhandle of
             None \<Rightarrow> Some (Ret (0, n))
           | Some s \<Rightarrow> (case get_u32 s 16 of
                          None \<Rightarrow> Some (Ret (-1, n))
                        | Some h \<Rightarrow> Some (Ret (0, poke 24 (le_bytes 4 h) n))))"

text \<open>The name of a module that was not found is cut to the fifteen characters of its field.\<close>

definition get_filter_kind :: "linker \<Rightarrow> string \<Rightarrow> string \<Rightarrow> tc_state \<Rightarrow> filter_util \<times> tc_state" where
  "get_filter_kind lk tc_lib str st =
     (case List.find (\<lambda>q. fu_id q = str) (filter_list st) of
        Some q \<Rightarrow> (q, st)
      | None \<Rightarrow>
          let (dlh, body) =
                (case dlopen lk (Some (snprintf 256 (tc_lib @ ''/f_'' @ str @ ''.so''))) of
                   Some h \<Rightarrow> (Some h, tc_BODY st)
                 | None \<Rightarrow> (case tc_BODY st of
                              Some h \<Rightarrow> (Some h, Some h)
                            | None \<Rightarrow> (dlopen lk None, dlopen lk None)));
              q = (case Option.bind dlh (\<lambda>h. dlsym_filter lk h (snprintf 256 (str @ ''_filter_util''))) of
                     Some q \<Rightarrow> q
                   | None \<Rightarrow> \<lparr>fu_id = take 15 str, fu_parse_fopt = parse_nofopt, fu_print_fopt = print_nofopt\<rparr>)
          in (q, st\<lparr>tc_BODY := body, filter_list := q # filter_list st\<rparr>))"

section \<open>Changing a filter\<close>

definition TC_H_MAKE :: "u32 \<Rightarrow> u32 \<Rightarrow> u32" where
  "TC_H_MAKE maj minor = (maj AND 0xFFFF0000) OR (minor AND 0x0000FFFF)"

definition ETH_P_ALL :: u16 where "ETH_P_ALL = 3"

text \<open>\<^verbatim>\<open>sizeof(req)\<close>; the buffer is \<^verbatim>\<open>MAX_MSG\<close> long.\<close>

definition FILTER_REQ_SIZE :: u32 where "FILTER_REQ_SIZE = 36 + 16384"

definition tfilter_msg :: "u32 \<Rightarrow> u32 \<Rightarrow> u32 \<Rightarrow> u8 list" where
  "tfilter_msg ifindex parent info =
     [of_nat AF_UNSPEC, 0, 0, 0] @ le_bytes 4 ifindex @ le_bytes 4 (0 :: u32) @ le_bytes 4 parent @ le_bytes 4 info"

definition filter_request :: "u16 \<Rightarrow> u16 \<Rightarrow> u32 \<Rightarrow> u32 \<Rightarrow> u8 list" where
  "filter_request cmd flags parent info =
     make_nlmsghdr 36 cmd (NLM_F_REQUEST OR flags) 0 0 @ tfilter_msg 0 parent info @ replicate 16384 0"

record filter_args =
  fa_dev :: string
  fa_kind :: string
  fa_parent :: u32
  fa_handle :: "string option"
  fa_prio :: u32
  fa_protocol :: u32
  fa_protocol_set :: bool
  fa_est :: tc_estimator
  fa_util :: "filter_util option"

definition filter_start :: "u16 \<Rightarrow> u16 \<Rightarrow> filter_args" where
  "filter_start cmd flags =
     \<lparr>fa_dev = [], fa_kind = [], fa_parent = 0, fa_handle = None, fa_prio = 0,
      fa_protocol = (if cmd = RTM_NEWTFILTER \<and> flags AND NLM_F_CREATE \<noteq> 0 then ucast (htons ETH_P_ALL) else 0),
      fa_protocol_set = False, fa_est = \<lparr>est_interval = 0, est_ewma_log = 0\<rparr>, fa_util = None\<rparr>"

lemma parse_estimator_rc:
  "parse_estimator lg argv est = Some (Ret (rc, argv', e)) \<Longrightarrow> \<not> rc < 0 \<Longrightarrow> length argv' < length argv"
  using parse_estimator_shorter [of lg argv est argv' e]
  by (auto simp: parse_estimator_def Let_def duparg_def split: cexit.splits if_splits prod.splits option.splits)

function filter_words ::
  "tc_env \<Rightarrow> string list \<Rightarrow> filter_args \<Rightarrow> tc_state \<Rightarrow> ((int + (string list \<times> filter_args)) \<times> tc_state) cexit option" where
  "filter_words env [] a st = Some (Ret (Inr ([], a), st))"
| "filter_words env (w # r) a st =
     (if w = ''dev'' then
        (case r of
           [] \<Rightarrow> Some incomplete_command
         | v # r' \<Rightarrow> if fa_dev a \<noteq> [] then Some (duparg ''dev'' v)
                     else filter_words env r' (a\<lparr>fa_dev := take 15 v\<rparr>) st)
      else if w = ''root'' then
        if fa_parent a \<noteq> 0 then Some (Ret (Inl (-1), st))
        else filter_words env r (a\<lparr>fa_parent := TC_H_ROOT\<rparr>) st
      else if w = ''parent'' then
        (case r of
           [] \<Rightarrow> Some incomplete_command
         | v # r' \<Rightarrow> if fa_parent a \<noteq> 0 then Some (duparg ''parent'' v)
                     else (case get_tc_classid v of
                             None \<Rightarrow> Some (invarg ''Invalid parent ID'' v)
                           | Some h \<Rightarrow> filter_words env r' (a\<lparr>fa_parent := h\<rparr>) st))
      else if w = ''handle'' then
        (case r of
           [] \<Rightarrow> Some incomplete_command
         | v # r' \<Rightarrow> if fa_handle a \<noteq> None then Some (duparg ''handle'' v)
                     else filter_words env r' (a\<lparr>fa_handle := Some v\<rparr>) st)
      else if matches w ''preference'' = 0 \<or> matches w ''priority'' = 0 then
        (case r of
           [] \<Rightarrow> Some incomplete_command
         | v # r' \<Rightarrow> if fa_prio a \<noteq> 0 then Some (duparg ''priority'' v)
                     else (case get_u32 v 0 of
                             None \<Rightarrow> Some (invarg ''invalid priority value'' v)
                           | Some p \<Rightarrow> if p > 0xFFFF then Some (invarg ''invalid priority value'' v)
                                        else filter_words env r' (a\<lparr>fa_prio := p\<rparr>) st))
      else if matches w ''protocol'' = 0 then
        (case r of
           [] \<Rightarrow> Some incomplete_command
         | v # r' \<Rightarrow> if fa_protocol_set a then Some (duparg ''protocol'' v)
                     else (case ll_proto_a2n v of
                             None \<Rightarrow> Some (invarg ''invalid protocol'' v)
                           | Some i \<Rightarrow> filter_words env r' (a\<lparr>fa_protocol := ucast i, fa_protocol_set := True\<rparr>) st))
      else if matches w ''estimator'' = 0 then
        (case parse_estimator (e_log env) (w # r) (fa_est a) of
           None \<Rightarrow> None
         | Some (Exit e) \<Rightarrow> Some (Exit e)
         | Some (Ret (rc, argv, est)) \<Rightarrow>
             if rc < 0 then Some (Ret (Inl (-1), st))
             else filter_words env (tl argv) (a\<lparr>fa_est := est\<rparr>) st)
      else if matches w ''help'' = 0 then Some (Ret (Inl 0, st))
      else let (q, st1) = get_filter_kind (e_linker env) (e_tc_lib env) (take 15 w) st
           in Some (Ret (Inr (r, a\<lparr>fa_kind := take 15 w, fa_util := Some q\<rparr>), st1)))"
  by pat_completeness auto
termination filter_words
  by (relation "measure (\<lambda>(_, argv, _, _). length argv)") (auto dest!: parse_estimator_rc)

declare filter_words.simps(2) [simp del]

definition parse_filter_module :: "filter_args \<Rightarrow> string list \<Rightarrow> u8 list \<Rightarrow> tc_end + u8 list" where
  "parse_filter_module a argv n =
     (case fa_util a of
        Some q \<Rightarrow>
          (case fu_parse_fopt q (fa_handle a) argv n of
             None \<Rightarrow> Inl TcUndefined
           | Some (Exit e) \<Rightarrow> Inl (TcExit e)
           | Some (Ret (rc, n1)) \<Rightarrow> if rc \<noteq> 0 then Inl (TcReturn 1) else Inr n1)
      | None \<Rightarrow> if fa_handle a \<noteq> None then Inl (TcReturn (-1))
                else if argv \<noteq> [] then Inl (TcReturn (-1)) else Inr n)"

definition tc_filter_modify ::
  "tc_env \<Rightarrow> u16 \<Rightarrow> u16 \<Rightarrow> string list \<Rightarrow> tc_state \<Rightarrow> tc_end \<times> u8 list list \<times> tc_state" where
  "tc_filter_modify env cmd flags argv st =
     (case filter_words env argv (filter_start cmd flags) st of
        None \<Rightarrow> (TcUndefined, [], st)
      | Some (Exit e) \<Rightarrow> (TcExit e, [], st)
      | Some (Ret (Inl rc, st1)) \<Rightarrow> (TcReturn rc, [], st1)
      | Some (Ret (Inr (rest, a), st1)) \<Rightarrow>
          let n0 = filter_request cmd flags (fa_parent a) (TC_H_MAKE (push_bit 16 (fa_prio a)) (fa_protocol a));
              n1 = (if fa_kind a \<noteq> []
                    then snd (addattr_l n0 FILTER_REQ_SIZE TCA_KIND (bytes_of_string (fa_kind a) @ [0])) else n0)
          in case parse_filter_module a rest n1 of
               Inl e \<Rightarrow> (e, [], st1)
             | Inr n2 \<Rightarrow>
                 let n3 = (if est_ewma_log (fa_est a) \<noteq> 0
                           then snd (addattr_l n2 FILTER_REQ_SIZE TCA_RATE (estimator_bytes (fa_est a))) else n2)
                 in if fa_dev a = [] then send_request env n3 st1
                    else case load_links env st1 of
                           (Some e, sent, st2) \<Rightarrow> (e, sent, st2)
                         | (None, sent, st2) \<Rightarrow>
                             let (idx, st3) = find_device env (fa_dev a) st2
                             in if idx = 0 then (TcReturn 1, sent, st3)
                                else let (e, sent', st4) = send_request env (poke 20 (le_bytes 4 idx) n3) st3
                                     in (e, sent @ sent', st4))"

section \<open>Listing\<close>

text \<open>The line up to the options; the protocol of the filter is left in \<^verbatim>\<open>f_proto\<close> when there is information.\<close>

definition filter_head :: "tc_state \<Rightarrow> u8 list \<Rightarrow> string \<Rightarrow> string" where
  "filter_head st n kind =
     (let proto = ucast (TC_H_MIN (tcm_info n)) :: u16; prio = drop_bit 16 (TC_H_MAJ (tcm_info n))
      in (if nlmsg_type n = RTM_DELTFILTER then ''deleted '' else []) @
         ''filter '' @
         (if tfilter_ifindex st = 0 \<or> tfilter_ifindex st \<noteq> tcm_ifindex n
          then ''dev '' @ ll_index_to_name (tc_links st) (tcm_ifindex n) @ '' '' else []) @
         (if filter_parent st = 0 \<or> filter_parent st \<noteq> tcm_parent n
          then if tcm_parent n = TC_H_ROOT then ''root '' else ''parent '' @ print_tc_classid 256 (tcm_parent n) @ '' ''
          else []) @
         (if tcm_info n \<noteq> 0
          then (if (filter_protocol st = 0 \<or> filter_protocol st \<noteq> ucast proto) \<and> proto \<noteq> 0
                then ''protocol '' @ ll_proto_n2a proto SPRINT_BSIZE @ '' '' else []) @
               (if (filter_prio st = 0 \<or> filter_prio st \<noteq> prio) \<and> prio \<noteq> 0 then ''pref '' @ fmt_u prio @ '' '' else [])
          else []) @
         kind @ '' '')"

definition print_filter :: "tc_env \<Rightarrow> tc_state option nl_filter" where
  "print_filter env pid n state =
     (case state of
        None \<Rightarrow> (0, None)
      | Some st \<Rightarrow>
          if nlmsg_type n \<noteq> RTM_NEWTFILTER \<and> nlmsg_type n \<noteq> RTM_DELTFILTER then (0, state)
          else let len = sint (nlmsg_len n) - 36
               in if len < 0 then (-1, state)
                  else let tb = fst (parse_rtattr TCA_MAX (drop 36 n) len)
                       in case tb ! unat TCA_KIND of
                            None \<Rightarrow> (-1, state)
                          | Some k \<Rightarrow>
                              let kind = rta_getattr_str k;
                                  proto = (if tcm_info n \<noteq> 0 then ucast (TC_H_MIN (tcm_info n)) else f_proto st);
                                  (q, st1) = get_filter_kind (e_linker env) (e_tc_lib env) kind (st\<lparr>f_proto := proto\<rparr>);
                                  pg = \<lparr>pg_stats = show_stats st, pg_raw = show_raw st, pg_pretty = show_pretty st, pg_proto = proto\<rparr>
                              in case (case tb ! unat TCA_OPTIONS of
                                         None \<Rightarrow> Some []
                                       | Some rta \<Rightarrow> map_option snd (fu_print_fopt q pg (Some rta) (tcm_handle n))) of
                                   None \<Rightarrow> (0, None)
                                 | Some opts \<Rightarrow>
                                     let stats = (if show_stats st \<noteq> 0 \<and> (tb ! TCA_STATS \<noteq> None \<or> tb ! TCA_STATS2 \<noteq> None)
                                                  then fst (print_tcstats_attr (use_iec st \<noteq> 0) tb '' '' False None) @ [newline]
                                                  else [])
                                     in (0, Some (st1\<lparr>tc_stdout := tc_stdout st1 @ filter_head st n kind @ opts @ [newline] @ stats\<rparr>)))"

record filter_query =
  fq_dev :: string
  fq_parent :: u32
  fq_handle :: "string option"
  fq_prio :: u32
  fq_protocol :: u32

fun filter_list_words ::
  "string list \<Rightarrow> filter_query \<Rightarrow> tc_state \<Rightarrow> ((int + filter_query) \<times> tc_state) cexit" where
  "filter_list_words [] q st = Ret (Inr q, st)"
| "filter_list_words (w # r) q st =
     (if w = ''dev'' then
        (case r of
           [] \<Rightarrow> incomplete_command
         | v # r' \<Rightarrow> if fq_dev q \<noteq> [] then duparg ''dev'' v else filter_list_words r' (q\<lparr>fq_dev := take 15 v\<rparr>) st)
      else if w = ''root'' then
        if fq_parent q \<noteq> 0 then Ret (Inl (-1), st)
        else filter_list_words r (q\<lparr>fq_parent := TC_H_ROOT\<rparr>) (st\<lparr>filter_parent := TC_H_ROOT\<rparr>)
      else if w = ''parent'' then
        (case r of
           [] \<Rightarrow> incomplete_command
         | v # r' \<Rightarrow> if fq_parent q \<noteq> 0 then duparg ''parent'' v
                     else (case get_tc_classid v of
                             None \<Rightarrow> invarg ''invalid parent ID'' v
                           | Some h \<Rightarrow> filter_list_words r' (q\<lparr>fq_parent := h\<rparr>) (st\<lparr>filter_parent := h\<rparr>)))
      else if w = ''handle'' then
        (case r of
           [] \<Rightarrow> incomplete_command
         | v # r' \<Rightarrow> if fq_handle q \<noteq> None then duparg ''handle'' v
                     else filter_list_words r' (q\<lparr>fq_handle := Some v\<rparr>) st)
      else if matches w ''preference'' = 0 \<or> matches w ''priority'' = 0 then
        (case r of
           [] \<Rightarrow> incomplete_command
         | v # r' \<Rightarrow> if fq_prio q \<noteq> 0 then duparg ''priority'' v
                     else (case get_u32 v 0 of
                             None \<Rightarrow> invarg ''invalid preference'' v
                           | Some p \<Rightarrow> filter_list_words r' (q\<lparr>fq_prio := p\<rparr>) (st\<lparr>filter_prio := p\<rparr>)))
      else if matches w ''protocol'' = 0 then
        (case r of
           [] \<Rightarrow> incomplete_command
         | v # r' \<Rightarrow> if fq_protocol q \<noteq> 0 then duparg ''protocol'' v
                     else (case ll_proto_a2n v of
                             None \<Rightarrow> invarg ''invalid protocol'' v
                           | Some i \<Rightarrow> filter_list_words r' (q\<lparr>fq_protocol := ucast i\<rparr>) (st\<lparr>filter_protocol := ucast i\<rparr>)))
      else if matches w ''help'' = 0 then filter_list_words r q st
      else Ret (Inl (-1), st))"

definition dump_filters ::
  "tc_env \<Rightarrow> u32 \<Rightarrow> u32 \<Rightarrow> u32 \<Rightarrow> tc_state \<Rightarrow> tc_end \<times> u8 list list \<times> tc_state" where
  "dump_filters env idx parent info st =
     (let (req, rth) = rtnl_dump_request (tc_rth st) RTM_GETTFILTER (tfilter_msg idx parent info); st1 = st\<lparr>tc_rth := rth\<rparr>
      in if e_sent env < 0 then (TcReturn 1, [], st1)
         else case rtnl_dump_filter rth (print_filter env) (e_answer env) (Some st1) of
                Returned rc None \<Rightarrow> (TcUndefined, [req], st1)
              | Returned rc (Some st2) \<Rightarrow> (TcReturn (if rc < 0 then 1 else 0), [req], st2)
              | Exited c \<Rightarrow> (TcExit c, [req], st1)
              | Waiting _ \<Rightarrow> (TcWaiting, [req], st1))"

definition tc_filter_list :: "tc_env \<Rightarrow> string list \<Rightarrow> tc_state \<Rightarrow> tc_end \<times> u8 list list \<times> tc_state" where
  "tc_filter_list env argv st =
     (case filter_list_words argv \<lparr>fq_dev = [], fq_parent = 0, fq_handle = None, fq_prio = 0, fq_protocol = 0\<rparr> st of
        Exit e \<Rightarrow> (TcExit e, [], st)
      | Ret (Inl rc, st1) \<Rightarrow> (TcReturn rc, [], st1)
      | Ret (Inr q, st1) \<Rightarrow>
          (case load_links env st1 of
             (Some e, sent, st2) \<Rightarrow> (e, sent, st2)
           | (None, sent, st2) \<Rightarrow>
               let (idx, st3) = (if fq_dev q = [] then (0, st2) else find_device env (fq_dev q) st2)
               in if fq_dev q \<noteq> [] \<and> idx = 0 then (TcReturn 1, sent, st3)
                  else let st4 = (if fq_dev q = [] then st3 else st3\<lparr>tfilter_ifindex := idx\<rparr>);
                           (e, sent', st5) = dump_filters env idx (fq_parent q)
                             (TC_H_MAKE (push_bit 16 (fq_prio q)) (fq_protocol q)) st4
                       in (e, sent @ sent', st5)))"

section \<open>The command\<close>

definition do_filter :: "tc_env \<Rightarrow> string list \<Rightarrow> tc_state \<Rightarrow> tc_end \<times> u8 list list \<times> tc_state" where
  "do_filter env argv st =
     (case argv of
        [] \<Rightarrow> tc_filter_list env [] st
      | w # r \<Rightarrow>
          if matches w ''add'' = 0 then tc_filter_modify env RTM_NEWTFILTER (NLM_F_EXCL OR NLM_F_CREATE) r st
          else if matches w ''change'' = 0 then tc_filter_modify env RTM_NEWTFILTER 0 r st
          else if matches w ''replace'' = 0 then tc_filter_modify env RTM_NEWTFILTER NLM_F_CREATE r st
          else if matches w ''delete'' = 0 then tc_filter_modify env RTM_DELTFILTER 0 r st
          else if matches w ''list'' = 0 \<or> matches w ''show'' = 0 \<or> matches w ''lst'' = 0
          then tc_filter_list env r st
          else if matches w ''help'' = 0 then (TcReturn 0, [], st)
          else (TcReturn (-1), [], st))"

end
