(* ===== verification/Tc_Main.thy ===== *)
theory Tc_Main
  imports Tc_Filter
begin

unbundle bit_operations_syntax

text \<open>
  The front end of the tc command (\<^verbatim>\<open>tc.c\<close>): options, the choice of the object, batch files; and the
  monitor (\<^verbatim>\<open>tc_monitor.c\<close>). The command for actions and its printer, which are not modelled, are
  parameters.
\<close>

type_synonym tc_result = "tc_end \<times> u8 list list \<times> tc_state"

record tc_others =
  do_action :: "tc_env \<Rightarrow> string list \<Rightarrow> tc_state \<Rightarrow> tc_result"
  print_action :: "tc_env \<Rightarrow> tc_state option nl_filter"

text \<open>The system as the front end sees it: sockets, files and the clock.\<close>

record tc_system =
  sy_open :: open_env
  sy_bytes :: "string \<Rightarrow> u8 list option"
  sy_lines :: "string \<Rightarrow> string list option"
  sy_stdin :: "string list"
  sy_psched :: "(u32 \<times> u32 \<times> u32) option"
  sy_stack :: "u8 list"

section \<open>Monitor\<close>

definition RTM_NEWACTION :: u16 where "RTM_NEWACTION = 48"
definition RTM_DELACTION :: u16 where "RTM_DELACTION = 49"
definition RTM_GETACTION :: u16 where "RTM_GETACTION = 50"
definition NLMSG_NOOP :: u16 where "NLMSG_NOOP = 1"
definition RTNLGRP_TC :: u32 where "RTNLGRP_TC = 4"

text \<open>\<^verbatim>\<open>%08d\<close>\<close>

definition fmt_08d :: "int \<Rightarrow> string" where
  "fmt_08d i =
     (let t = fmt_base 10 (nat \<bar>i\<bar>)
      in if i < 0 then ''-'' @ replicate (7 - length t) (CHR ''0'') @ t else replicate (8 - length t) (CHR ''0'') @ t)"

definition accept_tcmsg :: "tc_others \<Rightarrow> tc_env \<Rightarrow> tc_state option nl_filter" where
  "accept_tcmsg others env pid n st =
     (if nlmsg_type n = RTM_NEWTFILTER \<or> nlmsg_type n = RTM_DELTFILTER then (0, snd (print_filter env pid n st))
      else if nlmsg_type n = RTM_NEWTCLASS \<or> nlmsg_type n = RTM_DELTCLASS then (0, snd (print_class env pid n st))
      else if nlmsg_type n = RTM_NEWQDISC \<or> nlmsg_type n = RTM_DELQDISC then (0, snd (print_qdisc env pid n st))
      else if nlmsg_type n = RTM_GETACTION \<or> nlmsg_type n = RTM_NEWACTION \<or> nlmsg_type n = RTM_DELACTION
      then (0, snd (print_action others env pid n st))
      else if nlmsg_type n \<noteq> NLMSG_ERROR \<and> nlmsg_type n \<noteq> NLMSG_NOOP \<and> nlmsg_type n \<noteq> NLMSG_DONE
      then (0, map_option (\<lambda>s. s\<lparr>tc_stdout := tc_stdout s @ ''Unknown message: length '' @ fmt_08d (sint (nlmsg_len n)) @
                 '' type '' @ fmt_0x 8 (nlmsg_type n) @ '' flags '' @ fmt_0x 8 (nlmsg_flags n) @ [newline]\<rparr>) st)
      else (0, st))"

fun monitor_words :: "string list \<Rightarrow> string option \<Rightarrow> string option cexit" where
  "monitor_words [] file_arg = Ret file_arg"
| "monitor_words (w # r) file_arg =
     (if matches w ''file'' = 0 then
        (case r of [] \<Rightarrow> incomplete_command | v # r' \<Rightarrow> monitor_words r' (Some v))
      else Exit (-1))"

text \<open>
  The monitor has a socket of its own. Listening ends only with an error; the buffer for messages
  from a file starts with what the stack holds, \<open>sy_stack\<close>.
\<close>

definition do_tcmonitor :: "tc_others \<Rightarrow> tc_system \<Rightarrow> tc_env \<Rightarrow> string list \<Rightarrow> tc_state \<Rightarrow> tc_result" where
  "do_tcmonitor others sys env argv st =
     (case nl_mgrp RTNLGRP_TC of
        Exit e \<Rightarrow> (TcExit e, [], st)
      | Ret groups \<Rightarrow>
          (case monitor_words argv None of
             Exit e \<Rightarrow> (TcExit e, [], st)
           | Ret (Some name) \<Rightarrow>
               (case sy_bytes sys name of
                  None \<Rightarrow> (TcExit (-1), [], st)
                | Some bs \<Rightarrow>
                    (case rtnl_from_file (accept_tcmsg others env) bs (sy_stack sys) (Some st) of
                       (rc, Some st1) \<Rightarrow> (TcReturn rc, [], st1)
                     | (rc, None) \<Rightarrow> (TcUndefined, [], st)))
           | Ret None \<Rightarrow>
               let (rc, rth) = rtnl_open_byproto (sy_open sys) groups
               in if rc < 0 then (TcExit 1, [], st)
                  else case load_links env (st\<lparr>tc_rth := rth\<rparr>) of
                         (Some e, sent, st1) \<Rightarrow> (e, sent, st1)
                       | (None, sent, st1) \<Rightarrow>
                           (case rtnl_listen (accept_tcmsg others env) (e_answer env) (Some st1) of
                              Returned rc1 None \<Rightarrow> (TcUndefined, sent, st1)
                            | Returned rc1 (Some st2) \<Rightarrow> (TcExit (if rc1 < 0 then 2 else 0), sent, st2)
                            | Exited c \<Rightarrow> (TcExit c, sent, st1)
                            | Waiting None \<Rightarrow> (TcUndefined, sent, st1)
                            | Waiting (Some st2) \<Rightarrow> (TcWaiting, sent, st2))))"

section \<open>Commands and batch files\<close>

definition do_cmd :: "tc_others \<Rightarrow> tc_system \<Rightarrow> tc_env \<Rightarrow> string list \<Rightarrow> tc_state \<Rightarrow> tc_result" where
  "do_cmd others sys env argv st =
     (let w = hd argv; r = tl argv
      in if matches w ''qdisc'' = 0 then do_qdisc env r st
         else if matches w ''class'' = 0 then do_class env r st
         else if matches w ''filter'' = 0 then do_filter env r st
         else if matches w ''actions'' = 0 then do_action others env r st
         else if matches w ''monitor'' = 0 then do_tcmonitor others sys env r st
         else if matches w ''help'' = 0 then (TcReturn 0, [], st)
         else (TcReturn (-1), [], st))"

lemma getcmdline_join_shorter: "getcmdline_join ls line cc no = (rc, line', ls', no') \<Longrightarrow> length ls' \<le> length ls"
proof (induction ls line cc no rule: getcmdline_join.induct)
  case (1 ls line cc no)
  then show ?case
    by (subst (asm) (2) getcmdline_join.simps) (fastforce split: option.splits list.splits)
qed

lemma getcmdline_shorter: "getcmdline ls no = (rc, line, ls', no') \<Longrightarrow> rc \<noteq> -1 \<Longrightarrow> length ls' < length ls"
  by (auto simp: getcmdline_def split: list.splits dest!: getcmdline_join_shorter)

text \<open>
  The loop of a batch file. Each command sees its own part of the conversation with the kernel,
  given by the number of its line.
\<close>

function batch_lines ::
  "tc_others \<Rightarrow> tc_system \<Rightarrow> (nat \<Rightarrow> tc_env) \<Rightarrow> string list \<Rightarrow> nat \<Rightarrow> int \<Rightarrow> tc_state \<Rightarrow> tc_result" where
  "batch_lines others sys envs ls no ret st =
     (case getcmdline ls no of
        (rc, line, ls', no') \<Rightarrow>
          if rc = -1 then (TcReturn ret, [], st)
          else case makeargs line 100 of
                 Exit e \<Rightarrow> (TcExit e, [], st)
               | Ret [] \<Rightarrow> batch_lines others sys envs ls' no' ret st
               | Ret (w # ws) \<Rightarrow>
                   (case do_cmd others sys (envs no') (w # ws) st of
                      (TcReturn c, sent, st1) \<Rightarrow>
                        if c = 0 then
                          (case batch_lines others sys envs ls' no' ret st1 of (e, sent', st2) \<Rightarrow> (e, sent @ sent', st2))
                        else if tc_force st1 = 0 then (TcReturn 1, sent, st1)
                        else (case batch_lines others sys envs ls' no' 1 st1 of (e, sent', st2) \<Rightarrow> (e, sent @ sent', st2))
                    | (e, sent, st1) \<Rightarrow> (e, sent, st1)))"
  by pat_completeness auto
termination batch_lines
  by (relation "measure (\<lambda>(_, _, _, ls, _). length ls)") (auto dest!: getcmdline_shorter [OF sym])

declare batch_lines.simps [simp del]

text \<open>\<open>batch\<close>: the input is the named file or, for no name and for \<^verbatim>\<open>-\<close>, the standard input.\<close>

definition tc_batch :: "tc_others \<Rightarrow> tc_system \<Rightarrow> (nat \<Rightarrow> tc_env) \<Rightarrow> string option \<Rightarrow> tc_state \<Rightarrow> tc_result" where
  "tc_batch others sys envs name st =
     (case (case name of
              Some f \<Rightarrow> if f \<noteq> ''-'' then sy_lines sys f else Some (sy_stdin sys)
            | None \<Rightarrow> Some (sy_stdin sys)) of
        None \<Rightarrow> (TcReturn (-1), [], st)
      | Some ls \<Rightarrow>
          let st1 = st\<lparr>tc_ticks := snd (tc_core_init (sy_psched sys) (tc_ticks st))\<rparr>;
              (rc, rth) = rtnl_open_byproto (sy_open sys) 0; st2 = st1\<lparr>tc_rth := rth\<rparr>
          in if rc < 0 then (TcReturn (-1), [], st2)
             else case batch_lines others sys envs ls 0 0 st2 of
                    (TcReturn ret, sent, st3) \<Rightarrow> (TcReturn ret, sent, st3\<lparr>tc_rth := rtnl_close (tc_rth st3)\<rparr>)
                  | r \<Rightarrow> r)"

section \<open>The program\<close>

text \<open>
  The options before the object: a return code, or the words that are left, whether a batch is
  wanted and its file. \<^verbatim>\<open>-batch\<close> takes the next word away also where there is none.
\<close>

fun main_options ::
  "string list \<Rightarrow> bool \<Rightarrow> string option \<Rightarrow> tc_state \<Rightarrow> (int + (string list \<times> bool \<times> string option)) \<times> tc_state" where
  "main_options [] batching bfile st = (Inr ([], batching, bfile), st)"
| "main_options (w # r) batching bfile st =
     (if w = [] \<or> hd w \<noteq> CHR ''-'' then (Inr (w # r, batching, bfile), st)
      else if matches w ''-stats'' = 0 \<or> matches w ''-statistics'' = 0
      then main_options r batching bfile (st\<lparr>show_stats := show_stats st + 1\<rparr>)
      else if matches w ''-details'' = 0 then main_options r batching bfile (st\<lparr>show_details := show_details st + 1\<rparr>)
      else if matches w ''-raw'' = 0 then main_options r batching bfile (st\<lparr>show_raw := show_raw st + 1\<rparr>)
      else if matches w ''-pretty'' = 0 then main_options r batching bfile (st\<lparr>show_pretty := show_pretty st + 1\<rparr>)
      else if matches w ''-Version'' = 0 then (Inl 0, st)
      else if matches w ''-iec'' = 0 then main_options r batching bfile (st\<lparr>use_iec := use_iec st + 1\<rparr>)
      else if matches w ''-help'' = 0 then (Inl 0, st)
      else if matches w ''-force'' = 0 then main_options r batching bfile (st\<lparr>tc_force := tc_force st + 1\<rparr>)
      else if matches w ''-batch'' = 0
      then (case r of
              [] \<Rightarrow> (Inr ([], True, bfile), st)
            | f # r' \<Rightarrow> main_options r' True (Some f) st)
      else (Inl (-1), st))"

text \<open>\<open>main\<close> without the name of the program. The version text on the output is left out.\<close>

definition tc_main :: "tc_others \<Rightarrow> tc_system \<Rightarrow> (nat \<Rightarrow> tc_env) \<Rightarrow> string list \<Rightarrow> tc_state \<Rightarrow> tc_result" where
  "tc_main others sys envs argv st =
     (case main_options argv False None st of
        (Inl rc, st1) \<Rightarrow> (TcReturn rc, [], st1)
      | (Inr (rest, batching, bfile), st1) \<Rightarrow>
          if batching then tc_batch others sys envs bfile st1
          else if rest = [] then (TcReturn 0, [], st1)
          else let st2 = st1\<lparr>tc_ticks := snd (tc_core_init (sy_psched sys) (tc_ticks st1))\<rparr>;
                   (rc, rth) = rtnl_open_byproto (sy_open sys) 0; st3 = st2\<lparr>tc_rth := rth\<rparr>
               in if rc < 0 then (TcExit 1, [], st3)
                  else case do_cmd others sys (envs 0) rest st3 of
                         (TcReturn ret, sent, st4) \<Rightarrow> (TcReturn ret, sent, st4\<lparr>tc_rth := rtnl_close (tc_rth st4)\<rparr>)
                       | r \<Rightarrow> r)"

section \<open>A batch file is the sequence of its commands\<close>

text \<open>
  What a batch promises: the commands run in order, each on the state the previous one left; a command
  that fails makes the result 1 and ends the batch unless failures are to be ignored.
\<close>

fun run_commands ::
  "tc_others \<Rightarrow> tc_system \<Rightarrow> (nat \<Rightarrow> tc_env) \<Rightarrow> string list list \<Rightarrow> nat \<Rightarrow> int \<Rightarrow> tc_state \<Rightarrow> tc_result" where
  "run_commands others sys envs [] no ret st = (TcReturn ret, [], st)"
| "run_commands others sys envs (argv # cmds) no ret st =
     (case (if argv = [] then (TcReturn 0, [], st) else do_cmd others sys (envs (no + 1)) argv st) of
        (TcReturn c, sent, st1) \<Rightarrow>
          if c \<noteq> 0 \<and> tc_force st1 = 0 then (TcReturn 1, sent, st1)
          else (case run_commands others sys envs cmds (no + 1) (if c = 0 then ret else 1) st1 of
                  (e, sent', st2) \<Rightarrow> (e, sent @ sent', st2))
      | r \<Rightarrow> r)"

text \<open>A line: the words, then a comment or nothing, then the end of the line.\<close>

definition plain_word :: "string \<Rightarrow> bool" where
  "plain_word w \<longleftrightarrow> word_ok w \<and> CHR ''#'' \<notin> set w \<and> CHR 0x5C \<notin> set w"

definition command_line :: "string list \<Rightarrow> string \<Rightarrow> string" where
  "command_line argv comment = unwords argv @ (if comment = [] then [] else CHR ''#'' # comment) @ [newline]"

lemma before_continuation_None: "CHR 0x5C \<notin> set s \<Longrightarrow> before_continuation s = None"
  by (induction s rule: before_continuation.induct) auto

lemma unwords_chars: "c \<in> set (unwords ws) \<Longrightarrow> c = CHR '' '' \<or> (\<exists>w\<in>set ws. c \<in> set w)"
  by (induction ws) auto

lemma plain_chars:
  assumes "list_all plain_word argv" shows "CHR ''#'' \<notin> set (unwords argv)" "CHR 0x5C \<notin> set (unwords argv)"
  using assms unwords_chars [of _ argv] by (fastforce simp: list_all_iff plain_word_def)+

lemma getcmdline_plain:
  assumes "list_all plain_word argv"
  shows "\<exists>rc r. getcmdline (command_line argv comment # ls) no = (rc, unwords argv @ r, ls, no + 1) \<and> rc \<noteq> -1 \<and> r \<in> {[], [newline]}"
proof -
  let ?l = "command_line argv comment"
  let ?r = "if comment = [] then [newline] else []"
  have cut: "upto_chr ?l (CHR ''#'') = unwords argv @ ?r"
    using plain_chars(1) [OF assms] by (auto simp: upto_chr_def command_line_def takeWhile_append newline_def)
  have "CHR 0x5C \<notin> set (unwords argv @ ?r)" using plain_chars(2) [OF assms] by (simp add: newline_def)
  then have "getcmdline (?l # ls) no = (int (length ?l), unwords argv @ ?r, ls, no + 1)"
    by (simp add: getcmdline_def cut getcmdline_join.simps before_continuation_None)
  then show ?thesis by auto
qed

lemma makeargs_line:
  assumes "list_all word_ok ws" "int (length argv + length ws) \<le> int maxargs - 1" "r = [] \<or> r = [newline]"
  shows "makeargs_loop maxargs argv (unwords ws @ r) = Ret (argv @ ws)"
  using assms
proof (induction ws arbitrary: argv)
  case Nil
  then show ?case by (auto simp: makeargs_loop.simps strtok_def is_ws_def newline_def)
next
  case (Cons w ws)
  then show ?case by (subst makeargs_loop.simps) (simp add: strtok_word)
qed

text \<open>
  C28: A batch file does what the commands on its lines do one after the other: blank lines and
  comments do nothing, every command runs on the state its predecessors left, the requests to the kernel
  are those of the commands in this order, and the first command that fails ends the batch with the result 1
  unless \<^verbatim>\<open>-force\<close> is given, in which case the rest is run as well.
\<close>

theorem batch_runs_commands:
  assumes "list_all (\<lambda>(argv, comment). list_all plain_word argv \<and> length argv < 100) cmds"
  shows "batch_lines others sys envs (map (\<lambda>(argv, comment). command_line argv comment) cmds) no ret st =
    run_commands others sys envs (map fst cmds) no ret st"
  using assms
proof (induction cmds arbitrary: no ret st)
  case Nil
  then show ?case by (simp add: batch_lines.simps getcmdline_def)
next
  case (Cons c cmds)
  obtain argv comment where c: "c = (argv, comment)" by fastforce
  let ?ls = "map (\<lambda>(argv, comment). command_line argv comment) cmds"
  have ok: "list_all plain_word argv" "length argv < 100" using Cons.prems by (simp_all add: c)
  obtain rc r where get: "getcmdline (command_line argv comment # ?ls) no = (rc, unwords argv @ r, ?ls, no + 1)" "rc \<noteq> -1"
    "r = [] \<or> r = [newline]"
    using getcmdline_plain [OF ok(1), of comment ?ls no] by auto
  have "list_all word_ok argv" using ok(1) by (simp add: list_all_iff plain_word_def)
  then have args: "makeargs (unwords argv @ r) 100 = Ret argv"
    using makeargs_line [of argv "[]" 100 r] ok(2) get(3) by (simp add: makeargs_def)
  have IH: "batch_lines others sys envs ?ls no' ret' st' = run_commands others sys envs (map fst cmds) no' ret' st'"
    for no' ret' st' using Cons by simp
  have "batch_lines others sys envs (command_line argv comment # ?ls) no ret st =
      run_commands others sys envs (argv # map fst cmds) no ret st"
    unfolding batch_lines.simps [of others sys envs "command_line argv comment # ?ls"] get(1)
    using get(2) args by (cases argv) (simp_all add: IH split: prod.split tc_end.split)
  then show ?case by (simp add: c)
qed

definition no_others :: tc_others where
  "no_others = \<lparr>do_action = (\<lambda>env argv st. (TcReturn 1, [], st)),
     print_action = (\<lambda>env pid n st. (0, st))\<rparr>"

definition demo_sys :: tc_system where
  "demo_sys =
     \<lparr>sy_open = \<lparr>oe_socket = 3, oe_sndbuf = 0, oe_rcvbuf = 0, oe_bind = 0, oe_getsockname = 0, oe_addr_len = 12, oe_family = 16,
                 oe_pid = 77, oe_time = 9\<rparr>,
      sy_bytes = (\<lambda>name. None), sy_lines = (\<lambda>name. None), sy_stdin = [], sy_psched = None, sy_stack = []\<rparr>"

theorem batch_runs_commands_witness:
  "batch_lines no_others demo_sys (\<lambda>no. demo_env)
     [command_line [] ''configuration'', command_line [''help''] [], command_line [''bogus''] [], command_line [''help''] []] 0 0 demo_tc =
   (TcReturn 1, [], demo_tc)"
  using batch_runs_commands [of "[([], ''configuration''), ([''help''], []), ([''bogus''], []), ([''help''], [])]" no_others demo_sys
      "\<lambda>no. demo_env" 0 0 demo_tc]
  by (simp add: plain_word_def word_ok_def is_ws_def do_cmd_def matches_0_iff demo_tc_def)

end
