(* ===== verification/Tc_Props.thy ===== *)
theory Tc_Props
  imports Tc_Main
begin

unbundle bit_operations_syntax

text \<open>
  The tc command from the words of a command line to the message the kernel receives and the
  configuration the discipline installs.
\<close>

section \<open>Building a request\<close>

lemma new_request_fields:
  "length (new_request cmd flags h p) = 65572" "nlmsg_len (new_request cmd flags h p) = 36"
  "nlmsg_type (new_request cmd flags h p) = cmd" "nlmsg_flags (new_request cmd flags h p) = NLM_F_REQUEST OR flags"
  "tcm_handle (new_request cmd flags h p) = h" "tcm_parent (new_request cmd flags h p) = p"
  by (simp_all add: new_request_def make_nlmsghdr_def tcmsg_bytes_def TCA_BUF_MAX_def nlmsg_len_def nlmsg_type_def
      nlmsg_flags_def tcm_handle_def tcm_parent_def peek32_def peek16_def del: replicate.simps)

lemma new_request_msg: "nl_msg 36 [] (new_request cmd flags h p)"
  by (simp add: nl_msg_def new_request_fields)

lemma kind_attr:
  assumes "k \<noteq> []" "length k \<le> 15"
  shows "\<exists>p n1. addattr_l (new_request cmd flags h par) REQ_SIZE TCA_KIND (bytes_of_string k @ [0]) = (0, n1) \<and>
    nl_msg 36 [(TCA_KIND, bytes_of_string k @ [0], p)] n1 \<and> length n1 = 65572 \<and>
    length (encs [(TCA_KIND, bytes_of_string k @ [0], p)]) \<le> 20 \<and>
    take 32 (drop 4 n1) = take 32 (drop 4 (new_request cmd flags h par))"
proof -
  have l: "length (bytes_of_string k) = length k" by (simp add: bytes_of_string_def)
  have sz: "unat REQ_SIZE = 65572" by (simp add: REQ_SIZE_def TCA_BUF_MAX_def)
  have a: "align4 (5 + length k) \<le> 20" using assms(2) by (simp add: align4_def)
  obtain p n1 where n1: "addattr_l (new_request cmd flags h par) REQ_SIZE TCA_KIND (bytes_of_string k @ [0]) = (0, n1)"
    "nl_msg 36 [(TCA_KIND, bytes_of_string k @ [0], p)] n1" "length n1 = 65572"
    "take 32 (drop 4 n1) = take 32 (drop 4 (new_request cmd flags h par))"
    using addattr_l_msg(2) [OF new_request_msg, of "bytes_of_string k @ [0]" REQ_SIZE cmd flags h par TCA_KIND] a sz l assms(2)
    by (auto simp: new_request_fields)
  have "attr_ok (TCA_KIND, bytes_of_string k @ [0], p)" using n1(2) by (simp add: nl_msg_def)
  then have "length (encs [(TCA_KIND, bytes_of_string k @ [0], p)]) \<le> 20" using a l by simp
  with n1 show ?thesis by blast
qed

section \<open>Sending it\<close>

text \<open>
  The message as the kernel receives it: the device is filled in, the sequence number and the
  request for an acknowledgement are set, everything else is what was built.
\<close>

lemma sent_message:
  assumes "nl_msg 36 as n"
  defines "msg \<equiv> \<lambda>rth i. let n' = poke 20 (le_bytes 4 (i :: u32)) n in take (unat (nlmsg_len n')) (talk_request rth n' False)"
  shows "nl_msg 36 as (msg rth i)" "length (msg rth i) = unat (nlmsg_len (msg rth i))"
    "nlmsg_type (msg rth i) = nlmsg_type n" "nlmsg_flags (msg rth i) = nlmsg_flags n OR NLM_F_ACK"
    "nlmsg_seq (msg rth i) = rth_seq rth + 1" "tcm_ifindex (msg rth i) = i"
    "tcm_handle (msg rth i) = tcm_handle n" "tcm_parent (msg rth i) = tcm_parent n" "tcm_info (msg rth i) = tcm_info n"
proof -
  let ?n1 = "poke 20 (le_bytes 4 i) n"
  let ?n2 = "poke 8 (le_bytes 4 (rth_seq rth + 1)) ?n1"
  let ?n3 = "poke 6 (le_bytes 2 (nlmsg_flags ?n2 OR NLM_F_ACK)) ?n2"
  have n: "36 \<le> length n" using assms(1) by (simp add: nl_msg_def)
  then have l: "36 \<le> length ?n1" "36 \<le> length ?n2" by (simp_all add: length_poke)
  have m1: "nl_msg 36 as ?n1" by (rule poke_hdr_msg [OF assms(1)]) simp_all
  have m2: "nl_msg 36 as ?n2" by (rule poke_hdr_msg [OF m1]) simp_all
  have m3: "nl_msg 36 as ?n3" by (rule poke_hdr_msg [OF m2]) simp_all
  have "nlmsg_len ?n3 = nlmsg_len ?n1"
    using peek_poke_other(1) [of 0 6 _ ?n2] peek_poke_other(1) [of 0 8 _ ?n1] l by (simp add: nlmsg_len_def)
  then have msg: "msg rth i = take (unat (nlmsg_len ?n3)) ?n3"
    by (simp add: msg_def talk_request_def Let_def)
  show "nl_msg 36 as (msg rth i)" unfolding msg by (rule sent_msg [OF m3])
  then show "length (msg rth i) = unat (nlmsg_len (msg rth i))"
    using sent_msg(2) [OF m3] unfolding msg by (simp add: nl_msg_def)
  note peek = peek_poke_other peek_poke_same length_poke
  have f: "nlmsg_flags ?n2 = nlmsg_flags n" using n by (simp add: nlmsg_flags_def peek)
  have n3: "nlmsg_type ?n3 = nlmsg_type n" "nlmsg_flags ?n3 = nlmsg_flags n OR NLM_F_ACK" "nlmsg_seq ?n3 = rth_seq rth + 1"
    "tcm_ifindex ?n3 = i" "tcm_handle ?n3 = tcm_handle n" "tcm_parent ?n3 = tcm_parent n" "tcm_info ?n3 = tcm_info n"
    unfolding f using n by (simp_all add: nlmsg_type_def nlmsg_flags_def nlmsg_seq_def tcm_ifindex_def tcm_handle_def
        tcm_parent_def tcm_info_def peek)
  show "nlmsg_type (msg rth i) = nlmsg_type n" "nlmsg_seq (msg rth i) = rth_seq rth + 1" "tcm_ifindex (msg rth i) = i"
    "tcm_handle (msg rth i) = tcm_handle n" "tcm_parent (msg rth i) = tcm_parent n" "tcm_info (msg rth i) = tcm_info n"
    "nlmsg_flags (msg rth i) = nlmsg_flags n OR NLM_F_ACK"
    using n3 sent_msg(3,4) [OF m3] unfolding msg nlmsg_type_def nlmsg_flags_def nlmsg_seq_def tcm_ifindex_def tcm_handle_def
      tcm_parent_def tcm_info_def by simp_all
qed

lemma sent_request:
  assumes "nl_msg 36 as n" "length n = 65572" "take 32 (drop 4 n) = take 32 (drop 4 (new_request cmd flags h par))"
  defines "msg \<equiv> \<lambda>rth i. let n' = poke 20 (le_bytes 4 (i :: u32)) n in take (unat (nlmsg_len n')) (talk_request rth n' False)"
  shows "nl_msg 36 as (msg rth i)" "length (msg rth i) = unat (nlmsg_len (msg rth i))"
    "nlmsg_type (msg rth i) = cmd" "nlmsg_flags (msg rth i) = NLM_F_REQUEST OR flags OR NLM_F_ACK"
    "nlmsg_seq (msg rth i) = rth_seq rth + 1"
    "tcm_ifindex (msg rth i) = i" "tcm_handle (msg rth i) = h" "tcm_parent (msg rth i) = par"
proof -
  have n: "nlmsg_type n = cmd" "nlmsg_flags n = NLM_F_REQUEST OR flags" "tcm_handle n = h" "tcm_parent n = par"
    using peek_same_part [OF assms(3)] new_request_fields [of cmd flags h par]
    by (simp_all add: nlmsg_type_def nlmsg_flags_def tcm_handle_def tcm_parent_def)
  note s = sent_message [OF assms(1), where rth = rth and i = i, folded msg_def]
  show "nl_msg 36 as (msg rth i)" "length (msg rth i) = unat (nlmsg_len (msg rth i))"
    "nlmsg_type (msg rth i) = cmd" "nlmsg_flags (msg rth i) = NLM_F_REQUEST OR flags OR NLM_F_ACK"
    "nlmsg_seq (msg rth i) = rth_seq rth + 1"
    "tcm_ifindex (msg rth i) = i" "tcm_handle (msg rth i) = h" "tcm_parent (msg rth i) = par"
    using s n by (simp_all add: or.assoc msg_def)
qed

section \<open>From the command line to the discipline\<close>

lemma pfabric_words:
  assumes "get_qdisc_kind (e_linker env) (e_tc_lib env) ''pfabric'' st = (u, st1)"
  shows "qdisc_words env (''dev'' # dev # ''root'' # ''pfabric'' # opts) no_args st =
    Some (Ret (Inr (opts, no_args\<lparr>qa_dev := take 15 dev, qa_parent := TC_H_ROOT, qa_kind := ''pfabric'', qa_util := Some u\<rparr>), st1))"
  using assms by (simp add: qdisc_words.simps(2) no_args_def matches_0_iff)

lemma do_qdisc_verbs:
  "do_qdisc env (''add'' # r) st = tc_qdisc_modify env RTM_NEWQDISC (NLM_F_EXCL OR NLM_F_CREATE) r st"
  "do_qdisc env (''change'' # r) st = tc_qdisc_modify env RTM_NEWQDISC 0 r st"
  "do_qdisc env (''replace'' # r) st = tc_qdisc_modify env RTM_NEWQDISC (NLM_F_CREATE OR NLM_F_REPLACE) r st"
  by (simp_all add: do_qdisc_def matches_0_iff)

lemma no_args_fields: "est_ewma_log (qa_est no_args) = 0" "qa_stab no_args = no_sizespec" "qa_handle no_args = 0"
  by (simp_all add: no_args_def)

lemma modify_pfabric:
  assumes "dev \<noteq> []" "initialized (tc_links st)"
    and "fst (ll_name_to_index (e_nametoindex env) (Some (take 15 dev)) (tc_links st)) = i" "i \<noteq> 0"
    and "fst (get_qdisc_kind (e_linker env) (e_tc_lib env) ''pfabric'' st) = pfabric_qdisc_util"
    and "pfabric_args opts default_qopt = Some (Ret (Inr q))"
  shows "\<exists>n p st3. tc_qdisc_modify env cmd flags (''dev'' # dev # ''root'' # ''pfabric'' # opts) st =
      send_request env (poke 20 (le_bytes 4 i) n) st3 \<and> tc_rth st3 = tc_rth st \<and>
    nl_msg 36 [(TCA_KIND, bytes_of_string ''pfabric'' @ [0], p), (TCA_OPTIONS, qopt_bytes q, [])] n \<and> length n = 65572 \<and>
    take 32 (drop 4 n) = take 32 (drop 4 (new_request cmd flags 0 TC_H_ROOT))"
proof -
  obtain st1 where st1: "get_qdisc_kind (e_linker env) (e_tc_lib env) ''pfabric'' st = (pfabric_qdisc_util, st1)"
    using assms(5) by (cases "get_qdisc_kind (e_linker env) (e_tc_lib env) ''pfabric'' st") simp
  have keep: "tc_rth st1 = tc_rth st" "tc_links st1 = tc_links st" using get_qdisc_kind_keeps [OF st1] by simp_all
  obtain p n1 where n1: "addattr_l (new_request cmd flags 0 TC_H_ROOT) REQ_SIZE TCA_KIND (bytes_of_string ''pfabric'' @ [0]) = (0, n1)"
    "nl_msg 36 [(TCA_KIND, bytes_of_string ''pfabric'' @ [0], p)] n1" "length n1 = 65572"
    "length (encs [(TCA_KIND, bytes_of_string ''pfabric'' @ [0], p)]) \<le> 20"
    "take 32 (drop 4 n1) = take 32 (drop 4 (new_request cmd flags 0 TC_H_ROOT))"
    using kind_attr [of "''pfabric''" cmd flags 0 TC_H_ROOT] by auto
  obtain n where n: "pfabric_parse_opt opts n1 = Some (Ret (0, n))"
    "nl_msg 36 ([(TCA_KIND, bytes_of_string ''pfabric'' @ [0], p)] @ [(TCA_OPTIONS, qopt_bytes q, [])]) n"
    "length n = length n1" "take (36 - 4) (drop 4 n) = take (36 - 4) (drop 4 n1)"
    using parse_opt_msg [OF n1(2) _ _ assms(6)] n1(3,4) by auto
  obtain m where m: "ll_name_to_index (e_nametoindex env) (Some (take 15 dev)) (tc_links st) = (i, m)"
    using assms(3) by (metis prod.collapse)
  have links: "load_links env st1 = (None, [], st1)"
    using assms(2) keep by (simp add: load_links_def ll_init_map_def)
  have stab: "\<not> check_size_table_opts no_sizespec"
    by (simp add: check_size_table_opts_def no_sizespec_def LINKLAYER_UNSPEC_def LINKLAYER_ETHERNET_def)
  have "tc_qdisc_modify env cmd flags (''dev'' # dev # ''root'' # ''pfabric'' # opts) st =
      send_request env (poke 20 (le_bytes 4 i) n) (st1\<lparr>tc_links := m\<rparr>)"
    using assms(1,4) m keep n(1) n1(1) links stab
    by (simp add: tc_qdisc_modify_def pfabric_words [OF st1] no_args_fields parse_module_def pfabric_qdisc_util_def add_stab_def
        find_device_def Let_def split: prod.split)
  moreover have "tc_rth (st1\<lparr>tc_links := m\<rparr>) = tc_rth st" using keep by simp
  moreover have "nl_msg 36 [(TCA_KIND, bytes_of_string ''pfabric'' @ [0], p), (TCA_OPTIONS, qopt_bytes q, [])] n"
    "length n = 65572" "take 32 (drop 4 n) = take 32 (drop 4 (new_request cmd flags 0 TC_H_ROOT))"
    using n n1(3,5) by simp_all
  ultimately show ?thesis by blast
qed

lemma send_request_ack:
  assumes "0 \<le> e_sent env" "e_answer env = RecvMsg 0 True trunc (concat ms @ reply @ tail) # evs"
    and "list_all (\<lambda>m. wf_nlmsg m \<and> nlmsg_seq m \<noteq> rth_seq (tc_rth st) + 1) ms"
    and "wf_nlmsg reply" "36 \<le> length reply" "nlmsg_type reply = NLMSG_ERROR"
    and "nlmsg_pid reply = rth_local_pid (tc_rth st)" "nlmsg_seq reply = rth_seq (tc_rth st) + 1"
  shows "\<exists>st'. send_request env n st =
    (TcReturn (if nlmsgerr_error reply = 0 then 0 else 2),
     [take (unat (nlmsg_len n)) (talk_request (tc_rth st) n False)], st')"
  using talk_recv_ack [OF assms(3-8), of 0 trunc tail evs] assms(1,2)
  by (simp add: send_request_def rtnl_talk_def Let_def)

text \<open>
  C6: \<^verbatim>\<open>tc qdisc add dev DEV root pfabric OPTIONS\<close>, and the same with \<^verbatim>\<open>change\<close> or \<^verbatim>\<open>replace\<close>, for a device that
  is known to a process whose map of the links is filled and options that are read: exactly one message goes to the kernel. It asks for the
  discipline \<^verbatim>\<open>pfabric\<close> at the root of that device with the flags of the verb and an acknowledgement,
  and in it the kernel's parser finds the kind and an option payload with which the discipline's
  \<^verbatim>\<open>pfab_change\<close> installs exactly the limit and the switch of the command line. The command returns 0
  when the kernel acknowledges without error and 2 otherwise.
\<close>

theorem tc_configures_pfabric:
  fixes s :: "'q pfab"
  assumes "(verb, flags) \<in> {(''add'', NLM_F_EXCL OR NLM_F_CREATE), (''change'', 0), (''replace'', NLM_F_CREATE OR NLM_F_REPLACE)}"
    and "dev \<noteq> []" "initialized (tc_links st)"
    and "fst (ll_name_to_index (e_nametoindex env) (Some (take 15 dev)) (tc_links st)) = i" "i \<noteq> 0"
    and "fst (get_qdisc_kind (e_linker env) (e_tc_lib env) ''pfabric'' st) = pfabric_qdisc_util"
    and "pfabric_args opts default_qopt = Some (Ret (Inr q))"
    and "0 \<le> e_sent env" "e_answer env = RecvMsg 0 True trunc (concat ms @ reply @ tail) # evs"
    and "list_all (\<lambda>m. wf_nlmsg m \<and> nlmsg_seq m \<noteq> rth_seq (tc_rth st) + 1) ms"
    and "wf_nlmsg reply" "36 \<le> length reply" "nlmsg_type reply = NLMSG_ERROR"
    and "nlmsg_pid reply = rth_local_pid (tc_rth st)" "nlmsg_seq reply = rth_seq (tc_rth st) + 1"
  shows "\<exists>msg st' kind rta s'.
    do_qdisc env (verb # ''dev'' # dev # ''root'' # ''pfabric'' # opts) st =
      (TcReturn (if nlmsgerr_error reply = 0 then 0 else 2), [msg], st') \<and>
    length msg = unat (nlmsg_len msg) \<and> nlmsg_type msg = RTM_NEWQDISC \<and>
    nlmsg_flags msg = NLM_F_REQUEST OR flags OR NLM_F_ACK \<and> nlmsg_seq msg = rth_seq (tc_rth st) + 1 \<and>
    tcm_ifindex msg = i \<and> tcm_handle msg = 0 \<and> tcm_parent msg = TC_H_ROOT \<and>
    fst (parse_rtattr TCA_MAX (drop 36 msg) (uint (nlmsg_len msg) - 36)) ! unat TCA_KIND = Some kind \<and>
    rta_getattr_str kind = ''pfabric'' \<and>
    fst (parse_rtattr TCA_MAX (drop 36 msg) (uint (nlmsg_len msg) - 36)) ! unat TCA_OPTIONS = Some rta \<and>
    pfab_change (Some (rta_payload rta)) s = (0, s') \<and>
    pd_limit (pfab_data s') = qo_limit q \<and> pd_disable_dequeue (pfab_data s') = qo_disable_dequeue q"
proof -
  let ?argv = "''dev'' # dev # ''root'' # ''pfabric'' # opts"
  obtain n p st3 where n: "tc_qdisc_modify env RTM_NEWQDISC flags ?argv st = send_request env (poke 20 (le_bytes 4 i) n) st3"
    "tc_rth st3 = tc_rth st"
    "nl_msg 36 [(TCA_KIND, bytes_of_string ''pfabric'' @ [0], p), (TCA_OPTIONS, qopt_bytes q, [])] n" "length n = 65572"
    "take 32 (drop 4 n) = take 32 (drop 4 (new_request RTM_NEWQDISC flags 0 TC_H_ROOT))"
    using modify_pfabric [OF assms(2-7), of RTM_NEWQDISC flags] by blast
  let ?n' = "poke 20 (le_bytes 4 i) n"
  let ?msg = "take (unat (nlmsg_len ?n')) (talk_request (tc_rth st) ?n' False)"
  have "do_qdisc env (verb # ?argv) st = tc_qdisc_modify env RTM_NEWQDISC flags ?argv st"
    using assms(1) do_qdisc_verbs by auto
  then obtain st' where run: "do_qdisc env (verb # ?argv) st = (TcReturn (if nlmsgerr_error reply = 0 then 0 else 2), [?msg], st')"
    using send_request_ack [OF assms(8,9), of st3 ?n'] assms(10-15) n(1,2) by auto
  note sent = sent_request [OF n(3-5), where rth = "tc_rth st" and i = i, unfolded Let_def]
  have k: "unat TCA_KIND = 1" "unat TCA_OPTIONS = 2" by (simp_all add: TCA_KIND_def TCA_OPTIONS_def)
  obtain kind r1 where kind: "fst (parse_rtattr TCA_MAX (drop 36 ?msg) (uint (nlmsg_len ?msg) - int 36)) ! 1 = Some kind"
    "RTA_DATA kind = (bytes_of_string ''pfabric'' @ [0]) @ r1"
    using msg_attr [OF sent(1), of 1 TCA_MAX] k by (auto simp: TCA_MAX_def first_attr_def)
  obtain rta where rta: "fst (parse_rtattr TCA_MAX (drop 36 ?msg) (uint (nlmsg_len ?msg) - int 36)) ! 2 = Some rta"
    "rta_payload rta = qopt_bytes q"
    using msg_attr [OF sent(1), of 2 TCA_MAX] k by (auto simp: TCA_MAX_def first_attr_def)
  have name: "rta_getattr_str kind = ''pfabric''"
    using char_roundtrip [of "''pfabric''" r1] kind(2) by (simp add: rta_getattr_str_def)
  have hdr: "int 36 = 36" by simp
  obtain s' where s': "pfab_change (Some (rta_payload rta)) s = (0, s')" "pd_limit (pfab_data s') = qo_limit q"
    "pd_disable_dequeue (pfab_data s') = qo_disable_dequeue q"
    using change_installs [OF assms(7), of s] unfolding rta(2) by blast
  show ?thesis
    unfolding k using run sent(2-8) kind(1) [unfolded hdr] rta(1) [unfolded hdr] name s' by blast
qed

theorem tc_configures_pfabric_witness:
  "\<exists>msg st' rta s'. do_qdisc demo_env [''add'', ''dev'', ''eth0'', ''root'', ''pfabric'', ''limit'', fmt_nat 300] demo_tc =
     (TcReturn 0, [msg], st') \<and> tcm_ifindex msg = 2 \<and>
     fst (parse_rtattr TCA_MAX (drop 36 msg) (uint (nlmsg_len msg) - 36)) ! unat TCA_OPTIONS = Some rta \<and>
     pfab_change (Some (rta_payload rta)) started = (0, s') \<and> pd_limit (pfab_data s') = 300"
proof -
  have idx: "fst (ll_name_to_index (e_nametoindex demo_env) (Some (take 15 ''eth0'')) (tc_links demo_tc)) = 2"
    by (simp add: ll_name_to_index_def demo_tc_def demo_env_def empty_map_def del: replicate.simps)
  have m: "fst (get_qdisc_kind (e_linker demo_env) (e_tc_lib demo_env) ''pfabric'' demo_tc) = pfabric_qdisc_util"
    by (simp add: get_qdisc_kind_def demo_tc_def demo_env_def snprintf_def Let_def)
  have args: "pfabric_args [''limit'', fmt_nat 300] default_qopt = Some (Ret (Inr (default_qopt\<lparr>qo_limit := of_nat 300\<rparr>)))"
    by (rule limit_arg) simp
  have ack: "wf_nlmsg demo_ack" "nlmsg_type demo_ack = NLMSG_ERROR" "nlmsg_pid demo_ack = rth_local_pid (tc_rth demo_tc)"
    "nlmsg_seq demo_ack = rth_seq (tc_rth demo_tc) + 1" "36 \<le> length demo_ack"
    by (simp_all add: demo_ack_def wf_nlmsg_def header_fields NLMSG_ERROR_def demo_tc_def demo_handle_def)
  have ok: "nlmsgerr_error demo_ack = 0"
    by (simp add: demo_ack_def nlmsgerr_error_def peek32_def make_nlmsghdr_def)
  have ans: "e_answer demo_env = RecvMsg 0 True False (concat [] @ demo_ack @ []) # []" "0 \<le> e_sent demo_env"
    by (simp_all add: demo_env_def)
  from tc_configures_pfabric [OF _ _ _ idx _ m args ans(2,1) _ ack(1,5,2,3,4), of "''add''" "NLM_F_EXCL OR NLM_F_CREATE" started]
  show ?thesis by (simp add: demo_tc_def ok) blast
qed

end
