(* ===== verification/Tc_Filter_Props.thy ===== *)
theory Tc_Filter_Props
  imports Tc_Props F_U32_Module
begin

unbundle bit_operations_syntax

text \<open>
  The command \<^verbatim>\<open>tc filter\<close> from the words of a command line to the message the kernel receives and the packets
  the filter in it accepts; and the line of a listing, read back.
\<close>

section \<open>Building a request\<close>

lemma filter_request_fields:
  "length (filter_request cmd flags par info) = 16420" "nlmsg_len (filter_request cmd flags par info) = 36"
  "nlmsg_type (filter_request cmd flags par info) = cmd" "nlmsg_flags (filter_request cmd flags par info) = NLM_F_REQUEST OR flags"
  "tcm_handle (filter_request cmd flags par info) = 0" "tcm_parent (filter_request cmd flags par info) = par"
  "tcm_info (filter_request cmd flags par info) = info"
  by (simp_all add: filter_request_def make_nlmsghdr_def tfilter_msg_def nlmsg_len_def nlmsg_type_def
      nlmsg_flags_def tcm_handle_def tcm_parent_def tcm_info_def peek32_def peek16_def del: replicate.simps)

lemma filter_request_msg: "nl_msg 36 [] (filter_request cmd flags par info)"
  by (simp add: nl_msg_def filter_request_fields)

lemma filter_kind_attr:
  "\<exists>n1. addattr_l (filter_request cmd flags par info) FILTER_REQ_SIZE TCA_KIND (bytes_of_string ''u32'' @ [0]) = (0, n1) \<and>
    nl_msg 36 [(TCA_KIND, bytes_of_string ''u32'' @ [0], [])] n1 \<and> length n1 = 16420 \<and>
    take 32 (drop 4 n1) = take 32 (drop 4 (filter_request cmd flags par info))"
proof -
  have l: "length (bytes_of_string ''u32'' @ [0]) = 4" by (simp add: bytes_of_string_def)
  obtain p n1 where n1: "addattr_l (filter_request cmd flags par info) FILTER_REQ_SIZE TCA_KIND (bytes_of_string ''u32'' @ [0]) = (0, n1)"
    "nl_msg 36 [(TCA_KIND, bytes_of_string ''u32'' @ [0], p)] n1" "length n1 = 16420"
    "take 32 (drop 4 n1) = take 32 (drop 4 (filter_request cmd flags par info))"
    using addattr_l_msg(2) [OF filter_request_msg, of "bytes_of_string ''u32'' @ [0]" FILTER_REQ_SIZE cmd flags par info TCA_KIND] l
    by (auto simp: filter_request_fields FILTER_REQ_SIZE_def align4_def)
  have "attr_ok (TCA_KIND, bytes_of_string ''u32'' @ [0], p)" using n1(2) by (simp add: nl_msg_def)
  then have "p = []" using l by (simp add: align4_def)
  then show ?thesis using n1 by blast
qed

section \<open>The words\<close>

lemma get_filter_kind_keeps:
  "get_filter_kind lk lib k st = (q, st1) \<Longrightarrow> tc_rth st1 = tc_rth st \<and> tc_links st1 = tc_links st"
  by (auto simp: get_filter_kind_def Let_def split: option.splits prod.splits)

definition filter_command :: "string \<Rightarrow> string \<Rightarrow> string \<Rightarrow> string \<Rightarrow> string \<Rightarrow> string list \<Rightarrow> string list" where
  "filter_command dev par proto pref kind opts =
     [''dev'', dev, ''parent'', par, ''protocol'', proto, ''pref'', pref, kind] @ opts"

lemma filter_words_command:
  assumes "get_tc_classid par = Some p" "ll_proto_a2n proto = Some pr" "get_u32 pref 0 = Some pv" "pv \<le> 0xFFFF"
    and "get_filter_kind (e_linker env) (e_tc_lib env) ''u32'' st = (u, st1)"
  shows "filter_words env (filter_command dev par proto pref ''u32'' opts) (filter_start cmd flags) st =
    Some (Ret (Inr (opts, (filter_start cmd flags)\<lparr>fa_dev := take 15 dev, fa_parent := p, fa_protocol := ucast pr, fa_protocol_set := True,
      fa_prio := pv, fa_kind := ''u32'', fa_util := Some u\<rparr>), st1))"
  using assms by (simp add: filter_command_def filter_words.simps(2) filter_start_def matches_0_iff leD)

lemma make_info: "pv \<le> 0xFFFF \<Longrightarrow> TC_H_MAKE (push_bit 16 pv) (ucast (pr :: u16)) = push_bit 16 pv OR ucast pr"
proof -
  have m: "(0xFFFF0000 :: u32) = NOT (mask 16)" "(0x0000FFFF :: u32) = mask 16" by (simp_all add: mask_eq_exp_minus_1)
  show ?thesis unfolding TC_H_MAKE_def m by (rule bit_word_eqI) (auto simp: bit_simps dest: bit_imp_le_length)
qed

text \<open>Up to the point where the request is sent; \<open>r\<close> is what the module makes of its options.\<close>

lemma modify_u32:
  assumes "dev \<noteq> []" "initialized (tc_links st)"
    and "fst (ll_name_to_index (e_nametoindex env) (Some (take 15 dev)) (tc_links st)) = i" "i \<noteq> 0"
    and "fst (get_filter_kind (e_linker env) (e_tc_lib env) ''u32'' st) = u32_filter_util uenv sh"
    and "get_tc_classid par = Some p" "ll_proto_a2n proto = Some pr" "get_u32 pref 0 = Some pv" "pv \<le> 0xFFFF"
    and "addattr_l (filter_request cmd flags p (push_bit 16 pv OR ucast pr)) FILTER_REQ_SIZE TCA_KIND (bytes_of_string ''u32'' @ [0]) = (0, n1)"
    and "u32_parse_fopt uenv None opts n1 = Some (Ret (rc, n2))"
  shows "\<exists>st3. tc_rth st3 = tc_rth st \<and>
    tc_filter_modify env cmd flags (filter_command dev par proto pref ''u32'' opts) st =
      (if rc \<noteq> 0 then (TcReturn 1, [], st3) else send_request env (poke 20 (le_bytes 4 i) n2) st3)"
proof -
  obtain st1 where st1: "get_filter_kind (e_linker env) (e_tc_lib env) ''u32'' st = (u32_filter_util uenv sh, st1)"
    using assms(5) by (cases "get_filter_kind (e_linker env) (e_tc_lib env) ''u32'' st") simp
  have keep: "tc_rth st1 = tc_rth st" "tc_links st1 = tc_links st" using get_filter_kind_keeps [OF st1] by simp_all
  obtain m where m: "ll_name_to_index (e_nametoindex env) (Some (take 15 dev)) (tc_links st) = (i, m)"
    using assms(3) by (metis prod.collapse)
  have links: "load_links env st1 = (None, [], st1)" using assms(2) keep by (simp add: load_links_def ll_init_map_def)
  have "tc_filter_modify env cmd flags (filter_command dev par proto pref ''u32'' opts) st =
      (if rc \<noteq> 0 then (TcReturn 1, [], st1) else send_request env (poke 20 (le_bytes 4 i) n2) (st1\<lparr>tc_links := m\<rparr>))"
    unfolding tc_filter_modify_def filter_words_command [OF assms(6-9) st1]
    using assms(1,4,10,11) m keep links
    by (simp add: filter_start_def parse_filter_module_def
        u32_filter_util_def make_info [OF assms(9)] find_device_def Let_def split: prod.split)
  then show ?thesis using keep(1) by (intro exI [of _ "if rc \<noteq> 0 then st1 else st1\<lparr>tc_links := m\<rparr>"]) simp
qed

lemma do_filter_verbs:
  "do_filter env (''add'' # r) st = tc_filter_modify env RTM_NEWTFILTER (NLM_F_EXCL OR NLM_F_CREATE) r st"
  "do_filter env (''change'' # r) st = tc_filter_modify env RTM_NEWTFILTER 0 r st"
  "do_filter env (''replace'' # r) st = tc_filter_modify env RTM_NEWTFILTER NLM_F_CREATE r st"
  by (simp_all add: do_filter_def matches_0_iff)

section \<open>What the kernel reads\<close>

lemma classify_read:
  assumes "RTA_PAYLOAD opt = int (length (encs (classify_attrs c sel)))" "RTA_DATA opt = encs (classify_attrs c sel) @ rest"
    and "list_all key_plain (us_keys sel)" "length (us_keys sel) \<le> 128"
  shows "\<exists>cl a. parse_rtattr_nested TCA_U32_MAX opt ! unat TCA_U32_CLASSID = Some cl \<and> rta_getattr_u32 cl = c \<and>
    parse_rtattr_nested TCA_U32_MAX opt ! unat TCA_U32_SEL = Some a \<and> read_sel (RTA_DATA a) = sel\<lparr>us_flags := TC_U32_TERMINAL\<rparr>"
proof -
  let ?X = "classify_attrs c sel" and ?sel = "sel\<lparr>us_flags := TC_U32_TERMINAL\<rparr>"
  have u: "unat TCA_U32_CLASSID = 1" "unat TCA_U32_SEL = 5" by (simp_all add: TCA_U32_CLASSID_def TCA_U32_SEL_def)
  have "(4 + length (sel_bytes ?sel)) mod 4 = 0" by (simp add: length_sel_bytes)
  then have ok: "list_all attr_ok ?X" using assms(4) by (simp add: classify_attrs_def align4_self length_sel_bytes)
  have "first_attr 1 ?X = Some (le_bytes 4 c)" "first_attr 5 ?X = Some (sel_bytes ?sel)" by (simp_all add: first_attr_def u classify_attrs_def)
  then obtain cl r a r' where e: "parse_rtattr_nested TCA_U32_MAX opt ! 1 = Some cl" "RTA_DATA cl = le_bytes 4 c @ r"
    "parse_rtattr_nested TCA_U32_MAX opt ! 5 = Some a" "RTA_DATA a = sel_bytes ?sel @ r'"
    using parse_rtattr_entry [OF ok, of 1 TCA_U32_MAX rest] parse_rtattr_entry [OF ok, of 5 TCA_U32_MAX rest] assms(1,2)
    by (auto simp: parse_rtattr_nested_def TCA_U32_MAX_def simp del: encs_simps)
  have "read_sel (RTA_DATA a) = ?sel" unfolding e(4) by (rule read_sel_bytes) (use assms(3,4) in simp_all)
  moreover have "rta_getattr_u32 cl = c" using e(2) by (simp add: rta_getattr_u32_def peek32_def)
  ultimately show ?thesis using e u by auto
qed

lemma filter_message_read:
  assumes msg: "nl_msg 36 [(TCA_KIND, bytes_of_string ''u32'' @ [0], []), (TCA_OPTIONS, encs (classify_attrs c sel), [])] msg"
    and sel: "list_all key_plain (us_keys sel)" "length (us_keys sel) \<le> 128"
  defines "tb \<equiv> fst (parse_rtattr TCA_MAX (drop 36 msg) (uint (nlmsg_len msg) - 36))"
  shows "\<exists>kind opt cl a. tb ! unat TCA_KIND = Some kind \<and> rta_getattr_str kind = ''u32'' \<and> tb ! unat TCA_OPTIONS = Some opt \<and>
    parse_rtattr_nested TCA_U32_MAX opt ! unat TCA_U32_CLASSID = Some cl \<and> rta_getattr_u32 cl = c \<and>
    parse_rtattr_nested TCA_U32_MAX opt ! unat TCA_U32_SEL = Some a \<and> read_sel (RTA_DATA a) = sel\<lparr>us_flags := TC_U32_TERMINAL\<rparr>"
proof -
  have k: "unat TCA_KIND = 1" "unat TCA_OPTIONS = 2" by (simp_all add: TCA_KIND_def TCA_OPTIONS_def)
  have tb: "tb = fst (parse_rtattr TCA_MAX (drop 36 msg) (uint (nlmsg_len msg) - int 36))" by (simp add: tb_def)
  obtain kind r1 where kind: "tb ! 1 = Some kind" "RTA_DATA kind = (bytes_of_string ''u32'' @ [0]) @ r1"
    using msg_attr [OF msg, of 1 TCA_MAX] k unfolding tb by (auto simp: TCA_MAX_def first_attr_def)
  obtain opt r2 where opt: "tb ! 2 = Some opt" "RTA_PAYLOAD opt = int (length (encs (classify_attrs c sel)))"
    "RTA_DATA opt = encs (classify_attrs c sel) @ r2"
    using msg_attr [OF msg, of 2 TCA_MAX] k unfolding tb by (auto simp: TCA_MAX_def first_attr_def)
  have "rta_getattr_str kind = ''u32''" using char_roundtrip [of "''u32''" r1] kind(2) by (simp add: rta_getattr_str_def)
  then show ?thesis using classify_read [OF opt(2,3) sel] kind(1) opt(1) k by auto
qed

text \<open>
  C38: \<^verbatim>\<open>tc filter add dev DEV parent CLASS protocol PROTO pref N u32 TESTS flowid CLASS\<close>, and the same with \<^verbatim>\<open>change\<close> or
  \<^verbatim>\<open>replace\<close>, for a device that is known to a process whose map of the links is filled. The tests are raw ones,
  \<^verbatim>\<open>match u8 KEY MASK at OFFSET\<close> and the same with \<^verbatim>\<open>u16\<close> and \<^verbatim>\<open>u32\<close>, at most 128 of them, at offsets that are multiples of their width; a halfword at an
  odd offset, which the code packs to another place, is not among them. When some packet passes all tests, exactly one message goes to the
  kernel. It names the device, the parent, the priority and the protocol of the command line and the kind
  \<^verbatim>\<open>u32\<close>, and in its options the kernel finds the class and a final selector that accepts exactly the packets
  that pass all tests. The command returns 0 when the kernel acknowledges without error and 2 otherwise.
  When no packet can pass all tests, the command returns 1 and nothing is sent.
\<close>

theorem tc_installs_u32_filter:
  assumes "(verb, flags) \<in> {(''add'', NLM_F_EXCL OR NLM_F_CREATE), (''change'', 0), (''replace'', NLM_F_CREATE)}"
    and "dev \<noteq> []" "initialized (tc_links st)"
    and "fst (ll_name_to_index (e_nametoindex env) (Some (take 15 dev)) (tc_links st)) = i" "i \<noteq> 0"
    and "fst (get_filter_kind (e_linker env) (e_tc_lib env) ''u32'' st) = u32_filter_util uenv sh"
    and "get_tc_classid par = Some p" "ll_proto_a2n proto = Some pr" "get_u32 pref 0 = Some pv" "pv \<le> 0xFFFF"
    and "ts \<noteq> []" "list_all test_ok ts" "length ts \<le> 128" "get_tc_classid ct = Some c"
    and "0 \<le> e_sent env" "e_answer env = RecvMsg 0 True trunc (concat ms @ reply @ tail) # evs"
    and "list_all (\<lambda>m. wf_nlmsg m \<and> nlmsg_seq m \<noteq> rth_seq (tc_rth st) + 1) ms"
    and "wf_nlmsg reply" "36 \<le> length reply" "nlmsg_type reply = NLMSG_ERROR"
    and "nlmsg_pid reply = rth_local_pid (tc_rth st)" "nlmsg_seq reply = rth_seq (tc_rth st) + 1"
  shows "\<exists>st'. if \<exists>pkt. list_all (passes pkt) ts
    then \<exists>msg kind opt cl a.
      do_filter env (verb # filter_command dev par proto pref ''u32'' (concat (map test_words ts) @ [''flowid'', ct])) st =
        (TcReturn (if nlmsgerr_error reply = 0 then 0 else 2), [msg], st') \<and>
      length msg = unat (nlmsg_len msg) \<and> nlmsg_type msg = RTM_NEWTFILTER \<and>
      nlmsg_flags msg = NLM_F_REQUEST OR flags OR NLM_F_ACK \<and> nlmsg_seq msg = rth_seq (tc_rth st) + 1 \<and>
      tcm_ifindex msg = i \<and> tcm_handle msg = 0 \<and> tcm_parent msg = p \<and> tcm_info msg = push_bit 16 pv OR ucast pr \<and>
      fst (parse_rtattr TCA_MAX (drop 36 msg) (uint (nlmsg_len msg) - 36)) ! unat TCA_KIND = Some kind \<and>
      rta_getattr_str kind = ''u32'' \<and>
      fst (parse_rtattr TCA_MAX (drop 36 msg) (uint (nlmsg_len msg) - 36)) ! unat TCA_OPTIONS = Some opt \<and>
      parse_rtattr_nested TCA_U32_MAX opt ! unat TCA_U32_CLASSID = Some cl \<and> rta_getattr_u32 cl = c \<and>
      parse_rtattr_nested TCA_U32_MAX opt ! unat TCA_U32_SEL = Some a \<and>
      us_flags (read_sel (RTA_DATA a)) = TC_U32_TERMINAL \<and>
      (\<forall>pkt nh. sel_accepts pkt nh (read_sel (RTA_DATA a)) \<longleftrightarrow> list_all (passes pkt) ts)
    else do_filter env (verb # filter_command dev par proto pref ''u32'' (concat (map test_words ts) @ [''flowid'', ct])) st =
      (TcReturn 1, [], st')"
proof -
  let ?opts = "concat (map test_words ts) @ [''flowid'', ct]"
  let ?argv = "filter_command dev par proto pref ''u32'' ?opts"
  let ?req = "filter_request RTM_NEWTFILTER flags p (push_bit 16 pv OR ucast pr)"
  let ?K = "(TCA_KIND, bytes_of_string ''u32'' @ [0], [])"
  have verb: "do_filter env (verb # ?argv) st = tc_filter_modify env RTM_NEWTFILTER flags ?argv st"
    using assms(1) do_filter_verbs by auto
  obtain n1 where n1: "addattr_l ?req FILTER_REQ_SIZE TCA_KIND (bytes_of_string ''u32'' @ [0]) = (0, n1)"
    "nl_msg 36 [?K] n1" "length n1 = 16420" "take 32 (drop 4 n1) = take 32 (drop 4 ?req)" using filter_kind_attr by blast
  note modify = modify_u32 [OF assms(2-10) n1(1)]
  show ?thesis
  proof (cases "pack_tests ts empty_sel")
    case None
    have "\<not> list_all (passes pkt) ts" for pkt
      using pack_tests_none [OF None assms(12) empty_sel_ok(1,2), of pkt] assms(13) empty_sel_ok(3) by (auto simp: empty_sel_def)
    then show ?thesis using modify [OF u32_refuses_classify [OF assms(11,12,14) None]] verb by auto
  next
    case (Some sel)
    have sem: "sel_wf sel \<and> list_all key_plain (us_keys sel) \<and> (sel_accepts pkt nh sel \<longleftrightarrow> list_all (passes pkt) ts)" for pkt nh
      using pack_tests_some [OF Some assms(12) empty_sel_ok(1,2), of pkt nh] empty_sel_ok(3) by simp
    then have wf: "sel_wf sel" "list_all key_plain (us_keys sel)" "length (us_keys sel) \<le> 128" by (auto simp: sel_wf_def)
    have sat: "\<exists>pkt. list_all (passes pkt) ts" using sel_satisfiable [OF wf(1,2)] sem by blast
    let ?O = "(TCA_OPTIONS, encs (classify_attrs c sel), [])"
    have "36 + length (encs [?K]) + 2100 \<le> 16384" by (simp add: bytes_of_string_def)
    from u32_parse_classify [OF assms(11,12,14) n1(2) _ this Some wf(3), of uenv] n1(3)
    obtain n2 where n2: "u32_parse_fopt uenv None ?opts n1 = Some (Ret (0, n2))" "nl_msg 36 ([?K] @ [?O]) n2"
      "take 32 (drop 4 n2) = take 32 (drop 4 n1)" by auto
    obtain st3 where st3: "tc_rth st3 = tc_rth st"
      "tc_filter_modify env RTM_NEWTFILTER flags ?argv st = send_request env (poke 20 (le_bytes 4 i) n2) st3"
      using modify [OF n2(1)] by auto
    let ?n' = "poke 20 (le_bytes 4 i) n2"
    let ?msg = "take (unat (nlmsg_len ?n')) (talk_request (tc_rth st) ?n' False)"
    obtain st' where run: "do_filter env (verb # ?argv) st = (TcReturn (if nlmsgerr_error reply = 0 then 0 else 2), [?msg], st')"
      using send_request_ack [OF assms(15,16), of st3 ?n'] assms(17-22) st3 verb by auto
    note sent = sent_message [OF n2(2), where rth = "tc_rth st" and i = i, unfolded Let_def]
    have f: "nlmsg_type n2 = RTM_NEWTFILTER" "nlmsg_flags n2 = NLM_F_REQUEST OR flags" "tcm_handle n2 = 0" "tcm_parent n2 = p"
      "tcm_info n2 = push_bit 16 pv OR ucast pr"
      using peek_same_part [OF n2(3) [unfolded n1(4)]] filter_request_fields [of RTM_NEWTFILTER flags p "push_bit 16 pv OR ucast pr"]
      by (simp_all add: nlmsg_type_def nlmsg_flags_def tcm_handle_def tcm_parent_def tcm_info_def)
    obtain kind opt cl a where r: "fst (parse_rtattr TCA_MAX (drop 36 ?msg) (uint (nlmsg_len ?msg) - 36)) ! unat TCA_KIND = Some kind"
      "rta_getattr_str kind = ''u32''"
      "fst (parse_rtattr TCA_MAX (drop 36 ?msg) (uint (nlmsg_len ?msg) - 36)) ! unat TCA_OPTIONS = Some opt"
      "parse_rtattr_nested TCA_U32_MAX opt ! unat TCA_U32_CLASSID = Some cl" "rta_getattr_u32 cl = c"
      "parse_rtattr_nested TCA_U32_MAX opt ! unat TCA_U32_SEL = Some a" and a: "read_sel (RTA_DATA a) = sel\<lparr>us_flags := TC_U32_TERMINAL\<rparr>"
      using filter_message_read [OF _ wf(2,3), of c ?msg] sent(1) by auto
    have "sel_accepts pkt nh (read_sel (RTA_DATA a)) \<longleftrightarrow> list_all (passes pkt) ts" for pkt nh
      using sem by (simp add: a sel_accepts_def)
    moreover have "us_flags (read_sel (RTA_DATA a)) = TC_U32_TERMINAL" by (simp add: a)
    ultimately show ?thesis using sat run sent(2-9) [unfolded f or.assoc] r by (auto simp del: Let_def)
  qed
qed

definition demo_show :: u32_show where
  "demo_show = \<lparr>ush_pretty = False, ush_raw = False, ush_stats = False, ush_proto = 0, ush_ntop = (\<lambda>_ _ _. None),
     ush_police = (\<lambda>_. []), ush_action = (\<lambda>_. [])\<rparr>"

definition filter_env :: tc_env where
  "filter_env = demo_env\<lparr>e_linker := (e_linker demo_env)\<lparr>dlsym_filter :=
     (\<lambda>h name. if name = ''u32_filter_util'' then Some (u32_filter_util no_env demo_show) else None)\<rparr>\<rparr>"

theorem tc_installs_u32_filter_witness:
  "\<exists>msg st' opt cl a. do_filter filter_env (''add'' # filter_command ''eth0'' (print_tc_classid 20 0x10000) ''ip'' (fmt_u (10 :: u32)) ''u32''
      (concat (map test_words ex_tests) @ [''flowid'', print_tc_classid 20 0x10001])) demo_tc = (TcReturn 0, [msg], st') \<and>
     tcm_ifindex msg = 2 \<and> tcm_parent msg = 0x10000 \<and> tcm_info msg = 0xA0008 \<and>
     fst (parse_rtattr TCA_MAX (drop 36 msg) (uint (nlmsg_len msg) - 36)) ! unat TCA_OPTIONS = Some opt \<and>
     parse_rtattr_nested TCA_U32_MAX opt ! unat TCA_U32_CLASSID = Some cl \<and> rta_getattr_u32 cl = 0x10001 \<and>
     parse_rtattr_nested TCA_U32_MAX opt ! unat TCA_U32_SEL = Some a \<and>
     (\<forall>pkt nh. sel_accepts pkt nh (read_sel (RTA_DATA a)) \<longleftrightarrow> pkt 9 = 6 \<and> pkt 22 = 0 \<and> pkt 23 = 80)"
proof -
  have idx: "fst (ll_name_to_index (e_nametoindex filter_env) (Some (take 15 ''eth0'')) (tc_links demo_tc)) = 2"
    by (simp add: ll_name_to_index_def demo_tc_def demo_env_def filter_env_def empty_map_def del: replicate.simps)
  have m: "fst (get_filter_kind (e_linker filter_env) (e_tc_lib filter_env) ''u32'' demo_tc) = u32_filter_util no_env demo_show"
    by (simp add: get_filter_kind_def demo_tc_def demo_env_def filter_env_def snprintf_def Let_def)
  have pr: "ll_proto_a2n ''ip'' = Some 8" by code_simp
  have ack: "wf_nlmsg demo_ack" "nlmsg_type demo_ack = NLMSG_ERROR" "nlmsg_pid demo_ack = rth_local_pid (tc_rth demo_tc)"
    "nlmsg_seq demo_ack = rth_seq (tc_rth demo_tc) + 1" "36 \<le> length demo_ack"
    by (simp_all add: demo_ack_def wf_nlmsg_def header_fields NLMSG_ERROR_def demo_tc_def demo_handle_def)
  have ok: "nlmsgerr_error demo_ack = 0" by (simp add: demo_ack_def nlmsgerr_error_def peek32_def make_nlmsghdr_def)
  have ans: "e_answer filter_env = RecvMsg 0 True False (concat [] @ demo_ack @ []) # []" "0 \<le> e_sent filter_env"
    by (simp_all add: demo_env_def filter_env_def)
  have ts: "ex_tests \<noteq> []" "list_all test_ok ex_tests" "length ex_tests \<le> 128"
    by (simp_all add: ex_tests_def test_ok_def INT_MIN_def INT_MAX_def)
  define pk :: "int \<Rightarrow> u8" where "pk i = (if i = 9 then 6 else if i = 23 then 80 else 0)" for i
  have "pk 9 = 6 \<and> pk 22 = 0 \<and> pk 23 = 80" by (simp add: pk_def)
  then have ex: "\<exists>pkt :: int \<Rightarrow> u8. pkt 9 = 6 \<and> pkt 22 = 0 \<and> pkt 23 = 80" by blast
  have init: "initialized (tc_links demo_tc)" by (simp add: demo_tc_def)
  have c1: "get_tc_classid (print_tc_classid 20 0x10000) = Some 0x10000" by (rule classid_text) simp
  have c2: "get_tc_classid (print_tc_classid 20 0x10001) = Some 0x10001" by (rule classid_text) simp
  have t10: "get_u32 (fmt_u (10 :: u32)) 0 = Some 10" by (rule get_u32_text)
  have small: "(10 :: u32) \<le> 0xFFFF" by simp
  from tc_installs_u32_filter [OF _ _ _ idx _ m c1 pr t10 small ts
      c2 ans(2,1) _ ack(1,5,2,3,4), where verb = "''add''" and flags = "NLM_F_EXCL OR NLM_F_CREATE"]
  show ?thesis by (simp add: init ok ex ex_tests_pass) blast
qed

section \<open>A listing read back\<close>

text \<open>The words of a line between \<^verbatim>\<open>filter\<close> and the kind, for a listing without restrictions.\<close>

definition listed_words :: "ll_map \<Rightarrow> u8 list \<Rightarrow> string list" where
  "listed_words links n =
     [''dev'', ll_index_to_name links (tcm_ifindex n)] @
     (if tcm_parent n = TC_H_ROOT then [''root''] else [''parent'', print_tc_classid 256 (tcm_parent n)]) @
     [''protocol'', ll_proto_n2a (ucast (TC_H_MIN (tcm_info n))) SPRINT_BSIZE] @
     (if drop_bit 16 (tcm_info n) \<noteq> 0 then [''pref'', fmt_u (drop_bit 16 (tcm_info n))] else [])"

definition no_keyword :: "string \<Rightarrow> bool" where
  "no_keyword w \<longleftrightarrow> w \<notin> {''dev'', ''root'', ''parent'', ''handle''} \<and>
     list_all (\<lambda>k. matches w k \<noteq> 0) [''preference'', ''priority'', ''protocol'', ''estimator'', ''help'']"

lemma filter_words_kind:
  assumes "no_keyword kind"
  shows "filter_words env (kind # opts) a st =
    (let (q, st1) = get_filter_kind (e_linker env) (e_tc_lib env) (take 15 kind) st
     in Some (Ret (Inr (opts, a\<lparr>fa_kind := take 15 kind, fa_util := Some q\<rparr>), st1)))"
  using assms by (simp add: filter_words.simps(2) no_keyword_def)

lemma filter_words_listed:
  "fa_dev a = [] \<Longrightarrow> filter_words env (''dev'' # d # r) a st = filter_words env r (a\<lparr>fa_dev := take 15 d\<rparr>) st"
  "fa_parent a = 0 \<Longrightarrow> filter_words env (''root'' # r) a st = filter_words env r (a\<lparr>fa_parent := TC_H_ROOT\<rparr>) st"
  "fa_parent a = 0 \<Longrightarrow> get_tc_classid v = Some h \<Longrightarrow>
     filter_words env (''parent'' # v # r) a st = filter_words env r (a\<lparr>fa_parent := h\<rparr>) st"
  "\<not> fa_protocol_set a \<Longrightarrow> filter_words env (''protocol'' # v # r) a st =
     (case ll_proto_a2n v of
        None \<Rightarrow> Some (invarg ''invalid protocol'' v)
      | Some i \<Rightarrow> filter_words env r (a\<lparr>fa_protocol := ucast i, fa_protocol_set := True\<rparr>) st)"
  "fa_prio a = 0 \<Longrightarrow> pv \<le> 0xFFFF \<Longrightarrow>
     filter_words env (''pref'' # fmt_u (pv :: u32) # r) a st = filter_words env r (a\<lparr>fa_prio := pv\<rparr>) st"
  by (simp_all add: filter_words.simps(2) matches_0_iff get_u32_text leD)

lemma filter_start_fields:
  "fa_dev (filter_start cmd flags) = []" "fa_parent (filter_start cmd flags) = 0" "\<not> fa_protocol_set (filter_start cmd flags)"
  "fa_prio (filter_start cmd flags) = 0"
  by (simp_all add: filter_start_def)

lemma info_halves: "TC_H_MAKE (push_bit 16 (drop_bit 16 i)) (ucast (ucast (TC_H_MIN i) :: u16)) = i"
proof -
  have m: "(0xFFFF0000 :: u32) = NOT (mask 16)" "(0x0000FFFF :: u32) = mask 16" by (simp_all add: mask_eq_exp_minus_1)
  show ?thesis unfolding TC_H_MAKE_def TC_H_MIN_def m by (rule bit_word_eqI) (auto simp: bit_simps dest: bit_imp_le_length)
qed

text \<open>
  C24: What \<^verbatim>\<open>tc filter show\<close> prints of where a filter stands can be entered again: the words between
  \<^verbatim>\<open>filter\<close> and the kind, behind any verb, make the same device, parent, priority and protocol, for filters
  at a class and at the root, whenever the filter is for a protocol that has a name. The line of a filter
  for any other protocol is refused.
\<close>

theorem filter_line_reads_back:
  assumes "nlmsg_type n = RTM_NEWTFILTER" "ucast (TC_H_MIN (tcm_info n)) \<noteq> (0 :: u16)" "no_keyword kind"
    and "tfilter_ifindex st = 0" "filter_parent st = 0" "filter_protocol st = 0" "filter_prio st = 0"
  defines "ws \<equiv> listed_words (tc_links st) n"
  shows "filter_head st n kind = ''filter '' @ concat (map (\<lambda>w. w @ '' '') (ws @ [kind])) \<and>
    (if \<exists>e\<in>set llproto_names. fst e = ntohs (ucast (TC_H_MIN (tcm_info n)))
     then \<exists>a st1. filter_words env (ws @ kind # opts) (filter_start cmd flags) st2 = Some (Ret (Inr (opts, a), st1)) \<and>
       fa_dev a = take 15 (ll_index_to_name (tc_links st) (tcm_ifindex n)) \<and> fa_kind a = take 15 kind \<and> fa_parent a = tcm_parent n \<and>
       TC_H_MAKE (push_bit 16 (fa_prio a)) (fa_protocol a) = tcm_info n
     else filter_words env (ws @ kind # opts) (filter_start cmd flags) st2 = Some (Exit (-1)))"
proof -
  let ?i = "tcm_info n"
  let ?pr = "ucast (TC_H_MIN ?i) :: u16"
  have nz: "?i \<noteq> 0" using assms(2) by (auto simp: TC_H_MIN_def)
  have head: "filter_head st n kind = ''filter '' @ concat (map (\<lambda>w. w @ '' '') (ws @ [kind]))"
    using assms(1,2,4-7) nz by (simp add: filter_head_def ws_def listed_words_def drop_MAJ Let_def RTM_NEWTFILTER_def RTM_DELTFILTER_def)
  have pv: "drop_bit 16 ?i \<le> 0xFFFF" using half_small(1) [of ?i] by (simp add: word_le_nat_alt word_less_nat_alt)
  have cls: "get_tc_classid (print_tc_classid 256 (tcm_parent n)) = Some (tcm_parent n)" by (rule classid_text) simp
  have par: "filter_words env (ws @ kind # opts) (filter_start cmd flags) st2 =
    (case ll_proto_a2n (ll_proto_n2a ?pr SPRINT_BSIZE) of
       None \<Rightarrow> Some (invarg ''invalid protocol'' (ll_proto_n2a ?pr SPRINT_BSIZE))
     | Some i \<Rightarrow> filter_words env ((if drop_bit 16 ?i \<noteq> 0 then [''pref'', fmt_u (drop_bit 16 ?i)] else []) @ kind # opts)
        ((filter_start cmd flags)\<lparr>fa_dev := take 15 (ll_index_to_name (tc_links st) (tcm_ifindex n)), fa_parent := tcm_parent n,
          fa_protocol := ucast i, fa_protocol_set := True\<rparr>) st2)"
    using cls by (simp add: ws_def listed_words_def filter_words_listed filter_start_fields split: option.split)
  have sz: "10 \<le> SPRINT_BSIZE" by (simp add: SPRINT_BSIZE_def)
  note rb = proto_names_read_back [OF sz, of ?pr]
  show ?thesis
  proof (cases "\<exists>e\<in>set llproto_names. fst e = ntohs ?pr")
    case True
    then have "ll_proto_a2n (ll_proto_n2a ?pr SPRINT_BSIZE) = Some ?pr" using rb by (simp add: strcaseeq_def)
    then show ?thesis
      using True head par info_halves [of ?i] pv
      by (cases "drop_bit 16 ?i = 0")
        (auto simp: filter_words_listed filter_words_kind [OF assms(3)] filter_start_fields Let_def split: prod.splits)
  next
    case False
    then show ?thesis using rb head par by (simp add: invarg_def)
  qed
qed

definition ex_filter :: "u8 list" where
  "ex_filter = make_nlmsghdr 36 RTM_NEWTFILTER 0 0 0 @ tfilter_msg 2 0x10000 0xA0008"

theorem filter_line_reads_back_witness:
  "\<exists>a st1. filter_words demo_env (listed_words (tc_links demo_tc) ex_filter @ [''u32'']) (filter_start RTM_NEWTFILTER 0) demo_tc =
     Some (Ret (Inr ([], a), st1)) \<and> fa_parent a = 0x10000 \<and> TC_H_MAKE (push_bit 16 (fa_prio a)) (fa_protocol a) = 0xA0008"
proof -
  have f: "nlmsg_type ex_filter = RTM_NEWTFILTER" "tcm_info ex_filter = 0xA0008" "tcm_parent ex_filter = 0x10000"
    by (simp_all add: ex_filter_def make_nlmsghdr_def tfilter_msg_def nlmsg_type_def tcm_info_def tcm_parent_def peek32_def peek16_def)
  have k: "no_keyword ''u32''" by (simp add: no_keyword_def matches_0_iff)
  have h: "TC_H_MIN 0xA0008 = 8" by (simp add: TC_H_MIN_def)
  then have p: "ucast (TC_H_MIN (tcm_info ex_filter)) \<noteq> (0 :: u16)" by (simp add: f)
  have i: "ntohs 8 = 2048" "(2048, ''ip'') \<in> set llproto_names" by code_simp+
  from i(2) have "\<exists>e\<in>set llproto_names. fst e = ntohs (ucast (TC_H_MIN (tcm_info ex_filter)))" by (rule bexI [rotated]) (simp add: f h i(1))
  then show ?thesis
    using filter_line_reads_back [OF f(1) p k, of demo_tc demo_env "[]" RTM_NEWTFILTER 0 demo_tc] f by (auto simp: demo_tc_def)
qed

end
