(* ===== verification/Q_Htb.thy ===== *)
theory Q_Htb
  imports Q_Simple
begin

unbundle bit_operations_syntax

text \<open>
  The module of the htb discipline of the tc command (\<^verbatim>\<open>q_htb.c\<close>), under which the experiments install pFabric:
  the discipline, its classes with rates, bursts and rate tables, and the printers.
\<close>

definition TCA_HTB_PARMS :: u16 where "TCA_HTB_PARMS = 1"
definition TCA_HTB_INIT :: u16 where "TCA_HTB_INIT = 2"
definition TCA_HTB_CTAB :: u16 where "TCA_HTB_CTAB = 3"
definition TCA_HTB_RTAB :: u16 where "TCA_HTB_RTAB = 4"

section \<open>The discipline\<close>

record tc_htb_glob =
  hg_version :: u32
  hg_rate2quantum :: u32
  hg_defcls :: u32
  hg_debug :: u32
  hg_direct_pkts :: u32

definition htb_glob_bytes :: "tc_htb_glob \<Rightarrow> u8 list" where
  "htb_glob_bytes g = le_bytes 4 (hg_version g) @ le_bytes 4 (hg_rate2quantum g) @ le_bytes 4 (hg_defcls g) @
     le_bytes 4 (hg_debug g) @ le_bytes 4 (hg_direct_pkts g)"

definition read_htb_glob :: "u8 list \<Rightarrow> tc_htb_glob" where
  "read_htb_glob d = \<lparr>hg_version = peek32 0 d, hg_rate2quantum = peek32 4 d, hg_defcls = peek32 8 d, hg_debug = peek32 12 d,
     hg_direct_pkts = peek32 16 d\<rparr>"

definition htb_glob_start :: tc_htb_glob where
  "htb_glob_start = \<lparr>hg_version = 3, hg_rate2quantum = 10, hg_defcls = 0, hg_debug = 0, hg_direct_pkts = 0\<rparr>"

text \<open>The digits of \<^verbatim>\<open>debug\<close>, two bits each, up to sixteen and to the first that is not one of 0 to 3.\<close>

definition htb_debug :: "string \<Rightarrow> u32 \<Rightarrow> u32" where
  "htb_debug p debug =
     (let ds = takeWhile (\<lambda>c. CHR ''0'' = c \<or> CHR ''1'' = c \<or> CHR ''2'' = c \<or> CHR ''3'' = c) (take 16 p)
      in foldl (\<lambda>w (i, c). w OR push_bit (2 * i) (of_nat (of_char c - 48))) debug (zip [0..<length ds] ds))"

fun htb_args :: "string list \<Rightarrow> tc_htb_glob \<Rightarrow> tc_htb_glob option cexit" where
  "htb_args [] g = Ret (Some g)"
| "htb_args (a # r) g =
     (if matches a ''r2q'' = 0 then
        (case r of
           [] \<Rightarrow> incomplete_command
         | v # r' \<Rightarrow> (case get_u32 v 10 of None \<Rightarrow> Ret None | Some x \<Rightarrow> htb_args r' (g\<lparr>hg_rate2quantum := x\<rparr>)))
      else if matches a ''default'' = 0 then
        (case r of
           [] \<Rightarrow> incomplete_command
         | v # r' \<Rightarrow> (case get_u32 v 16 of None \<Rightarrow> Ret None | Some x \<Rightarrow> htb_args r' (g\<lparr>hg_defcls := x\<rparr>)))
      else if matches a ''debug'' = 0 then
        (case r of
           [] \<Rightarrow> incomplete_command
         | v # r' \<Rightarrow> htb_args r' (g\<lparr>hg_debug := htb_debug v (hg_debug g)\<rparr>))
      else Ret None)"

definition htb_parse_opt :: "string list \<Rightarrow> u8 list \<Rightarrow> (int \<times> u8 list) cexit option" where
  "htb_parse_opt argv n =
     (case htb_args argv htb_glob_start of
        Exit e \<Rightarrow> Some (Exit e)
      | Ret None \<Rightarrow> Some (Ret (-1, n))
      | Ret (Some g) \<Rightarrow>
          let n1 = snd (addattr_l n 1024 TCA_OPTIONS []); n2 = snd (addattr_l n1 2024 TCA_HTB_INIT (htb_glob_bytes g))
          in close_options n (Some (Ret (Some n2))))"

section \<open>Classes\<close>

record tc_htb_opt =
  ho_rate :: tc_ratespec
  ho_ceil :: tc_ratespec
  ho_buffer :: u32
  ho_cbuffer :: u32
  ho_quantum :: u32
  ho_level :: u32
  ho_prio :: u32

definition no_ratespec :: tc_ratespec where
  "no_ratespec = \<lparr>rs_cell_log = 0, rs_overhead = 0, rs_cell_align = 0, rs_mpu = 0, rs_rate = 0\<rparr>"

definition ratespec_bytes :: "tc_ratespec \<Rightarrow> u8 list" where
  "ratespec_bytes r = [rs_cell_log r, 0] @ le_bytes 2 (rs_overhead r) @ le_bytes 2 (of_int (rs_cell_align r) :: u16) @
     le_bytes 2 (rs_mpu r) @ le_bytes 4 (rs_rate r)"

definition read_ratespec :: "u8 list \<Rightarrow> tc_ratespec" where
  "read_ratespec d = \<lparr>rs_cell_log = d ! 0, rs_overhead = peek16 2 d, rs_cell_align = sint (peek16 4 d), rs_mpu = peek16 6 d,
     rs_rate = peek32 8 d\<rparr>"

definition htb_opt_bytes :: "tc_htb_opt \<Rightarrow> u8 list" where
  "htb_opt_bytes h = ratespec_bytes (ho_rate h) @ ratespec_bytes (ho_ceil h) @ le_bytes 4 (ho_buffer h) @ le_bytes 4 (ho_cbuffer h) @
     le_bytes 4 (ho_quantum h) @ le_bytes 4 (ho_level h) @ le_bytes 4 (ho_prio h)"

definition read_htb_opt :: "u8 list \<Rightarrow> tc_htb_opt" where
  "read_htb_opt d = \<lparr>ho_rate = read_ratespec d, ho_ceil = read_ratespec (drop 12 d), ho_buffer = peek32 24 d, ho_cbuffer = peek32 28 d,
     ho_quantum = peek32 32 d, ho_level = peek32 36 d, ho_prio = peek32 40 d\<rparr>"

text \<open>The local variables.\<close>

record htb_vars =
  hv_opt :: tc_htb_opt
  hv_buffer :: u32
  hv_cbuffer :: u32
  hv_cell_log :: int
  hv_ccell_log :: int
  hv_mtu :: u32
  hv_mpu :: u16
  hv_overhead :: u16
  hv_linklayer :: u32

definition htb_start :: htb_vars where
  "htb_start = \<lparr>hv_opt = \<lparr>ho_rate = no_ratespec, ho_ceil = no_ratespec, ho_buffer = 0, ho_cbuffer = 0, ho_quantum = 0, ho_level = 0, ho_prio = 0\<rparr>,
     hv_buffer = 0, hv_cbuffer = 0, hv_cell_log = -1, hv_ccell_log = -1, hv_mtu = 1600, hv_mpu = 0, hv_overhead = 0,
     hv_linklayer = LINKLAYER_ETHERNET\<rparr>"

text \<open>
  The loop: every option has one value. A word that is no option, \<^verbatim>\<open>help\<close> among them, ends the reading with -1 before its
  value is asked for.
\<close>

definition htb_class_word :: "string \<Rightarrow> bool" where
  "htb_class_word a \<longleftrightarrow>
     matches a ''prio'' = 0 \<or> matches a ''mtu'' = 0 \<or> matches a ''mpu'' = 0 \<or> matches a ''overhead'' = 0 \<or>
     matches a ''linklayer'' = 0 \<or> matches a ''quantum'' = 0 \<or> matches a ''burst'' = 0 \<or> a = ''buffer'' \<or> a = ''maxburst'' \<or>
     matches a ''cburst'' = 0 \<or> a = ''cbuffer'' \<or> a = ''cmaxburst'' \<or> a = ''ceil'' \<or> a = ''rate''"

definition opt_value :: "'a option \<Rightarrow> ('a \<Rightarrow> 'b) \<Rightarrow> 'b cparsed" where
  "opt_value x f = (case x of None \<Rightarrow> Rejected | Some y \<Rightarrow> Parsed (f y))"

definition parsed_value :: "'a cparsed \<Rightarrow> ('a \<Rightarrow> 'b) \<Rightarrow> 'b cparsed" where
  "parsed_value x f = (case x of Rejected \<Rightarrow> Rejected | Undefined \<Rightarrow> Undefined | Parsed y \<Rightarrow> Parsed (f y))"

definition cell_or :: "int \<Rightarrow> nat option \<Rightarrow> int" where
  "cell_or old c = (case c of None \<Rightarrow> old | Some i \<Rightarrow> int i)"

definition htb_class_value :: "string \<Rightarrow> string \<Rightarrow> htb_vars \<Rightarrow> htb_vars cparsed" where
  "htb_class_value a w v =
     (let o1 = hv_opt v
      in if matches a ''prio'' = 0 then opt_value (get_u32 w 10) (\<lambda>y. v\<lparr>hv_opt := o1\<lparr>ho_prio := y\<rparr>\<rparr>)
         else if matches a ''mtu'' = 0 then opt_value (get_u32 w 10) (\<lambda>y. v\<lparr>hv_mtu := y\<rparr>)
         else if matches a ''mpu'' = 0 then opt_value (get_u16 w 10) (\<lambda>y. v\<lparr>hv_mpu := y\<rparr>)
         else if matches a ''overhead'' = 0 then opt_value (get_u16 w 10) (\<lambda>y. v\<lparr>hv_overhead := y\<rparr>)
         else if matches a ''linklayer'' = 0 then opt_value (get_linklayer w) (\<lambda>y. v\<lparr>hv_linklayer := y\<rparr>)
         else if matches a ''quantum'' = 0 then opt_value (get_u32 w 10) (\<lambda>y. v\<lparr>hv_opt := o1\<lparr>ho_quantum := y\<rparr>\<rparr>)
         else if matches a ''burst'' = 0 \<or> a = ''buffer'' \<or> a = ''maxburst''
         then parsed_value (get_size_and_cell w) (\<lambda>(y, c). v\<lparr>hv_buffer := y, hv_cell_log := cell_or (hv_cell_log v) c\<rparr>)
         else if matches a ''cburst'' = 0 \<or> a = ''cbuffer'' \<or> a = ''cmaxburst''
         then parsed_value (get_size_and_cell w) (\<lambda>(y, c). v\<lparr>hv_cbuffer := y, hv_ccell_log := cell_or (hv_ccell_log v) c\<rparr>)
         else if a = ''ceil''
         then if rs_rate (ho_ceil o1) \<noteq> 0 then Rejected
              else parsed_value (get_rate w) (\<lambda>y. v\<lparr>hv_opt := o1\<lparr>ho_ceil := (ho_ceil o1)\<lparr>rs_rate := y\<rparr>\<rparr>\<rparr>)
         else if a = ''rate''
         then if rs_rate (ho_rate o1) \<noteq> 0 then Rejected
              else parsed_value (get_rate w) (\<lambda>y. v\<lparr>hv_opt := o1\<lparr>ho_rate := (ho_rate o1)\<lparr>rs_rate := y\<rparr>\<rparr>\<rparr>)
         else Rejected)"

fun htb_class_args :: "string list \<Rightarrow> htb_vars \<Rightarrow> htb_vars option cexit option" where
  "htb_class_args [] v = Some (Ret (Some v))"
| "htb_class_args (a # r) v =
     (if \<not> htb_class_word a then Some (Ret None)
      else case r of
             [] \<Rightarrow> Some incomplete_command
           | w # r' \<Rightarrow>
               (case htb_class_value a w v of
                  Undefined \<Rightarrow> None
                | Rejected \<Rightarrow> Some (Ret None)
                | Parsed v' \<Rightarrow> htb_class_args r' v'))"

text \<open>
  After the loop, with a rate: missing values are filled in and the tables computed. \<open>hz\<close> is the value of \<^verbatim>\<open>get_hz\<close>,
  unsigned in the division; the return value of \<^verbatim>\<open>tc_calc_rtable\<close> is not negative.
\<close>

definition htb_tables :: "tc_clock \<Rightarrow> int \<Rightarrow> htb_vars \<Rightarrow> (tc_htb_opt \<times> u32 list \<times> u32 list) option" where
  "htb_tables k hz v =
     (let rate0 = ho_rate (hv_opt v); ceil0 = (if rs_rate (ho_ceil (hv_opt v)) = 0 then rate0 else ho_ceil (hv_opt v));
          h = (of_int hz :: u32);
          buffer = (if hv_buffer v = 0 then rs_rate rate0 div h + hv_mtu v else hv_buffer v);
          cbuffer = (if hv_cbuffer v = 0 then rs_rate ceil0 div h + hv_mtu v else hv_cbuffer v);
          rate1 = rate0\<lparr>rs_overhead := hv_overhead v, rs_mpu := hv_mpu v\<rparr>;
          ceil1 = ceil0\<lparr>rs_overhead := hv_overhead v, rs_mpu := hv_mpu v\<rparr>
      in if h = 0 \<and> (hv_buffer v = 0 \<or> hv_cbuffer v = 0) then None
         else case (tc_calc_rtable k rate1 (hv_cell_log v) (hv_mtu v) (hv_linklayer v), tc_calc_xmittime k (rs_rate rate1) buffer,
                    tc_calc_rtable k ceil1 (hv_ccell_log v) (hv_mtu v) (hv_linklayer v), tc_calc_xmittime k (rs_rate ceil1) cbuffer) of
                (Some (_, rtab, rate2), Some b, Some (_, ctab, ceil2), Some cb) \<Rightarrow>
                  Some ((hv_opt v)\<lparr>ho_rate := rate2, ho_ceil := ceil2, ho_buffer := b, ho_cbuffer := cb\<rparr>, rtab, ctab)
              | _ \<Rightarrow> None)"

definition tab_bytes :: "u32 list \<Rightarrow> u8 list" where "tab_bytes t = concat (map (le_bytes 4) t)"

definition htb_parse_class_opt :: "tc_clock \<Rightarrow> int \<Rightarrow> string list \<Rightarrow> u8 list \<Rightarrow> (int \<times> u8 list) cexit option" where
  "htb_parse_class_opt k hz argv n =
     (case htb_class_args argv htb_start of
        None \<Rightarrow> None
      | Some (Exit e) \<Rightarrow> Some (Exit e)
      | Some (Ret None) \<Rightarrow> Some (Ret (-1, n))
      | Some (Ret (Some v)) \<Rightarrow>
          if rs_rate (ho_rate (hv_opt v)) = 0 then Some (Ret (-1, n))
          else case htb_tables k hz v of
                 None \<Rightarrow> None
               | Some (opt, rtab, ctab) \<Rightarrow>
                   let n1 = snd (addattr_l n 1024 TCA_OPTIONS []);
                       n2 = snd (addattr_l n1 2024 TCA_HTB_PARMS (htb_opt_bytes opt));
                       n3 = snd (addattr_l n2 3024 TCA_HTB_RTAB (tab_bytes rtab));
                       n4 = snd (addattr_l n3 4024 TCA_HTB_CTAB (tab_bytes ctab))
                   in close_options n (Some (Ret (Some n4))))"

section \<open>Printing\<close>

record htb_show =
  hs_clock :: tc_clock
  hs_iec :: bool
  hs_details :: bool
  hs_raw :: bool

text \<open>The details of one rate; mpu and overhead are taken from the two halves of \<^verbatim>\<open>mpu\<close>. A shift by 32 or more is undefined.\<close>

definition htb_burst :: "string \<Rightarrow> u32 \<Rightarrow> tc_ratespec \<Rightarrow> string option" where
  "htb_burst name buffer r =
     (if rs_cell_log r \<ge> 32 then None
      else Some (name @ '' '' @ sprint_size buffer @ ''/'' @ fmt_u (push_bit (unat (rs_cell_log r)) 1 :: u32) @
        '' mpu '' @ sprint_size (ucast (rs_mpu r) AND 0xFF) @ '' overhead '' @ sprint_size (drop_bit 8 (ucast (rs_mpu r)) AND 0xFF) @ '' ''))"

definition htb_class_text :: "htb_show \<Rightarrow> tc_htb_opt \<Rightarrow> string option" where
  "htb_class_text sh h =
     (case (tc_calc_xmitsize (hs_clock sh) (rs_rate (ho_rate h)) (ho_buffer h),
            tc_calc_xmitsize (hs_clock sh) (rs_rate (ho_ceil h)) (ho_cbuffer h)) of
        (Some buffer, Some cbuffer) \<Rightarrow>
          map_option (\<lambda>bursts.
            (if ho_level h = 0
             then ''prio '' @ fmt_d (sint (ho_prio h)) @ '' '' @
                  (if hs_details sh then ''quantum '' @ fmt_d (sint (ho_quantum h)) @ '' '' else [])
             else []) @
            ''rate '' @ sprint_rate (hs_iec sh) (rs_rate (ho_rate h)) @ '' '' @
            ''ceil '' @ sprint_rate (hs_iec sh) (rs_rate (ho_ceil h)) @ '' '' @ bursts @
            (if hs_raw sh then ''buffer ['' @ fmt_0x 8 (ho_buffer h) @ ''] cbuffer ['' @ fmt_0x 8 (ho_cbuffer h) @ ''] '' else []))
            (if hs_details sh
             then (case (htb_burst ''burst'' buffer (ho_rate h), htb_burst ''cburst'' cbuffer (ho_ceil h)) of
                     (Some b, Some c) \<Rightarrow> Some (b @ c @ ''level '' @ fmt_d (sint (ho_level h)) @ '' '')
                   | _ \<Rightarrow> None)
             else Some (''burst '' @ sprint_size buffer @ '' cburst '' @ sprint_size cbuffer @ '' ''))
      | _ \<Rightarrow> None)"

definition htb_glob_text :: "htb_show \<Rightarrow> tc_htb_glob \<Rightarrow> string" where
  "htb_glob_text sh g =
     ''r2q '' @ fmt_d (sint (hg_rate2quantum g)) @ '' default '' @ fmt_x (hg_defcls g) @
     '' direct_packets_stat '' @ fmt_u (hg_direct_pkts g) @
     (if hs_details sh then '' ver '' @ fmt_u (drop_bit 16 (hg_version g)) @ ''.'' @ fmt_u (hg_version g AND 0xFFFF) else [])"

definition htb_print_opt :: "htb_show \<Rightarrow> u8 list option \<Rightarrow> (int \<times> string) option" where
  "htb_print_opt sh opt =
     (case opt of
        None \<Rightarrow> Some (0, [])
      | Some rta \<Rightarrow>
          let tb = parse_rtattr_nested (unat TCA_HTB_RTAB) rta
          in case (case tb ! unat TCA_HTB_PARMS of
                     None \<Rightarrow> Some (Some [])
                   | Some a \<Rightarrow> if RTA_PAYLOAD a < 44 then Some None else map_option Some (htb_class_text sh (read_htb_opt (RTA_DATA a)))) of
               None \<Rightarrow> None
             | Some None \<Rightarrow> Some (-1, [])
             | Some (Some t) \<Rightarrow>
                 (case tb ! unat TCA_HTB_INIT of
                    None \<Rightarrow> Some (0, t)
                  | Some a \<Rightarrow> if RTA_PAYLOAD a < 20 then Some (-1, t) else Some (0, t @ htb_glob_text sh (read_htb_glob (RTA_DATA a)))))"

definition htb_print_xstats :: "u8 list \<Rightarrow> string" where
  "htb_print_xstats xstats =
     (if RTA_PAYLOAD xstats < 20 then []
      else let d = RTA_DATA xstats
           in '' lended: '' @ fmt_u (peek32 0 d) @ '' borrowed: '' @ fmt_u (peek32 4 d) @ '' giants: '' @ fmt_u (peek32 8 d) @ [newline] @
              '' tokens: '' @ fmt_d (sint (peek32 12 d)) @ '' ctokens: '' @ fmt_d (sint (peek32 16 d)) @ [newline])"

text \<open>The module as the registry holds it; the clock and the switches are global variables of the program.\<close>

definition htb_util :: "string \<Rightarrow> int \<Rightarrow> htb_show \<Rightarrow> qdisc_util" where
  "htb_util name hz sh = \<lparr>qu_id = name, qu_parse_qopt = Some htb_parse_opt, qu_print_qopt = htb_print_opt sh,
     qu_print_xstats = Some htb_print_xstats, qu_parse_copt = Some (htb_parse_class_opt (hs_clock sh) hz),
     qu_print_copt = Some (\<lambda>rta. htb_print_opt sh (Some rta))\<rparr>"

definition htb_qdisc_util :: "int \<Rightarrow> htb_show \<Rightarrow> qdisc_util" where "htb_qdisc_util = htb_util ''htb''"
definition htb2_qdisc_util :: "int \<Rightarrow> htb_show \<Rightarrow> qdisc_util" where "htb2_qdisc_util = htb_util ''htb2''"

end
