(* ===== verification/Htb_Props.thy ===== *)
theory Htb_Props
  imports Q_Htb Tc_Props
begin

unbundle bit_operations_syntax

text \<open>
  The classes of htb that the experiments set up: a rate in whole megabits reaches the kernel exactly, with complete
  rate tables.
\<close>

section \<open>Times on the wire\<close>

lemma round_even_le: "x \<le> of_int i \<Longrightarrow> round_even x \<le> i"
proof -
  assume x: "x \<le> of_int i"
  have "of_int \<lfloor>x\<rfloor> \<le> x" by simp
  then have "of_int \<lfloor>x\<rfloor> \<le> (of_int i :: rat)" using x by linarith
  then have f: "\<lfloor>x\<rfloor> \<le> i" by (simp only: of_int_le_iff)
  show ?thesis
  proof (cases "\<lfloor>x\<rfloor> = i")
    case True
    then have "x = of_int i" using x \<open>of_int \<lfloor>x\<rfloor> \<le> x\<close> by simp
    then show ?thesis by simp
  qed (use f in \<open>auto simp: round_even_def Let_def\<close>)
qed

lemma round_double_le:
  assumes "0 \<le> q" "q \<le> pow2 k" "0 \<le> k" "k \<le> 900"
  shows "\<exists>r. round_double q = Fin r \<and> 0 \<le> r \<and> r \<le> pow2 k"
proof (cases "q = 0 \<or> q = pow2 k")
  case True
  then show ?thesis
    using round_double_exact [of "pow2 k" 1 k] assms(3,4) less_imp_le [OF pow2_pos [of k]] by (auto simp: round_double_def)
next
  case False
  then have q: "0 < q" "q < pow2 k" using assms(1,2) by auto
  define e where "e = binary_exponent q"
  note e = binary_exponent_bounds [OF q(1), folded e_def]
  define u where "u = (if e < -1022 then -1074 else e - 52)"
  have ulp: "double_ulp q = pow2 u" using q(1) by (simp add: double_ulp_def e_def u_def)
  have ek: "e < k" using e q(2) pow2_less_iff by (meson le_less_trans)
  have uk: "u + 53 \<le> k" using ek assms(3) by (simp add: u_def)
  have "q \<le> pow2 (u + 53)"
  proof -
    have "e + 1 \<le> u + 53" by (simp add: u_def)
    then show ?thesis using e pow2_mono [of "e + 1" "u + 53"] by simp
  qed
  moreover have u53: "pow2 (u + 53) = of_int (2 ^ 53) * pow2 u"
  proof -
    have "pow2 53 = of_int (2 ^ 53)" by (simp add: pow2_def)
    then show ?thesis by (simp only: pow2_add mult.commute)
  qed
  ultimately have "q / pow2 u \<le> of_int (2 ^ 53)" using pow2_pos [of u] by (simp only: pos_divide_le_eq)
  then have hi: "round_even (q / pow2 u) \<le> 2 ^ 53" by (rule round_even_le)
  have "of_int 0 \<le> q / pow2 u" using divide_pos_pos [OF q(1) pow2_pos [of u]] by simp
  then have lo: "0 \<le> round_even (q / pow2 u)" by (rule round_even_ge)
  let ?r = "of_int (round_even (q / pow2 u)) * pow2 u"
  have "(of_int (round_even (q / pow2 u)) :: rat) \<le> of_int (2 ^ 53)" using hi by (simp only: of_int_le_iff)
  then have "?r \<le> of_int (2 ^ 53) * pow2 u" by (rule mult_right_mono) (simp add: less_imp_le)
  also have "\<dots> = pow2 (u + 53)" by (simp only: u53)
  also have "\<dots> \<le> pow2 k" by (rule pow2_mono [OF uk])
  finally have r: "?r \<le> pow2 k" .
  have r0: "0 \<le> ?r" using lo less_imp_le [OF pow2_pos [of u]] by simp
  have "pow2 k < pow2 1024" using assms(4) by (simp add: pow2_less_iff)
  then have "\<not> \<bar>?r\<bar> \<ge> pow2 1024" using r r0 by simp
  then show ?thesis using q(1) r r0 by (simp add: round_double_def ulp Let_def)
qed

lemma d_of_word32: "d_of_word (w :: u32) = Fin (of_nat (unat w))"
  by (simp add: d_of_word_u32 of_nat_unat)

lemma word_of_double_le:
  assumes "0 \<le> q" "q \<le> pow2 k" "0 \<le> k" "k < 32"
  shows "\<exists>w :: u32. word_of_double (Fin q) = Some w \<and> of_nat (unat w) \<le> q"
proof -
  have "pow2 k < pow2 32" using assms(4) by (simp add: pow2_less_iff)
  then have "q < 2 ^ 32" using assms(2) by (simp add: pow2_def)
  then have f: "\<lfloor>q\<rfloor> < 2 ^ 32" "0 \<le> \<lfloor>q\<rfloor>" using assms(1) by (simp_all add: floor_less_iff)
  have "unat (of_int \<lfloor>q\<rfloor> :: u32) = nat \<lfloor>q\<rfloor>" using f by (simp add: unsigned_of_int take_bit_int_eq_self)
  then have "of_nat (unat (of_int \<lfloor>q\<rfloor> :: u32)) \<le> q" using f(2) of_int_floor_le [of q] by (simp add: of_nat_nat)
  then show ?thesis using word_of_double_nat [of q, where 'a = 32] assms(1) f by auto
qed

text \<open>A scheduler tick of at least a nanosecond, and at most two seconds on the wire: nothing overflows.\<close>

definition clock_ok :: "tc_clock \<Rightarrow> bool" where
  "clock_ok k \<longleftrightarrow> (case tick_in_usec k of Fin t \<Rightarrow> 0 \<le> t \<and> t \<le> 1024 | _ \<Rightarrow> False)"

lemma xmittime_defined:
  assumes "clock_ok k" "rate \<noteq> 0" "unat sz \<le> 2 * unat rate"
  shows "\<exists>t. tc_calc_xmittime k rate sz = Some t"
proof -
  obtain t where t: "tick_in_usec k = Fin t" "0 \<le> t" "t \<le> 1024"
    using assms(1) by (auto simp: clock_ok_def split: cdouble.splits)
  have r: "0 < unat rate" using assms(2) by (simp add: unat_gt_0)
  let ?q = "(of_nat (unat sz) :: rat) / of_nat (unat rate)"
  have "(of_nat (unat sz) :: rat) \<le> of_nat (2 * unat rate)" using assms(3) by (simp only: of_nat_le_iff)
  moreover have r': "0 < (of_nat (unat rate) :: rat)" using r by (simp only: of_nat_0_less_iff)
  ultimately have "?q \<le> pow2 1" by (simp add: pos_divide_le_eq pow2_def)
  moreover have "0 \<le> ?q" by (rule divide_nonneg_nonneg) (rule of_nat_0_le_iff)+
  ultimately obtain a where a: "round_double ?q = Fin a" "0 \<le> a" "a \<le> pow2 1"
    using round_double_le [of ?q 1] zero_le_one by (metis le_numeral_extra(4) one_le_numeral)
  have "1000000 * a \<le> 1000000 * pow2 1" using a(3) by simp
  then have "1000000 * a \<le> pow2 21" by (simp add: pow2_def)
  then obtain b where b: "round_double (1000000 * a) = Fin b" "0 \<le> b" "b \<le> pow2 21" using round_double_le [of "1000000 * a" 21] a(2) by auto
  obtain w :: u32 where w: "word_of_double (Fin b) = Some w" "of_nat (unat w) \<le> b" using word_of_double_le [OF b(2,3)] by auto
  have "of_nat (unat w) * t \<le> pow2 21 * 1024" by (rule mult_mono) (use w(2) b(3) t(2,3) in \<open>simp_all add: less_imp_le\<close>)
  then have "of_nat (unat w) * t \<le> pow2 31" by (simp add: pow2_def)
  then obtain c where c: "round_double (of_nat (unat w) * t) = Fin c" "0 \<le> c" "c \<le> pow2 31"
    using round_double_le [of "of_nat (unat w) * t" 31] mult_nonneg_nonneg [OF of_nat_0_le_iff [of "unat w"] t(2)] by auto
  obtain x :: u32 where x: "word_of_double (Fin c) = Some x" using word_of_double_le [OF c(2,3)] by auto
  show ?thesis using r' t(1) a(1) b(1) w(1) c(1) x
    by (simp add: tc_calc_xmittime_def tc_core_time2tick_def d_of_word32 TIME_UNITS_PER_SEC_def)
qed


section \<open>The tables of a class\<close>

definition slot_ticks :: "tc_clock \<Rightarrow> u32 \<Rightarrow> nat \<Rightarrow> u32" where
  "slot_ticks k rate i = the (tc_calc_xmittime k rate (of_nat (8 * Suc i)))"

lemma slot_defined:
  assumes "clock_ok k" "1600 \<le> rate" "i < 256"
  shows "tc_calc_xmittime k rate (of_nat (8 * Suc i)) = Some (slot_ticks k rate i)"
proof -
  have r: "1600 \<le> unat rate" using assms(2) by (simp add: word_le_nat_alt)
  have "8 * Suc i \<le> 2048" using assms(3) by simp
  then have "unat (of_nat (8 * Suc i) :: u32) \<le> 2048" by (subst unat_of_nat_eq) simp_all
  then have "unat (of_nat (8 * Suc i) :: u32) \<le> 2 * unat rate" using r by linarith
  moreover have "rate \<noteq> 0" using assms(2) by auto
  ultimately obtain t where "tc_calc_xmittime k rate (of_nat (8 * Suc i)) = Some t" using xmittime_defined [OF assms(1)] by blast
  then show ?thesis by (simp only: slot_ticks_def option.sel)
qed

lemma rtable_default:
  assumes "clock_ok k" "1600 \<le> rs_rate r" "rs_mpu r = 0"
  shows "tc_calc_rtable k r (-1) 1600 LINKLAYER_ETHERNET =
    Some (3, map (slot_ticks k (rs_rate r)) [0..<256], r\<lparr>rs_cell_align := -1, rs_cell_log := 3\<rparr>)"
proof -
  have c: "cell_log_of 1600 255 = Some 3" by code_simp
  have "Option.bind (cell_size i 3) (\<lambda>x. Option.bind (tc_adjust_size x (ucast (rs_mpu r)) LINKLAYER_ETHERNET)
      (tc_calc_xmittime k (rs_rate r))) = Some (slot_ticks k (rs_rate r) i)" if "i \<in> set [0..<256]" for i
  proof -
    have i: "i < 256" using that by simp
    have "cell_size i 3 = Some (of_nat (8 * Suc i))" using i by (simp add: cell_size_def INT_MAX_def mult.commute)
    then show ?thesis using slot_defined [OF assms(1,2) i] assms(3)
      by (simp add: tc_adjust_size_def LINKLAYER_ETHERNET_def LINKLAYER_ATM_def del: mult_Suc_right of_nat_mult of_nat_Suc)
  qed
  then have "those (map (\<lambda>i. Option.bind (cell_size i 3) (\<lambda>x. Option.bind (tc_adjust_size x (ucast (rs_mpu r)) LINKLAYER_ETHERNET)
      (tc_calc_xmittime k (rs_rate r)))) [0..<256]) = Some (map (slot_ticks k (rs_rate r)) [0..<256])" by (rule those_map_Some)
  then show ?thesis using c by (simp add: tc_calc_rtable_def)
qed


lemma tables_default:
  assumes "clock_ok k" "0 < hz" "hz < 2 ^ 31" "1600 \<le> r"
  shows "\<exists>b. tc_calc_xmittime k r (r div of_int hz + 1600) = Some b \<and>
    htb_tables k hz (htb_start\<lparr>hv_opt := (hv_opt htb_start)\<lparr>ho_rate := no_ratespec\<lparr>rs_rate := r\<rparr>\<rparr>\<rparr>) =
    (let spec = \<lparr>rs_cell_log = 3, rs_overhead = 0, rs_cell_align = -1, rs_mpu = 0, rs_rate = r\<rparr>;
         tab = map (slot_ticks k r) [0..<256]
     in Some (\<lparr>ho_rate = spec, ho_ceil = spec, ho_buffer = b, ho_cbuffer = b, ho_quantum = 0, ho_level = 0, ho_prio = 0\<rparr>, tab, tab))"
proof -
  have u: "unat (of_int hz :: u32) = nat hz" using assms(2,3) by (simp add: unsigned_of_int take_bit_int_eq_self)
  then have h: "(of_int hz :: u32) \<noteq> 0" using assms(2) by auto
  have "unat (r div of_int hz + 1600) \<le> unat (r div of_int hz) + 1600" by (simp add: unat_word_ariths(1) unat_of_nat)
  also have "\<dots> \<le> unat r + 1600" by (simp add: unat_div)
  also have "\<dots> \<le> 2 * unat r" using assms(4) by (simp add: word_le_nat_alt)
  finally have le: "unat (r div of_int hz + 1600) \<le> 2 * unat r" .
  have "r \<noteq> 0" using assms(4) by auto
  then obtain b where b: "tc_calc_xmittime k r (r div of_int hz + 1600) = Some b" using xmittime_defined [OF assms(1) _ le] by blast
  note tables = rtable_default [OF assms(1), of "\<lparr>rs_cell_log = 0, rs_overhead = 0, rs_cell_align = 0, rs_mpu = 0, rs_rate = r\<rparr>"]
  then show ?thesis using b h assms(4) by (simp add: htb_tables_def htb_start_def no_ratespec_def Let_def)
qed

lemma tab_entry: "i < length t \<Longrightarrow> peek32 (4 * i) (tab_bytes t @ r) = t ! i"
proof (induction t arbitrary: i)
  case (Cons x t)
  then show ?case by (cases i) (simp_all add: tab_bytes_def peek32_def)
qed simp

lemma length_tab_bytes [simp]: "length (tab_bytes t) = 4 * length t"
  by (induction t) (simp_all add: tab_bytes_def)

lemma htb_opt_read:
  assumes "rs_cell_align (ho_rate h) = sint (x :: u16)" "rs_cell_align (ho_ceil h) = sint (y :: u16)"
  shows "read_htb_opt (htb_opt_bytes h @ r) = h"
  using assms by (simp add: read_htb_opt_def htb_opt_bytes_def read_ratespec_def ratespec_bytes_def peek32_def peek16_def)

lemma length_htb_opt_bytes [simp]: "length (htb_opt_bytes h) = 44"
  by (simp add: htb_opt_bytes_def ratespec_bytes_def)


section \<open>From the words to the message\<close>

definition default_htb :: "u32 \<Rightarrow> u32 \<Rightarrow> tc_htb_opt" where
  "default_htb r b =
     (let spec = \<lparr>rs_cell_log = 3, rs_overhead = 0, rs_cell_align = -1, rs_mpu = 0, rs_rate = r\<rparr>
      in \<lparr>ho_rate = spec, ho_ceil = spec, ho_buffer = b, ho_cbuffer = b, ho_quantum = 0, ho_level = 0, ho_prio = 0\<rparr>)"

definition htb_attrs :: "tc_htb_opt \<Rightarrow> u32 list \<Rightarrow> u32 list \<Rightarrow> (u16 \<times> u8 list \<times> u8 list) list" where
  "htb_attrs h rtab ctab = [(TCA_HTB_PARMS, htb_opt_bytes h, []), (TCA_HTB_RTAB, tab_bytes rtab, []), (TCA_HTB_CTAB, tab_bytes ctab, [])]"

lemma rate_word_read:
  assumes "get_rate w = Parsed r"
  shows "htb_class_args [''rate'', w] htb_start =
    Some (Ret (Some (htb_start\<lparr>hv_opt := (hv_opt htb_start)\<lparr>ho_rate := no_ratespec\<lparr>rs_rate := r\<rparr>\<rparr>\<rparr>)))"
  using assms by (simp add: htb_class_word_def htb_class_value_def matches_0_iff parsed_value_def htb_start_def no_ratespec_def)

text \<open>Whatever the options, a message with room for them holds the structure and the two tables.\<close>

lemma htb_message:
  assumes "htb_class_args argv htb_start = Some (Ret (Some v))" "rs_rate (ho_rate (hv_opt v)) \<noteq> 0"
    "htb_tables k hz v = Some (h, rtab, ctab)" "length rtab = 256" "length ctab = 256"
    and n: "nl_msg 36 as n" "4024 \<le> length n" "length (encs as) \<le> 900"
  shows "\<exists>n'. htb_parse_class_opt k hz argv n = Some (Ret (0, n')) \<and> nl_msg 36 (as @ [(TCA_OPTIONS, encs (htb_attrs h rtab ctab), [])]) n'"
proof -
  let ?n1 = "snd (addattr_l n 1024 TCA_OPTIONS [])"
  let ?n2 = "snd (addattr_l ?n1 2024 TCA_HTB_PARMS (htb_opt_bytes h))"
  let ?n3 = "snd (addattr_l ?n2 3024 TCA_HTB_RTAB (tab_bytes rtab))"
  let ?n4 = "snd (addattr_l ?n3 4024 TCA_HTB_CTAB (tab_bytes ctab))"
  have "grown 36 n (as @ [(TCA_OPTIONS, [], [])]) ?n1" by (rule open_grown [OF n(1)]) (use n(2,3) in simp_all)
  then have "grown 36 n ((as @ [(TCA_OPTIONS, [], [])]) @ [(TCA_HTB_PARMS, htb_opt_bytes h, [])]) ?n2"
    by (rule add_grown) (use n(2,3) in simp_all)
  then have "grown 36 n (((as @ [(TCA_OPTIONS, [], [])]) @ [(TCA_HTB_PARMS, htb_opt_bytes h, [])]) @ [(TCA_HTB_RTAB, tab_bytes rtab, [])]) ?n3"
    by (rule add_grown) (use n(2,3) assms(4) in simp_all)
  then have "grown 36 n ((((as @ [(TCA_OPTIONS, [], [])]) @ [(TCA_HTB_PARMS, htb_opt_bytes h, [])]) @ [(TCA_HTB_RTAB, tab_bytes rtab, [])]) @
      [(TCA_HTB_CTAB, tab_bytes ctab, [])]) ?n4"
    by (rule add_grown) (use n(2,3) assms(4,5) in simp_all)
  then have "grown 36 n (as @ [(TCA_OPTIONS, [], [])] @ htb_attrs h rtab ctab) ?n4" by (simp add: htb_attrs_def)
  from close_grown [OF n(1) _ this] obtain n' where "close_options n (Some (Ret (Some ?n4))) = Some (Ret (0, n'))"
    "nl_msg 36 (as @ [(TCA_OPTIONS, encs (htb_attrs h rtab ctab), [])]) n'" using assms(4,5) by (auto simp: grown_def htb_attrs_def)
  then show ?thesis using assms(1-3) by (simp add: htb_parse_class_opt_def Let_def)
qed

lemma htb_message_read:
  assumes "nl_msg 36 (as @ [(TCA_OPTIONS, encs (htb_attrs h rtab ctab), [])]) n" "first_attr 2 as = None" "2 \<le> mx"
    "length rtab = 256" "length ctab = 256"
  obtains opt a b c ra rb rc
  where "fst (parse_rtattr mx (drop 36 n) (uint (nlmsg_len n) - 36)) ! unat TCA_OPTIONS = Some opt"
    "parse_rtattr_nested 4 opt ! unat TCA_HTB_PARMS = Some a" "RTA_DATA a = htb_opt_bytes h @ ra" "RTA_PAYLOAD a = 44"
    "parse_rtattr_nested 4 opt ! unat TCA_HTB_RTAB = Some b" "RTA_DATA b = tab_bytes rtab @ rb" "RTA_PAYLOAD b = 1024"
    "parse_rtattr_nested 4 opt ! unat TCA_HTB_CTAB = Some c" "RTA_DATA c = tab_bytes ctab @ rc" "RTA_PAYLOAD c = 1024"
proof -
  have u: "unat TCA_HTB_PARMS = 1" "unat TCA_HTB_CTAB = 3" "unat TCA_HTB_RTAB = 4"
    by (simp_all add: TCA_HTB_PARMS_def TCA_HTB_CTAB_def TCA_HTB_RTAB_def)
  have "list_all attr_ok (htb_attrs h rtab ctab)" using assms(4,5) by (simp add: align4_def htb_attrs_def)
  from options_read [OF assms(1-3) this, of 4]
  obtain opt where opt: "fst (parse_rtattr mx (drop 36 n) (uint (nlmsg_len n) - 36)) ! unat TCA_OPTIONS = Some opt"
    and entry: "\<And>u. u \<le> 4 \<Longrightarrow> case first_attr u (htb_attrs h rtab ctab) of
        None \<Rightarrow> parse_rtattr_nested 4 opt ! u = None
      | Some d \<Rightarrow> \<exists>a r. parse_rtattr_nested 4 opt ! u = Some a \<and> RTA_DATA a = d @ r \<and> RTA_PAYLOAD a = int (length d)" by auto
  note found = entry [unfolded htb_attrs_def]
  obtain a ra where a: "parse_rtattr_nested 4 opt ! 1 = Some a" "RTA_DATA a = htb_opt_bytes h @ ra" "RTA_PAYLOAD a = 44"
    using found [of 1] u by (auto simp: first_attr_def)
  obtain b rb where b: "parse_rtattr_nested 4 opt ! 4 = Some b" "RTA_DATA b = tab_bytes rtab @ rb" "RTA_PAYLOAD b = 1024"
    using found [of 4] u assms(4) by (auto simp: first_attr_def)
  obtain c rc where c: "parse_rtattr_nested 4 opt ! 3 = Some c" "RTA_DATA c = tab_bytes ctab @ rc" "RTA_PAYLOAD c = 1024"
    using found [of 3] u assms(5) by (auto simp: first_attr_def)
  show ?thesis by (rule that [of opt a ra b rb c rc]) (use opt a b c u in simp_all)
qed

text \<open>
  C23: \<^verbatim>\<open>rate R\<close> alone sets up a class of htb completely: the parser of the kernel finds the rate, as the ceiling the
  same rate, the bursts of one scheduler interval and a packet, and in the two tables the time on the wire of every multiple
  of eight bytes up to 2048, in ticks. For a rate of 1600 bytes per second or more no computation on the way is undefined.
\<close>

theorem htb_rate_alone:
  assumes "clock_ok k" "0 < hz" "hz < 2 ^ 31" "get_rate w = Parsed r" "1600 \<le> r"
    and n: "nl_msg 36 as n" "4024 \<le> length n" "length (encs as) \<le> 900" "first_attr 2 as = None" "2 \<le> mx"
  shows "\<exists>n' opt a b c h. htb_parse_class_opt k hz [''rate'', w] n = Some (Ret (0, n')) \<and>
    fst (parse_rtattr mx (drop 36 n') (uint (nlmsg_len n') - 36)) ! unat TCA_OPTIONS = Some opt \<and>
    parse_rtattr_nested 4 opt ! unat TCA_HTB_PARMS = Some a \<and> RTA_PAYLOAD a = 44 \<and> read_htb_opt (RTA_DATA a) = h \<and>
    rs_rate (ho_rate h) = r \<and> ho_ceil h = ho_rate h \<and> rs_cell_log (ho_rate h) = 3 \<and>
    tc_calc_xmittime k r (r div of_int hz + 1600) = Some (ho_buffer h) \<and> ho_cbuffer h = ho_buffer h \<and>
    parse_rtattr_nested 4 opt ! unat TCA_HTB_RTAB = Some b \<and> RTA_PAYLOAD b = 1024 \<and>
    parse_rtattr_nested 4 opt ! unat TCA_HTB_CTAB = Some c \<and> RTA_PAYLOAD c = 1024 \<and>
    (\<forall>i<256. tc_calc_xmittime k r (of_nat (8 * Suc i)) = Some (peek32 (4 * i) (RTA_DATA b)) \<and>
       peek32 (4 * i) (RTA_DATA c) = peek32 (4 * i) (RTA_DATA b))"
proof -
  define tab1 where "tab1 = map (slot_ticks k r) [0..<256]"
  have len: "length tab1 = 256" by (simp add: tab1_def)
  obtain bu where bu: "tc_calc_xmittime k r (r div of_int hz + 1600) = Some bu"
    and tabs: "htb_tables k hz (htb_start\<lparr>hv_opt := (hv_opt htb_start)\<lparr>ho_rate := no_ratespec\<lparr>rs_rate := r\<rparr>\<rparr>\<rparr>) =
      Some (default_htb r bu, tab1, tab1)"
    using tables_default [OF assms(1-3,5)] by (auto simp: tab1_def default_htb_def Let_def)
  have "r \<noteq> 0" using assms(5) by auto
  then obtain n' where n': "htb_parse_class_opt k hz [''rate'', w] n = Some (Ret (0, n'))"
    "nl_msg 36 (as @ [(TCA_OPTIONS, encs (htb_attrs (default_htb r bu) tab1 tab1), [])]) n'"
    using htb_message [OF rate_word_read [OF assms(4)] _ tabs len len n(1-3)] by auto
  from htb_message_read [OF n'(2) n(4,5) len len] obtain opt a b c ra rb rc
    where found: "fst (parse_rtattr mx (drop 36 n') (uint (nlmsg_len n') - 36)) ! unat TCA_OPTIONS = Some opt"
      "parse_rtattr_nested 4 opt ! unat TCA_HTB_PARMS = Some a" "RTA_DATA a = htb_opt_bytes (default_htb r bu) @ ra" "RTA_PAYLOAD a = 44"
      "parse_rtattr_nested 4 opt ! unat TCA_HTB_RTAB = Some b" "RTA_DATA b = tab_bytes tab1 @ rb" "RTA_PAYLOAD b = 1024"
      "parse_rtattr_nested 4 opt ! unat TCA_HTB_CTAB = Some c" "RTA_DATA c = tab_bytes tab1 @ rc" "RTA_PAYLOAD c = 1024" .
  have rd: "read_htb_opt (RTA_DATA a) = default_htb r bu" unfolding found(3)
    by (rule htb_opt_read [of _ "-1" "-1"]) (simp_all add: default_htb_def Let_def)
  have slots: "\<forall>i<256. tc_calc_xmittime k r (of_nat (8 * Suc i)) = Some (peek32 (4 * i) (RTA_DATA b)) \<and>
       peek32 (4 * i) (RTA_DATA c) = peek32 (4 * i) (RTA_DATA b)"
    using slot_defined [OF assms(1,5)] len by (simp add: found(6,9) tab_entry tab1_def del: of_nat_mult of_nat_Suc mult_Suc_right)
  show ?thesis
    by (rule exI [of _ n'], rule exI [of _ opt], rule exI [of _ a], rule exI [of _ b], rule exI [of _ c], rule exI [of _ "default_htb r bu"])
      (use n'(1) found(1,2,4,5,7,8,10) rd slots bu in \<open>simp add: default_htb_def Let_def\<close>)
qed

definition class_request :: "u8 list" where "class_request = le_bytes 4 (36 :: u32) @ replicate 4500 0"

theorem htb_rate_alone_witness:
  "\<exists>n' opt a b. htb_parse_class_opt initial_clock 100 [''rate'', fmt_nat 10 @ ''mbit''] class_request = Some (Ret (0, n')) \<and>
    fst (parse_rtattr 8 (drop 36 n') (uint (nlmsg_len n') - 36)) ! unat TCA_OPTIONS = Some opt \<and>
    parse_rtattr_nested 4 opt ! unat TCA_HTB_PARMS = Some a \<and> rs_rate (ho_rate (read_htb_opt (RTA_DATA a))) = 1250000 \<and>
    parse_rtattr_nested 4 opt ! unat TCA_HTB_RTAB = Some b \<and>
    tc_calc_xmittime initial_clock 1250000 1504 = Some (peek32 (4 * 187) (RTA_DATA b))"
proof -
  have m: "nl_msg 36 [] class_request" by (simp add: nl_msg_def class_request_def nlmsg_len_def peek32_def)
  have len: "4024 \<le> length class_request" by (simp add: class_request_def)
  have f: "rate_factor ''mbit'' = Some 1000000" by (simp add: rate_factor_def suffixes_def strcaseeq_def to_lower_def)
  have g: "get_rate (fmt_nat 10 @ ''mbit'') = Parsed 1250000"
    using get_rate.parse_whole [OF factor_ends(3) [OF f], of _ 10] f by (simp add: rate_scale_def)
  have k: "clock_ok initial_clock" by (simp add: clock_ok_def initial_clock_def)
  have "first_attr 2 [] = None" "length (encs []) \<le> 900" by (simp_all add: first_attr_def)
  moreover have "(0 :: int) < 100" "(100 :: int) < 2 ^ 31" "(1600 :: u32) \<le> 1250000" "2 \<le> (8 :: nat)" by simp_all
  ultimately obtain n' opt a b where *: "htb_parse_class_opt initial_clock 100 [''rate'', fmt_nat 10 @ ''mbit''] class_request = Some (Ret (0, n'))"
    "fst (parse_rtattr 8 (drop 36 n') (uint (nlmsg_len n') - 36)) ! unat TCA_OPTIONS = Some opt"
    "parse_rtattr_nested 4 opt ! unat TCA_HTB_PARMS = Some a" "rs_rate (ho_rate (read_htb_opt (RTA_DATA a))) = 1250000"
    "parse_rtattr_nested 4 opt ! unat TCA_HTB_RTAB = Some b"
    "\<forall>i<256. tc_calc_xmittime initial_clock 1250000 (of_nat (8 * Suc i)) = Some (peek32 (4 * i) (RTA_DATA b))"
    using htb_rate_alone [OF k _ _ g _ m len, of 100 8] by blast
  have "tc_calc_xmittime initial_clock 1250000 1504 = Some (peek32 (4 * 187) (RTA_DATA b))" using *(6) [rule_format, of 187] by simp
  then show ?thesis using *(1-5) by blast
qed

section \<open>The listing of a class\<close>

text \<open>
  The details of a class never show the overhead that was entered: the number printed as the overhead is the
  high byte of the smallest packet unit, of which only the low byte is printed.
\<close>

lemma eq_of_unat: "unat (w :: u32) = n \<Longrightarrow> w = of_nat n"
  by auto

lemma halves_of_16:
  "ucast (m :: u16) AND (0xFF :: u32) = of_nat (unat m mod 256)" "drop_bit 8 (ucast m) AND (0xFF :: u32) = of_nat (unat m div 256)"
proof -
  have m: "(0xFF :: u32) = mask 8" by (simp add: mask_eq_exp_minus_1)
  have b: "unat m < 65536" using unsigned_less [of m, where ?'a = nat] by simp
  have u: "unat (ucast m :: u32) = unat m" using b by (simp add: unsigned_ucast_eq take_bit_nat_eq_self)
  have "unat (ucast m AND (0xFF :: u32)) = unat m mod 256"
    using u by (simp add: m unsigned_take_bit_eq unat_mod take_bit_eq_mod flip: take_bit_eq_mask)
  then show "ucast m AND (0xFF :: u32) = of_nat (unat m mod 256)" by (rule eq_of_unat)
  have "unat (drop_bit 8 (ucast m) AND (0xFF :: u32)) = unat m div 256 mod 256"
    using u by (simp add: m unsigned_take_bit_eq unat_drop_bit_eq unat_mod unat_div take_bit_eq_mod drop_bit_eq_div flip: take_bit_eq_mask)
  also have "\<dots> = unat m div 256" using b by (intro mod_less) (simp add: less_mult_imp_div_less)
  finally show "drop_bit 8 (ucast m) AND (0xFF :: u32) = of_nat (unat m div 256)" by (rule eq_of_unat)
qed

theorem htb_overhead_not_listed:
  "htb_burst name b (r\<lparr>rs_overhead := x\<rparr>) = htb_burst name b r \<and>
   (rs_cell_log r < 32 \<longrightarrow>
     (\<exists>t. htb_burst name b r = Some (t @ '' mpu '' @ sprint_size (of_nat (unat (rs_mpu r) mod 256)) @
        '' overhead '' @ sprint_size (of_nat (unat (rs_mpu r) div 256)) @ '' '')))"
  by (auto simp: htb_burst_def halves_of_16 not_le [symmetric])

end
