(* ===== verification/Spec2Isabelle.thy ===== *)
theory Spec2Isabelle
  imports Pfab_Props Utils_Props Rt_Names Ll_Names Libgenl Q_Simple F_Fw_Props Ss_Code Ss_Host Em_Props F_U32_Ip6 Tc_Filter_Props Htb_Props
begin

text \<open>
  Verification of the pFabric queueing discipline and of the iproute2 code that configures it.

  \<^bold>\<open>The program.\<close> The repository implements pFabric, a datacentre transport in which every packet
  carries a priority and every switch port keeps a small buffer that serves the most urgent packet
  first and evicts the least urgent one when it is full. Its parts and how they interact:

    \<^item> a kernel module, \<^verbatim>\<open>src/kernel\<close>: the queueing discipline (\<^verbatim>\<open>sch_pfab.c\<close>, \<^verbatim>\<open>sch_pfab.h\<close>), two
      proc files that report its statistics (\<^verbatim>\<open>stats.c\<close>) and a test program that runs when the
      module is loaded (\<^verbatim>\<open>pfabric_tests.c\<close>). The kernel calls the operations of the table
      \<^verbatim>\<open>pfab_qdisc_ops\<close>; enqueue, dequeue and drop share the bands, the bitmap of occupied bands and
      the statistics;
    \<^item> a copy of iproute2 with a module \<^verbatim>\<open>tc/q_pfabric.c\<close>: the \<^verbatim>\<open>tc\<close> command reads options with the
      parsers of \<^verbatim>\<open>tc/tc_util.c\<close> and \<^verbatim>\<open>lib/utils.c\<close>, packs them into netlink attributes and sends them
      with \<^verbatim>\<open>lib/libnetlink.c\<close>; the kernel hands the attribute to \<^verbatim>\<open>pfab_change\<close>. Device names come
      from \<^verbatim>\<open>lib/ll_map.c\<close>, names of other numbers from \<^verbatim>\<open>lib/rt_names.c\<close>.

  \<^bold>\<open>The theories.\<close> Every operation is a function on explicit state with the name of the C function.
  Unsigned C types are words of their width; a C \<^verbatim>\<open>int\<close> is an \<open>int\<close> where it cannot overflow and the
  signed value of a word where it can.

    \<^item> \<open>Prelude\<close>: machine types, sums over indexed lists, first and last match of a counting loop,
      little-endian codecs, the theorem collections.
    \<^item> \<open>CFormat\<close>, \<open>CStr\<close>, \<open>CDouble\<close>: what the sources use of the C library: formatted output,
      \<^verbatim>\<open>strtol\<close> and its relatives, \<^verbatim>\<open>double\<close> with round-to-even and \<^verbatim>\<open>strtod\<close>.
    \<^item> \<open>Kernel_API\<close>: the kernel helpers the module calls, as the locale \<open>kernel_qdisc\<close> with the
      instance \<open>list_kernel\<close>; socket buffers and \<^verbatim>\<open>struct Qdisc\<close>.
    \<^item> \<open>Pfab_Data\<close> (\<^verbatim>\<open>sch_pfab.h\<close>, bitmap functions), \<open>Pfab_Stats\<close> (\<^verbatim>\<open>stats.c\<close>), \<open>Sch_Pfab\<close> (the operations
      of \<^verbatim>\<open>sch_pfab.c\<close>), \<open>Pfab_Tests\<close> (\<^verbatim>\<open>pfabric_tests.c\<close>, module entry points).
    \<^item> \<open>Bands\<close>: the specification, a strict-priority buffer as a list in service order, and its
      representation by an array of bands. \<open>Pfab_Inv\<close>: the invariant and what each operation keeps
      of it. \<open>Pfab_Refine\<close>: the operations implement the specification in every state whose bitmap
      marks exactly the occupied bands. \<open>Pfab_Steps\<close>: the discipline as a state machine with its
      reachable states. \<open>Pfab_Props\<close>: the properties.
    \<^item> \<open>Utils_Num\<close>, \<open>Utils_Addr\<close>, \<open>Utils_Cmd\<close> with \<open>Utils_Props\<close> (\<^verbatim>\<open>lib/utils.c\<close>), \<open>Dnet_Ipx\<close>
      (\<^verbatim>\<open>lib/dnet_*.c\<close>, \<^verbatim>\<open>lib/ipx_*.c\<close>).
    \<^item> \<open>Netlink_Attr\<close> (attributes: building, nesting and parsing) and \<open>Netlink_Sock\<close> (requests, dumps,
      acknowledgements) for \<^verbatim>\<open>lib/libnetlink.c\<close>. A message is its list of bytes; the socket is the
      sequence of what it delivers. \<open>Netlink_Hdr\<close>: the steps between building and sending a message.
    \<^item> \<open>Units\<close>, \<open>Tc_Util\<close> (\<^verbatim>\<open>tc/tc_util.c\<close>), \<open>Tc_Core\<close> (\<^verbatim>\<open>tc/tc_core.c\<close>, \<^verbatim>\<open>tc/tc_estimator.c\<close>),
      \<open>Tc_Stab\<close> (\<^verbatim>\<open>tc/tc_stab.c\<close>, \<^verbatim>\<open>tc/m_estimator.c\<close>), \<open>Q_Pfabric\<close> (\<^verbatim>\<open>tc/q_pfabric.c\<close>).
    \<^item> \<open>Tc_Qdisc\<close> (\<^verbatim>\<open>tc/tc_qdisc.c\<close> and the registry of modules of \<^verbatim>\<open>tc/tc.c\<close>), \<open>Tc_Class\<close> (\<^verbatim>\<open>tc/tc_class.c\<close>),
      \<open>Tc_Filter\<close> (\<^verbatim>\<open>tc/tc_filter.c\<close> and the registry of filters of \<^verbatim>\<open>tc/tc.c\<close>), \<open>Tc_Main\<close> (\<^verbatim>\<open>tc/tc.c\<close>, \<^verbatim>\<open>tc/tc_monitor.c\<close>): the global variables are the record \<open>tc_state\<close>, what is
      outside the program the records \<open>tc_env\<close> (one command) and \<open>tc_system\<close> (one run). \<open>Tc_Props\<close>: from the
      command line to the installed configuration. \<open>Tc_Filter_Props\<close>: from the command line to the packets a
      filter accepts, and listings read back.
    \<^item> \<open>Rt_Names\<close> (\<^verbatim>\<open>lib/rt_names.c\<close>), \<open>Ll_Map\<close> (\<^verbatim>\<open>lib/ll_map.c\<close>), \<open>Ll_Names\<close> (\<^verbatim>\<open>lib/ll_types.c\<close>, \<^verbatim>\<open>lib/ll_proto.c\<close>,
      \<^verbatim>\<open>lib/ll_addr.c\<close>, \<^verbatim>\<open>lib/inet_proto.c\<close>), \<open>Libgenl\<close> (\<^verbatim>\<open>lib/libgenl.c\<close>).
    \<^item> \<open>Q_Prio\<close> (\<^verbatim>\<open>tc/q_prio.c\<close>, \<^verbatim>\<open>tc/q_rr.c\<close>): the other priority disciplines of \<^verbatim>\<open>tc\<close>. \<open>Q_Simple\<close> (\<^verbatim>\<open>tc/q_fifo.c\<close>,
      \<^verbatim>\<open>tc/q_ingress.c\<close>, \<^verbatim>\<open>tc/q_multiq.c\<close>, \<^verbatim>\<open>tc/q_drr.c\<close>, \<^verbatim>\<open>tc/q_qfq.c\<close>): small disciplines. \<open>Q_Htb\<close> (\<^verbatim>\<open>tc/q_htb.c\<close>) and \<open>Htb_Props\<close>: the discipline with rates under
      which the experiments install pFabric.
    \<^item> \<open>F_Common\<close>: the loop over the options of a filter and the messages it builds. \<open>F_Fw\<close> (\<^verbatim>\<open>tc/f_fw.c\<close>,
      \<^verbatim>\<open>tc/f_tcindex.c\<close>) and \<open>F_Fw_Props\<close>: filters by mark and by index.
    \<^item> \<open>F_U32\<close> (\<^verbatim>\<open>tc/f_u32.c\<close>): handles, selectors, the parsers of tests, the argument loop and the printer of
      the u32 filter. \<open>F_U32_Sem\<close>: what a selector accepts; \<open>F_U32_Props\<close>: from a command line to the
      selector in the message; \<open>F_U32_Ip6\<close>: address prefixes; \<open>F_U32_Module\<close>: the loop ends, the
      module in the registry.
    \<^item> \<open>Ematch\<close> (\<^verbatim>\<open>tc/m_ematch.c\<close>): expressions of extended matches as nodes in memory. \<open>Ematch_Flat\<close>: the
      flattening; \<open>Ematch_Msg\<close>: messages and printing. \<open>Em_Kinds\<close> (\<^verbatim>\<open>tc/em_cmp.c\<close>, \<^verbatim>\<open>tc/em_nbyte.c\<close>,
      \<^verbatim>\<open>tc/em_u32.c\<close>) and \<open>Em_Props\<close>: three kinds of matches.
    \<^item> \<open>Ss_Filter\<close>, \<open>Ss_Code\<close>, \<open>Ss_Host\<close> (\<^verbatim>\<open>misc/ss.c\<close>): the filters of \<^verbatim>\<open>ss\<close>, their interpreter, their compiler to the
      jump code of the kernel, the reader of host conditions, socket states and the table of users.

  \<^bold>\<open>What is shown.\<close>

    \<^item> The discipline: enqueue and dequeue implement the priority buffer exactly as long as the bitmap
      is exact; in every reachable state the accounting holds, and dequeue serves the oldest packet of
      the most urgent priority when it is enabled and the most urgent marked band holds a packet, and nothing otherwise. Packets
      below the limit are accepted and served in order. Exactness is lost precisely when an eviction empties a
      band, and then packets starve and the limit is not kept. Options decode as encoded, the reported
      statistics follow the discipline.
    \<^item> Netlink: what is added to a message is found again by the parser, also nested; a dump reaches
      the filter completely and in order, and a request gets the verdict of its own acknowledgement, however often the
      reads are interrupted and whatever foreign messages come between.
    \<^item> Text: numbers, addresses, prefixes, handles, sizes, verdicts and names are read back from what
      is printed for them, with the exceptions stated; unit suffixes scale exactly.
    \<^item> Tables: the size table of a link is complete and minimal; a class of htb given a rate alone is sent with that rate,
      its bursts and complete tables of times; the map of the links knows every link
      of a dump, and no answer of the kernel whose names fit the table damages it (a longer name overflows its entry).
    \<^item> End to end: \<^verbatim>\<open>tc qdisc add dev DEV root pfabric OPTIONS\<close> sends one message, from which the kernel's
      parser reads the kind and the options that \<^verbatim>\<open>pfab_change\<close> installs, and returns the verdict of the
      kernel; \<^verbatim>\<open>tc filter add ... u32 TESTS flowid CLASS\<close> sends one message, whose selector accepts exactly the packets
      that pass all its raw tests of aligned bytes, halfwords and words, or nothing when no packet can; a batch file is the sequence of its commands.
    \<^item> Filters and matches: the tests of a u32 command line become one selector that accepts exactly the
      packets that pass all of them, and contradictory tests are refused; the place of a filter in a listing can be entered
      again; filters by mark are printed as entered; an extended match of any nesting is printed
      as it was entered; a masked match has its bytes at their place.
    \<^item> \<^verbatim>\<open>ss\<close>: the jump code of a filter selects the sockets that the interpreter selects, a host condition selects the
      sockets whose address begins with its bits and whose port is right (the families are not compared), and a conjunction whose
      parts are too long for a \<^verbatim>\<open>char\<close> aborts the program or copies with a negative size.

  \<^bold>\<open>Bounds and fuel.\<close> The walks over the messages of a datagram take as fuel the number of bytes left;
  each message uses at least one, so the fuel is never used up on a well-formed datagram, and the
  theorems show that the result is reached. The loop of \<^verbatim>\<open>tc_calc_size_table\<close> that raises the shift is
  given sixteen passes, which is proved to be enough for 16-bit entries. The walks along the nodes of an
  extended match need more than twice as many steps as there are nodes, the argument loop of the u32 filter as
  many as there are tests; the theorems show that the result is reached from there on. In the registry that loop and those of
  the other filters get as much fuel as there are arguments, which is proved to be enough when the parsers of
  policers and actions do not lengthen the arguments. Everything else terminates by structure or
  by a measure.

  \<^bold>\<open>Interfaces.\<close> Contracts between components are locales, interpreted on the model: \<open>kernel_qdisc\<close> (kernel
  helpers), the bitmap and band interfaces of \<open>Pfab_Data\<close> and \<open>Bands\<close>, the parser contracts of \<open>Utils_Num\<close>
  and \<open>Units\<close>, \<open>name_table\<close> (\<open>Rt_Names\<close>), \<open>index_map\<close> (\<open>Ll_Map\<close>), and \<open>filter_invariant\<close> (\<open>Netlink_Sock\<close>): what a
  callback keeps for every message that meets a condition, a dump of such messages keeps, used by \<open>Ll_Map\<close> and \<open>Tc_Class\<close>; \<open>field_packer\<close> (\<open>F_U32_Sem\<close>): what the packers of
  bytes, halfwords and words promise to the parsers of tests; \<open>consuming\<close> (\<open>F_Common\<close>): a pass of an argument loop
  takes an argument, so that the loop ends.

  \<^bold>\<open>Memory.\<close> A failing allocation is a branch of the model in the test program, the size tables, the cache of host names and the
  printer of extended matches; elsewhere memory is taken to be granted. A kind of extended matches
  in a buffer without a terminating zero is an undefined value.

  \<^bold>\<open>Not modelled.\<close> The \<^verbatim>\<open>ip\<close> command, the \<^verbatim>\<open>tc\<close> modules of the remaining disciplines, filters and actions, the
  kinds meta, canid and ipset of extended matches, the parts of \<^verbatim>\<open>ss\<close> that read tables of the system, the other
  diagnostic programs, \<^verbatim>\<open>bridge\<close> and \<^verbatim>\<open>genl\<close>: upstream code that the pFabric program neither changes
  nor uses. The generators of the netem tables, the file the kernel build generates, and the Python
  experiments. Of the modelled files: usage texts and messages on the error stream, \<^verbatim>\<open>pfab_dump\<close>, which no
  build contains, \<^verbatim>\<open>__get_user_hz\<close> and \<^verbatim>\<open>print_timestamp\<close>, which only ask the system.
\<close>

end
